(* ===== verification/Prelude.thy ===== *)
theory Prelude
  imports Main "HOL-Library.Multiset" "HOL-Library.Sublist" "HOL-Library.List_Lexorder"
    "HOL-Library.Char_ord"
begin

text \<open>
  Shared vocabulary of the development: the types that stand for the values of the
  TypeScript code (identifiers, dates), the JavaScript string and array functions the
  code calls, a stable sort by a comparator, and the lemma collections the component
  theories extend.

  Identifiers, branch names and commit hashes are \<^typ>\<open>string\<close>: sequences of code
  units below 256. Dates are \<^typ>\<open>int\<close>, their \<open>getTime()\<close> in milliseconds; the
  ISO texts the database stores order like the numbers they denote.
\<close>

type_synonym ident = string
type_synonym time = int

named_theorems job_ops \<open>definitions of the job transitions\<close>
named_theorems run_ops \<open>definitions of the run transitions\<close>
named_theorems loop_ops \<open>definitions of the loop transitions\<close>
named_theorems comment_ops \<open>definitions of the review comment transitions\<close>
named_theorems batch_ops \<open>definitions of the release batch operations\<close>
named_theorems queue_ops \<open>definitions of the job queue operations\<close>
named_theorems lease_ops \<open>definitions of the worker lease operations\<close>

section \<open>Results\<close>

abbreviation ok :: "'e + 'a \<Rightarrow> bool" where
  "ok r \<equiv> (case r of Inl _ \<Rightarrow> False | Inr _ \<Rightarrow> True)"

lemma ok_iff: "ok r \<longleftrightarrow> (\<exists>x. r = Inr x)"
  by (cases r) auto

section \<open>Strings\<close>

text \<open>White space as \<open>String.prototype.trim\<close> sees it, below code unit 256.\<close>

definition js_space :: "char \<Rightarrow> bool" where
  "js_space c \<longleftrightarrow> (of_char c :: nat) \<in> set [9, 10, 11, 12, 13, 32, 160]"

definition js_trim :: "string \<Rightarrow> string" where
  "js_trim s = rev (dropWhile js_space (rev (dropWhile js_space s)))"

definition js_blank :: "string \<Rightarrow> bool" where
  "js_blank s \<longleftrightarrow> length (js_trim s) = 0"

lemma js_blank_iff: "js_blank s \<longleftrightarrow> (\<forall>c \<in> set s. js_space c)"
proof
  assume blank: "js_blank s"
  have "dropWhile js_space s = []"
  proof (rule ccontr)
    assume ne: "dropWhile js_space s \<noteq> []"
    then have "\<not> js_space (hd (dropWhile js_space s))"
      by (rule hd_dropWhile)
    moreover have "hd (dropWhile js_space s) \<in> set (dropWhile js_space s)"
      using ne by (rule hd_in_set)
    ultimately show False
      using blank by (auto simp: js_blank_def js_trim_def)
  qed
  then show "\<forall>c \<in> set s. js_space c" by simp
next
  assume "\<forall>c \<in> set s. js_space c"
  then show "js_blank s"
    by (auto simp: js_blank_def js_trim_def dest: set_dropWhileD)
qed

lemma js_blank_Nil [simp]: "js_blank []"
  by (simp add: js_blank_iff)

text \<open>Template literals: the decimal digits of an integer.\<close>

fun show_nat :: "nat \<Rightarrow> string" where
  "show_nat n = (if n < 10 then [char_of (48 + n)] else show_nat (n div 10) @ [char_of (48 + n mod 10)])"

declare show_nat.simps [simp del]

definition show_int :: "int \<Rightarrow> string" where
  "show_int i = (if i < 0 then ''-'' @ show_nat (nat (- i)) else show_nat (nat i))"

text \<open>Truthiness of optional strings and numbers.\<close>

definition truthy :: "string option \<Rightarrow> bool" where
  "truthy s \<longleftrightarrow> s \<noteq> None \<and> s \<noteq> Some []"

definition truthy_int :: "int option \<Rightarrow> bool" where
  "truthy_int i \<longleftrightarrow> i \<noteq> None \<and> i \<noteq> Some 0"

lemma truthy_simps [simp]: "\<not> truthy None" "truthy (Some s) \<longleftrightarrow> s \<noteq> []"
  by (simp_all add: truthy_def)

lemma truthy_iff: "truthy s \<longleftrightarrow> (\<exists>t. s = Some t \<and> t \<noteq> [])"
  by (cases s) simp_all

lemma truthy_int_simps [simp]: "\<not> truthy_int None" "truthy_int (Some i) \<longleftrightarrow> i \<noteq> 0"
  by (simp_all add: truthy_int_def)

text \<open>\<open>a ?? b\<close>.\<close>

definition coalesce :: "'a option \<Rightarrow> 'a option \<Rightarrow> 'a option" where
  "coalesce a b = (if a \<noteq> None then a else b)"

lemma coalesce_simps [simp]: "coalesce None b = b" "coalesce (Some x) b = Some x"
  by (simp_all add: coalesce_def)

text \<open>\<open>s?.startsWith(p)\<close>.\<close>

definition starts_with :: "string \<Rightarrow> string option \<Rightarrow> bool" where
  "starts_with p s = (case s of None \<Rightarrow> False | Some t \<Rightarrow> prefix p t)"

section \<open>Arrays\<close>

text \<open>\<open>Array.prototype.findIndex\<close>, with \<open>None\<close> for the \<open>-1\<close> of a miss.\<close>

fun find_index :: "('a \<Rightarrow> bool) \<Rightarrow> 'a list \<Rightarrow> nat option" where
  "find_index P [] = None"
| "find_index P (x # xs) = (if P x then Some 0 else map_option Suc (find_index P xs))"

lemma find_index_None: "find_index P xs = None \<longleftrightarrow> (\<forall>x \<in> set xs. \<not> P x)"
  by (induction xs) auto

lemma find_index_SomeD:
  "find_index P xs = Some i \<Longrightarrow> i < length xs \<and> P (xs ! i) \<and> (\<forall>k < i. \<not> P (xs ! k))"
proof (induction xs arbitrary: i)
  case (Cons x xs)
  then show ?case
    by (auto split: if_splits simp: nth_Cons' less_Suc_eq_0_disj)
qed simp

lemma find_index_Some_lt [dest]: "find_index P xs = Some i \<Longrightarrow> i < length xs"
  by (drule find_index_SomeD) simp

lemma find_None_iff: "List.find P xs = None \<longleftrightarrow> (\<forall>x \<in> set xs. \<not> P x)"
  by (induction xs) auto

lemma find_SomeD: "List.find P xs = Some x \<Longrightarrow> x \<in> set xs \<and> P x"
  by (induction xs) (auto split: if_splits)

lemma set_list_update_eq:
  "i < length xs \<Longrightarrow> set (xs[i := y]) = insert y {xs ! k | k. k < length xs \<and> k \<noteq> i}"
  by (auto simp: set_conv_nth nth_list_update split: if_splits)

lemma map_list_update_same:
  "i < length xs \<Longrightarrow> f y = f (xs ! i) \<Longrightarrow> map f (xs[i := y]) = map f xs"
  by (rule nth_equalityI) (auto simp: nth_list_update)

section \<open>Stable sort by a comparator\<close>

text \<open>
  \<open>Array.prototype.sort\<close> is stable; for a consistent comparator its result is the one a
  stable insertion sort gives. \<open>le x y\<close> is \<open>compare(x, y) <= 0\<close>.
\<close>

fun insert_by :: "('a \<Rightarrow> 'a \<Rightarrow> bool) \<Rightarrow> 'a \<Rightarrow> 'a list \<Rightarrow> 'a list" where
  "insert_by le x [] = [x]"
| "insert_by le x (y # ys) = (if le x y then x # y # ys else y # insert_by le x ys)"

fun sort_by :: "('a \<Rightarrow> 'a \<Rightarrow> bool) \<Rightarrow> 'a list \<Rightarrow> 'a list" where
  "sort_by le [] = []"
| "sort_by le (x # xs) = insert_by le x (sort_by le xs)"

lemma mset_insert_by [simp]: "mset (insert_by le x xs) = add_mset x (mset xs)"
  by (induction xs) auto

lemma mset_sort_by [simp]: "mset (sort_by le xs) = mset xs"
  by (induction xs) auto

lemma set_insert_by [simp]: "set (insert_by le x xs) = insert x (set xs)"
  by (induction xs) auto

lemma set_sort_by [simp]: "set (sort_by le xs) = set xs"
  by (induction xs) auto

lemma length_sort_by [simp]: "length (sort_by le xs) = length xs"
  by (metis mset_sort_by size_mset)

lemma sorted_insert_by:
  assumes total: "\<And>a b. le a b \<or> le b a"
    and trans: "\<And>a b c. le a b \<Longrightarrow> le b c \<Longrightarrow> le a c"
    and xs: "sorted_wrt le xs"
  shows "sorted_wrt le (insert_by le x xs)"
  using xs
proof (induction xs)
  case (Cons y ys)
  show ?case
  proof (cases "le x y")
    case True
    then show ?thesis using Cons.prems by (auto intro: trans [OF True])
  next
    case False
    then have "le y x" using total by blast
    then show ?thesis using Cons False by simp
  qed
qed simp

lemma sorted_sort_by:
  "(\<And>a b. le a b \<or> le b a) \<Longrightarrow> (\<And>a b c. le a b \<Longrightarrow> le b c \<Longrightarrow> le a c) \<Longrightarrow>
   sorted_wrt le (sort_by le xs)"
  by (induction xs) (simp_all add: sorted_insert_by)

lemma distinct_sort_by [simp]: "distinct (map f (sort_by le xs)) = distinct (map f xs)"
proof -
  have "mset (map f (sort_by le xs)) = mset (map f xs)" by simp
  then show ?thesis by (rule mset_eq_imp_distinct_iff)
qed

end
