(* ===== verification/Release_Batch.thy ===== *)
theory Release_Batch
  imports Prelude
begin

text \<open>
  Release batches, \<^verbatim>\<open>packages/domain/src/release-batch.ts\<close>: an ordered list of
  issues that are implemented, merged into a release branch, tested by hand and promoted.
  Every function of the file that changes a batch is a definition here, its error classes
  the constructors of \<open>batch_error\<close>.
\<close>

section \<open>Data\<close>

datatype batch_status =
    BQueued | BBuilding | BBlocked | BAwaitingManualTest | BTestFailed | BApproved | BPromoting
  | BCompleted | BCancelled

definition RELEASE_BATCH_STATUSES :: "batch_status list" where
  "RELEASE_BATCH_STATUSES =
     [BQueued, BBuilding, BBlocked, BAwaitingManualTest, BTestFailed, BApproved, BPromoting,
      BCompleted, BCancelled]"

definition ALL_ITEMS_MERGED_ALLOWED_STATUSES :: "batch_status list" where
  "ALL_ITEMS_MERGED_ALLOWED_STATUSES =
     [BBuilding, BAwaitingManualTest, BApproved, BPromoting, BCompleted]"

definition isAllItemsMergedAllowedStatus :: "batch_status \<Rightarrow> bool" where
  "isAllItemsMergedAllowedStatus s \<longleftrightarrow> s \<in> set ALL_ITEMS_MERGED_ALLOWED_STATUSES"

datatype item_status = IPending | IActive | IWaitingMerge | IMerged | IBlocked

record batch_item =
  bi_releaseBatchId :: ident
  bi_position :: int
  bi_issueNumber :: int
  bi_status :: item_status
  bi_runUuid :: "ident option"
  bi_prNumber :: "int option"
  bi_baseSha :: "string option"
  bi_mergedCommitSha :: "string option"
  bi_blockedReason :: "string option"
  bi_startedAt :: "time option"
  bi_completedAt :: "time option"

record release_batch =
  b_id :: ident
  b_repoId :: ident
  b_sourceBranch :: string
  b_sourceStartSha :: string
  b_releaseBranch :: string
  b_status :: batch_status
  b_currentPosition :: int
  b_candidateSha :: "string option"
  b_approvedCandidateSha :: "string option"
  b_candidateTreeSha :: "string option"
  b_promotionCommitSha :: "string option"
  b_promotionPrNumber :: "int option"
  b_blockedReason :: "string option"
  b_createdAt :: time
  b_completedAt :: "time option"
  b_items :: "batch_item list"

text \<open>
  \<open>ReleaseBatchStateError\<close> and its subclasses. The last three are thrown by the
  coordinator only, never by this file.
\<close>

datatype batch_error =
    ReleaseBatchStateError string
  | DuplicatePositionError int
  | DuplicateIssueError int
  | DuplicateRunAssignmentError ident
  | ReassignRunError int
  | ImmutableItemMergedError int
  | ConcurrentAdmissionError int
  | PrematureCandidateCaptureError int
  | InvalidCandidateShaError string
  | UnapprovedPromotionError
  | TerminalBatchError batch_status
  | RemediationNotAllowedError batch_status
  | SourceBranchDriftError
  | ReleaseBranchDriftError
  | TreeEquivalenceError

definition batch_terminal :: "batch_status \<Rightarrow> bool" where
  "batch_terminal s \<longleftrightarrow> s = BCompleted \<or> s = BCancelled"

definition assertNotTerminal ::
  "release_batch \<Rightarrow> (batch_error + release_batch) \<Rightarrow> batch_error + release_batch" where
  "assertNotTerminal b r = (if batch_terminal (b_status b) then Inl (TerminalBatchError (b_status b)) else r)"

text \<open>\<open>!s\<close> of an optional string: undefined or empty.\<close>

definition falsy :: "string option \<Rightarrow> bool" where
  "falsy s \<longleftrightarrow> s = None \<or> s = Some []"

section \<open>Creation\<close>

record item_input =
  ii_position :: int
  ii_issueNumber :: int
  ii_status :: "item_status option"
  ii_runUuid :: "ident option"
  ii_prNumber :: "int option"
  ii_baseSha :: "string option"
  ii_mergedCommitSha :: "string option"
  ii_blockedReason :: "string option"
  ii_startedAt :: "time option"
  ii_completedAt :: "time option"

record batch_input =
  in_id :: ident
  in_repoId :: ident
  in_sourceBranch :: string
  in_sourceStartSha :: string
  in_releaseBranch :: string
  in_status :: "batch_status option"
  in_currentPosition :: "int option"
  in_candidateSha :: "string option"
  in_approvedCandidateSha :: "string option"
  in_candidateTreeSha :: "string option"
  in_promotionCommitSha :: "string option"
  in_promotionPrNumber :: "int option"
  in_blockedReason :: "string option"
  in_createdAt :: time
  in_completedAt :: "time option"
  in_items :: "item_input list"

text \<open>The validation loop over the sorted items, with its three sets of seen values.\<close>

fun check_items ::
  "nat \<Rightarrow> item_input list \<Rightarrow> int list \<Rightarrow> int list \<Rightarrow> ident list \<Rightarrow> batch_error option" where
  "check_items i [] seenPositions seenIssues seenRunUuids = None"
| "check_items i (item # items) seenPositions seenIssues seenRunUuids =
     (if ii_position item \<le> 0 then Some (ReleaseBatchStateError ''position'')
      else if ii_position item \<in> set seenPositions then Some (DuplicatePositionError (ii_position item))
      else if ii_position item \<noteq> int i + 1 then Some (ReleaseBatchStateError ''contiguous'')
      else if ii_issueNumber item \<le> 0 then Some (ReleaseBatchStateError ''issueNumber'')
      else if ii_issueNumber item \<in> set seenIssues then Some (DuplicateIssueError (ii_issueNumber item))
      else case ii_runUuid item of
        None \<Rightarrow>
          check_items (i + 1) items (ii_position item # seenPositions)
            (ii_issueNumber item # seenIssues) seenRunUuids
      | Some u \<Rightarrow>
          if js_blank u then Some (ReleaseBatchStateError ''runUuid'')
          else if u \<in> set seenRunUuids then Some (DuplicateRunAssignmentError u)
          else check_items (i + 1) items (ii_position item # seenPositions)
            (ii_issueNumber item # seenIssues) (u # seenRunUuids))"

definition item_of_input :: "ident \<Rightarrow> item_input \<Rightarrow> batch_item" where
  "item_of_input bid i =
     \<lparr>bi_releaseBatchId = bid, bi_position = ii_position i, bi_issueNumber = ii_issueNumber i,
      bi_status = (case ii_status i of None \<Rightarrow> IPending | Some s \<Rightarrow> s),
      bi_runUuid = ii_runUuid i, bi_prNumber = ii_prNumber i, bi_baseSha = ii_baseSha i,
      bi_mergedCommitSha = ii_mergedCommitSha i, bi_blockedReason = ii_blockedReason i,
      bi_startedAt = ii_startedAt i, bi_completedAt = ii_completedAt i\<rparr>"

definition first_unmerged :: "batch_item list \<Rightarrow> batch_item option" where
  "first_unmerged items = List.find (\<lambda>i. bi_status i \<noteq> IMerged) items"

definition createReleaseBatch :: "batch_input \<Rightarrow> batch_error + release_batch" where
  "createReleaseBatch inp =
     (if in_items inp = [] then Inl (ReleaseBatchStateError ''no items'')
      else let sortedItems = sort_key ii_position (in_items inp)
      in case check_items 0 sortedItems [] [] [] of
        Some e \<Rightarrow> Inl e
      | None \<Rightarrow>
        let items = map (item_of_input (in_id inp)) sortedItems;
            status = (case in_status inp of None \<Rightarrow> BQueued | Some s \<Rightarrow> s)
        in if in_candidateSha inp \<noteq> None \<and> first_unmerged items \<noteq> None
           then Inl (PrematureCandidateCaptureError (bi_position (the (first_unmerged items))))
           else if in_approvedCandidateSha inp \<noteq> None \<and>
                   in_approvedCandidateSha inp \<noteq> in_candidateSha inp
           then Inl (InvalidCandidateShaError (the (in_approvedCandidateSha inp)))
           else if status = BCompleted \<and> in_completedAt inp = None
           then Inl (ReleaseBatchStateError ''completedAt'')
           else if status = BCompleted \<and> falsy (in_approvedCandidateSha inp)
           then Inl UnapprovedPromotionError
           else Inr
            \<lparr>b_id = in_id inp, b_repoId = in_repoId inp, b_sourceBranch = in_sourceBranch inp,
             b_sourceStartSha = in_sourceStartSha inp, b_releaseBranch = in_releaseBranch inp,
             b_status = status,
             b_currentPosition = (case in_currentPosition inp of None \<Rightarrow> 1 | Some p \<Rightarrow> p),
             b_candidateSha = in_candidateSha inp,
             b_approvedCandidateSha = in_approvedCandidateSha inp,
             b_candidateTreeSha = in_candidateTreeSha inp,
             b_promotionCommitSha = in_promotionCommitSha inp,
             b_promotionPrNumber = in_promotionPrNumber inp,
             b_blockedReason = in_blockedReason inp, b_createdAt = in_createdAt inp,
             b_completedAt = in_completedAt inp, b_items = items\<rparr>)"

section \<open>Operations on an item\<close>

text \<open>The \<open>findIndex\<close> by position with its two \<open>not found\<close> guards.\<close>

definition with_item ::
  "release_batch \<Rightarrow> int \<Rightarrow> (nat \<Rightarrow> batch_item \<Rightarrow> batch_error + release_batch)
   \<Rightarrow> batch_error + release_batch" where
  "with_item b position f =
     (case find_index (\<lambda>i. bi_position i = position) (b_items b) of
        None \<Rightarrow> Inl (ReleaseBatchStateError ''position not found'')
      | Some k \<Rightarrow> f k (b_items b ! k))"

definition set_item :: "release_batch \<Rightarrow> nat \<Rightarrow> batch_item \<Rightarrow> release_batch" where
  "set_item b k item = b\<lparr>b_items := (b_items b)[k := item]\<rparr>"

definition unblockBatch :: "release_batch \<Rightarrow> batch_error + release_batch" where
  "unblockBatch b = assertNotTerminal b
     (if b_status b \<noteq> BBlocked then Inr b
      else Inr (b\<lparr>b_blockedReason := None, b_status := BBuilding\<rparr>))"

text \<open>\<open>now\<close> is \<open>input?.now ?? new Date()\<close>.\<close>

definition admitItem ::
  "release_batch \<Rightarrow> int \<Rightarrow> ident option \<Rightarrow> string option \<Rightarrow> time \<Rightarrow> batch_error + release_batch" where
  "admitItem b position runUuid baseSha now = assertNotTerminal b
     (with_item b position (\<lambda>k item.
        if bi_status item = IMerged then Inl (ImmutableItemMergedError position)
        else case List.find (\<lambda>i. bi_position i \<noteq> position \<and>
                 (bi_status i = IActive \<or> bi_status i = IWaitingMerge)) (b_items b) of
          Some activeItem \<Rightarrow> Inl (ConcurrentAdmissionError (bi_position activeItem))
        | None \<Rightarrow>
        case List.find (\<lambda>i. bi_position i < position \<and> bi_status i \<noteq> IMerged) (b_items b) of
          Some _ \<Rightarrow> Inl (ReleaseBatchStateError ''predecessor not merged'')
        | None \<Rightarrow>
        if runUuid \<noteq> None \<and> bi_runUuid item \<noteq> None \<and> bi_runUuid item \<noteq> runUuid
        then Inl (ReassignRunError position)
        else if runUuid \<noteq> None \<and>
          List.find (\<lambda>i. bi_position i \<noteq> position \<and> bi_runUuid i = runUuid) (b_items b) \<noteq> None
        then Inl (DuplicateRunAssignmentError (the runUuid))
        else
          let nextItem = item\<lparr>bi_blockedReason := None, bi_status := IActive,
                bi_startedAt := (case bi_startedAt item of None \<Rightarrow> Some now | Some t \<Rightarrow> Some t),
                bi_runUuid := (if runUuid \<noteq> None then runUuid else bi_runUuid item),
                bi_baseSha := (if baseSha \<noteq> None then baseSha else bi_baseSha item)\<rparr>;
              nextStatus = (if b_status b = BQueued \<or> b_status b = BBlocked then BBuilding
                            else b_status b)
          in Inr ((set_item b k nextItem)\<lparr>b_blockedReason := None, b_status := nextStatus,
                    b_currentPosition := position\<rparr>)))"

definition assignItemRun :: "release_batch \<Rightarrow> int \<Rightarrow> ident \<Rightarrow> batch_error + release_batch" where
  "assignItemRun b position runUuid = assertNotTerminal b
     (if js_blank runUuid then Inl (ReleaseBatchStateError ''runUuid'')
      else with_item b position (\<lambda>k item.
        if bi_runUuid item = Some runUuid then Inr b
        else if bi_runUuid item \<noteq> None then Inl (ReassignRunError position)
        else if List.find (\<lambda>i. bi_position i \<noteq> position \<and> bi_runUuid i = Some runUuid) (b_items b) \<noteq> None
        then Inl (DuplicateRunAssignmentError runUuid)
        else Inr (set_item b k (item\<lparr>bi_runUuid := Some runUuid\<rparr>))))"

definition markItemWaitingMerge :: "release_batch \<Rightarrow> int \<Rightarrow> int \<Rightarrow> batch_error + release_batch" where
  "markItemWaitingMerge b position prNumber = assertNotTerminal b
     (if prNumber \<le> 0 then Inl (ReleaseBatchStateError ''prNumber'')
      else with_item b position (\<lambda>k item.
        if bi_status item = IMerged then Inl (ImmutableItemMergedError position)
        else if bi_status item = IWaitingMerge \<and> bi_prNumber item = Some prNumber then Inr b
        else if bi_status item \<noteq> IActive then Inl (ReleaseBatchStateError ''not active'')
        else Inr (set_item b k (item\<lparr>bi_status := IWaitingMerge, bi_prNumber := Some prNumber\<rparr>))))"

definition attachItemPr :: "release_batch \<Rightarrow> int \<Rightarrow> int \<Rightarrow> batch_error + release_batch" where
  "attachItemPr b position prNumber = assertNotTerminal b
     (if prNumber \<le> 0 then Inl (ReleaseBatchStateError ''prNumber'')
      else with_item b position (\<lambda>k item.
        if bi_prNumber item = Some prNumber then Inr b
        else Inr (set_item b k (item\<lparr>bi_prNumber := Some prNumber\<rparr>))))"

definition markItemMerged ::
  "release_batch \<Rightarrow> int \<Rightarrow> string \<Rightarrow> time \<Rightarrow> batch_error + release_batch" where
  "markItemMerged b position mergedCommitSha now = assertNotTerminal b
     (if js_blank mergedCommitSha then Inl (ReleaseBatchStateError ''mergedCommitSha'')
      else with_item b position (\<lambda>k item.
        if bi_status item = IMerged then Inl (ImmutableItemMergedError position)
        else if bi_status item \<noteq> IWaitingMerge \<and> bi_status item \<noteq> IActive
        then Inl (ReleaseBatchStateError ''not waiting or active'')
        else Inr (set_item b k (item\<lparr>bi_status := IMerged,
               bi_mergedCommitSha := Some mergedCommitSha, bi_completedAt := Some now\<rparr>))))"

definition markItemBlocked :: "release_batch \<Rightarrow> int \<Rightarrow> string \<Rightarrow> batch_error + release_batch" where
  "markItemBlocked b position reason = assertNotTerminal b
     (with_item b position (\<lambda>k item.
        if bi_status item = IMerged then Inl (ImmutableItemMergedError position)
        else Inr ((set_item b k (item\<lparr>bi_status := IBlocked, bi_blockedReason := Some reason\<rparr>))
               \<lparr>b_status := BBlocked, b_blockedReason := Some reason\<rparr>)))"

definition unblockItem :: "release_batch \<Rightarrow> int \<Rightarrow> batch_error + release_batch" where
  "unblockItem b position = assertNotTerminal b
     (with_item b position (\<lambda>k item.
        if bi_status item \<noteq> IBlocked then Inr b
        else let nextBatch = set_item b k (item\<lparr>bi_blockedReason := None, bi_status := IActive\<rparr>);
                 hasOtherBlocked = list_ex (\<lambda>i. bi_status i = IBlocked) (b_items nextBatch)
             in if \<not> hasOtherBlocked \<and> b_status nextBatch = BBlocked then unblockBatch nextBatch
                else Inr nextBatch))"

section \<open>Operations on the batch\<close>

definition markBatchBlocked :: "release_batch \<Rightarrow> string \<Rightarrow> batch_error + release_batch" where
  "markBatchBlocked b reason = assertNotTerminal b
     (Inr (b\<lparr>b_status := BBlocked, b_blockedReason := Some reason\<rparr>))"

definition transitionToAwaitingManualTest ::
  "release_batch \<Rightarrow> string \<Rightarrow> string option \<Rightarrow> int option \<Rightarrow> batch_error + release_batch" where
  "transitionToAwaitingManualTest b candidateSha candidateTreeSha promotionPrNumber =
     assertNotTerminal b
     (if b_status b \<noteq> BBuilding \<and> b_status b \<noteq> BTestFailed
      then Inl (ReleaseBatchStateError ''awaiting_manual_test'')
      else if js_blank candidateSha then Inl (ReleaseBatchStateError ''candidateSha'')
      else case first_unmerged (b_items b) of
        Some unmerged \<Rightarrow> Inl (PrematureCandidateCaptureError (bi_position unmerged))
      | None \<Rightarrow>
        if promotionPrNumber \<noteq> None \<and> the promotionPrNumber \<le> 0
        then Inl (ReleaseBatchStateError ''promotionPrNumber'')
        else Inr (b\<lparr>b_blockedReason := None, b_approvedCandidateSha := None,
               b_promotionCommitSha := None,
               b_promotionPrNumber := (if promotionPrNumber \<noteq> None then promotionPrNumber
                                       else b_promotionPrNumber b),
               b_status := BAwaitingManualTest, b_candidateSha := Some candidateSha,
               b_candidateTreeSha := (if candidateTreeSha \<noteq> None then candidateTreeSha
                                      else b_candidateTreeSha b)\<rparr>))"

definition recordPromotionPr :: "release_batch \<Rightarrow> int \<Rightarrow> batch_error + release_batch" where
  "recordPromotionPr b prNumber = assertNotTerminal b
     (if prNumber \<le> 0 then Inl (ReleaseBatchStateError ''prNumber'')
      else if b_promotionPrNumber b = Some prNumber then Inr b
      else Inr (b\<lparr>b_promotionPrNumber := Some prNumber\<rparr>))"

definition approveBatchCandidate :: "release_batch \<Rightarrow> string \<Rightarrow> batch_error + release_batch" where
  "approveBatchCandidate b approvedSha = assertNotTerminal b
     (if b_status b \<noteq> BAwaitingManualTest then Inl (ReleaseBatchStateError ''approve'')
      else if falsy (b_candidateSha b) then Inl (ReleaseBatchStateError ''no candidateSha'')
      else if Some approvedSha \<noteq> b_candidateSha b then Inl (InvalidCandidateShaError approvedSha)
      else Inr (b\<lparr>b_status := BApproved, b_approvedCandidateSha := Some approvedSha\<rparr>))"

text \<open>
  The overloaded arguments of \<open>rejectBatchCandidate\<close>: none, an options object, a candidate
  and a reason (the case \<open>arguments.length >= 3\<close>), or one string, read as the candidate
  when it equals the batch's and as the reason otherwise.
\<close>

datatype reject_args =
    Reject_none
  | Reject_options "string option" "string option"
  | Reject_two "string option" "string option"
  | Reject_one string

definition reject_decode :: "release_batch \<Rightarrow> reject_args \<Rightarrow> string option \<times> string option" where
  "reject_decode b args =
     (case args of
        Reject_none \<Rightarrow> (None, None)
      | Reject_options c r \<Rightarrow> (c, r)
      | Reject_two c r \<Rightarrow> (c, r)
      | Reject_one s \<Rightarrow>
          if \<not> falsy (b_candidateSha b) \<and> b_candidateSha b = Some s then (Some s, None)
          else (None, Some s))"

definition rejectBatchCandidate :: "release_batch \<Rightarrow> reject_args \<Rightarrow> batch_error + release_batch" where
  "rejectBatchCandidate b args = assertNotTerminal b
     (if b_status b \<noteq> BAwaitingManualTest then Inl (ReleaseBatchStateError ''reject'')
      else let (candidateSha, reason) = reject_decode b args
      in if candidateSha \<noteq> None \<and> \<not> falsy (b_candidateSha b) \<and> candidateSha \<noteq> b_candidateSha b
         then Inl (InvalidCandidateShaError (the candidateSha))
         else Inr (b\<lparr>b_status := BTestFailed,
                b_blockedReason := (if reason \<noteq> None then reason else b_blockedReason b)\<rparr>))"

fun check_remediation :: "int list \<Rightarrow> int list \<Rightarrow> int list \<Rightarrow> batch_error option" where
  "check_remediation existing newIssues [] = None"
| "check_remediation existing newIssues (num # nums) =
     (if num \<le> 0 then Some (ReleaseBatchStateError ''remediation issue'')
      else if num \<in> set existing then Some (DuplicateIssueError num)
      else if num \<in> set newIssues then Some (DuplicateIssueError num)
      else check_remediation existing (num # newIssues) nums)"

definition remediation_item :: "ident \<Rightarrow> int \<Rightarrow> int \<Rightarrow> batch_item" where
  "remediation_item bid position issue =
     \<lparr>bi_releaseBatchId = bid, bi_position = position, bi_issueNumber = issue,
      bi_status = IPending, bi_runUuid = None, bi_prNumber = None, bi_baseSha = None,
      bi_mergedCommitSha = None, bi_blockedReason = None, bi_startedAt = None,
      bi_completedAt = None\<rparr>"

definition appendRemediationItems :: "release_batch \<Rightarrow> int list \<Rightarrow> batch_error + release_batch" where
  "appendRemediationItems b issueNumbers = assertNotTerminal b
     (if b_status b \<noteq> BTestFailed then Inl (RemediationNotAllowedError (b_status b))
      else if issueNumbers = [] then Inl (ReleaseBatchStateError ''no issues'')
      else case check_remediation (map bi_issueNumber (b_items b)) [] issueNumbers of
        Some e \<Rightarrow> Inl e
      | None \<Rightarrow>
        let newItems = map2 (remediation_item (b_id b))
              (map int [length (b_items b) + 1..<length (b_items b) + 1 + length issueNumbers])
              issueNumbers;
            allItems = b_items b @ newItems
        in Inr (b\<lparr>b_candidateSha := None, b_approvedCandidateSha := None,
              b_candidateTreeSha := None, b_promotionCommitSha := None, b_blockedReason := None,
              b_status := BBuilding,
              b_currentPosition := (case first_unmerged allItems of
                  Some i \<Rightarrow> bi_position i | None \<Rightarrow> b_currentPosition b),
              b_items := allItems\<rparr>))"

definition attachPromotionPr :: "release_batch \<Rightarrow> int \<Rightarrow> batch_error + release_batch" where
  "attachPromotionPr b prNumber = assertNotTerminal b
     (if b_status b \<noteq> BApproved \<and> b_status b \<noteq> BPromoting
      then Inl (ReleaseBatchStateError ''attach promotion PR'')
      else if prNumber \<le> 0 then Inl (ReleaseBatchStateError ''prNumber'')
      else Inr (b\<lparr>b_status := BPromoting, b_promotionPrNumber := Some prNumber\<rparr>))"

definition recordPromotionCommit :: "release_batch \<Rightarrow> string \<Rightarrow> batch_error + release_batch" where
  "recordPromotionCommit b sha = assertNotTerminal b
     (if js_blank sha then Inl (ReleaseBatchStateError ''promotionCommitSha'')
      else Inr (b\<lparr>b_promotionCommitSha := Some sha\<rparr>))"

definition promoteBatch :: "release_batch \<Rightarrow> batch_error + release_batch" where
  "promoteBatch b = assertNotTerminal b
     (if b_status b \<noteq> BApproved then Inl (ReleaseBatchStateError ''promote'')
      else if falsy (b_approvedCandidateSha b) \<or> b_approvedCandidateSha b \<noteq> b_candidateSha b
      then Inl UnapprovedPromotionError
      else Inr (b\<lparr>b_status := BPromoting\<rparr>))"

definition completeBatch :: "release_batch \<Rightarrow> time \<Rightarrow> batch_error + release_batch" where
  "completeBatch b now = assertNotTerminal b
     (if b_status b \<noteq> BPromoting \<and> b_status b \<noteq> BApproved
      then Inl (ReleaseBatchStateError ''complete'')
      else if falsy (b_approvedCandidateSha b) \<or> b_approvedCandidateSha b \<noteq> b_candidateSha b
      then Inl UnapprovedPromotionError
      else Inr (b\<lparr>b_status := BCompleted, b_completedAt := Some now\<rparr>))"

definition cancelBatch :: "release_batch \<Rightarrow> string option \<Rightarrow> time \<Rightarrow> batch_error + release_batch" where
  "cancelBatch b reason now =
     (if b_status b = BCompleted then Inl (TerminalBatchError BCompleted)
      else if b_status b = BCancelled then Inr b
      else Inr (b\<lparr>b_status := BCancelled, b_completedAt := Some now,
                  b_blockedReason := (if reason \<noteq> None then reason else b_blockedReason b)\<rparr>))"

lemmas [batch_ops] = markBatchBlocked_def transitionToAwaitingManualTest_def
  recordPromotionPr_def approveBatchCandidate_def rejectBatchCandidate_def attachPromotionPr_def
  recordPromotionCommit_def promoteBatch_def completeBatch_def cancelBatch_def unblockBatch_def

section \<open>Histories\<close>

datatype batch_op =
    Admit int "ident option" "string option" time
  | Assign_run int ident
  | Waiting_merge int int
  | Attach_pr int int
  | Merged int string time
  | Block_item int string
  | Unblock_item int
  | Block_batch string
  | Unblock_batch
  | Await_test string "string option" "int option"
  | Record_promotion_pr int
  | Approve string
  | Reject reject_args
  | Append "int list"
  | Attach_promotion_pr int
  | Record_commit string
  | Promote
  | Complete time
  | Cancel_batch "string option" time

fun apply_batch_op :: "batch_op \<Rightarrow> release_batch \<Rightarrow> batch_error + release_batch" where
  "apply_batch_op (Admit p u s t) b = admitItem b p u s t"
| "apply_batch_op (Assign_run p u) b = assignItemRun b p u"
| "apply_batch_op (Waiting_merge p n) b = markItemWaitingMerge b p n"
| "apply_batch_op (Attach_pr p n) b = attachItemPr b p n"
| "apply_batch_op (Merged p s t) b = markItemMerged b p s t"
| "apply_batch_op (Block_item p r) b = markItemBlocked b p r"
| "apply_batch_op (Unblock_item p) b = unblockItem b p"
| "apply_batch_op (Block_batch r) b = markBatchBlocked b r"
| "apply_batch_op Unblock_batch b = unblockBatch b"
| "apply_batch_op (Await_test s t n) b = transitionToAwaitingManualTest b s t n"
| "apply_batch_op (Record_promotion_pr n) b = recordPromotionPr b n"
| "apply_batch_op (Approve s) b = approveBatchCandidate b s"
| "apply_batch_op (Reject a) b = rejectBatchCandidate b a"
| "apply_batch_op (Append ns) b = appendRemediationItems b ns"
| "apply_batch_op (Attach_promotion_pr n) b = attachPromotionPr b n"
| "apply_batch_op (Record_commit s) b = recordPromotionCommit b s"
| "apply_batch_op Promote b = promoteBatch b"
| "apply_batch_op (Complete t) b = completeBatch b t"
| "apply_batch_op (Cancel_batch r t) b = cancelBatch b r t"

inductive batch_reachable :: "release_batch \<Rightarrow> bool" where
  create: "createReleaseBatch i = Inr b \<Longrightarrow> batch_reachable b"
| step: "batch_reachable b \<Longrightarrow> apply_batch_op op b = Inr b' \<Longrightarrow> batch_reachable b'"

end
