(* ===== verification/Release_Batch_Inv.thy ===== *)
theory Release_Batch_Inv
  imports Release_Batch
begin

text \<open>
  The invariants of release batches: what creation checks and every operation keeps.
  \<open>item_change\<close> and \<open>item_op\<close> say what an operation may do to one item; each
  invariant is proved once for an arbitrary change of that form, for an appended block of
  items and for an untouched list, and so holds for all operations.
\<close>

section \<open>What the operations change\<close>

lemma assertNotTerminal_Inr [simp]:
  "assertNotTerminal b r = Inr b' \<longleftrightarrow> \<not> batch_terminal (b_status b) \<and> r = Inr b'"
  by (simp add: assertNotTerminal_def)

lemma falsy_simps [simp]: "falsy None" "falsy (Some s) \<longleftrightarrow> s = []"
  by (simp_all add: falsy_def)

lemma with_item_InrD:
  "with_item b p f = Inr b' \<Longrightarrow>
   \<exists>k < length (b_items b). bi_position (b_items b ! k) = p \<and> f k (b_items b ! k) = Inr b'"
  by (auto simp: with_item_def split: option.splits dest: find_index_SomeD)

text \<open>The parts of a batch that no operation on an item touches.\<close>

definition same_head :: "release_batch \<Rightarrow> release_batch \<Rightarrow> bool" where
  "same_head b b' \<longleftrightarrow>
     b_id b' = b_id b \<and> b_candidateSha b' = b_candidateSha b \<and>
     b_approvedCandidateSha b' = b_approvedCandidateSha b \<and>
     \<not> batch_terminal (b_status b) \<and> \<not> batch_terminal (b_status b')"

definition item_change :: "release_batch \<Rightarrow> nat \<Rightarrow> batch_item \<Rightarrow> bool" where
  "item_change b k item \<longleftrightarrow>
     k < length (b_items b) \<and>
     bi_releaseBatchId item = bi_releaseBatchId (b_items b ! k) \<and>
     bi_position item = bi_position (b_items b ! k) \<and>
     bi_issueNumber item = bi_issueNumber (b_items b ! k) \<and>
     (bi_runUuid item = bi_runUuid (b_items b ! k) \<or>
      (\<forall>i \<in> set (b_items b). bi_position i \<noteq> bi_position (b_items b ! k) \<longrightarrow>
         bi_runUuid i \<noteq> bi_runUuid item)) \<and>
     (bi_status (b_items b ! k) = IMerged \<longrightarrow>
        bi_status item = IMerged \<and> bi_mergedCommitSha item = bi_mergedCommitSha (b_items b ! k))"

text \<open>\<open>item_op b b' k item\<close>: \<open>b'\<close> is \<open>b\<close> with item \<open>k\<close> replaced by \<open>item\<close>.\<close>

definition item_op :: "release_batch \<Rightarrow> release_batch \<Rightarrow> nat \<Rightarrow> batch_item \<Rightarrow> bool" where
  "item_op b b' k item \<longleftrightarrow>
     item_change b k item \<and> b_items b' = (b_items b)[k := item] \<and> same_head b b'"

lemma item_op_unchanged:
  "k < length (b_items b) \<Longrightarrow> \<not> batch_terminal (b_status b) \<Longrightarrow> item_op b b k (b_items b ! k)"
  by (simp add: item_op_def item_change_def same_head_def)

lemma admitItem_op:
  assumes "admitItem b p u s t = Inr b'"
  shows "\<exists>k item. item_op b b' k item \<and> bi_status item = IActive \<and> bi_position item = p \<and>
    bi_status (b_items b ! k) \<noteq> IMerged \<and>
    (\<forall>i \<in> set (b_items b). bi_position i < p \<longrightarrow> bi_status i = IMerged) \<and>
    (\<forall>i \<in> set (b_items b). bi_position i \<noteq> p \<longrightarrow> bi_status i \<noteq> IActive \<and> bi_status i \<noteq> IWaitingMerge)"
proof -
  let ?item = "\<lambda>k. (b_items b ! k)\<lparr>bi_blockedReason := None, bi_status := IActive,
      bi_startedAt := (case bi_startedAt (b_items b ! k) of None \<Rightarrow> Some t | Some t' \<Rightarrow> Some t'),
      bi_runUuid := (if u \<noteq> None then u else bi_runUuid (b_items b ! k)),
      bi_baseSha := (if s \<noteq> None then s else bi_baseSha (b_items b ! k))\<rparr>"
  let ?st = "if b_status b = BQueued \<or> b_status b = BBlocked then BBuilding else b_status b"
  obtain k where k: "k < length (b_items b)" "bi_position (b_items b ! k) = p"
    and nt: "\<not> batch_terminal (b_status b)"
    and st: "bi_status (b_items b ! k) \<noteq> IMerged"
    and act: "List.find (\<lambda>i. bi_position i \<noteq> p \<and>
                 (bi_status i = IActive \<or> bi_status i = IWaitingMerge)) (b_items b) = None"
    and pre: "List.find (\<lambda>i. bi_position i < p \<and> bi_status i \<noteq> IMerged) (b_items b) = None"
    and run: "u \<noteq> None \<longrightarrow> List.find (\<lambda>i. bi_position i \<noteq> p \<and> bi_runUuid i = u) (b_items b) = None"
    and b': "b' = (set_item b k (?item k))\<lparr>b_blockedReason := None, b_status := ?st, b_currentPosition := p\<rparr>"
    using assms
    by (fastforce simp: admitItem_def Let_def split: option.splits if_split_asm dest!: with_item_InrD)
  have "item_op b b' k (?item k)"
    using k nt st run by (auto simp: item_op_def item_change_def same_head_def b' set_item_def
        find_None_iff batch_terminal_def)
  then show ?thesis using k st act pre by (intro exI [of _ k] exI) (auto simp: find_None_iff)
qed

lemma assignItemRun_op:
  assumes "assignItemRun b p u = Inr b'"
  shows "\<exists>k item. item_op b b' k item \<and> bi_status item = bi_status (b_items b ! k)"
proof -
  let ?item = "\<lambda>k. (b_items b ! k)\<lparr>bi_runUuid := Some u\<rparr>"
  obtain k where k: "k < length (b_items b)" "bi_position (b_items b ! k) = p"
    and nt: "\<not> batch_terminal (b_status b)"
    and cases: "b' = b \<or> (b' = set_item b k (?item k) \<and>
       List.find (\<lambda>i. bi_position i \<noteq> p \<and> bi_runUuid i = Some u) (b_items b) = None)"
    using assms
    by (auto simp: assignItemRun_def split: if_split_asm dest!: with_item_InrD)
  from cases show ?thesis
  proof (elim disjE conjE)
    assume "b' = b"
    then show ?thesis using item_op_unchanged [OF k(1) nt] by blast
  next
    assume b': "b' = set_item b k (?item k)"
      "List.find (\<lambda>i. bi_position i \<noteq> p \<and> bi_runUuid i = Some u) (b_items b) = None"
    then have "item_op b b' k (?item k)"
      using k nt by (auto simp: item_op_def item_change_def same_head_def set_item_def find_None_iff)
    then show ?thesis by (intro exI [of _ k] exI [of _ "?item k"]) simp
  qed
qed

lemma markItemWaitingMerge_op:
  assumes "markItemWaitingMerge b p n = Inr b'"
  shows "\<exists>k item. item_op b b' k item \<and> bi_status item = IWaitingMerge \<and>
    bi_status (b_items b ! k) \<in> {IActive, IWaitingMerge}"
proof -
  let ?item = "\<lambda>k. (b_items b ! k)\<lparr>bi_status := IWaitingMerge, bi_prNumber := Some n\<rparr>"
  obtain k where k: "k < length (b_items b)" "bi_position (b_items b ! k) = p"
    and nt: "\<not> batch_terminal (b_status b)"
    and cases: "(b' = b \<and> bi_status (b_items b ! k) = IWaitingMerge) \<or>
      (b' = set_item b k (?item k) \<and> bi_status (b_items b ! k) = IActive)"
    using assms
    by (auto simp: markItemWaitingMerge_def split: if_split_asm dest!: with_item_InrD)
  from cases show ?thesis
  proof (elim disjE conjE)
    assume "b' = b"
      "bi_status (b_items b ! k) = IWaitingMerge"
    then show ?thesis using item_op_unchanged [OF k(1) nt] by blast
  next
    assume b': "b' = set_item b k (?item k)"
      "bi_status (b_items b ! k) = IActive"
    then have "item_op b b' k (?item k)"
      using k nt by (auto simp: item_op_def item_change_def same_head_def set_item_def find_None_iff)
    then show ?thesis using \<open>bi_status (b_items b ! k) = IActive\<close> by (intro exI [of _ k] exI [of _ "?item k"]) simp
  qed
qed

lemma attachItemPr_op:
  assumes "attachItemPr b p n = Inr b'"
  shows "\<exists>k item. item_op b b' k item \<and> bi_status item = bi_status (b_items b ! k)"
proof -
  let ?item = "\<lambda>k. (b_items b ! k)\<lparr>bi_prNumber := Some n\<rparr>"
  obtain k where k: "k < length (b_items b)" "bi_position (b_items b ! k) = p"
    and nt: "\<not> batch_terminal (b_status b)"
    and cases: "b' = b \<or> b' = set_item b k (?item k)"
    using assms
    by (auto simp: attachItemPr_def split: if_split_asm dest!: with_item_InrD)
  from cases show ?thesis
  proof (elim disjE conjE)
    assume "b' = b"
    then show ?thesis using item_op_unchanged [OF k(1) nt] by blast
  next
    assume b': "b' = set_item b k (?item k)"
    then have "item_op b b' k (?item k)"
      using k nt by (auto simp: item_op_def item_change_def same_head_def set_item_def find_None_iff)
    then show ?thesis by (intro exI [of _ k] exI [of _ "?item k"]) simp
  qed
qed

lemma markItemMerged_op:
  assumes "markItemMerged b p s t = Inr b'"
  shows "\<exists>k item. item_op b b' k item \<and> bi_status item = IMerged \<and>
    bi_status (b_items b ! k) \<in> {IActive, IWaitingMerge}"
proof -
  obtain k where k: "k < length (b_items b)" "bi_position (b_items b ! k) = p"
    and nt: "\<not> batch_terminal (b_status b)"
    and "b' = set_item b k ((b_items b ! k)\<lparr>bi_status := IMerged,
           bi_mergedCommitSha := Some s, bi_completedAt := Some t\<rparr>)"
    and "bi_status (b_items b ! k) \<in> {IActive, IWaitingMerge}"
    using assms by (auto simp: markItemMerged_def split: if_split_asm dest!: with_item_InrD)
  then have "item_op b b' k ((b_items b ! k)\<lparr>bi_status := IMerged,
           bi_mergedCommitSha := Some s, bi_completedAt := Some t\<rparr>)"
    using k nt by (auto simp: item_op_def item_change_def same_head_def set_item_def)
  then show ?thesis using \<open>bi_status (b_items b ! k) \<in> _\<close> by force
qed

lemma markItemBlocked_op:
  assumes "markItemBlocked b p r = Inr b'"
  shows "\<exists>k item. item_op b b' k item \<and> bi_status item = IBlocked \<and> bi_position item = p \<and>
    bi_status (b_items b ! k) \<noteq> IMerged"
proof -
  obtain k where k: "k < length (b_items b)" "bi_position (b_items b ! k) = p"
    and nt: "\<not> batch_terminal (b_status b)"
    and b': "b' = (set_item b k ((b_items b ! k)\<lparr>bi_status := IBlocked,
           bi_blockedReason := Some r\<rparr>))\<lparr>b_status := BBlocked, b_blockedReason := Some r\<rparr>"
    and "bi_status (b_items b ! k) \<noteq> IMerged"
    using assms by (auto simp: markItemBlocked_def split: if_split_asm dest!: with_item_InrD)
  then have "item_op b b' k ((b_items b ! k)\<lparr>bi_status := IBlocked, bi_blockedReason := Some r\<rparr>)"
    using k nt by (simp add: item_op_def item_change_def same_head_def set_item_def
        batch_terminal_def)
  then show ?thesis using k \<open>bi_status (b_items b ! k) \<noteq> _\<close> by force
qed

lemma unblockItem_op:
  assumes "unblockItem b p = Inr b'"
  shows "\<exists>k item. item_op b b' k item \<and>
    (bi_status item = bi_status (b_items b ! k) \<or>
     bi_status item = IActive \<and> bi_status (b_items b ! k) = IBlocked)"
proof -
  let ?item = "\<lambda>k. (b_items b ! k)\<lparr>bi_blockedReason := None, bi_status := IActive\<rparr>"
  let ?next = "\<lambda>k. set_item b k (?item k)"
  obtain k where k: "k < length (b_items b)" and nt: "\<not> batch_terminal (b_status b)"
    and res: "(if bi_status (b_items b ! k) \<noteq> IBlocked then Inr b
       else if \<not> list_ex (\<lambda>i. bi_status i = IBlocked) (b_items (?next k)) \<and> b_status (?next k) = BBlocked
       then unblockBatch (?next k) else Inr (?next k)) = Inr b'"
    using assms by (auto simp only: unblockItem_def assertNotTerminal_Inr Let_def
        dest!: with_item_InrD)
  show ?thesis
  proof (cases "bi_status (b_items b ! k) = IBlocked")
    case True
    then have "b' = ?next k \<or> b' = (?next k)\<lparr>b_blockedReason := None, b_status := BBuilding\<rparr>"
      using res by (auto simp: unblockBatch_def split: if_split_asm)
    then have "item_op b b' k (?item k)"
      using k nt True
      by (auto simp: item_op_def item_change_def same_head_def set_item_def batch_terminal_def)
    then show ?thesis using True by (intro exI [of _ k] exI [of _ "?item k"]) simp
  next
    case False
    then show ?thesis using res item_op_unchanged [OF k nt] by auto
  qed
qed

definition is_item_op :: "batch_op \<Rightarrow> bool" where
  "is_item_op op =
     (case op of Admit _ _ _ _ \<Rightarrow> True | Assign_run _ _ \<Rightarrow> True | Waiting_merge _ _ \<Rightarrow> True
      | Attach_pr _ _ \<Rightarrow> True | Merged _ _ _ \<Rightarrow> True | Block_item _ _ \<Rightarrow> True
      | Unblock_item _ \<Rightarrow> True | _ \<Rightarrow> False)"

lemma item_op_cases:
  assumes "apply_batch_op op b = Inr b'" and "is_item_op op"
  obtains k item where "item_op b b' k item"
  using assms by (cases op) (auto simp: is_item_op_def dest!: admitItem_op assignItemRun_op
      markItemWaitingMerge_op attachItemPr_op markItemMerged_op markItemBlocked_op unblockItem_op)


section \<open>Appending and the operations that leave the items alone\<close>

lemma check_remediation_None:
  "check_remediation ex seen ns = None \<longleftrightarrow>
   (\<forall>n \<in> set ns. 0 < n \<and> n \<notin> set ex \<and> n \<notin> set seen) \<and> distinct ns"
  by (induction ex seen ns rule: check_remediation.induct) auto

lemma appendRemediationItems_op:
  assumes "appendRemediationItems b ns = Inr b'"
  shows "\<exists>new. b_items b' = b_items b @ new \<and> length new = length ns \<and>
    (\<forall>k < length ns. bi_position (new ! k) = int (length (b_items b) + 1 + k) \<and>
       bi_issueNumber (new ! k) = ns ! k \<and> bi_status (new ! k) = IPending \<and>
       bi_runUuid (new ! k) = None \<and> bi_releaseBatchId (new ! k) = b_id b) \<and>
    (\<forall>n \<in> set ns. 0 < n \<and> n \<notin> bi_issueNumber ` set (b_items b)) \<and> distinct ns \<and>
    b_id b' = b_id b \<and> b_candidateSha b' = None \<and> b_approvedCandidateSha b' = None \<and>
    b_status b' = BBuilding \<and> b_status b = BTestFailed"
proof -
  let ?n = "length (b_items b) + 1"
  let ?new = "map2 (remediation_item (b_id b)) (map int [?n..<?n + length ns]) ns"
  have facts: "b_status b = BTestFailed" "check_remediation (map bi_issueNumber (b_items b)) [] ns = None"
    and b': "b_items b' = b_items b @ ?new" "b_id b' = b_id b" "b_candidateSha b' = None"
      "b_approvedCandidateSha b' = None" "b_status b' = BBuilding"
    using assms by (auto simp: appendRemediationItems_def Let_def split: if_split_asm option.splits)
  have "\<forall>k < length ns. ?new ! k = remediation_item (b_id b) (int (?n + k)) (ns ! k)"
    by (simp del: upt_Suc)
  then show ?thesis
    using facts b' by (intro exI [of _ ?new]) (auto simp: check_remediation_None remediation_item_def)
qed

text \<open>The operations that touch neither the items nor the identity of a batch.\<close>

lemma quiet_op:
  assumes "apply_batch_op op b = Inr b'" and "\<not> is_item_op op" and "\<nexists>ns. op = Append ns"
  shows "b_items b' = b_items b \<and> b_id b' = b_id b"
  using assms
  by (cases op) (auto simp: is_item_op_def batch_ops Let_def split: if_split_asm option.splits prod.splits)

section \<open>Well-formed batches\<close>

definition distinct_runs :: "batch_item list \<Rightarrow> bool" where
  "distinct_runs xs \<longleftrightarrow>
     (\<forall>i < length xs. \<forall>j < length xs. i \<noteq> j \<longrightarrow> bi_runUuid (xs ! i) = None \<or>
        bi_runUuid (xs ! i) \<noteq> bi_runUuid (xs ! j))"

definition batch_wf :: "release_batch \<Rightarrow> bool" where
  "batch_wf b \<longleftrightarrow>
     b_items b \<noteq> [] \<and>
     (\<forall>k < length (b_items b). bi_position (b_items b ! k) = int k + 1) \<and>
     distinct (map bi_issueNumber (b_items b)) \<and> (\<forall>i \<in> set (b_items b). 0 < bi_issueNumber i) \<and>
     distinct_runs (b_items b) \<and> (\<forall>i \<in> set (b_items b). bi_releaseBatchId i = b_id b)"

lemma distinct_runs_iff:
  "distinct_runs xs \<longleftrightarrow> sorted_wrt (\<lambda>x y. bi_runUuid x = None \<or> bi_runUuid x \<noteq> bi_runUuid y) xs"
proof
  assume "distinct_runs xs"
  then show "sorted_wrt (\<lambda>x y. bi_runUuid x = None \<or> bi_runUuid x \<noteq> bi_runUuid y) xs"
    unfolding sorted_wrt_iff_nth_less distinct_runs_def by simp
next
  assume s: "sorted_wrt (\<lambda>x y. bi_runUuid x = None \<or> bi_runUuid x \<noteq> bi_runUuid y) xs"
  show "distinct_runs xs"
    unfolding distinct_runs_def
  proof (intro allI impI)
    fix i j
    assume "i < length xs" "j < length xs" "i \<noteq> j"
    then show "bi_runUuid (xs ! i) = None \<or> bi_runUuid (xs ! i) \<noteq> bi_runUuid (xs ! j)"
      using s sorted_wrt_nth_less [OF s, of i j] sorted_wrt_nth_less [OF s, of j i]
      by (cases "i < j") auto
  qed
qed

lemma batch_wf_position:
  "batch_wf b \<Longrightarrow> k < length (b_items b) \<Longrightarrow> bi_position (b_items b ! k) = int k + 1"
  by (simp add: batch_wf_def)

lemma distinct_runs_update:
  assumes d: "distinct_runs xs" and k: "k < length xs"
    and r: "bi_runUuid x = bi_runUuid (xs ! k) \<or>
      (\<forall>i < length xs. i \<noteq> k \<longrightarrow> bi_runUuid (xs ! i) \<noteq> bi_runUuid x)"
  shows "distinct_runs (xs[k := x])"
  unfolding distinct_runs_def
proof (intro allI impI)
  fix i j
  assume "i < length (xs[k := x])" "j < length (xs[k := x])" "i \<noteq> j"
  moreover from this have "bi_runUuid (xs ! i) = None \<or> bi_runUuid (xs ! i) \<noteq> bi_runUuid (xs ! j)"
    using d by (simp add: distinct_runs_def)
  ultimately show "bi_runUuid (xs[k := x] ! i) = None \<or>
      bi_runUuid (xs[k := x] ! i) \<noteq> bi_runUuid (xs[k := x] ! j)"
    using r k by (cases "i = k"; cases "j = k") (auto simp: nth_list_update)
qed

lemma distinct_runs_append:
  assumes "distinct_runs xs" and "\<forall>k < length ys. bi_runUuid (ys ! k) = None"
  shows "distinct_runs (xs @ ys)"
  using assms by (auto simp: distinct_runs_def nth_append)

lemma item_op_wf:
  assumes op: "item_op b b' k item" and wf: "batch_wf b"
  shows "batch_wf b'"
proof -
  have k: "k < length (b_items b)" and items: "b_items b' = (b_items b)[k := item]"
    and chg: "item_change b k item" and id: "b_id b' = b_id b"
    using op by (auto simp: item_op_def item_change_def same_head_def)
  have "bi_runUuid item = bi_runUuid (b_items b ! k) \<or>
      (\<forall>i < length (b_items b). i \<noteq> k \<longrightarrow> bi_runUuid (b_items b ! i) \<noteq> bi_runUuid item)"
    using chg batch_wf_position [OF wf] k by (auto simp: item_change_def)
  then have "distinct_runs (b_items b')"
    using wf k by (simp add: batch_wf_def items distinct_runs_update)
  moreover have "map bi_issueNumber (b_items b') = map bi_issueNumber (b_items b)"
    using chg k by (simp add: items item_change_def map_list_update_same)
  moreover have "\<forall>i \<in> set (b_items b'). 0 < bi_issueNumber i \<and> bi_releaseBatchId i = b_id b'"
    using wf chg k by (auto simp: batch_wf_def items id item_change_def set_list_update_eq)
  moreover have "\<forall>i < length (b_items b'). bi_position (b_items b' ! i) = int i + 1"
    using wf chg k by (simp add: batch_wf_def items item_change_def nth_list_update)
  moreover have "b_items b' \<noteq> []" using k by (auto simp: items)
  ultimately show ?thesis using wf by (simp add: batch_wf_def)
qed

lemma append_wf:
  assumes "appendRemediationItems b ns = Inr b'" and wf: "batch_wf b"
  shows "batch_wf b'"
proof -
  obtain new where new: "b_items b' = b_items b @ new" "length new = length ns"
    and nth: "\<forall>k < length ns. bi_position (new ! k) = int (length (b_items b) + 1 + k) \<and>
       bi_issueNumber (new ! k) = ns ! k \<and> bi_status (new ! k) = IPending \<and>
       bi_runUuid (new ! k) = None \<and> bi_releaseBatchId (new ! k) = b_id b"
    and ns: "\<forall>n \<in> set ns. 0 < n \<and> n \<notin> bi_issueNumber ` set (b_items b)" "distinct ns"
    and id: "b_id b' = b_id b"
    using appendRemediationItems_op [OF assms(1)] by blast
  have iss: "map bi_issueNumber new = ns"
    by (rule nth_equalityI) (simp_all add: new nth)
  have ids: "bi_releaseBatchId x = b_id b" if "x \<in> set new" for x
    using that nth new(2) by (metis in_set_conv_nth)
  have "distinct_runs (b_items b')"
    using wf nth new(2) by (simp add: batch_wf_def new distinct_runs_append)
  moreover have "distinct (map bi_issueNumber (b_items b'))"
    using wf ns by (auto simp: batch_wf_def new iss)
  moreover have "0 < bi_issueNumber x \<and> bi_releaseBatchId x = b_id b'" if "x \<in> set (b_items b')" for x
  proof (cases "x \<in> set new")
    case True
    then have "bi_issueNumber x \<in> set ns" using iss by (metis image_eqI list.set_map)
    then show ?thesis using ns ids True id by simp
  next
    case False
    then show ?thesis using that wf by (auto simp: new batch_wf_def id)
  qed
  moreover have "bi_position (b_items b' ! i) = int i + 1" if "i < length (b_items b')" for i
    using that wf nth new(2) by (auto simp: batch_wf_def new nth_append)
  ultimately show ?thesis using wf by (simp add: batch_wf_def new)
qed

lemma apply_batch_op_wf:
  assumes "apply_batch_op op b = Inr b'" and "batch_wf b"
  shows "batch_wf b'"
proof (cases "is_item_op op")
  case True
  then show ?thesis using assms item_op_cases item_op_wf by metis
next
  case False
  show ?thesis
  proof (cases "\<exists>ns. op = Append ns")
    case True
    then show ?thesis using assms append_wf by auto
  next
    case no: False
    from quiet_op [OF assms(1) False no] assms(2) show ?thesis by (simp add: batch_wf_def)
  qed
qed

section \<open>Creation\<close>

lemma check_items_step:
  assumes "0 < ii_issueNumber item" "ii_issueNumber item \<notin> set is"
    "\<forall>u. ii_runUuid item = Some u \<longrightarrow> \<not> js_blank u \<and> u \<notin> set us"
    and us': "us' = (case ii_runUuid item of None \<Rightarrow> us | Some u \<Rightarrow> u # us)"
  shows "(\<forall>x \<in> set (item # items). 0 < ii_issueNumber x \<and> ii_issueNumber x \<notin> set is \<and>
       (\<forall>u. ii_runUuid x = Some u \<longrightarrow> \<not> js_blank u \<and> u \<notin> set us)) \<and>
     distinct (map ii_issueNumber (item # items)) \<and>
     sorted_wrt (\<lambda>x y. ii_runUuid x = None \<or> ii_runUuid x \<noteq> ii_runUuid y) (item # items) \<longleftrightarrow>
     (\<forall>x \<in> set items. 0 < ii_issueNumber x \<and> ii_issueNumber x \<notin> set (ii_issueNumber item # is) \<and>
       (\<forall>u. ii_runUuid x = Some u \<longrightarrow> \<not> js_blank u \<and> u \<notin> set us')) \<and>
     distinct (map ii_issueNumber items) \<and>
     sorted_wrt (\<lambda>x y. ii_runUuid x = None \<or> ii_runUuid x \<noteq> ii_runUuid y) items"
proof -
  have D: "distinct (map ii_issueNumber (item # items)) \<longleftrightarrow>
     (\<forall>x \<in> set items. ii_issueNumber x \<noteq> ii_issueNumber item) \<and> distinct (map ii_issueNumber items)"
    by (auto simp: image_iff)
  have U: "(\<forall>u. ii_runUuid x = Some u \<longrightarrow> \<not> js_blank u \<and> u \<notin> set us') \<longleftrightarrow>
     (\<forall>u. ii_runUuid x = Some u \<longrightarrow> \<not> js_blank u \<and> u \<notin> set us) \<and>
     (ii_runUuid item = None \<or> ii_runUuid item \<noteq> ii_runUuid x)" for x
    unfolding us' by (cases "ii_runUuid item"; cases "ii_runUuid x") auto
  show ?thesis
    unfolding D U sorted_wrt.simps using assms(1-3) by (simp only: set_simps ball_simps) auto
qed

lemma check_items_None:
  "check_items i items ps is us = None \<longleftrightarrow>
   (\<forall>k < length items. ii_position (items ! k) = int (i + k) + 1 \<and> ii_position (items ! k) \<notin> set ps) \<and>
   (\<forall>x \<in> set items. 0 < ii_issueNumber x \<and> ii_issueNumber x \<notin> set is \<and>
      (\<forall>u. ii_runUuid x = Some u \<longrightarrow> \<not> js_blank u \<and> u \<notin> set us)) \<and>
   distinct (map ii_issueNumber items) \<and>
   sorted_wrt (\<lambda>x y. ii_runUuid x = None \<or> ii_runUuid x \<noteq> ii_runUuid y) items"
proof (induction i items ps "is" us rule: check_items.induct)
  case (2 i item items ps "is" us)
  have pos: "(\<forall>k < length items. ii_position (items ! k) = int (i + 1 + k) + 1 \<and>
       ii_position (items ! k) \<notin> set (p # ps)) \<longleftrightarrow>
     (\<forall>k < length items. ii_position (items ! k) = int (i + 1 + k) + 1 \<and>
       ii_position (items ! k) \<notin> set ps)" if "p = int i + 1" for p
    using that by auto
  have split: "(\<forall>k < length (item # items). ii_position ((item # items) ! k) = int (i + k) + 1 \<and>
       ii_position ((item # items) ! k) \<notin> set ps) \<longleftrightarrow>
     ii_position item = int i + 1 \<and> ii_position item \<notin> set ps \<and>
     (\<forall>k < length items. ii_position (items ! k) = int (i + 1 + k) + 1 \<and>
       ii_position (items ! k) \<notin> set ps)"
    by (simp add: All_less_Suc2)
  show ?case
  proof (cases "ii_position item = int i + 1 \<and> ii_position item \<notin> set ps \<and> 0 < ii_issueNumber item \<and>
     ii_issueNumber item \<notin> set is \<and>
     (\<forall>u. ii_runUuid item = Some u \<longrightarrow> \<not> js_blank u \<and> u \<notin> set us)")
    case True
    then have p: "ii_position item = int i + 1"
      and T: "int i + 1 \<notin> set ps" "ii_position item \<notin> set ps" "0 < ii_issueNumber item"
        "ii_issueNumber item \<notin> set is" "ii_position item = int i + 1"
        "\<forall>u. ii_runUuid item = Some u \<longrightarrow> \<not> js_blank u \<and> u \<notin> set us"
      by auto
    show ?thesis
    proof (cases "ii_runUuid item")
      case None
      then have "check_items i (item # items) ps is us = None \<longleftrightarrow>
         check_items (i + 1) items (ii_position item # ps) (ii_issueNumber item # is) us = None"
        using True by auto
      also have "\<dots> \<longleftrightarrow> (\<forall>k < length items. ii_position (items ! k) = int (i + 1 + k) + 1 \<and>
            ii_position (items ! k) \<notin> set ps) \<and>
          (\<forall>x \<in> set items. 0 < ii_issueNumber x \<and> ii_issueNumber x \<notin> set (ii_issueNumber item # is) \<and>
            (\<forall>u. ii_runUuid x = Some u \<longrightarrow> \<not> js_blank u \<and> u \<notin> set us)) \<and>
          distinct (map ii_issueNumber items) \<and>
          sorted_wrt (\<lambda>x y. ii_runUuid x = None \<or> ii_runUuid x \<noteq> ii_runUuid y) items"
        using "2.IH"(1) [OF _ _ _ _ _ None] T unfolding pos [OF p] by simp
      finally show ?thesis
        using check_items_step [OF T(3,4,6), of us items] T(2) p None unfolding split by simp
    next
      case (Some u)
      then have "check_items i (item # items) ps is us = None \<longleftrightarrow>
         check_items (i + 1) items (ii_position item # ps) (ii_issueNumber item # is) (u # us) = None"
        using True by auto
      also have "\<dots> \<longleftrightarrow> (\<forall>k < length items. ii_position (items ! k) = int (i + 1 + k) + 1 \<and>
            ii_position (items ! k) \<notin> set ps) \<and>
          (\<forall>x \<in> set items. 0 < ii_issueNumber x \<and> ii_issueNumber x \<notin> set (ii_issueNumber item # is) \<and>
            (\<forall>v. ii_runUuid x = Some v \<longrightarrow> \<not> js_blank v \<and> v \<notin> set (u # us))) \<and>
          distinct (map ii_issueNumber items) \<and>
          sorted_wrt (\<lambda>x y. ii_runUuid x = None \<or> ii_runUuid x \<noteq> ii_runUuid y) items"
        using "2.IH"(2) [OF _ _ _ _ _ Some] T Some unfolding pos [OF p] by simp
      finally show ?thesis
        using check_items_step [OF T(3,4,6), of "u # us" items] T(2) p Some unfolding split by simp
    qed
  next
    case False
    then show ?thesis unfolding split by (auto split: option.splits)
  qed
qed simp

text \<open>The conditions a batch is accepted under, as one list of requirements.\<close>

definition input_items_ok :: "item_input list \<Rightarrow> bool" where
  "input_items_ok items \<longleftrightarrow>
     (\<forall>k < length items. ii_position (items ! k) = int k + 1) \<and>
     (\<forall>x \<in> set items. 0 < ii_issueNumber x \<and> (\<forall>u. ii_runUuid x = Some u \<longrightarrow> \<not> js_blank u)) \<and>
     distinct (map ii_issueNumber items) \<and>
     sorted_wrt (\<lambda>x y. ii_runUuid x = None \<or> ii_runUuid x \<noteq> ii_runUuid y) items"

definition input_head_ok :: "batch_input \<Rightarrow> bool" where
  "input_head_ok i \<longleftrightarrow>
     (in_candidateSha i \<noteq> None \<longrightarrow> (\<forall>x \<in> set (in_items i). ii_status x = Some IMerged)) \<and>
     (in_approvedCandidateSha i \<noteq> None \<longrightarrow> in_approvedCandidateSha i = in_candidateSha i) \<and>
     (in_status i = Some BCompleted \<longrightarrow>
        in_completedAt i \<noteq> None \<and> \<not> falsy (in_approvedCandidateSha i))"

lemma check_items_ok: "check_items 0 items [] [] [] = None \<longleftrightarrow> input_items_ok items"
  by (auto simp: check_items_None input_items_ok_def)

lemma first_unmerged_None: "first_unmerged items = None \<longleftrightarrow> (\<forall>i \<in> set items. bi_status i = IMerged)"
  by (simp add: first_unmerged_def find_None_iff)

lemma item_of_input_simps [simp]:
  "bi_position (item_of_input b i) = ii_position i"
  "bi_issueNumber (item_of_input b i) = ii_issueNumber i"
  "bi_runUuid (item_of_input b i) = ii_runUuid i"
  "bi_releaseBatchId (item_of_input b i) = b"
  "bi_status (item_of_input b i) = IMerged \<longleftrightarrow> ii_status i = Some IMerged"
  by (auto simp: item_of_input_def split: option.splits)

lemma createReleaseBatch_InrD:
  assumes "createReleaseBatch i = Inr b"
  shows "in_items i \<noteq> [] \<and> input_items_ok (sort_key ii_position (in_items i)) \<and> input_head_ok i \<and>
    b_items b = map (item_of_input (b_id b)) (sort_key ii_position (in_items i)) \<and>
    b_id b = in_id i \<and> b_candidateSha b = in_candidateSha i \<and>
    b_approvedCandidateSha b = in_approvedCandidateSha i \<and> b_completedAt b = in_completedAt i \<and>
    (b_status b = BCompleted \<longleftrightarrow> in_status i = Some BCompleted)"
  using assms
  by (auto simp: createReleaseBatch_def Let_def check_items_ok input_head_ok_def
      first_unmerged_None split: if_split_asm option.splits)

lemma createReleaseBatch_accepts_iff:
  "(\<exists>b. createReleaseBatch i = Inr b) \<longleftrightarrow>
   in_items i \<noteq> [] \<and> input_items_ok (sort_key ii_position (in_items i)) \<and> input_head_ok i"
  (is "?l \<longleftrightarrow> ?r")
proof
  assume ?l then show ?r by (auto dest!: createReleaseBatch_InrD)
next
  assume r: ?r
  show ?l
  proof (cases "createReleaseBatch i")
    case (Inl e)
    moreover have "check_items 0 (sort_key ii_position (in_items i)) [] [] [] = None"
      using r by (simp add: check_items_ok)
    ultimately show ?thesis
      using r by (auto simp: createReleaseBatch_def Let_def input_head_ok_def
        first_unmerged_None split: if_split_asm option.splits)
  qed blast
qed

lemma createReleaseBatch_wf:
  assumes "createReleaseBatch i = Inr b"
  shows "batch_wf b"
proof -
  let ?in = "sort_key ii_position (in_items i)"
  have i: "b_items b = map (item_of_input (b_id b)) ?in" "in_items i \<noteq> []" "input_items_ok ?in"
    using createReleaseBatch_InrD [OF assms] by simp_all
  have "sorted_wrt (\<lambda>x y. ii_runUuid x = None \<or> ii_runUuid x \<noteq> ii_runUuid y) ?in"
    using i(3) by (simp add: input_items_ok_def)
  then have "distinct_runs (b_items b)" by (simp add: distinct_runs_iff i(1) sorted_wrt_map)
  moreover have "distinct (map bi_issueNumber (b_items b))"
    using i(3) by (simp add: i(1) input_items_ok_def comp_def)
  moreover have "\<forall>x \<in> set (b_items b). 0 < bi_issueNumber x \<and> bi_releaseBatchId x = b_id b"
    using i(3) by (simp add: i(1) input_items_ok_def)
  moreover have "b_items b \<noteq> []" using i(2) by (simp add: i(1) flip: length_greater_0_conv)
  moreover have "\<forall>k < length (b_items b). bi_position (b_items b ! k) = int k + 1"
    using i(3) by (simp add: i(1) input_items_ok_def)
  ultimately show ?thesis unfolding batch_wf_def by blast
qed

section \<open>Approval\<close>

text \<open>
  A candidate is only captured when every issue is merged, an approval is always the approval
  of the current candidate, and a completed batch has one.
\<close>

definition approval_inv :: "release_batch \<Rightarrow> bool" where
  "approval_inv b \<longleftrightarrow>
     (b_candidateSha b \<noteq> None \<longrightarrow> (\<forall>i \<in> set (b_items b). bi_status i = IMerged)) \<and>
     (b_approvedCandidateSha b \<noteq> None \<longrightarrow> b_approvedCandidateSha b = b_candidateSha b) \<and>
     (b_status b = BCompleted \<longrightarrow> b_completedAt b \<noteq> None \<and> \<not> falsy (b_approvedCandidateSha b))"

lemma createReleaseBatch_approval: "createReleaseBatch i = Inr b \<Longrightarrow> approval_inv b"
  by (drule createReleaseBatch_InrD) (auto simp: approval_inv_def input_head_ok_def)

lemma item_op_approval:
  assumes "item_op b b' k item" and "approval_inv b"
  shows "approval_inv b'"
proof -
  have "\<forall>i \<in> set (b_items b'). bi_status i = IMerged" if "\<forall>i \<in> set (b_items b). bi_status i = IMerged"
    using assms(1) that by (auto simp: item_op_def item_change_def set_list_update_eq)
  then show ?thesis
    using assms by (auto simp: approval_inv_def item_op_def same_head_def batch_terminal_def)
qed

lemma quiet_op_approval:
  assumes "apply_batch_op op b = Inr b'" and "\<not> is_item_op op" and "\<nexists>ns. op = Append ns"
    and "approval_inv b"
  shows "approval_inv b'"
  using assms
  by (cases op) (auto simp: is_item_op_def batch_ops approval_inv_def Let_def batch_terminal_def
      first_unmerged_None split: if_split_asm option.splits prod.splits)

lemma apply_batch_op_approval:
  assumes "apply_batch_op op b = Inr b'" and "approval_inv b"
  shows "approval_inv b'"
proof (cases "is_item_op op")
  case True
  then show ?thesis using assms item_op_cases item_op_approval by metis
next
  case False
  show ?thesis
  proof (cases "\<exists>ns. op = Append ns")
    case True
    then show ?thesis
      using assms by (auto dest!: appendRemediationItems_op simp: approval_inv_def)
  qed (use assms False quiet_op_approval in blast)
qed

end
