(* ===== verification/Release_Batch_Props.thy ===== *)
theory Release_Batch_Props
  imports Release_Batch_Inv
begin

text \<open>
  What release batches guarantee over whole histories: well-formedness and the approval
  discipline of every reachable batch, the permanence of merged items, and the order in which
  items are worked on, together with the one operation that can break it.
\<close>

section \<open>Reachable batches\<close>

lemma batch_reachable_inv: "batch_reachable b \<Longrightarrow> batch_wf b \<and> approval_inv b"
  by (induction rule: batch_reachable.induct)
    (auto intro: createReleaseBatch_wf createReleaseBatch_approval
      dest: apply_batch_op_wf apply_batch_op_approval)

lemma terminal_batch_stuck:
  "b_status b = BCompleted \<Longrightarrow> \<not> ok (apply_batch_op op b)"
  by (cases op) (simp_all add: admitItem_def assignItemRun_def markItemWaitingMerge_def
      attachItemPr_def markItemMerged_def markItemBlocked_def unblockItem_def batch_ops
      appendRemediationItems_def assertNotTerminal_def batch_terminal_def)

section \<open>Histories\<close>

fun run_batch_ops :: "batch_op list \<Rightarrow> release_batch \<Rightarrow> batch_error + release_batch" where
  "run_batch_ops [] b = Inr b"
| "run_batch_ops (op # ops) b =
     (case apply_batch_op op b of Inl e \<Rightarrow> Inl e | Inr b' \<Rightarrow> run_batch_ops ops b')"

lemma run_batch_ops_Cons_Inr:
  "run_batch_ops (op # ops) b = Inr b' \<longleftrightarrow>
   (\<exists>b1. apply_batch_op op b = Inr b1 \<and> run_batch_ops ops b1 = Inr b')"
  by (auto split: sum.splits)

text \<open>What stays of a merged item.\<close>

definition kept_merged :: "release_batch \<Rightarrow> release_batch \<Rightarrow> bool" where
  "kept_merged b b' \<longleftrightarrow> length (b_items b) \<le> length (b_items b') \<and>
     (\<forall>k < length (b_items b). bi_issueNumber (b_items b' ! k) = bi_issueNumber (b_items b ! k) \<and>
        (bi_status (b_items b ! k) = IMerged \<longrightarrow> bi_status (b_items b' ! k) = IMerged \<and>
           bi_mergedCommitSha (b_items b' ! k) = bi_mergedCommitSha (b_items b ! k)))"

lemma kept_merged_refl [simp]: "kept_merged b b"
  by (simp add: kept_merged_def)

lemma kept_merged_trans: "kept_merged a b \<Longrightarrow> kept_merged b c \<Longrightarrow> kept_merged a c"
  by (fastforce simp: kept_merged_def)

lemma apply_batch_op_kept:
  assumes "apply_batch_op op b = Inr b'"
  shows "kept_merged b b'"
proof (cases "is_item_op op")
  case True
  then obtain k item where "item_op b b' k item" using assms item_op_cases by metis
  then show ?thesis
    by (auto simp: kept_merged_def item_op_def item_change_def nth_list_update)
next
  case no_item: False
  show ?thesis
  proof (cases "\<exists>ns. op = Append ns")
    case True
    then show ?thesis
      using assms by (auto dest!: appendRemediationItems_op simp: kept_merged_def nth_append)
  next
    case False
    then show ?thesis using quiet_op [OF assms no_item] by (simp add: kept_merged_def)
  qed
qed

lemma run_batch_ops_kept: "run_batch_ops ops b = Inr b' \<Longrightarrow> kept_merged b b'"
proof (induction ops arbitrary: b)
  case (Cons op ops)
  then show ?case
    by (metis apply_batch_op_kept kept_merged_trans run_batch_ops_Cons_Inr)
qed simp

section \<open>One item at a time\<close>

text \<open>Items are worked on in order: whatever has been started has only merged predecessors.\<close>

definition sequential :: "release_batch \<Rightarrow> bool" where
  "sequential b \<longleftrightarrow> (\<forall>j < length (b_items b). bi_status (b_items b ! j) \<noteq> IPending \<longrightarrow>
     (\<forall>i < j. bi_status (b_items b ! i) = IMerged))"

lemma sequentialD:
  "sequential b \<Longrightarrow> j < length (b_items b) \<Longrightarrow> bi_status (b_items b ! j) \<noteq> IPending \<Longrightarrow> i < j \<Longrightarrow>
   bi_status (b_items b ! i) = IMerged"
  by (simp add: sequential_def)

text \<open>
  \<open>markItemBlocked\<close> has no guard on the position. \<open>op_in_order\<close> is the discipline its
  callers have to keep: only an item whose turn it is gets blocked.
\<close>

definition op_in_order :: "batch_op \<Rightarrow> release_batch \<Rightarrow> bool" where
  "op_in_order op b =
     (case op of
        Block_item p _ \<Rightarrow> list_all (\<lambda>i. bi_position i < p \<longrightarrow> bi_status i = IMerged) (b_items b)
      | _ \<Rightarrow> True)"

fun in_order :: "batch_op list \<Rightarrow> release_batch \<Rightarrow> bool" where
  "in_order [] b = True"
| "in_order (op # ops) b =
     (op_in_order op b \<and> (case apply_batch_op op b of Inl _ \<Rightarrow> True | Inr b' \<Rightarrow> in_order ops b'))"

lemma append_pending:
  assumes "appendRemediationItems b ns = Inr b'"
  shows "\<exists>new. b_items b' = b_items b @ new \<and> (\<forall>i \<in> set new. bi_status i = IPending)"
  using appendRemediationItems_op [OF assms]
  by (elim exE conjE) (auto simp: all_set_conv_all_nth)

lemma item_op_sequential:
  assumes op: "item_op b b' k item" and seq: "sequential b"
    and st: "bi_status item = bi_status (b_items b ! k) \<or> bi_status (b_items b ! k) \<noteq> IPending \<or>
      (\<forall>i < k. bi_status (b_items b ! i) = IMerged)"
  shows "sequential b'"
  unfolding sequential_def
proof (intro allI impI)
  fix j i
  have k: "k < length (b_items b)" and items: "b_items b' = (b_items b)[k := item]"
    and keep: "bi_status (b_items b ! k) = IMerged \<longrightarrow> bi_status item = IMerged"
    using op by (auto simp: item_op_def item_change_def)
  assume j: "j < length (b_items b')" "bi_status (b_items b' ! j) \<noteq> IPending" and "i < j"
  have "bi_status (b_items b ! i) = IMerged"
  proof (cases "j = k")
    case True
    then have "bi_status item \<noteq> IPending" using j k by (simp add: items)
    then show ?thesis using st sequentialD [OF seq k] True \<open>i < j\<close> by metis
  next
    case False
    then show ?thesis using sequentialD [OF seq _ _ \<open>i < j\<close>] j by (simp add: items)
  qed
  then show "bi_status (b_items b' ! i) = IMerged"
    using keep k by (auto simp: items nth_list_update)
qed

lemma predecessors_merged:
  assumes "batch_wf b" and "item_op b b' k item"
    and "\<forall>i \<in> set (b_items b). bi_position i < bi_position item \<longrightarrow> bi_status i = IMerged"
  shows "\<forall>i < k. bi_status (b_items b ! i) = IMerged"
proof (intro allI impI)
  fix i assume "i < k"
  moreover have k: "k < length (b_items b)" "bi_position item = bi_position (b_items b ! k)"
    using assms(2) by (auto simp: item_op_def item_change_def)
  moreover have "b_items b ! i \<in> set (b_items b)" using \<open>i < k\<close> k by simp
  ultimately show "bi_status (b_items b ! i) = IMerged"
    using assms(3) batch_wf_position [OF assms(1)] by simp
qed

lemma item_operation_sequential:
  assumes op: "apply_batch_op op b = Inr b'" and "is_item_op op" and "op_in_order op b"
    and wf: "batch_wf b" and seq: "sequential b"
  shows "sequential b'"
proof (cases op)
  case (Admit p u s t)
  then obtain k item where "item_op b b' k item" "bi_position item = p"
    "\<forall>i \<in> set (b_items b). bi_position i < p \<longrightarrow> bi_status i = IMerged"
    using op admitItem_op by fastforce
  then show ?thesis using predecessors_merged [OF wf] item_op_sequential [OF _ seq] by blast
next
  case (Assign_run p u)
  then show ?thesis using op assignItemRun_op item_op_sequential [OF _ seq] by fastforce
next
  case (Waiting_merge p n)
  then show ?thesis using op markItemWaitingMerge_op item_op_sequential [OF _ seq] by fastforce
next
  case (Attach_pr p n)
  then show ?thesis using op attachItemPr_op item_op_sequential [OF _ seq] by fastforce
next
  case (Merged p s t)
  then show ?thesis using op markItemMerged_op item_op_sequential [OF _ seq] by fastforce
next
  case (Block_item p r)
  then obtain k item where "item_op b b' k item" "bi_position item = p"
    using op markItemBlocked_op by fastforce
  moreover have "\<forall>i \<in> set (b_items b). bi_position i < p \<longrightarrow> bi_status i = IMerged"
    using assms(3) Block_item by (simp add: op_in_order_def list_all_iff)
  ultimately show ?thesis
    using predecessors_merged [OF wf] item_op_sequential [OF _ seq] by blast
next
  case (Unblock_item p)
  then show ?thesis using op unblockItem_op item_op_sequential [OF _ seq] by fastforce
qed (use assms in \<open>simp_all add: is_item_op_def\<close>)

lemma apply_batch_op_sequential:
  assumes op: "apply_batch_op op b = Inr b'" and "op_in_order op b"
    and "batch_wf b" and seq: "sequential b"
  shows "sequential b'"
proof (cases "is_item_op op")
  case True
  then show ?thesis using assms item_operation_sequential by blast
next
  case no_item: False
  show ?thesis
  proof (cases "\<exists>ns. op = Append ns")
    case True
    then obtain ns where "appendRemediationItems b ns = Inr b'" using op by auto
    then obtain new where new: "b_items b' = b_items b @ new"
      "\<forall>i \<in> set new. bi_status i = IPending"
      using append_pending by blast
    show ?thesis
      unfolding sequential_def
    proof (intro allI impI)
      fix j i
      assume j: "j < length (b_items b')" "bi_status (b_items b' ! j) \<noteq> IPending" "i < j"
      have "j < length (b_items b)"
      proof (rule ccontr)
        assume "\<not> j < length (b_items b)"
        then have "b_items b' ! j \<in> set new" using j(1) new(1) by (simp add: nth_append)
        then show False using new(2) j(2) by simp
      qed
      then show "bi_status (b_items b' ! i) = IMerged"
        using sequentialD [OF seq _ _ j(3)] j new(1) by (simp add: nth_append)
    qed
  next
    case False
    then show ?thesis using quiet_op [OF op no_item] seq by (simp add: sequential_def)
  qed
qed

lemma run_batch_ops_sequential:
  "run_batch_ops ops b = Inr b' \<Longrightarrow> in_order ops b \<Longrightarrow> batch_wf b \<Longrightarrow> sequential b \<Longrightarrow> sequential b'"
proof (induction ops arbitrary: b)
  case (Cons op ops)
  then obtain b1 where b1: "apply_batch_op op b = Inr b1" "run_batch_ops ops b1 = Inr b'"
    unfolding run_batch_ops_Cons_Inr by blast
  moreover have "op_in_order op b" "in_order ops b1" using Cons.prems(2) b1(1) by simp_all
  ultimately show ?case
    using Cons.IH Cons.prems apply_batch_op_sequential apply_batch_op_wf by blast
qed simp

lemma sequential_in_flight:
  assumes "sequential b" and "i < length (b_items b)" "j < length (b_items b)"
    and "bi_status (b_items b ! i) \<notin> {IPending, IMerged}"
    and "bi_status (b_items b ! j) \<notin> {IPending, IMerged}"
  shows "i = j"
proof (rule ccontr)
  assume "i \<noteq> j"
  then show False using assms by (cases "i < j") (auto simp: sequential_def)
qed

section \<open>Properties\<close>

definition sample_input :: batch_input where
  "sample_input =
     \<lparr>in_id = ''b'', in_repoId = ''r'', in_sourceBranch = ''main'', in_sourceStartSha = ''s0'',
      in_releaseBranch = ''release'', in_status = None, in_currentPosition = None,
      in_candidateSha = None, in_approvedCandidateSha = None, in_candidateTreeSha = None,
      in_promotionCommitSha = None, in_promotionPrNumber = None, in_blockedReason = None,
      in_createdAt = 0, in_completedAt = None,
      in_items =
        [\<lparr>ii_position = 2, ii_issueNumber = 12, ii_status = None, ii_runUuid = None,
          ii_prNumber = None, ii_baseSha = None, ii_mergedCommitSha = None,
          ii_blockedReason = None, ii_startedAt = None, ii_completedAt = None\<rparr>,
         \<lparr>ii_position = 1, ii_issueNumber = 11, ii_status = None, ii_runUuid = None,
          ii_prNumber = None, ii_baseSha = None, ii_mergedCommitSha = None,
          ii_blockedReason = None, ii_startedAt = None, ii_completedAt = None\<rparr>]\<rparr>"

definition sample_batch :: release_batch where
  "sample_batch = (case createReleaseBatch sample_input of Inr b \<Rightarrow> b)"

lemma createReleaseBatch_sample: "createReleaseBatch sample_input = Inr sample_batch"
  by code_simp

text \<open>A complete history of the sample: both issues are merged, tested and promoted.\<close>

definition sample_history :: "batch_op list" where
  "sample_history =
     [Admit 1 (Some ''u1'') None 1, Waiting_merge 1 101, Merged 1 ''m1'' 2,
      Admit 2 (Some ''u2'') None 3, Waiting_merge 2 102, Merged 2 ''m2'' 4,
      Await_test ''c'' (Some ''t'') None, Approve ''c'', Promote, Complete 9]"

definition sample_completed :: release_batch where
  "sample_completed = (case run_batch_ops sample_history sample_batch of Inr b \<Rightarrow> b)"

lemma run_batch_ops_sample: "run_batch_ops sample_history sample_batch = Inr sample_completed"
  by code_simp

lemma run_batch_ops_reachable:
  "run_batch_ops ops b = Inr b' \<Longrightarrow> batch_reachable b \<Longrightarrow> batch_reachable b'"
proof (induction ops arbitrary: b)
  case (Cons op ops)
  then show ?case by (metis batch_reachable.step run_batch_ops_Cons_Inr)
qed simp

lemma sample_completed_reachable: "batch_reachable sample_completed"
  by (rule run_batch_ops_reachable [OF run_batch_ops_sample])
    (rule batch_reachable.create [OF createReleaseBatch_sample])

text \<open>
  \<open>createReleaseBatch\<close> accepts an input exactly when it has items, their positions sorted
  are 1 to n, issue numbers are positive and pairwise different, run ids are non-blank and
  pairwise different, and the head of the batch is consistent: a candidate needs every item
  merged, an approval has to be the candidate's, and a completed batch needs both an approval
  and a completion date.
\<close>

theorem createReleaseBatch_accepts:
  "ok (createReleaseBatch i) =
   (in_items i \<noteq> [] \<and> input_items_ok (sort_key ii_position (in_items i)) \<and> input_head_ok i)"
  unfolding ok_iff by (rule createReleaseBatch_accepts_iff)

text \<open>
  C2. Every batch that \<open>createReleaseBatch\<close> and any sequence of operations can produce is well
  formed (positions 1 to n in order, distinct positive issue numbers, no run assigned to two
  items) and keeps the approval discipline: a candidate is only set while every item is merged,
  and an approval is the approval of exactly that candidate.
\<close>

theorem batch_invariant:
  assumes "batch_reachable b"
  shows "batch_wf b \<and> approval_inv b"
  using assms by (rule batch_reachable_inv)

theorem batch_invariant_witness: "batch_wf sample_completed \<and> approval_inv sample_completed"
  by (rule batch_invariant [OF sample_completed_reachable])

text \<open>
  C1. A reachable completed batch has every item merged and a non-empty approved candidate that
  is the candidate it was tested with, and no operation succeeds on it any more.
\<close>

theorem completed_batch:
  assumes "batch_reachable b" and "b_status b = BCompleted"
  shows "(\<forall>i \<in> set (b_items b). bi_status i = IMerged) \<and>
    (\<exists>sha. sha \<noteq> [] \<and> b_candidateSha b = Some sha \<and> b_approvedCandidateSha b = Some sha) \<and>
    b_completedAt b \<noteq> None \<and> (\<forall>op. \<not> ok (apply_batch_op op b))"
proof -
  have "approval_inv b" using batch_reachable_inv [OF assms(1)] by simp
  moreover from this obtain sha where "b_approvedCandidateSha b = Some sha" "sha \<noteq> []"
    using assms(2) by (cases "b_approvedCandidateSha b") (auto simp: approval_inv_def)
  ultimately show ?thesis
    using assms(2) terminal_batch_stuck [OF assms(2)] by (auto simp: approval_inv_def)
qed

lemma sample_completed_status: "b_status sample_completed = BCompleted"
  by code_simp

theorem completed_batch_witness:
  "list_all (\<lambda>i. bi_status i = IMerged) (b_items sample_completed) \<and>
    b_candidateSha sample_completed = b_approvedCandidateSha sample_completed"
  using completed_batch [OF sample_completed_reachable sample_completed_status]
  by (auto simp: list_all_iff)

text \<open>
  A merged item is permanent: after any sequence of operations the item is still at its
  place in the batch, for the same issue, merged, with the same merge commit.
\<close>

theorem merged_item_permanent:
  assumes "run_batch_ops ops b = Inr b'" and "k < length (b_items b)"
    and "bi_status (b_items b ! k) = IMerged"
  shows "k < length (b_items b') \<and> bi_status (b_items b' ! k) = IMerged \<and>
    bi_issueNumber (b_items b' ! k) = bi_issueNumber (b_items b ! k) \<and>
    bi_mergedCommitSha (b_items b' ! k) = bi_mergedCommitSha (b_items b ! k)"
  using run_batch_ops_kept [OF assms(1)] assms(2,3) by (auto simp: kept_merged_def)

definition sample_half :: release_batch where
  "sample_half = (case run_batch_ops (take 3 sample_history) sample_batch of Inr b \<Rightarrow> b)"

lemma sample_half_facts:
  "run_batch_ops (drop 3 sample_history) sample_half = Inr sample_completed"
  "0 < length (b_items sample_half)" "bi_status (b_items sample_half ! 0) = IMerged"
  "bi_mergedCommitSha (b_items sample_half ! 0) = Some ''m1''"
  by code_simp+

theorem merged_item_permanent_witness:
  "bi_mergedCommitSha (b_items sample_completed ! 0) = Some ''m1''"
  using merged_item_permanent [OF sample_half_facts(1-3)] sample_half_facts(4) by simp

text \<open>
  A batch created with untouched items is worked on one item at a time: after any
  operations in which \<open>markItemBlocked\<close> only hits an item whose predecessors are merged, every
  item that has left the pending state has only merged predecessors, so at most one item is
  active, waiting for its merge or blocked.
\<close>

theorem one_item_in_flight:
  assumes "createReleaseBatch i = Inr b" and "\<forall>x \<in> set (in_items i). ii_status x = None"
    and "run_batch_ops ops b = Inr b'" and "in_order ops b"
  shows "sequential b' \<and>
    length (filter (\<lambda>x. bi_status x \<noteq> IPending \<and> bi_status x \<noteq> IMerged) (b_items b')) \<le> 1"
proof -
  have "\<forall>x \<in> set (b_items b). bi_status x = IPending"
    using createReleaseBatch_InrD [OF assms(1)] assms(2) by (auto simp: item_of_input_def)
  then have "sequential b" by (auto simp: sequential_def)
  then have seq: "sequential b'"
    using run_batch_ops_sequential assms(3,4) createReleaseBatch_wf [OF assms(1)] by blast
  let ?P = "\<lambda>x. bi_status x \<noteq> IPending \<and> bi_status x \<noteq> IMerged"
  have "card {j. j < length (b_items b') \<and> ?P (b_items b' ! j)} \<le> 1"
    by (subst One_nat_def, subst card_le_Suc0_iff_eq)
      (auto intro: sequential_in_flight [OF seq])
  then show ?thesis using seq by (simp add: length_filter_conv_card)
qed

theorem one_item_in_flight_witness: "sequential sample_completed"
proof -
  have "\<forall>x \<in> set (in_items sample_input). ii_status x = None" by code_simp
  moreover have "in_order sample_history sample_batch" by code_simp
  ultimately show ?thesis
    using one_item_in_flight [OF createReleaseBatch_sample _ run_batch_ops_sample] by blast
qed

text \<open>
  Without that discipline the guard of \<open>admitItem\<close> against concurrent items is bypassed:
  in a well-formed, unfinished batch with an active item, blocking and unblocking any other
  pending item gives a batch with two active items.
\<close>

theorem unblock_starts_second_item:
  assumes "batch_wf b" and "\<not> batch_terminal (b_status b)"
    and "j < length (b_items b)" "bi_status (b_items b ! j) = IActive"
    and "k < length (b_items b)" "bi_status (b_items b ! k) = IPending"
  shows "\<exists>b'. run_batch_ops [Block_item (int k + 1) r, Unblock_item (int k + 1)] b = Inr b' \<and>
    j \<noteq> k \<and> bi_status (b_items b' ! j) = IActive \<and> bi_status (b_items b' ! k) = IActive"
proof -
  have find: "find_index (\<lambda>i. bi_position i = int k + 1) (b_items c) = Some k"
    if "batch_wf c" "k < length (b_items c)" for c
  proof (cases "find_index (\<lambda>i. bi_position i = int k + 1) (b_items c)")
    case None
    then show ?thesis using that batch_wf_position [OF that] by (auto simp: find_index_None)
  next
    case (Some m)
    then show ?thesis using find_index_SomeD [OF Some] batch_wf_position [OF that(1)] by auto
  qed
  let ?x = "(b_items b ! k)\<lparr>bi_status := IBlocked, bi_blockedReason := Some r\<rparr>"
  let ?b1 = "(set_item b k ?x)\<lparr>b_status := BBlocked, b_blockedReason := Some r\<rparr>"
  have b1: "markItemBlocked b (int k + 1) r = Inr ?b1"
    using assms find by (simp add: markItemBlocked_def assertNotTerminal_def with_item_def)
  then have "batch_wf ?b1" using apply_batch_op_wf [of "Block_item (int k + 1) r"] assms(1) by simp
  moreover have items: "b_items ?b1 = (b_items b)[k := ?x]" by (simp add: set_item_def)
  ultimately have f1: "find_index (\<lambda>i. bi_position i = int k + 1) (b_items ?b1) = Some k"
    using find [of ?b1] assms(5) by simp
  have "\<exists>b'. unblockItem ?b1 (int k + 1) = Inr b' \<and>
      b_items b' = (b_items b)[k := ?x\<lparr>bi_blockedReason := None, bi_status := IActive\<rparr>]"
    using assms(5) f1
    by (simp add: unblockItem_def assertNotTerminal_def with_item_def batch_terminal_def
        unblockBatch_def set_item_def Let_def)
  then obtain b' where "unblockItem ?b1 (int k + 1) = Inr b'"
    "b_items b' = (b_items b)[k := ?x\<lparr>bi_blockedReason := None, bi_status := IActive\<rparr>]" by blast
  moreover have "j \<noteq> k" using assms(4,6) by auto
  ultimately show ?thesis using b1 assms(3-5) by (simp add: nth_list_update)
qed

definition sample_active :: release_batch where
  "sample_active = (case run_batch_ops (take 1 sample_history) sample_batch of Inr b \<Rightarrow> b)"

lemma sample_active_facts:
  "batch_reachable sample_active" "\<not> batch_terminal (b_status sample_active)"
  "0 < length (b_items sample_active)" "bi_status (b_items sample_active ! 0) = IActive"
  "1 < length (b_items sample_active)" "bi_status (b_items sample_active ! 1) = IPending"
proof -
  have "run_batch_ops (take 1 sample_history) sample_batch = Inr sample_active" by code_simp
  then show "batch_reachable sample_active"
    by (rule run_batch_ops_reachable) (rule batch_reachable.create [OF createReleaseBatch_sample])
qed code_simp+

theorem unblock_starts_second_item_witness:
  "\<exists>b'. run_batch_ops [Block_item 2 ''ci'', Unblock_item 2] sample_active = Inr b' \<and>
    bi_status (b_items b' ! 0) = IActive \<and> bi_status (b_items b' ! 1) = IActive"
  using unblock_starts_second_item
    [OF batch_reachable_inv [THEN conjunct1] sample_active_facts(2-6), of "''ci''"]
    sample_active_facts(1) by simp

end
