(* ===== verification/Effects.thy ===== *)
theory Effects
  imports Prelude
begin

text \<open>
  Programs with state, exceptions and early returns, for the use cases whose code awaits, throws
  and returns in the middle of a branch: a program maps a state to its end and the state it
  leaves. \<open>triple P m Q E\<close> is the Hoare triple with an exceptional postcondition; its rules are
  collected in \<open>triple_intros\<close>, one per combinator.
\<close>

type_synonym ('s, 'e, 'a) prog = "'s \<Rightarrow> ('e + 'a) \<times> 's"

section \<open>Combinators\<close>

definition ret :: "'a \<Rightarrow> ('s, 'e, 'a) prog" where
  "ret x s = (Inr x, s)"

definition stop :: "'e \<Rightarrow> ('s, 'e, 'a) prog" where
  "stop e s = (Inl e, s)"

definition bnd :: "('s, 'e, 'a) prog \<Rightarrow> ('a \<Rightarrow> ('s, 'e, 'b) prog) \<Rightarrow> ('s, 'e, 'b) prog" where
  "bnd m k s = (case m s of (Inl e, s') \<Rightarrow> (Inl e, s') | (Inr x, s') \<Rightarrow> k x s')"

definition sq :: "('s, 'e, 'a) prog \<Rightarrow> ('s, 'e, 'b) prog \<Rightarrow> ('s, 'e, 'b) prog" where
  "sq m k = bnd m (\<lambda>_. k)"

definition ask :: "('s \<Rightarrow> 'a) \<Rightarrow> ('s, 'e, 'a) prog" where
  "ask f s = (Inr (f s), s)"

definition tell :: "('s \<Rightarrow> 's) \<Rightarrow> ('s, 'e, unit) prog" where
  "tell f s = (Inr (), f s)"

definition lift :: "'e + 'a \<Rightarrow> ('s, 'e, 'a) prog" where
  "lift r s = (r, s)"

definition only_if :: "bool \<Rightarrow> ('s, 'e, unit) prog \<Rightarrow> ('s, 'e, unit) prog" where
  "only_if c m = (if c then m else ret ())"

text \<open>\<open>try m catch\<close>: \<open>h e = None\<close> lets the stop through.\<close>

definition catch :: "('s, 'e, 'a) prog \<Rightarrow> ('e \<Rightarrow> 'b option) \<Rightarrow> ('a \<Rightarrow> 'b) \<Rightarrow> ('s, 'e, 'b) prog" where
  "catch m h f s = (case m s of
       (Inr x, s') \<Rightarrow> (Inr (f x), s')
     | (Inl e, s') \<Rightarrow> (case h e of None \<Rightarrow> (Inl e, s') | Some y \<Rightarrow> (Inr y, s')))"

fun each :: "('a \<Rightarrow> ('s, 'e, unit) prog) \<Rightarrow> 'a list \<Rightarrow> ('s, 'e, unit) prog" where
  "each f [] = ret ()"
| "each f (x # xs) = sq (f x) (each f xs)"

section \<open>Evaluation\<close>

named_theorems prog_simps \<open>evaluation of programs\<close>

lemma ret_run [prog_simps]: "ret x s = (Inr x, s)"
  by (simp add: ret_def)

lemma stop_run [prog_simps]: "stop e s = (Inl e, s)"
  by (simp add: stop_def)

lemma ask_run [prog_simps]: "ask f s = (Inr (f s), s)"
  by (simp add: ask_def)

lemma tell_run [prog_simps]: "tell g s = (Inr (), g s)"
  by (simp add: tell_def)

lemma lift_run [prog_simps]: "lift r s = (r, s)"
  by (simp add: lift_def)

lemma bnd_run [prog_simps]:
  "bnd m k s = (case m s of (Inl e, s') \<Rightarrow> (Inl e, s') | (Inr x, s') \<Rightarrow> k x s')"
  by (simp add: bnd_def)

lemma sq_run [prog_simps]:
  "sq m k s = (case m s of (Inl e, s') \<Rightarrow> (Inl e, s') | (Inr x, s') \<Rightarrow> k s')"
  by (simp add: sq_def bnd_def)

lemma bnd_ret [simp]: "bnd (ret x) k = k x"
  by (simp add: fun_eq_iff bnd_def ret_def)

lemma bnd_stop [simp]: "bnd (stop e) k = stop e"
  by (simp add: fun_eq_iff bnd_def stop_def)

lemma bnd_assoc: "bnd (bnd m k) l = bnd m (\<lambda>x. bnd (k x) l)"
  by (auto simp: fun_eq_iff bnd_def split: prod.splits sum.splits)

section \<open>Triples\<close>

definition triple ::
  "('s \<Rightarrow> bool) \<Rightarrow> ('s, 'e, 'a) prog \<Rightarrow> ('a \<Rightarrow> 's \<Rightarrow> bool) \<Rightarrow> ('e \<Rightarrow> 's \<Rightarrow> bool) \<Rightarrow> bool" where
  "triple P m Q E \<longleftrightarrow> (\<forall>s. P s \<longrightarrow>
     (case m s of (Inr x, s') \<Rightarrow> Q x s' | (Inl e, s') \<Rightarrow> E e s'))"

named_theorems triple_intros \<open>rules for triples\<close>

lemma tripleI:
  "(\<And>s. P s \<Longrightarrow> case m s of (Inr x, s') \<Rightarrow> Q x s' | (Inl e, s') \<Rightarrow> E e s') \<Longrightarrow> triple P m Q E"
  by (simp add: triple_def)

lemma triple_Inr: "triple P m Q E \<Longrightarrow> P s \<Longrightarrow> m s = (Inr x, s') \<Longrightarrow> Q x s'"
  by (force simp: triple_def)

lemma triple_Inl: "triple P m Q E \<Longrightarrow> P s \<Longrightarrow> m s = (Inl e, s') \<Longrightarrow> E e s'"
  by (force simp: triple_def)

lemma triple_weaken:
  assumes "triple P' m Q' E'" and "\<And>s. P s \<Longrightarrow> P' s"
    and "\<And>x s. Q' x s \<Longrightarrow> Q x s" and "\<And>e s. E' e s \<Longrightarrow> E e s"
  shows "triple P m Q E"
  unfolding triple_def
proof (intro allI impI)
  fix s assume "P s"
  then have "P' s" by (rule assms(2))
  then show "case m s of (Inr x, s') \<Rightarrow> Q x s' | (Inl e, s') \<Rightarrow> E e s'"
    using assms(1,3,4) by (force simp: triple_def split: prod.splits sum.splits)
qed

lemma triple_pre: "triple P' m Q E \<Longrightarrow> (\<And>s. P s \<Longrightarrow> P' s) \<Longrightarrow> triple P m Q E"
  by (rule triple_weaken)

lemma triple_ret: "(\<And>s. P s \<Longrightarrow> Q x s) \<Longrightarrow> triple P (ret x) Q E"
  by (simp add: triple_def ret_def)

lemma triple_stop: "(\<And>s. P s \<Longrightarrow> E e s) \<Longrightarrow> triple P (stop e) Q E"
  by (simp add: triple_def stop_def)

lemma triple_ask: "(\<And>s. P s \<Longrightarrow> Q (f s) s) \<Longrightarrow> triple P (ask f) Q E"
  by (simp add: triple_def ask_def)

lemma triple_tell: "(\<And>s. P s \<Longrightarrow> Q () (f s)) \<Longrightarrow> triple P (tell f) Q E"
  by (simp add: triple_def tell_def)

lemma triple_lift:
  "(\<And>x s. r = Inr x \<Longrightarrow> P s \<Longrightarrow> Q x s) \<Longrightarrow> (\<And>e s. r = Inl e \<Longrightarrow> P s \<Longrightarrow> E e s) \<Longrightarrow>
   triple P (lift r) Q E"
  by (cases r) (simp_all add: triple_def lift_def)

lemma triple_bnd:
  assumes "triple P m R E" and "\<And>x. triple (R x) (k x) Q E"
  shows "triple P (bnd m k) Q E"
  unfolding triple_def
proof (intro allI impI)
  fix s assume s: "P s"
  show "case bnd m k s of (Inr x, s') \<Rightarrow> Q x s' | (Inl e, s') \<Rightarrow> E e s'"
  proof (cases "m s")
    case (Pair r s')
    then show ?thesis
      using s assms by (cases r) (force simp: triple_def bnd_def)+
  qed
qed

lemma triple_sq:
  assumes "triple P m (\<lambda>_. R) E" and "triple R k Q E"
  shows "triple P (sq m k) Q E"
  unfolding sq_def by (rule triple_bnd [OF assms(1)]) (rule assms(2))

lemma triple_only_if:
  "(c \<Longrightarrow> triple P m Q E) \<Longrightarrow> (\<And>s. \<not> c \<Longrightarrow> P s \<Longrightarrow> Q () s) \<Longrightarrow> triple P (only_if c m) Q E"
  by (simp add: only_if_def triple_ret)

lemma triple_if:
  "(c \<Longrightarrow> triple P m Q E) \<Longrightarrow> (\<not> c \<Longrightarrow> triple P m' Q E) \<Longrightarrow> triple P (if c then m else m') Q E"
  by simp

lemma triple_catch:
  assumes "triple P m (\<lambda>x. Q (f x)) (\<lambda>e s. case h e of None \<Rightarrow> E e s | Some y \<Rightarrow> Q y s)"
  shows "triple P (catch m h f) Q E"
  using assms by (fastforce simp: triple_def catch_def split: prod.splits sum.splits option.splits)

lemma triple_each:
  "(\<And>x. x \<in> set xs \<Longrightarrow> triple P (f x) (\<lambda>_. P) E) \<Longrightarrow> triple P (each f xs) (\<lambda>_. P) E"
  by (induction xs) (auto intro: triple_ret triple_sq)

lemma triple_conj_pre: "(c \<Longrightarrow> triple P m Q E) \<Longrightarrow> triple (\<lambda>s. P s \<and> c) m Q E"
  by (auto simp: triple_def)

section \<open>Invariants with a value\<close>

text \<open>
  \<open>yields I V X m\<close>: however \<open>m\<close> ends, \<open>I\<close> holds again; a value it returns satisfies \<open>V\<close>, what
  it stops with satisfies \<open>X\<close>.
\<close>

definition yields ::
  "('s \<Rightarrow> bool) \<Rightarrow> ('a \<Rightarrow> bool) \<Rightarrow> ('e \<Rightarrow> bool) \<Rightarrow> ('s, 'e, 'a) prog \<Rightarrow> bool" where
  "yields I V X m \<longleftrightarrow> triple I m (\<lambda>x s. I s \<and> V x) (\<lambda>e s. I s \<and> X e)"

named_theorems yields_intros \<open>rules for invariants of programs\<close>

lemma yields_Inr: "yields I V X m \<Longrightarrow> I s \<Longrightarrow> m s = (Inr x, s') \<Longrightarrow> I s' \<and> V x"
  unfolding yields_def by (rule triple_Inr)

lemma yields_Inl: "yields I V X m \<Longrightarrow> I s \<Longrightarrow> m s = (Inl e, s') \<Longrightarrow> I s' \<and> X e"
  unfolding yields_def by (rule triple_Inl)

lemma yields_inv: "yields I V X m \<Longrightarrow> I s \<Longrightarrow> I (snd (m s))"
  by (cases "m s"; cases "fst (m s)") (auto dest: yields_Inr yields_Inl)

lemma yieldsI:
  "(\<And>s. I s \<Longrightarrow> case m s of (Inr x, s') \<Rightarrow> I s' \<and> V x | (Inl e, s') \<Rightarrow> I s' \<and> X e) \<Longrightarrow> yields I V X m"
  unfolding yields_def by (rule tripleI)

lemma yields_weaken:
  "yields I V X m \<Longrightarrow> (\<And>x. V x \<Longrightarrow> V' x) \<Longrightarrow> (\<And>e. X e \<Longrightarrow> X' e) \<Longrightarrow> yields I V' X' m"
  unfolding yields_def by (erule triple_weaken) auto

lemma yields_any: "yields I V X m \<Longrightarrow> yields I (\<lambda>_. True) X m"
  by (erule yields_weaken) simp_all

lemma yields_ret: "V x \<Longrightarrow> yields I V X (ret x)"
  by (simp add: yields_def triple_ret)

lemma yields_stop: "X e \<Longrightarrow> yields I V X (stop e)"
  by (simp add: yields_def triple_stop)

lemma yields_ask: "(\<And>s. I s \<Longrightarrow> V (f s)) \<Longrightarrow> yields I V X (ask f)"
  by (simp add: yields_def triple_ask)

lemma yields_tell: "(\<And>s. I s \<Longrightarrow> I (f s)) \<Longrightarrow> yields I (\<lambda>_. True) X (tell f)"
  by (simp add: yields_def triple_tell)

lemma yields_lift:
  "(\<And>x. r = Inr x \<Longrightarrow> V x) \<Longrightarrow> (\<And>e. r = Inl e \<Longrightarrow> X e) \<Longrightarrow> yields I V X (lift r)"
  by (simp add: yields_def triple_lift)

lemma yields_bnd:
  assumes "yields I V X m" and "\<And>x. V x \<Longrightarrow> yields I W X (k x)"
  shows "yields I W X (bnd m k)"
  using assms(1) unfolding yields_def
  by (rule triple_bnd) (rule triple_conj_pre, rule assms(2) [unfolded yields_def])

lemma yields_sq: "yields I (\<lambda>_. True) X m \<Longrightarrow> yields I W X k \<Longrightarrow> yields I W X (sq m k)"
  unfolding sq_def by (rule yields_bnd)

lemma yields_only_if: "(c \<Longrightarrow> yields I (\<lambda>_. True) X m) \<Longrightarrow> yields I (\<lambda>_. True) X (only_if c m)"
  by (simp add: only_if_def yields_ret)

lemma yields_if:
  "(c \<Longrightarrow> yields I V X m) \<Longrightarrow> (\<not> c \<Longrightarrow> yields I V X m') \<Longrightarrow> yields I V X (if c then m else m')"
  by simp

lemma yields_option:
  "(x = None \<Longrightarrow> yields I V X m) \<Longrightarrow> (\<And>y. x = Some y \<Longrightarrow> yields I V X (k y)) \<Longrightarrow>
   yields I V X (case x of None \<Rightarrow> m | Some y \<Rightarrow> k y)"
  by (cases x) auto

lemma yields_sum:
  "(\<And>e. x = Inl e \<Longrightarrow> yields I V X (m e)) \<Longrightarrow> (\<And>y. x = Inr y \<Longrightarrow> yields I V X (k y)) \<Longrightarrow>
   yields I V X (case x of Inl e \<Rightarrow> m e | Inr y \<Rightarrow> k y)"
  by (cases x) auto

lemma yields_list:
  "yields I V X m \<Longrightarrow> (\<And>y ys. yields I V X (k y ys)) \<Longrightarrow>
   yields I V X (case xs of [] \<Rightarrow> m | y # ys \<Rightarrow> k y ys)"
  by (cases xs) simp_all

lemma yields_prod:
  "(\<And>a b. x = (a, b) \<Longrightarrow> yields I V X (k a b)) \<Longrightarrow> yields I V X (case x of (a, b) \<Rightarrow> k a b)"
  by (cases x) auto

lemma yields_let: "yields I V X (m x) \<Longrightarrow> yields I V X (let y = x in m y)"
  by simp

lemma yields_catch:
  assumes "yields I V Y m" and "\<And>x. V x \<Longrightarrow> W (f x)"
    and "\<And>e. Y e \<Longrightarrow> (case h e of None \<Rightarrow> X e | Some y \<Rightarrow> W y)"
  shows "yields I W X (catch m h f)"
proof (rule yieldsI)
  fix s assume s: "I s"
  show "case catch m h f s of (Inr x, s') \<Rightarrow> I s' \<and> W x | (Inl e, s') \<Rightarrow> I s' \<and> X e"
  proof (cases "m s")
    case (Pair r s')
    show ?thesis
    proof (cases r)
      case (Inl e)
      then have "I s'" "Y e" using yields_Inl [OF assms(1) s] Pair by auto
      then show ?thesis using assms(3) [of e] Pair Inl \<open>I s'\<close> by (cases "h e") (simp_all add: catch_def)
    next
      case (Inr x)
      then have "I s'" "V x" using yields_Inr [OF assms(1) s] Pair by auto
      then show ?thesis using assms(2) Pair Inr by (simp add: catch_def)
    qed
  qed
qed

lemma yields_each: "(\<And>x. x \<in> set xs \<Longrightarrow> yields I (\<lambda>_. True) X (f x)) \<Longrightarrow> yields I (\<lambda>_. True) X (each f xs)"
  by (induction xs) (auto intro: yields_ret yields_sq)

lemmas [yields_intros] = yields_stop yields_sq yields_only_if yields_option yields_sum yields_let
  yields_each

section \<open>How a program stops\<close>

text \<open>\<open>ends I X m\<close>: started with \<open>I\<close>, the program returns or is stopped by an \<open>X\<close>.\<close>

definition ends :: "('s \<Rightarrow> bool) \<Rightarrow> ('e \<Rightarrow> bool) \<Rightarrow> ('s, 'e, 'a) prog \<Rightarrow> bool" where
  "ends I X m \<longleftrightarrow> triple I m (\<lambda>_ _. True) (\<lambda>e _. X e)"

lemma endsD: "ends I X m \<Longrightarrow> I s \<Longrightarrow> m s = (Inl e, s') \<Longrightarrow> X e"
  unfolding ends_def by (rule triple_Inl)

lemma ends_last: "yields I V X m \<Longrightarrow> ends I X m"
  unfolding ends_def yields_def by (erule triple_weaken) simp_all

lemma ends_pre: "ends I' X m \<Longrightarrow> (\<And>s. I s \<Longrightarrow> I' s) \<Longrightarrow> ends I X m"
  unfolding ends_def by (rule triple_pre)

lemma triple_of_yields: "yields I V X m \<Longrightarrow> triple I m (\<lambda>x s. I s \<and> V x) (\<lambda>e _. X e)"
  unfolding yields_def by (erule triple_weaken) simp_all

lemma ends_bnd:
  assumes "yields I V X m" and "\<And>x. V x \<Longrightarrow> ends I X (k x)"
  shows "ends I X (bnd m k)"
  unfolding ends_def
  by (rule triple_bnd [OF triple_of_yields [OF assms(1)]])
    (rule triple_conj_pre, rule assms(2) [unfolded ends_def])

lemma ends_sq: "yields I V X m \<Longrightarrow> ends I X k \<Longrightarrow> ends I X (sq m k)"
  unfolding sq_def by (rule ends_bnd)

lemma ends_sq_first:
  assumes "ends I X m" and "ends (\<lambda>_. True) X k"
  shows "ends I X (sq m k)"
  unfolding ends_def by (rule triple_sq [OF assms [unfolded ends_def]])

lemma ends_step:
  assumes "triple I m (\<lambda>_. R) (\<lambda>e _. X e)" and "ends R X k"
  shows "ends I X (sq m k)"
  unfolding ends_def by (rule triple_sq [OF assms(1)]) (rule assms(2) [unfolded ends_def])

lemma ends_ret: "ends I X (ret x)"
  by (simp add: ends_def triple_ret)

lemma ends_only_if: "(c \<Longrightarrow> ends I X m) \<Longrightarrow> ends I X (only_if c m)"
  by (simp add: only_if_def ends_ret)

lemma ends_if: "(c \<Longrightarrow> ends I X m) \<Longrightarrow> (\<not> c \<Longrightarrow> ends I X m') \<Longrightarrow> ends I X (if c then m else m')"
  by simp

lemma ends_option:
  "(x = None \<Longrightarrow> ends I X m) \<Longrightarrow> (\<And>y. x = Some y \<Longrightarrow> ends I X (k y)) \<Longrightarrow>
   ends I X (case x of None \<Rightarrow> m | Some y \<Rightarrow> k y)"
  by (cases x) auto

lemma ends_sum:
  "(\<And>e. x = Inl e \<Longrightarrow> ends I X (m e)) \<Longrightarrow> (\<And>y. x = Inr y \<Longrightarrow> ends I X (k y)) \<Longrightarrow>
   ends I X (case x of Inl e \<Rightarrow> m e | Inr y \<Rightarrow> k y)"
  by (cases x) auto

lemma ends_list:
  "(xs = [] \<Longrightarrow> ends I X m) \<Longrightarrow> (\<And>y ys. xs = y # ys \<Longrightarrow> ends I X (k y ys)) \<Longrightarrow>
   ends I X (case xs of [] \<Rightarrow> m | y # ys \<Rightarrow> k y ys)"
  by (cases xs) auto

end
