(* ===== verification/Batch_Store.thy ===== *)
theory Batch_Store
  imports Release_Batch_Props
begin

text \<open>
  The tables of the release batches,
  \<^verbatim>\<open>packages/infrastructure/src/sqlite/release-batch-repository.ts\<close>: a list of batches, each
  with its items, and the transactions \<open>insert\<close> and \<open>update\<close>. \<open>update\<close> writes whatever copy
  of a batch its caller holds; the lemmas show what it protects against a stale copy (items,
  issues, runs, merges) and what it does not (the status of the batch).
\<close>

section \<open>Tables\<close>

type_synonym batch_table = "release_batch list"

datatype store_error =
    Batch_not_found ident
  | Store_state_error string
  | Store_reassign_run int
  | Store_unmerge int
  | Unique_violation string

definition run_uuids :: "batch_item list \<Rightarrow> ident list" where
  "run_uuids items = List.map_filter bi_runUuid items"

text \<open>
  The constraints of the schema: batch ids, positions and issues within a batch, and the run
  of an item over all batches.
\<close>

definition constraints_ok :: "batch_table \<Rightarrow> bool" where
  "constraints_ok tbl \<longleftrightarrow> distinct (map b_id tbl) \<and>
     list_all (\<lambda>b. distinct (map bi_position (b_items b)) \<and>
       distinct (map bi_issueNumber (b_items b))) tbl \<and>
     distinct (run_uuids (concat (map b_items tbl)))"

text \<open>
  \<open>rowToReleaseBatch\<close>: the items in the order of their positions. The writes below keep the
  stored list in that order too; for a table it is only a representation.
\<close>

definition read_batch :: "release_batch \<Rightarrow> release_batch" where
  "read_batch b = b\<lparr>b_items := sort_key bi_position (b_items b)\<rparr>"

definition findBatch :: "batch_table \<Rightarrow> ident \<Rightarrow> release_batch option" where
  "findBatch tbl bid = map_option read_batch (List.find (\<lambda>b. b_id b = bid) tbl)"

definition findByReleaseBranch :: "batch_table \<Rightarrow> ident \<Rightarrow> string \<Rightarrow> release_batch option" where
  "findByReleaseBranch tbl repo branch = map_option read_batch
     (List.find (\<lambda>b. b_repoId b = repo \<and> b_releaseBranch b = branch) tbl)"

definition findByRunUuid :: "batch_table \<Rightarrow> ident \<Rightarrow> (release_batch \<times> batch_item) option" where
  "findByRunUuid tbl u =
     (case List.find (\<lambda>b. list_ex (\<lambda>i. bi_runUuid i = Some u) (b_items b)) tbl of
        None \<Rightarrow> None
      | Some b \<Rightarrow>
          (case List.find (\<lambda>i. bi_runUuid i = Some u) (b_items (read_batch b)) of
             None \<Rightarrow> None
           | Some i \<Rightarrow> Some (read_batch b, i)))"

definition listBatchesForRepo :: "batch_table \<Rightarrow> ident \<Rightarrow> release_batch list" where
  "listBatchesForRepo tbl repo =
     map read_batch (sort_key (\<lambda>b. - b_createdAt b) (filter (\<lambda>b. b_repoId b = repo) tbl))"

definition insertBatch :: "batch_table \<Rightarrow> release_batch \<Rightarrow> store_error + batch_table" where
  "insertBatch tbl b =
     (if constraints_ok (tbl @ [b])
      then Inr (tbl @ [read_batch (b\<lparr>b_items := map (\<lambda>i. i\<lparr>bi_releaseBatchId := b_id b\<rparr>) (b_items b)\<rparr>)])
      else Inl (Unique_violation ''insert''))"

section \<open>\<open>update\<close>\<close>

text \<open>The checks of one stored item against the item written over it.\<close>

definition check_item :: "batch_item \<Rightarrow> batch_item \<Rightarrow> store_error option" where
  "check_item prev nxt =
     (if bi_position prev \<noteq> bi_position nxt then Some (Store_state_error ''reorder'')
      else if bi_issueNumber prev \<noteq> bi_issueNumber nxt then Some (Store_state_error ''issue'')
      else if bi_runUuid prev \<noteq> None \<and> bi_runUuid nxt \<noteq> bi_runUuid prev
      then Some (Store_reassign_run (bi_position prev))
      else if bi_status prev = IMerged \<and> bi_status nxt \<noteq> IMerged
      then Some (Store_unmerge (bi_position prev))
      else None)"

fun check_update :: "batch_item list \<Rightarrow> batch_item list \<Rightarrow> store_error option" where
  "check_update (prev # prevs) (nxt # nxts) =
     (case check_item prev nxt of Some e \<Rightarrow> Some e | None \<Rightarrow> check_update prevs nxts)"
| "check_update _ _ = None"

text \<open>The columns the two \<open>UPDATE\<close>s set; the rest of the stored row stays.\<close>

definition write_head :: "release_batch \<Rightarrow> release_batch \<Rightarrow> release_batch" where
  "write_head row b = row\<lparr>b_status := b_status b, b_currentPosition := b_currentPosition b,
     b_candidateSha := b_candidateSha b, b_approvedCandidateSha := b_approvedCandidateSha b,
     b_candidateTreeSha := b_candidateTreeSha b, b_promotionCommitSha := b_promotionCommitSha b,
     b_promotionPrNumber := b_promotionPrNumber b, b_blockedReason := b_blockedReason b,
     b_completedAt := b_completedAt b\<rparr>"

definition write_item :: "batch_item \<Rightarrow> batch_item \<Rightarrow> batch_item" where
  "write_item row i = row\<lparr>bi_status := bi_status i, bi_runUuid := bi_runUuid i,
     bi_prNumber := bi_prNumber i, bi_baseSha := bi_baseSha i,
     bi_mergedCommitSha := bi_mergedCommitSha i, bi_blockedReason := bi_blockedReason i,
     bi_startedAt := bi_startedAt i, bi_completedAt := bi_completedAt i\<rparr>"

definition write_items :: "ident \<Rightarrow> batch_item list \<Rightarrow> batch_item list \<Rightarrow> batch_item list" where
  "write_items bid rows items =
     map2 write_item rows items @
     map (\<lambda>i. i\<lparr>bi_releaseBatchId := bid\<rparr>) (drop (length rows) items)"

definition updateBatch :: "batch_table \<Rightarrow> release_batch \<Rightarrow> store_error + batch_table" where
  "updateBatch tbl b =
     (case findBatch tbl (b_id b) of
        None \<Rightarrow> Inl (Batch_not_found (b_id b))
      | Some existing \<Rightarrow>
          if length (b_items b) < length (b_items existing)
          then Inl (Store_state_error ''item count cannot decrease'')
          else case check_update (b_items existing) (b_items b) of
            Some e \<Rightarrow> Inl e
          | None \<Rightarrow>
            let row = read_batch ((write_head existing b)
                  \<lparr>b_items := write_items (b_id b) (b_items existing) (b_items b)\<rparr>);
                tbl' = map (\<lambda>r. if b_id r = b_id b then row else r) tbl
            in if constraints_ok tbl' then Inr tbl' else Inl (Unique_violation ''update''))"

section \<open>Histories\<close>

text \<open>
  The writes of any number of processes: insertions and updates with arbitrary copies. A failed
  transaction leaves the tables alone.
\<close>

datatype store_op = Insert_batch release_batch | Write_batch release_batch

fun exec_store_op :: "store_op \<Rightarrow> batch_table \<Rightarrow> batch_table" where
  "exec_store_op (Insert_batch b) tbl = (case insertBatch tbl b of Inl _ \<Rightarrow> tbl | Inr t \<Rightarrow> t)"
| "exec_store_op (Write_batch b) tbl = (case updateBatch tbl b of Inl _ \<Rightarrow> tbl | Inr t \<Rightarrow> t)"

section \<open>Consistent tables\<close>

definition stored_batch :: "release_batch \<Rightarrow> bool" where
  "stored_batch b \<longleftrightarrow> sorted (map bi_position (b_items b)) \<and>
     list_all (\<lambda>i. bi_releaseBatchId i = b_id b) (b_items b)"

definition table_wf :: "batch_table \<Rightarrow> bool" where
  "table_wf tbl \<longleftrightarrow> constraints_ok tbl \<and> list_all stored_batch tbl"

lemma read_batch_simps [simp]:
  "b_id (read_batch b) = b_id b" "b_repoId (read_batch b) = b_repoId b"
  "b_sourceBranch (read_batch b) = b_sourceBranch b"
  "b_sourceStartSha (read_batch b) = b_sourceStartSha b"
  "b_releaseBranch (read_batch b) = b_releaseBranch b" "b_createdAt (read_batch b) = b_createdAt b"
  "set (b_items (read_batch b)) = set (b_items b)"
  "mset (b_items (read_batch b)) = mset (b_items b)"
  "sorted (map bi_position (b_items (read_batch b)))"
  by (simp_all add: read_batch_def)

lemma write_head_simps [simp]:
  "b_id (write_head row b) = b_id row" "b_repoId (write_head row b) = b_repoId row"
  "b_sourceBranch (write_head row b) = b_sourceBranch row"
  "b_sourceStartSha (write_head row b) = b_sourceStartSha row"
  "b_releaseBranch (write_head row b) = b_releaseBranch row"
  "b_createdAt (write_head row b) = b_createdAt row"
  by (simp_all add: write_head_def)

lemma write_item_simps [simp]:
  "bi_releaseBatchId (write_item row i) = bi_releaseBatchId row"
  "bi_position (write_item row i) = bi_position row"
  "bi_issueNumber (write_item row i) = bi_issueNumber row"
  "bi_status (write_item row i) = bi_status i" "bi_runUuid (write_item row i) = bi_runUuid i"
  "bi_mergedCommitSha (write_item row i) = bi_mergedCommitSha i"
  by (simp_all add: write_item_def)

lemma read_stored: "stored_batch b \<Longrightarrow> read_batch b = b"
  by (simp add: stored_batch_def read_batch_def sort_key_id_if_sorted)

lemma find_read_stored:
  "table_wf tbl \<Longrightarrow> findBatch tbl bid = List.find (\<lambda>b. b_id b = bid) tbl"
  by (cases "List.find (\<lambda>b. b_id b = bid) tbl")
    (auto simp: findBatch_def table_wf_def list_all_iff dest!: find_SomeD intro: read_stored)

lemma findBatch_SomeD:
  "table_wf tbl \<Longrightarrow> findBatch tbl bid = Some b \<Longrightarrow> b \<in> set tbl \<and> b_id b = bid \<and> stored_batch b"
  by (auto simp: find_read_stored table_wf_def list_all_iff dest: find_SomeD)

lemma find_unique:
  "distinct (map f xs) \<Longrightarrow> x \<in> set xs \<Longrightarrow> List.find (\<lambda>y. f y = f x) xs = Some x"
  by (induction xs) (auto simp: rev_image_eqI)

lemma findBatch_mem:
  assumes "table_wf tbl" and "b \<in> set tbl"
  shows "findBatch tbl (b_id b) = Some b"
  using assms find_unique [of b_id tbl b]
  by (simp add: find_read_stored) (simp add: table_wf_def constraints_ok_def)

lemma run_uuids_set_id:
  "run_uuids (map (\<lambda>i. i\<lparr>bi_releaseBatchId := x\<rparr>) items) = run_uuids items"
  by (induction items) (auto simp: run_uuids_def List.map_filter_def)

lemma run_uuids_append: "run_uuids (xs @ ys) = run_uuids xs @ run_uuids ys"
  by (simp add: run_uuids_def List.map_filter_def)

lemma mset_run_uuids: "mset xs = mset ys \<Longrightarrow> mset (run_uuids xs) = mset (run_uuids ys)"
  by (simp add: run_uuids_def List.map_filter_def)

lemma mset_read_items: "mset (b_items (read_batch b)) = mset (b_items b)"
  by simp

lemma distinct_read_items:
  "distinct (map f (b_items (read_batch b))) \<longleftrightarrow> distinct (map f (b_items b))"
  by (rule mset_eq_imp_distinct_iff) (simp only: mset_map mset_read_items)

lemma distinct_read_runs:
  "distinct (run_uuids (xs @ b_items (read_batch b))) \<longleftrightarrow> distinct (run_uuids (xs @ b_items b))"
  by (rule mset_eq_imp_distinct_iff)
    (simp only: run_uuids_append mset_append mset_run_uuids [OF mset_read_items])

lemma insertBatch_wf:
  assumes "table_wf tbl" and "insertBatch tbl b = Inr tbl'"
  shows "table_wf tbl'"
proof -
  define b1 where "b1 = b\<lparr>b_items := map (\<lambda>i. i\<lparr>bi_releaseBatchId := b_id b\<rparr>) (b_items b)\<rparr>"
  have c: "constraints_ok (tbl @ [b])" and tbl': "tbl' = tbl @ [read_batch b1]"
    using assms(2) by (simp_all add: insertBatch_def b1_def split: if_split_asm)
  have b1: "b_id b1 = b_id b" "map bi_position (b_items b1) = map bi_position (b_items b)"
    "map bi_issueNumber (b_items b1) = map bi_issueNumber (b_items b)"
    "run_uuids (xs @ b_items b1) = run_uuids (xs @ b_items b)" for xs
    by (simp_all add: b1_def comp_def run_uuids_append run_uuids_set_id)
  have "constraints_ok tbl'"
    using c by (simp add: constraints_ok_def tbl' distinct_read_items distinct_read_runs b1)
  moreover have "\<forall>i \<in> set (b_items b1). bi_releaseBatchId i = b_id b1" by (auto simp: b1_def)
  then have "stored_batch (read_batch b1)" by (simp add: stored_batch_def list_all_iff)
  ultimately show ?thesis using assms(1) by (simp add: table_wf_def tbl')
qed

lemma write_items_ids:
  "list_all (\<lambda>i. bi_releaseBatchId i = bid) rows \<Longrightarrow>
   i \<in> set (write_items bid rows items) \<Longrightarrow> bi_releaseBatchId i = bid"
  by (auto simp: write_items_def set_zip list_all_iff)

definition updated_row :: "release_batch \<Rightarrow> release_batch \<Rightarrow> release_batch" where
  "updated_row row b = read_batch ((write_head row b)
     \<lparr>b_items := write_items (b_id b) (b_items row) (b_items b)\<rparr>)"

lemma updateBatch_InrD:
  assumes "updateBatch tbl b = Inr tbl'"
  shows "\<exists>row. findBatch tbl (b_id b) = Some row \<and> length (b_items row) \<le> length (b_items b) \<and>
    check_update (b_items row) (b_items b) = None \<and> constraints_ok tbl' \<and>
    tbl' = map (\<lambda>r. if b_id r = b_id b then updated_row row b else r) tbl"
proof (cases "findBatch tbl (b_id b)")
  case None
  then show ?thesis using assms by (simp add: updateBatch_def)
next
  case (Some row)
  let ?tbl = "map (\<lambda>r. if b_id r = b_id b then updated_row row b else r) tbl"
  have "updateBatch tbl b =
      (if length (b_items b) < length (b_items row) then Inl (Store_state_error ''item count cannot decrease'')
       else case check_update (b_items row) (b_items b) of
         Some e \<Rightarrow> Inl e
       | None \<Rightarrow> if constraints_ok ?tbl then Inr ?tbl else Inl (Unique_violation ''update''))"
    by (simp only: updateBatch_def Some option.case Let_def updated_row_def)
  then show ?thesis
    using assms Some by (simp add: not_less split: if_split_asm option.split_asm)
qed

lemma stored_read:
  "\<forall>i \<in> set (b_items b). bi_releaseBatchId i = b_id b \<Longrightarrow> stored_batch (read_batch b)"
  by (simp add: stored_batch_def list_all_iff)

lemma stored_updated_row:
  assumes "stored_batch row" and "b_id row = b_id b"
  shows "stored_batch (updated_row row b)"
proof -
  have "list_all (\<lambda>i. bi_releaseBatchId i = b_id b) (b_items row)"
    using assms by (simp add: stored_batch_def)
  then have "\<forall>i \<in> set (write_items (b_id b) (b_items row) (b_items b)). bi_releaseBatchId i = b_id b"
    using write_items_ids by blast
  then show ?thesis
    unfolding updated_row_def by (intro stored_read) (simp add: assms(2))
qed

lemma updateBatch_wf:
  assumes "table_wf tbl" and "updateBatch tbl b = Inr tbl'"
  shows "table_wf tbl'"
proof -
  from updateBatch_InrD [OF assms(2)] obtain row where
    row: "findBatch tbl (b_id b) = Some row" "constraints_ok tbl'"
      "tbl' = map (\<lambda>r. if b_id r = b_id b then updated_row row b else r) tbl" by blast
  then have "stored_batch (updated_row row b)"
    using findBatch_SomeD [OF assms(1) row(1)] stored_updated_row by blast
  then show ?thesis
    using assms(1) row(2,3) by (auto simp: table_wf_def list_all_iff)
qed

lemma exec_store_op_wf: "table_wf tbl \<Longrightarrow> table_wf (exec_store_op op tbl)"
  by (cases op) (auto split: sum.splits intro: insertBatch_wf updateBatch_wf)

section \<open>What a write cannot undo\<close>

definition item_kept :: "batch_item \<Rightarrow> batch_item \<Rightarrow> bool" where
  "item_kept i i' \<longleftrightarrow> bi_position i' = bi_position i \<and> bi_issueNumber i' = bi_issueNumber i \<and>
     (bi_runUuid i \<noteq> None \<longrightarrow> bi_runUuid i' = bi_runUuid i) \<and>
     (bi_status i = IMerged \<longrightarrow> bi_status i' = IMerged)"

definition same_identity :: "release_batch \<Rightarrow> release_batch \<Rightarrow> bool" where
  "same_identity b b' \<longleftrightarrow> b_id b' = b_id b \<and> b_repoId b' = b_repoId b \<and>
     b_sourceBranch b' = b_sourceBranch b \<and> b_sourceStartSha b' = b_sourceStartSha b \<and>
     b_releaseBranch b' = b_releaseBranch b \<and> b_createdAt b' = b_createdAt b"

definition row_kept :: "release_batch \<Rightarrow> release_batch \<Rightarrow> bool" where
  "row_kept b b' \<longleftrightarrow> same_identity b b' \<and> (\<forall>i \<in> set (b_items b). \<exists>i' \<in> set (b_items b'). item_kept i i')"

lemma row_kept_refl [simp]: "row_kept b b"
  by (auto simp: row_kept_def same_identity_def item_kept_def)

lemma row_kept_trans: "row_kept a b \<Longrightarrow> row_kept b c \<Longrightarrow> row_kept a c"
  unfolding row_kept_def same_identity_def item_kept_def by (elim conjE, intro conjI) (simp, simp, simp, simp, simp, simp, metis)

lemma check_item_None: "check_item prev nxt = None \<Longrightarrow> item_kept prev (write_item prev nxt)"
  by (auto simp: check_item_def item_kept_def split: if_split_asm)

lemma check_update_nth:
  "check_update prevs nxts = None \<Longrightarrow> k < length prevs \<Longrightarrow> k < length nxts \<Longrightarrow>
   check_item (prevs ! k) (nxts ! k) = None"
proof (induction prevs nxts arbitrary: k rule: check_update.induct)
  case (1 prev prevs nxt nxts)
  then show ?case by (cases k) (auto split: option.split_asm)
qed auto

lemma write_items_nth:
  assumes "length rows \<le> length items" and "k < length rows"
  shows "write_item (rows ! k) (items ! k) \<in> set (write_items bid rows items)"
proof -
  have "map2 write_item rows items ! k = write_item (rows ! k) (items ! k)"
    using assms by simp
  moreover have "map2 write_item rows items ! k \<in> set (map2 write_item rows items)"
    by (rule nth_mem) (use assms in simp)
  ultimately show ?thesis by (simp add: write_items_def)
qed

lemma updated_row_kept:
  assumes "b_id row = b_id b" and "length (b_items row) \<le> length (b_items b)"
    and "check_update (b_items row) (b_items b) = None"
  shows "row_kept row (updated_row row b)"
proof -
  have "\<exists>i' \<in> set (b_items (updated_row row b)). item_kept i i'" if i: "i \<in> set (b_items row)" for i
  proof -
    obtain k where k: "k < length (b_items row)" "i = b_items row ! k" using i by (auto simp: in_set_conv_nth)
    have "item_kept i (write_item i (b_items b ! k))"
      using check_update_nth [OF assms(3) k(1)] k assms(2) check_item_None by simp
    moreover have "write_item i (b_items b ! k) \<in> set (b_items (updated_row row b))"
      using write_items_nth [OF assms(2) k(1), of "b_id b"] by (simp add: updated_row_def k(2))
    ultimately show ?thesis by blast
  qed
  moreover have "same_identity row (updated_row row b)"
    by (simp add: same_identity_def updated_row_def)
  ultimately show ?thesis by (simp add: row_kept_def)
qed

lemma exec_store_op_kept:
  assumes wf: "table_wf tbl" and b: "b \<in> set tbl"
  shows "\<exists>b' \<in> set (exec_store_op op tbl). row_kept b b'"
proof (cases op)
  case (Insert_batch c)
  have "b \<in> set (exec_store_op op tbl)"
    using b by (auto simp: Insert_batch insertBatch_def split: sum.split if_split_asm)
  then show ?thesis using row_kept_refl by blast
next
  case (Write_batch c)
  show ?thesis
  proof (cases "updateBatch tbl c")
    case (Inl e)
    then show ?thesis by (intro bexI [where x = b]) (simp_all add: Write_batch b)
  next
    case (Inr tbl')
    from updateBatch_InrD [OF Inr] obtain row where row: "findBatch tbl (b_id c) = Some row"
      "length (b_items row) \<le> length (b_items c)" "check_update (b_items row) (b_items c) = None"
      and tbl': "tbl' = map (\<lambda>r. if b_id r = b_id c then updated_row row c else r) tbl" by blast
    show ?thesis
    proof (cases "b_id b = b_id c")
      case True
      then have "row = b" using findBatch_mem [OF wf b] row(1) by simp
      moreover have "updated_row row c \<in> set tbl'" using b True by (auto simp: tbl' rev_image_eqI)
      ultimately show ?thesis using updated_row_kept [OF _ row(2,3)] True by (auto simp: Write_batch Inr)
    next
      case False
      then have "b \<in> set tbl'" using b by (force simp: tbl')
      then show ?thesis by (intro bexI [where x = b]) (simp_all add: Write_batch Inr)
    qed
  qed
qed

text \<open>
  C29. Whatever copies of a batch any processes write, however stale: a stored batch keeps its
  branches and start commit, and every one of its items keeps its position and its issue, keeps
  the run it has, and stays merged once it is merged.
\<close>

theorem store_protects:
  assumes "table_wf tbl" and "b \<in> set tbl"
  shows "table_wf (fold exec_store_op ops tbl) \<and> (\<exists>b' \<in> set (fold exec_store_op ops tbl). row_kept b b')"
  using assms
proof (induction ops arbitrary: tbl b)
  case (Cons op ops)
  have wf: "table_wf (exec_store_op op tbl)" by (rule exec_store_op_wf [OF Cons.prems(1)])
  obtain b1 where b1: "b1 \<in> set (exec_store_op op tbl)" "row_kept b b1"
    using exec_store_op_kept [OF Cons.prems] by blast
  from Cons.IH [OF wf b1(1)] obtain b2 where
    "b2 \<in> set (fold exec_store_op ops (exec_store_op op tbl))" "row_kept b1 b2"
    "table_wf (fold exec_store_op ops (exec_store_op op tbl))" by blast
  then show ?case using row_kept_trans [OF b1(2)] by auto
qed (force intro: row_kept_refl)

section \<open>What a write stores\<close>

lemma batch_wf_sorted: "batch_wf b \<Longrightarrow> sorted (map bi_position (b_items b))"
  by (simp add: sorted_iff_nth_mono batch_wf_def)

lemma write_item_same:
  "bi_releaseBatchId r = bi_releaseBatchId i \<Longrightarrow> bi_position r = bi_position i \<Longrightarrow>
   bi_issueNumber r = bi_issueNumber i \<Longrightarrow> write_item r i = i"
  by (cases r; cases i) (simp add: write_item_def)

lemma write_items_same:
  assumes "length rows \<le> length items" and "check_update rows items = None"
    and "\<forall>i \<in> set rows. bi_releaseBatchId i = bid" and "\<forall>i \<in> set items. bi_releaseBatchId i = bid"
  shows "write_items bid rows items = items"
proof -
  have "map2 write_item rows items = take (length rows) items"
  proof (rule nth_equalityI)
    fix k assume "k < length (map2 write_item rows items)"
    then have k: "k < length rows" "k < length items" by simp_all
    then have "check_item (rows ! k) (items ! k) = None" using check_update_nth [OF assms(2)] by simp
    then have "bi_position (rows ! k) = bi_position (items ! k)"
        "bi_issueNumber (rows ! k) = bi_issueNumber (items ! k)"
      by (simp_all add: check_item_def split: if_split_asm)
    then show "map2 write_item rows items ! k = take (length rows) items ! k"
      using k assms(3,4) by (simp add: write_item_same)
  qed (use assms(1) in simp)
  moreover have "map (\<lambda>i. i\<lparr>bi_releaseBatchId := bid\<rparr>) (drop (length rows) items) = drop (length rows) items"
    by (rule map_idI) (use assms(4) in \<open>auto dest: in_set_dropD\<close>)
  ultimately show ?thesis by (simp add: write_items_def)
qed

lemma updated_row_same:
  assumes "batch_wf b" and "same_identity row b" and "stored_batch row"
    and "length (b_items row) \<le> length (b_items b)" and "check_update (b_items row) (b_items b) = None"
  shows "updated_row row b = b"
proof -
  have "write_items (b_id b) (b_items row) (b_items b) = b_items b"
  proof (rule write_items_same [OF assms(4,5)])
    show "\<forall>i \<in> set (b_items row). bi_releaseBatchId i = b_id b"
      using assms(2,3) by (simp add: stored_batch_def list_all_iff same_identity_def)
    show "\<forall>i \<in> set (b_items b). bi_releaseBatchId i = b_id b" using assms(1) by (simp add: batch_wf_def)
  qed
  moreover have "write_head row b\<lparr>b_items := b_items b\<rparr> = b"
    using assms(2) by (cases row; cases b) (simp add: write_head_def same_identity_def)
  moreover have "read_batch b = b"
    using batch_wf_sorted [OF assms(1)] by (simp add: read_batch_def sort_key_id_if_sorted)
  ultimately show ?thesis by (simp add: updated_row_def)
qed

lemma find_map_id:
  "(\<And>r. b_id (f r) = b_id r) \<Longrightarrow>
   List.find (\<lambda>b. b_id b = bid) (map f tbl) = map_option f (List.find (\<lambda>b. b_id b = bid) tbl)"
  by (induction tbl) auto

text \<open>
  Writing a well-formed batch over its stored row and reading it back gives the batch, and
  no other batch changes.
\<close>

theorem update_reads_back:
  assumes "table_wf tbl" and "updateBatch tbl b = Inr tbl'" and "batch_wf b"
    and "findBatch tbl (b_id b) = Some row" and "same_identity row b"
  shows "findBatch tbl' (b_id b) = Some b \<and>
    (\<forall>other. other \<noteq> b_id b \<longrightarrow> findBatch tbl' other = findBatch tbl other)"
proof -
  from updateBatch_InrD [OF assms(2)] assms(4) have
    c: "length (b_items row) \<le> length (b_items b)" "check_update (b_items row) (b_items b) = None"
    and tbl': "tbl' = map (\<lambda>r. if b_id r = b_id b then updated_row row b else r) tbl" by auto
  note row = findBatch_SomeD [OF assms(1,4)]
  have same: "updated_row row b = b"
    by (rule updated_row_same [OF assms(3,5) _ c]) (use row in simp)
  have map_tbl: "tbl' = map (\<lambda>r. if b_id r = b_id b then b else r) tbl"
    unfolding tbl' same ..
  have "List.find (\<lambda>r. b_id r = other) tbl' =
      map_option (\<lambda>r. if b_id r = b_id b then b else r) (List.find (\<lambda>r. b_id r = other) tbl)" for other
    unfolding map_tbl by (rule find_map_id) simp
  then have found: "findBatch tbl' other = map_option (\<lambda>r. if b_id r = b_id b then b else r) (findBatch tbl other)"
    for other
    by (simp add: find_read_stored [OF updateBatch_wf [OF assms(1,2)]] find_read_stored [OF assms(1)])
  show ?thesis
  proof (intro conjI allI impI)
    show "findBatch tbl' (b_id b) = Some b" by (simp add: found assms(4) row)
    fix other assume "other \<noteq> b_id b"
    then show "findBatch tbl' other = findBatch tbl other"
      using findBatch_SomeD [OF assms(1), of other] by (cases "findBatch tbl other") (simp_all add: found)
  qed
qed

lemma check_update_refl: "check_update items items = None"
  by (induction items) (simp_all add: check_item_def)

lemma check_item_same:
  "bi_position p = bi_position q \<Longrightarrow> bi_issueNumber p = bi_issueNumber q \<Longrightarrow>
   bi_runUuid p = bi_runUuid q \<Longrightarrow> bi_status p = bi_status q \<Longrightarrow> check_item p q = None"
  by (simp add: check_item_def)

lemma constraints_cong:
  assumes "map b_id s = map b_id t" and "map b_items s = map b_items t"
  shows "constraints_ok s \<longleftrightarrow> constraints_ok t"
proof -
  have "constraints_ok u \<longleftrightarrow> distinct (map b_id u) \<and>
     list_all (\<lambda>items. distinct (map bi_position items) \<and> distinct (map bi_issueNumber items))
       (map b_items u) \<and> distinct (run_uuids (concat (map b_items u)))" for u
    by (simp add: constraints_ok_def list.pred_map comp_def)
  then show ?thesis using assms by simp
qed

text \<open>Replacing a stored batch by one with the same items breaks no constraint.\<close>

lemma constraints_replace:
  assumes "table_wf tbl" and "row \<in> set tbl" and "b_id b = b_id row" and "b_items b = b_items row"
  shows "constraints_ok (map (\<lambda>r. if b_id r = b_id b then b else r) tbl)"
proof -
  have "distinct (map b_id tbl)" using assms(1) by (simp add: table_wf_def constraints_ok_def)
  then have items: "b_items (if b_id r = b_id b then b else r) = b_items r" if "r \<in> set tbl" for r
    using that assms(2-4) by (auto dest: eq_key_imp_eq_value simp: distinct_map inj_on_def)
  then have "map b_items (map (\<lambda>r. if b_id r = b_id b then b else r) tbl) = map b_items tbl" by simp
  moreover have "map b_id (map (\<lambda>r. if b_id r = b_id b then b else r) tbl) = map b_id tbl" by simp
  ultimately show ?thesis
    using assms(1) constraints_cong unfolding table_wf_def by blast
qed

lemma updateBatch_same_items:
  assumes wf: "table_wf tbl" and row: "findBatch tbl (b_id b) = Some row" and b: "batch_wf b"
    and same: "same_identity row b" "b_items b = b_items row"
  shows "\<exists>tbl'. updateBatch tbl b = Inr tbl'"
proof -
  note r = findBatch_SomeD [OF wf row]
  have c: "length (b_items row) \<le> length (b_items b)" "check_update (b_items row) (b_items b) = None"
    by (simp_all add: same(2) check_update_refl)
  have u: "updated_row row b = b" by (rule updated_row_same [OF b same(1) _ c]) (use r in simp)
  then have "constraints_ok (map (\<lambda>r. if b_id r = b_id b then updated_row row b else r) tbl)"
    unfolding u using constraints_replace [OF wf, of row b] r same(2) by simp
  then show ?thesis
    unfolding updateBatch_def row option.case c(2) Let_def updated_row_def
    using c(1) by (simp add: not_less)
qed

text \<open>
  The store does not protect the status of a batch: a process that read a batch before it
  was cancelled and writes its copy back afterwards succeeds and revives the batch exactly as
  it was.
\<close>

theorem stale_write_revives:
  assumes "table_wf tbl" and "findBatch tbl (b_id b) = Some b" and "batch_wf b"
    and "cancelBatch b reason now = Inr c" and "b_status b \<noteq> BCancelled"
  shows "\<exists>tbl1 tbl2. updateBatch tbl c = Inr tbl1 \<and>
    map_option b_status (findBatch tbl1 (b_id b)) = Some BCancelled \<and>
    updateBatch tbl1 b = Inr tbl2 \<and> findBatch tbl2 (b_id b) = Some b"
proof -
  have c: "b_items c = b_items b" "same_identity b c" "same_identity c b" "b_id c = b_id b"
    "b_status c = BCancelled" "batch_wf c"
    using assms(3,4,5)
    by (auto simp: cancelBatch_def same_identity_def batch_wf_def split: if_split_asm)
  obtain tbl1 where t1: "updateBatch tbl c = Inr tbl1"
    using updateBatch_same_items [OF assms(1) _ c(6,2,1)] assms(2) c(4) by auto
  have f1: "findBatch tbl1 (b_id b) = Some c"
    using update_reads_back [OF assms(1) t1 c(6) _ c(2)] assms(2) c(4) by simp
  have wf1: "table_wf tbl1" by (rule updateBatch_wf [OF assms(1) t1])
  obtain tbl2 where t2: "updateBatch tbl1 b = Inr tbl2"
    using updateBatch_same_items [OF wf1 f1 assms(3) c(3)] c(1) by auto
  have "findBatch tbl2 (b_id b) = Some b"
    using update_reads_back [OF wf1 t2 assms(3) f1 c(3)] by simp
  then show ?thesis using t1 t2 f1 c(5) by auto
qed

section \<open>Witnesses\<close>

lemma sample_stored: "table_wf [sample_batch]"
  by code_simp

lemma sample_batch_wf: "batch_wf sample_batch"
  using batch_reachable_inv [OF batch_reachable.create [OF createReleaseBatch_sample]] by blast

lemma sample_found: "findBatch [sample_batch] (b_id sample_batch) = Some sample_batch"
  by (rule findBatch_mem [OF sample_stored]) simp

lemma sample_identity: "same_identity sample_batch sample_batch"
  by (simp add: same_identity_def)

theorem store_protects_witness:
  "\<exists>b' \<in> set (fold exec_store_op [Write_batch sample_completed, Write_batch sample_batch] [sample_batch]).
     row_kept sample_batch b'"
  by (rule store_protects [OF sample_stored, THEN conjunct2]) simp

theorem update_reads_back_witness:
  "\<exists>tbl'. updateBatch [sample_batch] sample_batch = Inr tbl' \<and>
     findBatch tbl' (b_id sample_batch) = Some sample_batch"
proof -
  obtain tbl' where "updateBatch [sample_batch] sample_batch = Inr tbl'"
    using updateBatch_same_items [OF sample_stored sample_found sample_batch_wf sample_identity] by blast
  then show ?thesis
    using update_reads_back [OF sample_stored _ sample_batch_wf sample_found sample_identity] by blast
qed

theorem stale_write_revives_witness:
  "\<exists>c tbl1 tbl2. cancelBatch sample_batch None 99 = Inr c \<and> updateBatch [sample_batch] c = Inr tbl1 \<and>
     updateBatch tbl1 sample_batch = Inr tbl2 \<and>
     findBatch tbl2 (b_id sample_batch) = Some sample_batch"
proof -
  have st: "b_status sample_batch = BQueued \<or> b_status sample_batch = BBuilding"
    by code_simp
  then obtain c where c: "cancelBatch sample_batch None 99 = Inr c" by (auto simp: cancelBatch_def)
  then show ?thesis
    using stale_write_revives [OF sample_stored sample_found sample_batch_wf c] st by auto
qed

end
