(* ===== verification/Domain_Job.thy ===== *)
theory Domain_Job
  imports Prelude
begin

text \<open>
  The Job entity of \<^verbatim>\<open>packages/domain/src/job.ts\<close>: its record, every transition
  (guards and error classes included), and the state machine they implement. Lemmas:
  the transitions realise exactly the edges of \<^verbatim>\<open>job_edge\<close>, they keep the
  well-formedness of the claim fields, a settled job has no further transition, and
  \<open>attempts\<close> counts the claims of a history.
\<close>

section \<open>Data\<close>

datatype job_status = JQueued | JClaimed | JRunning | JSucceeded | JFailed | JCancelled

datatype resume_disposition = Preserve_working_tree | Reset_to_baseline

record job_ownership =
  o_jobId :: ident
  o_workerId :: ident
  o_claimToken :: ident

record job =
  j_id :: ident
  j_runId :: ident
  j_repoId :: ident
  j_issueNumber :: int
  j_status :: job_status
  j_priority :: int
  j_attempts :: nat
  j_claimedBy :: "ident option"
  j_claimToken :: "ident option"
  j_createdAt :: time
  j_claimedAt :: "time option"
  j_startedAt :: "time option"
  j_completedAt :: "time option"
  j_claimExpiresAt :: "time option"
  j_resumeDisposition :: "resume_disposition option"

record create_job_input =
  ji_id :: ident
  ji_runId :: ident
  ji_repoId :: ident
  ji_issueNumber :: int
  ji_priority :: "int option"
  ji_createdAt :: time
  ji_resumeDisposition :: "resume_disposition option"

text \<open>
  The error classes. \<open>JobStateError\<close> carries what its message says: the transition,
  the job and the offending status; its \<open>claim token mismatch\<close> form is a constructor
  of its own, and \<open>NoClaimToken\<close> is the plain \<open>Error\<close> of
  \<open>generateJobOwnership\<close>.
\<close>

datatype job_error =
    JobStateError string ident job_status
  | JobTokenMismatch string ident
  | NoClaimToken ident
  | JobOwnershipLostError ident
  | DuplicateJobIdError ident
  | RepositoryNotApprovedError ident

section \<open>Claim tokens\<close>

definition hex_digit :: "nat \<Rightarrow> char" where
  "hex_digit n = ''0123456789abcdef'' ! (n mod 16)"

text \<open>\<open>b.toString(16).padStart(2, '0')\<close> of a byte: its two hexadecimal digits.\<close>

definition hex_byte :: "nat \<Rightarrow> string" where
  "hex_byte b = [hex_digit (b div 16), hex_digit (b mod 16)]"

text \<open>The random bytes are the argument; the code draws sixteen of them.\<close>

definition newClaimToken :: "nat list \<Rightarrow> ident" where
  "newClaimToken bytes = concat (map hex_byte bytes)"

section \<open>Transitions\<close>

definition generateJobOwnership :: "job \<Rightarrow> ident \<Rightarrow> job_error + job_ownership" where
  "generateJobOwnership job workerId =
     (case j_claimToken job of
        None \<Rightarrow> Inl (NoClaimToken (j_id job))
      | Some t \<Rightarrow>
          if t = [] then Inl (NoClaimToken (j_id job))
          else Inr \<lparr>o_jobId = j_id job, o_workerId = workerId, o_claimToken = t\<rparr>)"

definition createJob :: "create_job_input \<Rightarrow> job" where
  "createJob i =
     \<lparr>j_id = ji_id i, j_runId = ji_runId i, j_repoId = ji_repoId i,
      j_issueNumber = ji_issueNumber i, j_status = JQueued,
      j_priority = (case ji_priority i of None \<Rightarrow> 0 | Some p \<Rightarrow> p), j_attempts = 0,
      j_claimedBy = None, j_claimToken = None, j_createdAt = ji_createdAt i,
      j_claimedAt = None, j_startedAt = None, j_completedAt = None,
      j_claimExpiresAt = None, j_resumeDisposition = ji_resumeDisposition i\<rparr>"

text \<open>\<open>tok\<close> is the result of the \<open>newClaimToken()\<close> call.\<close>

definition claimJob :: "job \<Rightarrow> ident \<Rightarrow> time \<Rightarrow> ident \<Rightarrow> int option \<Rightarrow> job_error + job" where
  "claimJob job workerId now tok ttlMs =
     (if j_status job \<noteq> JQueued then Inl (JobStateError ''claim'' (j_id job) (j_status job))
      else Inr (job\<lparr>j_status := JClaimed, j_claimedBy := Some workerId,
        j_claimToken := Some tok, j_claimedAt := Some now, j_attempts := j_attempts job + 1,
        j_claimExpiresAt := (case ttlMs of None \<Rightarrow> j_claimExpiresAt job
                             | Some t \<Rightarrow> Some (now + t))\<rparr>))"

definition claimJobWithOwnership ::
  "job \<Rightarrow> ident \<Rightarrow> time \<Rightarrow> ident \<Rightarrow> int option \<Rightarrow> job_error + job \<times> job_ownership" where
  "claimJobWithOwnership job workerId now tok ttlMs =
     (case claimJob job workerId now tok ttlMs of
        Inl e \<Rightarrow> Inl e
      | Inr claimed \<Rightarrow>
          (case generateJobOwnership claimed workerId of
             Inl e \<Rightarrow> Inl e
           | Inr ownership \<Rightarrow> Inr (claimed, ownership)))"

definition markJobRunning :: "job \<Rightarrow> time \<Rightarrow> job_error + job" where
  "markJobRunning job now =
     (if j_status job \<noteq> JClaimed then Inl (JobStateError ''running'' (j_id job) (j_status job))
      else Inr (job\<lparr>j_status := JRunning, j_startedAt := Some now\<rparr>))"

definition terminate :: "job \<Rightarrow> job_status \<Rightarrow> time \<Rightarrow> job_error + job" where
  "terminate job status now =
     (if j_status job \<noteq> JRunning then Inl (JobStateError ''terminate'' (j_id job) (j_status job))
      else Inr (job\<lparr>j_status := status, j_completedAt := Some now\<rparr>))"

definition markJobSucceeded :: "job \<Rightarrow> time \<Rightarrow> job_error + job" where
  "markJobSucceeded job now = terminate job JSucceeded now"

definition markJobFailed :: "job \<Rightarrow> time \<Rightarrow> job_error + job" where
  "markJobFailed job now = terminate job JFailed now"

definition markJobCancelled :: "job \<Rightarrow> time \<Rightarrow> job_error + job" where
  "markJobCancelled job now = terminate job JCancelled now"

definition unclaimJob :: "job \<Rightarrow> job_error + job" where
  "unclaimJob job =
     (if j_status job \<noteq> JClaimed then Inl (JobStateError ''unclaim'' (j_id job) (j_status job))
      else Inr (job\<lparr>j_claimedBy := None, j_claimedAt := None, j_claimToken := None,
                    j_status := JQueued\<rparr>))"

definition resetJobToQueued :: "job \<Rightarrow> job_error + job" where
  "resetJobToQueued job =
     (if j_status job \<noteq> JClaimed \<and> j_status job \<noteq> JRunning
      then Inl (JobStateError ''reset'' (j_id job) (j_status job))
      else Inr (job\<lparr>j_claimedBy := None, j_claimedAt := None, j_startedAt := None,
                    j_claimToken := None, j_status := JQueued\<rparr>))"

text \<open>The variants that first compare the claim token.\<close>

definition with_ownership ::
  "string \<Rightarrow> job \<Rightarrow> job_ownership \<Rightarrow> (job \<Rightarrow> job_error + job) \<Rightarrow> job_error + job" where
  "with_ownership what job owner f =
     (if j_claimToken job \<noteq> Some (o_claimToken owner) then Inl (JobTokenMismatch what (j_id job))
      else f job)"

definition markJobRunningWithOwnership :: "job \<Rightarrow> job_ownership \<Rightarrow> time \<Rightarrow> job_error + job" where
  "markJobRunningWithOwnership job owner now =
     with_ownership ''running'' job owner (\<lambda>j. markJobRunning j now)"

definition markJobSucceededWithOwnership :: "job \<Rightarrow> job_ownership \<Rightarrow> time \<Rightarrow> job_error + job" where
  "markJobSucceededWithOwnership job owner now =
     with_ownership ''succeeded'' job owner (\<lambda>j. markJobSucceeded j now)"

definition markJobFailedWithOwnership :: "job \<Rightarrow> job_ownership \<Rightarrow> time \<Rightarrow> job_error + job" where
  "markJobFailedWithOwnership job owner now =
     with_ownership ''failed'' job owner (\<lambda>j. markJobFailed j now)"

definition markJobCancelledWithOwnership :: "job \<Rightarrow> job_ownership \<Rightarrow> time \<Rightarrow> job_error + job" where
  "markJobCancelledWithOwnership job owner now =
     with_ownership ''cancelled'' job owner (\<lambda>j. markJobCancelled j now)"

definition releaseClaimWithOwnership :: "job \<Rightarrow> job_ownership \<Rightarrow> job_error + job" where
  "releaseClaimWithOwnership job owner = with_ownership ''release'' job owner unclaimJob"

definition resetJobToQueuedWithOwnership :: "job \<Rightarrow> job_ownership \<Rightarrow> job_error + job" where
  "resetJobToQueuedWithOwnership job owner = with_ownership ''reset'' job owner resetJobToQueued"

lemmas [job_ops] = claimJob_def markJobRunning_def terminate_def markJobSucceeded_def
  markJobFailed_def markJobCancelled_def unclaimJob_def resetJobToQueued_def

section \<open>The state machine\<close>

text \<open>The transitions as data, so that histories can be quantified over.\<close>

datatype job_op =
    Op_claim ident time ident "int option"
  | Op_running time
  | Op_succeeded time
  | Op_failed time
  | Op_cancelled time
  | Op_unclaim
  | Op_reset

fun apply_job_op :: "job_op \<Rightarrow> job \<Rightarrow> job_error + job" where
  "apply_job_op (Op_claim w now tok ttl) j = claimJob j w now tok ttl"
| "apply_job_op (Op_running now) j = markJobRunning j now"
| "apply_job_op (Op_succeeded now) j = markJobSucceeded j now"
| "apply_job_op (Op_failed now) j = markJobFailed j now"
| "apply_job_op (Op_cancelled now) j = markJobCancelled j now"
| "apply_job_op Op_unclaim j = unclaimJob j"
| "apply_job_op Op_reset j = resetJobToQueued j"

fun run_job_ops :: "job_op list \<Rightarrow> job \<Rightarrow> job_error + job" where
  "run_job_ops [] j = Inr j"
| "run_job_ops (op # ops) j =
     (case apply_job_op op j of Inl e \<Rightarrow> Inl e | Inr j' \<Rightarrow> run_job_ops ops j')"

definition is_claim :: "job_op \<Rightarrow> bool" where
  "is_claim op = (case op of Op_claim _ _ _ _ \<Rightarrow> True | _ \<Rightarrow> False)"

definition is_settling :: "job_op \<Rightarrow> bool" where
  "is_settling op =
     (case op of Op_succeeded _ \<Rightarrow> True | Op_failed _ \<Rightarrow> True | Op_cancelled _ \<Rightarrow> True | _ \<Rightarrow> False)"

definition job_settled :: "job_status \<Rightarrow> bool" where
  "job_settled s \<longleftrightarrow> s \<in> {JSucceeded, JFailed, JCancelled}"

text \<open>The lifecycle the documentation draws, with the two ways back to the queue.\<close>

inductive job_edge :: "job_status \<Rightarrow> job_status \<Rightarrow> bool" where
  claim: "job_edge JQueued JClaimed"
| start: "job_edge JClaimed JRunning"
| settle: "job_settled s \<Longrightarrow> job_edge JRunning s"
| release: "job_edge JClaimed JQueued"
| requeue: "job_edge JRunning JQueued"

inductive_simps job_edge_simps [simp]: "job_edge s t"

text \<open>
  The claim fields agree with the status: a queued job has no owner, an active or
  settled one has its owner, its token and the matching time stamps.
\<close>

definition job_wf :: "job \<Rightarrow> bool" where
  "job_wf j \<longleftrightarrow>
     (j_claimedBy j = None \<longleftrightarrow> j_status j = JQueued) \<and>
     (j_claimToken j = None \<longleftrightarrow> j_status j = JQueued) \<and>
     (j_claimedAt j = None \<longleftrightarrow> j_status j = JQueued) \<and>
     (j_startedAt j = None \<longleftrightarrow> j_status j \<in> {JQueued, JClaimed}) \<and>
     (j_completedAt j = None \<longleftrightarrow> \<not> job_settled (j_status j))"

lemma job_wf_createJob [simp]: "job_wf (createJob i)"
  by (simp add: job_wf_def createJob_def job_settled_def)

lemma apply_job_op_wf: "apply_job_op op j = Inr j' \<Longrightarrow> job_wf j \<Longrightarrow> job_wf j'"
  by (cases op; cases "j_status j"; clarsimp simp: job_ops; simp add: job_wf_def job_settled_def)

lemma apply_job_op_frame:
  "apply_job_op op j = Inr j' \<Longrightarrow>
   j_id j' = j_id j \<and> j_runId j' = j_runId j \<and> j_repoId j' = j_repoId j \<and>
   j_issueNumber j' = j_issueNumber j \<and> j_priority j' = j_priority j \<and>
   j_createdAt j' = j_createdAt j \<and> j_resumeDisposition j' = j_resumeDisposition j"
  by (cases op) (auto simp: job_ops split: if_splits)

lemma apply_job_op_attempts:
  "apply_job_op op j = Inr j' \<Longrightarrow> j_attempts j' = j_attempts j + (if is_claim op then 1 else 0)"
  by (cases op) (auto simp: job_ops is_claim_def split: if_splits)

lemma settled_no_op: "job_settled (j_status j) \<Longrightarrow> \<exists>e. apply_job_op op j = Inl e"
  by (cases op) (auto simp: job_ops job_settled_def)

lemma settling_settles:
  "apply_job_op op j = Inr j' \<Longrightarrow> is_settling op \<longleftrightarrow> job_settled (j_status j')"
  by (cases op) (auto simp: job_ops job_settled_def is_settling_def split: if_splits)

lemma run_job_ops_wf: "run_job_ops ops j = Inr j' \<Longrightarrow> job_wf j \<Longrightarrow> job_wf j'"
  by (induction ops arbitrary: j) (auto split: sum.splits dest: apply_job_op_wf)

lemma run_job_ops_attempts:
  "run_job_ops ops j = Inr j' \<Longrightarrow> j_attempts j' = j_attempts j + length (filter is_claim ops)"
  by (induction ops arbitrary: j) (auto split: sum.splits dest!: apply_job_op_attempts)

lemma run_job_ops_settled:
  "run_job_ops ops j = Inr j' \<Longrightarrow> job_settled (j_status j) \<Longrightarrow> ops = []"
  using settled_no_op [of j "hd ops"] by (cases ops) auto

lemma run_job_ops_settling:
  "run_job_ops ops j = Inr j' \<Longrightarrow> \<not> job_settled (j_status j) \<Longrightarrow>
   length (filter is_settling ops) = (if job_settled (j_status j') then 1 else 0)"
proof (induction ops arbitrary: j)
  case (Cons op ops)
  then obtain k where k: "apply_job_op op j = Inr k" "run_job_ops ops k = Inr j'"
    by (auto split: sum.splits)
  show ?case
  proof (cases "job_settled (j_status k)")
    case True
    with k(2) have "ops = []" by (rule run_job_ops_settled)
    with k True show ?thesis by (simp add: settling_settles [OF k(1)])
  next
    case False
    with Cons.IH [OF k(2)] show ?thesis by (simp add: settling_settles [OF k(1)])
  qed
qed simp

lemma hex_digit_inject: "a < 16 \<Longrightarrow> b < 16 \<Longrightarrow> hex_digit a = hex_digit b \<longleftrightarrow> a = b"
proof -
  have "distinct ''0123456789abcdef''" by simp
  moreover assume "a < 16" "b < 16"
  ultimately show ?thesis
    unfolding hex_digit_def by (subst nth_eq_iff_index_eq) auto
qed

lemma hex_byte_inject: "a < 256 \<Longrightarrow> b < 256 \<Longrightarrow> hex_byte a = hex_byte b \<longleftrightarrow> a = b"
proof -
  assume "a < 256" "b < 256"
  then have "hex_byte a = hex_byte b \<longleftrightarrow> a div 16 = b div 16 \<and> a mod 16 = b mod 16"
    by (simp add: hex_byte_def hex_digit_inject less_mult_imp_div_less)
  then show ?thesis by (metis div_mult_mod_eq)
qed

section \<open>Properties\<close>



text \<open>
  Along any history of successful operations of a new job the claim fields agree with
  the status, \<open>attempts\<close> is the number of claims, and the job is settled at most once:
  a settling operation occurs exactly if the job ended settled.
\<close>

theorem job_history:
  assumes "run_job_ops ops (createJob i) = Inr j"
  shows "job_wf j \<and> j_attempts j = length (filter is_claim ops) \<and>
    length (filter is_settling ops) = (if job_settled (j_status j) then 1 else 0)"
proof -
  have "\<not> job_settled (j_status (createJob i))" and "j_attempts (createJob i) = 0"
    by (simp_all add: createJob_def job_settled_def)
  then show ?thesis
    using run_job_ops_wf [OF assms] run_job_ops_attempts [OF assms]
      run_job_ops_settling [OF assms] by simp
qed

definition sample_job :: job where
  "sample_job = createJob \<lparr>ji_id = ''j1'', ji_runId = ''r1'', ji_repoId = ''repo'',
     ji_issueNumber = 7, ji_priority = None, ji_createdAt = 0, ji_resumeDisposition = None\<rparr>"

theorem job_history_witness:
  "\<exists>j. run_job_ops [Op_claim ''w'' 5 ''t'' (Some 10), Op_reset, Op_claim ''v'' 9 ''u'' None,
         Op_running 10, Op_failed 20] sample_job = Inr j \<and> j_attempts j = 2 \<and> job_wf j"
proof -
  let ?ops = "[Op_claim ''w'' 5 ''t'' (Some 10), Op_reset, Op_claim ''v'' 9 ''u'' None,
         Op_running 10, Op_failed 20]"
  obtain j where j: "run_job_ops ?ops sample_job = Inr j"
    by (simp add: sample_job_def createJob_def job_ops)
  from job_history [OF j [unfolded sample_job_def]] j show ?thesis
    by (simp add: is_claim_def)
qed

text \<open>
  Claim tokens are unforgeable copies of the random bytes: two tokens drawn from equally
  many bytes are equal exactly if the bytes are, and a token has two characters per byte.
\<close>

theorem newClaimToken_inject:
  assumes "length bs = length cs" and "\<forall>b \<in> set bs \<union> set cs. b < 256"
  shows "(newClaimToken bs = newClaimToken cs \<longleftrightarrow> bs = cs) \<and>
    length (newClaimToken bs) = 2 * length bs"
  using assms
proof (induction bs cs rule: list_induct2)
  case (Cons b bs c cs)
  have "hex_byte b @ newClaimToken bs = hex_byte c @ newClaimToken cs \<longleftrightarrow>
      hex_byte b = hex_byte c \<and> newClaimToken bs = newClaimToken cs"
    by (simp add: hex_byte_def)
  with Cons show ?case by (simp add: newClaimToken_def hex_byte_inject) (simp add: hex_byte_def)
qed (simp add: newClaimToken_def)

theorem newClaimToken_inject_witness:
  "newClaimToken [0, 171] = ''00ab'' \<and> newClaimToken [0, 171] \<noteq> newClaimToken [171, 0]"
  using newClaimToken_inject [of "[0, 171]" "[171, 0]"]
  by (simp add: newClaimToken_def hex_byte_def hex_digit_def)

text \<open>
  Releasing a claim leaves its expiry behind: a job that was claimed with a time to live,
  released, and claimed again without one carries the expiry of the first claim, however
  long ago that was.
\<close>

theorem stale_claim_expiry:
  assumes "claimJob j w t0 tok (Some ttl) = Inr j1" and "unclaimJob j1 = Inr j2"
    and "claimJob j2 w' t1 tok' None = Inr j3"
  shows "j_claimExpiresAt j3 = Some (t0 + ttl) \<and> j_claimedAt j3 = Some t1"
  using assms by (auto simp: job_ops split: if_splits)

theorem stale_claim_expiry_witness:
  "\<exists>j3. run_job_ops [Op_claim ''w'' 0 ''t'' (Some 30), Op_unclaim, Op_claim ''w'' 99 ''u'' None]
      sample_job = Inr j3 \<and> j_claimExpiresAt j3 = Some 30 \<and> j_claimedAt j3 = Some 99"
proof -
  obtain j1 where j1: "claimJob sample_job ''w'' 0 ''t'' (Some 30) = Inr j1"
    by (simp add: sample_job_def createJob_def job_ops)
  then obtain j2 where j2: "unclaimJob j1 = Inr j2"
    by (auto simp: job_ops split: if_splits)
  then obtain j3 where j3: "claimJob j2 ''w'' 99 ''u'' None = Inr j3"
    by (auto simp: job_ops split: if_splits)
  show ?thesis using stale_claim_expiry [OF j1 j2 j3] j1 j2 j3 by simp
qed

end
