(* ===== verification/Domain_Run.thy ===== *)
theory Domain_Run
  imports Domain_Job
begin

text \<open>
  The Run entity of \<^verbatim>\<open>packages/domain/src/run.ts\<close> and the mapping of a finished
  execution onto its job (\<^verbatim>\<open>execution-outcome.ts\<close>). Lemmas: every transition keeps
  the run invariant and only extends the recorded phase history, terminal statuses are left
  through \<open>resumeRun\<close> alone, and \<open>passed\<close> is never left.
\<close>

section \<open>Data\<close>

datatype execution_policy = Legacy | Standard | Strict

datatype run_type = Issue_to_pr | Pr_review | Consolidate

datatype run_status =
    RQueued | RRunning | RWaiting | RPassed | RFailed | RCancelled | RBlocked
  | RNeedsHumanReview

definition PINNED_RUNTIMES :: "string list" where
  "PINNED_RUNTIMES = [''claude-code'', ''antigravity'', ''codex'', ''opencode'']"

definition isPinnedRuntime :: "string \<Rightarrow> bool" where
  "isPinnedRuntime val \<longleftrightarrow> val \<in> set PINNED_RUNTIMES"

definition terminal_statuses :: "run_status set" where
  "terminal_statuses = {RPassed, RFailed, RCancelled}"

record run =
  r_uuid :: ident
  r_displayId :: ident
  r_repoId :: ident
  r_issueNumber :: int
  r_type :: run_type
  r_baseBranch :: "string option"
  r_executionPolicy :: "execution_policy option"
  r_pinnedRuntime :: "string option"
  r_status :: run_status
  r_currentPhase :: "string option"
  r_completedPhases :: "string list"
  r_skippedPhases :: "string list"
  r_startedAt :: time
  r_completedAt :: "time option"
  r_failureReason :: "string option"

record create_run_input =
  ri_uuid :: ident
  ri_displayId :: ident
  ri_repoId :: ident
  ri_issueNumber :: int
  ri_startedAt :: time
  ri_type :: "run_type option"
  ri_baseBranch :: "string option"
  ri_executionPolicy :: "execution_policy option"
  ri_pinnedRuntime :: "string option"

text \<open>\<open>RunStateError\<close>, one constructor for each kind of message.\<close>

datatype run_error =
    InvalidPinnedRuntime string
  | PhaseStillSet string string
  | NoCurrentPhase string
  | OtherPhase string string
  | PhaseAlreadyRecorded string
  | AlreadyTerminal string run_status
  | UnexpectedStatus string run_status

section \<open>Transitions\<close>

definition createRun :: "create_run_input \<Rightarrow> run_error + run" where
  "createRun i =
     (if ri_pinnedRuntime i \<noteq> None \<and> \<not> isPinnedRuntime (the (ri_pinnedRuntime i))
      then Inl (InvalidPinnedRuntime (the (ri_pinnedRuntime i)))
      else Inr
       \<lparr>r_uuid = ri_uuid i, r_displayId = ri_displayId i, r_repoId = ri_repoId i,
        r_issueNumber = ri_issueNumber i,
        r_type = (case ri_type i of None \<Rightarrow> Issue_to_pr | Some t \<Rightarrow> t),
        r_baseBranch = ri_baseBranch i, r_executionPolicy = ri_executionPolicy i,
        r_pinnedRuntime = ri_pinnedRuntime i, r_status = RRunning, r_currentPhase = None,
        r_completedPhases = [], r_skippedPhases = [], r_startedAt = ri_startedAt i,
        r_completedAt = None, r_failureReason = None\<rparr>)"

definition startPhase :: "run \<Rightarrow> string \<Rightarrow> run_error + run" where
  "startPhase run phase =
     (case r_currentPhase run of
        Some p \<Rightarrow> Inl (PhaseStillSet ''start'' p)
      | None \<Rightarrow>
          if r_status run \<in> terminal_statuses then Inl (AlreadyTerminal ''start'' (r_status run))
          else Inr (run\<lparr>r_currentPhase := Some phase\<rparr>))"

definition completePhase :: "run \<Rightarrow> string \<Rightarrow> run_error + run" where
  "completePhase run phase =
     (case r_currentPhase run of
        None \<Rightarrow> Inl (NoCurrentPhase phase)
      | Some p \<Rightarrow>
          if p \<noteq> phase then Inl (OtherPhase phase p)
          else Inr (run\<lparr>r_currentPhase := None,
                        r_completedPhases := r_completedPhases run @ [p]\<rparr>))"

definition skipPhase :: "run \<Rightarrow> string \<Rightarrow> run_error + run" where
  "skipPhase run phase =
     (case r_currentPhase run of
        None \<Rightarrow> Inl (NoCurrentPhase phase)
      | Some p \<Rightarrow>
          if p \<noteq> phase then Inl (OtherPhase phase p)
          else if phase \<in> set (r_completedPhases run) \<or> phase \<in> set (r_skippedPhases run)
          then Inl (PhaseAlreadyRecorded phase)
          else Inr (run\<lparr>r_currentPhase := None,
                        r_skippedPhases := r_skippedPhases run @ [phase]\<rparr>))"

definition passRun :: "run \<Rightarrow> time \<Rightarrow> run_error + run" where
  "passRun run at =
     (case r_currentPhase run of
        Some p \<Rightarrow> Inl (PhaseStillSet ''pass'' p)
      | None \<Rightarrow>
          if r_status run \<in> terminal_statuses then Inl (AlreadyTerminal ''pass'' (r_status run))
          else Inr (run\<lparr>r_status := RPassed, r_completedAt := Some at, r_currentPhase := None\<rparr>))"

definition failRun :: "run \<Rightarrow> string \<Rightarrow> time \<Rightarrow> run_error + run" where
  "failRun run reason at =
     (if r_status run \<in> terminal_statuses then Inl (AlreadyTerminal ''fail'' (r_status run))
      else Inr (run\<lparr>r_status := RFailed, r_completedAt := Some at,
                    r_failureReason := Some reason, r_currentPhase := None\<rparr>))"

definition blockRun :: "run \<Rightarrow> string \<Rightarrow> time \<Rightarrow> run_error + run" where
  "blockRun run reason at =
     (if r_status run \<in> terminal_statuses then Inl (AlreadyTerminal ''block'' (r_status run))
      else Inr (run\<lparr>r_status := RBlocked, r_completedAt := Some at,
                    r_failureReason := Some reason, r_currentPhase := None\<rparr>))"

definition markRunNeedsHumanReview :: "run \<Rightarrow> string \<Rightarrow> time \<Rightarrow> run_error + run" where
  "markRunNeedsHumanReview run reason at =
     (if r_status run \<in> terminal_statuses
      then Inl (AlreadyTerminal ''needs_human_review'' (r_status run))
      else Inr (run\<lparr>r_status := RNeedsHumanReview, r_completedAt := Some at,
                    r_failureReason := Some reason\<rparr>))"

text \<open>\<open>reason ? ... : {}\<close>: an absent or empty reason leaves the old one.\<close>

definition cancelRun :: "run \<Rightarrow> string option \<Rightarrow> time \<Rightarrow> run_error + run" where
  "cancelRun run reason at =
     (if r_status run \<in> terminal_statuses then Inl (AlreadyTerminal ''cancel'' (r_status run))
      else Inr (run\<lparr>r_status := RCancelled, r_completedAt := Some at,
                    r_failureReason := (case reason of
                        None \<Rightarrow> r_failureReason run
                      | Some s \<Rightarrow> if s = [] then r_failureReason run else Some s),
                    r_currentPhase := None\<rparr>))"

definition transitionToReady :: "run \<Rightarrow> run_error + run" where
  "transitionToReady run =
     (case r_currentPhase run of
        Some p \<Rightarrow> Inl (PhaseStillSet ''ready'' p)
      | None \<Rightarrow>
          if r_status run \<in> terminal_statuses then Inl (AlreadyTerminal ''ready'' (r_status run))
          else if r_status run \<noteq> RRunning then Inl (UnexpectedStatus ''ready'' (r_status run))
          else Inr (run\<lparr>r_status := RWaiting\<rparr>))"

definition reactivate :: "run \<Rightarrow> run_error + run" where
  "reactivate run =
     (case r_currentPhase run of
        Some p \<Rightarrow> Inl (PhaseStillSet ''reactivate'' p)
      | None \<Rightarrow>
          if r_status run \<noteq> RWaiting then Inl (UnexpectedStatus ''reactivate'' (r_status run))
          else Inr (run\<lparr>r_status := RRunning\<rparr>))"

definition canResume :: "run \<Rightarrow> bool" where
  "canResume run \<longleftrightarrow>
     r_status run = RFailed \<or> r_status run = RBlocked \<or> r_status run = RNeedsHumanReview \<or>
     r_status run = RCancelled"

definition resumeRun :: "run \<Rightarrow> string option \<Rightarrow> string option \<Rightarrow> run_error + run" where
  "resumeRun run phase pinned =
     (if \<not> canResume run then Inl (UnexpectedStatus ''resume'' (r_status run))
      else if pinned \<noteq> None \<and> \<not> isPinnedRuntime (the pinned)
      then Inl (InvalidPinnedRuntime (the pinned))
      else Inr (run\<lparr>r_completedAt := None, r_failureReason := None, r_status := RRunning,
                    r_currentPhase := phase,
                    r_pinnedRuntime := (if pinned \<noteq> None then pinned else r_pinnedRuntime run)\<rparr>))"

lemmas [run_ops] = startPhase_def completePhase_def skipPhase_def passRun_def failRun_def
  blockRun_def markRunNeedsHumanReview_def cancelRun_def transitionToReady_def reactivate_def
  canResume_def resumeRun_def terminal_statuses_def

section \<open>From run status to job status\<close>

datatype execution_outcome = Completed | Deferred | Operator_blocked | Failed | Cancelled

fun runStatusToExecutionOutcome :: "run_status \<Rightarrow> execution_outcome" where
  "runStatusToExecutionOutcome RPassed = Completed"
| "runStatusToExecutionOutcome RWaiting = Deferred"
| "runStatusToExecutionOutcome RBlocked = Operator_blocked"
| "runStatusToExecutionOutcome RNeedsHumanReview = Operator_blocked"
| "runStatusToExecutionOutcome RFailed = Failed"
| "runStatusToExecutionOutcome RCancelled = Cancelled"
| "runStatusToExecutionOutcome _ = Failed"

fun executionOutcomeToJobStatus :: "execution_outcome \<Rightarrow> job_status" where
  "executionOutcomeToJobStatus Completed = JSucceeded"
| "executionOutcomeToJobStatus Deferred = JSucceeded"
| "executionOutcomeToJobStatus Operator_blocked = JSucceeded"
| "executionOutcomeToJobStatus Failed = JFailed"
| "executionOutcomeToJobStatus Cancelled = JCancelled"

section \<open>Histories\<close>

datatype run_op =
    Start_phase string
  | Complete_phase string
  | Skip_phase string
  | Pass_run time
  | Fail_run string time
  | Block_run string time
  | Review_run string time
  | Cancel_run "string option" time
  | To_ready
  | Reactivate
  | Resume "string option" "string option"

fun apply_run_op :: "run_op \<Rightarrow> run \<Rightarrow> run_error + run" where
  "apply_run_op (Start_phase p) r = startPhase r p"
| "apply_run_op (Complete_phase p) r = completePhase r p"
| "apply_run_op (Skip_phase p) r = skipPhase r p"
| "apply_run_op (Pass_run t) r = passRun r t"
| "apply_run_op (Fail_run s t) r = failRun r s t"
| "apply_run_op (Block_run s t) r = blockRun r s t"
| "apply_run_op (Review_run s t) r = markRunNeedsHumanReview r s t"
| "apply_run_op (Cancel_run s t) r = cancelRun r s t"
| "apply_run_op To_ready r = transitionToReady r"
| "apply_run_op Reactivate r = reactivate r"
| "apply_run_op (Resume p rt) r = resumeRun r p rt"

inductive run_reachable :: "run \<Rightarrow> run \<Rightarrow> bool" for r where
  start: "run_reachable r r"
| step: "run_reachable r s \<Longrightarrow> apply_run_op op s = Inr t \<Longrightarrow> run_reachable r t"

text \<open>
  What every transition keeps: a terminal run is between phases, everything that stopped has
  its time stamp, a failed, blocked or handed-over run has its reason, and the pinned runtime
  is a supported one.
\<close>

definition run_inv :: "run \<Rightarrow> bool" where
  "run_inv r \<longleftrightarrow>
     (r_status r \<in> terminal_statuses \<longrightarrow> r_currentPhase r = None) \<and>
     (r_status r \<in> terminal_statuses \<union> {RBlocked, RNeedsHumanReview} \<longrightarrow> r_completedAt r \<noteq> None) \<and>
     (r_status r \<in> {RFailed, RBlocked, RNeedsHumanReview} \<longrightarrow> r_failureReason r \<noteq> None) \<and>
     (case r_pinnedRuntime r of None \<Rightarrow> True | Some p \<Rightarrow> isPinnedRuntime p)"

lemma createRun_inv: "createRun i = Inr r \<Longrightarrow> run_inv r"
  by (auto simp: createRun_def run_inv_def terminal_statuses_def split: if_splits option.splits)

lemma apply_run_op_inv: "apply_run_op op r = Inr r' \<Longrightarrow> run_inv r \<Longrightarrow> run_inv r'"
  by (cases op; cases "r_status r"; clarsimp simp: run_ops split: option.splits if_splits;
      auto simp: run_inv_def terminal_statuses_def split: option.splits if_splits)

lemma apply_run_op_history:
  "apply_run_op op r = Inr r' \<Longrightarrow>
   prefix (r_completedPhases r) (r_completedPhases r') \<and>
   prefix (r_skippedPhases r) (r_skippedPhases r')"
  by (cases op) (auto simp: run_ops split: option.splits if_splits)

lemma apply_run_op_ident:
  "apply_run_op op r = Inr r' \<Longrightarrow>
   r_uuid r' = r_uuid r \<and> r_repoId r' = r_repoId r \<and> r_issueNumber r' = r_issueNumber r \<and>
   r_startedAt r' = r_startedAt r"
  by (cases op) (auto simp: run_ops split: option.splits if_splits)

lemma passed_no_op: "r_status r = RPassed \<Longrightarrow> run_inv r \<Longrightarrow> \<exists>e. apply_run_op op r = Inl e"
  by (cases op) (auto simp: run_ops run_inv_def split: option.splits)

lemma run_reachable_inv: "run_reachable r s \<Longrightarrow> run_inv r \<Longrightarrow> run_inv s"
  by (induction rule: run_reachable.induct) (auto dest: apply_run_op_inv)

lemma run_reachable_history:
  "run_reachable r s \<Longrightarrow> prefix (r_completedPhases r) (r_completedPhases s) \<and>
     prefix (r_skippedPhases r) (r_skippedPhases s)"
  by (induction rule: run_reachable.induct)
    (auto dest!: apply_run_op_history intro: prefix_order.order_trans)

lemma run_reachable_passed:
  "run_reachable r s \<Longrightarrow> r_status r = RPassed \<Longrightarrow> run_inv r \<Longrightarrow> s = r"
proof (induction rule: run_reachable.induct)
  case (step s op t)
  then show ?case using passed_no_op [of r op] by auto
qed simp

section \<open>Properties\<close>

text \<open>
  Whatever operations a run goes through after its creation, the run invariant holds: a
  terminal run has no phase in progress and has its completion time, a failed, blocked or
  handed-over run has a reason, the pinned runtime is supported; and the recorded history
  of completed and skipped phases only grows.
\<close>

theorem run_invariant:
  assumes "createRun i = Inr r" and "run_reachable r s" and "run_reachable s t"
  shows "run_inv t \<and> prefix (r_completedPhases s) (r_completedPhases t) \<and>
    prefix (r_skippedPhases s) (r_skippedPhases t)"
  using assms createRun_inv run_reachable_inv run_reachable_history by blast

definition sample_run_input :: create_run_input where
  "sample_run_input = \<lparr>ri_uuid = ''u'', ri_displayId = ''d'', ri_repoId = ''repo'',
     ri_issueNumber = 7, ri_startedAt = 0, ri_type = None, ri_baseBranch = None,
     ri_executionPolicy = None, ri_pinnedRuntime = Some ''codex''\<rparr>"

definition sample_run :: run where
  "sample_run = (case createRun sample_run_input of Inr r \<Rightarrow> r)"

lemma sample_run_created: "createRun sample_run_input = Inr sample_run"
  by (simp add: sample_run_def createRun_def sample_run_input_def isPinnedRuntime_def
      PINNED_RUNTIMES_def)

theorem run_invariant_witness:
  "\<exists>t. run_reachable sample_run t \<and> run_inv t \<and> r_status t = RFailed \<and>
     r_completedPhases t = [''read_issue'']"
proof -
  obtain s1 where s1: "apply_run_op (Start_phase ''read_issue'') sample_run = Inr s1"
    by (simp add: sample_run_def createRun_def sample_run_input_def isPinnedRuntime_def
        PINNED_RUNTIMES_def run_ops)
  then obtain s2 where s2: "apply_run_op (Complete_phase ''read_issue'') s1 = Inr s2"
    by (auto simp: run_ops split: option.splits if_splits)
  moreover have "r_status s2 = RRunning" "r_completedPhases s2 = [''read_issue'']"
    using s1 s2 by (auto simp: sample_run_def createRun_def sample_run_input_def
        isPinnedRuntime_def PINNED_RUNTIMES_def run_ops split: option.splits if_splits)
  then obtain t where t: "apply_run_op (Fail_run ''boom'' 9) s2 = Inr t"
    and "r_status t = RFailed" "r_completedPhases t = [''read_issue'']"
    by (auto simp: run_ops)
  moreover have r: "run_reachable sample_run t"
    using run_reachable.start s1 s2 t by (blast intro: run_reachable.step)
  ultimately show ?thesis
    using run_invariant [OF sample_run_created run_reachable.start r] by blast
qed

text \<open>
  A passed run is final: no sequence of operations changes it. A failed or cancelled run
  changes only through \<open>resumeRun\<close>, which makes it run again with its phase history intact.
\<close>

theorem terminal_runs:
  assumes "run_inv r" and "r_status r \<in> terminal_statuses" and "apply_run_op op r = Inr r'"
  shows "r_status r \<noteq> RPassed \<and> (\<exists>p rt. op = Resume p rt \<and> r_currentPhase r' = p) \<and>
    r_status r' = RRunning \<and> r_completedPhases r' = r_completedPhases r \<and>
    r_skippedPhases r' = r_skippedPhases r"
  using assms
  by (cases op; cases "r_status r"; clarsimp simp: run_ops run_inv_def split: option.splits if_splits;
      auto)

theorem terminal_runs_witness:
  "\<exists>r r'. failRun sample_run ''boom'' 9 = Inr r \<and> r_status r = RFailed \<and>
     apply_run_op (Resume (Some ''validate'') None) r = Inr r' \<and> r_status r' = RRunning"
proof -
  have q: "run_inv sample_run" "r_status sample_run = RRunning"
    using createRun_inv [OF sample_run_created]
    by (simp_all add: sample_run_def createRun_def sample_run_input_def isPinnedRuntime_def
        PINNED_RUNTIMES_def)
  then obtain r where r: "apply_run_op (Fail_run ''boom'' 9) sample_run = Inr r"
    and f: "r_status r = RFailed" by (simp add: run_ops)
  then obtain r' where r': "apply_run_op (Resume (Some ''validate'') None) r = Inr r'"
    by (simp add: run_ops)
  show ?thesis
    using terminal_runs [OF apply_run_op_inv [OF r q(1)] _ r'] r f r'
    by (simp add: terminal_statuses_def)
qed

text \<open>
  A job is settled as succeeded exactly when its run passed, waits for review or stopped
  for an operator; a run left queued or running by its executor counts as failed; and the
  settled status is always one of the three settled job statuses.
\<close>

theorem settled_job_status:
  "(executionOutcomeToJobStatus (runStatusToExecutionOutcome s) = JSucceeded \<longleftrightarrow>
      s \<in> {RPassed, RWaiting, RBlocked, RNeedsHumanReview}) \<and>
   (executionOutcomeToJobStatus (runStatusToExecutionOutcome s) = JCancelled \<longleftrightarrow> s = RCancelled) \<and>
   (executionOutcomeToJobStatus (runStatusToExecutionOutcome s) = JFailed \<longleftrightarrow>
      s \<in> {RFailed, RQueued, RRunning})"
  by (cases s) auto

end
