(* ===== verification/Run_Store.thy ===== *)
theory Run_Store
  imports Domain_Run
begin

text \<open>
  The runs table, \<^verbatim>\<open>packages/infrastructure/src/sqlite/run-repository.ts\<close>. The table is the
  list of its rows as \<open>toRecord\<close> reads them; every method is one statement or one transaction.
  Lemmas: a settled row is out of reach of every guarded update, and an issue of a repository
  has at most one active run along every history that revives no settled run.
\<close>

section \<open>Rows, repositories, patches\<close>

record run_record = run +
  rr_exitCode :: "int option"
  rr_durationMs :: "int option"
  rr_pid :: "int option"
  rr_startCommitSha :: "string option"
  rr_configFingerprint :: "string option"
  rr_configSourcesJson :: "string option"

type_synonym run_table = "run_record list"

text \<open>A \<open>Run\<close> used as a \<open>RunRecord\<close>: the columns it does not have are undefined.\<close>

definition record_of_run :: "run \<Rightarrow> run_record" where
  "record_of_run r = run.extend r (run_record.fields None None None None None None)"

text \<open>The constructor arguments of the repository.\<close>

record run_store =
  rs_configFingerprint :: "string option"
  rs_configSourcesJson :: "string option"
  rs_defaultExecutionPolicy :: execution_policy
  rs_repoId :: "ident option"

datatype run_store_error =
    UniqueRun ident
  | ActiveRunExists ident int

text \<open>
  A patch: \<open>None\<close> is an absent field, \<open>Some None\<close> the value \<open>null\<close> of a nullable one.
\<close>

record run_patch =
  rp_status :: "run_status option"
  rp_currentPhase :: "string option option"
  rp_completedPhases :: "string list option"
  rp_skippedPhases :: "string list option"
  rp_completedAt :: "time option option"
  rp_failureReason :: "string option option"
  rp_exitCode :: "int option"
  rp_durationMs :: "int option"
  rp_startCommitSha :: "string option"
  rp_baseBranch :: "string option"
  rp_pid :: "int option"
  rp_configFingerprint :: "string option"
  rp_configSourcesJson :: "string option"
  rp_executionPolicy :: "execution_policy option"
  rp_pinnedRuntime :: "string option option"

definition empty_patch :: run_patch where
  "empty_patch = \<lparr>rp_status = None, rp_currentPhase = None, rp_completedPhases = None,
     rp_skippedPhases = None, rp_completedAt = None, rp_failureReason = None, rp_exitCode = None,
     rp_durationMs = None, rp_startCommitSha = None, rp_baseBranch = None, rp_pid = None,
     rp_configFingerprint = None, rp_configSourcesJson = None, rp_executionPolicy = None,
     rp_pinnedRuntime = None\<rparr>"

definition set_opt :: "'a option \<Rightarrow> 'a \<Rightarrow> 'a" where
  "set_opt new old = (case new of None \<Rightarrow> old | Some v \<Rightarrow> v)"

definition patch_row :: "run_patch \<Rightarrow> run_record \<Rightarrow> run_record" where
  "patch_row p r = r\<lparr>
     r_status := set_opt (rp_status p) (r_status r),
     r_currentPhase := set_opt (rp_currentPhase p) (r_currentPhase r),
     r_completedPhases := set_opt (rp_completedPhases p) (r_completedPhases r),
     r_skippedPhases := set_opt (rp_skippedPhases p) (r_skippedPhases r),
     r_completedAt := set_opt (rp_completedAt p) (r_completedAt r),
     r_failureReason := set_opt (rp_failureReason p) (r_failureReason r),
     rr_exitCode := (if rp_exitCode p \<noteq> None then rp_exitCode p else rr_exitCode r),
     rr_durationMs := (if rp_durationMs p \<noteq> None then rp_durationMs p else rr_durationMs r),
     rr_startCommitSha := (if rp_startCommitSha p \<noteq> None then rp_startCommitSha p else rr_startCommitSha r),
     r_baseBranch := (if rp_baseBranch p \<noteq> None then rp_baseBranch p else r_baseBranch r),
     rr_pid := (if rp_pid p \<noteq> None then rp_pid p else rr_pid r),
     rr_configFingerprint := (if rp_configFingerprint p \<noteq> None then rp_configFingerprint p
       else rr_configFingerprint r),
     rr_configSourcesJson := (if rp_configSourcesJson p \<noteq> None then rp_configSourcesJson p
       else rr_configSourcesJson r),
     r_executionPolicy := (if rp_executionPolicy p \<noteq> None then rp_executionPolicy p
       else r_executionPolicy r),
     r_pinnedRuntime := set_opt (rp_pinnedRuntime p) (r_pinnedRuntime r)\<rparr>"

definition run_settled :: "run_status \<Rightarrow> bool" where
  "run_settled s \<longleftrightarrow> s = RPassed \<or> s = RFailed \<or> s = RCancelled"

section \<open>Reading\<close>

definition toRecord :: "run_record \<Rightarrow> run_record" where
  "toRecord r = r\<lparr>r_executionPolicy := Some (set_opt (r_executionPolicy r) Standard)\<rparr>"

definition findRunByUuid :: "run_store \<Rightarrow> run_table \<Rightarrow> ident \<Rightarrow> run_record option" where
  "findRunByUuid cfg tbl uuid = map_option toRecord
     (List.find (\<lambda>r. r_uuid r = uuid \<and>
        (case rs_repoId cfg of None \<Rightarrow> True | Some repo \<Rightarrow> r_repoId r = repo)) tbl)"

text \<open>\<open>repo = None\<close> is the overload that takes the issue number alone.\<close>

definition findByIssueNumber :: "run_table \<Rightarrow> ident option \<Rightarrow> int \<Rightarrow> run_record option" where
  "findByIssueNumber tbl repo issue =
     (case sort_key (\<lambda>r. - r_startedAt r)
        (filter (\<lambda>r. (repo = None \<or> Some (r_repoId r) = repo) \<and> r_issueNumber r = issue) tbl) of
        [] \<Rightarrow> None
      | r # _ \<Rightarrow> Some (toRecord r))"

definition findActiveRuns :: "run_store \<Rightarrow> run_table \<Rightarrow> run_record list" where
  "findActiveRuns cfg tbl = map toRecord (sort_key r_startedAt
     (filter (\<lambda>r. \<not> run_settled (r_status r) \<and>
        (case rs_repoId cfg of None \<Rightarrow> True | Some repo \<Rightarrow> r_repoId r = repo)) tbl))"

text \<open>\<open>LIMIT\<close> and \<open>OFFSET\<close> of \<open>list\<close>; a negative offset is none for SQLite.\<close>

definition listRuns ::
  "run_store \<Rightarrow> run_table \<Rightarrow> ident option \<Rightarrow> run_status option \<Rightarrow> int option \<Rightarrow> int option
   \<Rightarrow> run_record list \<times> nat" where
  "listRuns cfg tbl repositoryId status limit offset =
     (let repo = (if repositoryId \<noteq> None then repositoryId else rs_repoId cfg);
          rows = sort_key (\<lambda>r. - r_startedAt r)
            (filter (\<lambda>r. (repo = None \<or> Some (r_repoId r) = repo) \<and>
               (status = None \<or> Some (r_status r) = status)) tbl);
          page = (case limit of
              None \<Rightarrow> rows
            | Some n \<Rightarrow> take (nat (max 1 (min n 100))) (drop (nat (set_opt offset 0)) rows))
      in (map toRecord page, length rows))"

section \<open>Writing\<close>

text \<open>\<open>uuid\<close> is the primary key and \<open>display_id\<close> is unique.\<close>

definition insertRun ::
  "run_store \<Rightarrow> run_table \<Rightarrow> run_record \<Rightarrow> int option \<Rightarrow> run_store_error + run_table" where
  "insertRun cfg tbl run pid =
     (if list_ex (\<lambda>r. r_uuid r = r_uuid run \<or> r_displayId r = r_displayId run) tbl
      then Inl (UniqueRun (r_uuid run))
      else Inr (tbl @ [run\<lparr>rr_exitCode := None, rr_durationMs := None, rr_pid := pid,
        rr_configFingerprint := (if rr_configFingerprint run \<noteq> None then rr_configFingerprint run
          else rs_configFingerprint cfg),
        rr_configSourcesJson := (if rr_configSourcesJson run \<noteq> None then rr_configSourcesJson run
          else rs_configSourcesJson cfg),
        r_executionPolicy := (if r_executionPolicy run \<noteq> None then r_executionPolicy run
          else Some (rs_defaultExecutionPolicy cfg))\<rparr>]))"

definition insertIfNoActive ::
  "run_store \<Rightarrow> run_table \<Rightarrow> run_record \<Rightarrow> int \<Rightarrow> run_store_error + run_table" where
  "insertIfNoActive cfg tbl run processPid =
     (if list_ex (\<lambda>r. (r_repoId r = r_repoId run \<or> r_repoId r = ''unknown'') \<and>
           r_issueNumber r = r_issueNumber run \<and> \<not> run_settled (r_status r)) tbl
      then Inl (ActiveRunExists (r_repoId run) (r_issueNumber run))
      else insertRun cfg tbl run (Some processPid))"

definition updateRun :: "run_table \<Rightarrow> ident \<Rightarrow> run_patch \<Rightarrow> run_table" where
  "updateRun tbl uuid p =
     (if p = empty_patch then tbl
      else map (\<lambda>r. if r_uuid r = uuid then patch_row p r else r) tbl)"

text \<open>The result is \<open>changes > 0\<close>.\<close>

definition update_where ::
  "(run_record \<Rightarrow> bool) \<Rightarrow> (run_record \<Rightarrow> run_record) \<Rightarrow> run_table \<Rightarrow> bool \<times> run_table" where
  "update_where P f tbl = (list_ex P tbl, map (\<lambda>r. if P r then f r else r) tbl)"

definition atomicUpdateByUuid ::
  "run_table \<Rightarrow> ident \<Rightarrow> run_patch \<Rightarrow> run_status \<Rightarrow> bool \<times> run_table" where
  "atomicUpdateByUuid tbl uuid p expected =
     (if p = empty_patch then (False, tbl)
      else update_where (\<lambda>r. r_uuid r = uuid \<and> r_status r = expected) (patch_row p) tbl)"

definition updateStatusByIssueNumber ::
  "run_table \<Rightarrow> ident option \<Rightarrow> int \<Rightarrow> run_status \<Rightarrow> time \<Rightarrow> string option \<Rightarrow> bool \<times> run_table" where
  "updateStatusByIssueNumber tbl repo issue status completedAt reason =
     update_where (\<lambda>r. (repo = None \<or> Some (r_repoId r) = repo) \<and> r_issueNumber r = issue \<and>
         \<not> run_settled (r_status r))
       (\<lambda>r. r\<lparr>r_status := status, r_completedAt := Some completedAt, r_failureReason := reason\<rparr>) tbl"

definition updateStatusByUuid ::
  "run_table \<Rightarrow> ident \<Rightarrow> run_status \<Rightarrow> time \<Rightarrow> string option \<Rightarrow> string option option
   \<Rightarrow> bool \<times> run_table" where
  "updateStatusByUuid tbl uuid status completedAt reason phase =
     update_where (\<lambda>r. r_uuid r = uuid \<and> \<not> run_settled (r_status r))
       (\<lambda>r. r\<lparr>r_status := status, r_completedAt := Some completedAt,
              r_failureReason := (if reason \<noteq> None then reason else r_failureReason r),
              r_currentPhase := set_opt phase (r_currentPhase r)\<rparr>) tbl"

section \<open>Histories\<close>

datatype run_store_op =
    Insert_if_no_active run_record int
  | Update_run ident run_patch
  | Atomic_update ident run_patch run_status
  | Status_by_issue "ident option" int run_status time "string option"
  | Status_by_uuid ident run_status time "string option" "string option option"

fun exec_run_op :: "run_store \<Rightarrow> run_store_op \<Rightarrow> run_table \<Rightarrow> run_table" where
  "exec_run_op cfg (Insert_if_no_active run pid) tbl =
     (case insertIfNoActive cfg tbl run pid of Inl _ \<Rightarrow> tbl | Inr tbl' \<Rightarrow> tbl')"
| "exec_run_op cfg (Update_run uuid p) tbl = updateRun tbl uuid p"
| "exec_run_op cfg (Atomic_update uuid p s) tbl = snd (atomicUpdateByUuid tbl uuid p s)"
| "exec_run_op cfg (Status_by_issue repo i s t m) tbl = snd (updateStatusByIssueNumber tbl repo i s t m)"
| "exec_run_op cfg (Status_by_uuid uuid s t m ph) tbl = snd (updateStatusByUuid tbl uuid s t m ph)"

text \<open>
  Operations that never take a settled run back: unconditional updates leave the status alone
  or settle, compare-and-swap updates start from an active status or settle.
\<close>

fun revives_nothing :: "run_store_op \<Rightarrow> bool" where
  "revives_nothing (Update_run uuid p) =
     (case rp_status p of None \<Rightarrow> True | Some s \<Rightarrow> run_settled s)"
| "revives_nothing (Atomic_update uuid p s) =
     (\<not> run_settled s \<or> (case rp_status p of None \<Rightarrow> True | Some s' \<Rightarrow> run_settled s'))"
| "revives_nothing _ = True"

text \<open>The guarded operations, which test the status they overwrite.\<close>

fun guarded_op :: "run_store_op \<Rightarrow> bool" where
  "guarded_op (Update_run uuid p) = False"
| "guarded_op (Atomic_update uuid p s) = (\<not> run_settled s)"
| "guarded_op _ = True"

definition active_of :: "ident \<Rightarrow> int \<Rightarrow> run_table \<Rightarrow> run_record list" where
  "active_of repo issue tbl =
     filter (\<lambda>r. r_repoId r = repo \<and> r_issueNumber r = issue \<and> \<not> run_settled (r_status r)) tbl"

definition one_active :: "run_table \<Rightarrow> bool" where
  "one_active tbl \<longleftrightarrow> (\<forall>r \<in> set tbl. length (active_of (r_repoId r) (r_issueNumber r) tbl) \<le> 1)"

section \<open>One active run per issue\<close>

text \<open>Updates that keep the identity of a row and revive nothing.\<close>

definition calm :: "(run_record \<Rightarrow> run_record) \<Rightarrow> bool" where
  "calm f \<longleftrightarrow> (\<forall>r. r_repoId (f r) = r_repoId r \<and> r_issueNumber (f r) = r_issueNumber r \<and>
     (\<not> run_settled (r_status (f r)) \<longrightarrow> \<not> run_settled (r_status r)))"

lemma calm_active_of:
  assumes "calm f"
  shows "length (active_of repo issue (map f tbl)) \<le> length (active_of repo issue tbl)"
  using assms by (induction tbl) (auto simp: active_of_def calm_def)

lemma calm_one_active:
  assumes "calm f" and "one_active tbl"
  shows "one_active (map f tbl)"
  unfolding one_active_def
proof
  fix r assume "r \<in> set (map f tbl)"
  then obtain q where q: "q \<in> set tbl" "r = f q" by auto
  then have same: "r_repoId r = r_repoId q" "r_issueNumber r = r_issueNumber q"
    using assms(1) by (simp_all add: calm_def)
  have "length (active_of (r_repoId q) (r_issueNumber q) tbl) \<le> 1"
    using assms(2) q(1) by (simp add: one_active_def)
  then show "length (active_of (r_repoId r) (r_issueNumber r) (map f tbl)) \<le> 1"
    using calm_active_of [OF assms(1), of "r_repoId q" "r_issueNumber q" tbl] by (simp add: same)
qed

lemma calm_if:
  "(\<And>r. r_repoId (f r) = r_repoId r \<and> r_issueNumber (f r) = r_issueNumber r) \<Longrightarrow>
   (\<And>r. P r \<Longrightarrow> \<not> run_settled (r_status (f r)) \<Longrightarrow> \<not> run_settled (r_status r)) \<Longrightarrow>
   calm (\<lambda>r. if P r then f r else r)"
  by (auto simp: calm_def)

lemma patch_row_ident [simp]:
  "r_repoId (patch_row p r) = r_repoId r" "r_issueNumber (patch_row p r) = r_issueNumber r"
  "r_uuid (patch_row p r) = r_uuid r" "r_status (patch_row p r) = set_opt (rp_status p) (r_status r)"
  by (simp_all add: patch_row_def)

lemma active_of_append: "active_of repo issue (xs @ ys) = active_of repo issue xs @ active_of repo issue ys"
  by (simp add: active_of_def)

lemma insertRun_InrD:
  assumes "insertRun cfg tbl run pid = Inr tbl'"
  shows "\<exists>row. tbl' = tbl @ [row] \<and> r_repoId row = r_repoId run \<and>
    r_issueNumber row = r_issueNumber run \<and> r_uuid row = r_uuid run \<and> r_status row = r_status run \<and>
    r_baseBranch row = r_baseBranch run"
  using assms by (cases "list_ex (\<lambda>r. r_uuid r = r_uuid run \<or> r_displayId r = r_displayId run) tbl")
    (auto simp: insertRun_def simp del: not_None_eq)

lemma insertIfNoActive_one_active:
  assumes "insertIfNoActive cfg tbl run pid = Inr tbl'" and "one_active tbl"
  shows "one_active tbl'"
proof -
  have ins: "insertRun cfg tbl run (Some pid) = Inr tbl'"
    and free: "active_of (r_repoId run) (r_issueNumber run) tbl = []"
    using assms(1)
    by (auto simp: insertIfNoActive_def active_of_def list_ex_iff filter_empty_conv split: if_split_asm)
  from insertRun_InrD [OF ins] obtain row where tbl': "tbl' = tbl @ [row]"
    and row: "r_repoId row = r_repoId run" "r_issueNumber row = r_issueNumber run" by blast
  have other: "length (active_of repo issue tbl) \<le> 1" for repo issue
  proof (cases "active_of repo issue tbl")
    case (Cons q qs)
    then have "q \<in> set (active_of repo issue tbl)" by simp
    then have "q \<in> set tbl" "r_repoId q = repo" "r_issueNumber q = issue"
      by (auto simp: active_of_def)
    then show ?thesis using assms(2) by (auto simp: one_active_def)
  qed simp
  have "length (active_of repo issue tbl') \<le> 1" for repo issue
  proof (cases "repo = r_repoId run \<and> issue = r_issueNumber run")
    case True
    then show ?thesis using free by (simp add: tbl' active_of_append) (simp add: active_of_def)
  next
    case False
    then have "active_of repo issue [row] = []" using row by (auto simp: active_of_def)
    then show ?thesis using other [of repo issue] by (simp add: tbl' active_of_append)
  qed
  then show ?thesis by (simp add: one_active_def)
qed

lemma exec_run_op_one_active:
  assumes "one_active tbl" and "revives_nothing op"
  shows "one_active (exec_run_op cfg op tbl)"
proof (cases op)
  case (Insert_if_no_active run pid)
  then show ?thesis
    using assms(1) insertIfNoActive_one_active [of cfg tbl run pid]
    by (auto split: sum.splits)
next
  case (Update_run uuid p)
  have "calm (\<lambda>r. if r_uuid r = uuid then patch_row p r else r)"
    by (rule calm_if) (use assms(2) Update_run in \<open>auto simp: set_opt_def split: option.splits\<close>)
  then show ?thesis using assms(1) by (simp add: Update_run updateRun_def calm_one_active)
next
  case (Atomic_update uuid p s)
  have "calm (\<lambda>r. if r_uuid r = uuid \<and> r_status r = s then patch_row p r else r)"
    by (rule calm_if) (use assms(2) Atomic_update in \<open>auto simp: set_opt_def split: option.splits\<close>)
  then show ?thesis
    using assms(1) by (simp add: Atomic_update atomicUpdateByUuid_def update_where_def calm_one_active)
next
  case (Status_by_issue repo i s t m)
  show ?thesis unfolding Status_by_issue exec_run_op.simps updateStatusByIssueNumber_def
      update_where_def snd_conv
    by (rule calm_one_active [OF calm_if assms(1)]) auto
next
  case (Status_by_uuid uuid s t m ph)
  show ?thesis unfolding Status_by_uuid exec_run_op.simps updateStatusByUuid_def
      update_where_def snd_conv
    by (rule calm_one_active [OF calm_if assms(1)]) auto
qed


definition sample_store :: run_store where
  "sample_store = \<lparr>rs_configFingerprint = Some ''f'', rs_configSourcesJson = None,
     rs_defaultExecutionPolicy = Standard, rs_repoId = None\<rparr>"

definition sample_row :: "ident \<Rightarrow> run_status \<Rightarrow> run_record" where
  "sample_row u s = record_of_run
     \<lparr>r_uuid = u, r_displayId = ''issue-'' @ u, r_repoId = ''repo'', r_issueNumber = 7,
      r_type = Issue_to_pr, r_baseBranch = Some ''release'', r_executionPolicy = None,
      r_pinnedRuntime = None, r_status = s, r_currentPhase = None, r_completedPhases = [],
      r_skippedPhases = [], r_startedAt = 0, r_completedAt = None, r_failureReason = None\<rparr>"

definition sample_run_ops :: "run_store_op list" where
  "sample_run_ops = [Insert_if_no_active (sample_row ''a'' RRunning) 1,
     Insert_if_no_active (sample_row ''b'' RRunning) 1,
     Status_by_uuid ''a'' RFailed 5 (Some ''boom'') None,
     Insert_if_no_active (sample_row ''c'' RRunning) 1]"

lemma sample_run_ops_result:
  "map (\<lambda>r. (r_uuid r, r_status r)) (fold (exec_run_op sample_store) sample_run_ops [])
   = [(''a'', RFailed), (''c'', RRunning)]"
  by code_simp


section \<open>Settled rows\<close>

lemma settled_in_map:
  "r \<in> set tbl \<Longrightarrow> run_settled (r_status r) \<Longrightarrow> (\<And>q. P q \<Longrightarrow> \<not> run_settled (r_status q)) \<Longrightarrow>
   r \<in> set (map (\<lambda>q. if P q then f q else q) tbl)"
  by (force simp: image_iff)

lemma exec_guarded_op_settled:
  assumes "r \<in> set tbl" and "run_settled (r_status r)" and "guarded_op op"
  shows "r \<in> set (exec_run_op cfg op tbl)"
proof (cases op)
  case (Insert_if_no_active run pid)
  then show ?thesis using assms(1)
    by (auto simp: insertIfNoActive_def split: sum.splits if_split_asm dest: insertRun_InrD)
next
  case (Atomic_update uuid p s)
  have "r \<in> set (map (\<lambda>q. if r_uuid q = uuid \<and> r_status q = s then patch_row p q else q) tbl)"
    by (rule settled_in_map [OF assms(1,2)]) (use assms(3) Atomic_update in simp)
  then show ?thesis using assms(1) by (simp add: Atomic_update atomicUpdateByUuid_def update_where_def)
next
  case (Status_by_issue repo i s t m)
  then show ?thesis unfolding Status_by_issue exec_run_op.simps updateStatusByIssueNumber_def
      update_where_def snd_conv by (intro settled_in_map assms(1,2)) simp
next
  case (Status_by_uuid uuid s t m ph)
  then show ?thesis unfolding Status_by_uuid exec_run_op.simps updateStatusByUuid_def
      update_where_def snd_conv by (intro settled_in_map assms(1,2)) simp
qed (use assms(3) in simp)

text \<open>
  A settled run is out of reach of the guarded updates: whatever insertions, status updates
  and compare-and-swap updates of active statuses follow, its row stays exactly as it is.
\<close>

theorem settled_run_kept:
  assumes "r \<in> set tbl" and "run_settled (r_status r)" and "\<forall>op \<in> set ops. guarded_op op"
  shows "r \<in> set (fold (exec_run_op cfg) ops tbl)"
  using assms by (induction ops arbitrary: tbl) (simp_all add: exec_guarded_op_settled)

theorem settled_run_kept_witness:
  "sample_row ''a'' RPassed \<in> set (fold (exec_run_op sample_store)
     [Status_by_issue None 7 RCancelled 9 None, Insert_if_no_active (sample_row ''b'' RRunning) 1,
      Atomic_update ''a'' (empty_patch\<lparr>rp_status := Some RFailed\<rparr>) RRunning] [sample_row ''a'' RPassed])"
  by (rule settled_run_kept)
    (simp_all add: sample_row_def record_of_run_def run.defs run_record.defs run_settled_def)

end
