(* ===== verification/Fencing.thy ===== *)
theory Fencing
  imports Prelude
begin

text \<open>
  The contract of a store whose writers hold revocable ownerships: the job queue hands out
  claims, the lease table leases. The provider promises that ownership only arises from a
  grant, and that an operation made on behalf of an owner who no longer owns anything does
  nothing. The client then knows that a stale owner can be ignored: removing all its
  operations from a history gives the same store.
\<close>

locale fenced_store =
  fixes owns :: "'store \<Rightarrow> 'owner \<Rightarrow> bool"
    and exec :: "'op \<Rightarrow> 'store \<Rightarrow> 'store"
    and grants :: "'op \<Rightarrow> 'owner \<Rightarrow> bool"
    and acting :: "'op \<Rightarrow> 'owner option"
  assumes exec_owns: "owns (exec op s) w \<Longrightarrow> owns s w \<or> grants op w"
    and stale_noop: "acting op = Some w \<Longrightarrow> \<not> owns s w \<Longrightarrow> exec op s = s"
begin

lemma stays_stale:
  "\<not> owns s w \<Longrightarrow> \<forall>op \<in> set ops. \<not> grants op w \<Longrightarrow> \<not> owns (fold exec ops s) w"
  by (induction ops arbitrary: s) (auto dest: exec_owns)

lemma stale_operations_vanish:
  assumes "\<not> owns s w" and "\<forall>op \<in> set ops. \<not> grants op w"
  shows "fold exec ops s = fold exec (filter (\<lambda>op. acting op \<noteq> Some w) ops) s"
  using assms
proof (induction ops arbitrary: s)
  case (Cons op ops)
  have "\<not> owns (exec op s) w" using Cons.prems by (auto dest: exec_owns)
  then have ih: "fold exec ops (exec op s) =
      fold exec (filter (\<lambda>op. acting op \<noteq> Some w) ops) (exec op s)"
    using Cons.IH Cons.prems(2) by simp
  show ?case
  proof (cases "acting op = Some w")
    case True
    then show ?thesis using ih stale_noop Cons.prems(1) by simp
  qed (use ih in simp)
qed simp

end

end
