(* ===== verification/Job_Queue.thy ===== *)
theory Job_Queue
  imports Domain_Job Fencing
begin

text \<open>
  The SQLite job queue, \<^verbatim>\<open>packages/infrastructure/src/sqlite/job-queue-repository.ts\<close>.
  The \<open>jobs\<close> table is the list of its rows in insertion order, a row the job \<open>toJob\<close> reads
  from it. Each repository method is one transaction: it returns the new table, or an error
  and no table when the transaction rolls back. \<open>scope\<close> is the \<open>repoId\<close> a repository
  object may be restricted to.
\<close>

section \<open>The claim order\<close>

text \<open>\<open>ORDER BY priority DESC, created_at ASC, id ASC\<close> as a linear order on sort keys.\<close>

datatype claim_key = Claim_key (ck_priority: int) (ck_createdAt: time) (ck_id: ident)

instantiation claim_key :: linorder
begin

definition less_eq_claim_key :: "claim_key \<Rightarrow> claim_key \<Rightarrow> bool" where
  "a \<le> b \<longleftrightarrow> ck_priority b < ck_priority a \<or>
     (ck_priority a = ck_priority b \<and> (ck_createdAt a < ck_createdAt b \<or>
        (ck_createdAt a = ck_createdAt b \<and> ck_id a \<le> ck_id b)))"

definition less_claim_key :: "claim_key \<Rightarrow> claim_key \<Rightarrow> bool" where
  "a < b \<longleftrightarrow> ck_priority b < ck_priority a \<or>
     (ck_priority a = ck_priority b \<and> (ck_createdAt a < ck_createdAt b \<or>
        (ck_createdAt a = ck_createdAt b \<and> ck_id a < ck_id b)))"

instance
proof
  fix x y z :: claim_key
  show "(x < y) = (x \<le> y \<and> \<not> y \<le> x)"
    by (auto simp: less_eq_claim_key_def less_claim_key_def)
  show "x \<le> x" by (simp add: less_eq_claim_key_def)
  show "x \<le> y \<Longrightarrow> y \<le> z \<Longrightarrow> x \<le> z" by (auto simp: less_eq_claim_key_def)
  show "x \<le> y \<Longrightarrow> y \<le> x \<Longrightarrow> x = y" by (auto simp: less_eq_claim_key_def intro: claim_key.expand)
  show "x \<le> y \<or> y \<le> x" by (auto simp: less_eq_claim_key_def)
qed

end

definition job_key :: "job \<Rightarrow> claim_key" where
  "job_key j = Claim_key (j_priority j) (j_createdAt j) (j_id j)"

section \<open>Operations\<close>

type_synonym job_table = "job list"

definition in_scope :: "ident option \<Rightarrow> ident \<Rightarrow> bool" where
  "in_scope scope r \<longleftrightarrow> scope = None \<or> scope = Some r"

text \<open>
  \<open>repos r\<close> is what \<open>RepositoryPort.findById\<close> says of a repository: absent, or its
  \<open>enabled\<close> flag.
\<close>

definition enqueue :: "(ident \<Rightarrow> bool option) \<Rightarrow> job_table \<Rightarrow> job \<Rightarrow> job_error + job_table" where
  "enqueue repos tbl job =
     (if repos (j_repoId job) \<noteq> Some True then Inl (RepositoryNotApprovedError (j_repoId job))
      else if list_ex (\<lambda>r. j_id r = j_id job) tbl then Inl (DuplicateJobIdError (j_id job))
      else Inr (tbl @ [job]))"

text \<open>The queued rows of a repository, in the order of the query.\<close>

definition selectRows :: "job_table \<Rightarrow> ident \<Rightarrow> job list" where
  "selectRows tbl repo = sort_key job_key (filter (\<lambda>r. j_status r = JQueued \<and> j_repoId r = repo) tbl)"

text \<open>The columns the \<open>UPDATE\<close> of the claim transaction sets.\<close>

definition claim_update :: "job \<Rightarrow> job \<Rightarrow> job" where
  "claim_update claimed row = row\<lparr>j_status := j_status claimed, j_claimedBy := j_claimedBy claimed,
     j_claimToken := j_claimToken claimed, j_claimedAt := j_claimedAt claimed,
     j_claimExpiresAt := j_claimExpiresAt claimed, j_attempts := j_attempts claimed\<rparr>"

definition claimTx ::
  "job_table \<Rightarrow> ident \<Rightarrow> ident \<Rightarrow> ident list \<Rightarrow> int option \<Rightarrow> time \<Rightarrow> ident
   \<Rightarrow> job_error + job option \<times> job_table" where
  "claimTx tbl workerId repo skipJobIds ttlMs now tok =
     (case List.find (\<lambda>r. j_id r \<notin> set skipJobIds) (selectRows tbl repo) of
        None \<Rightarrow> Inr (None, tbl)
      | Some nextRow \<Rightarrow>
          case claimJob nextRow workerId now tok ttlMs of
            Inl e \<Rightarrow> Inl e
          | Inr claimed \<Rightarrow>
              Inr (Some claimed,
                map (\<lambda>r. if j_id r = j_id claimed \<and> j_repoId r = repo then claim_update claimed r else r)
                  tbl))"

definition claimNext ::
  "ident option \<Rightarrow> job_table \<Rightarrow> ident \<Rightarrow> ident \<Rightarrow> ident list \<Rightarrow> int option \<Rightarrow> time \<Rightarrow> ident
   \<Rightarrow> job_error + job option \<times> job_table" where
  "claimNext scope tbl workerId repo skipJobIds ttlMs now tok =
     (if \<not> in_scope scope repo then Inr (None, tbl)
      else claimTx tbl workerId repo skipJobIds ttlMs now tok)"

text \<open>The row match of every operation made with an ownership.\<close>

definition row_owned :: "job_ownership \<Rightarrow> job \<Rightarrow> bool" where
  "row_owned owner r \<longleftrightarrow> j_id r = o_jobId owner \<and> j_claimedBy r = Some (o_workerId owner) \<and>
     j_claimToken r = Some (o_claimToken owner)"

definition settle_update :: "job \<Rightarrow> job \<Rightarrow> job" where
  "settle_update updated row = row\<lparr>j_status := j_status updated, j_attempts := j_attempts updated,
     j_claimedBy := j_claimedBy updated, j_claimToken := j_claimToken updated,
     j_claimedAt := j_claimedAt updated, j_startedAt := j_startedAt updated,
     j_completedAt := j_completedAt updated, j_claimExpiresAt := j_claimExpiresAt updated\<rparr>"

definition updateJobWithOwnership ::
  "job_table \<Rightarrow> job_ownership \<Rightarrow> (job \<Rightarrow> job_error + job) \<Rightarrow> job_error + job_table" where
  "updateJobWithOwnership tbl owner transition =
     (case List.find (row_owned owner) tbl of
        None \<Rightarrow> Inl (JobOwnershipLostError (o_jobId owner))
      | Some job \<Rightarrow>
          case transition job of
            Inl e \<Rightarrow> Inl e
          | Inr updated \<Rightarrow>
              let match = (\<lambda>r. j_id r = j_id updated \<and> j_claimedBy r = Some (o_workerId owner) \<and>
                    j_claimToken r = Some (o_claimToken owner))
              in if \<not> list_ex match tbl then Inl (JobOwnershipLostError (o_jobId owner))
                 else Inr (map (\<lambda>r. if match r then settle_update updated r else r) tbl))"

definition releaseClaim :: "job_table \<Rightarrow> job_ownership \<Rightarrow> job_error + job_table" where
  "releaseClaim tbl owner = updateJobWithOwnership tbl owner unclaimJob"

definition resetToQueued :: "job_table \<Rightarrow> job_ownership \<Rightarrow> job_error + job_table" where
  "resetToQueued tbl owner = updateJobWithOwnership tbl owner resetJobToQueued"

definition markRunning :: "job_table \<Rightarrow> job_ownership \<Rightarrow> time \<Rightarrow> job_error + job_table" where
  "markRunning tbl owner now = updateJobWithOwnership tbl owner (\<lambda>j. markJobRunning j now)"

definition markSucceeded :: "job_table \<Rightarrow> job_ownership \<Rightarrow> time \<Rightarrow> job_error + job_table" where
  "markSucceeded tbl owner now = updateJobWithOwnership tbl owner (\<lambda>j. markJobSucceeded j now)"

definition markFailed :: "job_table \<Rightarrow> job_ownership \<Rightarrow> time \<Rightarrow> job_error + job_table" where
  "markFailed tbl owner now = updateJobWithOwnership tbl owner (\<lambda>j. markJobFailed j now)"

definition markCancelled :: "job_table \<Rightarrow> job_ownership \<Rightarrow> time \<Rightarrow> job_error + job_table" where
  "markCancelled tbl owner now = updateJobWithOwnership tbl owner (\<lambda>j. markJobCancelled j now)"

record reconcile_input =
  rc_jobId :: ident
  rc_targetStatus :: job_status
  rc_now :: time
  rc_expectedStatus :: "job_status option"
  rc_owner :: "job_ownership option"

text \<open>The result is \<open>reconciled\<close>, \<open>status\<close> and the table.\<close>

definition reconcileTerminalJob ::
  "ident option \<Rightarrow> job_table \<Rightarrow> reconcile_input \<Rightarrow> job_error + bool \<times> job_status \<times> job_table" where
  "reconcileTerminalJob scope tbl inp =
     (case List.find (\<lambda>r. j_id r = rc_jobId inp \<and> in_scope scope (j_repoId r)) tbl of
        None \<Rightarrow> Inr (False, JFailed, tbl)
      | Some row \<Rightarrow>
          if job_settled (j_status row) then Inr (False, j_status row, tbl)
          else if rc_expectedStatus inp \<noteq> None \<and> Some (j_status row) \<noteq> rc_expectedStatus inp
          then Inr (False, j_status row, tbl)
          else if (case rc_owner inp of None \<Rightarrow> False | Some owner \<Rightarrow>
                j_claimedBy row \<noteq> Some (o_workerId owner) \<or>
                j_claimToken row \<noteq> Some (o_claimToken owner))
          then Inl (JobOwnershipLostError (o_jobId (the (rc_owner inp))))
          else Inr (True, rc_targetStatus inp,
            map (\<lambda>r. if j_id r = rc_jobId inp \<and> in_scope scope (j_repoId r)
              then r\<lparr>j_status := rc_targetStatus inp, j_completedAt := Some (rc_now inp),
                     j_claimedBy := None, j_claimToken := None, j_claimExpiresAt := None\<rparr>
              else r) tbl))"

definition listForRepo :: "ident option \<Rightarrow> job_table \<Rightarrow> ident \<Rightarrow> job list" where
  "listForRepo scope tbl repo =
     (if \<not> in_scope scope repo then [] else filter (\<lambda>r. j_repoId r = repo) tbl)"

definition listForRun :: "ident option \<Rightarrow> job_table \<Rightarrow> ident \<Rightarrow> job list" where
  "listForRun scope tbl run = filter (\<lambda>r. j_runId r = run \<and> in_scope scope (j_repoId r)) tbl"

definition findById :: "ident option \<Rightarrow> job_table \<Rightarrow> ident \<Rightarrow> job option" where
  "findById scope tbl job = List.find (\<lambda>r. j_id r = job \<and> in_scope scope (j_repoId r)) tbl"

definition listActive :: "ident option \<Rightarrow> job_table \<Rightarrow> job list" where
  "listActive scope tbl =
     filter (\<lambda>r. j_status r \<in> {JQueued, JClaimed, JRunning} \<and> in_scope scope (j_repoId r)) tbl"

lemmas [queue_ops] = releaseClaim_def resetToQueued_def markRunning_def markSucceeded_def
  markFailed_def markCancelled_def

section \<open>Histories\<close>

text \<open>
  The transactions that change the table, as data. A job is enqueued as \<open>createJob\<close> made it,
  as every caller does.
\<close>

datatype queue_op =
    Enqueue create_job_input
  | Claim_next ident ident "ident list" "int option" time ident
  | Release_claim job_ownership
  | Reset_to_queued job_ownership
  | Mark_running job_ownership time
  | Mark_succeeded job_ownership time
  | Mark_failed job_ownership time
  | Mark_cancelled job_ownership time
  | Reconcile reconcile_input

fun apply_queue_op ::
  "(ident \<Rightarrow> bool option) \<Rightarrow> ident option \<Rightarrow> queue_op \<Rightarrow> job_table \<Rightarrow> job_error + job_table" where
  "apply_queue_op repos scope (Enqueue i) tbl = enqueue repos tbl (createJob i)"
| "apply_queue_op repos scope (Claim_next w r skip ttl now tok) tbl =
     map_sum id snd (claimNext scope tbl w r skip ttl now tok)"
| "apply_queue_op repos scope (Release_claim owner) tbl = releaseClaim tbl owner"
| "apply_queue_op repos scope (Reset_to_queued owner) tbl = resetToQueued tbl owner"
| "apply_queue_op repos scope (Mark_running owner now) tbl = markRunning tbl owner now"
| "apply_queue_op repos scope (Mark_succeeded owner now) tbl = markSucceeded tbl owner now"
| "apply_queue_op repos scope (Mark_failed owner now) tbl = markFailed tbl owner now"
| "apply_queue_op repos scope (Mark_cancelled owner now) tbl = markCancelled tbl owner now"
| "apply_queue_op repos scope (Reconcile i) tbl =
     map_sum id (\<lambda>(_, _, t). t) (reconcileTerminalJob scope tbl i)"

text \<open>A failed transaction leaves the table alone.\<close>

definition exec_queue_op ::
  "(ident \<Rightarrow> bool option) \<Rightarrow> ident option \<Rightarrow> queue_op \<Rightarrow> job_table \<Rightarrow> job_table" where
  "exec_queue_op repos scope op tbl =
     (case apply_queue_op repos scope op tbl of Inl _ \<Rightarrow> tbl | Inr tbl' \<Rightarrow> tbl')"

end
