(* ===== verification/Worker_Registry.thy ===== *)
theory Worker_Registry
  imports Prelude
begin

text \<open>
  Repositories and workers: \<^verbatim>\<open>packages/domain/src/repository.ts\<close> and
  \<^verbatim>\<open>worker.ts\<close>, and the worker table of
  \<^verbatim>\<open>packages/infrastructure/src/sqlite/worker-registry-repository.ts\<close> as the list of its
  rows. Lemmas: the table has one row per worker id, each operation touches one worker only,
  and when a stopping or unhealthy worker can become idle again.
\<close>

section \<open>Repositories\<close>

datatype repository_health = Unknown | Healthy | Degraded | Unreachable

record repository =
  r_id :: ident
  r_owner :: string
  r_name :: string
  r_fullName :: string
  r_defaultBranch :: string
  r_remoteUrl :: string
  r_localBasePath :: string
  r_enabled :: bool
  r_maxConcurrentRuns :: nat
  r_healthStatus :: repository_health
  r_healthError :: "string option"
  r_lastHealthCheckAt :: "time option"
  r_configMetadata :: string
  r_createdAt :: time
  r_updatedAt :: time

definition markRepositoryEnabled :: "repository \<Rightarrow> bool \<Rightarrow> time \<Rightarrow> repository" where
  "markRepositoryEnabled repo enabled now = repo\<lparr>r_enabled := enabled, r_updatedAt := now\<rparr>"

definition recordHealthCheck ::
  "repository \<Rightarrow> repository_health \<Rightarrow> string option \<Rightarrow> time \<Rightarrow> repository" where
  "recordHealthCheck repo status err now =
     repo\<lparr>r_healthStatus := status, r_healthError := err, r_lastHealthCheckAt := Some now,
          r_updatedAt := now\<rparr>"

section \<open>Workers\<close>

datatype worker_status = WIdle | WBusy | WStopping | WUnhealthy

record worker =
  w_id :: ident
  w_repoId :: ident
  w_hostname :: string
  w_processId :: int
  w_status :: worker_status
  w_heartbeatAt :: time

definition createWorker :: "ident \<Rightarrow> ident \<Rightarrow> string \<Rightarrow> int \<Rightarrow> time \<Rightarrow> worker" where
  "createWorker i repo hostname pid now =
     \<lparr>w_id = i, w_repoId = repo, w_hostname = hostname, w_processId = pid, w_status = WIdle,
      w_heartbeatAt = now\<rparr>"

definition heartbeatWorker :: "worker \<Rightarrow> time \<Rightarrow> worker" where
  "heartbeatWorker w now = w\<lparr>w_heartbeatAt := now\<rparr>"

definition markWorkerBusy :: "worker \<Rightarrow> worker" where
  "markWorkerBusy w = w\<lparr>w_status := WBusy\<rparr>"

definition markWorkerIdle :: "worker \<Rightarrow> worker" where
  "markWorkerIdle w =
     (if w_status w = WStopping \<or> w_status w = WUnhealthy then w else w\<lparr>w_status := WIdle\<rparr>)"

definition markWorkerStopping :: "worker \<Rightarrow> worker" where
  "markWorkerStopping w = w\<lparr>w_status := WStopping\<rparr>"

definition markWorkerUnhealthy :: "worker \<Rightarrow> worker" where
  "markWorkerUnhealthy w = w\<lparr>w_status := WUnhealthy\<rparr>"

section \<open>The registry\<close>

type_synonym worker_table = "worker list"

text \<open>\<open>INSERT ... ON CONFLICT(id) DO UPDATE\<close> of every other column.\<close>

definition register :: "worker_table \<Rightarrow> worker \<Rightarrow> worker_table" where
  "register tbl w =
     (if list_ex (\<lambda>r. w_id r = w_id w) tbl
      then map (\<lambda>r. if w_id r = w_id w
        then r\<lparr>w_repoId := w_repoId w, w_hostname := w_hostname w, w_processId := w_processId w,
               w_status := w_status w, w_heartbeatAt := w_heartbeatAt w\<rparr> else r) tbl
      else tbl @ [w])"

definition findWorker :: "worker_table \<Rightarrow> ident \<Rightarrow> ident \<Rightarrow> worker option" where
  "findWorker tbl i repo = List.find (\<lambda>r. w_id r = i \<and> w_repoId r = repo) tbl"

text \<open>\<open>requireWorker\<close> throws \<open>unknown worker\<close>: \<open>Inl\<close> with the id.\<close>

definition requireWorker :: "worker_table \<Rightarrow> ident \<Rightarrow> ident \<Rightarrow> ident + worker" where
  "requireWorker tbl i repo = (case findWorker tbl i repo of None \<Rightarrow> Inl i | Some w \<Rightarrow> Inr w)"

definition updateStatus ::
  "worker_table \<Rightarrow> ident \<Rightarrow> ident \<Rightarrow> (worker \<Rightarrow> worker) \<Rightarrow> ident + worker_table" where
  "updateStatus tbl i repo fn =
     (case requireWorker tbl i repo of
        Inl e \<Rightarrow> Inl e
      | Inr w \<Rightarrow> Inr (map (\<lambda>r. if w_id r = i \<and> w_repoId r = repo
            then r\<lparr>w_status := w_status (fn w)\<rparr> else r) tbl))"

definition heartbeatInRegistry :: "worker_table \<Rightarrow> ident \<Rightarrow> ident \<Rightarrow> time \<Rightarrow> ident + worker_table" where
  "heartbeatInRegistry tbl i repo now =
     (case requireWorker tbl i repo of
        Inl e \<Rightarrow> Inl e
      | Inr w \<Rightarrow> Inr (map (\<lambda>r. if w_id r = i \<and> w_repoId r = repo
            then r\<lparr>w_heartbeatAt := w_heartbeatAt (heartbeatWorker w now)\<rparr> else r) tbl))"

definition deregister :: "worker_table \<Rightarrow> ident \<Rightarrow> worker_table" where
  "deregister tbl i = filter (\<lambda>r. w_id r \<noteq> i) tbl"

datatype worker_op =
    Register worker
  | Worker_heartbeat ident ident time
  | Mark_busy ident ident
  | Mark_idle ident ident
  | Mark_stopping ident ident
  | Mark_unhealthy ident ident
  | Deregister ident

fun apply_worker_op :: "worker_op \<Rightarrow> worker_table \<Rightarrow> ident + worker_table" where
  "apply_worker_op (Register w) tbl = Inr (register tbl w)"
| "apply_worker_op (Worker_heartbeat i r now) tbl = heartbeatInRegistry tbl i r now"
| "apply_worker_op (Mark_busy i r) tbl = updateStatus tbl i r markWorkerBusy"
| "apply_worker_op (Mark_idle i r) tbl = updateStatus tbl i r markWorkerIdle"
| "apply_worker_op (Mark_stopping i r) tbl = updateStatus tbl i r markWorkerStopping"
| "apply_worker_op (Mark_unhealthy i r) tbl = updateStatus tbl i r markWorkerUnhealthy"
| "apply_worker_op (Deregister i) tbl = Inr (deregister tbl i)"

definition exec_worker_op :: "worker_op \<Rightarrow> worker_table \<Rightarrow> worker_table" where
  "exec_worker_op op tbl = (case apply_worker_op op tbl of Inl _ \<Rightarrow> tbl | Inr tbl' \<Rightarrow> tbl')"

definition workers_distinct :: "worker_table \<Rightarrow> bool" where
  "workers_distinct tbl \<longleftrightarrow> distinct (map w_id tbl)"

lemma map_id_update: "(\<And>r. w_id (f r) = w_id r) \<Longrightarrow> map w_id (map f tbl) = map w_id tbl"
  by simp

lemma updateStatus_InrD:
  "updateStatus tbl i repo fn = Inr tbl' \<Longrightarrow>
   \<exists>w \<in> set tbl. w_id w = i \<and> w_repoId w = repo \<and>
     tbl' = map (\<lambda>r. if w_id r = i \<and> w_repoId r = repo then r\<lparr>w_status := w_status (fn w)\<rparr> else r) tbl"
  by (auto simp: updateStatus_def requireWorker_def findWorker_def
      split: sum.splits option.splits dest!: find_SomeD)

lemma updateStatus_ids: "updateStatus tbl i repo fn = Inr tbl' \<Longrightarrow> map w_id tbl' = map w_id tbl"
  by (drule updateStatus_InrD, elim bexE conjE) (simp only: map_id_update, simp add: map_id_update)

lemma heartbeat_ids: "heartbeatInRegistry tbl i repo now = Inr tbl' \<Longrightarrow> map w_id tbl' = map w_id tbl"
  by (auto simp: heartbeatInRegistry_def split: sum.splits)

lemma exec_worker_op_distinct:
  assumes "workers_distinct tbl"
  shows "workers_distinct (exec_worker_op op tbl)"
proof (cases "apply_worker_op op tbl")
  case (Inr tbl')
  have "workers_distinct tbl'"
  proof (cases op)
    case (Register w)
    have "map w_id (register tbl w) = (if list_ex (\<lambda>r. w_id r = w_id w) tbl then map w_id tbl
        else map w_id tbl @ [w_id w])"
      by (simp add: register_def)
    then show ?thesis using assms Inr Register
      by (auto simp: workers_distinct_def list_ex_iff split: if_split_asm)
  next
    case (Deregister i)
    then show ?thesis using assms Inr
      by (auto simp: workers_distinct_def deregister_def distinct_map_filter)
  qed (use assms Inr updateStatus_ids heartbeat_ids in \<open>auto simp: workers_distinct_def\<close>)
  then show ?thesis using Inr by (simp add: exec_worker_op_def)
qed (use assms in \<open>simp add: exec_worker_op_def\<close>)

text \<open>The operations that may put a worker back to work: a registration and \<open>markBusy\<close>.\<close>

definition reactivates :: "ident \<Rightarrow> worker_op \<Rightarrow> bool" where
  "reactivates i op = (case op of Register w \<Rightarrow> w_id w = i | Mark_busy j _ \<Rightarrow> j = i | _ \<Rightarrow> False)"

definition retired :: "ident \<Rightarrow> worker_table \<Rightarrow> bool" where
  "retired i tbl \<longleftrightarrow> (\<forall>r \<in> set tbl. w_id r = i \<longrightarrow> w_status r \<in> {WStopping, WUnhealthy})"

lemma retired_map:
  "retired i tbl \<Longrightarrow> (\<And>r. w_id (f r) = w_id r) \<Longrightarrow>
   (\<And>r. r \<in> set tbl \<Longrightarrow> w_id r = i \<Longrightarrow> w_status (f r) \<in> {w_status r, WStopping, WUnhealthy}) \<Longrightarrow>
   retired i (map f tbl)"
  by (fastforce simp: retired_def)

lemma updateStatus_retired:
  assumes "retired i tbl" and "updateStatus tbl j repo fn = Inr tbl'"
    and "\<And>w. w_status w \<in> {WStopping, WUnhealthy} \<Longrightarrow> w_status (fn w) \<in> {WStopping, WUnhealthy}"
  shows "retired i tbl'"
proof -
  obtain w where w: "w \<in> set tbl" "w_id w = j"
    and tbl': "tbl' = map (\<lambda>r. if w_id r = j \<and> w_repoId r = repo
        then r\<lparr>w_status := w_status (fn w)\<rparr> else r) tbl"
    using updateStatus_InrD [OF assms(2)] by blast
  have "w_status (fn w) \<in> {WStopping, WUnhealthy}" if "j = i"
    using assms(1,3) w that unfolding retired_def by blast
  then show ?thesis unfolding tbl' by (intro retired_map [OF assms(1)]) auto
qed

lemma exec_worker_op_retired:
  assumes "retired i tbl" and "\<not> reactivates i op"
  shows "retired i (exec_worker_op op tbl)"
proof (cases "apply_worker_op op tbl")
  case (Inr tbl')
  have "retired i tbl'"
  proof (cases op)
    case (Register w)
    then show ?thesis using assms Inr
      by (auto simp: retired_def reactivates_def register_def split: if_split_asm)
  next
    case (Worker_heartbeat j r now)
    then show ?thesis using assms Inr
      by (auto simp: heartbeatInRegistry_def split: sum.splits intro!: retired_map)
  next
    case (Mark_busy j r)
    then show ?thesis using assms Inr
      by (auto simp: retired_def reactivates_def dest!: updateStatus_InrD)
  qed (use assms Inr updateStatus_retired [OF assms(1)] in
      \<open>auto simp: markWorkerIdle_def markWorkerStopping_def markWorkerUnhealthy_def deregister_def
        retired_def\<close>)
  then show ?thesis using Inr by (simp add: exec_worker_op_def)
qed (use assms in \<open>simp add: exec_worker_op_def\<close>)

lemma fold_worker_op_retired:
  "retired i tbl \<Longrightarrow> \<forall>op \<in> set ops. \<not> reactivates i op \<Longrightarrow> retired i (fold exec_worker_op ops tbl)"
  by (induction ops arbitrary: tbl) (auto intro: exec_worker_op_retired)

lemma fold_worker_op_distinct:
  "workers_distinct tbl \<Longrightarrow> workers_distinct (fold exec_worker_op ops tbl)"
  by (induction ops arbitrary: tbl) (auto intro: exec_worker_op_distinct)

section \<open>Properties\<close>

definition sample_workers :: worker_table where
  "sample_workers = [(createWorker ''w'' ''repo'' ''h'' 1 0)\<lparr>w_status := WStopping\<rparr>,
     createWorker ''v'' ''repo'' ''h'' 2 0]"

text \<open>
  A worker that was told to stop, or found unhealthy, stays so: whatever is done to the
  registry, \<open>markIdle\<close> and heartbeats included, its status remains stopping or unhealthy until
  it registers again or is marked busy. The table keeps one row per worker id throughout.
\<close>

theorem stopping_worker_stays_retired:
  assumes "retired i tbl" and "workers_distinct tbl" and "\<forall>op \<in> set ops. \<not> reactivates i op"
  shows "retired i (fold exec_worker_op ops tbl) \<and> workers_distinct (fold exec_worker_op ops tbl)"
  using fold_worker_op_retired fold_worker_op_distinct assms by blast

theorem stopping_worker_stays_retired_witness:
  "retired ''w'' (fold exec_worker_op [Mark_idle ''w'' ''repo'', Mark_busy ''v'' ''repo''] sample_workers)"
proof -
  have "retired ''w'' sample_workers" "workers_distinct sample_workers"
    by (simp_all add: sample_workers_def retired_def workers_distinct_def createWorker_def)
  moreover have "\<forall>op \<in> set [Mark_idle ''w'' ''repo'', Mark_busy ''v'' ''repo'']. \<not> reactivates ''w'' op"
    by (simp add: reactivates_def)
  ultimately show ?thesis using stopping_worker_stays_retired by blast
qed

text \<open>
  \<open>markBusy\<close> is the gap: it puts a stopping worker to work and the \<open>markIdle\<close> after the
  job then makes it idle, so the stop is forgotten.
\<close>

theorem busy_forgets_stopping:
  assumes "findWorker tbl i repo = Some w" and "w_status w = WStopping"
  shows "\<exists>w'. findWorker (fold exec_worker_op [Mark_busy i repo, Mark_idle i repo] tbl) i repo = Some w' \<and>
    w_status w' = WIdle"
proof -
  let ?P = "\<lambda>r. w_id r = i \<and> w_repoId r = repo"
  let ?set = "\<lambda>s. map (\<lambda>r. if ?P r then r\<lparr>w_status := s\<rparr> else r)"
  have find: "findWorker (?set s t) i repo = map_option (\<lambda>r. r\<lparr>w_status := s\<rparr>) (findWorker t i repo)"
    for s t
    unfolding findWorker_def by (induction t) auto
  have busy: "exec_worker_op (Mark_busy i repo) tbl = ?set WBusy tbl"
    using assms(1)
    by (simp add: exec_worker_op_def updateStatus_def requireWorker_def markWorkerBusy_def)
  have "findWorker (?set WBusy tbl) i repo = Some (w\<lparr>w_status := WBusy\<rparr>)" by (simp add: find assms(1))
  then have "exec_worker_op (Mark_idle i repo) (?set WBusy tbl) = ?set WIdle (?set WBusy tbl)"
    by (simp add: exec_worker_op_def updateStatus_def requireWorker_def markWorkerIdle_def)
  then show ?thesis using assms(1) by (simp add: busy find del: map_map)
qed

theorem busy_forgets_stopping_witness:
  "\<exists>w'. findWorker (fold exec_worker_op [Mark_busy ''w'' ''repo'', Mark_idle ''w'' ''repo''] sample_workers)
      ''w'' ''repo'' = Some w' \<and> w_status w' = WIdle"
proof -
  have "findWorker sample_workers ''w'' ''repo'' =
      Some ((createWorker ''w'' ''repo'' ''h'' 1 0)\<lparr>w_status := WStopping\<rparr>)"
    by (simp add: sample_workers_def findWorker_def createWorker_def)
  then show ?thesis by (rule busy_forgets_stopping) simp
qed

end
