(* ===== verification/Coordinator.thy ===== *)
theory Coordinator
  imports Effects Batch_Store Run_Store Job_Queue Worker_Registry
begin

text \<open>
  The coordinator of release batches,
  \<^verbatim>\<open>packages/application/src/release-batch-coordinator.ts\<close>, over the models of the batch store,
  the runs table and the job queue. A method is a program of \<open>Effects\<close>: its stops are the
  exceptions of the code and the early returns of \<open>reconcile\<close>. This theory holds the state,
  the ports and the private methods that admit an item; \<open>Coordinator_Merge\<close> the ones that
  follow pull requests, \<open>Coordinator_Reconcile\<close> the method \<open>reconcile\<close> itself.
\<close>

section \<open>State\<close>

datatype action =
    Idle | Unblocked | Blocked | Approval_invalidated | Successor_admitted | Pr_attached
  | Build_completed | Job_recovered | Run_adopted | Item_merged | Maintenance_run
  | Candidate_captured | Promotion_pr_created | Source_drift_detected | Source_drift_integrated
  | Promotion_completed | Unrecognized_status | Unexpected_status

datatype note_type =
    Note_blocked | Note_awaiting_manual_test | Note_approval_stale | Note_promotion_blocked
  | Note_completed

record notification =
  nt_type :: note_type
  nt_batchId :: ident
  nt_repoId :: ident
  nt_releaseBranch :: string
  nt_candidateSha :: "string option"
  nt_sourceBranch :: "string option"
  nt_promotionPrNumber :: "int option"
  nt_reason :: "string option"

record co_tables =
  ct_batches :: batch_table
  ct_runs :: run_table
  ct_jobs :: job_table

text \<open>
  The tables, the number of awaited calls so far, what was published, and the local variables
  \<open>batch\<close> and \<open>actions\<close> of the running \<open>reconcile\<close>. A nested call takes the locals over: the
  only caller returns its result at once. An event is its type and the run it is filed under.
\<close>

record co_state =
  co_tables :: co_tables
  co_clock :: nat
  co_notes :: "notification list"
  co_bus :: "(string \<times> ident) list"
  co_eventRows :: "(string \<times> ident) list"
  co_batch :: release_batch
  co_actions :: "action list"

datatype co_exn =
    Batch_exn batch_error
  | Store_exn store_error
  | Run_exn run_error
  | Run_store_exn run_store_error
  | Job_exn job_error
  | External_exn string

datatype co_stop = Threw co_exn | Returned | Out_of_fuel

type_synonym 'a co = "(co_state, co_stop, 'a) prog"

section \<open>Ports\<close>

datatype pr_state = Pr_open | Pr_closed | Pr_merged

datatype ci_status = Ci_passed | Ci_failed | Ci_pending

record readiness =
  rd_state :: pr_state
  rd_isMerged :: bool
  rd_ciStatus :: ci_status
  rd_autoMergeEnabled :: "bool option"
  rd_baseRefName :: "string option"
  rd_mergeCommitSha :: "string option"

definition pr_is_merged :: "readiness \<Rightarrow> bool" where
  "pr_is_merged r \<longleftrightarrow> rd_isMerged r \<or> rd_state r = Pr_merged"

text \<open>
  The dependencies of the coordinator. Git, GitHub, the maintenance service and the resolution
  of pull requests answer as they like at each moment: the first argument is the number of the
  call, \<open>Inl\<close> a rejected promise. \<open>ce_meanwhile\<close> is what all other processes do to the tables
  during that call. Random identifiers are functions of the number too.
\<close>

record co_env =
  ce_now :: time
  ce_git :: bool
  ce_github :: bool
  ce_maintenance :: bool
  ce_findRepo :: "ident \<Rightarrow> repository option"
  ce_enabled :: "repository list"
  ce_fetch :: "nat \<Rightarrow> string \<Rightarrow> string + unit"
  ce_resolveRef :: "nat \<Rightarrow> string \<Rightarrow> string + string option"
  ce_isAncestor :: "nat \<Rightarrow> string \<Rightarrow> string \<Rightarrow> string + bool"
  ce_treeSha :: "nat \<Rightarrow> string \<Rightarrow> string + string option"
  ce_readiness :: "nat \<Rightarrow> int \<Rightarrow> string + readiness"
  ce_createPr :: "nat \<Rightarrow> release_batch \<Rightarrow> string \<Rightarrow> string + int"
  ce_refreshPr :: "nat \<Rightarrow> int \<Rightarrow> release_batch \<Rightarrow> string \<Rightarrow> string + unit"
  ce_mirror :: "(nat \<Rightarrow> string + unit) option"
  ce_maintain :: "nat \<Rightarrow> int \<Rightarrow> string + string option option"
  ce_resolvePr :: "(nat \<Rightarrow> run_record \<Rightarrow> string + int option) option"
  ce_executionPolicy :: "execution_policy option"
  ce_pinnedRuntime :: "string option"
  ce_runStore :: run_store
  ce_jobScope :: "ident option"
  ce_repoEnabled :: "ident \<Rightarrow> bool option"
  ce_pid :: int
  ce_newRunId :: "nat \<Rightarrow> int \<Rightarrow> ident \<times> ident"
  ce_newJobId :: "nat \<Rightarrow> ident"
  ce_meanwhile :: "nat \<Rightarrow> co_tables \<Rightarrow> co_tables"

text \<open>An awaited call of a port: the others run, the clock ticks, the answer arrives.\<close>

definition extern :: "co_env \<Rightarrow> (nat \<Rightarrow> string + 'a) \<Rightarrow> 'a co" where
  "extern env f = bnd (ask co_clock) (\<lambda>n.
     sq (tell (\<lambda>s. s\<lparr>co_tables := ce_meanwhile env n (co_tables s), co_clock := n + 1\<rparr>))
        (lift (case f n of Inl e \<Rightarrow> Inl (Threw (External_exn e)) | Inr x \<Rightarrow> Inr x)))"

definition fetch :: "co_env \<Rightarrow> string \<Rightarrow> unit co" where
  "fetch env branch = extern env (\<lambda>n. ce_fetch env n branch)"

definition resolveRef :: "co_env \<Rightarrow> string \<Rightarrow> string option co" where
  "resolveRef env branch = extern env (\<lambda>n. ce_resolveRef env n branch)"

text \<open>\<open>try ... catch\<close>; a return in the middle of the block is no exception.\<close>

definition attempt :: "'a co \<Rightarrow> (co_exn + 'a) co" where
  "attempt m = catch m (\<lambda>e. case e of Threw x \<Rightarrow> Some (Inl x) | _ \<Rightarrow> None) Inr"

definition attempt_quietly :: "'a co \<Rightarrow> unit co" where
  "attempt_quietly m = sq (attempt m) (ret ())"

definition exn_message :: "co_exn \<Rightarrow> string" where
  "exn_message e = (case e of External_exn m \<Rightarrow> m | _ \<Rightarrow> ''error'')"

definition throw :: "co_exn \<Rightarrow> 'a co" where
  "throw e = stop (Threw e)"

definition dom_call :: "batch_error + 'a \<Rightarrow> 'a co" where
  "dom_call r = lift (case r of Inl e \<Rightarrow> Inl (Threw (Batch_exn e)) | Inr x \<Rightarrow> Inr x)"

section \<open>Tables and locals\<close>

definition on_batches :: "(batch_table \<Rightarrow> batch_table) \<Rightarrow> co_state \<Rightarrow> co_state" where
  "on_batches f s = s\<lparr>co_tables := (co_tables s)\<lparr>ct_batches := f (ct_batches (co_tables s))\<rparr>\<rparr>"

definition on_runs :: "(run_table \<Rightarrow> run_table) \<Rightarrow> co_state \<Rightarrow> co_state" where
  "on_runs f s = s\<lparr>co_tables := (co_tables s)\<lparr>ct_runs := f (ct_runs (co_tables s))\<rparr>\<rparr>"

definition on_jobs :: "(job_table \<Rightarrow> job_table) \<Rightarrow> co_state \<Rightarrow> co_state" where
  "on_jobs f s = s\<lparr>co_tables := (co_tables s)\<lparr>ct_jobs := f (ct_jobs (co_tables s))\<rparr>\<rparr>"

text \<open>\<open>releaseBatchRepository.update\<close>.\<close>

definition save :: "release_batch \<Rightarrow> unit co" where
  "save b = bnd (ask (\<lambda>s. updateBatch (ct_batches (co_tables s)) b)) (\<lambda>r. case r of
     Inl e \<Rightarrow> throw (Store_exn e)
   | Inr tbl \<Rightarrow> tell (on_batches (\<lambda>_. tbl)))"

definition find_run :: "co_env \<Rightarrow> ident option \<Rightarrow> run_record option co" where
  "find_run env u = ask (\<lambda>s. case u of None \<Rightarrow> None
     | Some uuid \<Rightarrow> findRunByUuid (ce_runStore env) (ct_runs (co_tables s)) uuid)"

definition update_run :: "ident \<Rightarrow> run_patch \<Rightarrow> unit co" where
  "update_run uuid p = tell (on_runs (\<lambda>tbl. updateRun tbl uuid p))"

definition set_batch :: "release_batch \<Rightarrow> unit co" where
  "set_batch b = tell (\<lambda>s. s\<lparr>co_batch := b\<rparr>)"

definition push :: "action list \<Rightarrow> unit co" where
  "push xs = tell (\<lambda>s. s\<lparr>co_actions := co_actions s @ xs\<rparr>)"

text \<open>The early returns of \<open>reconcile\<close>: with the collected actions, or with \<open>['idle']\<close>.\<close>

definition returned :: "'a co" where
  "returned = stop Returned"

definition return_actions :: "action list \<Rightarrow> 'a co" where
  "return_actions xs = sq (tell (\<lambda>s. s\<lparr>co_actions := xs\<rparr>)) returned"

definition set_save :: "release_batch \<Rightarrow> unit co" where
  "set_save b = sq (set_batch b) (save b)"

section \<open>Notifications and events\<close>

text \<open>The extra fields override the ones of the batch.\<close>

definition dispatchNotification ::
  "release_batch \<Rightarrow> note_type \<Rightarrow> string option \<Rightarrow> int option \<Rightarrow> string option \<Rightarrow> unit co" where
  "dispatchNotification b ty candidateSha prNumber reason = tell (\<lambda>s. s\<lparr>co_notes := co_notes s @
     [\<lparr>nt_type = ty, nt_batchId = b_id b, nt_repoId = b_repoId b, nt_releaseBranch = b_releaseBranch b,
       nt_candidateSha = coalesce candidateSha (b_candidateSha b),
       nt_sourceBranch = Some (b_sourceBranch b),
       nt_promotionPrNumber = coalesce prNumber (b_promotionPrNumber b),
       nt_reason = coalesce reason (b_blockedReason b)\<rparr>]\<rparr>)"

text \<open>
  \<open>publishEvent\<close>: the run named in the metadata, else the last run of the batch; without any
  the bus uses the id of the batch and no row is written.
\<close>

definition event_run :: "release_batch \<Rightarrow> ident option \<Rightarrow> ident option" where
  "event_run b metaRun = coalesce metaRun
     (case List.find (\<lambda>i. bi_runUuid i \<noteq> None) (rev (b_items b)) of
        None \<Rightarrow> None | Some i \<Rightarrow> bi_runUuid i)"

definition publishEvent :: "release_batch \<Rightarrow> string \<Rightarrow> ident option \<Rightarrow> unit co" where
  "publishEvent b ty metaRun = tell (\<lambda>s. s\<lparr>
     co_bus := co_bus s @ [(ty, case event_run b metaRun of None \<Rightarrow> b_id b | Some u \<Rightarrow> u)],
     co_eventRows := co_eventRows s @
       (if truthy (event_run b metaRun) then [(ty, the (event_run b metaRun))] else [])\<rparr>)"

definition blockBatchAndNotify :: "release_batch \<Rightarrow> string \<Rightarrow> note_type \<Rightarrow> release_batch co" where
  "blockBatchAndNotify b reason ty =
     (let prevBlocked = (b_status b = BBlocked \<and> b_blockedReason b = Some reason) in
      bnd (dom_call (markBatchBlocked b reason)) (\<lambda>updated.
        sq (only_if (\<not> prevBlocked) (dispatchNotification updated ty None None (Some reason)))
           (ret updated)))"

definition item_at :: "release_batch \<Rightarrow> int \<Rightarrow> batch_item option" where
  "item_at b position = List.find (\<lambda>i. bi_position i = position) (b_items b)"

definition blockItemAndNotify :: "release_batch \<Rightarrow> int \<Rightarrow> string \<Rightarrow> release_batch co" where
  "blockItemAndNotify b position reason =
     (let item = item_at b position;
          prevBlocked = ((b_status b = BBlocked \<or> (\<exists>i \<in> set_option item. bi_status i = IBlocked)) \<and>
            (b_blockedReason b = Some reason \<or> (\<exists>i \<in> set_option item. bi_blockedReason i = Some reason)))
      in bnd (dom_call (markItemBlocked b position reason)) (\<lambda>updated.
        sq (only_if (\<not> prevBlocked) (dispatchNotification updated Note_blocked None None (Some reason)))
           (ret updated)))"

section \<open>Admission\<close>

definition resolveBaseShaForPosition :: "release_batch \<Rightarrow> int \<Rightarrow> string option" where
  "resolveBaseShaForPosition b position =
     (if position = 1 then Some (b_sourceStartSha b)
      else case item_at b (position - 1) of
        None \<Rightarrow> None
      | Some prev \<Rightarrow> if truthy (bi_mergedCommitSha prev) then bi_mergedCommitSha prev else None)"

definition findMatchingRun :: "run_table \<Rightarrow> ident \<Rightarrow> int \<Rightarrow> string \<Rightarrow> run_record option" where
  "findMatchingRun runs repo issue branch =
     (case findByIssueNumber runs (Some repo) issue of
        None \<Rightarrow> None
      | Some r \<Rightarrow> if r_baseBranch r = Some branch then Some r else None)"

definition active_job :: "ident \<Rightarrow> job \<Rightarrow> bool" where
  "active_job uuid j \<longleftrightarrow> j_runId j = uuid \<and> j_status j \<in> {JQueued, JClaimed, JRunning}"

definition ensureJobEnqueued :: "co_env \<Rightarrow> ident \<Rightarrow> ident \<Rightarrow> int \<Rightarrow> bool co" where
  "ensureJobEnqueued env repo uuid issue = bnd (ask id) (\<lambda>s.
     if list_ex (active_job uuid) (listForRepo (ce_jobScope env) (ct_jobs (co_tables s)) repo)
     then ret False
     else let job = createJob \<lparr>ji_id = ce_newJobId env (co_clock s), ji_runId = uuid, ji_repoId = repo,
            ji_issueNumber = issue, ji_priority = Some 0, ji_createdAt = ce_now env,
            ji_resumeDisposition = None\<rparr>
       in case enqueue (ce_repoEnabled env) (ct_jobs (co_tables s)) job of
          Inl e \<Rightarrow> throw (Job_exn e)
        | Inr jobs \<Rightarrow> sq (tell (on_jobs (\<lambda>_. jobs))) (ret True))"

text \<open>The run of the item: a matching one is adopted, else one is created.\<close>

definition inherited_runtime :: "co_env \<Rightarrow> release_batch \<Rightarrow> co_state \<Rightarrow> string option" where
  "inherited_runtime env b s =
     (if truthy (ce_pinnedRuntime env) then ce_pinnedRuntime env
      else case List.find (\<lambda>i. truthy (bi_runUuid i)) (b_items b) of
        None \<Rightarrow> ce_pinnedRuntime env
      | Some prior \<Rightarrow>
          (case findRunByUuid (ce_runStore env) (ct_runs (co_tables s)) (the (bi_runUuid prior)) of
             None \<Rightarrow> None | Some r \<Rightarrow> r_pinnedRuntime r))"

definition adopt_or_create :: "co_env \<Rightarrow> release_batch \<Rightarrow> batch_item \<Rightarrow> ident co" where
  "adopt_or_create env b item = bnd (ask id) (\<lambda>s.
     case findMatchingRun (ct_runs (co_tables s)) (b_repoId b) (bi_issueNumber item) (b_releaseBranch b) of
       Some existing \<Rightarrow> sq (push [Run_adopted]) (ret (r_uuid existing))
     | None \<Rightarrow>
       let (uuid, displayId) = ce_newRunId env (co_clock s) (bi_issueNumber item);
           runtime = inherited_runtime env b s
       in case createRun \<lparr>ri_uuid = uuid, ri_displayId = displayId, ri_repoId = b_repoId b,
             ri_issueNumber = bi_issueNumber item, ri_startedAt = ce_now env, ri_type = None,
             ri_baseBranch = Some (b_releaseBranch b),
             ri_executionPolicy = coalesce (ce_executionPolicy env) (Some Standard),
             ri_pinnedRuntime = (if truthy runtime then runtime else None)\<rparr> of
          Inl e \<Rightarrow> throw (Run_exn e)
        | Inr run \<Rightarrow>
          (case insertIfNoActive (ce_runStore env) (ct_runs (co_tables s)) (record_of_run run) (ce_pid env) of
             Inr runs \<Rightarrow> sq (tell (on_runs (\<lambda>_. runs))) (ret uuid)
           | Inl e \<Rightarrow>
             (case findMatchingRun (ct_runs (co_tables s)) (b_repoId b) (bi_issueNumber item)
                     (b_releaseBranch b) of
                Some conflict \<Rightarrow> sq (push [Run_adopted]) (ret (r_uuid conflict))
              | None \<Rightarrow> throw (Run_store_exn e))))"

definition admitSuccessor ::
  "co_env \<Rightarrow> release_batch \<Rightarrow> batch_item \<Rightarrow> string option \<Rightarrow> release_batch co" where
  "admitSuccessor env b item explicitBaseSha =
     bnd (adopt_or_create env b item) (\<lambda>uuid.
     bnd (ensureJobEnqueued env (b_repoId b) uuid (bi_issueNumber item)) (\<lambda>recovered.
     sq (only_if recovered (push [Job_recovered]))
     (let baseSha = coalesce explicitBaseSha (coalesce (bi_baseSha item)
            (resolveBaseShaForPosition b (bi_position item)))
      in if \<not> truthy baseSha then throw (Batch_exn (ReleaseBatchStateError ''baseSha''))
         else if bi_position item > 1 \<and> baseSha = Some (b_sourceStartSha b)
         then throw (Batch_exn (ReleaseBatchStateError ''sourceStartSha''))
         else
           sq (update_run uuid (empty_patch\<lparr>rp_startCommitSha := baseSha\<rparr>))
           (bnd (dom_call (admitItem b (bi_position item) (Some uuid) baseSha (ce_now env))) (\<lambda>updated.
            sq (save updated)
            (sq (push [Successor_admitted])
            (sq (publishEvent updated ''release_batch.item_admitted'' (Some uuid))
                (ret updated))))))))"

end
