(* ===== verification/Coordinator_Merge.thy ===== *)
theory Coordinator_Merge
  imports Coordinator
begin

text \<open>
  The methods of the coordinator that follow pull requests: the promotion pull request and its
  merge, the metadata and the merge of the pull request of an item. \<open>rec\<close> is \<open>reconcile\<close>, which
  \<open>certifyItemMerged\<close> calls at its end.
\<close>

section \<open>The promotion pull request\<close>

text \<open>
  The catch block keeps the batch with the recorded number even when writing it failed.
  \<open>ce_createPr\<close> covers the text assembled for the pull request and the call that creates it.
\<close>

definition ensurePromotionPr :: "co_env \<Rightarrow> release_batch \<Rightarrow> string \<Rightarrow> release_batch co" where
  "ensurePromotionPr env b candidateSha =
     (if truthy_int (b_promotionPrNumber b) then
        sq (only_if (ce_github env \<and> ce_findRepo env (b_repoId b) \<noteq> None)
              (attempt_quietly (extern env (\<lambda>n. ce_refreshPr env n (the (b_promotionPrNumber b)) b candidateSha))))
           (ret b)
      else if \<not> ce_github env then ret b
      else if ce_findRepo env (b_repoId b) = None then ret b
      else bnd (attempt (bnd (extern env (\<lambda>n. ce_createPr env n b candidateSha)) (\<lambda>number.
              sq (case ce_mirror env of None \<Rightarrow> ret () | Some f \<Rightarrow> attempt_quietly (extern env f))
                 (dom_call (recordPromotionPr b number))))) (\<lambda>r. case r of
             Inl _ \<Rightarrow> ret b
           | Inr b' \<Rightarrow>
               sq (attempt_quietly (sq (save b') (sq (push [Promotion_pr_created])
                     (publishEvent b' ''release_batch.promotion_pr_created'' None))))
                  (ret b')))"

definition isPromotionRecoveryEligible :: "co_env \<Rightarrow> release_batch \<Rightarrow> bool" where
  "isPromotionRecoveryEligible env b \<longleftrightarrow>
     b_status b = BBlocked \<and> truthy (b_blockedReason b) \<and>
     (starts_with ''promotion_ci_failed'' (b_blockedReason b) \<or>
      starts_with ''promotion_tree_mismatch'' (b_blockedReason b)) \<and>
     b_items b \<noteq> [] \<and> list_all (\<lambda>i. bi_status i = IMerged) (b_items b) \<and>
     b_promotionPrNumber b \<noteq> None \<and> ce_github env \<and> ce_findRepo env (b_repoId b) \<noteq> None \<and>
     truthy (b_candidateSha b) \<and> truthy (b_approvedCandidateSha b) \<and>
     b_approvedCandidateSha b = b_candidateSha b \<and>
     (starts_with ''promotion_tree_mismatch'' (b_blockedReason b) \<longrightarrow>
        ce_git env \<and> truthy (b_candidateTreeSha b))"

text \<open>\<open>{ ...unblocked, status }\<close>, the writes that go around the domain functions.\<close>

definition resume_as :: "batch_status \<Rightarrow> release_batch \<Rightarrow> release_batch" where
  "resume_as st b = b\<lparr>b_blockedReason := None, b_status := st\<rparr>"

definition block_promotion :: "release_batch \<Rightarrow> string \<Rightarrow> 'a co" where
  "block_promotion b reason = bnd (blockBatchAndNotify b reason Note_promotion_blocked) (\<lambda>b'.
     sq (set_save b') (sq (push [Blocked]) returned))"

text \<open>
  The verification of a merged promotion: the tip of the source branch has to contain the
  approved commit or to have the tree of the candidate. Without git there is no verification.
\<close>

definition approved_sha :: "release_batch \<Rightarrow> string" where
  "approved_sha b = (case b_approvedCandidateSha b of None \<Rightarrow> ''undefined'' | Some a \<Rightarrow> a)"

definition check_promoted :: "co_env \<Rightarrow> release_batch \<Rightarrow> string \<Rightarrow> unit co" where
  "check_promoted env b tip =
     bnd (extern env (\<lambda>n. ce_isAncestor env n (approved_sha b) tip)) (\<lambda>contained.
       if contained then ret ()
       else if truthy (b_candidateTreeSha b)
       then bnd (extern env (\<lambda>n. ce_treeSha env n tip)) (\<lambda>tree.
              if tree \<noteq> b_candidateTreeSha b then block_promotion b ''promotion_tree_mismatch''
              else ret ())
       else block_promotion b ''promotion_tree_mismatch'')"

definition verify_promotion :: "co_env \<Rightarrow> release_batch \<Rightarrow> string option co" where
  "verify_promotion env b =
     (if \<not> ce_git env then ret None
      else sq (fetch env (b_sourceBranch b)) (bnd (resolveRef env (b_sourceBranch b)) (\<lambda>source.
        if \<not> truthy source then returned
        else bnd (check_promoted env b (the source)) (\<lambda>_. ret source))))"

definition finish_promotion :: "co_env \<Rightarrow> release_batch \<Rightarrow> string option \<Rightarrow> unit co" where
  "finish_promotion env b promoSha =
     bnd (if truthy promoSha then dom_call (recordPromotionCommit b (the promoSha)) else ret b) (\<lambda>b1.
     sq (set_batch b1)
     (let b2 = (if b_status b1 = BBlocked then resume_as BPromoting b1 else b1) in
     sq (set_batch b2)
     (bnd (dom_call (completeBatch b2 (ce_now env))) (\<lambda>b3.
     sq (set_save b3)
     (sq (dispatchNotification b3 Note_completed promoSha None None)
     (sq (push [Promotion_completed])
     (sq (publishEvent b3 ''release_batch.completed'' None) returned)))))))"

definition reconcilePromotionReadiness :: "co_env \<Rightarrow> unit co" where
  "reconcilePromotionReadiness env = bnd (ask co_batch) (\<lambda>b.
     if ce_findRepo env (b_repoId b) = None \<or> \<not> truthy_int (b_promotionPrNumber b) \<or> \<not> ce_github env
     then returned
     else let pr = the (b_promotionPrNumber b) in
       sq (attempt_quietly (bnd (extern env (\<lambda>n. ce_readiness env n pr)) (\<lambda>r.
             if pr_is_merged r then
               bnd (verify_promotion env b) (\<lambda>source.
                 let promo = coalesce (b_promotionCommitSha b) (rd_mergeCommitSha r)
                 in finish_promotion env b (if truthy source \<and> \<not> truthy promo then source else promo))
             else if rd_state r = Pr_closed then
               block_promotion b (if b_status b = BBlocked \<and> truthy (b_blockedReason b)
                 then the (b_blockedReason b)
                 else ''pr_closed_unmerged: PR #'' @ show_int pr @ '' closed without merge'')
             else if rd_ciStatus r = Ci_failed then
               block_promotion b (''promotion_ci_failed: PR #'' @ show_int pr @ '' CI checks failed'')
             else if b_status b = BBlocked then set_save (resume_as BPromoting b)
             else ret ())))
          returned)"

section \<open>The pull request of an item\<close>

definition tryAttachPrMetadata ::
  "co_env \<Rightarrow> release_batch \<Rightarrow> batch_item \<Rightarrow> run_record \<Rightarrow> (release_batch \<times> int) option co" where
  "tryAttachPrMetadata env b item run =
     (if truthy_int (bi_prNumber item) then ret None
      else case ce_resolvePr env of
        None \<Rightarrow> ret None
      | Some f \<Rightarrow>
          bnd (attempt (bnd (extern env (\<lambda>n. f n run)) (\<lambda>meta.
                 if truthy_int meta
                 then bnd (dom_call (attachItemPr b (bi_position item) (the meta))) (\<lambda>b'.
                        sq (save b') (ret (Some (b', the meta))))
                 else ret None)))
            (\<lambda>r. ret (case r of Inl _ \<Rightarrow> None | Inr x \<Rightarrow> x)))"

text \<open>The run of a merged item is passed, whatever its own status says.\<close>

definition pass_run :: "co_env \<Rightarrow> ident option \<Rightarrow> time \<Rightarrow> unit co" where
  "pass_run env uuid at =
     (if \<not> truthy uuid then ret ()
      else bnd (find_run env uuid) (\<lambda>r. case r of
          None \<Rightarrow> ret ()
        | Some run \<Rightarrow> only_if (r_status run \<noteq> RPassed) (update_run (the uuid)
            (empty_patch\<lparr>rp_status := Some RPassed, rp_currentPhase := Some None,
               rp_completedAt := Some (Some at)\<rparr>))))"

definition completed_or :: "batch_item \<Rightarrow> time \<Rightarrow> time" where
  "completed_or item now = (case bi_completedAt item of None \<Rightarrow> now | Some t \<Rightarrow> t)"

definition certifyItemMerged ::
  "co_env \<Rightarrow> (ident \<Rightarrow> unit co) \<Rightarrow> ident \<Rightarrow> int \<Rightarrow> string \<Rightarrow> time \<Rightarrow> unit co" where
  "certifyItemMerged env rec bid position mergedSha now =
     bnd (ask (\<lambda>s. findBatch (ct_batches (co_tables s)) bid)) (\<lambda>found. case found of
       None \<Rightarrow> throw (Batch_exn (ReleaseBatchStateError ''batch not found''))
     | Some b \<Rightarrow>
       (case item_at b position of
          None \<Rightarrow> throw (Batch_exn (ReleaseBatchStateError ''position not found''))
        | Some item \<Rightarrow>
          if bi_status item = IMerged \<and> bi_mergedCommitSha item = Some mergedSha
          then sq (pass_run env (bi_runUuid item) (completed_or item now)) (rec bid)
          else bnd (dom_call (markItemMerged b position mergedSha now)) (\<lambda>b'.
            sq (save b')
            (sq (pass_run env (bi_runUuid item) now)
            (sq (publishEvent b' ''release_batch.item_merged'' (bi_runUuid item))
                (rec bid))))))"

definition block_item_for :: "release_batch \<Rightarrow> batch_item \<Rightarrow> string \<Rightarrow> unit co" where
  "block_item_for b item reason =
     only_if (bi_status item \<noteq> IBlocked \<or> bi_blockedReason item \<noteq> Some reason)
       (bnd (blockItemAndNotify b (bi_position item) reason) (\<lambda>b'.
          sq (set_save b') (sq (push [Blocked])
            (publishEvent b' ''release_batch.blocked'' (bi_runUuid item)))))"

text \<open>The four reasons for which an open or closed pull request blocks its item.\<close>

definition pr_blocker :: "release_batch \<Rightarrow> readiness \<Rightarrow> int \<Rightarrow> string option" where
  "pr_blocker b r pr =
     (if truthy (rd_baseRefName r) \<and> rd_baseRefName r \<noteq> Some (b_releaseBranch b)
      then Some (''pr_base_mismatch: PR #'' @ show_int pr @ '' base is '' @ the (rd_baseRefName r) @
             '', expected '' @ b_releaseBranch b)
      else if rd_state r = Pr_closed \<and> \<not> rd_isMerged r
      then Some (''pr_closed_unmerged: PR #'' @ show_int pr @ '' closed without merge'')
      else if rd_autoMergeEnabled r = Some False \<and> \<not> pr_is_merged r
      then Some (''auto_merge_unavailable: PR #'' @ show_int pr @ '' does not have auto-merge enabled'')
      else if rd_ciStatus r = Ci_failed \<and> \<not> pr_is_merged r
      then Some (''ci_failed: PR #'' @ show_int pr @ '' CI checks failed'')
      else None)"

definition isPrBlocker :: "batch_item \<Rightarrow> bool" where
  "isPrBlocker item \<longleftrightarrow> bi_status item = IBlocked \<and>
     (starts_with ''ci_failed'' (bi_blockedReason item) \<or>
      starts_with ''auto_merge_unavailable'' (bi_blockedReason item) \<or>
      starts_with ''pr_base_mismatch'' (bi_blockedReason item))"

text \<open>The commit a merge is certified with: the tip of the release branch where git knows it.\<close>

definition merged_commit :: "co_env \<Rightarrow> release_batch \<Rightarrow> readiness \<Rightarrow> string co" where
  "merged_commit env b r =
     bnd (if ce_git env \<and> ce_findRepo env (b_repoId b) \<noteq> None
          then bnd (attempt (sq (fetch env (b_releaseBranch b)) (resolveRef env (b_releaseBranch b))))
                 (\<lambda>x. ret (case x of Inl _ \<Rightarrow> None | Inr sha \<Rightarrow> sha))
          else ret None)
       (\<lambda>remote. ret (if truthy remote then the remote
          else if truthy (rd_mergeCommitSha r) then the (rd_mergeCommitSha r)
          else case rd_mergeCommitSha r of None \<Rightarrow> ''unknown-merge-sha'' | Some m \<Rightarrow> m))"

definition mark_waiting :: "release_batch \<Rightarrow> int \<Rightarrow> int \<Rightarrow> ident option \<Rightarrow> unit co" where
  "mark_waiting b position pr metaRun =
     bnd (dom_call (markItemWaitingMerge b position pr)) (\<lambda>b'.
       sq (set_save b') (sq (push [Pr_attached])
         (publishEvent b' ''release_batch.item_waiting_merge'' metaRun)))"

definition unblock_item :: "release_batch \<Rightarrow> int \<Rightarrow> unit co" where
  "unblock_item b position = bnd (dom_call (unblockItem b position)) (\<lambda>b'.
     sq (set_save b') (push [Unblocked]))"

definition checkAndReconcilePrMerge ::
  "co_env \<Rightarrow> (ident \<Rightarrow> unit co) \<Rightarrow> int \<Rightarrow> int \<Rightarrow> unit co" where
  "checkAndReconcilePrMerge env rec position pr = bnd (ask co_batch) (\<lambda>b.
     if \<not> ce_github env \<or> ce_findRepo env (b_repoId b) = None then ret ()
     else bnd (attempt (extern env (\<lambda>n. ce_readiness env n pr))) (\<lambda>answer. case answer of
       Inl _ \<Rightarrow> ret ()
     | Inr r \<Rightarrow>
       (case item_at b position of
          None \<Rightarrow> ret ()
        | Some item \<Rightarrow>
          (case pr_blocker b r pr of
             Some reason \<Rightarrow> block_item_for b item reason
           | None \<Rightarrow>
             sq (only_if (isPrBlocker item)
                  (sq (unblock_item b position) (bnd (ask co_batch) (\<lambda>b'.
                     publishEvent b' ''release_batch.unblocked'' (bi_runUuid item)))))
             (bnd (ask co_batch) (\<lambda>b1.
             if pr_is_merged r then
               bnd (merged_commit env b1 r) (\<lambda>sha. certifyItemMerged env rec (b_id b1) position sha (ce_now env))
             else if rd_state r = Pr_open then
               (case item_at b1 position of
                  None \<Rightarrow> ret ()
                | Some updated \<Rightarrow> only_if (bi_status updated = IActive)
                    (mark_waiting b1 position pr (bi_runUuid updated)))
             else ret ()))))))"

end
