(* ===== verification/Coordinator_Reconcile.thy ===== *)
theory Coordinator_Reconcile
  imports Coordinator_Merge
begin

text \<open>
  The method \<open>reconcile\<close> of the coordinator, stage by stage: a batch with every item merged is
  captured, watched for drift and promoted; otherwise the first unmerged item is admitted or
  follows its run. Each stage ends with an early return or falls through as the code does.
\<close>

section \<open>All items merged\<close>

definition capture_candidate :: "co_env \<Rightarrow> unit co" where
  "capture_candidate env = bnd (ask co_batch) (\<lambda>b.
     sq (fetch env (b_releaseBranch b))
     (sq (fetch env (b_sourceBranch b))
     (bnd (resolveRef env (b_releaseBranch b)) (\<lambda>release.
      bnd (resolveRef env (b_sourceBranch b)) (\<lambda>source.
      if \<not> truthy release \<or> \<not> truthy source then ret ()
      else bnd (extern env (\<lambda>n. ce_isAncestor env n (the source) (the release))) (\<lambda>contained.
        if \<not> contained then
          bnd (blockBatchAndNotify b ''source_branch_advanced'' Note_blocked) (\<lambda>b'.
            sq (set_save b')
            (sq (push [Blocked, Source_drift_detected])
            (sq (publishEvent b' ''release_batch.source_drift_detected'' None) returned)))
        else bnd (extern env (\<lambda>n. ce_treeSha env n (the release))) (\<lambda>tree.
          bnd (dom_call (transitionToAwaitingManualTest b (the release) tree None)) (\<lambda>b1.
          sq (set_save b1)
          (sq (push [Candidate_captured])
          (sq (publishEvent b1 ''release_batch.candidate_captured'' None)
          (bnd (ensurePromotionPr env b1 (the release)) (\<lambda>b2.
          sq (set_batch b2)
          (sq (dispatchNotification b2 Note_awaiting_manual_test release (b_promotionPrNumber b2) None)
            returned)))))))))))))"

text \<open>The maintenance after an item; \<open>Some reason\<close> is its failure.\<close>

definition maintain :: "co_env \<Rightarrow> batch_item \<Rightarrow> string option co" where
  "maintain env item = bnd (extern env (\<lambda>n. ce_maintain env n (bi_issueNumber item))) (\<lambda>r.
     ret (map_option (\<lambda>reason. case reason of None \<Rightarrow> ''environment_unhealthy'' | Some x \<Rightarrow> x) r))"

definition building_stage :: "co_env \<Rightarrow> unit co" where
  "building_stage env = bnd (ask co_batch) (\<lambda>b.
     sq (push [Build_completed])
     (sq (publishEvent b ''release_batch.build_stage_completed'' None)
     (sq (only_if (ce_maintenance env \<and> b_items b \<noteq> [] \<and> ce_findRepo env (b_repoId b) \<noteq> None)
           (bnd (maintain env (last (b_items b))) (\<lambda>failure. case failure of
              None \<Rightarrow> push [Maintenance_run]
            | Some reason \<Rightarrow> bnd (blockBatchAndNotify b reason Note_blocked) (\<lambda>b'.
                sq (set_save b') (sq (push [Blocked]) returned)))))
     (sq (only_if (ce_git env \<and> ce_findRepo env (b_repoId b) \<noteq> None)
           (attempt_quietly (capture_candidate env)))
         returned))))"

definition invalidate :: "release_batch \<Rightarrow> string \<Rightarrow> bool \<Rightarrow> action list \<Rightarrow> unit co" where
  "invalidate b reason isApproved further =
     bnd (blockBatchAndNotify b reason (if isApproved then Note_approval_stale else Note_blocked)) (\<lambda>b'.
       sq (set_save b')
       (sq (only_if isApproved (push [Approval_invalidated]))
       (sq (push (Blocked # further)) returned)))"

text \<open>
  The commit of the promotion as GitHub reports it, recorded when it is new. The verified value
  survives an exception of the recording.
\<close>

definition verified_promotion_commit :: "co_env \<Rightarrow> string option \<Rightarrow> string option co" where
  "verified_promotion_commit env source = bnd (ask co_batch) (\<lambda>b.
     if (b_status b = BApproved \<or> b_status b = BPromoting) \<and> b_promotionPrNumber b \<noteq> None \<and> ce_github env
     then bnd (attempt (extern env (\<lambda>n. ce_readiness env n (the (b_promotionPrNumber b))))) (\<lambda>answer.
       case answer of
         Inl _ \<Rightarrow> ret None
       | Inr r \<Rightarrow>
         if \<not> pr_is_merged r then ret None
         else let resolved = coalesce (rd_mergeCommitSha r) source in
           if \<not> truthy resolved then ret None
           else sq (only_if (b_promotionCommitSha b \<noteq> resolved)
                     (attempt_quietly (bnd (dom_call (recordPromotionCommit b (the resolved))) set_save)))
                   (ret resolved))
     else ret None)"

definition check_drift :: "co_env \<Rightarrow> string \<Rightarrow> unit co" where
  "check_drift env candidateSha = bnd (ask co_batch) (\<lambda>b.
     sq (fetch env (b_releaseBranch b))
     (sq (fetch env (b_sourceBranch b))
     (bnd (resolveRef env (b_releaseBranch b)) (\<lambda>release.
      bnd (resolveRef env (b_sourceBranch b)) (\<lambda>source.
      let isApproved = (b_status b = BApproved) in
      if truthy release \<and> release \<noteq> Some candidateSha
      then invalidate b ''release_branch_drift'' isApproved []
      else bnd (verified_promotion_commit env source) (\<lambda>verified.
        if \<not> truthy source then ret ()
        else bnd (extern env (\<lambda>n. ce_isAncestor env n (the source) candidateSha)) (\<lambda>contained.
          bnd (ask co_batch) (\<lambda>b1.
          let owned = ((b_status b1 = BApproved \<or> b_status b1 = BPromoting) \<and>
            b_promotionPrNumber b1 \<noteq> None \<and> verified \<noteq> None \<and> source = verified) in
          if \<not> contained \<and> \<not> owned
          then invalidate b1 ''source_branch_advanced'' isApproved [Source_drift_detected]
          else ret ()))))))))"

definition all_merged_stage :: "co_env \<Rightarrow> unit co" where
  "all_merged_stage env = bnd (ask co_batch) (\<lambda>b.
     if b_status b = BBuilding then building_stage env
     else
       sq (only_if (b_status b \<in> {BAwaitingManualTest, BApproved, BPromoting})
         (sq (only_if (ce_git env \<and> ce_findRepo env (b_repoId b) \<noteq> None \<and> truthy (b_candidateSha b))
               (attempt_quietly (check_drift env (the (b_candidateSha b)))))
         (bnd (ask co_batch) (\<lambda>b1.
            only_if (b_status b1 = BAwaitingManualTest \<and> \<not> truthy_int (b_promotionPrNumber b1) \<and>
                truthy (b_candidateSha b1))
              (bnd (ensurePromotionPr env b1 (the (b_candidateSha b1))) set_batch)))))
       (bnd (ask co_batch) (\<lambda>b2.
          if (b_status b2 = BPromoting \<or> isPromotionRecoveryEligible env b2) \<and>
             truthy_int (b_promotionPrNumber b2) \<and> ce_github env
          then reconcilePromotionReadiness env
          else returned)))"

section \<open>The current item is pending\<close>

definition isEnvBlocker :: "release_batch \<Rightarrow> bool" where
  "isEnvBlocker b \<longleftrightarrow> starts_with ''environment_unhealthy'' (b_blockedReason b) \<or>
     starts_with ''Disk free space'' (b_blockedReason b) \<or>
     starts_with ''Available memory'' (b_blockedReason b)"

definition unblock_building :: "release_batch \<Rightarrow> unit co" where
  "unblock_building b = sq (set_save (resume_as BBuilding b)) (sq (push [Unblocked])
     (publishEvent (resume_as BBuilding b) ''release_batch.unblocked'' None))"

text \<open>A blocked batch whose next item is pending: retry what blocked it, or stay idle.\<close>

definition retry_blocked :: "co_env \<Rightarrow> release_batch \<Rightarrow> batch_item \<Rightarrow> unit co" where
  "retry_blocked env b item =
     (if isEnvBlocker b \<and> ce_maintenance env \<and> bi_position item > 1 then
        (case (ce_findRepo env (b_repoId b), item_at b (bi_position item - 1)) of
           (Some _, Some prior) \<Rightarrow> bnd (maintain env prior) (\<lambda>failure.
              if failure = None then unblock_building b else return_actions [Idle])
         | _ \<Rightarrow> return_actions [Idle])
      else if starts_with ''base_sha_unresolvable'' (b_blockedReason b) \<and> bi_position item > 1 then
        bnd (if ce_git env \<and> ce_findRepo env (b_repoId b) \<noteq> None
             then bnd (attempt (sq (fetch env (b_releaseBranch b)) (resolveRef env (b_releaseBranch b))))
                    (\<lambda>r. ret (case r of Inl _ \<Rightarrow> None | Inr sha \<Rightarrow> sha))
             else ret (resolveBaseShaForPosition b (bi_position item)))
          (\<lambda>sha. if truthy sha \<and> sha \<noteq> Some (b_sourceStartSha b) then unblock_building b
                  else return_actions [Idle])
      else return_actions [Idle])"

definition base_of :: "release_batch \<Rightarrow> batch_item \<Rightarrow> string option" where
  "base_of b item = coalesce (bi_baseSha item) (resolveBaseShaForPosition b (bi_position item))"

text \<open>The tip of the release branch; \<open>Inl\<close> is why it is not known.\<close>

definition release_tip :: "co_env \<Rightarrow> release_batch \<Rightarrow> (string + string) co" where
  "release_tip env b =
     bnd (attempt (sq (fetch env (b_releaseBranch b)) (resolveRef env (b_releaseBranch b)))) (\<lambda>r.
       ret (case r of
          Inl e \<Rightarrow> Inl (exn_message e)
        | Inr sha \<Rightarrow> if truthy sha then Inr (the sha)
            else Inl (''could not resolve ref origin/'' @ b_releaseBranch b)))"

definition block_batch_for :: "release_batch \<Rightarrow> string \<Rightarrow> bool \<Rightarrow> unit co" where
  "block_batch_for b reason announce = bnd (blockBatchAndNotify b reason Note_blocked) (\<lambda>b'.
     sq (set_save b') (sq (push [Blocked])
       (sq (only_if announce (publishEvent b' ''release_batch.blocked'' None)) returned)))"

definition pending_stage :: "co_env \<Rightarrow> batch_item \<Rightarrow> unit co" where
  "pending_stage env item = bnd (ask co_batch) (\<lambda>b.
     if list_ex (\<lambda>i. bi_position i < bi_position item \<and> bi_status i \<noteq> IMerged) (b_items b)
     then return_actions [Idle]
     else
     sq (only_if (b_status b = BBlocked) (retry_blocked env b item))
     (if list_ex (\<lambda>i. bi_position i \<noteq> bi_position item \<and>
          (bi_status i = IActive \<or> bi_status i = IWaitingMerge)) (b_items b)
      then return_actions [Idle]
      else
      bnd (ask co_batch) (\<lambda>b1.
      sq (only_if (bi_position item > 1 \<and> ce_maintenance env)
           (case (ce_findRepo env (b_repoId b1), item_at b1 (bi_position item - 1)) of
              (Some _, Some prior) \<Rightarrow> bnd (maintain env prior) (\<lambda>failure. case failure of
                 None \<Rightarrow> push [Maintenance_run]
               | Some reason \<Rightarrow> block_batch_for b1 reason True)
            | _ \<Rightarrow> ret ()))
      (bnd (if ce_git env \<and> ce_findRepo env (b_repoId b1) \<noteq> None
            then bnd (release_tip env b1) (\<lambda>r. ret (case r of
                Inl msg \<Rightarrow> (base_of b1 item, Some msg) | Inr sha \<Rightarrow> (Some sha, None)))
            else ret (base_of b1 item, None))
        (\<lambda>(fresh, fetchError).
         sq (only_if (bi_position item > 1 \<and>
              (fetchError \<noteq> None \<or> \<not> truthy fresh \<or> fresh = Some (b_sourceStartSha b1)))
              (block_batch_for b1
                (case fetchError of
                   Some msg \<Rightarrow> ''base_sha_unresolvable: failed to fetch origin/'' @ b_releaseBranch b1 @ '': '' @ msg
                 | None \<Rightarrow> ''base_sha_unresolvable: prior item #'' @ show_int (bi_position item - 1) @
                     '' has no mergedCommitSha'') True))
         (bnd (admitSuccessor env b1 item fresh) (\<lambda>b2. sq (set_batch b2) returned)))))))"

section \<open>The current item has started\<close>

text \<open>
  The crash window: an item that left \<open>pending\<close> without a run. An adopted run is written to the
  batch, but the code goes on with the copy of the item it read before, which has none.
\<close>

definition missing_run_stage :: "co_env \<Rightarrow> batch_item \<Rightarrow> unit co" where
  "missing_run_stage env item = bnd (ask id) (\<lambda>s.
     let b = co_batch s in
     case findMatchingRun (ct_runs (co_tables s)) (b_repoId b) (bi_issueNumber item) (b_releaseBranch b) of
       Some run \<Rightarrow>
         let base = base_of b item in
         if bi_position item > 1 \<and> (\<not> truthy base \<or> base = Some (b_sourceStartSha b))
         then block_batch_for b (''base_sha_unresolvable: cannot adopt run for item #'' @
            show_int (bi_issueNumber item) @ '': baseSha could not be resolved'') False
         else bnd (dom_call (admitItem b (bi_position item) (Some (r_uuid run))
                (if truthy base then base else None) (ce_now env))) (\<lambda>b'.
            sq (set_save b') (push [Run_adopted]))
     | None \<Rightarrow>
         bnd (if ce_git env \<and> ce_findRepo env (b_repoId b) \<noteq> None
              then bnd (release_tip env b) (\<lambda>r. ret (case r of Inl _ \<Rightarrow> base_of b item | Inr sha \<Rightarrow> Some sha))
              else ret (base_of b item))
           (\<lambda>fresh.
             if bi_position item > 1 \<and> (\<not> truthy fresh \<or> fresh = Some (b_sourceStartSha b))
             then block_batch_for b (''base_sha_unresolvable: failed to resolve base SHA for position '' @
               show_int (bi_position item)) False
             else bnd (admitSuccessor env b item fresh) (\<lambda>b'. sq (set_batch b') returned)))"

definition isRunBlocker :: "batch_item \<Rightarrow> bool" where
  "isRunBlocker item \<longleftrightarrow> (\<exists>r \<in> set_option (bi_blockedReason item).
     r \<in> {''run_failed'', ''run_blocked'', ''run_cancelled'', ''needs_human_review''})"

definition attach_pr :: "co_env \<Rightarrow> batch_item \<Rightarrow> run_record \<Rightarrow> int option co" where
  "attach_pr env item run = bnd (ask co_batch) (\<lambda>b.
     bnd (tryAttachPrMetadata env b item run) (\<lambda>r. case r of
       None \<Rightarrow> ret None
     | Some (b', n) \<Rightarrow> sq (set_batch b') (sq (push [Pr_attached]) (ret (Some n)))))"

text \<open>\<open>blockItemAndNotify\<close> for the end of a run.\<close>

definition block_for_run :: "batch_item \<Rightarrow> string \<Rightarrow> unit co" where
  "block_for_run item reason = bnd (ask co_batch) (\<lambda>b. block_item_for b item reason)"

definition unblock_for_run :: "batch_item \<Rightarrow> bool \<Rightarrow> unit co" where
  "unblock_for_run item announce = bnd (ask co_batch) (\<lambda>b.
     sq (unblock_item b (bi_position item))
        (only_if announce (bnd (ask co_batch) (\<lambda>b'.
           publishEvent b' ''release_batch.unblocked'' (bi_runUuid item)))))"

fun run_state_stage :: "co_env \<Rightarrow> batch_item \<Rightarrow> run_record \<Rightarrow> run_status \<Rightarrow> unit co" where
  "run_state_stage env item run RWaiting =
     sq (only_if (isRunBlocker item) (unblock_for_run item False))
     (bnd (attach_pr env item run) (\<lambda>attached.
      bnd (ask co_batch) (\<lambda>b.
      let pr = coalesce (bi_prNumber item) attached in
      case item_at b (bi_position item) of
        None \<Rightarrow> ret ()
      | Some latest \<Rightarrow> only_if (truthy_int pr \<and> bi_status latest = IActive)
          (mark_waiting b (bi_position item) (the pr) (bi_runUuid item)))))"
| "run_state_stage env item run RFailed = block_for_run item ''run_failed''"
| "run_state_stage env item run RBlocked = block_for_run item ''run_blocked''"
| "run_state_stage env item run RNeedsHumanReview = block_for_run item ''needs_human_review''"
| "run_state_stage env item run RCancelled = block_for_run item ''run_cancelled''"
| "run_state_stage env item run RPassed =
     sq (only_if (isRunBlocker item \<or> starts_with ''run_'' (bi_blockedReason item))
          (unblock_for_run item True))
        (sq (attach_pr env item run) (ret ()))"
| "run_state_stage env item run s =
     bnd (ask co_batch) (\<lambda>b.
     bnd (ensureJobEnqueued env (b_repoId b) (r_uuid run) (bi_issueNumber item)) (\<lambda>recovered.
     sq (only_if recovered (push [Job_recovered]))
     (sq (only_if (isRunBlocker item) (unblock_for_run item True))
         (sq (attach_pr env item run) (ret ())))))"

definition started_stage :: "co_env \<Rightarrow> (ident \<Rightarrow> unit co) \<Rightarrow> batch_item \<Rightarrow> unit co" where
  "started_stage env rec item =
     sq (only_if (\<not> truthy (bi_runUuid item)) (missing_run_stage env item))
     (bnd (find_run env (bi_runUuid item)) (\<lambda>found. case found of
        None \<Rightarrow> return_actions [Idle]
      | Some run \<Rightarrow>
        sq (run_state_stage env item run (r_status run))
        (bnd (ask co_batch) (\<lambda>b.
         sq (case item_at b (bi_position item) of
               None \<Rightarrow> ret ()
             | Some latest \<Rightarrow> only_if (ce_github env \<and> truthy_int (bi_prNumber latest) \<and>
                   r_status run \<noteq> RFailed \<and> r_status run \<noteq> RCancelled)
                 (checkAndReconcilePrMerge env rec (bi_position item) (the (bi_prNumber latest))))
         (bnd (ask co_actions) (\<lambda>acts.
          sq (only_if (acts = []) (push [Idle])) returned))))))"

section \<open>\<open>reconcile\<close>\<close>

definition heal_runs :: "co_env \<Rightarrow> batch_item list \<Rightarrow> unit co" where
  "heal_runs env items = each (\<lambda>item. only_if (bi_status item = IMerged)
     (pass_run env (bi_runUuid item) (completed_or item (ce_now env)))) items"

definition reconcile_from :: "co_env \<Rightarrow> (ident \<Rightarrow> unit co) \<Rightarrow> release_batch \<Rightarrow> unit co" where
  "reconcile_from env rec b =
     sq (tell (\<lambda>s. s\<lparr>co_actions := []\<rparr>))
     (if batch_terminal (b_status b) then return_actions [Idle]
      else
      let unmerged = filter (\<lambda>i. bi_status i \<noteq> IMerged) (b_items b) in
      if unmerged = [] \<and> \<not> isAllItemsMergedAllowedStatus (b_status b) \<and>
         \<not> isPromotionRecoveryEligible env b
      then return_actions [Unexpected_status]
      else
      sq (heal_runs env (b_items b))
      (case unmerged of
         [] \<Rightarrow> all_merged_stage env
       | item # _ \<Rightarrow>
         if bi_status item = IPending then pending_stage env item
         else started_stage env rec item))"

definition reconcile_body :: "co_env \<Rightarrow> (ident \<Rightarrow> unit co) \<Rightarrow> ident \<Rightarrow> unit co" where
  "reconcile_body env rec bid =
     bnd (ask (\<lambda>s. findBatch (ct_batches (co_tables s)) bid)) (\<lambda>found. case found of
       None \<Rightarrow> throw (Batch_exn (ReleaseBatchStateError ''batch not found''))
     | Some b \<Rightarrow> sq (set_batch b) (reconcile_from env rec b))"

text \<open>
  \<open>reconcile\<close> calls itself through \<open>certifyItemMerged\<close>; the first argument bounds the depth.
\<close>

fun reconcile :: "nat \<Rightarrow> co_env \<Rightarrow> ident \<Rightarrow> unit co" where
  "reconcile 0 env bid = stop Out_of_fuel"
| "reconcile (Suc fuel) env bid = reconcile_body env (reconcile fuel env) bid"

text \<open>A call of \<open>reconcile\<close> from elsewhere gets its result back.\<close>

definition call :: "unit co \<Rightarrow> unit co" where
  "call m = catch m (\<lambda>e. case e of Returned \<Rightarrow> Some () | _ \<Rightarrow> None) id"

definition certify :: "nat \<Rightarrow> co_env \<Rightarrow> ident \<Rightarrow> int \<Rightarrow> string \<Rightarrow> time option \<Rightarrow> unit co" where
  "certify fuel env bid position mergedSha now =
     call (certifyItemMerged env (reconcile fuel env) bid position mergedSha
       (case now of None \<Rightarrow> ce_now env | Some t \<Rightarrow> t))"

definition result_of_call :: "(release_batch \<times> action list) co" where
  "result_of_call = ask (\<lambda>s. (co_batch s, co_actions s))"

fun reconcile_each :: "nat \<Rightarrow> co_env \<Rightarrow> release_batch list \<Rightarrow> (release_batch \<times> action list) list co" where
  "reconcile_each fuel env [] = ret []"
| "reconcile_each fuel env (b # bs) =
     (if batch_terminal (b_status b) then reconcile_each fuel env bs
      else bnd (attempt (sq (call (reconcile fuel env (b_id b))) result_of_call)) (\<lambda>r.
           bnd (reconcile_each fuel env bs) (\<lambda>results.
             ret (case r of Inl _ \<Rightarrow> results | Inr result \<Rightarrow> result # results))))"

definition reconcileAll :: "nat \<Rightarrow> co_env \<Rightarrow> ident option \<Rightarrow> (release_batch \<times> action list) list co" where
  "reconcileAll fuel env repo = bnd (ask (\<lambda>s. ct_batches (co_tables s))) (\<lambda>tbl.
     reconcile_each fuel env (if truthy repo then listBatchesForRepo tbl (the repo)
       else concat (map (\<lambda>r. listBatchesForRepo tbl (r_id r)) (ce_enabled env))))"

end
