(* ===== verification/Coordinator_Inv.thy ===== *)
theory Coordinator_Inv
  imports Coordinator_Reconcile
begin

text \<open>
  Invariants of the coordinator. \<open>batch_law\<close> is the interface a property of batches has to meet
  to survive the coordinator: it is kept by the operations of the domain, by the two direct
  writes of the status, by the completion of a promotion once git and GitHub gave evidence for
  it, and by writing a batch over its stored row. Inside the locale every method keeps such a
  property of all stored batches and of the local one. It is interpreted on the well-formedness
  and approval invariant and on the evidence for completed batches.
\<close>

section \<open>Evidence for a promotion\<close>

definition promotion_evidence :: "co_env \<Rightarrow> release_batch \<Rightarrow> bool" where
  "promotion_evidence env b \<longleftrightarrow>
     (\<exists>n r. ce_readiness env n (the (b_promotionPrNumber b)) = Inr r \<and> pr_is_merged r) \<and>
     (ce_git env \<longrightarrow> (\<exists>m k tip. ce_resolveRef env m (b_sourceBranch b) = Inr (Some tip) \<and> tip \<noteq> [] \<and>
        (ce_isAncestor env k (approved_sha b) tip = Inr True \<or>
         (truthy (b_candidateTreeSha b) \<and> ce_treeSha env k tip = Inr (b_candidateTreeSha b)))))"

lemma promotion_evidence_cong:
  "b_promotionPrNumber b' = b_promotionPrNumber b \<Longrightarrow> b_sourceBranch b' = b_sourceBranch b \<Longrightarrow>
   b_approvedCandidateSha b' = b_approvedCandidateSha b \<Longrightarrow>
   b_candidateTreeSha b' = b_candidateTreeSha b \<Longrightarrow>
   promotion_evidence env b' = promotion_evidence env b"
  by (simp add: promotion_evidence_def approved_sha_def)

abbreviation any :: "'a \<Rightarrow> bool" where
  "any \<equiv> \<lambda>_. True"

definition law_tables :: "(release_batch \<Rightarrow> bool) \<Rightarrow> ident set \<Rightarrow> co_tables \<Rightarrow> bool" where
  "law_tables G K t \<longleftrightarrow> table_wf (ct_batches t) \<and> (\<forall>b \<in> set (ct_batches t). b_id b \<in> K \<longrightarrow> G b)"

text \<open>\<open>loc\<close>: the local variable \<open>batch\<close> is already set.\<close>

definition law_state :: "(release_batch \<Rightarrow> bool) \<Rightarrow> ident set \<Rightarrow> bool \<Rightarrow> co_state \<Rightarrow> bool" where
  "law_state G K loc s \<longleftrightarrow> law_tables G K (co_tables s) \<and> (loc \<longrightarrow> G (co_batch s))"

text \<open>\<open>K\<close> are the batches the law is about, \<open>X\<close> what may stop the method.\<close>

locale batch_law =
  fixes env :: co_env and G :: "release_batch \<Rightarrow> bool" and K :: "ident set" and X :: "co_stop \<Rightarrow> bool"
  assumes G_id: "G b \<Longrightarrow> b_id b \<in> K"
    and G_op: "G b \<Longrightarrow> apply_batch_op op b = Inr b' \<Longrightarrow> (\<And>t. op \<noteq> Complete t) \<Longrightarrow>
      (\<And>ns. op \<noteq> Append ns) \<Longrightarrow> G b'"
    and G_resume: "G b \<Longrightarrow> st \<noteq> BCompleted \<Longrightarrow> G (resume_as st b)"
    and G_complete: "G b \<Longrightarrow> completeBatch b t = Inr b' \<Longrightarrow> promotion_evidence env b \<Longrightarrow> G b'"
    and G_write: "stored_batch row \<Longrightarrow> G row \<Longrightarrow> b_id row = b_id b \<Longrightarrow> length (b_items row) \<le> length (b_items b) \<Longrightarrow>
      check_update (b_items row) (b_items b) = None \<Longrightarrow> G b \<Longrightarrow> G (updated_row row b)"
    and G_others: "law_tables G K tables \<Longrightarrow> law_tables G K (ce_meanwhile env n tables)"
    and X_stops: "X (Threw e)" "X Returned"
begin

abbreviation J :: "bool \<Rightarrow> co_state \<Rightarrow> bool" where
  "J \<equiv> law_state G K"

lemma extern_yields: "yields (J loc) (\<lambda>x. \<exists>n. f n = Inr x) X (extern env f)"
  by (rule yieldsI)
    (auto simp: extern_def prog_simps law_state_def G_others X_stops split: sum.splits)

lemma fetch_yields: "yields (J loc) any X (fetch env branch)"
  unfolding fetch_def by (rule yields_any [OF extern_yields])

lemma resolveRef_yields:
  "yields (J loc) (\<lambda>x. \<exists>n. ce_resolveRef env n branch = Inr x) X (resolveRef env branch)"
  unfolding resolveRef_def by (rule extern_yields)

lemma attempt_yields:
  "yields (J loc) V X m \<Longrightarrow> yields (J loc) (\<lambda>r. case r of Inl e \<Rightarrow> True | Inr x \<Rightarrow> V x) X (attempt m)"
  unfolding attempt_def by (rule yields_catch [where Y = X]) (auto split: co_stop.splits option.splits)

lemma attempt_quietly_yields: "yields (J loc) V X m \<Longrightarrow> yields (J loc) any X (attempt_quietly m)"
  unfolding attempt_quietly_def
  by (rule yields_sq [OF yields_any [OF attempt_yields] yields_ret]) simp_all

lemma tell_yields:
  "(\<And>s. co_batch (f s) = co_batch s \<and> ct_batches (co_tables (f s)) = ct_batches (co_tables s)) \<Longrightarrow>
   yields (J loc) any X (tell f)"
  by (rule yields_tell) (simp add: law_state_def law_tables_def)

lemma quiet_yields:
  "yields (J loc) any X (push xs)" "yields (J loc) any X (publishEvent b ty u)"
  "yields (J loc) any X (dispatchNotification b nt c p r)" "yields (J loc) any X (update_run uuid patch)"
  "yields (J loc) any X (tell (on_runs f))" "yields (J loc) any X (tell (on_jobs g))"
  "yields (J loc) any X (tell (\<lambda>s. s\<lparr>co_actions := xs\<rparr>))"
  unfolding push_def publishEvent_def dispatchNotification_def update_run_def
  by (rule tell_yields, simp add: on_runs_def on_jobs_def)+

lemma stop_yields: "yields (J loc) V X (throw e)" "yields (J loc) V X returned"
  unfolding throw_def returned_def by (rule yields_stop X_stops)+

lemma return_actions_yields: "yields (J loc) V X (return_actions xs)"
  unfolding return_actions_def by (rule yields_sq [OF quiet_yields(7) stop_yields(2)])

lemma ask_batch_yields: "yields (J True) G X (ask co_batch)"
  by (rule yields_ask) (simp add: law_state_def)

lemma ask_yields: "yields (J loc) any X (ask f)"
  by (rule yields_ask) simp

lemma ask_state_yields: "yields (J True) (\<lambda>s. G (co_batch s)) X (ask id)"
  by (rule yields_ask) (simp add: law_state_def)

lemma find_run_yields: "yields (J loc) any X (find_run env u)"
  unfolding find_run_def by (rule ask_yields)

lemma set_batch_yields: "G b \<Longrightarrow> yields (J loc) any X (set_batch b)"
  unfolding set_batch_def by (rule yields_tell) (simp add: law_state_def)

lemma find_batch_yields:
  "bid \<in> K \<Longrightarrow> yields (J loc) (\<lambda>x. \<forall>b. x = Some b \<longrightarrow> G b) X (ask (\<lambda>s. findBatch (ct_batches (co_tables s)) bid))"
  by (rule yields_ask) (auto simp: law_state_def law_tables_def dest: findBatch_SomeD)

lemma updateBatch_law:
  assumes "law_tables G K t" and "updateBatch (ct_batches t) b = Inr tbl" and "G b"
  shows "law_tables G K (t\<lparr>ct_batches := tbl\<rparr>)"
proof -
  have wf: "table_wf (ct_batches t)" using assms(1) by (simp add: law_tables_def)
  from updateBatch_InrD [OF assms(2)] obtain row where row: "findBatch (ct_batches t) (b_id b) = Some row"
    "length (b_items row) \<le> length (b_items b)" "check_update (b_items row) (b_items b) = None"
    and tbl: "tbl = map (\<lambda>r. if b_id r = b_id b then updated_row row b else r) (ct_batches t)" by blast
  have "G (updated_row row b)"
    using findBatch_SomeD [OF wf row(1)] assms(1) G_id [OF assms(3)]
    by (intro G_write row(2,3) assms(3)) (simp_all add: law_tables_def)
  then show ?thesis
    using assms(1) updateBatch_wf [OF wf assms(2)] by (auto simp: law_tables_def tbl)
qed

lemma save_yields: "G b \<Longrightarrow> yields (J loc) any X (save b)"
  by (rule yieldsI)
    (auto simp: save_def prog_simps throw_def on_batches_def law_state_def updateBatch_law X_stops
      split: sum.splits)

lemma set_save_yields: "G b \<Longrightarrow> yields (J loc) any X (set_save b)"
  unfolding set_save_def by (intro yields_sq set_batch_yields save_yields)

lemma dom_yields: "G b \<Longrightarrow> (\<And>t. op \<noteq> Complete t) \<Longrightarrow> (\<And>ns. op \<noteq> Append ns) \<Longrightarrow> yields (J loc) G X (dom_call (apply_batch_op op b))"
  unfolding dom_call_def by (rule yields_lift) (auto intro: G_op X_stops split: sum.splits)

lemmas dom_rules =
  dom_yields [where op = "Block_batch r" for r, simplified]
  dom_yields [where op = "Block_item p r" for p r, simplified]
  dom_yields [where op = "Admit p u s t" for p u s t, simplified]
  dom_yields [where op = "Record_promotion_pr n" for n, simplified]
  dom_yields [where op = "Record_commit c" for c, simplified]
  dom_yields [where op = "Attach_pr p n" for p n, simplified]
  dom_yields [where op = "Merged p m t" for p m t, simplified]
  dom_yields [where op = "Waiting_merge p n" for p n, simplified]
  dom_yields [where op = "Unblock_item p" for p, simplified]
  dom_yields [where op = "Unblock_batch", simplified]
  dom_yields [where op = "Await_test c t n" for c t n, simplified]

lemma blockBatch_yields: "G b \<Longrightarrow> yields (J loc) G X (blockBatchAndNotify b reason ty)"
  unfolding blockBatchAndNotify_def Let_def
  by (rule yields_bnd [OF dom_rules(1)], assumption)
    (intro yields_sq yields_only_if quiet_yields yields_ret)

lemma blockItem_yields: "G b \<Longrightarrow> yields (J loc) G X (blockItemAndNotify b position reason)"
  unfolding blockItemAndNotify_def Let_def
  by (rule yields_bnd [OF dom_rules(2)], assumption)
    (intro yields_sq yields_only_if quiet_yields yields_ret)

lemma ret_any_yields: "yields (J loc) any X (ret x)"
  by (rule yields_ret) simp

text \<open>The rules, the specific ones first.\<close>

lemmas core_rules =
  fetch_yields resolveRef_yields extern_yields set_save_yields set_batch_yields save_yields quiet_yields
  stop_yields return_actions_yields find_run_yields ask_batch_yields ask_state_yields find_batch_yields
  ask_yields dom_rules blockBatch_yields blockItem_yields attempt_quietly_yields attempt_yields
  ret_any_yields yields_ret yields_bnd yields_sq yields_only_if yields_option yields_sum yields_let
  yields_prod yields_if

section \<open>Admission\<close>

lemma ensureJobEnqueued_yields: "yields (J True) any X (ensureJobEnqueued env repo uuid issue)"
  unfolding ensureJobEnqueued_def by (rule core_rules | assumption)+

lemma adopt_or_create_yields: "yields (J True) any X (adopt_or_create env b item)"
  unfolding adopt_or_create_def by (rule core_rules | assumption)+

lemma admitSuccessor_yields: "G b \<Longrightarrow> yields (J True) G X (admitSuccessor env b item fresh)"
  unfolding admitSuccessor_def
  by (rule ensureJobEnqueued_yields adopt_or_create_yields core_rules | assumption)+

section \<open>Pull requests\<close>

lemma ensurePromotionPr_yields: "G b \<Longrightarrow> yields (J loc) G X (ensurePromotionPr env b c)"
  unfolding ensurePromotionPr_def
  by (rule core_rules | assumption | (simp; fail))+

lemma block_promotion_yields: "G b \<Longrightarrow> yields (J loc) V X (block_promotion b r)"
  unfolding block_promotion_def by (rule core_rules | assumption)+

text \<open>A batch attached to a pull request.\<close>

definition attached_ok :: "(release_batch \<times> int) option \<Rightarrow> bool" where
  "attached_ok r \<longleftrightarrow> (case r of None \<Rightarrow> True | Some (b', n) \<Rightarrow> G b')"

lemma attached_ok_simps [simp]: "attached_ok None" "attached_ok (Some (b', n)) = G b'"
  by (simp_all add: attached_ok_def)

lemma tryAttach_yields: "G b \<Longrightarrow> yields (J loc) attached_ok X (tryAttachPrMetadata env b item run)"
proof -
  assume b: "G b"
  have inner: "yields (J loc) attached_ok X
      (bnd (extern env (\<lambda>n. f n run)) (\<lambda>meta. if truthy_int meta
         then bnd (dom_call (attachItemPr b (bi_position item) (the meta)))
                (\<lambda>b'. sq (save b') (ret (Some (b', the meta))))
         else ret None))" for f
    by (rule yields_bnd [OF extern_yields], rule yields_if)
      (rule yields_bnd [OF dom_rules(6)] b yields_sq save_yields yields_ret | assumption | (simp; fail))+
  have outer: "yields (J loc) attached_ok X (bnd (attempt m) (\<lambda>r. ret (case r of Inl e \<Rightarrow> None | Inr x \<Rightarrow> x)))"
    if "yields (J loc) attached_ok X m" for m
    by (rule yields_bnd [OF attempt_yields [OF that]], rule yields_ret) (auto split: sum.splits)
  show ?thesis
    unfolding tryAttachPrMetadata_def
    by (rule yields_if yields_option outer [OF inner] yields_ret attached_ok_simps(1))+
qed

lemma pass_run_yields: "yields (J loc) any X (pass_run env u t)"
  unfolding pass_run_def by (rule core_rules | assumption)+

lemma certify_yields:
  assumes K: "bid \<in> K" and rec: "yields (J loc) any X (rec bid)"
  shows "yields (J loc) any X (certifyItemMerged env rec bid position sha now)"
  unfolding certifyItemMerged_def
  by (rule K rec pass_run_yields core_rules | assumption | (simp; fail))+

lemma certify_local_yields:
  assumes rec: "\<And>x. x \<in> K \<Longrightarrow> yields (J loc) any X (rec x)" and b: "G b"
  shows "yields (J loc) any X (certifyItemMerged env rec (b_id b) position sha now)"
  by (intro certify_yields rec G_id b)

lemma block_item_for_yields: "G b \<Longrightarrow> yields (J loc) any X (block_item_for b item reason)"
  unfolding block_item_for_def by (rule core_rules | assumption)+

lemma merged_commit_yields: "yields (J loc) any X (merged_commit env b r)"
  unfolding merged_commit_def by (rule core_rules | assumption)+

lemma mark_waiting_yields: "G b \<Longrightarrow> yields (J loc) any X (mark_waiting b position pr u)"
  unfolding mark_waiting_def by (rule core_rules | assumption)+

lemma unblock_item_yields: "G b \<Longrightarrow> yields (J loc) any X (unblock_item b position)"
  unfolding unblock_item_def by (rule core_rules | assumption)+

lemma checkPr_yields:
  assumes rec: "\<And>x. x \<in> K \<Longrightarrow> yields (J True) any X (rec x)"
  shows "yields (J True) any X (checkAndReconcilePrMerge env rec position pr)"
  unfolding checkAndReconcilePrMerge_def
  by (rule certify_local_yields [OF rec] block_item_for_yields merged_commit_yields mark_waiting_yields
      unblock_item_yields core_rules | assumption)+

section \<open>Promotion\<close>

definition tip_evidence :: "release_batch \<Rightarrow> string \<Rightarrow> bool" where
  "tip_evidence b tip \<longleftrightarrow> (\<exists>k. ce_isAncestor env k (approved_sha b) tip = Inr True \<or>
     (truthy (b_candidateTreeSha b) \<and> ce_treeSha env k tip = Inr (b_candidateTreeSha b)))"

definition source_evidence :: "release_batch \<Rightarrow> bool" where
  "source_evidence b \<longleftrightarrow> (ce_git env \<longrightarrow>
     (\<exists>m tip. ce_resolveRef env m (b_sourceBranch b) = Inr (Some tip) \<and> tip \<noteq> [] \<and> tip_evidence b tip))"

lemma check_promoted_yields:
  assumes b: "G b"
  shows "yields (J loc) (\<lambda>_. tip_evidence b tip) X (check_promoted env b tip)"
proof -
  have same_tree: "yields (J loc) (\<lambda>_. tip_evidence b tip) X
      (bnd (extern env (\<lambda>n. ce_treeSha env n tip)) (\<lambda>tree.
         if tree \<noteq> b_candidateTreeSha b then block_promotion b ''promotion_tree_mismatch'' else ret ()))"
    if "truthy (b_candidateTreeSha b)"
    by (intro yields_bnd [OF extern_yields] yields_if block_promotion_yields b yields_ret)
      (use that in \<open>auto simp: tip_evidence_def\<close>)
  show ?thesis
    unfolding check_promoted_def
    by (intro yields_bnd [OF extern_yields] yields_if block_promotion_yields b yields_ret same_tree)
      (auto simp: tip_evidence_def)
qed

lemma source_evidenceI:
  assumes "ce_resolveRef env n (b_sourceBranch b) = Inr source" "truthy source" "tip_evidence b (the source)"
  shows "source_evidence b"
proof -
  obtain tip where "source = Some tip" "tip \<noteq> []" using assms(2) by (auto simp: truthy_iff)
  then show ?thesis unfolding source_evidence_def using assms(1,3) by (metis option.sel)
qed

lemma verify_promotion_yields:
  assumes b: "G b"
  shows "yields (J loc) (\<lambda>_. source_evidence b) X (verify_promotion env b)"
  unfolding verify_promotion_def
  by (intro yields_if yields_sq fetch_yields yields_bnd [OF resolveRef_yields] stop_yields
      yields_bnd [OF check_promoted_yields [OF b]] yields_ret)
    (simp add: source_evidence_def, auto intro: source_evidenceI)

lemma finish_promotion_yields:
  assumes b: "G b" and ev: "promotion_evidence env b"
  shows "yields (J loc) any X (finish_promotion env b promo)"
proof -
  let ?same = "\<lambda>b'. G b' \<and> promotion_evidence env b'"
  have recorded: "yields (J loc) ?same X
      (if truthy promo then dom_call (recordPromotionCommit b (the promo)) else ret b)"
  proof (intro yields_if yields_ret conjI b ev)
    have "promotion_evidence env b'" if "recordPromotionCommit b c = Inr b'" for b' c
      using that ev promotion_evidence_cong [of b' b env]
      by (auto simp: recordPromotionCommit_def split: if_split_asm)
    then show "yields (J loc) ?same X (dom_call (recordPromotionCommit b (the promo)))"
      using G_op [OF b, of "Record_commit (the promo)"]
      unfolding dom_call_def by (intro yields_lift) (auto simp: X_stops split: sum.splits)
  qed
  have complete: "yields (J loc) G X (dom_call (completeBatch b2 t))" if "?same b2" for b2 t
    unfolding dom_call_def
    by (rule yields_lift) (use that G_complete in \<open>auto simp: X_stops split: sum.splits\<close>)
  have resumed: "?same (if b_status b1 = BBlocked then resume_as BPromoting b1 else b1)" if "?same b1" for b1
    using that G_resume [of b1 BPromoting] promotion_evidence_cong [of "resume_as BPromoting b1" b1]
    by (simp add: resume_as_def)
  show ?thesis
    unfolding finish_promotion_def Let_def
  proof (rule yields_bnd [OF recorded])
    fix b1 assume b1: "?same b1"
    define b2 where "b2 = (if b_status b1 = BBlocked then resume_as BPromoting b1 else b1)"
    have b2: "?same b2" unfolding b2_def by (rule resumed [OF b1])
    show "yields (J loc) any X
      (sq (set_batch b1) (sq (set_batch (if b_status b1 = BBlocked then resume_as BPromoting b1 else b1))
        (bnd (dom_call (completeBatch (if b_status b1 = BBlocked then resume_as BPromoting b1 else b1)
            (ce_now env))) (\<lambda>b3.
         sq (set_save b3) (sq (dispatchNotification b3 Note_completed promo None None)
           (sq (push [Promotion_completed])
             (sq (publishEvent b3 ''release_batch.completed'' None) returned)))))))"
      unfolding b2_def [symmetric] using b1 b2
      by (intro yields_sq set_batch_yields yields_bnd [OF complete] set_save_yields quiet_yields
          stop_yields) simp_all
  qed
qed

lemma reconcilePromotion_yields: "yields (J True) any X (reconcilePromotionReadiness env)"
  unfolding reconcilePromotionReadiness_def
proof (rule yields_bnd [OF ask_batch_yields])
  fix b assume b: "G b"
  let ?pr = "the (b_promotionPrNumber b)"
  have finish: "yields (J True) any X (bnd (verify_promotion env b) (\<lambda>source.
      let promo = coalesce (b_promotionCommitSha b) (rd_mergeCommitSha r)
      in finish_promotion env b (if truthy source \<and> \<not> truthy promo then source else promo)))"
    if "ce_readiness env n ?pr = Inr r" "pr_is_merged r" for r n
  proof (rule yields_bnd [OF verify_promotion_yields [OF b]])
    fix source assume "source_evidence b"
    then have "promotion_evidence env b"
      using that by (fastforce simp: promotion_evidence_def source_evidence_def tip_evidence_def)
    then show "yields (J True) any X
      (let promo = coalesce (b_promotionCommitSha b) (rd_mergeCommitSha r)
       in finish_promotion env b (if truthy source \<and> \<not> truthy promo then source else promo))"
      using b by (simp add: Let_def finish_promotion_yields)
  qed
  have inner: "yields (J True) any X (bnd (extern env (\<lambda>n. ce_readiness env n ?pr)) (\<lambda>r.
        if pr_is_merged r then
          bnd (verify_promotion env b) (\<lambda>source.
            let promo = coalesce (b_promotionCommitSha b) (rd_mergeCommitSha r)
            in finish_promotion env b (if truthy source \<and> \<not> truthy promo then source else promo))
        else if rd_state r = Pr_closed then
          block_promotion b (if b_status b = BBlocked \<and> truthy (b_blockedReason b)
            then the (b_blockedReason b)
            else ''pr_closed_unmerged: PR #'' @ show_int ?pr @ '' closed without merge'')
        else if rd_ciStatus r = Ci_failed then
          block_promotion b (''promotion_ci_failed: PR #'' @ show_int ?pr @ '' CI checks failed'')
        else if b_status b = BBlocked then set_save (resume_as BPromoting b)
        else ret ()))"
    using finish b
    by (intro yields_bnd [OF extern_yields] yields_if block_promotion_yields set_save_yields
        ret_any_yields G_resume) auto
  show "yields (J True) any X
      (if ce_findRepo env (b_repoId b) = None \<or> \<not> truthy_int (b_promotionPrNumber b) \<or> \<not> ce_github env
       then returned
       else let pr = ?pr in sq (attempt_quietly (bnd (extern env (\<lambda>n. ce_readiness env n pr)) (\<lambda>r.
        if pr_is_merged r then
          bnd (verify_promotion env b) (\<lambda>source.
            let promo = coalesce (b_promotionCommitSha b) (rd_mergeCommitSha r)
            in finish_promotion env b (if truthy source \<and> \<not> truthy promo then source else promo))
        else if rd_state r = Pr_closed then
          block_promotion b (if b_status b = BBlocked \<and> truthy (b_blockedReason b)
            then the (b_blockedReason b)
            else ''pr_closed_unmerged: PR #'' @ show_int pr @ '' closed without merge'')
        else if rd_ciStatus r = Ci_failed then
          block_promotion b (''promotion_ci_failed: PR #'' @ show_int pr @ '' CI checks failed'')
        else if b_status b = BBlocked then set_save (resume_as BPromoting b)
        else ret ()))) returned)"
    unfolding Let_def [of ?pr]
    by (intro yields_if stop_yields yields_sq attempt_quietly_yields [OF inner])
qed

section \<open>Stages of \<open>reconcile\<close>\<close>

lemma capture_candidate_yields: "yields (J True) any X (capture_candidate env)"
  unfolding capture_candidate_def
  by (rule ensurePromotionPr_yields core_rules | assumption)+

lemma maintain_yields: "yields (J loc) any X (maintain env item)"
  unfolding maintain_def by (rule core_rules)+

lemma building_stage_yields: "yields (J True) any X (building_stage env)"
  unfolding building_stage_def
  by (rule maintain_yields attempt_quietly_yields [OF capture_candidate_yields] core_rules | assumption)+

lemma invalidate_yields: "G b \<Longrightarrow> yields (J loc) V X (invalidate b reason c further)"
  unfolding invalidate_def by (rule core_rules | assumption)+

lemma verified_commit_yields: "yields (J True) any X (verified_promotion_commit env source)"
  unfolding verified_promotion_commit_def by (rule core_rules | assumption)+

lemma check_drift_yields: "yields (J True) any X (check_drift env c)"
  unfolding check_drift_def
  by (rule invalidate_yields verified_commit_yields core_rules | assumption)+

lemma all_merged_stage_yields: "yields (J True) any X (all_merged_stage env)"
  unfolding all_merged_stage_def
  by (rule building_stage_yields attempt_quietly_yields [OF check_drift_yields]
      reconcilePromotion_yields ensurePromotionPr_yields core_rules | assumption)+

lemma unblock_building_yields: "G b \<Longrightarrow> yields (J loc) any X (unblock_building b)"
  unfolding unblock_building_def
  by (intro yields_sq set_save_yields quiet_yields G_resume) simp_all

lemma retry_blocked_yields: "G b \<Longrightarrow> yields (J True) any X (retry_blocked env b item)"
  unfolding retry_blocked_def
  by (rule unblock_building_yields maintain_yields core_rules | assumption)+

lemma release_tip_yields: "yields (J loc) any X (release_tip env b)"
  unfolding release_tip_def by (rule core_rules)+

lemma block_batch_for_yields: "G b \<Longrightarrow> yields (J loc) V X (block_batch_for b reason c)"
  unfolding block_batch_for_def by (rule core_rules | assumption)+

lemma pending_stage_yields: "yields (J True) any X (pending_stage env item)"
  unfolding pending_stage_def
  by (rule retry_blocked_yields maintain_yields block_batch_for_yields release_tip_yields
      admitSuccessor_yields core_rules | assumption)+

lemma missing_run_stage_yields: "yields (J True) any X (missing_run_stage env item)"
  unfolding missing_run_stage_def
  by (rule block_batch_for_yields release_tip_yields admitSuccessor_yields core_rules | assumption)+

lemma attach_pr_yields: "yields (J True) any X (attach_pr env item run)"
  unfolding attach_pr_def
proof (rule yields_bnd [OF ask_batch_yields], rule yields_bnd [OF tryAttach_yields], assumption)
  fix r assume "attached_ok r"
  then show "yields (J True) any X (case r of None \<Rightarrow> ret None
      | Some (b', n) \<Rightarrow> sq (set_batch b') (sq (push [Pr_attached]) (ret (Some n))))"
    by (cases r) (auto intro!: yields_sq set_batch_yields quiet_yields ret_any_yields)
qed

lemma block_for_run_yields: "yields (J True) any X (block_for_run item reason)"
  unfolding block_for_run_def by (rule block_item_for_yields core_rules | assumption)+

lemma unblock_for_run_yields: "yields (J True) any X (unblock_for_run item c)"
  unfolding unblock_for_run_def by (rule unblock_item_yields core_rules | assumption)+

lemma run_state_stage_yields: "yields (J True) any X (run_state_stage env item run st)"
  by (cases st; simp only: run_state_stage.simps)
    (rule unblock_for_run_yields block_for_run_yields attach_pr_yields mark_waiting_yields
      ensureJobEnqueued_yields core_rules | assumption)+

lemma started_stage_yields:
  assumes "\<And>x. x \<in> K \<Longrightarrow> yields (J True) any X (rec x)"
  shows "yields (J True) any X (started_stage env rec item)"
  unfolding started_stage_def
  by (rule missing_run_stage_yields run_state_stage_yields checkPr_yields [OF assms] core_rules
      | assumption)+

lemma heal_runs_yields: "yields (J loc) any X (heal_runs env items)"
  unfolding heal_runs_def by (rule yields_each pass_run_yields core_rules)+

lemma reconcile_from_yields:
  assumes "\<And>x. x \<in> K \<Longrightarrow> yields (J True) any X (rec x)"
  shows "yields (J True) any X (reconcile_from env rec b)"
  unfolding reconcile_from_def
  by (rule yields_list heal_runs_yields all_merged_stage_yields pending_stage_yields
      started_stage_yields [OF assms] core_rules | assumption)+

text \<open>\<open>reconcile\<close> sets its local batch first, so nothing is assumed of the old one.\<close>

lemma enter_yields:
  assumes "G b" and "yields (J True) V X m"
  shows "yields (J loc) V X (sq (set_batch b) m)"
proof (rule yieldsI)
  fix s assume "J loc s"
  then have s: "J True (s\<lparr>co_batch := b\<rparr>)" using assms(1) by (simp add: law_state_def)
  have weak: "J loc s'" if "J True s'" for s' using that by (simp add: law_state_def)
  obtain r s' where m: "m (s\<lparr>co_batch := b\<rparr>) = (r, s')" by fastforce
  show "case sq (set_batch b) m s of (Inr x, s') \<Rightarrow> J loc s' \<and> V x | (Inl e, s') \<Rightarrow> J loc s' \<and> X e"
  proof (cases r)
    case (Inl e)
    then show ?thesis
      using yields_Inl [OF assms(2) s, of e s'] m by (simp add: set_batch_def sq_run tell_run weak)
  next
    case (Inr x)
    then show ?thesis
      using yields_Inr [OF assms(2) s, of x s'] m by (simp add: set_batch_def sq_run tell_run weak)
  qed
qed

lemma reconcile_body_yields:
  assumes "bid \<in> K" and "\<And>x. x \<in> K \<Longrightarrow> yields (J True) any X (rec x)"
  shows "yields (J loc) any X (reconcile_body env rec bid)"
  unfolding reconcile_body_def
  by (rule yields_bnd [OF find_batch_yields [OF assms(1)]])
    (auto intro!: yields_option stop_yields enter_yields reconcile_from_yields assms(2))

lemma reconcile_yields:
  assumes "X Out_of_fuel"
  shows "bid \<in> K \<Longrightarrow> yields (J loc) any X (reconcile fuel env bid)"
proof (induction fuel arbitrary: bid loc)
  case 0
  then show ?case by (simp add: yields_stop assms)
next
  case (Suc fuel)
  then show ?case by (simp add: reconcile_body_yields)
qed

lemma call_yields: "yields (J loc) any X m \<Longrightarrow> yields (J loc) any X (call m)"
  unfolding call_def by (rule yields_catch [where Y = X]) (auto split: co_stop.splits)

lemma certify_call_yields:
  "X Out_of_fuel \<Longrightarrow> bid \<in> K \<Longrightarrow> yields (J loc) any X (certify fuel env bid position sha now)"
  unfolding certify_def by (intro call_yields certify_yields reconcile_yields)

lemma reconcile_each_yields:
  assumes "X Out_of_fuel" and "K = UNIV"
  shows "yields (J loc) any X (reconcile_each fuel env bs)"
proof (induction bs)
  case (Cons b bs)
  have one: "yields (J loc) any X (sq (call (reconcile fuel env (b_id b))) result_of_call)"
    unfolding result_of_call_def
    by (intro yields_sq call_yields reconcile_yields ask_yields assms(1)) (simp add: assms(2))
  show ?case
    unfolding reconcile_each.simps
    by (rule Cons.IH attempt_yields [OF one] core_rules)+
qed (simp add: ret_any_yields)

lemma reconcileAll_yields:
  "X Out_of_fuel \<Longrightarrow> K = UNIV \<Longrightarrow> yields (J loc) any X (reconcileAll fuel env repo)"
  unfolding reconcileAll_def by (rule reconcile_each_yields core_rules | assumption)+

end

section \<open>Environments\<close>

text \<open>
  What the other processes do is only known to keep a law by hypothesis; \<open>calmed\<close> makes it a
  fact, and changes nothing where the hypothesis holds.
\<close>

definition others_keep :: "(release_batch \<Rightarrow> bool) \<Rightarrow> ident set \<Rightarrow> co_env \<Rightarrow> bool" where
  "others_keep G K env \<longleftrightarrow>
     (\<forall>n tables. law_tables G K tables \<longrightarrow> law_tables G K (ce_meanwhile env n tables))"

definition calmed :: "(release_batch \<Rightarrow> bool) \<Rightarrow> ident set \<Rightarrow> co_env \<Rightarrow> co_env" where
  "calmed G K env = env\<lparr>ce_meanwhile := (\<lambda>n tables.
     if law_tables G K tables \<and> \<not> law_tables G K (ce_meanwhile env n tables) then tables
     else ce_meanwhile env n tables)\<rparr>"

lemma calmed_others: "law_tables G K tables \<Longrightarrow> law_tables G K (ce_meanwhile (calmed G K env) n tables)"
  by (simp add: calmed_def)

lemma calmed_id:
  assumes "others_keep G K env"
  shows "calmed G K env = env"
proof -
  have "ce_meanwhile (calmed G K env) = ce_meanwhile env"
    using assms by (auto simp: calmed_def others_keep_def fun_eq_iff)
  then show ?thesis by (simp add: calmed_def)
qed

lemma promotion_evidence_calmed: "promotion_evidence (calmed G K env) = promotion_evidence env"
  by (simp add: fun_eq_iff promotion_evidence_def calmed_def)

section \<open>Well-formed and properly approved batches\<close>

definition good_batch :: "release_batch \<Rightarrow> bool" where
  "good_batch b \<longleftrightarrow> batch_wf b \<and> approval_inv b"

lemma written_items:
  assumes "stored_batch row" and "b_id row = b_id b" and "batch_wf b"
    and "length (b_items row) \<le> length (b_items b)" and "check_update (b_items row) (b_items b) = None"
  shows "updated_row row b = (write_head row b)\<lparr>b_items := b_items b\<rparr>"
proof -
  have "write_items (b_id b) (b_items row) (b_items b) = b_items b"
    using assms write_items_same by (auto simp: stored_batch_def list_all_iff batch_wf_def)
  then show ?thesis
    using batch_wf_sorted [OF assms(3)]
    by (simp add: updated_row_def read_batch_def sort_key_id_if_sorted)
qed

lemma good_write:
  assumes "stored_batch row" and "b_id row = b_id b" and "good_batch b"
    and "length (b_items row) \<le> length (b_items b)" and "check_update (b_items row) (b_items b) = None"
  shows "good_batch (updated_row row b)"
proof -
  have "updated_row row b = (write_head row b)\<lparr>b_items := b_items b\<rparr>"
    using assms by (intro written_items) (simp_all add: good_batch_def)
  then show ?thesis
    using assms(2,3) by (simp add: good_batch_def batch_wf_def approval_inv_def write_head_def)
qed

lemma good_resume: "good_batch b \<Longrightarrow> st \<noteq> BCompleted \<Longrightarrow> good_batch (resume_as st b)"
  by (simp add: good_batch_def batch_wf_def approval_inv_def resume_as_def)

lemma good_op: "good_batch b \<Longrightarrow> apply_batch_op op b = Inr b' \<Longrightarrow> good_batch b'"
  using apply_batch_op_wf apply_batch_op_approval by (auto simp: good_batch_def)

lemma good_complete: "good_batch b \<Longrightarrow> completeBatch b t = Inr b' \<Longrightarrow> good_batch b'"
  using good_op [of b "Complete t" b'] by simp

interpretation approval: batch_law "calmed good_batch UNIV env" good_batch UNIV any for env
  by (unfold_locales; (rule good_resume good_write good_complete good_op calmed_others UNIV_I TrueI; assumption?)+)

section \<open>Completed batches\<close>

text \<open>
  A batch that was not completed before is completed only with evidence. \<open>src\<close> is the source
  branch of each batch, which no write changes.
\<close>

definition evident :: "co_env \<Rightarrow> ident set \<Rightarrow> (ident \<Rightarrow> string) \<Rightarrow> release_batch \<Rightarrow> bool" where
  "evident env old src b \<longleftrightarrow> b_sourceBranch b = src (b_id b) \<and>
     (b_status b = BCompleted \<longrightarrow> b_id b \<in> old \<or> promotion_evidence env b)"

lemma completes_only:
  assumes "apply_batch_op op b = Inr b'" and "\<And>t. op \<noteq> Complete t" and "b_status b' = BCompleted"
  shows "b_status b = BCompleted"
proof (cases "b_status b = BCompleted")
  case no: False
  show ?thesis
  proof (cases "is_item_op op")
    case True
    then show ?thesis using assms item_op_cases [OF assms(1)] no
      by (auto simp: item_op_def same_head_def batch_terminal_def)
  next
    case other: False
    show ?thesis
    proof (cases "\<exists>ns. op = Append ns")
      case True
      then show ?thesis using assms by (auto dest!: appendRemediationItems_op)
    next
      case False
      then show ?thesis
        using assms other
        by (cases op) (auto simp: is_item_op_def batch_ops Let_def split: if_split_asm option.splits prod.splits)
    qed
  qed
qed

lemma identity_simps:
  "same_identity b b" "same_identity b (set_item b' k i) = same_identity b b'"
  "same_identity b (b'\<lparr>b_status := st\<rparr>) = same_identity b b'"
  "same_identity b (b'\<lparr>b_blockedReason := r\<rparr>) = same_identity b b'"
  "same_identity b (b'\<lparr>b_currentPosition := p\<rparr>) = same_identity b b'"
  by (simp_all add: same_identity_def set_item_def)

lemma op_identity:
  assumes "apply_batch_op op b = Inr b'"
  shows "same_identity b b'"
proof (cases "is_item_op op")
  case True
  then show ?thesis
    using assms
    by (cases op) (auto simp: is_item_op_def admitItem_def assignItemRun_def markItemWaitingMerge_def
          attachItemPr_def markItemMerged_def markItemBlocked_def unblockItem_def unblockBatch_def
          identity_simps Let_def dest!: with_item_InrD split: if_split_asm option.split_asm)
next
  case False
  then show ?thesis
    using assms by (cases op) (auto simp: is_item_op_def batch_ops appendRemediationItems_def
        same_identity_def Let_def split: if_split_asm option.split_asm prod.split_asm)
qed

lemma evident_write:
  assumes "evident env old src row" and "b_id row = b_id b" and "evident env old src b"
  shows "evident env old src (updated_row row b)"
proof -
  have "promotion_evidence env (updated_row row b) = promotion_evidence env b"
    using assms by (intro promotion_evidence_cong)
      (simp_all add: evident_def updated_row_def read_batch_def write_head_def)
  moreover have "b_status (updated_row row b) = b_status b" "b_id (updated_row row b) = b_id row"
      "b_sourceBranch (updated_row row b) = b_sourceBranch row"
    by (simp_all add: updated_row_def read_batch_def write_head_def)
  ultimately show ?thesis using assms by (simp add: evident_def)
qed

lemma evident_op:
  assumes "evident env old src b" and "apply_batch_op op b = Inr b'" and "\<And>t. op \<noteq> Complete t"
  shows "evident env old src b'"
proof (cases "b_status b' = BCompleted")
  case True
  from completes_only [OF assms(2,3) True] have "b_status b = BCompleted" .
  then show ?thesis using assms(2) terminal_batch_stuck [of b op] by simp
next
  case False
  then show ?thesis using op_identity [OF assms(2)] assms(1) by (simp add: evident_def same_identity_def)
qed

lemma evident_complete:
  assumes "evident env old src b" and "completeBatch b t = Inr b'" and "promotion_evidence env b"
  shows "evident env old src b'"
proof -
  have "promotion_evidence env b' = promotion_evidence env b"
    using assms(2) by (intro promotion_evidence_cong) (auto simp: completeBatch_def split: if_split_asm)
  then show ?thesis
    using op_identity [of "Complete t" b b'] assms by (simp add: evident_def same_identity_def)
qed

lemma evident_resume: "evident env old src b \<Longrightarrow> st \<noteq> BCompleted \<Longrightarrow> evident env old src (resume_as st b)"
  by (simp add: evident_def resume_as_def)

interpretation evidence: batch_law "calmed (evident env old src) UNIV env" "evident env old src" UNIV any
  for env old src
proof (unfold_locales, unfold promotion_evidence_calmed)
  fix b b' op assume "evident env old src b" "apply_batch_op op b = Inr b'" "\<And>t. op \<noteq> Complete t"
  then show "evident env old src b'" by (rule evident_op)
next
  fix row b assume "evident env old src row" "b_id row = b_id b" "evident env old src b"
  then show "evident env old src (updated_row row b)" by (rule evident_write)
qed (rule evident_resume evident_complete calmed_others UNIV_I TrueI; assumption?)+

end
