(* ===== verification/Coordinator_Term.thy ===== *)
theory Coordinator_Term
  imports Coordinator_Inv
begin

text \<open>
  Termination of \<open>reconcile\<close>, which calls itself through \<open>certifyItemMerged\<close>. Each call is made
  after one more item of the batch is merged in the store, so a batch with \<open>n\<close> unmerged items
  is reconciled within \<open>n\<close> nested calls, as long as no other process adds items to it.
\<close>

section \<open>The merged items of a batch\<close>

definition within :: "ident \<Rightarrow> nat \<Rightarrow> int set \<Rightarrow> release_batch \<Rightarrow> bool" where
  "within bid n M b \<longleftrightarrow> b_id b = bid \<and> batch_wf b \<and> length (b_items b) = n \<and>
     (\<forall>i \<in> set (b_items b). bi_position i \<in> M \<longrightarrow> bi_status i = IMerged)"

definition fueled :: "co_stop \<Rightarrow> bool" where
  "fueled e \<longleftrightarrow> e \<noteq> Out_of_fuel"

lemma within_op:
  assumes w: "within bid n M b" and op: "apply_batch_op op b = Inr b'" and "\<And>ns. op \<noteq> Append ns"
  shows "within bid n M b'"
proof (cases "is_item_op op")
  case True
  then obtain k item where k: "item_op b b' k item" using item_op_cases [OF op] by metis
  then have "\<forall>i \<in> set (b_items b'). bi_position i \<in> M \<longrightarrow> bi_status i = IMerged"
    using w by (auto simp: within_def item_op_def item_change_def dest!: set_update_subset_insert [THEN subsetD])
  then show ?thesis
    using w k apply_batch_op_wf [OF op] by (simp add: within_def item_op_def same_head_def)
next
  case False
  then have "b_items b' = b_items b" "b_id b' = b_id b" using quiet_op [OF op] assms(3) by auto
  then show ?thesis using w apply_batch_op_wf [OF op] by (simp add: within_def)
qed

lemma within_write:
  assumes "stored_batch row" and "b_id row = b_id b" and "length (b_items row) \<le> length (b_items b)"
    and "check_update (b_items row) (b_items b) = None" and "within bid n M b"
  shows "within bid n M (updated_row row b)"
proof -
  have "updated_row row b = (write_head row b)\<lparr>b_items := b_items b\<rparr>"
    using assms by (intro written_items) (simp_all add: within_def)
  then show ?thesis using assms(2,5) by (simp add: within_def batch_wf_def)
qed

lemma within_resume: "within bid n M b \<Longrightarrow> within bid n M (resume_as st b)"
  by (simp add: within_def batch_wf_def resume_as_def)

interpretation progress: batch_law "calmed (within bid n M) {bid} env" "within bid n M" "{bid}" fueled
  for bid n M env
proof
  fix b b' op assume "within bid n M b" "apply_batch_op op b = Inr b'" "\<And>ns. op \<noteq> Append ns"
  then show "within bid n M b'" by (rule within_op)
next
  fix b b' t assume "within bid n M b" "completeBatch b t = Inr b'"
  then show "within bid n M b'" using within_op [of bid n M b "Complete t" b'] by simp
next
  fix row b assume "stored_batch row" "b_id row = b_id b" "length (b_items row) \<le> length (b_items b)"
    "check_update (b_items row) (b_items b) = None" "within bid n M b"
  then show "within bid n M (updated_row row b)" by (rule within_write)
qed (simp_all add: within_resume calmed_others fueled_def, simp add: within_def)

text \<open>The other processes: items are neither added to the batch nor unmerged.\<close>

definition others_extend :: "ident \<Rightarrow> nat \<Rightarrow> co_env \<Rightarrow> bool" where
  "others_extend bid n env \<longleftrightarrow> (\<forall>M. others_keep (within bid n M) {bid} env)"

lemma progress_law:
  assumes "others_extend bid n env"
  shows "batch_law env (within bid n M) {bid} fueled"
  using progress.batch_law_axioms [of bid n M env] calmed_id [of "within bid n M" "{bid}" env] assms
  by (simp add: others_extend_def)

abbreviation stored_within :: "ident \<Rightarrow> nat \<Rightarrow> int set \<Rightarrow> co_state \<Rightarrow> bool" where
  "stored_within bid n M \<equiv> law_state (within bid n M) {bid} False"

abbreviation both_within :: "ident \<Rightarrow> nat \<Rightarrow> int set \<Rightarrow> co_state \<Rightarrow> bool" where
  "both_within bid n M \<equiv> law_state (within bid n M) {bid} True"

section \<open>One more merged item\<close>

lemma one_position:
  assumes "batch_wf b" and "i \<in> set (b_items b)" and "j \<in> set (b_items b)"
    and "bi_position i = bi_position j"
  shows "i = j"
proof -
  obtain k l where kl: "k < length (b_items b)" "i = b_items b ! k" "l < length (b_items b)" "j = b_items b ! l"
    using assms(2,3) by (metis in_set_conv_nth)
  then have "int k + 1 = int l + 1"
    using batch_wf_position [OF assms(1) kl(1)] batch_wf_position [OF assms(1) kl(3)] assms(4) by simp
  then show ?thesis using kl by simp
qed

lemma item_at_SomeD: "item_at b p = Some item \<Longrightarrow> item \<in> set (b_items b) \<and> bi_position item = p"
  by (auto simp: item_at_def dest: find_SomeD)

lemma within_insertI:
  assumes w: "within bid n M b" and item: "item \<in> set (b_items b)" "bi_position item = p" "bi_status item = IMerged"
  shows "within bid n (insert p M) b"
proof -
  have "bi_status i = IMerged" if "i \<in> set (b_items b)" "bi_position i = p" for i
    using one_position [of b i item] w that item by (simp add: within_def)
  then show ?thesis using w by (auto simp: within_def)
qed

lemma within_insert:
  "within bid n M b \<Longrightarrow> item_at b p = Some item \<Longrightarrow> bi_status item = IMerged \<Longrightarrow> within bid n (insert p M) b"
  by (drule item_at_SomeD) (blast intro: within_insertI)

lemma tables_insert:
  assumes t: "law_tables (within bid n M) {bid} t" and b: "findBatch (ct_batches t) bid = Some b"
    and item: "item_at b p = Some item" "bi_status item = IMerged"
  shows "law_tables (within bid n (insert p M)) {bid} t"
proof -
  have wf: "table_wf (ct_batches t)" using t by (simp add: law_tables_def)
  note found = findBatch_SomeD [OF wf b]
  have "c = b" if "c \<in> set (ct_batches t)" "b_id c = bid" for c
    using findBatch_mem [OF wf that(1)] b that(2) by simp
  moreover have "within bid n (insert p M) b"
    using t found by (intro within_insert [OF _ item]) (simp add: law_tables_def)
  ultimately show ?thesis using wf by (auto simp: law_tables_def)
qed

lemma markItemMerged_within:
  assumes w: "within bid n M b" and m: "markItemMerged b p sha t = Inr b'"
  shows "within bid n (insert p M) b'"
proof -
  have w': "within bid n M b'" using within_op [OF w, of "Merged p sha t" b'] m by simp
  obtain k where k: "k < length (b_items b)" "bi_position (b_items b ! k) = p"
    "b' = set_item b k ((b_items b ! k)\<lparr>bi_status := IMerged, bi_mergedCommitSha := Some sha,
       bi_completedAt := Some t\<rparr>)"
    using m by (auto simp: markItemMerged_def dest!: with_item_InrD split: if_split_asm)
  define item where "item = (b_items b ! k)\<lparr>bi_status := IMerged, bi_mergedCommitSha := Some sha,
       bi_completedAt := Some t\<rparr>"
  have "item \<in> set (b_items b')" "bi_position item = p" "bi_status item = IMerged"
    using k by (simp_all add: item_def set_item_def set_update_memI)
  then show ?thesis by (rule within_insertI [OF w'])
qed

lemma save_insert:
  assumes "within bid n (insert p M) b'"
  shows "triple (stored_within bid n M) (save b') (\<lambda>_. stored_within bid n (insert p M)) (\<lambda>e _. fueled e)"
proof (rule tripleI)
  fix s assume "stored_within bid n M s"
  then have t: "law_tables (within bid n M) {bid} (co_tables s)" by (simp add: law_state_def)
  then have wf: "table_wf (ct_batches (co_tables s))" by (simp add: law_tables_def)
  show "case save b' s of (Inr x, s') \<Rightarrow> stored_within bid n (insert p M) s' | (Inl e, s') \<Rightarrow> fueled e"
  proof (cases "updateBatch (ct_batches (co_tables s)) b'")
    case (Inl e)
    then show ?thesis by (simp add: save_def prog_simps throw_def fueled_def)
  next
    case (Inr tbl)
    from updateBatch_InrD [OF Inr] obtain row where row: "findBatch (ct_batches (co_tables s)) (b_id b') = Some row"
      "length (b_items row) \<le> length (b_items b')" "check_update (b_items row) (b_items b') = None"
      and tbl: "tbl = map (\<lambda>r. if b_id r = b_id b' then updated_row row b' else r) (ct_batches (co_tables s))"
      by blast
    have "within bid n (insert p M) (updated_row row b')"
      using findBatch_SomeD [OF wf row(1)] by (intro within_write row(2,3) assms) simp_all
    moreover have "b_id b' = bid" using assms by (simp add: within_def)
    ultimately have "law_tables (within bid n (insert p M)) {bid} ((co_tables s)\<lparr>ct_batches := tbl\<rparr>)"
      using updateBatch_wf [OF wf Inr] by (auto simp: law_tables_def tbl)
    then show ?thesis by (simp add: save_def prog_simps Inr on_batches_def law_state_def)
  qed
qed


section \<open>The nested call\<close>

lemma stored_weaken: "both_within bid n M s \<Longrightarrow> stored_within bid n M s"
  by (simp add: law_state_def)

lemma certify_ends:
  assumes others: "others_extend bid n env"
    and rec: "ends (stored_within bid n (insert p M)) fueled (rec bid)"
  shows "ends (stored_within bid n M) fueled (certifyItemMerged env rec bid p sha now)"
proof -
  let ?I = "stored_within bid n M" and ?I' = "stored_within bid n (insert p M)"
  note step = batch_law.pass_run_yields [OF progress_law [OF others]]
    batch_law.quiet_yields(2) [OF progress_law [OF others]]
  have throws: "ends I fueled (throw e :: unit co)" for I e
    by (simp add: ends_def throw_def triple_stop fueled_def)
  have merged: "ends ?I' fueled (sq (pass_run env u t) (rec bid))" for u t
    by (intro ends_sq [OF step(1)] rec)
  have now: "ends ?I fueled (bnd (dom_call (markItemMerged b p sha now)) (\<lambda>b'. sq (save b')
      (sq (pass_run env u now) (sq (publishEvent b' ty v) (rec bid)))))"
    if b: "within bid n M b" for b u ty v
    unfolding ends_def
  proof (rule triple_bnd)
    show "triple ?I (dom_call (markItemMerged b p sha now))
      (\<lambda>b' s. ?I s \<and> markItemMerged b p sha now = Inr b') (\<lambda>e _. fueled e)"
      unfolding dom_call_def by (rule triple_lift) (auto simp: fueled_def split: sum.splits)
    fix b'
    have "ends ?I fueled (sq (save b') (sq (pass_run env u now) (sq (publishEvent b' ty v) (rec bid))))"
      if "markItemMerged b p sha now = Inr b'"
      using save_insert [OF markItemMerged_within [OF b that]]
      by (rule ends_step) (intro ends_sq [OF step(1)] ends_sq [OF step(2)] rec)
    then show "triple (\<lambda>s. ?I s \<and> markItemMerged b p sha now = Inr b')
      (sq (save b') (sq (pass_run env u now) (sq (publishEvent b' ty v) (rec bid))))
      (\<lambda>_ _. True) (\<lambda>e _. fueled e)"
      unfolding ends_def by (intro triple_conj_pre)
  qed
  show ?thesis
    unfolding ends_def certifyItemMerged_def
  proof (rule triple_bnd)
    show "triple ?I (ask (\<lambda>s. findBatch (ct_batches (co_tables s)) bid))
      (\<lambda>x s. ?I s \<and> x = findBatch (ct_batches (co_tables s)) bid) (\<lambda>e _. fueled e)"
      by (rule triple_ask) simp
    fix found
    let ?m = "case found of
       None \<Rightarrow> throw (Batch_exn (ReleaseBatchStateError ''batch not found''))
     | Some b \<Rightarrow>
       (case item_at b p of
          None \<Rightarrow> throw (Batch_exn (ReleaseBatchStateError ''position not found''))
        | Some item \<Rightarrow>
          if bi_status item = IMerged \<and> bi_mergedCommitSha item = Some sha
          then sq (pass_run env (bi_runUuid item) (completed_or item now)) (rec bid)
          else bnd (dom_call (markItemMerged b p sha now)) (\<lambda>b'.
            sq (save b')
            (sq (pass_run env (bi_runUuid item) now)
            (sq (publishEvent b' ''release_batch.item_merged'' (bi_runUuid item))
                (rec bid)))))"
    have "ends (\<lambda>s. s = s0) fueled ?m" if s0: "?I s0" "found = findBatch (ct_batches (co_tables s0)) bid" for s0
    proof -
      have start: "ends ?I fueled m \<Longrightarrow> ends (\<lambda>s. s = s0) fueled m" for m :: "unit co"
        by (erule ends_pre) (simp add: s0)
      have w: "within bid n M b" if "found = Some b" for b
        using s0 that findBatch_SomeD [of "ct_batches (co_tables s0)" bid b]
        by (auto simp: law_state_def law_tables_def)
      have "?I' s0" if "found = Some b" "item_at b p = Some item" "bi_status item = IMerged" for b item
        using s0 that tables_insert [of bid n M "co_tables s0" b p item] by (simp add: law_state_def)
      then have again: "ends (\<lambda>s. s = s0) fueled (sq (pass_run env u t) (rec bid))"
        if "found = Some b" "item_at b p = Some item" "bi_status item = IMerged" for b item u t
        using that by (intro ends_pre [OF merged]) simp
      show ?thesis
        by (intro ends_option throws ends_if) (use again start [OF now] w in auto)
    qed
    then show "triple (\<lambda>s. ?I s \<and> found = findBatch (ct_batches (co_tables s)) bid) ?m
      (\<lambda>_ _. True) (\<lambda>e _. fueled e)"
      by (simp add: ends_def triple_def)
  qed
qed

lemmas ends_rules = ends_ret ends_sum ends_option ends_list ends_if ends_only_if ends_bnd ends_sq

lemma within_id: "within bid n M b \<Longrightarrow> b_id b = bid"
  by (simp add: within_def)

lemma checkPr_ends:
  assumes others: "others_extend bid n env"
    and rec: "ends (stored_within bid n (insert p M)) fueled (rec bid)"
  shows "ends (both_within bid n M) fueled (checkAndReconcilePrMerge env rec p pr)"
proof -
  note law = progress_law [OF others]
  have cert: "ends (both_within bid n M) fueled (certifyItemMerged env rec (b_id b) p sha now)"
    if "within bid n M b" for b sha now
    unfolding within_id [OF that]
    by (rule ends_pre [OF certify_ends stored_weaken]) (rule others rec | assumption)+
  show ?thesis
    unfolding checkAndReconcilePrMerge_def
    by (rule cert ends_last [OF batch_law.block_item_for_yields [OF law]]
        ends_last [OF batch_law.mark_waiting_yields [OF law]]
        batch_law.merged_commit_yields [OF law] batch_law.unblock_item_yields [OF law]
        batch_law.core_rules [OF law] ends_rules | assumption)+
qed

lemma started_ends:
  assumes others: "others_extend bid n env"
    and rec: "ends (stored_within bid n (insert (bi_position item) M)) fueled (rec bid)"
  shows "ends (both_within bid n M) fueled (started_stage env rec item)"
proof -
  note law = progress_law [OF others]
  have tail: "ends (\<lambda>_. True) fueled (bnd (ask co_actions) (\<lambda>acts.
      sq (only_if (acts = []) (push [Idle])) (returned :: unit co)))"
    by (auto simp: ends_def triple_def prog_simps only_if_def push_def returned_def fueled_def)
  have check: "ends (both_within bid n M) fueled (case x of None \<Rightarrow> ret ()
      | Some latest \<Rightarrow> only_if (c latest) (checkAndReconcilePrMerge env rec (bi_position item) (f latest)))"
    for x :: "batch_item option" and c f
    by (intro ends_option ends_only_if ends_ret checkPr_ends others rec)
  show ?thesis
    unfolding started_stage_def
    by (rule ends_sq_first [OF check tail] ends_last [OF batch_law.return_actions_yields [OF law]]
        batch_law.missing_run_stage_yields [OF law] batch_law.run_state_stage_yields [OF law]
        batch_law.core_rules [OF law] ends_option ends_bnd ends_sq | assumption)+
qed

lemma filter_Cons_mem: "filter P xs = y # ys \<Longrightarrow> y \<in> set xs \<and> P y"
  by (metis filter_eq_ConsD in_set_conv_decomp)

lemma reconcile_from_ends:
  assumes others: "others_extend bid n env" and b: "within bid n M b"
    and rec: "\<And>item. item \<in> set (b_items b) \<Longrightarrow> bi_status item \<noteq> IMerged \<Longrightarrow>
      ends (stored_within bid n (insert (bi_position item) M)) fueled (rec bid)"
  shows "ends (both_within bid n M) fueled (reconcile_from env rec b)"
proof -
  note law = progress_law [OF others]
  have started: "ends (both_within bid n M) fueled (started_stage env rec item)"
    if "filter (\<lambda>i. bi_status i \<noteq> IMerged) (b_items b) = item # rest" for item rest
    using filter_Cons_mem [OF that] by (intro started_ends others rec) simp_all
  show ?thesis
    unfolding reconcile_from_def Let_def
    by (rule started ends_last [OF batch_law.return_actions_yields [OF law]]
        ends_last [OF batch_law.all_merged_stage_yields [OF law]]
        ends_last [OF batch_law.pending_stage_yields [OF law]]
        batch_law.heal_runs_yields [OF law] batch_law.core_rules [OF law]
        ends_list ends_if ends_sq | assumption)+
qed

lemma enter_ends:
  assumes "within bid n M b" and "ends (both_within bid n M) fueled m"
  shows "ends (stored_within bid n M) fueled (sq (set_batch b) m)"
  by (rule ends_step [OF _ assms(2)])
    (simp add: set_batch_def, rule triple_tell, simp add: law_state_def assms(1))

lemma reconcile_ends:
  assumes others: "others_extend bid n env" and M: "M \<subseteq> {1..int n}" and fuel: "n - card M < fuel"
  shows "ends (stored_within bid n M) fueled (reconcile fuel env bid)"
  using M fuel
proof (induction fuel arbitrary: M)
  case (Suc fuel)
  note law = progress_law [OF others]
  have rec: "ends (stored_within bid n (insert (bi_position item) M)) fueled (reconcile fuel env bid)"
    if b: "within bid n M b" and item: "item \<in> set (b_items b)" "bi_status item \<noteq> IMerged" for b item
  proof (rule Suc.IH)
    obtain k where k: "k < length (b_items b)" "item = b_items b ! k" using item(1) by (metis in_set_conv_nth)
    then have pos: "bi_position item \<in> {1..int n}"
      using b batch_wf_position [of b k] by (auto simp: within_def)
    then show sub: "insert (bi_position item) M \<subseteq> {1..int n}" using Suc.prems(1) by simp
    have "bi_position item \<notin> M" using b item by (auto simp: within_def)
    moreover have "finite M" using Suc.prems(1) finite_subset by blast
    moreover have "card (insert (bi_position item) M) \<le> n"
      using card_mono [OF _ sub] by simp
    ultimately show "n - card (insert (bi_position item) M) < fuel" using Suc.prems(2) by simp
  qed
  show ?case
    unfolding reconcile.simps reconcile_body_def
  proof (rule ends_bnd [OF batch_law.find_batch_yields [OF law]])
    fix x assume x: "\<forall>b. x = Some b \<longrightarrow> within bid n M b"
    show "ends (stored_within bid n M) fueled (case x of
        None \<Rightarrow> throw (Batch_exn (ReleaseBatchStateError ''batch not found''))
      | Some b \<Rightarrow> sq (set_batch b) (reconcile_from env (reconcile fuel env) b))"
      using x by (intro ends_option ends_last [OF batch_law.stop_yields(1) [OF law]] enter_ends
          reconcile_from_ends others rec) simp_all
  qed simp
qed simp

end
