(* ===== verification/Coordinator_Props.thy ===== *)
theory Coordinator_Props
  imports Coordinator_Term
begin

text \<open>
  The properties of the coordinator of release batches, and concrete runs of it.
\<close>

section \<open>Sample runs\<close>

definition sample_repo :: repository where
  "sample_repo = \<lparr>r_id = ''r'', r_owner = ''o'', r_name = ''n'', r_fullName = ''o/n'',
     r_defaultBranch = ''main'', r_remoteUrl = ''url'', r_localBasePath = ''/r'', r_enabled = True,
     r_maxConcurrentRuns = 1, r_healthStatus = Healthy, r_healthError = None,
     r_lastHealthCheckAt = None, r_configMetadata = [], r_createdAt = 0, r_updatedAt = 0\<rparr>"

text \<open>A world without git in which every pull request is open and green.\<close>

definition sample_env :: co_env where
  "sample_env = \<lparr>ce_now = 50, ce_git = False, ce_github = True, ce_maintenance = False,
     ce_findRepo = (\<lambda>r. if r = ''r'' then Some sample_repo else None), ce_enabled = [sample_repo],
     ce_fetch = (\<lambda>_ _. Inr ()), ce_resolveRef = (\<lambda>_ _. Inr None), ce_isAncestor = (\<lambda>_ _ _. Inr False),
     ce_treeSha = (\<lambda>_ _. Inr None),
     ce_readiness = (\<lambda>_ _. Inr \<lparr>rd_state = Pr_open, rd_isMerged = False, rd_ciStatus = Ci_passed,
        rd_autoMergeEnabled = None, rd_baseRefName = None, rd_mergeCommitSha = None\<rparr>),
     ce_createPr = (\<lambda>_ _ _. Inr 7), ce_refreshPr = (\<lambda>_ _ _ _. Inr ()), ce_mirror = None,
     ce_maintain = (\<lambda>_ _. Inr None), ce_resolvePr = None, ce_executionPolicy = None,
     ce_pinnedRuntime = None,
     ce_runStore = \<lparr>rs_configFingerprint = None, rs_configSourcesJson = None,
        rs_defaultExecutionPolicy = Standard, rs_repoId = None\<rparr>,
     ce_jobScope = None, ce_repoEnabled = (\<lambda>_. Some True), ce_pid = 1,
     ce_newRunId = (\<lambda>n issue. (''u'' @ show_int issue, ''d'' @ show_int issue)),
     ce_newJobId = (\<lambda>n. ''j'' @ show_int (int n)), ce_meanwhile = (\<lambda>_ t. t)\<rparr>"

text \<open>The same with every pull request merged.\<close>

definition merged_env :: co_env where
  "merged_env = sample_env\<lparr>ce_readiness := (\<lambda>_ _. Inr \<lparr>rd_state = Pr_merged, rd_isMerged = True,
     rd_ciStatus = Ci_passed, rd_autoMergeEnabled = None, rd_baseRefName = None,
     rd_mergeCommitSha = Some ''m''\<rparr>)\<rparr>"

definition start_state :: "release_batch \<Rightarrow> run_table \<Rightarrow> co_state" where
  "start_state b runs = \<lparr>co_tables = \<lparr>ct_batches = [b], ct_runs = runs, ct_jobs = []\<rparr>, co_clock = 0,
     co_notes = [], co_bus = [], co_eventRows = [], co_batch = b, co_actions = []\<rparr>"

definition after_ops :: "batch_op list \<Rightarrow> release_batch" where
  "after_ops ops = (case run_batch_ops ops sample_batch of Inr b \<Rightarrow> b | Inl _ \<Rightarrow> sample_batch)"

definition sample_promoting :: release_batch where
  "sample_promoting = after_ops
     [Admit 1 (Some ''u1'') None 1, Waiting_merge 1 101, Merged 1 ''m1'' 2,
      Admit 2 (Some ''u2'') None 3, Waiting_merge 2 102, Merged 2 ''m2'' 4,
      Await_test ''c'' (Some ''t'') None, Approve ''c'', Attach_promotion_pr 7]"

definition sample_state :: co_state where
  "sample_state = start_state sample_promoting []"

definition sample_after :: co_tables where
  "sample_after = co_tables (snd (reconcile 3 merged_env ''b'' sample_state))"

lemma sample_promoting_good: "good_batch sample_promoting"
proof -
  have "run_batch_ops [Admit 1 (Some ''u1'') None 1, Waiting_merge 1 101, Merged 1 ''m1'' 2,
      Admit 2 (Some ''u2'') None 3, Waiting_merge 2 102, Merged 2 ''m2'' 4,
      Await_test ''c'' (Some ''t'') None, Approve ''c'', Attach_promotion_pr 7] sample_batch = Inr sample_promoting"
    by code_simp
  then have "batch_reachable sample_promoting"
    by (rule run_batch_ops_reachable) (rule batch_reachable.create [OF createReleaseBatch_sample])
  then show ?thesis using batch_reachable_inv by (simp add: good_batch_def)
qed

lemma sample_promoting_facts:
  "b_id sample_promoting = ''b''" "b_status sample_promoting = BPromoting"
  "constraints_ok [sample_promoting]" "stored_batch sample_promoting"
  by code_simp+

lemma sample_tables [simp]: "ct_batches (co_tables sample_state) = [sample_promoting]"
  by (simp add: sample_state_def start_state_def)

lemma sample_table_wf: "table_wf [sample_promoting]"
  by (simp add: table_wf_def sample_promoting_facts)

lemma idle_others:
  "ce_meanwhile env = (\<lambda>_ t. t) \<Longrightarrow> others_keep G K env"
  by (simp add: others_keep_def)

lemma sample_idle [simp]: "ce_meanwhile sample_env = (\<lambda>_ t. t)" "ce_meanwhile merged_env = (\<lambda>_ t. t)"
  by (simp_all add: sample_env_def merged_env_def)

section \<open>Batches stay well-formed and properly approved\<close>

text \<open>
  C3. Whatever git, GitHub and the maintenance service answer and whenever they fail, and while
  other processes write good batches in between: if every stored batch is well-formed and properly
  approved (a candidate only when all items are merged, an approval only of the candidate, a
  completion only with an approval), then so it is after \<open>reconcile\<close>, after \<open>certifyItemMerged\<close>
  and after \<open>reconcileAll\<close>, also when they throw.
\<close>

theorem coordinator_keeps_batches:
  assumes "others_keep good_batch UNIV env" and "law_tables good_batch UNIV (co_tables s)"
  shows "law_tables good_batch UNIV (co_tables (snd (reconcile fuel env bid s))) \<and>
    law_tables good_batch UNIV (co_tables (snd (certify fuel env bid position sha now s))) \<and>
    law_tables good_batch UNIV (co_tables (snd (reconcileAll fuel env repo s)))"
proof -
  have s: "law_state good_batch UNIV False s" using assms(2) by (simp add: law_state_def)
  show ?thesis
    using yields_inv [OF approval.reconcile_yields s, of bid fuel env]
      yields_inv [OF approval.certify_call_yields s, of bid fuel env position sha now]
      yields_inv [OF approval.reconcileAll_yields s, of fuel env repo]
    by (simp add: calmed_id [OF assms(1)] law_state_def)
qed

theorem coordinator_keeps_batches_witness:
  "law_tables good_batch UNIV (co_tables (snd (reconcile 3 merged_env ''b'' sample_state)))"
  using coordinator_keeps_batches [of merged_env sample_state 3 "''b''"]
  by (simp add: idle_others law_tables_def sample_table_wf sample_promoting_good)

section \<open>Evidence for completed batches\<close>

definition completed_ids :: "co_tables \<Rightarrow> ident set" where
  "completed_ids t = b_id ` {b \<in> set (ct_batches t). b_status b = BCompleted}"

definition source_of :: "co_tables \<Rightarrow> ident \<Rightarrow> string" where
  "source_of t bid = (case List.find (\<lambda>b. b_id b = bid) (ct_batches t) of
     None \<Rightarrow> [] | Some b \<Rightarrow> b_sourceBranch b)"

lemma evident_start:
  assumes "table_wf (ct_batches t)"
  shows "law_tables (evident env (completed_ids t) (source_of t)) UNIV t"
proof -
  have "List.find (\<lambda>c. b_id c = b_id b) (ct_batches t) = Some b" if "b \<in> set (ct_batches t)" for b
    using that find_unique [of b_id "ct_batches t" b] assms by (simp add: table_wf_def constraints_ok_def)
  then show ?thesis using assms by (auto simp: law_tables_def evident_def completed_ids_def source_of_def)
qed

text \<open>
  C21. The coordinator completes a batch only on evidence: GitHub reported its promotion pull
  request merged and, where git is at hand, the tip of the source branch contains the approved
  commit or has the tree of the candidate. So a batch that is completed after \<open>reconcileAll\<close>
  was completed before, or there is that evidence for it, provided that no other process completed
  a batch or moved its source branch in between.
\<close>

theorem completion_evidence:
  assumes "table_wf (ct_batches (co_tables s))"
    and "others_keep (evident env (completed_ids (co_tables s)) (source_of (co_tables s))) UNIV env"
    and "b \<in> set (ct_batches (co_tables (snd (reconcileAll fuel env repo s))))" and "b_status b = BCompleted"
  shows "b_id b \<in> completed_ids (co_tables s) \<or> promotion_evidence env b"
proof -
  let ?G = "evident env (completed_ids (co_tables s)) (source_of (co_tables s))"
  have "law_state ?G UNIV False s" using evident_start [OF assms(1)] by (simp add: law_state_def)
  from yields_inv [OF evidence.reconcileAll_yields this] have
    "law_state ?G UNIV False (snd (reconcileAll fuel env repo s))" by (simp add: calmed_id [OF assms(2)])
  then show ?thesis using assms(3,4) by (auto simp: law_state_def law_tables_def evident_def)
qed

definition sample_done :: release_batch where
  "sample_done = hd (ct_batches (co_tables (snd (reconcileAll 3 merged_env (Some ''r'') sample_state))))"

lemma sample_done_facts:
  "ct_batches (co_tables (snd (reconcileAll 3 merged_env (Some ''r'') sample_state))) = [sample_done]"
  "b_status sample_done = BCompleted"
  by code_simp+

theorem completion_evidence_witness: "promotion_evidence merged_env sample_done"
  using completion_evidence [of sample_state merged_env sample_done 3 "Some ''r''"]
  by (auto simp: idle_others sample_table_wf sample_done_facts completed_ids_def sample_promoting_facts)

section \<open>Termination\<close>

lemma merged_positions:
  assumes "batch_wf b"
  shows "card (bi_position ` {i \<in> set (b_items b). bi_status i = IMerged}) =
    length (filter (\<lambda>i. bi_status i = IMerged) (b_items b))"
proof -
  have "distinct (b_items b)" using assms distinct_map by (auto simp: batch_wf_def)
  moreover have "inj_on bi_position {i \<in> set (b_items b). bi_status i = IMerged}"
    using one_position [OF assms] by (auto intro: inj_onI)
  ultimately show ?thesis
    using distinct_card [of "filter (\<lambda>i. bi_status i = IMerged) (b_items b)"] by (simp add: card_image)
qed

text \<open>
  C22. \<open>reconcile\<close> ends: it calls itself when it has certified the merge of an item, and with
  more calls allowed than the batch has unmerged items the limit is never reached, provided that
  the other processes add no items to the batch and unmerge none.
\<close>

theorem reconcile_terminates:
  assumes "table_wf (ct_batches (co_tables s))" and "findBatch (ct_batches (co_tables s)) bid = Some b"
    and "batch_wf b" and "others_extend bid (length (b_items b)) env"
    and "length (filter (\<lambda>i. bi_status i \<noteq> IMerged) (b_items b)) < fuel"
  shows "fst (reconcile fuel env bid s) \<noteq> Inl Out_of_fuel"
proof -
  let ?M = "bi_position ` {i \<in> set (b_items b). bi_status i = IMerged}"
  let ?n = "length (b_items b)"
  note found = findBatch_SomeD [OF assms(1,2)]
  have "?M \<subseteq> {1..int ?n}"
    using batch_wf_position [OF assms(3)] by (auto simp: in_set_conv_nth)
  moreover have "?n - card ?M < fuel"
    using assms(5) sum_length_filter_compl [of "\<lambda>i. bi_status i = IMerged" "b_items b"]
    by (simp add: merged_positions [OF assms(3)])
  ultimately have ends: "ends (stored_within bid ?n ?M) fueled (reconcile fuel env bid)"
    by (rule reconcile_ends [OF assms(4)])
  have "within bid ?n ?M b"
    using found assms(3) one_position [OF assms(3)] by (fastforce simp: within_def)
  moreover have "c = b" if "c \<in> set (ct_batches (co_tables s))" "b_id c = bid" for c
    using findBatch_mem [OF assms(1) that(1)] assms(2) that(2) by simp
  ultimately have start: "stored_within bid ?n ?M s"
    using assms(1) by (auto simp: law_state_def law_tables_def)
  obtain r s' where run: "reconcile fuel env bid s = (r, s')" by fastforce
  show ?thesis
    using endsD [OF ends start, of "Out_of_fuel" s'] run by (auto simp: fueled_def)
qed


text \<open>
  A batch whose first item waits for a pull request that GitHub has merged: the first call
  certifies the merge and the nested one admits the second item.
\<close>

definition sample_waiting :: release_batch where
  "sample_waiting = after_ops [Admit 1 (Some ''u1'') (Some ''s0'') 1, Waiting_merge 1 101]"

definition sample_run :: run_record where
  "sample_run = record_of_run \<lparr>r_uuid = ''u1'', r_displayId = ''d1'', r_repoId = ''r'', r_issueNumber = 11,
     r_type = Issue_to_pr, r_baseBranch = Some ''release'', r_executionPolicy = None,
     r_pinnedRuntime = None, r_status = RWaiting, r_currentPhase = None, r_completedPhases = [],
     r_skippedPhases = [], r_startedAt = 1, r_completedAt = None, r_failureReason = None\<rparr>"

definition waiting_state :: co_state where
  "waiting_state = start_state sample_waiting [sample_run]"

lemma sample_waiting_facts:
  "b_id sample_waiting = ''b''" "constraints_ok [sample_waiting]" "stored_batch sample_waiting"
  "length (filter (\<lambda>i. bi_status i \<noteq> IMerged) (b_items sample_waiting)) = 2"
  by code_simp+

lemma sample_waiting_wf: "batch_wf sample_waiting"
proof -
  have "run_batch_ops [Admit 1 (Some ''u1'') (Some ''s0'') 1, Waiting_merge 1 101] sample_batch = Inr sample_waiting"
    by code_simp
  then have "batch_reachable sample_waiting"
    by (rule run_batch_ops_reachable) (rule batch_reachable.create [OF createReleaseBatch_sample])
  then show ?thesis using batch_reachable_inv by simp
qed

lemma waiting_table: "ct_batches (co_tables waiting_state) = [sample_waiting]" "table_wf [sample_waiting]"
  by (simp_all add: waiting_state_def start_state_def table_wf_def sample_waiting_facts)

lemma waiting_found: "findBatch [sample_waiting] ''b'' = Some sample_waiting"
  using find_read_stored [OF waiting_table(2), of "''b''"] by (simp add: sample_waiting_facts)

theorem reconcile_terminates_witness:
  "fst (reconcile 3 merged_env ''b'' waiting_state) \<noteq> Inl Out_of_fuel"
  by (rule reconcile_terminates [where b = sample_waiting])
    (simp_all add: waiting_table waiting_found sample_waiting_wf sample_waiting_facts others_extend_def
      idle_others)

end
