(* ===== verification/Coordinator_Steps.thy ===== *)
theory Coordinator_Steps
  imports Coordinator_Props
begin

text \<open>
  Single steps of the coordinator: what is in place when it has admitted an item of a batch, when
  it does nothing, and how a batch can get stuck.
\<close>

section \<open>Admission\<close>

definition has_run :: "release_batch \<Rightarrow> batch_item \<Rightarrow> ident \<Rightarrow> co_state \<Rightarrow> bool" where
  "has_run b item u s \<longleftrightarrow> (\<exists>r \<in> set (ct_runs (co_tables s)).
     r_uuid r = u \<and> r_repoId r = b_repoId b \<and> r_issueNumber r = bi_issueNumber item)"

definition has_job :: "release_batch \<Rightarrow> ident \<Rightarrow> co_state \<Rightarrow> bool" where
  "has_job b u s \<longleftrightarrow> (\<exists>j \<in> set (ct_jobs (co_tables s)). active_job u j \<and> j_repoId j = b_repoId b)"

lemma findMatchingRun_SomeD:
  assumes "findMatchingRun runs repo issue branch = Some r"
  shows "\<exists>q \<in> set runs. r_uuid q = r_uuid r \<and> r_repoId q = repo \<and> r_issueNumber q = issue"
proof -
  let ?rows = "filter (\<lambda>r. r_repoId r = repo \<and> r_issueNumber r = issue) runs"
  obtain q qs where q: "sort_key (\<lambda>r. - r_startedAt r) ?rows = q # qs" "r = toRecord q"
    using assms by (auto simp: findMatchingRun_def findByIssueNumber_def split: option.split_asm list.split_asm if_split_asm)
  have "q \<in> set (sort_key (\<lambda>r. - r_startedAt r) ?rows)" by (simp only: q(1) list.set_intros)
  then have "q \<in> set ?rows" by (simp only: set_sort)
  then show ?thesis using q(2) by (intro bexI [of _ q]) (auto simp: toRecord_def)
qed

lemma insertIfNoActive_mem:
  assumes "insertIfNoActive cfg tbl run pid = Inr tbl'"
  shows "\<exists>q \<in> set tbl'. r_uuid q = r_uuid run \<and> r_repoId q = r_repoId run \<and> r_issueNumber q = r_issueNumber run"
  using assms by (auto simp: insertIfNoActive_def insertRun_def split: if_split_asm)

lemma createRun_head:
  "createRun i = Inr r \<Longrightarrow> r_uuid r = ri_uuid i \<and> r_repoId r = ri_repoId i \<and> r_issueNumber r = ri_issueNumber i"
  by (auto simp: createRun_def split: if_split_asm)

lemma record_of_run_head [simp]:
  "r_uuid (record_of_run r) = r_uuid r" "r_repoId (record_of_run r) = r_repoId r"
  "r_issueNumber (record_of_run r) = r_issueNumber r"
  by (simp_all add: record_of_run_def run.defs)

lemma adopt_or_create_run:
  assumes "adopt_or_create env b item s = (Inr u, s')"
  shows "has_run b item u s'"
proof (cases "findMatchingRun (ct_runs (co_tables s)) (b_repoId b) (bi_issueNumber item) (b_releaseBranch b)")
  case (Some r)
  then show ?thesis
    using assms findMatchingRun_SomeD [OF Some]
    by (auto simp: adopt_or_create_def prog_simps push_def has_run_def)
next
  case None
  obtain uuid d where ids: "ce_newRunId env (co_clock s) (bi_issueNumber item) = (uuid, d)" by fastforce
  show ?thesis
    using assms None
    by (auto simp: adopt_or_create_def prog_simps throw_def ids Let_def has_run_def on_runs_def
        dest!: insertIfNoActive_mem createRun_head split: sum.split_asm)
qed

lemma ensureJobEnqueued_job:
  assumes "ensureJobEnqueued env (b_repoId b) u issue s = (Inr r, s')"
  shows "has_job b u s' \<and> ct_runs (co_tables s') = ct_runs (co_tables s)"
proof (cases "list_ex (active_job u) (listForRepo (ce_jobScope env) (ct_jobs (co_tables s)) (b_repoId b))")
  case True
  then have "has_job b u s" by (auto simp: list_ex_iff listForRepo_def has_job_def split: if_split_asm)
  then show ?thesis using assms True by (simp add: ensureJobEnqueued_def prog_simps)
next
  case False
  then show ?thesis
    using assms by (auto simp: ensureJobEnqueued_def prog_simps Let_def throw_def on_jobs_def has_job_def
        enqueue_def createJob_def active_job_def split: sum.split_asm if_split_asm)
qed

definition started_at :: "ident \<Rightarrow> string \<Rightarrow> co_state \<Rightarrow> bool" where
  "started_at u sha s \<longleftrightarrow>
     (\<forall>r \<in> set (ct_runs (co_tables s)). r_uuid r = u \<longrightarrow> rr_startCommitSha r = Some sha)"

lemma has_run_cong: "ct_runs (co_tables s') = ct_runs (co_tables s) \<Longrightarrow> has_run b item u s' = has_run b item u s"
  by (simp add: has_run_def)

lemma update_start:
  assumes "sha \<noteq> None" and "has_run b item u s" and "has_job b u s"
    and "update_run u (empty_patch\<lparr>rp_startCommitSha := sha\<rparr>) s = (Inr r, s')"
  shows "has_run b item u s' \<and> has_job b u s' \<and> started_at u (the sha) s'"
proof -
  let ?p = "empty_patch\<lparr>rp_startCommitSha := sha\<rparr>"
  have ne: "?p \<noteq> empty_patch" using assms(1) by (auto simp: empty_patch_def)
  have row: "r_uuid (patch_row ?p q) = r_uuid q" "r_repoId (patch_row ?p q) = r_repoId q"
    "r_issueNumber (patch_row ?p q) = r_issueNumber q" "rr_startCommitSha (patch_row ?p q) = sha" for q
    using assms(1) by (simp_all add: patch_row_def)
  have s': "ct_runs (co_tables s') = map (\<lambda>r. if r_uuid r = u then patch_row ?p r else r) (ct_runs (co_tables s))"
    "ct_jobs (co_tables s') = ct_jobs (co_tables s)"
    using assms(4) ne by (auto simp: update_run_def prog_simps on_runs_def updateRun_def)
  define f where "f = (\<lambda>q. if r_uuid q = u then patch_row ?p q else q)"
  have f: "r_uuid (f q) = r_uuid q" "r_repoId (f q) = r_repoId q" "r_issueNumber (f q) = r_issueNumber q"
    "r_uuid q = u \<Longrightarrow> rr_startCommitSha (f q) = Some (the sha)" for q
    using assms(1) by (simp_all add: f_def row)
  have runs: "ct_runs (co_tables s') = map f (ct_runs (co_tables s))" by (simp add: s'(1) f_def)
  have "has_run b item u s'" using assms(2) by (auto simp: has_run_def runs f)
  moreover have "started_at u (the sha) s'" by (simp add: started_at_def runs f)
  ultimately show ?thesis using assms(3) by (simp add: has_job_def s'(2))
qed

lemma find_update:
  "find_index P xs = Some k \<Longrightarrow> P x \<Longrightarrow> List.find P (xs[k := x]) = Some x"
  by (induction xs arbitrary: k) (auto split: if_split_asm)

lemma admitItem_active:
  assumes "admitItem b p (Some u) base now = Inr b'" and "base \<noteq> None"
  shows "\<exists>i. item_at b' p = Some i \<and> bi_status i = IActive \<and> bi_runUuid i = Some u \<and> bi_baseSha i = base"
proof -
  obtain k where k: "find_index (\<lambda>i. bi_position i = p) (b_items b) = Some k"
      "b_items b' = (b_items b)[k := (b_items b ! k)\<lparr>bi_blockedReason := None, bi_status := IActive,
         bi_startedAt := (case bi_startedAt (b_items b ! k) of None \<Rightarrow> Some now | Some t \<Rightarrow> Some t),
         bi_runUuid := Some u, bi_baseSha := base\<rparr>]"
    using assms by (auto simp: admitItem_def with_item_def set_item_def Let_def
        split: option.split_asm if_split_asm)
  have "bi_position (b_items b ! k) = p" using find_index_SomeD [OF k(1)] by simp
  then show ?thesis
    unfolding item_at_def k(2) by (subst find_update [OF k(1)]) auto
qed

text \<open>
  C27. When \<open>admitSuccessor\<close> returns, everything the item needs is in place: the item is active
  under a run of its issue, a job of that run is queued, claimed or running, and the run starts at
  the base recorded for the item, which for every item but the first is not the commit the batch
  started from.
\<close>

theorem admitted_ready:
  assumes "admitSuccessor env b item explicitBase s = (Inr b', s')"
  shows "\<exists>u sha i. item_at b' (bi_position item) = Some i \<and> bi_status i = IActive \<and>
    bi_runUuid i = Some u \<and> bi_baseSha i = Some sha \<and> sha \<noteq> [] \<and>
    (1 < bi_position item \<longrightarrow> sha \<noteq> b_sourceStartSha b) \<and>
    has_run b item u s' \<and> has_job b u s' \<and> started_at u sha s'"
proof -
  let ?base = "coalesce explicitBase (coalesce (bi_baseSha item) (resolveBaseShaForPosition b (bi_position item)))"
  from assms obtain u s1 where u: "adopt_or_create env b item s = (Inr u, s1)"
    by (auto simp: admitSuccessor_def bnd_run split: prod.split_asm sum.split_asm)
  from assms u obtain r s2 where r: "ensureJobEnqueued env (b_repoId b) u (bi_issueNumber item) s1 = (Inr r, s2)"
    by (auto simp: admitSuccessor_def bnd_run split: prod.split_asm sum.split_asm)
  obtain s3 where s3: "only_if r (push [Job_recovered]) s2 = (Inr (), s3)" "co_tables s3 = co_tables s2"
    by (cases r) (auto simp: only_if_def push_def prog_simps)
  have base: "truthy ?base" "\<not> (bi_position item > 1 \<and> ?base = Some (b_sourceStartSha b))"
    using assms u r s3 by (auto simp: admitSuccessor_def bnd_run sq_run Let_def throw_def stop_run
        split: if_split_asm)
  obtain s4 where s4: "update_run u (empty_patch\<lparr>rp_startCommitSha := ?base\<rparr>) s3 = (Inr (), s4)"
    by (simp add: update_run_def prog_simps)
  have rest: "bnd (dom_call (admitItem b (bi_position item) (Some u) ?base (ce_now env))) (\<lambda>updated.
      sq (save updated) (sq (push [Successor_admitted])
        (sq (publishEvent updated ''release_batch.item_admitted'' (Some u)) (ret updated)))) s4 = (Inr b', s')"
    using assms u r s3(1) s4 base
    by (simp add: admitSuccessor_def bnd_run sq_run Let_def split: if_split_asm)
  then have admitted: "admitItem b (bi_position item) (Some u) ?base (ce_now env) = Inr b'"
    and tables: "ct_runs (co_tables s') = ct_runs (co_tables s4)" "ct_jobs (co_tables s') = ct_jobs (co_tables s4)"
    by (auto simp: dom_call_def save_def push_def publishEvent_def on_batches_def throw_def prog_simps
        split: sum.split_asm)
  obtain sha where sha: "?base = Some sha" "sha \<noteq> []" using base(1) by (auto simp: truthy_iff)
  have "has_run b item u s1" by (rule adopt_or_create_run [OF u])
  then have "has_run b item u s3" "has_job b u s3"
    using ensureJobEnqueued_job [OF r] s3(2) by (simp_all add: has_run_def has_job_def)
  from update_start [OF _ this s4] have "has_run b item u s4" "has_job b u s4" "started_at u sha s4"
    by (simp_all add: sha)
  then have "has_run b item u s'" "has_job b u s'" "started_at u sha s'"
    using tables by (simp_all add: has_run_def has_job_def started_at_def)
  moreover obtain i where "item_at b' (bi_position item) = Some i" "bi_status i = IActive"
      "bi_runUuid i = Some u" "bi_baseSha i = Some sha"
    using admitItem_active [OF admitted] sha by auto
  ultimately show ?thesis using sha base(2) by blast
qed

definition admitted_state :: co_state where
  "admitted_state = snd (admitSuccessor sample_env sample_batch (hd (b_items sample_batch)) None
     (start_state sample_batch []))"

theorem admitted_ready_witness:
  "\<exists>u sha. has_run sample_batch (hd (b_items sample_batch)) u admitted_state \<and>
     has_job sample_batch u admitted_state \<and> started_at u sha admitted_state"
proof -
  have "isl (fst (admitSuccessor sample_env sample_batch (hd (b_items sample_batch)) None
      (start_state sample_batch []))) = False" by code_simp
  then obtain b' where "fst (admitSuccessor sample_env sample_batch (hd (b_items sample_batch)) None
      (start_state sample_batch [])) = Inr b'"
    by (cases "fst (admitSuccessor sample_env sample_batch (hd (b_items sample_batch)) None
      (start_state sample_batch []))") simp_all
  then have "admitSuccessor sample_env sample_batch (hd (b_items sample_batch)) None
      (start_state sample_batch []) = (Inr b', admitted_state)"
    by (simp add: admitted_state_def prod_eq_iff)
  from admitted_ready [OF this] show ?thesis by blast
qed

section \<open>Batches that stay as they are\<close>

text \<open>
  A terminal batch is left alone, and so is a batch whose items are all merged but which is
  neither building, in test, approved or promoting nor blocked by a promotion that can recover:
  \<open>reconcile\<close> only reports \<open>idle\<close> or \<open>unexpected_status\<close> and changes no table. A batch blocked by
  the maintenance after its last item is in that second group for good, whatever the environment
  says later.
\<close>

theorem reconcile_leaves_alone:
  assumes "findBatch (ct_batches (co_tables s)) bid = Some b"
    and "batch_terminal (b_status b) \<or> list_all (\<lambda>i. bi_status i = IMerged) (b_items b) \<and>
      \<not> isAllItemsMergedAllowedStatus (b_status b) \<and> \<not> isPromotionRecoveryEligible env b"
  shows "reconcile (Suc fuel) env bid s = (Inl Returned, s\<lparr>co_batch := b,
    co_actions := [if batch_terminal (b_status b) then Idle else Unexpected_status]\<rparr>)"
proof -
  have "filter (\<lambda>i. bi_status i \<noteq> IMerged) (b_items b) = []"
    if "list_all (\<lambda>i. bi_status i = IMerged) (b_items b)"
    using that by (simp add: list_all_iff)
  then show ?thesis
    using assms by (auto simp: reconcile_body_def reconcile_from_def set_batch_def return_actions_def
        returned_def prog_simps)
qed

definition sample_unhealthy :: release_batch where
  "sample_unhealthy = after_ops
     [Admit 1 (Some ''u1'') None 1, Waiting_merge 1 101, Merged 1 ''m1'' 2,
      Admit 2 (Some ''u2'') None 3, Waiting_merge 2 102, Merged 2 ''m2'' 4,
      Block_batch ''environment_unhealthy'']"

theorem reconcile_leaves_alone_witness:
  "co_actions (snd (reconcile 1 sample_env ''b'' (start_state sample_unhealthy []))) = [Unexpected_status]"
proof -
  have "findBatch (ct_batches (co_tables (start_state sample_unhealthy []))) ''b'' = Some sample_unhealthy"
    "list_all (\<lambda>i. bi_status i = IMerged) (b_items sample_unhealthy)"
    "\<not> isAllItemsMergedAllowedStatus (b_status sample_unhealthy)"
    "\<not> isPromotionRecoveryEligible sample_env sample_unhealthy" "\<not> batch_terminal (b_status sample_unhealthy)"
    by code_simp+
  then show ?thesis
    using reconcile_leaves_alone [of "start_state sample_unhealthy []" "''b''" sample_unhealthy sample_env 0]
    by simp
qed

section \<open>A pull request merged by hand\<close>

lemma find_find_index:
  "List.find P xs = map_option ((!) xs) (find_index P xs)"
  by (induction xs) (auto simp: option.map_comp comp_def)

text \<open>
  An item blocked because its run asks for human review stays blocked when the human merges
  its pull request: the step finds the merge, tries to certify it and fails, because a blocked
  item cannot become merged, with every table left as it was. Only the blockers of the pull request
  itself are lifted before the merge is certified.
\<close>

theorem merge_of_blocked_item_fails:
  assumes "ce_meanwhile env = (\<lambda>_ t. t)" and "ce_github env" and "\<not> ce_git env"
    and "ce_findRepo env (b_repoId b) \<noteq> None"
    and "co_batch s = b" and "findBatch (ct_batches (co_tables s)) (b_id b) = Some b"
    and "\<not> batch_terminal (b_status b)"
    and "item_at b (bi_position item) = Some item" and "bi_status item = IBlocked"
    and "bi_blockedReason item = Some ''needs_human_review''"
    and "bi_runUuid item = Some u" and "u \<noteq> []"
    and "findRunByUuid (ce_runStore env) (ct_runs (co_tables s)) u = Some run"
    and "r_status run = RNeedsHumanReview"
    and "bi_prNumber item = Some pr" and "pr \<noteq> 0"
    and "\<And>k. ce_readiness env k pr = Inr r" and "pr_is_merged r" and "rd_state r = Pr_merged"
    and "rd_baseRefName r = Some (b_releaseBranch b)"
    and "rd_mergeCommitSha r = Some sha" and "\<not> js_blank sha"
  shows "fst (started_stage env rec item s) = Inl (Threw (Batch_exn (ReleaseBatchStateError ''not waiting or active''))) \<and>
    co_tables (snd (started_stage env rec item s)) = co_tables s"
proof -
  let ?b = "co_batch s" and ?p = "bi_position item"
  let ?s1 = "s\<lparr>co_clock := Suc (co_clock s)\<rparr>"
  have found: "findBatch (ct_batches (co_tables s)) (b_id ?b) = Some ?b" using assms(5,6) by simp
  obtain k where k: "find_index (\<lambda>i. bi_position i = ?p) (b_items b) = Some k" "b_items b ! k = item"
    using assms(8) find_find_index [of "\<lambda>i. bi_position i = ?p" "b_items b"] by (auto simp: item_at_def)
  have mark: "markItemMerged b ?p sha t = Inl (ReleaseBatchStateError ''not waiting or active'')" for t
    using k assms(7,9,22) by (simp add: markItemMerged_def assertNotTerminal_def with_item_def)
  have cert: "certifyItemMerged env rec' (b_id b) ?p sha t s' =
      (Inl (Threw (Batch_exn (ReleaseBatchStateError ''not waiting or active''))), s')"
    if "co_tables s' = co_tables s" for rec' t s'
    using that assms(6,8,9) mark by (simp add: certifyItemMerged_def prog_simps dom_call_def)
  have commit: "merged_commit env b r s' = (Inr sha, s')" for s'
    using assms(3,21,22) by (auto simp: merged_commit_def prog_simps js_blank_iff truthy_iff)
  have answer: "attempt (extern env (\<lambda>n. ce_readiness env n pr)) s = (Inr (Inr r), ?s1)"
    using assms(1,17) by (simp add: attempt_def catch_def extern_def prog_simps)
  have ok: "pr_blocker b r pr = None" "\<not> isPrBlocker item"
    using assms(10,18,19,20) by (simp_all add: pr_blocker_def isPrBlocker_def starts_with_def)
  have check: "checkAndReconcilePrMerge env rec ?p pr s =
      (Inl (Threw (Batch_exn (ReleaseBatchStateError ''not waiting or active''))), ?s1)"
    using assms(2,4,5,8,18) ok cert commit answer
    by (simp add: checkAndReconcilePrMerge_def prog_simps only_if_def)
  have state: "run_state_stage env item run RNeedsHumanReview s = (Inr (), s)"
    using assms(9,10) by (simp add: block_for_run_def block_item_for_def only_if_def prog_simps)
  have run: "find_run env (bi_runUuid item) s = (Inr (Some run), s)"
    using assms(11,13) by (simp add: find_run_def prog_simps)
  show ?thesis
    using assms(2,5,8,11,12,14,15,16) run state check
    by (simp add: started_stage_def prog_simps only_if_def)
qed

definition review_env :: co_env where
  "review_env = sample_env\<lparr>ce_readiness := (\<lambda>_ _. Inr \<lparr>rd_state = Pr_merged, rd_isMerged = True,
     rd_ciStatus = Ci_passed, rd_autoMergeEnabled = None, rd_baseRefName = Some ''release'',
     rd_mergeCommitSha = Some ''m''\<rparr>)\<rparr>"

definition review_batch :: release_batch where
  "review_batch = after_ops [Admit 1 (Some ''u1'') (Some ''s0'') 1, Attach_pr 1 101,
     Block_item 1 ''needs_human_review'']"

definition review_state :: co_state where
  "review_state = start_state review_batch [sample_run\<lparr>r_status := RNeedsHumanReview\<rparr>]"

theorem merge_of_blocked_item_fails_witness:
  "fst (started_stage review_env (reconcile 9 review_env) (hd (b_items review_batch)) review_state) =
     Inl (Threw (Batch_exn (ReleaseBatchStateError ''not waiting or active'')))"
proof -
  note facts = merge_of_blocked_item_fails [of review_env review_batch review_state
      "hd (b_items review_batch)" "''u1''" "toRecord (sample_run\<lparr>r_status := RNeedsHumanReview\<rparr>)" 101
      "\<lparr>rd_state = Pr_merged, rd_isMerged = True, rd_ciStatus = Ci_passed, rd_autoMergeEnabled = None,
        rd_baseRefName = Some ''release'', rd_mergeCommitSha = Some ''m''\<rparr>" "''m''" "reconcile 9 review_env"]
  have env: "ce_meanwhile review_env = (\<lambda>_ t. t)" "ce_github review_env" "\<not> ce_git review_env"
    "ce_findRepo review_env ''r'' = Some sample_repo"
    by (simp_all add: review_env_def sample_env_def)
  have batch: "b_repoId review_batch = ''r''" "b_releaseBranch review_batch = ''release''"
    "\<not> batch_terminal (b_status review_batch)" "co_batch review_state = review_batch"
    "findBatch (ct_batches (co_tables review_state)) (b_id review_batch) = Some review_batch"
    by code_simp+
  have item: "item_at review_batch (bi_position (hd (b_items review_batch))) = Some (hd (b_items review_batch))"
    "bi_status (hd (b_items review_batch)) = IBlocked"
    "bi_blockedReason (hd (b_items review_batch)) = Some ''needs_human_review''"
    "bi_runUuid (hd (b_items review_batch)) = Some ''u1''" "bi_prNumber (hd (b_items review_batch)) = Some 101"
    "findRunByUuid (ce_runStore review_env) (ct_runs (co_tables review_state)) ''u1'' =
       Some (toRecord (sample_run\<lparr>r_status := RNeedsHumanReview\<rparr>))" "\<not> js_blank ''m''"
    by code_simp+
  show ?thesis
    using facts env batch item by (simp add: review_env_def pr_is_merged_def toRecord_def)
qed

end
