(* ===== verification/Text.thy ===== *)
theory Text
  imports Prelude
begin

text \<open>
  String functions of JavaScript the components use: \<open>includes\<close>, \<open>split\<close> at a character,
  \<open>join\<close>, \<open>toLowerCase\<close> on ASCII, and their laws.
\<close>

section \<open>\<open>includes\<close>\<close>

fun has_infix :: "string \<Rightarrow> string \<Rightarrow> bool" where
  "has_infix p [] = (p = [])"
| "has_infix p (c # s) = (take (length p) (c # s) = p \<or> has_infix p s)"

lemma has_infix_iff: "has_infix p s \<longleftrightarrow> (\<exists>xs ys. s = xs @ p @ ys)"
proof (induction p s rule: has_infix.induct)
  case (2 p c s)
  have "take (length p) (c # s) = p \<longleftrightarrow> (\<exists>ys. c # s = p @ ys)"
    by (metis append_eq_conv_conj append_take_drop_id)
  moreover have "(\<exists>xs ys. c # s = xs @ p @ ys) \<longleftrightarrow>
      (\<exists>ys. c # s = p @ ys) \<or> (\<exists>xs ys. s = xs @ p @ ys)"
    by (auto simp: Cons_eq_append_conv)
  ultimately show ?case using 2 by simp
qed simp

lemma has_infix_chars: "has_infix p s \<Longrightarrow> set p \<subseteq> set s"
  by (auto simp: has_infix_iff)

section \<open>\<open>split\<close> and \<open>join\<close>\<close>

fun split_on :: "char \<Rightarrow> string \<Rightarrow> string list" where
  "split_on c [] = [[]]"
| "split_on c (d # s) =
     (if d = c then [] # split_on c s
      else case split_on c s of x # xs \<Rightarrow> (d # x) # xs | [] \<Rightarrow> [[d]])"

fun join_with :: "char \<Rightarrow> string list \<Rightarrow> string" where
  "join_with c [] = []"
| "join_with c [x] = x"
| "join_with c (x # y # ys) = x @ c # join_with c (y # ys)"

lemma split_on_nonempty [simp]: "split_on c s \<noteq> []"
  by (cases s) (simp_all split: list.split)

lemma split_on_parts: "x \<in> set (split_on c s) \<Longrightarrow> c \<notin> set x \<and> set x \<subseteq> set s"
proof (induction s arbitrary: x)
  case (Cons d s)
  obtain y ys where split: "split_on c s = y # ys" by (meson split_on_nonempty list.exhaust)
  then have "c \<notin> set y \<and> set y \<subseteq> set s" using Cons.IH by simp
  then show ?case using Cons split by (fastforce split: if_split_asm)
qed simp

lemma join_split: "join_with c (split_on c s) = s"
proof (induction s)
  case (Cons d s)
  obtain x xs where "split_on c s = x # xs" by (meson split_on_nonempty list.exhaust)
  then show ?case using Cons by (cases xs) auto
qed simp

lemma split_on_append:
  "c \<notin> set x \<Longrightarrow> split_on c (x @ c # s) = x # split_on c s"
  by (induction x) auto

lemma split_on_plain: "c \<notin> set x \<Longrightarrow> split_on c x = [x]"
  by (induction x) auto

lemma split_join:
  assumes "xs \<noteq> []" and "\<forall>x \<in> set xs. c \<notin> set x"
  shows "split_on c (join_with c xs) = xs"
  using assms by (induction c xs rule: join_with.induct) (auto simp: split_on_append split_on_plain)

lemma set_join: "set (join_with c xs) \<subseteq> insert c (\<Union>x \<in> set xs. set x)"
  by (induction c xs rule: join_with.induct) auto

section \<open>Trimming\<close>

lemma js_trim_subset: "set (js_trim s) \<subseteq> set s"
  unfolding js_trim_def by (auto dest!: set_dropWhileD)

text \<open>\<open>toLowerCase\<close> of the ASCII letters.\<close>

definition lower_ascii :: "char \<Rightarrow> char" where
  "lower_ascii c = (let n = of_char c :: nat in if 65 \<le> n \<and> n \<le> 90 then char_of (n + 32) else c)"

definition to_lower :: "string \<Rightarrow> string" where
  "to_lower s = map lower_ascii s"

end
