(* ===== verification/Coordinator_Integrate.thy ===== *)
theory Coordinator_Integrate
  imports Coordinator_Steps Text
begin

text \<open>
  \<open>integrateSourceBranch\<close> of the coordinator: the source branch is merged into the release branch
  in a worktree of its own, pushed, checked against the remote and reconciled. The operations on
  worktrees are further ports, answering by the number of the call like the ones of \<open>co_env\<close>.
\<close>

section \<open>Ports and results\<close>

record worktree_env =
  we_suffix :: "nat \<Rightarrow> string"
  we_create :: "nat \<Rightarrow> string \<Rightarrow> string \<Rightarrow> string + unit"
  we_currentBranch :: "nat \<Rightarrow> string \<Rightarrow> string + string"
  we_merge :: "nat \<Rightarrow> string \<Rightarrow> string \<Rightarrow> string + (string option + unit)"
  we_push :: "nat \<Rightarrow> string \<Rightarrow> string \<Rightarrow> string + unit"
  we_head :: "nat \<Rightarrow> string \<Rightarrow> string + string"
  we_remove :: "nat \<Rightarrow> string \<Rightarrow> string + unit"

datatype integrate_result =
    Already_integrated string
  | Integrated string
  | Not_integrated string

section \<open>The worktree\<close>

definition safe_char :: "char \<Rightarrow> bool" where
  "safe_char c \<longleftrightarrow> c \<in> set ''abcdefghijklmnopqrstuvwxyzABCDEFGHIJKLMNOPQRSTUVWXYZ0123456789_-''"

definition safe_component :: "ident \<Rightarrow> string" where
  "safe_component bid = (let s = map (\<lambda>c. if safe_char c then c else CHR ''_'') bid
     in if s = [] then ''batch'' else s)"

definition worktree_dir :: "ident \<Rightarrow> string \<Rightarrow> string" where
  "worktree_dir bid rnd = ''integrate-'' @ safe_component bid @ ''-'' @ rnd"

definition worktrees_root :: "string \<Rightarrow> string" where
  "worktrees_root base = rev (dropWhile (\<lambda>c. c = CHR ''/'')
     (rev (map (\<lambda>c. if c = CHR 0x5C then CHR ''/'' else c) base))) @ ''/.ai-worktrees''"

text \<open>The guard before the worktree is created.\<close>

definition escapes_root :: "string \<Rightarrow> string \<Rightarrow> bool" where
  "escapes_root base dir \<longleftrightarrow>
     take (length (worktrees_root base) + 1) (worktrees_root base @ ''/'' @ dir) \<noteq> worktrees_root base @ ''/'' \<or>
     has_infix ''/'' dir \<or> has_infix [CHR 0x5C] dir \<or> has_infix ''..'' dir"

definition absent_message :: "string \<Rightarrow> bool" where
  "absent_message msg \<longleftrightarrow> has_infix ''no worktree'' msg \<or> has_infix ''does not exist'' msg \<or>
     has_infix ''ENOENT'' msg \<or> has_infix ''not a valid'' msg"

definition removeWorktreeToleratingAbsent :: "co_env \<Rightarrow> worktree_env \<Rightarrow> string \<Rightarrow> unit co" where
  "removeWorktreeToleratingAbsent env we path =
     bnd (attempt (extern env (\<lambda>n. we_remove we n path))) (\<lambda>r. case r of
       Inr _ \<Rightarrow> ret ()
     | Inl e \<Rightarrow> if absent_message (exn_message e) then ret () else throw e)"

section \<open>\<open>integrateSourceBranch\<close>\<close>

text \<open>
  \<open>integrate_merge\<close> is the body of the \<open>try\<close>. Its value is the result and the flag
  \<open>worktreeCleanedUp\<close>; an exception loses the flag, which is then the second argument of
  \<open>co_integrate\<close>'s cleanup.
\<close>

definition lift_drift :: "release_batch \<Rightarrow> unit co" where
  "lift_drift b = only_if (b_status b = BBlocked \<and> b_blockedReason b = Some ''source_branch_advanced'')
     (bnd (dom_call (unblockBatch b)) save)"

definition merge_and_push :: "co_env \<Rightarrow> worktree_env \<Rightarrow> release_batch \<Rightarrow> string \<Rightarrow> string \<Rightarrow> (string + string) co" where
  "merge_and_push env we b path oldRelease =
     bnd (extern env (\<lambda>n. we_currentBranch we n path)) (\<lambda>branch.
     if branch \<noteq> b_releaseBranch b then ret (Inl (''Worktree branch mismatch: expected '' @ b_releaseBranch b @ '', got '' @ branch))
     else bnd (extern env (\<lambda>n. we_merge we n path (''origin/'' @ b_sourceBranch b))) (\<lambda>merged. case merged of
       Inl e \<Rightarrow> ret (Inl (case e of Some msg \<Rightarrow> msg
         | None \<Rightarrow> ''Merge conflict integrating source branch into release branch''))
     | Inr _ \<Rightarrow>
       sq (extern env (\<lambda>n. we_push we n path (b_releaseBranch b)))
       (sq (fetch env (b_sourceBranch b))
       (sq (fetch env (b_releaseBranch b))
       (bnd (resolveRef env (b_sourceBranch b)) (\<lambda>source.
        bnd (resolveRef env (b_releaseBranch b)) (\<lambda>release.
        bnd (extern env (\<lambda>n. we_head we n path)) (\<lambda>head.
        if \<not> truthy source \<or> \<not> truthy release \<or> head = []
        then ret (Inl ''Could not resolve updated remote refs or worktree head'')
        else if the release = oldRelease
        then ret (Inl ''Remote release branch head did not advance after push'')
        else if head \<noteq> the release
        then ret (Inl (''Worktree head ('' @ head @ '') does not match updated remote release head ('' @ the release @ '')''))
        else bnd (extern env (\<lambda>n. ce_isAncestor env n (the source) (the release))) (\<lambda>contained.
          if \<not> contained
          then ret (Inl (''Source branch ('' @ the source @ '') is not an ancestor of updated release head ('' @ the release @ '')''))
          else ret (Inr (the release)))))))))))"

text \<open>After the checks: the worktree goes first, and its removal has to succeed.\<close>

definition announce_integration :: "co_env \<Rightarrow> (ident \<Rightarrow> unit co) \<Rightarrow> release_batch \<Rightarrow> unit co" where
  "announce_integration env rec b =
     sq (publishEvent b ''release_batch.source_drift_integrated'' None)
     (sq (lift_drift b) (rec (b_id b)))"

definition remove_quietly :: "co_env \<Rightarrow> worktree_env \<Rightarrow> string \<Rightarrow> unit co" where
  "remove_quietly env we path = attempt_quietly (removeWorktreeToleratingAbsent env we path)"

definition integrate_in_worktree ::
  "co_env \<Rightarrow> worktree_env \<Rightarrow> (ident \<Rightarrow> unit co) \<Rightarrow> release_batch \<Rightarrow> string \<Rightarrow> string \<Rightarrow> integrate_result co" where
  "integrate_in_worktree env we rec b path oldRelease =
     bnd (attempt (extern env (\<lambda>n. we_create we n path (b_releaseBranch b)))) (\<lambda>created. case created of
       Inl e \<Rightarrow> ret (Not_integrated (exn_message e))
     | Inr _ \<Rightarrow>
       bnd (attempt (merge_and_push env we b path oldRelease)) (\<lambda>r. case r of
         Inl e \<Rightarrow> sq (remove_quietly env we path) (ret (Not_integrated (exn_message e)))
       | Inr (Inl msg) \<Rightarrow> sq (remove_quietly env we path) (ret (Not_integrated msg))
       | Inr (Inr newRelease) \<Rightarrow>
         bnd (attempt (removeWorktreeToleratingAbsent env we path)) (\<lambda>removed. case removed of
           Inl e \<Rightarrow> sq (remove_quietly env we path)
             (ret (Not_integrated (''Failed to remove worktree '' @ path @ '': '' @ exn_message e)))
         | Inr _ \<Rightarrow>
           bnd (attempt (announce_integration env rec b)) (\<lambda>announced. case announced of
             Inl e \<Rightarrow> ret (Not_integrated (exn_message e))
           | Inr _ \<Rightarrow> ret (Integrated newRelease)))))"

definition integrate_from ::
  "co_env \<Rightarrow> worktree_env \<Rightarrow> (ident \<Rightarrow> unit co) \<Rightarrow> release_batch \<Rightarrow> integrate_result co" where
  "integrate_from env we rec b = (case ce_findRepo env (b_repoId b) of
       None \<Rightarrow> ret (Not_integrated ''Git or repository not available'')
     | Some repo \<Rightarrow>
       if \<not> ce_git env then ret (Not_integrated ''Git or repository not available'')
       else
       sq (fetch env (b_sourceBranch b))
       (sq (fetch env (b_releaseBranch b))
       (bnd (resolveRef env (b_sourceBranch b)) (\<lambda>source.
        bnd (resolveRef env (b_releaseBranch b)) (\<lambda>release.
        if \<not> truthy source \<or> \<not> truthy release
        then ret (Not_integrated ''Could not resolve source or release branch ref'')
        else bnd (extern env (\<lambda>n. ce_isAncestor env n (the source) (the release))) (\<lambda>contained.
          if contained then
            sq (only_if (b_status b = BBlocked \<and> b_blockedReason b = Some ''source_branch_advanced'')
                  (sq (lift_drift b) (rec (b_id b))))
               (ret (Already_integrated (the release)))
          else bnd (ask co_clock) (\<lambda>n.
            let dir = worktree_dir (b_id b) (we_suffix we n);
                path = worktrees_root (r_localBasePath repo) @ ''/'' @ dir
            in if escapes_root (r_localBasePath repo) dir
               then ret (Not_integrated (''Resolved worktree path escapes root: '' @ path))
               else integrate_in_worktree env we rec b path (the release))))))))"

definition integrateSourceBranch ::
  "nat \<Rightarrow> co_env \<Rightarrow> worktree_env \<Rightarrow> ident \<Rightarrow> integrate_result co" where
  "integrateSourceBranch fuel env we bid =
     bnd (ask (\<lambda>s. findBatch (ct_batches (co_tables s)) bid)) (\<lambda>found. case found of
       None \<Rightarrow> throw (Batch_exn (ReleaseBatchStateError ''batch not found''))
     | Some b \<Rightarrow> integrate_from env we (\<lambda>i. call (reconcile fuel env i)) b)"

section \<open>The directory never escapes\<close>

definition hex_string :: "string \<Rightarrow> bool" where
  "hex_string s \<longleftrightarrow> set s \<subseteq> set ''0123456789abcdef-''"

lemma worktree_dir_chars:
  assumes "hex_string rnd"
  shows "CHR ''/'' \<notin> set (worktree_dir bid rnd)" "CHR 0x5C \<notin> set (worktree_dir bid rnd)"
    "CHR ''.'' \<notin> set (worktree_dir bid rnd)"
  using assms by (auto simp: worktree_dir_def safe_component_def Let_def hex_string_def safe_char_def)

text \<open>
  The name of the worktree directory is safe whatever the id of the batch is: it contains
  no separator and no dots, because the id is sanitized and the suffix comes from a random
  UUID. So the guard against a path outside the worktrees directory never fires.
\<close>

theorem worktree_stays_inside:
  assumes "hex_string rnd"
  shows "\<not> escapes_root base (worktree_dir bid rnd)"
  using worktree_dir_chars [OF assms] has_infix_chars by (fastforce simp: escapes_root_def)

theorem worktree_stays_inside_witness:
  "\<not> escapes_root ''/r/'' (worktree_dir ''../../etc'' ''0a1b2c3d'')"
  by (rule worktree_stays_inside) (simp add: hex_string_def)

section \<open>Integration keeps the laws\<close>

definition contained_release :: "co_env \<Rightarrow> string \<Rightarrow> bool" where
  "contained_release env release \<longleftrightarrow> (\<exists>k source. ce_isAncestor env k source release = Inr True)"

definition integration_ok :: "co_env \<Rightarrow> integrate_result \<Rightarrow> bool" where
  "integration_ok env r = (case r of
     Already_integrated sha \<Rightarrow> contained_release env sha
   | Integrated sha \<Rightarrow> contained_release env sha
   | Not_integrated msg \<Rightarrow> True)"

context batch_law begin

lemma remove_yields: "yields (J loc) any X (removeWorktreeToleratingAbsent env we path)"
  unfolding removeWorktreeToleratingAbsent_def by (rule core_rules | assumption)+

lemma lift_drift_yields: "G b \<Longrightarrow> yields (J loc) any X (lift_drift b)"
  unfolding lift_drift_def by (rule core_rules | assumption)+

lemma merge_and_push_yields:
  "yields (J loc) (\<lambda>r. case r of Inl msg \<Rightarrow> True | Inr sha \<Rightarrow> sha \<noteq> old \<and> contained_release env sha) X
     (merge_and_push env we b path old)"
  unfolding merge_and_push_def
  by (rule fetch_yields extern_yields [THEN yields_any] yields_bnd [OF resolveRef_yields]
      yields_bnd [OF extern_yields] yields_ret yields_sq yields_sum yields_if
      | (force simp: contained_release_def truthy_iff; fail))+

lemma announce_yields:
  assumes "G b" and "\<And>x. x \<in> K \<Longrightarrow> yields (J loc) any X (rec x)"
  shows "yields (J loc) any X (announce_integration env rec b)"
  unfolding announce_integration_def
  by (rule quiet_yields(2) lift_drift_yields assms G_id yields_sq)+

lemma integrate_in_worktree_yields:
  assumes "G b" and "\<And>x. x \<in> K \<Longrightarrow> yields (J loc) any X (rec x)"
  shows "yields (J loc) (integration_ok env) X (integrate_in_worktree env we rec b path old)"
proof -
  have failed: "yields (J loc) (integration_ok env) X (ret (Not_integrated msg))" for msg
    by (rule yields_ret) (simp add: integration_ok_def)
  have checked: "yields (J loc) (integration_ok env) X (bnd (attempt (merge_and_push env we b path old)) k)"
    if "\<And>e. yields (J loc) (integration_ok env) X (k (Inl e))"
      "\<And>m. yields (J loc) (integration_ok env) X (k (Inr (Inl m)))"
      "\<And>sha. contained_release env sha \<Longrightarrow> yields (J loc) (integration_ok env) X (k (Inr (Inr sha)))" for k
  proof (rule yields_bnd [OF attempt_yields [OF merge_and_push_yields]])
    fix r :: "co_exn + string + string"
    assume r: "case r of Inl e \<Rightarrow> True
      | Inr x \<Rightarrow> (case x of Inl msg \<Rightarrow> True | Inr sha \<Rightarrow> sha \<noteq> old \<and> contained_release env sha)"
    show "yields (J loc) (integration_ok env) X (k r)"
    proof (cases r)
      case (Inr x)
      then show ?thesis using r that(2,3) by (cases x) simp_all
    qed (use that(1) in simp)
  qed
  have quietly: "yields (J loc) any X (remove_quietly env we path)"
    unfolding remove_quietly_def by (rule attempt_quietly_yields [OF remove_yields])
  have finish: "yields (J loc) (integration_ok env) X (ret (Integrated sha))" if "contained_release env sha" for sha
    using that by (intro yields_ret) (simp add: integration_ok_def)
  show ?thesis
    unfolding integrate_in_worktree_def
    by (rule yields_bnd [OF attempt_yields [OF yields_any [OF extern_yields]]], rule yields_sum, rule failed,
        rule checked; simp only: sum.case)
      (intro yields_sq [OF quietly] failed,
       intro yields_sq [OF quietly] failed,
       rule yields_bnd [OF attempt_yields [OF remove_yields]], rule yields_sum,
       intro yields_sq [OF quietly] failed,
       rule yields_bnd [OF attempt_yields [OF announce_yields [OF assms]]], assumption, rule yields_sum,
       rule failed, erule finish)
qed

lemma integrate_from_yields:
  assumes "G b" and rec: "\<And>x. x \<in> K \<Longrightarrow> yields (J loc) any X (rec x)"
  shows "yields (J loc) (integration_ok env) X (integrate_from env we rec b)"
proof -
  have failed: "yields (J loc) (integration_ok env) X (ret (Not_integrated msg))" for msg
    by (rule yields_ret) (simp add: integration_ok_def)
  have lifted: "yields (J loc) any X (only_if c (sq (lift_drift b) (rec (b_id b))))" for c
    by (intro yields_sq yields_only_if lift_drift_yields assms G_id)
  have already: "yields (J loc) (integration_ok env) X (ret (Already_integrated release))"
    if "ce_isAncestor env k source release = Inr True" for release k source
    using that by (intro yields_ret) (auto simp: integration_ok_def contained_release_def)
  show ?thesis
    unfolding integrate_from_def
    by (intro yields_option failed yields_if yields_sq fetch_yields yields_bnd [OF resolveRef_yields]
        yields_bnd [OF extern_yields] yields_bnd [OF ask_yields] yields_let
        integrate_in_worktree_yields [OF assms]) (auto intro: already lifted)
qed

lemma integrate_yields:
  assumes "X Out_of_fuel" and "bid \<in> K"
  shows "yields (J loc) (integration_ok env) X (integrateSourceBranch fuel env we bid)"
  unfolding integrateSourceBranch_def
  by (rule yields_bnd [OF find_batch_yields [OF assms(2)]], rule yields_option, rule stop_yields)
    (auto intro!: integrate_from_yields call_yields reconcile_yields assms(1))

end

text \<open>
  \<open>integrateSourceBranch\<close> claims success only after git confirmed that a tip of the source
  branch is contained in the release commit it returns, and it keeps the stored batches well-formed
  and properly approved however it ends.
\<close>

theorem integration_sound:
  assumes "others_keep good_batch UNIV env" and "law_tables good_batch UNIV (co_tables s)"
  shows "law_tables good_batch UNIV (co_tables (snd (integrateSourceBranch fuel env we bid s))) \<and>
    (\<forall>r. fst (integrateSourceBranch fuel env we bid s) = Inr r \<longrightarrow> integration_ok env r)"
proof -
  have s: "law_state good_batch UNIV False s" using assms(2) by (simp add: law_state_def)
  obtain r s' where run: "integrateSourceBranch fuel env we bid s = (r, s')" by fastforce
  note y = approval.integrate_yields [of bid False env fuel we, simplified calmed_id [OF assms(1)]]
  show ?thesis
    using yields_inv [OF y s] yields_Inr [OF y s] by (auto simp: run law_state_def)
qed

definition drift_env :: co_env where
  "drift_env = sample_env\<lparr>ce_git := True, ce_resolveRef := (\<lambda>n br. Inr (Some br)),
     ce_isAncestor := (\<lambda>n a d. Inr True)\<rparr>"

definition drift_worktree :: worktree_env where
  "drift_worktree = \<lparr>we_suffix = (\<lambda>_. ''0a1b2c3d''), we_create = (\<lambda>_ _ _. Inr ()),
     we_currentBranch = (\<lambda>_ _. Inr ''release''), we_merge = (\<lambda>_ _ _. Inr (Inr ())),
     we_push = (\<lambda>_ _ _. Inr ()), we_head = (\<lambda>_ _. Inr ''release''), we_remove = (\<lambda>_ _. Inr ())\<rparr>"

lemma drift_integrates:
  "fst (integrateSourceBranch 1 drift_env drift_worktree ''b'' (start_state sample_completed [])) =
     Inr (Already_integrated ''release'')"
  by code_simp

lemma sample_completed_tables: "law_tables good_batch UNIV (co_tables (start_state sample_completed []))"
proof -
  have "constraints_ok [sample_completed]" "stored_batch sample_completed" by code_simp+
  then show ?thesis
    using batch_reachable_inv [OF sample_completed_reachable]
    by (simp add: law_tables_def start_state_def table_wf_def good_batch_def)
qed

theorem integration_sound_witness:
  "integration_ok drift_env (Already_integrated ''release'')"
proof -
  have "ce_meanwhile drift_env = (\<lambda>_ t. t)" by (simp add: drift_env_def)
  then show ?thesis
    using integration_sound [of drift_env "start_state sample_completed []" 1 drift_worktree "''b''"]
      drift_integrates sample_completed_tables by (simp add: idle_others)
qed

end
