(* ===== verification/Job_Queue_Props.thy ===== *)
theory Job_Queue_Props
  imports Job_Queue
begin

text \<open>
  The job queue: ids stay unique and the rows consistent, claims come out in the order of the
  query, and ownerships fence: the operations of a worker whose claim was released, reset or
  reconciled do nothing.
\<close>

section \<open>Effects of the transactions\<close>

definition replace_row :: "job \<Rightarrow> job_table \<Rightarrow> job_table" where
  "replace_row u tbl = map (\<lambda>r. if j_id r = j_id u then u else r) tbl"

definition ids_distinct :: "job_table \<Rightarrow> bool" where
  "ids_distinct tbl \<longleftrightarrow> distinct (map j_id tbl)"

lemma same_row:
  "ids_distinct tbl \<Longrightarrow> r \<in> set tbl \<Longrightarrow> s \<in> set tbl \<Longrightarrow> j_id r = j_id s \<Longrightarrow> r = s"
  unfolding ids_distinct_def by (metis distinct_map inj_on_def)

lemma map_if_replace:
  assumes d: "ids_distinct tbl" and row: "row \<in> set tbl" and "P row"
    and P: "\<And>r. P r \<Longrightarrow> j_id r = j_id row" and "f row = u" and "j_id u = j_id row"
  shows "map (\<lambda>r. if P r then f r else r) tbl = replace_row u tbl"
  unfolding replace_row_def
proof (rule map_cong [OF refl])
  fix r
  assume r: "r \<in> set tbl"
  show "(if P r then f r else r) = (if j_id r = j_id u then u else r)"
  proof (cases "j_id r = j_id row")
    case True
    then have "r = row" by (rule same_row [OF d r row])
    then show ?thesis using assms(3,5,6) by simp
  next
    case False
    then have "\<not> P r" using P by blast
    then show ?thesis using False assms(6) by simp
  qed
qed

lemma claim_update_eq: "claimJob row w now tok ttl = Inr c \<Longrightarrow> claim_update c row = c"
  by (auto simp: claimJob_def claim_update_def split: if_splits)

lemma settle_update_eq: "apply_job_op op row = Inr u \<Longrightarrow> settle_update u row = u"
  by (cases op) (auto simp: job_ops settle_update_def split: if_splits)

lemma updateJob_InrD:
  assumes "updateJobWithOwnership tbl owner (apply_job_op op) = Inr tbl'" and d: "ids_distinct tbl"
  shows "\<exists>row u. row \<in> set tbl \<and> row_owned owner row \<and> apply_job_op op row = Inr u \<and>
    j_id u = j_id row \<and> tbl' = replace_row u tbl"
proof -
  obtain row u where row: "List.find (row_owned owner) tbl = Some row"
    and u: "apply_job_op op row = Inr u"
    and tbl': "tbl' = map (\<lambda>r. if j_id r = j_id u \<and> j_claimedBy r = Some (o_workerId owner) \<and>
        j_claimToken r = Some (o_claimToken owner) then settle_update u r else r) tbl"
    using assms(1) by (auto simp: updateJobWithOwnership_def Let_def
        split: option.splits sum.splits if_split_asm)
  have r: "row \<in> set tbl" "row_owned owner row" using find_SomeD [OF row] by simp_all
  have id: "j_id u = j_id row" using apply_job_op_frame [OF u] by simp
  have "tbl' = replace_row u tbl"
    unfolding tbl' by (rule map_if_replace [OF d r(1)])
      (use r id settle_update_eq [OF u] in \<open>auto simp: row_owned_def\<close>)
  then show ?thesis using r u id by blast
qed

lemma updateJob_stale:
  "\<forall>r \<in> set tbl. \<not> row_owned owner r \<Longrightarrow>
   updateJobWithOwnership tbl owner t = Inl (JobOwnershipLostError (o_jobId owner))"
  by (simp add: updateJobWithOwnership_def find_None_iff [THEN iffD2])

lemma selectRows_mem:
  "r \<in> set (selectRows tbl repo) \<longleftrightarrow> r \<in> set tbl \<and> j_status r = JQueued \<and> j_repoId r = repo"
  by (auto simp: selectRows_def)

lemma claimTx_cases:
  assumes d: "ids_distinct tbl"
  obtains (none) "claimTx tbl w repo skip ttl now tok = Inr (None, tbl)"
      "List.find (\<lambda>r. j_id r \<notin> set skip) (selectRows tbl repo) = None"
  | (claimed) row c where "List.find (\<lambda>r. j_id r \<notin> set skip) (selectRows tbl repo) = Some row"
      "row \<in> set tbl" "j_status row = JQueued" "j_repoId row = repo"
      "claimJob row w now tok ttl = Inr c" "j_id c = j_id row"
      "claimTx tbl w repo skip ttl now tok = Inr (Some c, replace_row c tbl)"
proof (cases "List.find (\<lambda>r. j_id r \<notin> set skip) (selectRows tbl repo)")
  case None
  then show ?thesis using none by (simp add: claimTx_def)
next
  case (Some row)
  then have r: "row \<in> set tbl" "j_status row = JQueued" "j_repoId row = repo"
    using find_SomeD [OF Some] by (simp_all add: selectRows_mem)
  then obtain c where c: "claimJob row w now tok ttl = Inr c" "j_id c = j_id row"
    by (simp add: claimJob_def)
  have "map (\<lambda>r. if j_id r = j_id c \<and> j_repoId r = repo then claim_update c r else r) tbl =
      replace_row c tbl"
    by (rule map_if_replace [OF d r(1)])
      (use r c claim_update_eq [OF c(1)] in auto)
  then show ?thesis using claimed [OF Some r c] Some c(1) by (simp add: claimTx_def)
qed

definition reconciled_row :: "reconcile_input \<Rightarrow> job \<Rightarrow> job" where
  "reconciled_row inp r = r\<lparr>j_status := rc_targetStatus inp, j_completedAt := Some (rc_now inp),
     j_claimedBy := None, j_claimToken := None, j_claimExpiresAt := None\<rparr>"

lemma reconcile_InrD:
  assumes "reconcileTerminalJob scope tbl inp = Inr (done, st, tbl')" and d: "ids_distinct tbl"
  shows "(\<not> done \<and> tbl' = tbl) \<or>
    (done \<and> (\<exists>row \<in> set tbl. j_id row = rc_jobId inp \<and> \<not> job_settled (j_status row) \<and>
       tbl' = replace_row (reconciled_row inp row) tbl \<and>
       (\<forall>owner. rc_owner inp = Some owner \<longrightarrow> j_claimedBy row = Some (o_workerId owner) \<and>
          j_claimToken row = Some (o_claimToken owner))))"
proof (cases "List.find (\<lambda>r. j_id r = rc_jobId inp \<and> in_scope scope (j_repoId r)) tbl")
  case None
  then show ?thesis using assms(1) by (simp add: reconcileTerminalJob_def)
next
  case (Some row)
  then have r: "row \<in> set tbl" "j_id row = rc_jobId inp" "in_scope scope (j_repoId row)"
    using find_SomeD [OF Some] by simp_all
  have "map (\<lambda>r. if j_id r = rc_jobId inp \<and> in_scope scope (j_repoId r) then reconciled_row inp r else r)
      tbl = replace_row (reconciled_row inp row) tbl"
    by (rule map_if_replace [OF d r(1)])
      (use r in \<open>auto simp: reconciled_row_def\<close>)
  then show ?thesis
    using assms(1) Some r
    unfolding reconcileTerminalJob_def reconciled_row_def [symmetric]
    by (auto split: if_split_asm option.splits)
qed

section \<open>Consistent tables\<close>

definition row_ok :: "job \<Rightarrow> bool" where
  "row_ok j \<longleftrightarrow>
     (j_status j = JQueued \<longrightarrow> j_claimedBy j = None \<and> j_claimToken j = None \<and>
        j_claimedAt j = None \<and> j_startedAt j = None) \<and>
     (j_status j \<in> {JClaimed, JRunning} \<longrightarrow> j_claimedBy j \<noteq> None \<and> j_claimToken j \<noteq> None \<and>
        j_claimedAt j \<noteq> None \<and> (j_startedAt j = None \<longleftrightarrow> j_status j = JClaimed)) \<and>
     (j_completedAt j \<noteq> None \<longleftrightarrow> job_settled (j_status j))"

definition table_ok :: "job_table \<Rightarrow> bool" where
  "table_ok tbl \<longleftrightarrow> ids_distinct tbl \<and> (\<forall>r \<in> set tbl. row_ok r)"

lemma row_ok_createJob: "row_ok (createJob i)"
  by (simp add: row_ok_def createJob_def job_settled_def)

lemma apply_job_op_row_ok: "apply_job_op op j = Inr j' \<Longrightarrow> row_ok j \<Longrightarrow> row_ok j'"
  by (cases op; cases "j_status j"; clarsimp simp: job_ops; simp add: row_ok_def job_settled_def)

lemma map_id_replace_row: "map j_id (replace_row u tbl) = map j_id tbl"
  by (simp add: replace_row_def)

lemma table_ok_replace: "table_ok tbl \<Longrightarrow> row_ok u \<Longrightarrow> table_ok (replace_row u tbl)"
  unfolding table_ok_def ids_distinct_def map_id_replace_row by (auto simp: replace_row_def)

text \<open>Each operation with an ownership is \<open>updateJobWithOwnership\<close> of one transition.\<close>

fun owner_op :: "queue_op \<Rightarrow> (job_ownership \<times> job_op) option" where
  "owner_op (Release_claim owner) = Some (owner, Op_unclaim)"
| "owner_op (Reset_to_queued owner) = Some (owner, Op_reset)"
| "owner_op (Mark_running owner now) = Some (owner, Op_running now)"
| "owner_op (Mark_succeeded owner now) = Some (owner, Op_succeeded now)"
| "owner_op (Mark_failed owner now) = Some (owner, Op_failed now)"
| "owner_op (Mark_cancelled owner now) = Some (owner, Op_cancelled now)"
| "owner_op _ = None"

lemma owner_op_apply:
  "owner_op op = Some (owner, jop) \<Longrightarrow>
   apply_queue_op repos scope op tbl = updateJobWithOwnership tbl owner (apply_job_op jop)"
  by (cases op) (auto simp: queue_ops fun_eq_iff intro!: arg_cong [of _ _ "updateJobWithOwnership tbl _"])

lemma queue_op_cases:
  obtains (enqueue) i where "op = Enqueue i"
  | (claim) w r skip ttl now tok where "op = Claim_next w r skip ttl now tok"
  | (owned) owner jop where "owner_op op = Some (owner, jop)"
  | (reconcile) i where "op = Reconcile i"
  by (cases op) auto

text \<open>The four effects a successful transaction can have.\<close>

lemma queue_op_effect:
  assumes op: "apply_queue_op repos scope op tbl = Inr tbl'" and ok: "ids_distinct tbl"
  obtains (same) "tbl' = tbl"
  | (append) i where "op = Enqueue i" "tbl' = tbl @ [createJob i]"
      "\<forall>r \<in> set tbl. j_id r \<noteq> ji_id i" "repos (ji_repoId i) = Some True"
  | (claim) w r skip ttl now tok row c where "op = Claim_next w r skip ttl now tok" "row \<in> set tbl"
      "claimJob row w now tok ttl = Inr c" "tbl' = replace_row c tbl" "j_id c = j_id row"
  | (owned) owner jop row u where "owner_op op = Some (owner, jop)" "row \<in> set tbl"
      "row_owned owner row" "apply_job_op jop row = Inr u" "tbl' = replace_row u tbl"
      "j_id u = j_id row"
  | (reconciled) i row where "op = Reconcile i" "row \<in> set tbl" "j_id row = rc_jobId i"
      "\<not> job_settled (j_status row)" "tbl' = replace_row (reconciled_row i row) tbl"
      "\<forall>owner. rc_owner i = Some owner \<longrightarrow> j_claimedBy row = Some (o_workerId owner) \<and>
          j_claimToken row = Some (o_claimToken owner)"
proof -
  note claim' = claim and owned' = owned
  show ?thesis
  proof (cases op rule: queue_op_cases)
    case (enqueue i)
    then show ?thesis
      using op append [OF enqueue]
      by (auto simp: enqueue_def createJob_def list_ex_iff split: if_split_asm)
  next
    case (claim w r skip ttl now tok)
    show ?thesis
    proof (cases "in_scope scope r")
      case True
      show ?thesis
      proof (rule claimTx_cases [OF ok, of w r skip ttl now tok])
        assume "claimTx tbl w r skip ttl now tok = Inr (None, tbl)"
        then show ?thesis using op claim True same by (simp add: claimNext_def)
      next
        fix row c
        assume row: "row \<in> set tbl" "claimJob row w now tok ttl = Inr c" "j_id c = j_id row"
          "claimTx tbl w r skip ttl now tok = Inr (Some c, replace_row c tbl)"
        then have "tbl' = replace_row c tbl" using op claim True by (simp add: claimNext_def)
        then show ?thesis using claim' [OF claim row(1,2)] row(3) by blast
      qed
    next
      case False
      then show ?thesis using op claim same by (simp add: claimNext_def)
    qed
  next
    case (owned owner jop)
    then have "updateJobWithOwnership tbl owner (apply_job_op jop) = Inr tbl'"
      using op owner_op_apply by metis
    from updateJob_InrD [OF this ok] show ?thesis using owned' [OF owned] by blast
  next
    case (reconcile i)
    then obtain d st where "reconcileTerminalJob scope tbl i = Inr (d, st, tbl')"
      using op by (cases "reconcileTerminalJob scope tbl i") auto
    from reconcile_InrD [OF this ok] show ?thesis using same reconciled [OF reconcile] by blast
  qed
qed

section \<open>Preservation\<close>

text \<open>The type of \<open>targetStatus\<close> only admits the settled statuses.\<close>

definition typed_queue_op :: "queue_op \<Rightarrow> bool" where
  "typed_queue_op op = (case op of Reconcile i \<Rightarrow> job_settled (rc_targetStatus i) | _ \<Rightarrow> True)"

lemma apply_queue_op_table_ok:
  assumes "apply_queue_op repos scope op tbl = Inr tbl'" and "table_ok tbl" and "typed_queue_op op"
  shows "table_ok tbl'"
proof -
  have d: "ids_distinct tbl" using assms(2) by (simp add: table_ok_def)
  show ?thesis
  proof (rule queue_op_effect [OF assms(1) d])
    assume "tbl' = tbl" then show ?thesis using assms(2) by simp
  next
    fix i
    assume "tbl' = tbl @ [createJob i]" "\<forall>r \<in> set tbl. j_id r \<noteq> ji_id i"
    then show ?thesis using assms(2) row_ok_createJob
      by (auto simp: table_ok_def ids_distinct_def createJob_def)
  next
    fix w r skip ttl now tok row c
    assume *: "row \<in> set tbl" "claimJob row w now tok ttl = Inr c" "tbl' = replace_row c tbl"
    then have "row_ok c"
      using apply_job_op_row_ok [of "Op_claim w now tok ttl" row c] assms(2)
      by (simp add: table_ok_def)
    then show ?thesis using table_ok_replace assms(2) * by simp
  next
    fix owner jop row u
    assume *: "row \<in> set tbl" "apply_job_op jop row = Inr u" "tbl' = replace_row u tbl"
    then have "row_ok u" using apply_job_op_row_ok assms(2) by (auto simp: table_ok_def)
    then show ?thesis using table_ok_replace assms(2) * by simp
  next
    fix i row
    assume *: "op = Reconcile i" "tbl' = replace_row (reconciled_row i row) tbl"
    then have "row_ok (reconciled_row i row)"
      using assms(3) by (auto simp: typed_queue_op_def reconciled_row_def row_ok_def job_settled_def)
    then show ?thesis using table_ok_replace assms(2) * by simp
  qed
qed

lemma exec_queue_op_table_ok:
  "table_ok tbl \<Longrightarrow> typed_queue_op op \<Longrightarrow> table_ok (exec_queue_op repos scope op tbl)"
  by (auto simp: exec_queue_op_def split: sum.splits intro: apply_queue_op_table_ok)

lemma fold_queue_op_table_ok:
  "table_ok tbl \<Longrightarrow> \<forall>op \<in> set ops. typed_queue_op op \<Longrightarrow>
   table_ok (fold (exec_queue_op repos scope) ops tbl)"
  by (induction ops arbitrary: tbl) (auto intro: exec_queue_op_table_ok)

text \<open>No transaction rewrites the row of a settled job.\<close>

lemma replace_row_keeps:
  "r \<in> set tbl \<Longrightarrow> j_id r \<noteq> j_id u \<Longrightarrow> r \<in> set (replace_row u tbl)"
  by (force simp: replace_row_def)

lemma apply_queue_op_settled:
  assumes op: "apply_queue_op repos scope op tbl = Inr tbl'" and d: "ids_distinct tbl"
    and r: "r \<in> set tbl" "job_settled (j_status r)"
  shows "r \<in> set tbl'"
proof (rule queue_op_effect [OF op d])
  assume "tbl' = tbl" then show ?thesis using r by simp
next
  fix i assume "tbl' = tbl @ [createJob i]" then show ?thesis using r by simp
next
  fix w p skip ttl now tok row c
  assume *: "row \<in> set tbl" "claimJob row w now tok ttl = Inr c" "tbl' = replace_row c tbl"
    "j_id c = j_id row"
  then have "row \<noteq> r" using settled_no_op [OF r(2), of "Op_claim w now tok ttl"] by auto
  then show ?thesis using * r same_row [OF d] replace_row_keeps by metis
next
  fix owner jop row u
  assume *: "row \<in> set tbl" "apply_job_op jop row = Inr u" "tbl' = replace_row u tbl"
    "j_id u = j_id row"
  then have "row \<noteq> r" using settled_no_op [OF r(2), of jop] by auto
  then show ?thesis using * r same_row [OF d] replace_row_keeps by metis
next
  fix i row
  assume *: "row \<in> set tbl" "\<not> job_settled (j_status row)"
    "tbl' = replace_row (reconciled_row i row) tbl"
  then have "row \<noteq> r" using r by auto
  moreover have "j_id (reconciled_row i row) = j_id row" by (simp add: reconciled_row_def)
  ultimately show ?thesis using * r same_row [OF d] replace_row_keeps by metis
qed

lemma fold_queue_op_settled:
  assumes "table_ok tbl" and "\<forall>op \<in> set ops. typed_queue_op op"
    and "r \<in> set tbl" "job_settled (j_status r)"
  shows "r \<in> set (fold (exec_queue_op repos scope) ops tbl)"
  using assms
proof (induction ops arbitrary: tbl)
  case (Cons op ops)
  have "r \<in> set (exec_queue_op repos scope op tbl)"
    using Cons.prems apply_queue_op_settled
    by (auto simp: exec_queue_op_def table_ok_def split: sum.splits)
  then show ?case using Cons exec_queue_op_table_ok by simp
qed simp

section \<open>Fencing\<close>

definition queue_owns :: "job_table \<Rightarrow> job_ownership \<Rightarrow> bool" where
  "queue_owns tbl owner \<longleftrightarrow> list_ex (row_owned owner) tbl"

definition queue_grants :: "queue_op \<Rightarrow> job_ownership \<Rightarrow> bool" where
  "queue_grants op owner =
     (case op of Claim_next w _ _ _ _ tok \<Rightarrow> w = o_workerId owner \<and> tok = o_claimToken owner
      | _ \<Rightarrow> False)"

definition queue_acting :: "queue_op \<Rightarrow> job_ownership option" where
  "queue_acting op =
     (case op of
        Reconcile i \<Rightarrow> (case rc_owner i of None \<Rightarrow> None
          | Some owner \<Rightarrow> if o_jobId owner = rc_jobId i then Some owner else None)
      | _ \<Rightarrow> map_option fst (owner_op op))"

lemma apply_job_op_claim_kept:
  "apply_job_op op j = Inr u \<Longrightarrow> \<not> is_claim op \<Longrightarrow>
   j_claimToken u = None \<or> (j_claimedBy u = j_claimedBy j \<and> j_claimToken u = j_claimToken j)"
  by (cases op) (auto simp: job_ops is_claim_def split: if_splits)

lemma owner_op_not_claim: "owner_op op = Some (owner, jop) \<Longrightarrow> \<not> is_claim jop"
  by (cases op) (auto simp: is_claim_def)

lemma updateJob_owned:
  assumes "updateJobWithOwnership tbl owner (apply_job_op jop) = Inr tbl'" and "\<not> is_claim jop"
    and "r' \<in> set tbl'" "row_owned w r'"
  shows "\<exists>r \<in> set tbl. row_owned w r"
proof -
  obtain row u where row: "List.find (row_owned owner) tbl = Some row"
    and u: "apply_job_op jop row = Inr u"
    and tbl': "tbl' = map (\<lambda>r. if j_id r = j_id u \<and> j_claimedBy r = Some (o_workerId owner) \<and>
        j_claimToken r = Some (o_claimToken owner) then settle_update u r else r) tbl"
    using assms(1) by (auto simp: updateJobWithOwnership_def Let_def
        split: option.splits sum.splits if_split_asm)
  have "row_owned owner row" using find_SomeD [OF row] by simp
  then have "row_owned w r" if "row_owned w (settle_update u r)"
      "j_claimedBy r = Some (o_workerId owner)" "j_claimToken r = Some (o_claimToken owner)" for r
    using that apply_job_op_claim_kept [OF u assms(2)]
    by (auto simp: row_owned_def settle_update_def)
  then show ?thesis using assms(3,4) unfolding tbl' by (auto split: if_split_asm)
qed

lemma claimNext_owned:
  assumes "claimNext scope tbl w r skip ttl now tok = Inr (c, tbl')"
    and "r' \<in> set tbl'" "row_owned owner r'"
  shows "(\<exists>r \<in> set tbl. row_owned owner r) \<or> (w = o_workerId owner \<and> tok = o_claimToken owner)"
  using assms
  by (auto simp: claimNext_def claimTx_def claimJob_def claim_update_def row_owned_def
      split: if_split_asm option.splits)

lemma reconcile_owned:
  assumes "reconcileTerminalJob scope tbl i = Inr (d, st, tbl')"
    and "r' \<in> set tbl'" "row_owned owner r'"
  shows "\<exists>r \<in> set tbl. row_owned owner r"
  using assms
  by (auto simp: reconcileTerminalJob_def row_owned_def split: if_split_asm option.splits)

lemma reconcile_stale:
  assumes "rc_owner i = Some owner" "o_jobId owner = rc_jobId i"
    and "\<forall>r \<in> set tbl. \<not> row_owned owner r"
    and "reconcileTerminalJob scope tbl i = Inr (d, st, tbl')"
  shows "tbl' = tbl"
proof (cases "List.find (\<lambda>r. j_id r = rc_jobId i \<and> in_scope scope (j_repoId r)) tbl")
  case (Some row)
  then have "row \<in> set tbl" "j_id row = o_jobId owner" using find_SomeD [OF Some] assms(2) by simp_all
  then have "j_claimedBy row \<noteq> Some (o_workerId owner) \<or> j_claimToken row \<noteq> Some (o_claimToken owner)"
    using assms(3) by (auto simp: row_owned_def)
  then show ?thesis
    using assms(1,4) Some by (simp add: reconcileTerminalJob_def split: if_split_asm)
qed (use assms(4) in \<open>simp add: reconcileTerminalJob_def\<close>)

interpretation queue_fence: fenced_store queue_owns "exec_queue_op repos scope" queue_grants queue_acting
proof
  fix op tbl owner
  assume owns: "queue_owns (exec_queue_op repos scope op tbl) owner"
  show "queue_owns tbl owner \<or> queue_grants op owner"
  proof (cases "apply_queue_op repos scope op tbl")
    case (Inl e)
    then show ?thesis using owns by (simp add: exec_queue_op_def)
  next
    case (Inr tbl')
    then obtain r' where r': "r' \<in> set tbl'" "row_owned owner r'"
      using owns by (auto simp: exec_queue_op_def queue_owns_def list_ex_iff)
    show ?thesis
    proof (cases op rule: queue_op_cases)
      case (enqueue i)
      then show ?thesis using Inr r'
        by (auto simp: enqueue_def createJob_def row_owned_def queue_owns_def list_ex_iff
            split: if_split_asm)
    next
      case (claim w r skip ttl now tok)
      then obtain c where "claimNext scope tbl w r skip ttl now tok = Inr (c, tbl')"
        using Inr by (cases "claimNext scope tbl w r skip ttl now tok") auto
      from claimNext_owned [OF this r'] show ?thesis
        using claim by (auto simp: queue_owns_def queue_grants_def list_ex_iff)
    next
      case (owned o' jop)
      then have "updateJobWithOwnership tbl o' (apply_job_op jop) = Inr tbl'"
        using Inr owner_op_apply by metis
      from updateJob_owned [OF this owner_op_not_claim [OF owned] r']
      show ?thesis by (auto simp: queue_owns_def list_ex_iff)
    next
      case (reconcile i)
      then obtain d st where "reconcileTerminalJob scope tbl i = Inr (d, st, tbl')"
        using Inr by (cases "reconcileTerminalJob scope tbl i") auto
      from reconcile_owned [OF this r'] show ?thesis by (auto simp: queue_owns_def list_ex_iff)
    qed
  qed
next
  fix op owner tbl
  assume act: "queue_acting op = Some owner" and stale: "\<not> queue_owns tbl owner"
  then have none: "\<forall>r \<in> set tbl. \<not> row_owned owner r" by (auto simp: queue_owns_def list_ex_iff)
  show "exec_queue_op repos scope op tbl = tbl"
  proof (cases op rule: queue_op_cases)
    case (owned o' jop)
    then have "o' = owner" using act by (cases op) (auto simp: queue_acting_def)
    then show ?thesis
      using owner_op_apply [OF owned] updateJob_stale [OF none] by (simp add: exec_queue_op_def)
  next
    case (reconcile i)
    then have "rc_owner i = Some owner" "o_jobId owner = rc_jobId i"
      using act by (auto simp: queue_acting_def split: option.splits if_split_asm)
    note stale_i = reconcile_stale [OF this none]
    show ?thesis
    proof (cases "reconcileTerminalJob scope tbl i")
      case (Inr p)
      then obtain d st tbl' where "reconcileTerminalJob scope tbl i = Inr (d, st, tbl')"
        by (cases p) auto
      then show ?thesis using stale_i reconcile by (simp add: exec_queue_op_def)
    qed (use reconcile in \<open>simp add: exec_queue_op_def\<close>)
  qed (use act in \<open>auto simp: queue_acting_def\<close>)
qed

section \<open>The claim order\<close>

lemma selectRows_filter:
  "selectRows tbl repo = filter (\<lambda>r. j_status r = JQueued \<and> j_repoId r = repo) (sort_key job_key tbl)"
  by (simp add: selectRows_def filter_sort)

lemma selectRows_sorted: "sorted (map job_key (selectRows tbl repo))"
  by (simp add: selectRows_def)

lemma selectRows_replace:
  assumes d: "ids_distinct tbl" and row: "row \<in> set tbl" and u: "j_id u = j_id row" "j_status u \<noteq> JQueued"
  shows "selectRows (replace_row u tbl) repo = filter (\<lambda>r. j_id r \<noteq> j_id row) (selectRows tbl repo)"
proof -
  let ?P = "\<lambda>r. j_status r = JQueued \<and> j_repoId r = repo"
  have "filter ?P (replace_row u tbl) = filter (\<lambda>r. j_id r \<noteq> j_id row) (filter ?P tbl)"
    using u by (induction tbl) (auto simp: replace_row_def)
  then show ?thesis by (simp add: selectRows_def filter_sort)
qed

lemma selectRows_distinct: "ids_distinct tbl \<Longrightarrow> distinct (map j_id (selectRows tbl repo))"
proof -
  assume "ids_distinct tbl"
  then have "distinct (map j_id (filter (\<lambda>r. j_status r = JQueued \<and> j_repoId r = repo) tbl))"
    unfolding ids_distinct_def by (rule distinct_map_filter)
  moreover have "mset (map j_id (selectRows tbl repo)) =
      mset (map j_id (filter (\<lambda>r. j_status r = JQueued \<and> j_repoId r = repo) tbl))"
    by (simp add: selectRows_def)
  ultimately show ?thesis using mset_eq_imp_distinct_iff by blast
qed

lemma claimNext_empty:
  "selectRows tbl repo = [] \<Longrightarrow> claimNext scope tbl w repo skip ttl now tok = Inr (None, tbl)"
  by (simp add: claimNext_def claimTx_def)

lemma claimNext_head:
  assumes d: "ids_distinct tbl" and "in_scope scope repo" and sel: "selectRows tbl repo = row # rows"
  shows "\<exists>c tbl'. claimNext scope tbl w repo [] ttl now tok = Inr (Some c, tbl') \<and> j_id c = j_id row \<and>
    ids_distinct tbl' \<and> selectRows tbl' repo = rows"
proof (rule claimTx_cases [OF d, of w repo "[]" ttl now tok])
  assume "List.find (\<lambda>r. j_id r \<notin> set []) (selectRows tbl repo) = None"
  then show ?thesis using sel by simp
next
  fix row' c
  assume r: "List.find (\<lambda>r. j_id r \<notin> set []) (selectRows tbl repo) = Some row'" "row' \<in> set tbl"
    "claimJob row' w now tok ttl = Inr c" "j_id c = j_id row'"
    "claimTx tbl w repo [] ttl now tok = Inr (Some c, replace_row c tbl)"
  then have row: "row' = row" using sel by simp
  have "j_status c \<noteq> JQueued" using r(3) by (auto simp: claimJob_def split: if_split_asm)
  then have "selectRows (replace_row c tbl) repo = filter (\<lambda>r. j_id r \<noteq> j_id row) (row # rows)"
    using selectRows_replace [OF d r(2) r(4)] sel row by simp
  also have "\<dots> = rows"
    using selectRows_distinct [OF d, of repo] sel by (auto simp: filter_id_conv image_iff)
  finally show ?thesis
    using r assms(2) row d by (auto simp: claimNext_def ids_distinct_def map_id_replace_row)
qed

text \<open>The ids a sequence of claims of one repository hands out.\<close>

fun claim_ids ::
  "ident option \<Rightarrow> ident \<Rightarrow> int option \<Rightarrow> (ident \<times> time \<times> ident) list \<Rightarrow> job_table \<Rightarrow> ident list" where
  "claim_ids scope repo ttl [] tbl = []"
| "claim_ids scope repo ttl ((w, now, tok) # reqs) tbl =
     (case claimNext scope tbl w repo [] ttl now tok of
        Inr (Some c, tbl') \<Rightarrow> j_id c # claim_ids scope repo ttl reqs tbl'
      | _ \<Rightarrow> [])"

lemma claim_ids_selectRows:
  "ids_distinct tbl \<Longrightarrow> in_scope scope repo \<Longrightarrow>
   claim_ids scope repo ttl reqs tbl = map j_id (take (length reqs) (selectRows tbl repo))"
proof (induction scope repo ttl reqs tbl rule: claim_ids.induct)
  case (2 scope repo ttl w now tok reqs tbl)
  show ?case
  proof (cases "selectRows tbl repo")
    case Nil
    then show ?thesis by (simp add: claimNext_empty)
  next
    case (Cons row rows)
    then obtain c tbl' where c: "claimNext scope tbl w repo [] ttl now tok = Inr (Some c, tbl')"
      "j_id c = j_id row" "ids_distinct tbl'" "selectRows tbl' repo = rows"
      using claimNext_head [OF "2.prems"] by blast
    then show ?thesis using "2.IH" [OF c(1) refl refl c(3) "2.prems"(2)] Cons by simp
  qed
qed simp

section \<open>Properties\<close>

definition sample_jobs :: "create_job_input list" where
  "sample_jobs = map (\<lambda>(i, p, t). \<lparr>ji_id = i, ji_runId = ''r'' @ i, ji_repoId = ''repo'',
     ji_issueNumber = 1, ji_priority = p, ji_createdAt = t, ji_resumeDisposition = None\<rparr>)
     [(''a'', None, 3), (''b'', Some 5, 4), (''c'', None, 1), (''d'', Some 5, 4)]"

definition sample_table :: job_table where
  "sample_table = map createJob sample_jobs"

lemma sample_table_ok: "table_ok sample_table"
  by (simp add: sample_table_def sample_jobs_def table_ok_def ids_distinct_def row_ok_createJob)
    (simp add: createJob_def)

definition sample_owner :: job_ownership where
  "sample_owner = \<lparr>o_jobId = ''a'', o_workerId = ''w'', o_claimToken = ''t''\<rparr>"

text \<open>
  Any sequence of queue transactions, failed ones included, keeps the table consistent:
  job ids are unique, a queued row has no claim, a claimed or running row has an owner and a
  token, and exactly the settled rows have a completion date. A settled row is final: it stays
  in the table unchanged.
\<close>

theorem queue_consistent:
  assumes "table_ok tbl" and "\<forall>op \<in> set ops. typed_queue_op op"
  shows "table_ok (fold (exec_queue_op repos scope) ops tbl) \<and>
    (\<forall>r \<in> set tbl. job_settled (j_status r) \<longrightarrow> r \<in> set (fold (exec_queue_op repos scope) ops tbl))"
  using fold_queue_op_table_ok fold_queue_op_settled assms by blast

theorem queue_consistent_witness:
  "table_ok (fold (exec_queue_op (\<lambda>_. Some True) None)
     [Claim_next ''w'' ''repo'' [] None 9 ''t'', Mark_running sample_owner 10] sample_table)"
  using queue_consistent [OF sample_table_ok, of "[Claim_next ''w'' ''repo'' [] None 9 ''t'',
     Mark_running sample_owner 10]"] by (simp add: typed_queue_op_def)

text \<open>
  C24. Claims come out in the order of the query. From a table with unique ids, claims of a
  repository by any workers hand out exactly the first queued jobs of that repository sorted
  by priority (highest first), creation time and id; each job at most once, until none is left.
\<close>

theorem claims_in_order:
  assumes "ids_distinct tbl" and "in_scope scope repo"
  shows "claim_ids scope repo ttl reqs tbl = map j_id (take (length reqs) (selectRows tbl repo)) \<and>
    distinct (claim_ids scope repo ttl reqs tbl) \<and>
    sorted (map job_key (selectRows tbl repo)) \<and>
    set (selectRows tbl repo) = {r \<in> set tbl. j_status r = JQueued \<and> j_repoId r = repo}"
  using claim_ids_selectRows [OF assms] selectRows_distinct [OF assms(1), of repo]
    selectRows_sorted selectRows_mem
  by (auto simp: distinct_take take_map [symmetric])

theorem claims_in_order_witness:
  "claim_ids None ''repo'' None [(''w'', 9, ''t''), (''v'', 9, ''u''), (''w'', 9, ''x'')] sample_table =
   [''b'', ''d'', ''c'']"
proof -
  have "ids_distinct sample_table" using sample_table_ok by (simp add: table_ok_def)
  from claims_in_order [OF this, of None "''repo''", THEN conjunct1]
  have "claim_ids None ''repo'' None reqs sample_table =
      map j_id (take (length reqs) (selectRows sample_table ''repo''))" for reqs
    by (simp add: in_scope_def)
  from this [of "[(''w'', 9, ''t''), (''v'', 9, ''u''), (''w'', 9, ''x'')]"]
  have "claim_ids None ''repo'' None [(''w'', 9, ''t''), (''v'', 9, ''u''), (''w'', 9, ''x'')] sample_table =
      map j_id (take 3 (selectRows sample_table ''repo''))" by (simp add: eval_nat_numeral del: claim_ids.simps)
  moreover have "map j_id (take 3 (selectRows sample_table ''repo'')) = [''b'', ''d'', ''c'']"
    by code_simp
  ultimately show ?thesis by simp
qed

text \<open>
  C23. A stale owner is harmless. Once an ownership matches no row, and as long as no later
  claim of that worker draws the same token, every transaction made with it changes nothing:
  any history gives the same table as the history without that owner's transactions.
\<close>

theorem stale_owner_ignored:
  assumes "\<not> queue_owns tbl owner" and "\<forall>op \<in> set ops. \<not> queue_grants op owner"
  shows "fold (exec_queue_op repos scope) ops tbl =
      fold (exec_queue_op repos scope) (filter (\<lambda>op. queue_acting op \<noteq> Some owner) ops) tbl \<and>
    \<not> queue_owns (fold (exec_queue_op repos scope) ops tbl) owner"
  using queue_fence.stale_operations_vanish [OF assms] queue_fence.stays_stale [OF assms] by simp

theorem stale_owner_ignored_witness:
  "fold (exec_queue_op (\<lambda>_. Some True) None)
     [Claim_next ''v'' ''repo'' [] None 9 ''u'', Mark_running sample_owner 10] sample_table =
   fold (exec_queue_op (\<lambda>_. Some True) None) [Claim_next ''v'' ''repo'' [] None 9 ''u''] sample_table"
proof -
  have "\<not> queue_owns sample_table sample_owner" by code_simp
  from stale_owner_ignored [OF this, of "[Claim_next ''v'' ''repo'' [] None 9 ''u'',
      Mark_running sample_owner 10]" "\<lambda>_. Some True" None]
  show ?thesis by (simp add: queue_grants_def queue_acting_def sample_owner_def)
qed

text \<open>
  Two ownerships of one job never both work: if a transaction with one ownership succeeds,
  every transaction with a different ownership of the same job fails on that table with
  \<open>JobOwnershipLostError\<close>.
\<close>

theorem exclusive_ownership:
  assumes "ids_distinct tbl" and "owner_op op = Some (owner, jop)" and "owner_op op2 = Some (owner2, jop2)"
    and "ok (apply_queue_op repos scope op tbl)"
    and "o_jobId owner2 = o_jobId owner" and "owner2 \<noteq> owner"
  shows "apply_queue_op repos scope op2 tbl = Inl (JobOwnershipLostError (o_jobId owner2))"
proof -
  obtain tbl' where "updateJobWithOwnership tbl owner (apply_job_op jop) = Inr tbl'"
    using assms(4) owner_op_apply [OF assms(2)] by (auto simp: ok_iff)
  then obtain row where row: "row \<in> set tbl" "row_owned owner row"
    using updateJob_InrD assms(1) by blast
  have "\<not> row_owned owner2 r" if "r \<in> set tbl" for r
  proof
    assume o2: "row_owned owner2 r"
    then have "r = row"
      using same_row [OF assms(1) that row(1)] row(2) assms(5) by (simp add: row_owned_def)
    then have "owner2 = owner"
      using o2 row(2) assms(5) by (intro job_ownership.equality) (simp_all add: row_owned_def)
    then show False using assms(6) by simp
  qed
  then show ?thesis using updateJob_stale owner_op_apply [OF assms(3)] by simp
qed

theorem exclusive_ownership_witness:
  "apply_queue_op (\<lambda>_. Some True) None (Mark_failed (sample_owner\<lparr>o_claimToken := ''old''\<rparr>) 3)
     [(createJob (hd sample_jobs))\<lparr>j_status := JRunning, j_claimedBy := Some ''w'',
        j_claimToken := Some ''t''\<rparr>] = Inl (JobOwnershipLostError ''a'')"
proof -
  let ?tbl = "[(createJob (hd sample_jobs))\<lparr>j_status := JRunning, j_claimedBy := Some ''w'',
        j_claimToken := Some ''t''\<rparr>]"
  have "ids_distinct ?tbl" by (simp add: ids_distinct_def)
  moreover have "ok (apply_queue_op (\<lambda>_. Some True) None (Mark_succeeded sample_owner 3) ?tbl)"
    by code_simp
  moreover have "sample_owner\<lparr>o_claimToken := ''old''\<rparr> \<noteq> sample_owner"
    by (simp add: sample_owner_def)
  ultimately show ?thesis
    using exclusive_ownership [of ?tbl "Mark_succeeded sample_owner 3" sample_owner _
        "Mark_failed (sample_owner\<lparr>o_claimToken := ''old''\<rparr>) 3"]
    by (simp add: sample_owner_def)
qed

text \<open>
  Reconciling is idempotent and decisive: when it reports \<open>reconciled\<close>, the job has the
  target status, its completion date and no claim, every other row is untouched, and a second
  reconciliation of the job, whatever its target, reports that status and changes nothing.
\<close>

theorem reconcile_idempotent:
  assumes "ids_distinct tbl" and "job_settled (rc_targetStatus i)"
    and "reconcileTerminalJob scope tbl i = Inr (True, st, tbl')"
    and "rc_jobId i2 = rc_jobId i"
  shows "st = rc_targetStatus i \<and> (\<exists>r. findById scope tbl' (rc_jobId i) = Some r \<and>
      j_status r = st \<and> j_completedAt r = Some (rc_now i) \<and> j_claimedBy r = None \<and> j_claimToken r = None) \<and>
    (\<forall>r. j_id r \<noteq> rc_jobId i \<longrightarrow> (r \<in> set tbl' \<longleftrightarrow> r \<in> set tbl)) \<and>
    reconcileTerminalJob scope tbl' i2 = Inr (False, st, tbl')"
proof -
  let ?P = "\<lambda>r. j_id r = rc_jobId i \<and> in_scope scope (j_repoId r)"
  let ?f = "\<lambda>r. if ?P r then reconciled_row i r else r"
  obtain row where row: "List.find ?P tbl = Some row" and st: "st = rc_targetStatus i"
    and tbl': "tbl' = map ?f tbl"
    using assms(3)
    by (auto simp: reconcileTerminalJob_def reconciled_row_def split: option.splits if_split_asm)
  have find: "List.find ?P (map ?f xs) = map_option (reconciled_row i) (List.find ?P xs)" for xs
    by (induction xs) (auto simp: reconciled_row_def)
  have found: "List.find ?P tbl' = Some (reconciled_row i row)" by (simp add: tbl' find row)
  moreover have "job_settled (j_status (reconciled_row i row))"
    using assms(2) by (simp add: reconciled_row_def)
  moreover have "r \<in> set tbl' \<longleftrightarrow> r \<in> set tbl" if "j_id r \<noteq> rc_jobId i" for r
    using that unfolding tbl' by (auto simp: reconciled_row_def image_iff)
  ultimately show ?thesis
    using assms(4) st
    by (simp add: findById_def reconcileTerminalJob_def) (simp add: reconciled_row_def)
qed

theorem reconcile_idempotent_witness:
  "\<exists>tbl'. reconcileTerminalJob None sample_table
      \<lparr>rc_jobId = ''c'', rc_targetStatus = JFailed, rc_now = 8, rc_expectedStatus = None, rc_owner = None\<rparr>
      = Inr (True, JFailed, tbl') \<and>
    reconcileTerminalJob None tbl'
      \<lparr>rc_jobId = ''c'', rc_targetStatus = JCancelled, rc_now = 9, rc_expectedStatus = None, rc_owner = None\<rparr>
      = Inr (False, JFailed, tbl')"
proof -
  let ?i = "\<lparr>rc_jobId = ''c'', rc_targetStatus = JFailed, rc_now = 8, rc_expectedStatus = None, rc_owner = None\<rparr>"
  have "ids_distinct sample_table" using sample_table_ok by (simp add: table_ok_def)
  moreover obtain tbl' where "reconcileTerminalJob None sample_table ?i = Inr (True, JFailed, tbl')"
    by (simp add: reconcileTerminalJob_def sample_table_def sample_jobs_def createJob_def
        job_settled_def in_scope_def)
  ultimately show ?thesis
    using reconcile_idempotent [of sample_table ?i None JFailed tbl'
       "\<lparr>rc_jobId = ''c'', rc_targetStatus = JCancelled, rc_now = 9, rc_expectedStatus = None, rc_owner = None\<rparr>"]
    by (simp add: job_settled_def)
qed

end
