(* ===== verification/Worker_Lease.thy ===== *)
theory Worker_Lease
  imports Fencing
begin

text \<open>
  Worker leases: the entity of \<^verbatim>\<open>packages/domain/src/worker-lease.ts\<close> and the store of
  \<^verbatim>\<open>packages/infrastructure/src/sqlite/worker-lease-repository.ts\<close>. The table has one row
  per repository (\<open>repo_id\<close> is its primary key): a map from repositories to leases. The
  lemmas show when a lease can change hands and that a superseded token is dead.
\<close>

section \<open>Data and operations\<close>

record worker_lease =
  wl_repoId :: ident
  wl_workerId :: ident
  wl_runId :: ident
  wl_acquiredAt :: time
  wl_heartbeatAt :: time
  wl_expiresAt :: time
  wl_leaseToken :: ident

datatype lease_error =
    WorkerLeaseConflictError ident ident
  | LeaseOwnershipLostError ident ident

type_synonym lease_table = "ident \<Rightarrow> worker_lease option"

text \<open>The tuple the fenced statements match: repository, worker, run and token.\<close>

record lease_holder =
  lh_repoId :: ident
  lh_workerId :: ident
  lh_runId :: ident
  lh_leaseToken :: ident

definition current :: "lease_table \<Rightarrow> ident \<Rightarrow> worker_lease option" where
  "current tbl repo = tbl repo"

definition checkActiveLease :: "lease_table \<Rightarrow> ident \<Rightarrow> time \<Rightarrow> bool" where
  "checkActiveLease tbl repo now =
     (case tbl repo of None \<Rightarrow> False | Some row \<Rightarrow> wl_expiresAt row > now)"

text \<open>
  The upsert: insert, or on a conflict update if the row is expired or is the caller's own.
  \<open>tok\<close> is the token \<open>makeLeaseToken\<close> draws.
\<close>

definition acquire ::
  "lease_table \<Rightarrow> ident \<Rightarrow> ident \<Rightarrow> ident \<Rightarrow> time \<Rightarrow> int \<Rightarrow> ident \<Rightarrow> lease_error + worker_lease \<times> lease_table" where
  "acquire tbl repo worker run now ttlMs tok =
     (let lease = \<lparr>wl_repoId = repo, wl_workerId = worker, wl_runId = run, wl_acquiredAt = now,
            wl_heartbeatAt = now, wl_expiresAt = now + ttlMs, wl_leaseToken = tok\<rparr>
      in case tbl repo of
           None \<Rightarrow> Inr (lease, tbl(repo \<mapsto> lease))
         | Some row \<Rightarrow>
             if wl_expiresAt row \<le> now \<or> (wl_workerId row = worker \<and> wl_runId row = run)
             then Inr (lease, tbl(repo \<mapsto> row\<lparr>wl_workerId := worker, wl_runId := run,
                    wl_acquiredAt := now, wl_heartbeatAt := now, wl_expiresAt := now + ttlMs,
                    wl_leaseToken := tok\<rparr>))
             else Inl (WorkerLeaseConflictError repo (wl_workerId row)))"

definition lease_matches :: "lease_holder \<Rightarrow> worker_lease \<Rightarrow> bool" where
  "lease_matches h row \<longleftrightarrow> wl_workerId row = lh_workerId h \<and> wl_runId row = lh_runId h \<and>
     wl_leaseToken row = lh_leaseToken h"

definition heartbeat ::
  "lease_table \<Rightarrow> lease_holder \<Rightarrow> time \<Rightarrow> time \<Rightarrow> lease_error + lease_table" where
  "heartbeat tbl h now newExpiresAt =
     (case tbl (lh_repoId h) of
        None \<Rightarrow> Inl (LeaseOwnershipLostError (lh_repoId h) (lh_leaseToken h))
      | Some row \<Rightarrow>
          if lease_matches h row
          then Inr (tbl(lh_repoId h \<mapsto> row\<lparr>wl_heartbeatAt := now, wl_expiresAt := newExpiresAt\<rparr>))
          else Inl (LeaseOwnershipLostError (lh_repoId h) (lh_leaseToken h)))"

definition release :: "lease_table \<Rightarrow> lease_holder \<Rightarrow> lease_error + lease_table" where
  "release tbl h =
     (case tbl (lh_repoId h) of
        None \<Rightarrow> Inl (LeaseOwnershipLostError (lh_repoId h) (lh_leaseToken h))
      | Some row \<Rightarrow>
          if lease_matches h row then Inr (tbl(lh_repoId h := None))
          else Inl (LeaseOwnershipLostError (lh_repoId h) (lh_leaseToken h)))"

lemmas [lease_ops] = acquire_def heartbeat_def release_def

section \<open>Histories\<close>

datatype lease_op =
    Acquire ident ident ident time int ident
  | Heartbeat lease_holder time time
  | Release lease_holder

fun exec_lease_op :: "lease_op \<Rightarrow> lease_table \<Rightarrow> lease_table" where
  "exec_lease_op (Acquire repo w r now ttl tok) tbl =
     (case acquire tbl repo w r now ttl tok of Inl _ \<Rightarrow> tbl | Inr (_, tbl') \<Rightarrow> tbl')"
| "exec_lease_op (Heartbeat h now e) tbl =
     (case heartbeat tbl h now e of Inl _ \<Rightarrow> tbl | Inr tbl' \<Rightarrow> tbl')"
| "exec_lease_op (Release h) tbl = (case release tbl h of Inl _ \<Rightarrow> tbl | Inr tbl' \<Rightarrow> tbl')"

section \<open>Fencing\<close>

definition lease_owns :: "lease_table \<Rightarrow> lease_holder \<Rightarrow> bool" where
  "lease_owns tbl h = (case tbl (lh_repoId h) of None \<Rightarrow> False | Some row \<Rightarrow> lease_matches h row)"

definition lease_grants :: "lease_op \<Rightarrow> lease_holder \<Rightarrow> bool" where
  "lease_grants op h =
     (case op of
        Acquire repo w r _ _ tok \<Rightarrow>
          h = \<lparr>lh_repoId = repo, lh_workerId = w, lh_runId = r, lh_leaseToken = tok\<rparr>
      | _ \<Rightarrow> False)"

definition lease_acting :: "lease_op \<Rightarrow> lease_holder option" where
  "lease_acting op =
     (case op of Acquire _ _ _ _ _ _ \<Rightarrow> None | Heartbeat h _ _ \<Rightarrow> Some h | Release h \<Rightarrow> Some h)"

interpretation lease_fence: fenced_store lease_owns exec_lease_op lease_grants lease_acting
proof
  fix op tbl h
  assume "lease_owns (exec_lease_op op tbl) h"
  then show "lease_owns tbl h \<or> lease_grants op h"
    by (cases op; cases h)
      (auto simp: lease_ops lease_owns_def lease_grants_def lease_matches_def Let_def
        split: option.splits if_split_asm)
next
  fix op h tbl
  assume "lease_acting op = Some h" "\<not> lease_owns tbl h"
  then show "exec_lease_op op tbl = tbl"
    by (cases op) (auto simp: lease_ops lease_owns_def lease_acting_def split: option.splits)
qed

section \<open>Exclusion\<close>

text \<open>
  The lease of \<open>repo\<close> is held by a worker and a run until \<open>t\<close> at least.
\<close>

definition held_until :: "lease_table \<Rightarrow> ident \<Rightarrow> ident \<Rightarrow> ident \<Rightarrow> time \<Rightarrow> bool" where
  "held_until tbl repo w r t =
     (case tbl repo of None \<Rightarrow> False
      | Some row \<Rightarrow> wl_workerId row = w \<and> wl_runId row = r \<and> t \<le> wl_expiresAt row)"

text \<open>
  Operations during a hold until \<open>t\<close>: others only ask before \<open>t\<close>, the holder only renews past
  \<open>t\<close> and does not release.
\<close>

definition during_hold :: "ident \<Rightarrow> ident \<Rightarrow> ident \<Rightarrow> time \<Rightarrow> lease_op \<Rightarrow> bool" where
  "during_hold repo w r t op =
     (case op of
        Acquire repo' w' r' now ttl _ \<Rightarrow>
          repo' \<noteq> repo \<or> (if w' = w \<and> r' = r then t \<le> now + ttl else now < t)
      | Heartbeat h _ e \<Rightarrow> lh_repoId h \<noteq> repo \<or> lh_workerId h \<noteq> w \<or> lh_runId h \<noteq> r \<or> t \<le> e
      | Release h \<Rightarrow> lh_repoId h \<noteq> repo \<or> lh_workerId h \<noteq> w \<or> lh_runId h \<noteq> r)"

lemma exec_during_hold:
  "held_until tbl repo w r t \<Longrightarrow> during_hold repo w r t op \<Longrightarrow> held_until (exec_lease_op op tbl) repo w r t"
  by (cases op)
    (auto simp: lease_ops held_until_def during_hold_def lease_matches_def Let_def
      split: option.splits if_split_asm)

lemma fold_during_hold:
  "held_until tbl repo w r t \<Longrightarrow> \<forall>op \<in> set ops. during_hold repo w r t op \<Longrightarrow>
   held_until (fold exec_lease_op ops tbl) repo w r t"
  by (induction ops arbitrary: tbl) (auto intro: exec_during_hold)

section \<open>Properties\<close>

definition sample_holder :: lease_holder where
  "sample_holder = \<lparr>lh_repoId = ''repo'', lh_workerId = ''w'', lh_runId = ''r'', lh_leaseToken = ''t''\<rparr>"

definition sample_leases :: lease_table where
  "sample_leases = exec_lease_op (Acquire ''repo'' ''w'' ''r'' 0 100 ''t'') Map.empty"

text \<open>
  \<open>acquire\<close> succeeds exactly if the repository has no active lease at that moment, by
  \<open>checkActiveLease\<close>, or its lease is the caller's own. On success the new lease is the
  current one, active until \<open>now + ttlMs\<close>, and no other repository is touched; on failure the
  error names the worker that holds the lease.
\<close>

theorem acquire_spec:
  "(case acquire tbl repo w r now ttl tok of
      Inr (lease, tbl') \<Rightarrow>
        (\<not> checkActiveLease tbl repo now \<or>
         (\<exists>row. current tbl repo = Some row \<and> wl_workerId row = w \<and> wl_runId row = r)) \<and>
        lease_owns tbl' \<lparr>lh_repoId = repo, lh_workerId = w, lh_runId = r, lh_leaseToken = tok\<rparr> \<and>
        (\<forall>t. checkActiveLease tbl' repo t \<longleftrightarrow> t < now + ttl) \<and>
        (\<forall>other. other \<noteq> repo \<longrightarrow> tbl' other = tbl other) \<and>
        wl_expiresAt lease = now + ttl \<and> wl_leaseToken lease = tok
    | Inl e \<Rightarrow> checkActiveLease tbl repo now \<and>
        (\<exists>row. current tbl repo = Some row \<and> (wl_workerId row, wl_runId row) \<noteq> (w, r) \<and>
           e = WorkerLeaseConflictError repo (wl_workerId row)))"
  by (auto simp: acquire_def checkActiveLease_def current_def lease_owns_def lease_matches_def Let_def
      split: option.splits)

theorem acquire_spec_witness:
  "checkActiveLease sample_leases ''repo'' 99 \<and> \<not> ok (acquire sample_leases ''repo'' ''v'' ''q'' 99 50 ''u'')"
proof -
  have e: "acquire sample_leases ''repo'' ''v'' ''q'' 99 50 ''u'' = Inl (WorkerLeaseConflictError ''repo'' ''w'')"
    by (simp add: sample_leases_def acquire_def Let_def)
  show ?thesis
    using acquire_spec [where tbl = sample_leases and repo = "''repo''" and w = "''v''" and r = "''q''"
        and now = 99 and ttl = 50 and tok = "''u''", unfolded e] e by simp
qed

text \<open>
  C31. Mutual exclusion. While a worker and run hold a repository's lease until \<open>t\<close>, as long
  as they do not release it or renew it for less, no sequence of acquisitions by others at
  times before \<open>t\<close>, and of heartbeats and releases with whatever tokens, takes it from them.
\<close>

theorem lease_exclusive:
  assumes "held_until tbl repo w r t" and "\<forall>op \<in> set ops. during_hold repo w r t op"
  shows "held_until (fold exec_lease_op ops tbl) repo w r t"
  using assms by (rule fold_during_hold)

theorem lease_exclusive_witness:
  "held_until (fold exec_lease_op [Acquire ''repo'' ''v'' ''q'' 99 50 ''u'',
     Release (sample_holder\<lparr>lh_workerId := ''v''\<rparr>), Heartbeat sample_holder 60 160] sample_leases)
     ''repo'' ''w'' ''r'' 100"
proof -
  have "held_until sample_leases ''repo'' ''w'' ''r'' 100"
    by (simp add: held_until_def sample_leases_def acquire_def Let_def)
  then show ?thesis
    by (rule lease_exclusive) (simp add: during_hold_def sample_holder_def)
qed

text \<open>
  A superseded lease token is dead: once the table does not match a holder's repository,
  worker, run and token, and unless an acquisition draws that token again, every heartbeat and
  release with it changes nothing, whatever else happens in between.
\<close>

theorem stale_lease_ignored:
  assumes "\<not> lease_owns tbl h" and "\<forall>op \<in> set ops. \<not> lease_grants op h"
  shows "fold exec_lease_op ops tbl =
      fold exec_lease_op (filter (\<lambda>op. lease_acting op \<noteq> Some h) ops) tbl \<and>
    \<not> lease_owns (fold exec_lease_op ops tbl) h"
  using lease_fence.stale_operations_vanish [OF assms] lease_fence.stays_stale [OF assms] by simp

theorem stale_lease_ignored_witness:
  "\<not> lease_owns (fold exec_lease_op [Acquire ''repo'' ''w'' ''r'' 5 100 ''t2'', Heartbeat sample_holder 6 999]
     (exec_lease_op (Acquire ''repo'' ''v'' ''q'' 200 10 ''u'') sample_leases)) sample_holder"
proof -
  have "\<not> lease_owns (exec_lease_op (Acquire ''repo'' ''v'' ''q'' 200 10 ''u'') sample_leases) sample_holder"
    by (simp add: lease_owns_def sample_leases_def sample_holder_def acquire_def lease_matches_def Let_def)
  moreover have "\<forall>op \<in> set [Acquire ''repo'' ''w'' ''r'' 5 100 ''t2'', Heartbeat sample_holder 6 999].
      \<not> lease_grants op sample_holder"
    by (simp add: lease_grants_def sample_holder_def)
  ultimately show ?thesis by (rule stale_lease_ignored [THEN conjunct2])
qed

end
