(* ===== verification/Worker_Loop.thy ===== *)
theory Worker_Loop
  imports Domain_Run Job_Queue_Props Worker_Lease Worker_Registry
begin

text \<open>
  The worker loop, \<^verbatim>\<open>packages/application/src/executor/worker-loop.ts\<close>: what a worker does
  with a claimed job. The state is the three tables it writes (jobs, leases, workers), the set
  of skipped jobs, and the patches and notifications it sends out. What the environment does at
  the awaits is a parameter of each call (\<open>loop_env\<close>): how preparation and execution end, what
  the other processes do to the tables meanwhile, and what \<open>getAbortReason\<close> and the outer
  signal say.
\<close>

section \<open>State and environment\<close>

datatype abort_reason = Shutdown | User_cancelled | Lease_lost | Repository_unavailable

text \<open>The errors \<open>runClaimedJob\<close> tells apart.\<close>

datatype loop_failure =
    Ownership_lost
  | Lease_conflict
  | Repo_unavailable string
  | Grace_expired_shutdown
  | Other_error string

record world =
  wd_jobs :: job_table
  wd_leases :: lease_table
  wd_workers :: worker_table
  wd_skipped :: "ident list"
  wd_runPatches :: "(ident \<times> run_status \<times> string option) list"
  wd_unreachable :: "(ident \<times> string) list"
  wd_notified :: "(ident \<times> string) list"
  wd_prepFailures :: "ident list"
  wd_stopping :: bool

text \<open>How the awaited part of the job ends.\<close>

datatype body_end =
    Preparation_failed loop_failure bool
  | Run_missing
  | Execution_resolved execution_outcome
  | Execution_rejected loop_failure
  | Aborted abort_reason bool

record loop_env =
  le_now :: time
  le_ttlMs :: int
  le_leaseToken :: ident
  le_startedAt :: time
  le_body :: body_end
  le_meanwhile :: "world \<Rightarrow> world"
  le_settledAt :: time
  le_getAbortReason :: "abort_reason option"
  le_outerAborted :: bool

datatype loop_result = Settled | Lease_conflicted

text \<open>
  \<open>deps.getAbortReason?.() ?? (deps.outerSignal?.aborted ? 'user_cancelled' : undefined)\<close>;
  the \<open>onOuterAbort\<close> listener uses \<open>getAbortReason?.() ?? 'user_cancelled'\<close>.
\<close>

definition settle_reason :: "loop_env \<Rightarrow> abort_reason option" where
  "settle_reason env =
     (case le_getAbortReason env of
        Some r \<Rightarrow> Some r
      | None \<Rightarrow> if le_outerAborted env then Some User_cancelled else None)"

definition isRunnable :: "worker_status \<Rightarrow> bool" where
  "isRunnable s \<longleftrightarrow> s = WIdle \<or> s = WBusy"

text \<open>
  The promise around \<open>executeRun\<close>: on an abort it rejects, with \<open>grace expired during shutdown\<close>
  exactly if the reason is a shutdown and the execution did not settle within the grace period.
\<close>

definition body_failure :: "body_end \<Rightarrow> loop_failure + execution_outcome" where
  "body_failure e =
     (case e of
        Preparation_failed f _ \<Rightarrow> Inl f
      | Run_missing \<Rightarrow> Inl (Other_error ''run not found'')
      | Execution_resolved outcome \<Rightarrow> Inr outcome
      | Execution_rejected f \<Rightarrow> Inl f
      | Aborted reason settled \<Rightarrow>
          Inl (if reason = Shutdown \<and> \<not> settled then Grace_expired_shutdown
               else Other_error ''aborted''))"

section \<open>Settling the job\<close>

text \<open>A queue operation, its error as a loop failure.\<close>

definition queue_call :: "(job_table \<Rightarrow> job_error + job_table) \<Rightarrow> world \<Rightarrow> loop_failure option \<times> world" where
  "queue_call f w =
     (case f (wd_jobs w) of
        Inl (JobOwnershipLostError _) \<Rightarrow> (Some Ownership_lost, w)
      | Inl _ \<Rightarrow> (Some (Other_error ''job state''), w)
      | Inr tbl \<Rightarrow> (None, w\<lparr>wd_jobs := tbl\<rparr>))"

text \<open>\<open>try { ... } catch (e) { if (!(e instanceof JobOwnershipLostError)) throw e; }\<close>.\<close>

definition tolerate_lost :: "loop_failure option \<times> world \<Rightarrow> loop_failure option \<times> world" where
  "tolerate_lost r = (if fst r = Some Ownership_lost then (None, snd r) else r)"

text \<open>\<open>try { ... } catch { /* already terminal */ }\<close>.\<close>

definition tolerate_all :: "loop_failure option \<times> world \<Rightarrow> loop_failure option \<times> world" where
  "tolerate_all r = (None, snd r)"

definition patch_run :: "ident \<Rightarrow> run_status \<Rightarrow> string option \<Rightarrow> world \<Rightarrow> world" where
  "patch_run runId status reason w = w\<lparr>wd_runPatches := wd_runPatches w @ [(runId, status, reason)]\<rparr>"

text \<open>
  The \<open>catch\<close> block. The result is the value it returns, or the failure it throws in turn, and
  \<open>graceExpiredDuringShutdown\<close>.
\<close>

definition handle_failure ::
  "loop_env \<Rightarrow> ident \<Rightarrow> job \<Rightarrow> job_ownership \<Rightarrow> bool \<Rightarrow> loop_failure \<Rightarrow> world \<Rightarrow>
   (loop_failure + loop_result) \<times> bool \<times> world" where
  "handle_failure env repoId job owner started f w =
     (let finish = (\<lambda>value grace r.
            (case fst r of None \<Rightarrow> Inr value | Some e \<Rightarrow> Inl e, grace, snd r));
          release = tolerate_lost (queue_call (\<lambda>t. releaseClaim t owner) w)
      in case f of
        Ownership_lost \<Rightarrow> (Inr Settled, False, w)
      | Lease_conflict \<Rightarrow>
          (case release of
             (None, w') \<Rightarrow> (Inr Lease_conflicted, False, w'\<lparr>wd_skipped := j_id job # wd_skipped w'\<rparr>)
           | (Some e, w') \<Rightarrow> (Inl e, False, w'))
      | Repo_unavailable cause \<Rightarrow>
          (let w1 = patch_run (j_runId job) RFailed (Some cause)
                 (w\<lparr>wd_unreachable := wd_unreachable w @ [(repoId, cause)]\<rparr>);
               w2 = w1\<lparr>wd_notified := wd_notified w1 @ [(j_runId job, cause)]\<rparr>
           in if started
              then finish Settled False
                (tolerate_lost (queue_call (\<lambda>t. markFailed t owner (le_settledAt env)) w2))
              else finish Settled False (tolerate_lost (queue_call (\<lambda>t. releaseClaim t owner) w2)))
      | _ \<Rightarrow>
          (if \<not> started then finish Settled (f = Grace_expired_shutdown) release
           else if f = Grace_expired_shutdown
           then finish Settled True
             (tolerate_all (queue_call (\<lambda>t. markFailed t owner (le_settledAt env)) w))
           else if settle_reason env = Some Shutdown
           then finish Settled False (tolerate_all (queue_call (\<lambda>t. resetToQueued t owner) w))
           else if settle_reason env = Some User_cancelled
           then finish Settled False
             (tolerate_all (queue_call (\<lambda>t. markCancelled t owner (le_settledAt env))
                (patch_run (j_runId job) RCancelled None w)))
           else finish Settled False
             (tolerate_lost (queue_call (\<lambda>t. markFailed t owner (le_settledAt env)) w))))"

text \<open>The \<open>finally\<close> block: the lease, then the registry.\<close>

definition release_lease :: "ident \<Rightarrow> job \<Rightarrow> ident \<Rightarrow> world \<Rightarrow> world" where
  "release_lease workerId job tok w =
     (case release (wd_leases w) \<lparr>lh_repoId = j_repoId job, lh_workerId = workerId,
             lh_runId = j_runId job, lh_leaseToken = tok\<rparr> of
        Inl _ \<Rightarrow> w
      | Inr tbl \<Rightarrow> w\<lparr>wd_leases := tbl\<rparr>)"

definition settle_worker :: "loop_env \<Rightarrow> ident \<Rightarrow> ident \<Rightarrow> bool \<Rightarrow> world \<Rightarrow> world" where
  "settle_worker env workerId repoId grace w =
     (case findWorker (wd_workers w) workerId repoId of
        None \<Rightarrow> w
      | Some worker \<Rightarrow>
          if \<not> isRunnable (w_status worker) then w
          else if settle_reason env = Some Shutdown \<and> \<not> grace
          then w\<lparr>wd_stopping := True,
                 wd_workers := exec_worker_op (Mark_stopping workerId repoId) (wd_workers w)\<rparr>
          else if \<not> grace
          then w\<lparr>wd_workers := exec_worker_op (Mark_idle workerId repoId) (wd_workers w)\<rparr>
          else w)"

definition finally_block ::
  "loop_env \<Rightarrow> ident \<Rightarrow> ident \<Rightarrow> job \<Rightarrow> bool \<Rightarrow> bool \<Rightarrow> world \<Rightarrow> world" where
  "finally_block env workerId repoId job acquired grace w =
     settle_worker env workerId repoId grace
       (if \<not> acquired then w
        else if settle_reason env = Some Lease_lost \<or> grace then w
        else release_lease workerId job (le_leaseToken env) w)"

section \<open>Running a claimed job\<close>

definition settle_outcome ::
  "loop_env \<Rightarrow> job_ownership \<Rightarrow> execution_outcome \<Rightarrow> world \<Rightarrow> loop_failure option \<times> world" where
  "settle_outcome env owner outcome =
     (case executionOutcomeToJobStatus outcome of
        JSucceeded \<Rightarrow> queue_call (\<lambda>t. markSucceeded t owner (le_settledAt env))
      | JCancelled \<Rightarrow> queue_call (\<lambda>t. markCancelled t owner (le_settledAt env))
      | _ \<Rightarrow> queue_call (\<lambda>t. markFailed t owner (le_settledAt env)))"

text \<open>The awaited part: preparation, execution, and what the world does in the meantime.\<close>

definition run_body :: "loop_env \<Rightarrow> job \<Rightarrow> world \<Rightarrow> (loop_failure + execution_outcome) \<times> world" where
  "run_body env job w =
     (body_failure (le_body env),
      (case le_body env of
         Preparation_failed _ aborted \<Rightarrow>
           (if aborted then le_meanwhile env w
            else (le_meanwhile env w)\<lparr>wd_prepFailures := j_runId job # wd_prepFailures (le_meanwhile env w)\<rparr>)
       | _ \<Rightarrow> le_meanwhile env w))"

definition runClaimedJob ::
  "loop_env \<Rightarrow> ident \<Rightarrow> ident \<Rightarrow> job \<Rightarrow> world \<Rightarrow> (loop_failure + loop_result) \<times> world" where
  "runClaimedJob env repoId workerId job w =
     (case generateJobOwnership job workerId of
        Inl _ \<Rightarrow> (Inl (Other_error ''no claimToken''), w)
      | Inr owner \<Rightarrow>
        let conclude = (\<lambda>acquired r. case r of (v, grace, w') \<Rightarrow>
              (v, finally_block env workerId repoId job acquired grace w'))
        in case updateStatus (wd_workers w) workerId repoId markWorkerBusy of
             Inl _ \<Rightarrow>
               conclude False (handle_failure env repoId job owner False (Other_error ''unknown worker'') w)
           | Inr workers \<Rightarrow>
             let w1 = w\<lparr>wd_workers := workers\<rparr> in
             case acquire (wd_leases w1) (j_repoId job) workerId (j_runId job) (le_now env)
                    (le_ttlMs env) (le_leaseToken env) of
               Inl _ \<Rightarrow> conclude False (handle_failure env repoId job owner False Lease_conflict w1)
             | Inr (lease, leases) \<Rightarrow>
               let w2 = w1\<lparr>wd_leases := leases\<rparr> in
               case queue_call (\<lambda>t. markRunning t owner (le_startedAt env)) w2 of
                 (Some f, w3) \<Rightarrow> conclude True (handle_failure env repoId job owner False f w3)
               | (None, w3) \<Rightarrow>
                 (case run_body env job w3 of
                    (Inl f, w4) \<Rightarrow> conclude True (handle_failure env repoId job owner True f w4)
                  | (Inr outcome, w4) \<Rightarrow>
                    (case settle_outcome env owner outcome w4 of
                       (None, w5) \<Rightarrow> conclude True (Inr Settled, False, w5)
                     | (Some f, w5) \<Rightarrow> conclude True (handle_failure env repoId job owner True f w5))))"

section \<open>The claim loop\<close>

text \<open>
  One iteration per element of \<open>envs\<close>, which also carries the claim's date and token; \<open>None\<close>
  when they run out. \<open>repos\<close> is \<open>RepositoryPort.findById\<close>.
\<close>

fun worker_iterations ::
  "(ident \<Rightarrow> bool option) \<Rightarrow> ident \<Rightarrow> ident \<Rightarrow> (time \<times> ident \<times> loop_env) list \<Rightarrow> world \<Rightarrow>
   (loop_failure option \<times> world) option" where
  "worker_iterations repos repoId workerId [] w = None"
| "worker_iterations repos repoId workerId ((now, tok, env) # envs) w =
     (case claimNext None (wd_jobs w) workerId repoId (wd_skipped w) (Some (le_ttlMs env)) now tok of
        Inl _ \<Rightarrow> Some (Some (Other_error ''claim''), w)
      | Inr (None, tbl) \<Rightarrow> Some (None, w)
      | Inr (Some job, tbl) \<Rightarrow>
        let w1 = w\<lparr>wd_jobs := tbl\<rparr>;
            give_back = (case generateJobOwnership job workerId of
                Inl _ \<Rightarrow> (None, w1)
              | Inr owner \<Rightarrow> tolerate_lost (queue_call (\<lambda>t. releaseClaim t owner) w1))
        in if j_repoId job \<noteq> repoId
           then (case give_back of
                   (Some f, w2) \<Rightarrow> Some (Some f, w2)
                 | (None, w2) \<Rightarrow> worker_iterations repos repoId workerId envs
                     (w2\<lparr>wd_skipped := j_id job # wd_skipped w2\<rparr>))
           else if repos repoId \<noteq> Some True then Some give_back
           else (case runClaimedJob env repoId workerId job w1 of
              (Inl f, w2) \<Rightarrow> Some (Some f, w2)
            | (Inr outcome, w2) \<Rightarrow>
                (case findWorker (wd_workers w2) workerId repoId of
                   Some worker \<Rightarrow>
                     if outcome = Lease_conflicted \<and> isRunnable (w_status worker)
                     then worker_iterations repos repoId workerId envs
                       (w2\<lparr>wd_workers := exec_worker_op (Mark_idle workerId repoId) (wd_workers w2)\<rparr>)
                     else Some (None, w2)
                 | None \<Rightarrow> Some (None, w2))))"

definition workerLoop ::
  "(ident \<Rightarrow> bool option) \<Rightarrow> ident list \<Rightarrow> ident \<Rightarrow> ident \<Rightarrow> (time \<times> ident \<times> loop_env) list \<Rightarrow> world \<Rightarrow>
   (loop_failure option \<times> world) option" where
  "workerLoop repos enabled repoId workerId envs w =
     (if repoId \<notin> set enabled then Some (None, w)
      else if map_option w_status (findWorker (wd_workers w) workerId repoId) \<noteq> Some WIdle
      then Some (None, w)
      else worker_iterations repos repoId workerId envs (w\<lparr>wd_skipped := []\<rparr>))"

end
