(* ===== verification/Worker_Loop_Props.thy ===== *)
theory Worker_Loop_Props
  imports Worker_Loop
begin

text \<open>
  What a worker does to the tables, for every behaviour of its environment: the status each
  ending of a job leads to, the fate of the lease, and that a worker whose claim was taken
  away writes nothing.
\<close>

section \<open>Queue calls\<close>

lemma updateJob_ok:
  assumes d: "ids_distinct tbl" and row: "row \<in> set tbl" "row_owned owner row"
    and u: "apply_job_op op row = Inr u"
  shows "updateJobWithOwnership tbl owner (apply_job_op op) = Inr (replace_row u tbl)"
proof -
  obtain row' where r': "List.find (row_owned owner) tbl = Some row'"
    using row find_None_iff [of "row_owned owner" tbl] by (cases "List.find (row_owned owner) tbl") auto
  then have "row' \<in> set tbl" "row_owned owner row'" using find_SomeD [OF r'] by simp_all
  then have row': "row' = row" using same_row [OF d] row by (auto simp: row_owned_def)
  have id: "j_id u = j_id row" using apply_job_op_frame [OF u] by simp
  let ?m = "\<lambda>r. j_id r = j_id u \<and> j_claimedBy r = Some (o_workerId owner) \<and>
      j_claimToken r = Some (o_claimToken owner)"
  have "?m row" using row(2) id by (simp add: row_owned_def)
  then have "list_ex ?m tbl" using row(1) by (auto simp: list_ex_iff)
  moreover have "map (\<lambda>r. if ?m r then settle_update u r else r) tbl = replace_row u tbl"
  proof (rule map_if_replace [OF d row(1)])
    show "?m row" by fact
  qed (use id settle_update_eq [OF u] in simp_all)
  ultimately show ?thesis
    using r' u by (simp add: updateJobWithOwnership_def row' Let_def del: apply_job_op.simps)
qed

text \<open>A queue call of one transition, by an owner whose row is \<open>row\<close>.\<close>

lemma queue_call_ok:
  assumes "ids_distinct (wd_jobs w)" and "row \<in> set (wd_jobs w)" "row_owned owner row"
    and "apply_job_op op row = Inr u"
    and "f (wd_jobs w) = updateJobWithOwnership (wd_jobs w) owner (apply_job_op op)"
  shows "queue_call f w = (None, w\<lparr>wd_jobs := replace_row u (wd_jobs w)\<rparr>)"
  using updateJob_ok [OF assms(1-4)] assms(5) by (simp add: queue_call_def)

lemma queue_call_stale:
  assumes "\<not> queue_owns (wd_jobs w) owner"
    and "f (wd_jobs w) = updateJobWithOwnership (wd_jobs w) owner t"
  shows "queue_call f w = (Some Ownership_lost, w)"
  using updateJob_stale [of "wd_jobs w" owner t] assms
  by (auto simp: queue_call_def queue_owns_def list_ex_iff)

lemma owner_ops:
  "releaseClaim tbl owner = updateJobWithOwnership tbl owner (apply_job_op Op_unclaim)"
  "resetToQueued tbl owner = updateJobWithOwnership tbl owner (apply_job_op Op_reset)"
  "markRunning tbl owner now = updateJobWithOwnership tbl owner (apply_job_op (Op_running now))"
  "markSucceeded tbl owner now = updateJobWithOwnership tbl owner (apply_job_op (Op_succeeded now))"
  "markFailed tbl owner now = updateJobWithOwnership tbl owner (apply_job_op (Op_failed now))"
  "markCancelled tbl owner now = updateJobWithOwnership tbl owner (apply_job_op (Op_cancelled now))"
  using owner_op_apply [of "Release_claim owner" owner Op_unclaim "\<lambda>_. None" None tbl]
    owner_op_apply [of "Reset_to_queued owner" owner Op_reset "\<lambda>_. None" None tbl]
    owner_op_apply [of "Mark_running owner now" owner "Op_running now" "\<lambda>_. None" None tbl]
    owner_op_apply [of "Mark_succeeded owner now" owner "Op_succeeded now" "\<lambda>_. None" None tbl]
    owner_op_apply [of "Mark_failed owner now" owner "Op_failed now" "\<lambda>_. None" None tbl]
    owner_op_apply [of "Mark_cancelled owner now" owner "Op_cancelled now" "\<lambda>_. None" None tbl]
  by simp_all

section \<open>Starting\<close>

definition owner_of :: "job \<Rightarrow> ident \<Rightarrow> job_ownership" where
  "owner_of job workerId =
     \<lparr>o_jobId = j_id job, o_workerId = workerId, o_claimToken = the (j_claimToken job)\<rparr>"

text \<open>
  The job is this worker's claimed row, the worker is registered, and the repository's lease is
  free, expired or the worker's own.
\<close>

definition can_start :: "loop_env \<Rightarrow> ident \<Rightarrow> ident \<Rightarrow> job \<Rightarrow> world \<Rightarrow> bool" where
  "can_start env repoId workerId job w \<longleftrightarrow>
     ids_distinct (wd_jobs w) \<and> job \<in> set (wd_jobs w) \<and> j_status job = JClaimed \<and>
     j_claimedBy job = Some workerId \<and> j_claimToken job \<noteq> None \<and> the (j_claimToken job) \<noteq> [] \<and>
     findWorker (wd_workers w) workerId repoId \<noteq> None \<and>
     ok (acquire (wd_leases w) (j_repoId job) workerId (j_runId job) (le_now env) (le_ttlMs env)
          (le_leaseToken env))"

definition running_row :: "loop_env \<Rightarrow> job \<Rightarrow> job" where
  "running_row env job = job\<lparr>j_status := JRunning, j_startedAt := Some (le_startedAt env)\<rparr>"

text \<open>The world once the job is marked running.\<close>

definition started_world :: "loop_env \<Rightarrow> ident \<Rightarrow> ident \<Rightarrow> job \<Rightarrow> world \<Rightarrow> world" where
  "started_world env repoId workerId job w =
     w\<lparr>wd_workers := exec_worker_op (Mark_busy workerId repoId) (wd_workers w),
       wd_leases := exec_lease_op (Acquire (j_repoId job) workerId (j_runId job) (le_now env)
         (le_ttlMs env) (le_leaseToken env)) (wd_leases w),
       wd_jobs := replace_row (running_row env job) (wd_jobs w)\<rparr>"

lemma runClaimedJob_started:
  assumes "can_start env repoId workerId job w"
  shows "runClaimedJob env repoId workerId job w =
    (let conclude = (\<lambda>r. case r of (v, grace, w') \<Rightarrow>
           (v, finally_block env workerId repoId job True grace w'));
         owner = owner_of job workerId
     in case run_body env job (started_world env repoId workerId job w) of
          (Inl f, w4) \<Rightarrow> conclude (handle_failure env repoId job owner True f w4)
        | (Inr outcome, w4) \<Rightarrow>
          (case settle_outcome env owner outcome w4 of
             (None, w5) \<Rightarrow> conclude (Inr Settled, False, w5)
           | (Some f, w5) \<Rightarrow> conclude (handle_failure env repoId job owner True f w5)))"
proof -
  let ?owner = "owner_of job workerId"
  have gen: "generateJobOwnership job workerId = Inr ?owner"
    using assms by (auto simp: can_start_def generateJobOwnership_def owner_of_def)
  obtain workers where busy: "updateStatus (wd_workers w) workerId repoId markWorkerBusy = Inr workers"
    using assms by (auto simp: can_start_def updateStatus_def requireWorker_def)
  obtain lease leases where acq: "acquire (wd_leases w) (j_repoId job) workerId (j_runId job)
      (le_now env) (le_ttlMs env) (le_leaseToken env) = Inr (lease, leases)"
    using assms by (auto simp: can_start_def ok_iff)
  let ?w2 = "w\<lparr>wd_workers := workers, wd_leases := leases\<rparr>"
  have "queue_call (\<lambda>t. markRunning t ?owner (le_startedAt env)) ?w2 =
      (None, ?w2\<lparr>wd_jobs := replace_row (running_row env job) (wd_jobs w)\<rparr>)"
    using queue_call_ok [of ?w2 job ?owner "Op_running (le_startedAt env)" "running_row env job"] assms
    by (auto simp: can_start_def owner_ops row_owned_def owner_of_def running_row_def markJobRunning_def)
  moreover have "started_world env repoId workerId job w =
      ?w2\<lparr>wd_jobs := replace_row (running_row env job) (wd_jobs w)\<rparr>"
    by (simp add: started_world_def exec_worker_op_def busy acq)
  ultimately show ?thesis
    by (simp add: runClaimedJob_def gen busy acq Let_def)
qed

text \<open>The later steps touch neither the jobs nor what was sent out.\<close>

lemma finally_block_frame [simp]:
  "wd_jobs (finally_block env workerId repoId job acquired grace w) = wd_jobs w"
  "wd_runPatches (finally_block env workerId repoId job acquired grace w) = wd_runPatches w"
  by (simp_all add: finally_block_def settle_worker_def release_lease_def split: option.splits sum.splits)

lemma run_body_frame [simp]:
  "fst (run_body env job w) = body_failure (le_body env)"
  "wd_jobs (snd (run_body env job w)) = wd_jobs (le_meanwhile env w)"
  "wd_leases (snd (run_body env job w)) = wd_leases (le_meanwhile env w)"
  "wd_runPatches (snd (run_body env job w)) = wd_runPatches (le_meanwhile env w)"
  by (simp_all add: run_body_def split: body_end.splits)

section \<open>Endings\<close>

text \<open>The status a job ends in, if its claim is still the worker's.\<close>

definition expected_status :: "loop_env \<Rightarrow> job_status" where
  "expected_status env =
     (case body_failure (le_body env) of
        Inr outcome \<Rightarrow> executionOutcomeToJobStatus outcome
      | Inl (Repo_unavailable _) \<Rightarrow> JFailed
      | Inl Grace_expired_shutdown \<Rightarrow> JFailed
      | Inl _ \<Rightarrow>
          (case settle_reason env of
             Some Shutdown \<Rightarrow> JQueued
           | Some User_cancelled \<Rightarrow> JCancelled
           | _ \<Rightarrow> JFailed))"

text \<open>The failures the body can end in by itself: not an ownership or lease error.\<close>

definition plain_ending :: "loop_env \<Rightarrow> bool" where
  "plain_ending env \<longleftrightarrow> body_failure (le_body env) \<noteq> Inl Ownership_lost \<and>
     body_failure (le_body env) \<noteq> Inl Lease_conflict"

text \<open>The job's row after the meantime is the running one.\<close>

definition still_running :: "loop_env \<Rightarrow> ident \<Rightarrow> ident \<Rightarrow> job \<Rightarrow> world \<Rightarrow> bool" where
  "still_running env repoId workerId job w \<longleftrightarrow>
     (let w' = le_meanwhile env (started_world env repoId workerId job w)
      in ids_distinct (wd_jobs w') \<and> running_row env job \<in> set (wd_jobs w'))"

lemma replace_row_findById:
  assumes "ids_distinct tbl" and "row \<in> set tbl" and "j_id u = j_id row"
  shows "findById None (replace_row u tbl) (j_id row) = Some u"
proof -
  have "List.find (\<lambda>r. j_id r = j_id row) (replace_row u xs) = Some u"
    if "row \<in> set xs" "set xs \<subseteq> set tbl" for xs
    using that assms by (induction xs) (auto simp: replace_row_def)
  then show ?thesis using assms(2) by (simp add: findById_def in_scope_def)
qed

lemma terminate_running:
  assumes "j_status row = JRunning"
  shows "apply_job_op (Op_succeeded t) row = Inr (row\<lparr>j_status := JSucceeded, j_completedAt := Some t\<rparr>)"
    and "apply_job_op (Op_failed t) row = Inr (row\<lparr>j_status := JFailed, j_completedAt := Some t\<rparr>)"
    and "apply_job_op (Op_cancelled t) row = Inr (row\<lparr>j_status := JCancelled, j_completedAt := Some t\<rparr>)"
    and "\<exists>u. apply_job_op Op_reset row = Inr u \<and> j_status u = JQueued \<and> j_id u = j_id row"
  using assms by (simp_all add: job_ops)

text \<open>A settling queue call on the running row.\<close>

lemma settle_call:
  assumes d: "ids_distinct (wd_jobs w)" and row: "row \<in> set (wd_jobs w)" "row_owned owner row"
    and run: "j_status row = JRunning"
  shows "\<exists>u. queue_call (\<lambda>t. markSucceeded t owner now) w = (None, w\<lparr>wd_jobs := replace_row u (wd_jobs w)\<rparr>) \<and>
      j_status u = JSucceeded \<and> j_id u = j_id row"
    and "\<exists>u. queue_call (\<lambda>t. markFailed t owner now) w = (None, w\<lparr>wd_jobs := replace_row u (wd_jobs w)\<rparr>) \<and>
      j_status u = JFailed \<and> j_id u = j_id row"
    and "\<exists>u. queue_call (\<lambda>t. markCancelled t owner now) w = (None, w\<lparr>wd_jobs := replace_row u (wd_jobs w)\<rparr>) \<and>
      j_status u = JCancelled \<and> j_id u = j_id row"
    and "\<exists>u. queue_call (\<lambda>t. resetToQueued t owner) w = (None, w\<lparr>wd_jobs := replace_row u (wd_jobs w)\<rparr>) \<and>
      j_status u = JQueued \<and> j_id u = j_id row"
proof -
  note call = queue_call_ok [OF d row]
  show "\<exists>u. queue_call (\<lambda>t. markSucceeded t owner now) w = (None, w\<lparr>wd_jobs := replace_row u (wd_jobs w)\<rparr>) \<and>
      j_status u = JSucceeded \<and> j_id u = j_id row"
    using call [OF terminate_running(1) [OF run]] by (auto simp: owner_ops)
  show "\<exists>u. queue_call (\<lambda>t. markFailed t owner now) w = (None, w\<lparr>wd_jobs := replace_row u (wd_jobs w)\<rparr>) \<and>
      j_status u = JFailed \<and> j_id u = j_id row"
    using call [OF terminate_running(2) [OF run]] by (auto simp: owner_ops)
  show "\<exists>u. queue_call (\<lambda>t. markCancelled t owner now) w = (None, w\<lparr>wd_jobs := replace_row u (wd_jobs w)\<rparr>) \<and>
      j_status u = JCancelled \<and> j_id u = j_id row"
    using call [OF terminate_running(3) [OF run]] by (auto simp: owner_ops)
  obtain u where "apply_job_op Op_reset row = Inr u" "j_status u = JQueued" "j_id u = j_id row"
    using terminate_running(4) [OF run] by blast
  then show "\<exists>u. queue_call (\<lambda>t. resetToQueued t owner) w = (None, w\<lparr>wd_jobs := replace_row u (wd_jobs w)\<rparr>) \<and>
      j_status u = JQueued \<and> j_id u = j_id row"
    using call [of Op_reset u "\<lambda>t. resetToQueued t owner"] by (auto simp: owner_ops)
qed

lemma handle_failure_running:
  assumes w: "ids_distinct (wd_jobs w)" "row \<in> set (wd_jobs w)" "row_owned owner row" "j_status row = JRunning"
    and f: "body_failure (le_body env) = Inl f" "plain_ending env"
  shows "\<exists>u w'. handle_failure env repoId job owner True f w = (Inr Settled, f = Grace_expired_shutdown, w') \<and>
    wd_jobs w' = replace_row u (wd_jobs w) \<and> j_status u = expected_status env \<and> j_id u = j_id row \<and>
    (expected_status env = JCancelled \<longrightarrow> (j_runId job, RCancelled, None) \<in> set (wd_runPatches w'))"
proof -
  note calls = settle_call [OF w]
  have jobs: "wd_jobs (patch_run r st c w) = wd_jobs w" for r st c by (simp add: patch_run_def)
  have calls': "row \<in> set (wd_jobs (patch_run r st c w))" "ids_distinct (wd_jobs (patch_run r st c w))"
    for r st c using w by (simp_all add: jobs)
  note cancel = settle_call(3) [OF calls'(2) calls'(1) w(3,4), of "le_settledAt env"]
  show ?thesis
  proof (cases f)
    case (Repo_unavailable cause)
    let ?w2 = "(patch_run (j_runId job) RFailed (Some cause)
       (w\<lparr>wd_unreachable := wd_unreachable w @ [(repoId, cause)]\<rparr>))
       \<lparr>wd_notified := wd_notified w @ [(j_runId job, cause)]\<rparr>"
    obtain u where "queue_call (\<lambda>t. markFailed t owner (le_settledAt env)) ?w2 =
        (None, ?w2\<lparr>wd_jobs := replace_row u (wd_jobs ?w2)\<rparr>)" "j_status u = JFailed" "j_id u = j_id row"
      using settle_call(2) [of ?w2 row owner "le_settledAt env"] w by (auto simp: patch_run_def)
    then show ?thesis
      using f Repo_unavailable
      by (auto simp: handle_failure_def Let_def tolerate_lost_def expected_status_def patch_run_def)
  next
    case Grace_expired_shutdown
    then show ?thesis
      using f calls(2) [of "le_settledAt env"] by (auto simp: handle_failure_def Let_def tolerate_all_def expected_status_def)
  next
    case (Other_error m)
    consider "settle_reason env = Some Shutdown" | "settle_reason env = Some User_cancelled"
      | "settle_reason env \<noteq> Some Shutdown" "settle_reason env \<noteq> Some User_cancelled" by blast
    then show ?thesis
    proof cases
      case 1
      then show ?thesis
        using f calls(4) Other_error
        by (auto simp: handle_failure_def Let_def tolerate_all_def expected_status_def)
    next
      case 2
      then show ?thesis
        using f cancel [of "j_runId job" RCancelled None] Other_error
        by (auto simp: handle_failure_def Let_def tolerate_all_def expected_status_def patch_run_def)
    next
      case 3
      then have "expected_status env = JFailed"
        using f Other_error by (auto simp: expected_status_def split: option.splits abort_reason.splits)
      then show ?thesis
        using f calls(2) [of "le_settledAt env"] Other_error 3
        by (auto simp: handle_failure_def Let_def tolerate_lost_def)
    qed
  qed (use f in \<open>simp_all add: plain_ending_def\<close>)
qed

lemma running_row_owned:
  assumes "can_start env repoId workerId job w"
  shows "row_owned (owner_of job workerId) (running_row env job) \<and> j_status (running_row env job) = JRunning \<and>
    j_id (running_row env job) = j_id job"
  using assms by (auto simp: can_start_def row_owned_def owner_of_def running_row_def)

text \<open>A job that runs undisturbed ends in the expected status, whatever the ending.\<close>

lemma run_job_status:
  assumes start: "can_start env repoId workerId job w" and ending: "plain_ending env"
    and alive: "still_running env repoId workerId job w"
    and res: "runClaimedJob env repoId workerId job w = (v, w')"
  shows "v = Inr Settled \<and> (\<exists>j. findById None (wd_jobs w') (j_id job) = Some j \<and> j_status j = expected_status env) \<and>
    ((\<exists>f. body_failure (le_body env) = Inl f) \<longrightarrow> expected_status env = JCancelled \<longrightarrow>
       (j_runId job, RCancelled, None) \<in> set (wd_runPatches w'))"
proof -
  let ?w3 = "started_world env repoId workerId job w"
  let ?owner = "owner_of job workerId" and ?row = "running_row env job"
  define w4 where "w4 = snd (run_body env job ?w3)"
  have body: "run_body env job ?w3 = (body_failure (le_body env), w4)"
    by (simp add: w4_def prod_eq_iff)
  have w4: "ids_distinct (wd_jobs w4)" "?row \<in> set (wd_jobs w4)"
    using alive by (simp_all add: still_running_def Let_def w4_def)
  note row = running_row_owned [OF start]
  have owned: "row_owned ?owner ?row" and status: "j_status ?row = JRunning" and id: "j_id ?row = j_id job"
    using row by simp_all
  have found: "findById None (replace_row u (wd_jobs w4)) (j_id job) = Some u" if "j_id u = j_id ?row" for u
    using replace_row_findById [OF w4] that id by simp
  note run = runClaimedJob_started [OF start, unfolded body Let_def]
  show ?thesis
  proof (cases "body_failure (le_body env)")
    case (Inl f)
    obtain u w5 where h: "handle_failure env repoId job ?owner True f w4 = (Inr Settled, f = Grace_expired_shutdown, w5)"
      "wd_jobs w5 = replace_row u (wd_jobs w4)" "j_status u = expected_status env" "j_id u = j_id ?row"
      "expected_status env = JCancelled \<longrightarrow> (j_runId job, RCancelled, None) \<in> set (wd_runPatches w5)"
      using handle_failure_running [OF w4 owned status Inl ending] by blast
    have "v = Inr Settled" "w' = finally_block env workerId repoId job True (f = Grace_expired_shutdown) w5"
      using res run Inl h(1) by simp_all
    then show ?thesis using h found by simp
  next
    case (Inr outcome)
    note calls = settle_call [OF w4 owned status]
    have exp: "expected_status env = executionOutcomeToJobStatus outcome"
      by (simp add: expected_status_def Inr)
    obtain u where u: "settle_outcome env ?owner outcome w4 = (None, w4\<lparr>wd_jobs := replace_row u (wd_jobs w4)\<rparr>)"
      "j_status u = executionOutcomeToJobStatus outcome" "j_id u = j_id ?row"
      using calls(1-3) [of "le_settledAt env"] by (cases outcome) (auto simp: settle_outcome_def)
    have "v = Inr Settled"
      "w' = finally_block env workerId repoId job True False (w4\<lparr>wd_jobs := replace_row u (wd_jobs w4)\<rparr>)"
      using res run Inr u(1) by simp_all
    then show ?thesis using u found exp Inr by simp
  qed
qed

text \<open>A worker that lost its claim in the meantime leaves the jobs as they are.\<close>

lemma handle_failure_stale:
  assumes "\<not> queue_owns (wd_jobs w) owner"
  shows "wd_jobs (snd (snd (handle_failure env repoId job owner started f w))) = wd_jobs w"
proof -
  have call: "wd_jobs (snd (queue_call g w')) = wd_jobs w"
    if jobs: "wd_jobs w' = wd_jobs w" and g: "\<And>t. \<exists>op. g t = updateJobWithOwnership t owner (apply_job_op op)" for g w'
  proof -
    obtain op where "g (wd_jobs w') = updateJobWithOwnership (wd_jobs w') owner (apply_job_op op)"
      using g by blast
    then show ?thesis using queue_call_stale [of w' owner g] assms jobs by simp
  qed
  have ops: "\<And>t. \<exists>op. releaseClaim t owner = updateJobWithOwnership t owner (apply_job_op op)"
    "\<And>t. \<exists>op. resetToQueued t owner = updateJobWithOwnership t owner (apply_job_op op)"
    "\<And>t now. \<exists>op. markFailed t owner now = updateJobWithOwnership t owner (apply_job_op op)"
    "\<And>t now. \<exists>op. markCancelled t owner now = updateJobWithOwnership t owner (apply_job_op op)"
    by (auto simp: owner_ops)
  have patch: "wd_jobs (patch_run r st c x) = wd_jobs x" for r st c x by (simp add: patch_run_def)
  have snd_tol: "snd (tolerate_lost r) = snd r" "snd (tolerate_all r) = snd r" for r
    by (simp_all add: tolerate_lost_def tolerate_all_def)
  have rel: "wd_jobs (snd (tolerate_lost (queue_call (\<lambda>t. releaseClaim t owner) w))) = wd_jobs w"
    by (simp add: snd_tol call ops)
  have rel': "wd_jobs x = wd_jobs w" if "tolerate_lost (queue_call (\<lambda>t. releaseClaim t owner) w) = (a, x)" for a x
    using rel that by simp
  show ?thesis
    by (cases f) (auto dest!: rel' simp: handle_failure_def Let_def snd_tol patch call ops rel split: prod.splits option.splits)
qed

lemma run_job_fenced:
  assumes start: "can_start env repoId workerId job w"
    and stale: "\<not> queue_owns (wd_jobs (le_meanwhile env (started_world env repoId workerId job w)))
      (owner_of job workerId)"
  shows "wd_jobs (snd (runClaimedJob env repoId workerId job w)) =
    wd_jobs (le_meanwhile env (started_world env repoId workerId job w))"
proof -
  let ?w3 = "started_world env repoId workerId job w" and ?owner = "owner_of job workerId"
  define w4 where "w4 = snd (run_body env job ?w3)"
  have body: "run_body env job ?w3 = (body_failure (le_body env), w4)"
    by (simp add: w4_def prod_eq_iff)
  have w4: "\<not> queue_owns (wd_jobs w4) ?owner" "wd_jobs w4 = wd_jobs (le_meanwhile env ?w3)"
    using stale by (simp_all add: w4_def)
  have settle: "settle_outcome env ?owner outcome w4 = (Some Ownership_lost, w4)" for outcome
    using queue_call_stale [OF w4(1)]
    by (cases outcome) (simp_all add: settle_outcome_def owner_ops)
  note run = runClaimedJob_started [OF start, unfolded body Let_def]
  show ?thesis
    using handle_failure_stale [OF w4(1), of env repoId job True] w4(2)
    by (simp add: run settle split: sum.splits prod.splits) (metis snd_conv)
qed

lemma queue_call_leases [simp]: "wd_leases (snd (queue_call g w)) = wd_leases w"
  by (simp add: queue_call_def split: sum.splits job_error.splits)

lemma handle_failure_leases:
  "wd_leases (snd (snd (handle_failure env repoId job owner started f w))) = wd_leases w"
proof -
  have tol: "snd (tolerate_lost r) = snd r" "snd (tolerate_all r) = snd r" for r
    by (simp_all add: tolerate_lost_def tolerate_all_def)
  have patch: "wd_leases (patch_run r st c x) = wd_leases x" for r st c x by (simp add: patch_run_def)
  have rel: "wd_leases x = wd_leases w" if "tolerate_lost (queue_call g w) = (a, x)" for g a x
    using arg_cong [OF that, of snd] by (simp add: tol) (metis queue_call_leases)
  show ?thesis
    by (cases f) (auto dest!: rel simp: handle_failure_def Let_def tol patch split: prod.splits option.splits)
qed

lemma settle_outcome_leases: "wd_leases (snd (settle_outcome env owner outcome w)) = wd_leases w"
  by (cases outcome) (simp_all add: settle_outcome_def)

lemma settle_worker_leases: "wd_leases (settle_worker env workerId repoId grace w) = wd_leases w"
  by (simp add: settle_worker_def split: option.splits)

text \<open>The lease after the job, if nobody else touched it.\<close>

lemma run_job_leases:
  assumes start: "can_start env repoId workerId job w" and ending: "plain_ending env"
    and alive: "still_running env repoId workerId job w"
    and leases: "wd_leases (le_meanwhile env (started_world env repoId workerId job w)) =
      wd_leases (started_world env repoId workerId job w)"
  shows "wd_leases (snd (runClaimedJob env repoId workerId job w)) =
    (if settle_reason env = Some Lease_lost \<or> body_failure (le_body env) = Inl Grace_expired_shutdown
     then wd_leases (started_world env repoId workerId job w)
     else (wd_leases (started_world env repoId workerId job w))(j_repoId job := None))"
proof -
  let ?w3 = "started_world env repoId workerId job w" and ?owner = "owner_of job workerId"
  let ?keep = "settle_reason env = Some Lease_lost \<or> body_failure (le_body env) = Inl Grace_expired_shutdown"
  define w4 where "w4 = snd (run_body env job ?w3)"
  have body: "run_body env job ?w3 = (body_failure (le_body env), w4)"
    by (simp add: w4_def prod_eq_iff)
  have w4: "ids_distinct (wd_jobs w4)" "running_row env job \<in> set (wd_jobs w4)"
    and l4: "wd_leases w4 = wd_leases ?w3"
    using alive leases by (simp_all add: still_running_def Let_def w4_def)
  have owned: "row_owned ?owner (running_row env job)" "j_status (running_row env job) = JRunning"
    using running_row_owned [OF start] by simp_all
  have held: "wd_leases ?w3 (j_repoId job) \<noteq> None \<and> (\<forall>row. wd_leases ?w3 (j_repoId job) = Some row \<longrightarrow>
      wl_workerId row = workerId \<and> wl_runId row = j_runId job \<and> wl_leaseToken row = le_leaseToken env)"
    using start
    by (auto simp: can_start_def started_world_def acquire_def Let_def split: option.splits if_split_asm)
  have rel: "wd_leases (finally_block env workerId repoId job True grace x) =
      (if settle_reason env = Some Lease_lost \<or> grace then wd_leases ?w3
       else (wd_leases ?w3)(j_repoId job := None))" if x: "wd_leases x = wd_leases ?w3" for x grace
    using held
    by (auto simp: finally_block_def settle_worker_leases release_lease_def release_def lease_matches_def x)
  note run = runClaimedJob_started [OF start, unfolded body Let_def]
  show ?thesis
  proof (cases "body_failure (le_body env)")
    case (Inl f)
    obtain u w5 where h: "handle_failure env repoId job ?owner True f w4 =
        (Inr Settled, f = Grace_expired_shutdown, w5)"
      using handle_failure_running [OF w4 owned Inl ending] by blast
    then have "wd_leases w5 = wd_leases ?w3"
      using handle_failure_leases [of env repoId job ?owner True f w4] l4 by simp
    then show ?thesis by (simp add: run Inl h rel)
  next
    case (Inr outcome)
    note calls = settle_call [OF w4 owned]
    obtain u where u: "settle_outcome env ?owner outcome w4 = (None, w4\<lparr>wd_jobs := replace_row u (wd_jobs w4)\<rparr>)"
      using calls(1-3) [of "le_settledAt env"] by (cases outcome) (auto simp: settle_outcome_def)
    then show ?thesis using l4 by (simp add: run Inr rel)
  qed
qed

section \<open>Properties\<close>

definition sample_claimed :: job where
  "sample_claimed = (createJob (hd sample_jobs))\<lparr>j_status := JClaimed, j_claimedBy := Some ''w'',
     j_claimToken := Some ''t'', j_claimedAt := Some 1, j_attempts := 1\<rparr>"

definition sample_world :: world where
  "sample_world = \<lparr>wd_jobs = sample_claimed # tl sample_table, wd_leases = Map.empty,
     wd_workers = [createWorker ''w'' ''repo'' ''h'' 1 0], wd_skipped = [], wd_runPatches = [],
     wd_unreachable = [], wd_notified = [], wd_prepFailures = [], wd_stopping = False\<rparr>"

definition sample_env :: "body_end \<Rightarrow> abort_reason option \<Rightarrow> bool \<Rightarrow> loop_env" where
  "sample_env body reason aborted = \<lparr>le_now = 2, le_ttlMs = 100, le_leaseToken = ''lt'', le_startedAt = 3,
     le_body = body, le_meanwhile = (\<lambda>x. x), le_settledAt = 9, le_getAbortReason = reason,
     le_outerAborted = aborted\<rparr>"

lemma sample_env_simps [simp]:
  "le_now (sample_env b r a) = 2" "le_ttlMs (sample_env b r a) = 100"
  "le_leaseToken (sample_env b r a) = ''lt''" "le_startedAt (sample_env b r a) = 3"
  "le_body (sample_env b r a) = b" "le_meanwhile (sample_env b r a) = (\<lambda>x. x)"
  "le_getAbortReason (sample_env b r a) = r" "le_outerAborted (sample_env b r a) = a"
  by (simp_all add: sample_env_def)

lemma sample_claimed_simps [simp]:
  "j_id sample_claimed = ''a''" "j_status sample_claimed = JClaimed" "j_repoId sample_claimed = ''repo''"
  "j_claimedBy sample_claimed = Some ''w''" "j_claimToken sample_claimed = Some ''t''"
  "j_runId sample_claimed = ''ra''"
  by (simp_all add: sample_claimed_def sample_jobs_def createJob_def)

lemma sample_world_jobs:
  "ids_distinct (wd_jobs sample_world)" "sample_claimed \<in> set (wd_jobs sample_world)"
  by (simp_all add: sample_world_def ids_distinct_def sample_table_def sample_jobs_def)
    (simp add: createJob_def)

lemma sample_can_start: "can_start (sample_env b r a) ''repo'' ''w'' sample_claimed sample_world"
  using sample_world_jobs
  by (simp add: can_start_def sample_world_def findWorker_def createWorker_def acquire_def Let_def)

lemma sample_still_running: "still_running (sample_env b r a) ''repo'' ''w'' sample_claimed sample_world"
proof -
  have "ids_distinct (replace_row u (wd_jobs sample_world))" for u
    using sample_world_jobs(1) by (simp add: ids_distinct_def map_id_replace_row)
  moreover have "running_row (sample_env b r a) sample_claimed \<in>
      set (replace_row (running_row (sample_env b r a) sample_claimed) (wd_jobs sample_world))"
    by (auto simp: replace_row_def running_row_def sample_world_def)
  ultimately show ?thesis by (simp add: still_running_def started_world_def Let_def)
qed



text \<open>
  When \<open>getAbortReason\<close> gives no answer, an abort of the outer signal is taken for a user
  cancellation: the job is cancelled, not requeued, and its run is patched to cancelled, also
  when the signal was aborted to shut the scheduler down.
\<close>

theorem outer_abort_cancels:
  assumes "can_start env repoId workerId job w" and "still_running env repoId workerId job w"
    and "le_getAbortReason env = None" "le_outerAborted env"
    and "le_body env = Aborted reason settled" "reason \<noteq> Shutdown"
    and "runClaimedJob env repoId workerId job w = (v, w')"
  shows "\<exists>j. findById None (wd_jobs w') (j_id job) = Some j \<and> j_status j = JCancelled \<and>
    (j_runId job, RCancelled, None) \<in> set (wd_runPatches w')"
proof -
  have "body_failure (le_body env) = Inl (Other_error ''aborted'')"
    by (simp add: body_failure_def assms(5,6))
  moreover from this have "expected_status env = JCancelled" "plain_ending env"
    by (simp_all add: expected_status_def settle_reason_def assms(3,4) plain_ending_def)
  ultimately show ?thesis using run_job_status [OF assms(1) _ assms(2,7)] by auto
qed

theorem outer_abort_cancels_witness:
  "\<exists>v w' j. runClaimedJob (sample_env (Aborted User_cancelled True) None True) ''repo'' ''w''
      sample_claimed sample_world = (v, w') \<and>
    findById None (wd_jobs w') ''a'' = Some j \<and> j_status j = JCancelled"
proof -
  let ?env = "sample_env (Aborted User_cancelled True) None True"
  obtain v w' where run: "runClaimedJob ?env ''repo'' ''w'' sample_claimed sample_world = (v, w')"
    by (cases "runClaimedJob ?env ''repo'' ''w'' sample_claimed sample_world")
  show ?thesis
    using outer_abort_cancels [OF sample_can_start sample_still_running _ _ _ _ run] run by auto
qed

text \<open>
  A worker that loses its claim while the job runs, because the job was reclaimed, requeued
  or reconciled by others, writes nothing to the jobs table afterwards, however its execution
  ends.
\<close>

theorem lost_claim_writes_nothing:
  assumes "can_start env repoId workerId job w"
    and "\<not> queue_owns (wd_jobs (le_meanwhile env (started_world env repoId workerId job w)))
      (owner_of job workerId)"
  shows "wd_jobs (snd (runClaimedJob env repoId workerId job w)) =
    wd_jobs (le_meanwhile env (started_world env repoId workerId job w))"
  using assms by (rule run_job_fenced)

theorem lost_claim_writes_nothing_witness:
  "wd_jobs (snd (runClaimedJob ((sample_env (Execution_resolved Failed) None False)
      \<lparr>le_meanwhile := (\<lambda>x. x\<lparr>wd_jobs := sample_table\<rparr>)\<rparr>) ''repo'' ''w'' sample_claimed sample_world)) =
   sample_table"
proof -
  let ?env = "(sample_env (Execution_resolved Failed) None False)
      \<lparr>le_meanwhile := (\<lambda>x. x\<lparr>wd_jobs := sample_table\<rparr>)\<rparr>"
  have "can_start ?env ''repo'' ''w'' sample_claimed sample_world"
    using sample_can_start [of "Execution_resolved Failed" None False] by (simp add: can_start_def)
  moreover have "\<not> queue_owns sample_table (owner_of sample_claimed ''w'')"
    by (simp add: queue_owns_def sample_table_def sample_jobs_def row_owned_def createJob_def)
  ultimately show ?thesis using lost_claim_writes_nothing [of ?env] by simp
qed

text \<open>
  If the repository's lease is held by another worker or run, the claim is given back: the
  job is queued again without an owner, it is added to the skipped jobs, the leases are
  untouched, and the result says so.
\<close>

theorem lease_conflict_requeues:
  assumes "ids_distinct (wd_jobs w)" "job \<in> set (wd_jobs w)" "j_status job = JClaimed"
    and "j_claimedBy job = Some workerId" "j_claimToken job = Some t" "t \<noteq> []"
    and "findWorker (wd_workers w) workerId repoId = Some wk"
    and "wd_leases w (j_repoId job) = Some row" "le_now env < wl_expiresAt row"
    and "wl_workerId row \<noteq> workerId \<or> wl_runId row \<noteq> j_runId job"
    and "runClaimedJob env repoId workerId job w = (v, w')"
  shows "v = Inr Lease_conflicted \<and> j_id job \<in> set (wd_skipped w') \<and> wd_leases w' = wd_leases w \<and>
    (\<exists>j. findById None (wd_jobs w') (j_id job) = Some j \<and> j_status j = JQueued \<and>
       j_claimedBy j = None \<and> j_claimToken j = None)"
proof -
  let ?owner = "owner_of job workerId"
  have gen: "generateJobOwnership job workerId = Inr ?owner"
    using assms(5,6) by (simp add: generateJobOwnership_def owner_of_def)
  obtain workers where busy: "updateStatus (wd_workers w) workerId repoId markWorkerBusy = Inr workers"
    using assms(7) by (simp add: updateStatus_def requireWorker_def)
  have acq: "acquire (wd_leases w) (j_repoId job) workerId (j_runId job) (le_now env) (le_ttlMs env)
      (le_leaseToken env) = Inl (WorkerLeaseConflictError (j_repoId job) (wl_workerId row))"
    using assms(8-10) by (auto simp: acquire_def Let_def)
  let ?w1 = "w\<lparr>wd_workers := workers\<rparr>"
  let ?u = "job\<lparr>j_claimedBy := None, j_claimedAt := None, j_claimToken := None, j_status := JQueued\<rparr>"
  have call: "queue_call (\<lambda>t. releaseClaim t ?owner) ?w1 = (None, ?w1\<lparr>wd_jobs := replace_row ?u (wd_jobs w)\<rparr>)"
    using queue_call_ok [of ?w1 job ?owner Op_unclaim ?u] assms(1-5)
    by (simp add: owner_ops row_owned_def owner_of_def unclaimJob_def)
  let ?w2 = "?w1\<lparr>wd_jobs := replace_row ?u (wd_jobs w), wd_skipped := j_id job # wd_skipped w\<rparr>"
  have "runClaimedJob env repoId workerId job w =
      (Inr Lease_conflicted, finally_block env workerId repoId job False False ?w2)"
    by (simp add: runClaimedJob_def gen busy acq handle_failure_def call tolerate_lost_def Let_def)
  moreover have "wd_skipped (finally_block env workerId repoId job False False ?w2) = wd_skipped ?w2"
    "wd_leases (finally_block env workerId repoId job False False ?w2) = wd_leases w"
    by (simp_all add: finally_block_def settle_worker_def split: option.splits)
  moreover have "findById None (replace_row ?u (wd_jobs w)) (j_id job) = Some ?u"
    using replace_row_findById [OF assms(1,2)] by simp
  ultimately show ?thesis using assms(11) by auto
qed

theorem lease_conflict_requeues_witness:
  "\<exists>w' j. runClaimedJob (sample_env Run_missing None False) ''repo'' ''w'' sample_claimed
      (sample_world\<lparr>wd_leases := exec_lease_op (Acquire ''repo'' ''v'' ''q'' 0 50 ''x'') Map.empty\<rparr>)
      = (Inr Lease_conflicted, w') \<and>
    findById None (wd_jobs w') ''a'' = Some j \<and> j_status j = JQueued"
proof -
  let ?w = "sample_world\<lparr>wd_leases := exec_lease_op (Acquire ''repo'' ''v'' ''q'' 0 50 ''x'') Map.empty\<rparr>"
  let ?env = "sample_env Run_missing None False"
  obtain v w' where run: "runClaimedJob ?env ''repo'' ''w'' sample_claimed ?w = (v, w')"
    by (cases "runClaimedJob ?env ''repo'' ''w'' sample_claimed ?w")
  obtain wk where "findWorker (wd_workers sample_world) ''w'' ''repo'' = Some wk"
    by (simp add: sample_world_def findWorker_def createWorker_def)
  moreover obtain row where "wd_leases ?w ''repo'' = Some row" "wl_expiresAt row = 50" "wl_workerId row = ''v''"
    by (simp add: acquire_def Let_def)
  ultimately show ?thesis
    using lease_conflict_requeues [of ?w sample_claimed "''w''" "''t''" "''repo''" wk row ?env v w']
      sample_world_jobs run by auto
qed

text \<open>
  After a job, and if nobody else changed the leases meanwhile, the repository's lease is
  gone, unless the reason was a lost lease or the shutdown grace ran out: then the lease stays,
  to expire by itself before anybody else can take the repository.
\<close>

theorem lease_after_job:
  assumes "can_start env repoId workerId job w" and "plain_ending env"
    and "still_running env repoId workerId job w"
    and "wd_leases (le_meanwhile env (started_world env repoId workerId job w)) =
      wd_leases (started_world env repoId workerId job w)"
  shows "wd_leases (snd (runClaimedJob env repoId workerId job w)) =
    (if settle_reason env = Some Lease_lost \<or> body_failure (le_body env) = Inl Grace_expired_shutdown
     then wd_leases (started_world env repoId workerId job w)
     else (wd_leases (started_world env repoId workerId job w))(j_repoId job := None))"
  using assms by (rule run_job_leases)

theorem lease_after_job_witness:
  "checkActiveLease (wd_leases (snd (runClaimedJob (sample_env (Aborted Shutdown False) (Some Shutdown) True)
      ''repo'' ''w'' sample_claimed sample_world))) ''repo'' 50"
proof -
  let ?env = "sample_env (Aborted Shutdown False) (Some Shutdown) True"
  have "plain_ending ?env" by (simp add: plain_ending_def body_failure_def)
  from lease_after_job [OF sample_can_start this sample_still_running]
  show ?thesis
    by (simp add: body_failure_def started_world_def checkActiveLease_def acquire_def Let_def sample_world_def)
qed

end
