(* ===== verification/Fair_Scheduler.thy ===== *)
theory Fair_Scheduler
  imports Worker_Registry
begin

text \<open>
  The fair cross-repository scheduler,
  \<^verbatim>\<open>packages/application/src/fair-repository-scheduler.ts\<close>. Its methods interleave at
  their \<open>await\<close>s only, so a call of \<open>scheduleOnce\<close> is a sequence of atomic blocks: the block
  up to the first inspection (\<open>begin_tick\<close>) and one block per inspection result
  (\<open>resume_tick\<close>). \<open>sched_step\<close> interleaves the blocks of any number of concurrent calls
  with settling dispatches and \<open>stopAdmission\<close>. Telemetry and logging are left out: they
  change no scheduler state.

  Parameters: \<open>G\<close> is \<open>globalConcurrency\<close>, \<open>le\<close> the order \<open>localeCompare\<close> sorts by, and
  \<open>wid\<close> the \<open>workerIdFactory\<close>.
\<close>

section \<open>State\<close>

record reservation =
  rv_repoId :: ident
  rv_workerId :: ident
  rv_seq :: nat
  rv_abortReason :: "string option"

record scheduler =
  sc_cursorId :: "ident option"
  sc_inFlight :: "reservation list"
  sc_claimedSlots :: int
  sc_stopped :: bool
  sc_stopReason :: string

definition new_scheduler :: scheduler where
  "new_scheduler = \<lparr>sc_cursorId = None, sc_inFlight = [], sc_claimedSlots = 0, sc_stopped = False,
     sc_stopReason = ''shutdown''\<rparr>"

text \<open>The answer of the work source; \<open>Inspect_throws\<close> is a rejected promise.\<close>

datatype inspection =
    Available nat nat
  | Unavailable string
  | Inspect_throws string

definition inspectRepository :: "inspection \<Rightarrow> inspection" where
  "inspectRepository i =
     (case i of Inspect_throws message \<Rightarrow> Unavailable ''unavailable'' | _ \<Rightarrow> i)"

text \<open>The local variables of one \<open>scheduleOnce\<close> call, at one of its awaits or at its end.\<close>

record tick =
  tk_sorted :: "repository list"
  tk_startIndex :: nat
  tk_i :: nat
  tk_admitted :: nat
  tk_committed :: nat
  tk_done :: bool

section \<open>Helpers of the class\<close>

definition findStartIndex :: "scheduler \<Rightarrow> repository list \<Rightarrow> nat" where
  "findStartIndex s sortedRepos =
     (case sc_cursorId s of
        None \<Rightarrow> 0
      | Some cursor \<Rightarrow>
          case find_index (\<lambda>r. r_id r = cursor) sortedRepos of
            None \<Rightarrow>
              (case find_index (\<lambda>r. r_id r > cursor) sortedRepos of None \<Rightarrow> 0 | Some k \<Rightarrow> k)
          | Some cursorIdx \<Rightarrow> (cursorIdx + 1) mod length sortedRepos)"

definition countReservedForRepo :: "scheduler \<Rightarrow> ident \<Rightarrow> nat" where
  "countReservedForRepo s repoId = length (filter (\<lambda>r. rv_repoId r = repoId) (sc_inFlight s))"

text \<open>\<open>while (usedSeqs.has(seq)) seq++\<close>.\<close>

function next_free :: "nat list \<Rightarrow> nat \<Rightarrow> nat" where
  "next_free used seq = (if seq \<in> set used then next_free used (seq + 1) else seq)"
  by auto

lemma used_above_less:
  assumes "seq \<in> set used"
  shows "card {x \<in> set used. Suc seq \<le> x} < card {x \<in> set used. seq \<le> x}"
proof (rule psubset_card_mono)
  have "{x \<in> set used. Suc seq \<le> x} \<subseteq> {x \<in> set used. seq \<le> x}" by auto
  moreover have "seq \<in> {x \<in> set used. seq \<le> x}" "seq \<notin> {x \<in> set used. Suc seq \<le> x}"
    using assms by simp_all
  ultimately show "{x \<in> set used. Suc seq \<le> x} \<subset> {x \<in> set used. seq \<le> x}" by blast
qed simp

termination next_free
  by (relation "measure (\<lambda>(used, seq). card {x \<in> set used. seq \<le> x})")
    (simp_all add: used_above_less)

declare next_free.simps [simp del]

definition getNextSeq :: "scheduler \<Rightarrow> ident \<Rightarrow> nat" where
  "getNextSeq s repoId =
     next_free (map rv_seq (filter (\<lambda>r. rv_repoId r = repoId) (sc_inFlight s))) 0"

text \<open>\<open>Map.prototype.set\<close>: an existing key keeps its place.\<close>

definition set_inFlight :: "reservation \<Rightarrow> reservation list \<Rightarrow> reservation list" where
  "set_inFlight res xs =
     (if list_ex (\<lambda>r. rv_workerId r = rv_workerId res) xs
      then map (\<lambda>r. if rv_workerId r = rv_workerId res then res else r) xs
      else xs @ [res])"

section \<open>The blocks of \<open>scheduleOnce\<close>\<close>

text \<open>The end of the call: \<open>finally\<close> gives the committed claims back.\<close>

definition finish_tick :: "scheduler \<Rightarrow> tick \<Rightarrow> scheduler \<times> tick" where
  "finish_tick s t =
     (s\<lparr>sc_claimedSlots := sc_claimedSlots s - int (tk_committed t)\<rparr>, t\<lparr>tk_done := True\<rparr>)"

text \<open>The head of the loop: leave it, or claim a slot and await the inspection.\<close>

definition loop_head :: "nat \<Rightarrow> bool \<Rightarrow> scheduler \<Rightarrow> tick \<Rightarrow> scheduler \<times> tick" where
  "loop_head G aborted s t =
     (if tk_i t \<ge> length (tk_sorted t) then finish_tick s t
      else if aborted then finish_tick s t
      else if int (length (sc_inFlight s)) + sc_claimedSlots s \<ge> int G then finish_tick s t
      else (s\<lparr>sc_claimedSlots := sc_claimedSlots s + 1\<rparr>, t))"

definition release_claim :: "scheduler \<Rightarrow> scheduler" where
  "release_claim s = s\<lparr>sc_claimedSlots := sc_claimedSlots s - 1\<rparr>"

definition empty_tick :: "repository list \<Rightarrow> nat \<Rightarrow> tick" where
  "empty_tick sortedRepos start = \<lparr>tk_sorted = sortedRepos, tk_startIndex = start, tk_i = 0, tk_admitted = 0,
     tk_committed = 0, tk_done = False\<rparr>"

text \<open>\<open>repos\<close> is the result of \<open>listEnabled\<close>, \<open>None\<close> when it throws.\<close>

definition begin_tick ::
  "nat \<Rightarrow> (ident \<Rightarrow> ident \<Rightarrow> bool) \<Rightarrow> bool \<Rightarrow> repository list option \<Rightarrow> scheduler \<Rightarrow> scheduler \<times> tick" where
  "begin_tick G le aborted repos s =
     (if aborted \<or> sc_stopped s then finish_tick s (empty_tick [] 0)
      else case repos of
        None \<Rightarrow> finish_tick s (empty_tick [] 0)
      | Some rs \<Rightarrow>
          if rs = [] then finish_tick s (empty_tick [] 0)
          else let sortedRepos = sort_by (\<lambda>a b. le (r_id a) (r_id b)) rs
            in loop_head G aborted s (empty_tick sortedRepos (findStartIndex s sortedRepos)))"

definition tick_repo :: "tick \<Rightarrow> repository" where
  "tick_repo t = tk_sorted t ! ((tk_startIndex t + tk_i t) mod length (tk_sorted t))"

definition next_repo :: "tick \<Rightarrow> tick" where
  "next_repo t = t\<lparr>tk_i := tk_i t + 1\<rparr>"

text \<open>The dispatch of a repository that may run one more job.\<close>

definition admit_repo :: "(repository \<Rightarrow> nat \<Rightarrow> ident) \<Rightarrow> repository \<Rightarrow> scheduler \<Rightarrow> scheduler" where
  "admit_repo wid repo s =
     (let seq = getNextSeq s (r_id repo);
          res = \<lparr>rv_repoId = r_id repo, rv_workerId = wid repo seq, rv_seq = seq, rv_abortReason = None\<rparr>
      in s\<lparr>sc_inFlight := set_inFlight res (sc_inFlight s), sc_cursorId := Some (r_id repo)\<rparr>)"

definition resume_tick ::
  "nat \<Rightarrow> (repository \<Rightarrow> nat \<Rightarrow> ident) \<Rightarrow> bool \<Rightarrow> inspection \<Rightarrow> scheduler \<Rightarrow> tick \<Rightarrow> scheduler \<times> tick" where
  "resume_tick G wid aborted insp s t =
     (let repo = tick_repo t in
      if sc_stopped s then finish_tick (release_claim s) t
      else case inspectRepository insp of
        Available queueDepth activeCount \<Rightarrow>
          if max activeCount (countReservedForRepo s (r_id repo)) \<ge> min (r_maxConcurrentRuns repo) G
          then loop_head G aborted (release_claim s) (next_repo t)
          else if queueDepth = 0 then loop_head G aborted (release_claim s) (next_repo t)
          else loop_head G aborted (admit_repo wid repo s)
            ((next_repo t)\<lparr>tk_committed := tk_committed t + 1, tk_admitted := tk_admitted t + 1\<rparr>)
      | _ \<Rightarrow> loop_head G aborted (release_claim s) (next_repo t))"

text \<open>The \<open>finally\<close> of a dispatch, and the end of admission.\<close>

definition dispatch_settles :: "ident \<Rightarrow> scheduler \<Rightarrow> scheduler" where
  "dispatch_settles w s = s\<lparr>sc_inFlight := filter (\<lambda>r. rv_workerId r \<noteq> w) (sc_inFlight s)\<rparr>"

definition stopAdmission :: "string \<Rightarrow> scheduler \<Rightarrow> scheduler" where
  "stopAdmission reason s =
     (if sc_stopped s then s
      else s\<lparr>sc_stopped := True, sc_stopReason := reason,
             sc_inFlight := map (\<lambda>r. r\<lparr>rv_abortReason := Some reason\<rparr>) (sc_inFlight s)\<rparr>)"

section \<open>Interleavings\<close>

text \<open>A scheduler with its unfinished calls, each waiting for an inspection.\<close>

type_synonym sched_sys = "scheduler \<times> tick list"

definition keep_tick :: "tick \<Rightarrow> tick list" where
  "keep_tick t = (if tk_done t then [] else [t])"

inductive sched_step ::
  "nat \<Rightarrow> (ident \<Rightarrow> ident \<Rightarrow> bool) \<Rightarrow> (repository \<Rightarrow> nat \<Rightarrow> ident) \<Rightarrow> (repository \<Rightarrow> bool) \<Rightarrow>
   sched_sys \<Rightarrow> sched_sys \<Rightarrow> bool"
  for G le wid known where
  tick_begin: "begin_tick G le aborted repos s = (s', t) \<Longrightarrow>
     (\<forall>rs. repos = Some rs \<longrightarrow> list_all known rs) \<Longrightarrow>
     sched_step G le wid known (s, ts) (s', ts @ keep_tick t)"
| tick_resume: "resume_tick G wid aborted insp s t = (s', t') \<Longrightarrow>
     sched_step G le wid known (s, us @ t # vs) (s', us @ keep_tick t' @ vs)"
| settle: "sched_step G le wid known (s, ts) (dispatch_settles w s, ts)"
| stop: "sched_step G le wid known (s, ts) (stopAdmission reason s, ts)"

inductive_cases sched_stepE: "sched_step G le wid known (s, ts) y"

inductive sched_reachable ::
  "nat \<Rightarrow> (ident \<Rightarrow> ident \<Rightarrow> bool) \<Rightarrow> (repository \<Rightarrow> nat \<Rightarrow> ident) \<Rightarrow> (repository \<Rightarrow> bool) \<Rightarrow> sched_sys \<Rightarrow> bool"
  for G le wid known where
  start: "sched_reachable G le wid known (new_scheduler, [])"
| step: "sched_reachable G le wid known x \<Longrightarrow> sched_step G le wid known x y \<Longrightarrow>
     sched_reachable G le wid known y"

end
