(* ===== verification/Fair_Scheduler_Props.thy ===== *)
theory Fair_Scheduler_Props
  imports Fair_Scheduler
begin

text \<open>
  The scheduler under every interleaving: the pool and the repositories never exceed their
  limits, worker ids and sequence numbers are unique and small, and the claims are given back.
  One undisturbed call of \<open>scheduleOnce\<close> is described exactly by \<open>admits\<close>.
\<close>

section \<open>Sequence numbers\<close>

lemma next_free_notin: "next_free used seq \<notin> set used"
  by (induction used seq rule: next_free.induct) (subst next_free.simps, simp)

lemma next_free_below: "seq \<le> k \<Longrightarrow> k < next_free used seq \<Longrightarrow> k \<in> set used"
proof (induction used seq rule: next_free.induct)
  case (1 used seq)
  show ?case
  proof (cases "seq \<in> set used")
    case True
    then have "next_free used seq = next_free used (seq + 1)" by (simp add: next_free.simps [of used seq])
    then show ?thesis using 1 True by (cases "k = seq") auto
  next
    case False
    then show ?thesis using 1(2,3) by (simp add: next_free.simps [of used seq])
  qed
qed

lemma next_free_bound: "next_free used 0 \<le> length used"
proof -
  have "{0..<next_free used 0} \<subseteq> set used" using next_free_below [of 0 _ used] by auto
  then have "card {0..<next_free used 0} \<le> card (set used)" by (intro card_mono) auto
  then show ?thesis using card_length [of used] by simp
qed

lemma getNextSeq_bound: "getNextSeq s repo \<le> countReservedForRepo s repo"
  using next_free_bound [of "map rv_seq (filter (\<lambda>r. rv_repoId r = repo) (sc_inFlight s))"]
  by (simp add: getNextSeq_def countReservedForRepo_def)

lemma getNextSeq_fresh:
  assumes "r \<in> set (sc_inFlight s)" and "rv_repoId r = repo"
  shows "rv_seq r \<noteq> getNextSeq s repo"
proof -
  have "rv_seq r \<in> set (map rv_seq (filter (\<lambda>r. rv_repoId r = repo) (sc_inFlight s)))"
    using assms by simp
  then show ?thesis unfolding getNextSeq_def by (metis next_free_notin)
qed

section \<open>The reservation map\<close>

abbreviation slot_of :: "reservation \<Rightarrow> ident \<times> nat" where
  "slot_of r \<equiv> (rv_repoId r, rv_seq r)"

lemma set_inFlight_subset: "set (set_inFlight res xs) \<subseteq> insert res (set xs)"
  by (auto simp: set_inFlight_def)

lemma length_set_inFlight: "length (set_inFlight res xs) \<le> Suc (length xs)"
  by (simp add: set_inFlight_def)

lemma set_inFlight_fresh:
  "\<forall>r \<in> set xs. rv_workerId r \<noteq> rv_workerId res \<Longrightarrow> set_inFlight res xs = xs @ [res]"
  by (auto simp: set_inFlight_def list_ex_iff)

lemma set_inFlight_keys: "distinct (map rv_workerId xs) \<Longrightarrow> distinct (map rv_workerId (set_inFlight res xs))"
proof -
  have "map rv_workerId (map (\<lambda>r. if rv_workerId r = rv_workerId res then res else r) xs) = map rv_workerId xs"
    by (induction xs) auto
  then show "distinct (map rv_workerId xs) \<Longrightarrow> distinct (map rv_workerId (set_inFlight res xs))"
    unfolding set_inFlight_def by (auto simp: list_ex_iff simp del: map_map)
qed

lemma replace_reservation:
  fixes res :: reservation
  defines "repl \<equiv> \<lambda>r. if rv_workerId r = rv_workerId res then res else r"
  assumes "distinct (map rv_workerId xs)"
  shows "slot_of res \<notin> slot_of ` set xs \<Longrightarrow> distinct (map slot_of xs) \<Longrightarrow> distinct (map slot_of (map repl xs))"
    and "length (filter P (map repl xs)) \<le> length (filter P xs) + (if P res then 1 else 0)"
proof -
  have same: "map repl ys = ys" if "\<forall>r \<in> set ys. rv_workerId r \<noteq> rv_workerId res" for ys
    using that by (induction ys) (auto simp: repl_def)
  show "length (filter P (map repl xs)) \<le> length (filter P xs) + (if P res then 1 else 0)"
    using assms(2)
  proof (induction xs)
    case (Cons x xs)
    show ?case
    proof (cases "rv_workerId x = rv_workerId res")
      case True
      then have "map repl xs = xs" using Cons.prems by (intro same) (auto simp: image_iff)
      moreover have "repl x = res" using True by (simp add: repl_def)
      ultimately show ?thesis by simp
    next
      case False
      then have "repl x = x" by (simp add: repl_def)
      then show ?thesis using Cons by (cases "P res") simp_all
    qed
  qed simp
  show "slot_of res \<notin> slot_of ` set xs \<Longrightarrow> distinct (map slot_of xs) \<Longrightarrow> distinct (map slot_of (map repl xs))"
    using assms(2)
  proof (induction xs)
    case (Cons x xs)
    show ?case
    proof (cases "rv_workerId x = rv_workerId res")
      case True
      then have "map repl xs = xs" using Cons.prems by (intro same) (auto simp: image_iff)
      moreover have "repl x = res" using True by (simp add: repl_def)
      ultimately show ?thesis using Cons.prems by (simp add: image_iff)
    next
      case False
      then have x: "repl x = x" by (simp add: repl_def)
      have "slot_of x \<notin> slot_of ` set (map repl xs)"
        using Cons.prems by (auto simp: repl_def image_iff)
      then show ?thesis using Cons x by (simp add: image_image comp_def)
    qed
  qed simp
qed

lemma set_inFlight_slots:
  assumes "distinct (map rv_workerId xs)" "distinct (map slot_of xs)" "slot_of res \<notin> slot_of ` set xs"
  shows "distinct (map slot_of (set_inFlight res xs))"
  using replace_reservation(1) [OF assms(1,3,2)] assms
  by (auto simp: set_inFlight_def simp del: map_map)

lemma set_inFlight_count:
  assumes "distinct (map rv_workerId xs)"
  shows "length (filter P (set_inFlight res xs)) \<le> length (filter P xs) + (if P res then 1 else 0)"
  using replace_reservation(2) [OF assms, of P res]
  by (cases "P res") (simp_all add: set_inFlight_def)

section \<open>The invariant\<close>

text \<open>Distinct workers and slots, caps respected, and every sequence number below its cap.\<close>

definition pool_ok :: "(ident \<Rightarrow> nat) \<Rightarrow> scheduler \<Rightarrow> bool" where
  "pool_ok cap s \<longleftrightarrow>
     distinct (map rv_workerId (sc_inFlight s)) \<and> distinct (map slot_of (sc_inFlight s)) \<and>
     (\<forall>repo. countReservedForRepo s repo \<le> cap repo) \<and>
     (\<forall>r \<in> set (sc_inFlight s). rv_seq r < cap (rv_repoId r))"

text \<open>\<open>c\<close> committed claims and \<open>p\<close> calls that await an inspection.\<close>

definition slots_ok :: "nat \<Rightarrow> scheduler \<Rightarrow> nat \<Rightarrow> nat \<Rightarrow> bool" where
  "slots_ok G s c p \<longleftrightarrow> sc_claimedSlots s = int (c + p) \<and> length (sc_inFlight s) + p \<le> G"

definition tick_ok :: "(repository \<Rightarrow> bool) \<Rightarrow> tick \<Rightarrow> bool" where
  "tick_ok known t \<longleftrightarrow> \<not> tk_done t \<and> tk_i t < length (tk_sorted t) \<and> list_all known (tk_sorted t)"

definition sched_inv :: "nat \<Rightarrow> (ident \<Rightarrow> nat) \<Rightarrow> (repository \<Rightarrow> bool) \<Rightarrow> sched_sys \<Rightarrow> bool" where
  "sched_inv G cap known x \<longleftrightarrow>
     pool_ok cap (fst x) \<and>
     slots_ok G (fst x) (sum_list (map tk_committed (snd x))) (length (snd x)) \<and>
     list_all (tick_ok known) (snd x)"

lemma loop_head_frame:
  "loop_head G aborted s t = (s', t') \<Longrightarrow>
   sc_inFlight s' = sc_inFlight s \<and> tk_committed t' = tk_committed t \<and> tk_sorted t' = tk_sorted t"
  by (auto simp: loop_head_def finish_tick_def split: if_split_asm)

lemma loop_head_slots:
  assumes "loop_head G aborted s t = (s', t')" and "slots_ok G s (c + tk_committed t) p"
    and "\<not> tk_done t"
  shows "(if tk_done t' then slots_ok G s' c p
    else slots_ok G s' (c + tk_committed t') (p + 1) \<and> tk_i t' < length (tk_sorted t'))"
  using assms by (auto simp: loop_head_def finish_tick_def slots_ok_def split: if_split_asm)

lemma pool_ok_frame: "sc_inFlight s' = sc_inFlight s \<Longrightarrow> pool_ok cap s' \<longleftrightarrow> pool_ok cap s"
  by (simp add: pool_ok_def countReservedForRepo_def)

lemma loop_head_inv:
  assumes head: "loop_head G aborted s t = (s', t')" and "pool_ok cap s"
    and "slots_ok G s (c + tk_committed t) p" and "\<not> tk_done t"
  shows "pool_ok cap s' \<and> tk_sorted t' = tk_sorted t \<and>
    (if tk_done t' then slots_ok G s' c p
     else slots_ok G s' (c + tk_committed t') (p + 1) \<and> tk_i t' < length (tk_sorted t'))"
proof -
  have "sc_inFlight s' = sc_inFlight s" "tk_sorted t' = tk_sorted t"
    using loop_head_frame [OF head] by simp_all
  then show ?thesis
    using loop_head_slots [OF head assms(3,4)] pool_ok_frame [of s' s cap] assms(2) by simp
qed

lemma admit_repo_pool:
  assumes "pool_ok cap s" and "countReservedForRepo s (r_id repo) < cap (r_id repo)"
  shows "pool_ok cap (admit_repo wid repo s)"
proof -
  define seq where "seq = getNextSeq s (r_id repo)"
  define res where "res = \<lparr>rv_repoId = r_id repo, rv_workerId = wid repo seq, rv_seq = seq,
    rv_abortReason = None\<rparr>"
  have fl: "sc_inFlight (admit_repo wid repo s) = set_inFlight res (sc_inFlight s)"
    by (simp add: admit_repo_def Let_def res_def seq_def)
  have d: "distinct (map rv_workerId (sc_inFlight s))" "distinct (map slot_of (sc_inFlight s))"
    using assms(1) by (simp_all add: pool_ok_def)
  have "slot_of res \<notin> slot_of ` set (sc_inFlight s)"
  proof
    assume "slot_of res \<in> slot_of ` set (sc_inFlight s)"
    then obtain r where "r \<in> set (sc_inFlight s)" "rv_repoId r = r_id repo" "rv_seq r = seq"
      by (auto simp: res_def)
    then show False using getNextSeq_fresh seq_def by blast
  qed
  then have "distinct (map slot_of (set_inFlight res (sc_inFlight s)))"
    using set_inFlight_slots d by blast
  moreover have "countReservedForRepo (admit_repo wid repo s) r \<le> cap r" for r
  proof -
    have "countReservedForRepo (admit_repo wid repo s) r \<le>
        countReservedForRepo s r + (if r_id repo = r then 1 else 0)"
      using set_inFlight_count [OF d(1), of "\<lambda>x. rv_repoId x = r" res]
      by (simp add: countReservedForRepo_def fl res_def)
    then show ?thesis using assms by (auto simp: pool_ok_def split: if_split_asm intro: order_trans)
  qed
  moreover have "rv_seq r < cap (rv_repoId r)" if "r \<in> set (set_inFlight res (sc_inFlight s))" for r
    using that set_inFlight_subset [of res "sc_inFlight s"] assms getNextSeq_bound [of s "r_id repo"]
    by (auto simp: pool_ok_def res_def seq_def)
  ultimately show ?thesis using set_inFlight_keys [OF d(1)] by (simp add: pool_ok_def fl)
qed

lemma admit_repo_slots:
  "slots_ok G s c (Suc p) \<Longrightarrow> slots_ok G (admit_repo wid repo s) (Suc c) p"
  using length_set_inFlight [of "\<lparr>rv_repoId = r_id repo, rv_workerId = wid repo (getNextSeq s (r_id repo)),
      rv_seq = getNextSeq s (r_id repo), rv_abortReason = None\<rparr>" "sc_inFlight s"]
  by (simp add: slots_ok_def admit_repo_def Let_def)

lemma release_claim_slots: "slots_ok G s c (Suc p) \<Longrightarrow> slots_ok G (release_claim s) c p"
  by (simp add: slots_ok_def release_claim_def)

text \<open>
  A resumed call gives its claim back or turns it into a reservation, then either finishes or
  claims the next slot.
\<close>

lemma resume_tick_inv:
  assumes res: "resume_tick G wid aborted insp s t = (s', t')"
    and pool: "pool_ok cap s" and slots: "slots_ok G s (c + tk_committed t) (Suc p)"
    and t: "tick_ok known t" and cap: "\<And>r. known r \<Longrightarrow> r_maxConcurrentRuns r \<le> cap (r_id r)"
  shows "pool_ok cap s' \<and> tk_sorted t' = tk_sorted t \<and>
    (if tk_done t' then slots_ok G s' c p
     else slots_ok G s' (c + tk_committed t') (p + 1) \<and> tk_i t' < length (tk_sorted t'))"
proof -
  let ?repo = "tick_repo t"
  have known: "r_maxConcurrentRuns ?repo \<le> cap (r_id ?repo)"
  proof -
    have "tk_i t < length (tk_sorted t)" using t by (simp add: tick_ok_def)
    then have "(tk_startIndex t + tk_i t) mod length (tk_sorted t) < length (tk_sorted t)"
      by (intro mod_less_divisor) linarith
    then have "known ?repo" using t by (simp add: tick_ok_def tick_repo_def list_all_length)
    then show ?thesis by (rule cap)
  qed
  have rel: "slots_ok G (release_claim s) (c + tk_committed t) p" using slots by (rule release_claim_slots)
  have pool_rel: "pool_ok cap (release_claim s)"
    using pool pool_ok_frame [of "release_claim s" s cap] by (simp add: release_claim_def)
  have skip: ?thesis if "loop_head G aborted (release_claim s) (next_repo t) = (s', t')"
  proof -
    have "\<not> tk_done (next_repo t)" "tk_committed (next_repo t) = tk_committed t"
      "tk_sorted (next_repo t) = tk_sorted t"
      using t by (simp_all add: next_repo_def tick_ok_def)
    then show ?thesis using loop_head_inv [OF that pool_rel, of c p] rel by (cases "tk_done t'") auto
  qed
  consider (stopped) "sc_stopped s"
    | (skipped) "loop_head G aborted (release_claim s) (next_repo t) = (s', t')"
    | (admitted) "countReservedForRepo s (r_id ?repo) < r_maxConcurrentRuns ?repo"
        "loop_head G aborted (admit_repo wid ?repo s)
          ((next_repo t)\<lparr>tk_committed := tk_committed t + 1, tk_admitted := tk_admitted t + 1\<rparr>) = (s', t')"
    using res by (auto simp: resume_tick_def Let_def split: if_split_asm inspection.splits)
  then show ?thesis
  proof cases
    case stopped
    then have "(s', t') = finish_tick (release_claim s) t" using res by (simp add: resume_tick_def Let_def)
    then show ?thesis
      using rel pool_rel pool_ok_frame [of s' "release_claim s" cap]
      by (simp add: finish_tick_def slots_ok_def)
  next
    case skipped
    then show ?thesis by (rule skip)
  next
    case admitted
    let ?t = "(next_repo t)\<lparr>tk_committed := tk_committed t + 1, tk_admitted := tk_admitted t + 1\<rparr>"
    have "slots_ok G (admit_repo wid ?repo s) (c + tk_committed ?t) p"
      using admit_repo_slots [OF slots] by simp
    moreover have "\<not> tk_done ?t" "tk_sorted ?t = tk_sorted t"
      using t by (simp_all add: next_repo_def tick_ok_def)
    moreover have "pool_ok cap (admit_repo wid ?repo s)"
      using admit_repo_pool [OF pool] admitted(1) known by simp
    ultimately show ?thesis using loop_head_inv [OF admitted(2), of cap c p] by (cases "tk_done t'") auto
  qed
qed

lemma begin_tick_inv:
  assumes beg: "begin_tick G le aborted repos s = (s', t)"
    and pool: "pool_ok cap s" and slots: "slots_ok G s c p"
    and known: "\<And>rs. repos = Some rs \<Longrightarrow> list_all known rs"
  shows "pool_ok cap s' \<and>
    (if tk_done t then slots_ok G s' c p
     else slots_ok G s' (c + tk_committed t) (p + 1) \<and> tick_ok known t)"
proof (cases "\<exists>rs. repos = Some rs \<and> rs \<noteq> [] \<and> \<not> aborted \<and> \<not> sc_stopped s")
  case True
  then obtain rs where rs: "repos = Some rs" "rs \<noteq> []" "\<not> aborted" "\<not> sc_stopped s" by blast
  let ?sorted = "sort_by (\<lambda>a b. le (r_id a) (r_id b)) rs"
  let ?t = "empty_tick ?sorted (findStartIndex s ?sorted)"
  have head: "loop_head G aborted s ?t = (s', t)" using beg rs by (simp add: begin_tick_def Let_def)
  have "slots_ok G s (c + tk_committed ?t) p" "\<not> tk_done ?t" using slots by (simp_all add: empty_tick_def)
  note inv = loop_head_inv [OF head pool this]
  have "list_all known (tk_sorted t)"
    using known [OF rs(1)] inv by (simp add: empty_tick_def list_all_iff)
  then show ?thesis using inv by (cases "tk_done t") (auto simp: tick_ok_def)
next
  case False
  then have "(s', t) = finish_tick s (empty_tick [] 0)"
    using beg by (auto simp: begin_tick_def split: if_split_asm option.splits)
  then show ?thesis
    using pool slots pool_ok_frame [of s' s cap]
    by (simp add: finish_tick_def empty_tick_def slots_ok_def)
qed

lemma dispatch_settles_inv:
  assumes "pool_ok cap s" and "slots_ok G s c p"
  shows "pool_ok cap (dispatch_settles w s) \<and> slots_ok G (dispatch_settles w s) c p"
proof -
  have le: "length (filter P (filter Q xs)) \<le> length (filter P xs)" for P Q and xs :: "reservation list"
    by (induction xs) auto
  have count: "countReservedForRepo (dispatch_settles w s) r \<le> cap r" for r
    using le [of "\<lambda>x. rv_repoId x = r" "\<lambda>x. rv_workerId x \<noteq> w" "sc_inFlight s"] assms(1)
    by (auto simp: pool_ok_def dispatch_settles_def countReservedForRepo_def simp del: filter_filter
        intro: order_trans)
  have "length (filter (\<lambda>r. rv_workerId r \<noteq> w) (sc_inFlight s)) + p \<le> G"
    using assms(2) by (intro order_trans [OF add_right_mono [OF length_filter_le]])
      (simp add: slots_ok_def)
  then have "slots_ok G (dispatch_settles w s) c p"
    using assms(2) by (simp add: dispatch_settles_def slots_ok_def)
  then show ?thesis
    using assms(1) count by (auto simp: pool_ok_def dispatch_settles_def distinct_map_filter)
qed

lemma stopAdmission_inv:
  assumes "pool_ok cap s" and "slots_ok G s c p"
  shows "pool_ok cap (stopAdmission reason s) \<and> slots_ok G (stopAdmission reason s) c p"
proof -
  have "map rv_workerId (map (\<lambda>r. r\<lparr>rv_abortReason := Some reason\<rparr>) xs) = map rv_workerId xs"
    "map slot_of (map (\<lambda>r. r\<lparr>rv_abortReason := Some reason\<rparr>) xs) = map slot_of xs"
    "length (filter (\<lambda>r. rv_repoId r = k) (map (\<lambda>r. r\<lparr>rv_abortReason := Some reason\<rparr>) xs)) =
     length (filter (\<lambda>r. rv_repoId r = k) xs)" for xs k
    by (induction xs) auto
  then show ?thesis
    using assms
    by (auto simp: pool_ok_def slots_ok_def stopAdmission_def countReservedForRepo_def simp del: map_map)
qed

lemma sched_step_inv:
  assumes "sched_step G le wid known x y" and "sched_inv G cap known x"
    and cap: "\<And>r. known r \<Longrightarrow> r_maxConcurrentRuns r \<le> cap (r_id r)"
  shows "sched_inv G cap known y"
  using assms(1,2)
proof cases
  case (tick_begin aborted repos s s' t ts)
  have "pool_ok cap s" "slots_ok G s (sum_list (map tk_committed ts)) (length ts)" "list_all (tick_ok known) ts"
    using assms(2) tick_begin by (simp_all add: sched_inv_def)
  with begin_tick_inv [OF tick_begin(3) this(1,2), of known] tick_begin show ?thesis
    by (auto simp: sched_inv_def keep_tick_def split: if_split_asm)
next
  case (tick_resume aborted insp s t s' t' us vs)
  let ?c = "sum_list (map tk_committed (us @ vs))" and ?p = "length (us @ vs)"
  have "pool_ok cap s" "slots_ok G s (?c + tk_committed t) (Suc ?p)" "tick_ok known t"
    and rest: "list_all (tick_ok known) (us @ vs)"
    using assms(2) tick_resume by (simp_all add: sched_inv_def add.commute add.left_commute)
  from resume_tick_inv [OF tick_resume(3) this(1-3) cap]
  have inv: "pool_ok cap s' \<and> tk_sorted t' = tk_sorted t \<and>
    (if tk_done t' then slots_ok G s' ?c ?p
     else slots_ok G s' (?c + tk_committed t') (?p + 1) \<and> tk_i t' < length (tk_sorted t'))" .
  have "tick_ok known t'" if "\<not> tk_done t'"
    using inv that \<open>tick_ok known t\<close> by (auto simp: tick_ok_def)
  then show ?thesis
    using inv rest tick_resume(2)
    by (auto simp: sched_inv_def keep_tick_def add.commute add.left_commute split: if_split_asm)
next
  case (settle s ts w)
  then show ?thesis using assms(2) dispatch_settles_inv by (auto simp: sched_inv_def)
next
  case (stop s ts reason)
  then show ?thesis using assms(2) stopAdmission_inv by (auto simp: sched_inv_def)
qed

lemma sched_reachable_inv:
  assumes "sched_reachable G le wid known x"
    and cap: "\<And>r. known r \<Longrightarrow> r_maxConcurrentRuns r \<le> cap (r_id r)"
  shows "sched_inv G cap known x"
  using assms(1)
proof induction
  case start
  show ?case
    by (simp add: sched_inv_def new_scheduler_def pool_ok_def slots_ok_def countReservedForRepo_def)
next
  case (step x y)
  then show ?case using sched_step_inv cap by blast
qed

section \<open>One undisturbed call\<close>

text \<open>
  A call of \<open>scheduleOnce\<close> during which nothing else happens and no dispatch settles: each
  inspection is answered by \<open>insp\<close>. Every resumption moves on by one repository, so as many
  as there are repositories are enough.
\<close>

fun drive ::
  "nat \<Rightarrow> nat \<Rightarrow> (repository \<Rightarrow> nat \<Rightarrow> ident) \<Rightarrow> (repository \<Rightarrow> inspection) \<Rightarrow> scheduler \<Rightarrow> tick \<Rightarrow>
   scheduler \<times> tick" where
  "drive 0 G wid insp s t = (s, t)"
| "drive (Suc n) G wid insp s t =
     (if tk_done t then (s, t)
      else case resume_tick G wid False (insp (tick_repo t)) s t of (s', t') \<Rightarrow> drive n G wid insp s' t')"

definition scheduleOnce ::
  "nat \<Rightarrow> (ident \<Rightarrow> ident \<Rightarrow> bool) \<Rightarrow> (repository \<Rightarrow> nat \<Rightarrow> ident) \<Rightarrow> (repository \<Rightarrow> inspection) \<Rightarrow>
   repository list \<Rightarrow> scheduler \<Rightarrow> scheduler \<times> tick" where
  "scheduleOnce G le wid insp repos s =
     (case begin_tick G le False (Some repos) s of (s', t) \<Rightarrow> drive (length repos) G wid insp s' t)"

text \<open>What the call admits: the first eligible repositories of the rotation.\<close>

definition rotation :: "(ident \<Rightarrow> ident \<Rightarrow> bool) \<Rightarrow> scheduler \<Rightarrow> repository list \<Rightarrow> repository list" where
  "rotation le s repos =
     (let srt = sort_by (\<lambda>a b. le (r_id a) (r_id b)) repos in rotate (findStartIndex s srt) srt)"

definition eligible :: "nat \<Rightarrow> (repository \<Rightarrow> inspection) \<Rightarrow> scheduler \<Rightarrow> repository \<Rightarrow> bool" where
  "eligible G insp s repo =
     (case inspectRepository (insp repo) of
        Available queueDepth activeCount \<Rightarrow> 0 < queueDepth \<and>
          max activeCount (countReservedForRepo s (r_id repo)) < min (r_maxConcurrentRuns repo) G
      | _ \<Rightarrow> False)"

definition admits ::
  "nat \<Rightarrow> (ident \<Rightarrow> ident \<Rightarrow> bool) \<Rightarrow> (repository \<Rightarrow> inspection) \<Rightarrow> repository list \<Rightarrow> scheduler \<Rightarrow> repository list" where
  "admits G le insp repos s =
     take ((G - length (sc_inFlight s) + 1) div 2) (filter (eligible G insp s) (rotation le s repos))"

definition factory_made :: "(repository \<Rightarrow> nat \<Rightarrow> ident) \<Rightarrow> scheduler \<Rightarrow> bool" where
  "factory_made wid s \<longleftrightarrow>
     (\<forall>r \<in> set (sc_inFlight s). \<exists>repo. r_id repo = rv_repoId r \<and> rv_workerId r = wid repo (rv_seq r))"

definition injective_factory :: "(repository \<Rightarrow> nat \<Rightarrow> ident) \<Rightarrow> bool" where
  "injective_factory wid \<longleftrightarrow>
     (\<forall>a b m n. wid a m = wid b n \<longrightarrow> r_id a = r_id b \<and> m = n)"

lemma admit_repo_appends:
  assumes "injective_factory wid" and "factory_made wid s"
  shows "\<exists>res. sc_inFlight (admit_repo wid repo s) = sc_inFlight s @ [res] \<and> rv_repoId res = r_id repo \<and>
    factory_made wid (admit_repo wid repo s)"
proof -
  let ?res = "\<lparr>rv_repoId = r_id repo, rv_workerId = wid repo (getNextSeq s (r_id repo)),
    rv_seq = getNextSeq s (r_id repo), rv_abortReason = None\<rparr>"
  have "rv_workerId r \<noteq> rv_workerId ?res" if r: "r \<in> set (sc_inFlight s)" for r
  proof
    assume same: "rv_workerId r = rv_workerId ?res"
    obtain repo' where "r_id repo' = rv_repoId r" "rv_workerId r = wid repo' (rv_seq r)"
      using r assms(2) unfolding factory_made_def by blast
    with same assms(1) have "rv_repoId r = r_id repo" "rv_seq r = getNextSeq s (r_id repo)"
      unfolding injective_factory_def by (metis reservation.select_convs(2))+
    then show False using getNextSeq_fresh [OF r] by blast
  qed
  then have "sc_inFlight (admit_repo wid repo s) = sc_inFlight s @ [?res]"
    by (simp add: admit_repo_def Let_def set_inFlight_fresh)
  moreover from this have "factory_made wid (admit_repo wid repo s)"
    using assms(2) by (auto simp: factory_made_def)
  ultimately show ?thesis by auto
qed

text \<open>The state at the head of the loop, after \<open>i\<close> repositories and \<open>k\<close> admissions.\<close>

definition at_head ::
  "(repository \<Rightarrow> nat \<Rightarrow> ident) \<Rightarrow> scheduler \<Rightarrow> repository list \<Rightarrow> nat \<Rightarrow> nat \<Rightarrow> scheduler \<Rightarrow> bool" where
  "at_head wid s0 xs i k s \<longleftrightarrow>
     \<not> sc_stopped s \<and> sc_claimedSlots s = int k \<and> factory_made wid s \<and>
     (\<exists>new. sc_inFlight s = sc_inFlight s0 @ new \<and> length new = k \<and>
        rv_repoId ` set new \<subseteq> r_id ` set (take i xs))"

lemma at_head_count:
  assumes "at_head wid s0 xs i k s" and "distinct (map r_id xs)" and "i < length xs"
  shows "countReservedForRepo s (r_id (xs ! i)) = countReservedForRepo s0 (r_id (xs ! i))"
proof -
  obtain new where new: "sc_inFlight s = sc_inFlight s0 @ new"
    "rv_repoId ` set new \<subseteq> r_id ` set (take i xs)"
    using assms(1) by (auto simp: at_head_def)
  have "r_id (xs ! i) \<notin> r_id ` set (take i xs)"
  proof
    assume "r_id (xs ! i) \<in> r_id ` set (take i xs)"
    then obtain j where "j < i" "r_id (xs ! i) = r_id (xs ! j)"
      using assms(3) by (auto simp: in_set_conv_nth)
    then have "map r_id xs ! i = map r_id xs ! j" "j < length xs" using assms(3) by simp_all
    then show False using assms(2,3) \<open>j < i\<close> nth_eq_iff_index_eq [of "map r_id xs" i j] by simp
  qed
  then have "filter (\<lambda>r. rv_repoId r = r_id (xs ! i)) new = []"
    unfolding filter_empty_conv using new(2) by (metis image_eqI subsetD)
  then show ?thesis by (simp add: countReservedForRepo_def new(1))
qed

lemma budget_iff: "n0 + k + k < G \<longleftrightarrow> k < (G - n0 + 1) div 2" for G n0 k :: nat
  by linarith

lemma take_Suc_diff: "k < K \<Longrightarrow> take (K - k) (x # xs) = x # take (K - Suc k) xs"
  by (metis Suc_diff_Suc take_Suc_Cons)

lemma rotate_tick_repo:
  "tk_i t < length (tk_sorted t) \<Longrightarrow> tick_repo t = rotate (tk_startIndex t) (tk_sorted t) ! tk_i t"
  by (simp add: tick_repo_def nth_rotate)

text \<open>What one repository does to the head of the loop.\<close>

lemma resume_at_head:
  assumes inj: "injective_factory wid" and dist: "distinct (map r_id xs)"
    and xs: "xs = rotate (tk_startIndex t) (tk_sorted t)" and i: "tk_i t = i" "i < length xs"
    and head: "at_head wid s0 xs i k s"
    and s1: "s1 = s\<lparr>sc_claimedSlots := sc_claimedSlots s + 1\<rparr>"
  shows "\<exists>s2 t2. resume_tick G wid False (insp (xs ! i)) s1 t = loop_head G False s2 t2 \<and>
    tk_startIndex t2 = tk_startIndex t \<and> tk_sorted t2 = tk_sorted t \<and> tk_i t2 = Suc i \<and> tk_done t2 = tk_done t \<and>
    (if eligible G insp s0 (xs ! i)
     then at_head wid s0 xs (Suc i) (Suc k) s2 \<and> tk_committed t2 = Suc (tk_committed t) \<and>
       tk_admitted t2 = Suc (tk_admitted t) \<and> sc_cursorId s2 = Some (r_id (xs ! i)) \<and>
       map rv_repoId (sc_inFlight s2) = map rv_repoId (sc_inFlight s) @ [r_id (xs ! i)]
     else at_head wid s0 xs (Suc i) k s2 \<and> tk_committed t2 = tk_committed t \<and>
       tk_admitted t2 = tk_admitted t \<and> sc_cursorId s2 = sc_cursorId s \<and> sc_inFlight s2 = sc_inFlight s)"
proof -
  let ?r = "xs ! i"
  have repo: "tick_repo t = ?r" using rotate_tick_repo [of t] i xs by simp
  have st: "\<not> sc_stopped s1" using head s1 by (simp add: at_head_def)
  have cnt: "countReservedForRepo s1 (r_id ?r) = countReservedForRepo s0 (r_id ?r)"
    using at_head_count [OF head dist i(2)] by (simp add: s1 countReservedForRepo_def)
  obtain new where new: "sc_inFlight s = sc_inFlight s0 @ new" "length new = k"
      "rv_repoId ` set new \<subseteq> r_id ` set (take i xs)"
    using head by (auto simp: at_head_def)
  have ids: "rv_repoId ` set new \<subseteq> r_id ` set (take (Suc i) xs)"
    using new(3) i(2) by (auto simp: take_Suc_conv_app_nth)
  show ?thesis
  proof (cases "eligible G insp s0 ?r")
    case True
    let ?s2 = "admit_repo wid ?r s1"
    let ?t2 = "(next_repo t)\<lparr>tk_committed := tk_committed t + 1, tk_admitted := tk_admitted t + 1\<rparr>"
    have "resume_tick G wid False (insp ?r) s1 t = loop_head G False ?s2 ?t2"
      using True st by (auto simp: resume_tick_def repo cnt eligible_def Let_def split: inspection.splits)
    moreover have "factory_made wid s1" using head by (simp add: at_head_def factory_made_def s1)
    then obtain res where res: "sc_inFlight ?s2 = sc_inFlight s1 @ [res]" "rv_repoId res = r_id ?r"
      "factory_made wid ?s2"
      using admit_repo_appends [OF inj, of s1 ?r] by blast
    moreover have "at_head wid s0 xs (Suc i) (Suc k) ?s2"
      using head res new ids i(2)
      by (auto simp: at_head_def s1 admit_repo_def Let_def take_Suc_conv_app_nth intro!: exI [of _ "new @ [res]"])
    moreover have "sc_cursorId ?s2 = Some (r_id ?r)" by (simp add: admit_repo_def Let_def)
    ultimately show ?thesis using True i(1)
      by (intro exI [of _ ?s2] exI [of _ ?t2]) (simp add: s1 next_repo_def)
  next
    case False
    let ?s2 = "release_claim s1"
    have "resume_tick G wid False (insp ?r) s1 t = loop_head G False ?s2 (next_repo t)"
      using False st by (auto simp: resume_tick_def repo cnt eligible_def Let_def not_less split: inspection.splits)
    moreover have "at_head wid s0 xs (Suc i) k ?s2"
      using head new ids by (auto simp: at_head_def s1 release_claim_def factory_made_def intro!: exI [of _ new])
    ultimately show ?thesis using False i(1)
      by (intro exI [of _ ?s2] exI [of _ "next_repo t"]) (simp add: s1 next_repo_def release_claim_def)
  qed
qed

lemma drive_spec:
  assumes inj: "injective_factory wid" and dist: "distinct (map r_id xs)"
    and K: "K = (G - length (sc_inFlight s0) + 1) div 2"
  shows "xs = rotate (tk_startIndex t) (tk_sorted t) \<Longrightarrow> length xs - tk_i t \<le> n \<Longrightarrow>
    at_head wid s0 xs (tk_i t) k s \<Longrightarrow> tk_committed t = k \<Longrightarrow> tk_admitted t = k \<Longrightarrow> \<not> tk_done t \<Longrightarrow>
    adm = take (K - k) (filter (eligible G insp s0) (drop (tk_i t) xs)) \<Longrightarrow>
    loop_head G False s t = (s1, t1) \<Longrightarrow> drive n G wid insp s1 t1 = (s', t') \<Longrightarrow>
    tk_done t' \<and> tk_admitted t' = k + length adm \<and> sc_claimedSlots s' = 0 \<and>
    map rv_repoId (sc_inFlight s') = map rv_repoId (sc_inFlight s) @ map r_id adm \<and>
    sc_cursorId s' = (if adm = [] then sc_cursorId s else Some (r_id (last adm)))"
proof (induction n arbitrary: s t k adm s1 t1)
  case 0
  then have "tk_i t \<ge> length (tk_sorted t)" by simp
  then have "adm = []" "(s1, t1) = finish_tick s t" using 0 by (simp_all add: loop_head_def)
  then show ?case using 0 by (auto simp: finish_tick_def at_head_def)
next
  case (Suc n)
  have len: "length (tk_sorted t) = length xs" using Suc.prems(1) by simp
  show ?case
  proof (cases "tk_i t < length xs \<and> k < K")
    case False
    have "length (sc_inFlight s) = length (sc_inFlight s0) + k" "sc_claimedSlots s = int k"
      using Suc.prems(3) by (auto simp: at_head_def)
    then have full: "int (length (sc_inFlight s)) + sc_claimedSlots s \<ge> int G \<longleftrightarrow> \<not> k < K"
      using budget_iff [of "length (sc_inFlight s0)" k G] unfolding K by linarith
    have "loop_head G False s t = finish_tick s t"
      using False len full by (auto simp: loop_head_def)
    then have "(s1, t1) = finish_tick s t" using Suc.prems(8) by simp
    moreover have "adm = []" using False Suc.prems(7) by auto
    ultimately have "(s1, t1) = finish_tick s t" "adm = []" by simp_all
    then show ?thesis using Suc.prems by (auto simp: finish_tick_def at_head_def)
  next
    case True
    let ?r = "xs ! tk_i t"
    have "length (sc_inFlight s) = length (sc_inFlight s0) + k" "sc_claimedSlots s = int k"
      using Suc.prems(3) by (auto simp: at_head_def)
    then have s1: "s1 = s\<lparr>sc_claimedSlots := sc_claimedSlots s + 1\<rparr>" and t1: "t1 = t"
      using True Suc.prems(8) len budget_iff [of "length (sc_inFlight s0)" k G]
      by (auto simp: loop_head_def K split: if_split_asm)
    have repo: "tick_repo t = ?r" using rotate_tick_repo [of t] Suc.prems(1) True by simp
    obtain s2 t2 where res: "resume_tick G wid False (insp ?r) s1 t = loop_head G False s2 t2"
      and t2: "tk_startIndex t2 = tk_startIndex t" "tk_sorted t2 = tk_sorted t" "tk_i t2 = Suc (tk_i t)"
        "tk_done t2 = tk_done t"
      and step: "if eligible G insp s0 ?r
       then at_head wid s0 xs (Suc (tk_i t)) (Suc k) s2 \<and> tk_committed t2 = Suc (tk_committed t) \<and>
         tk_admitted t2 = Suc (tk_admitted t) \<and> sc_cursorId s2 = Some (r_id ?r) \<and>
         map rv_repoId (sc_inFlight s2) = map rv_repoId (sc_inFlight s) @ [r_id ?r]
       else at_head wid s0 xs (Suc (tk_i t)) k s2 \<and> tk_committed t2 = tk_committed t \<and>
         tk_admitted t2 = tk_admitted t \<and> sc_cursorId s2 = sc_cursorId s \<and> sc_inFlight s2 = sc_inFlight s"
      using resume_at_head [OF inj dist Suc.prems(1) refl _ Suc.prems(3) s1] True by blast
    obtain s3 t3 where head: "loop_head G False s2 t2 = (s3, t3)" by (cases "loop_head G False s2 t2")
    have drv: "drive n G wid insp s3 t3 = (s', t')"
      using Suc.prems(6,9) by (simp add: t1 repo res head)
    have xs2: "xs = rotate (tk_startIndex t2) (tk_sorted t2)" "length xs - tk_i t2 \<le> n" "\<not> tk_done t2"
      using Suc.prems(1,2,6) t2 by simp_all
    have drop: "drop (tk_i t) xs = ?r # drop (Suc (tk_i t)) xs"
      using True by (simp add: Cons_nth_drop_Suc)
    show ?thesis
    proof (cases "eligible G insp s0 ?r")
      case elig: True
      define adm2 where "adm2 = take (K - Suc k) (filter (eligible G insp s0) (drop (tk_i t2) xs))"
      have adm: "adm = ?r # adm2"
        using Suc.prems(7) True elig by (simp add: drop t2 adm2_def take_Suc_diff)
      show ?thesis
        using Suc.IH [OF xs2(1,2) _ _ _ xs2(3) adm2_def head drv] step elig Suc.prems(4,5)
        by (simp add: t2 adm)
    next
      case not_elig: False
      have adm: "adm = take (K - k) (filter (eligible G insp s0) (drop (tk_i t2) xs))"
        using Suc.prems(7) not_elig by (simp add: drop t2)
      show ?thesis
        using Suc.IH [OF xs2(1,2) _ _ _ xs2(3) adm head drv] step not_elig Suc.prems(4,5)
        by (simp add: t2)
    qed
  qed
qed

lemma scheduleOnce_spec:
  assumes inj: "injective_factory wid" and dist: "distinct (map r_id repos)" and "repos \<noteq> []"
    and s: "\<not> sc_stopped s" "sc_claimedSlots s = 0" "factory_made wid s"
    and run: "scheduleOnce G le wid insp repos s = (s', t')"
  shows "tk_done t' \<and> tk_admitted t' = length (admits G le insp repos s) \<and> sc_claimedSlots s' = 0 \<and>
    map rv_repoId (sc_inFlight s') = map rv_repoId (sc_inFlight s) @ map r_id (admits G le insp repos s) \<and>
    sc_cursorId s' = (if admits G le insp repos s = [] then sc_cursorId s
      else Some (r_id (last (admits G le insp repos s))))"
proof -
  define srt where "srt = sort_by (\<lambda>a b. le (r_id a) (r_id b)) repos"
  define t where "t = empty_tick srt (findStartIndex s srt)"
  have t: "tk_i t = 0" "tk_committed t = 0" "tk_admitted t = 0" "\<not> tk_done t" "tk_sorted t = srt"
    "tk_startIndex t = findStartIndex s srt"
    by (simp_all add: t_def empty_tick_def)
  obtain s1 t1 where head: "loop_head G False s t = (s1, t1)" by (cases "loop_head G False s t")
  have drv: "drive (length repos) G wid insp s1 t1 = (s', t')"
    using run head s(1) assms(3)
    by (simp add: scheduleOnce_def begin_tick_def Let_def t_def srt_def)
  have rot: "rotation le s repos = rotate (tk_startIndex t) (tk_sorted t)"
    by (simp add: rotation_def Let_def t srt_def)
  have len: "length (rotation le s repos) - tk_i t \<le> length repos"
    by (simp add: rotation_def Let_def t)
  have "distinct (map r_id (rotation le s repos))"
    using dist by (simp add: rotation_def Let_def rotate_map [symmetric])
  note spec = drive_spec [OF inj this refl rot len _ t(2,3,4) _ head drv]
  show ?thesis
    using spec [of s "admits G le insp repos s"] s by (simp add: admits_def t at_head_def)
qed

section \<open>Where the next call starts\<close>

lemma find_index_nth:
  assumes "distinct (map f xs)" and "j < length xs"
  shows "find_index (\<lambda>x. f x = f (xs ! j)) xs = Some j"
proof (cases "find_index (\<lambda>x. f x = f (xs ! j)) xs")
  case None
  moreover have "xs ! j \<in> set xs" using assms(2) by (rule nth_mem)
  ultimately show ?thesis unfolding find_index_None by blast
next
  case (Some m)
  then have "m < length (map f xs)" "map f xs ! m = map f xs ! j"
    using find_index_SomeD [OF Some] assms(2) by simp_all
  moreover have "j < length (map f xs)" using assms(2) by simp
  ultimately have "m = j" using nth_eq_iff_index_eq [OF assms(1)] by blast
  then show ?thesis using Some by simp
qed

text \<open>A call after the admission of \<open>a\<close> goes on with what came after \<open>a\<close>.\<close>

lemma rotation_after:
  assumes dist: "distinct (map r_id repos)" and rot: "rotation le s repos = us @ a # vs"
    and cur: "sc_cursorId s' = Some (r_id a)"
  shows "rotation le s' repos = vs @ us @ [a]"
proof -
  define srt where "srt = sort_by (\<lambda>a b. le (r_id a) (r_id b)) repos"
  have d: "distinct (map r_id srt)" using dist by (simp add: srt_def)
  define m where "m = findStartIndex s srt"
  have rot': "rotate m srt = us @ a # vs" using rot by (simp add: rotation_def Let_def srt_def m_def)
  define j where "j = (m + length us) mod length srt"
  have len: "length srt = length us + Suc (length vs)" using arg_cong [OF rot', of length] by simp
  then have j: "j < length srt" by (simp add: j_def)
  have "a = rotate m srt ! length us" by (simp add: rot')
  also have "\<dots> = srt ! j" using len by (simp add: nth_rotate j_def)
  finally have a: "a = srt ! j" .
  have "findStartIndex s' srt = Suc j mod length srt"
    using find_index_nth [OF d j] by (simp add: findStartIndex_def cur a)
  then have "rotation le s' repos = rotate (Suc j) srt"
    by (simp add: rotation_def Let_def srt_def [symmetric] rotate_conv_mod [symmetric])
  also have "\<dots> = rotate (Suc (m + length us)) srt"
    by (metis j_def mod_Suc_eq rotate_conv_mod)
  also have "\<dots> = rotate (Suc (length us)) (rotate m srt)"
    by (simp add: rotate_rotate add.commute del: rotate_Suc)
  also have "\<dots> = rotate (length (us @ [a])) ((us @ [a]) @ vs)" by (simp add: rot' del: rotate_Suc)
  also have "\<dots> = vs @ us @ [a]" by (rule rotate_append)
  finally show ?thesis .
qed

lemma filter_take_split:
  assumes "r \<in> set (filter P xs)" and "r \<notin> set (take K (filter P xs))" and "0 < K"
  shows "\<exists>us a vs. xs = us @ a # vs \<and> a = last (take K (filter P xs)) \<and> take K (filter P xs) \<noteq> [] \<and>
    r \<in> set vs \<and> r \<notin> set us \<and> r \<noteq> a"
  using assms
proof (induction xs arbitrary: K)
  case (Cons x xs)
  show ?case
  proof (cases "P x")
    case False
    then obtain us a vs where "xs = us @ a # vs" "a = last (take K (filter P xs))"
      "take K (filter P xs) \<noteq> []" "r \<in> set vs" "r \<notin> set us" "r \<noteq> a"
      using Cons.IH [of K] Cons.prems by auto
    moreover have "r \<noteq> x" using False Cons.prems(1) by auto
    ultimately show ?thesis using False by (intro exI [of _ "x # us"]) auto
  next
    case True
    obtain K' where K: "K = Suc K'" using Cons.prems(3) by (cases K) auto
    have r: "r \<noteq> x" "r \<in> set (filter P xs)" "r \<notin> set (take K' (filter P xs))"
      using Cons.prems True by (auto simp: K)
    show ?thesis
    proof (cases "K' = 0")
      case True
      then show ?thesis using r K \<open>P x\<close> by (intro exI [of _ "[]"]) auto
    next
      case False
      then obtain us a vs where "xs = us @ a # vs" "a = last (take K' (filter P xs))"
        "take K' (filter P xs) \<noteq> []" "r \<in> set vs" "r \<notin> set us" "r \<noteq> a"
        using Cons.IH [of K'] r by auto
      then show ?thesis using r(1) K \<open>P x\<close> by (intro exI [of _ "x # us"]) auto
    qed
  qed
qed simp

lemma find_index_append:
  "find_index P (xs @ ys) =
   (case find_index P xs of Some k \<Rightarrow> Some k | None \<Rightarrow> map_option ((+) (length xs)) (find_index P ys))"
  by (cases "find_index P ys"; induction xs) (auto split: option.splits)

section \<open>Properties\<close>

definition sample_repo :: "ident \<Rightarrow> repository" where
  "sample_repo i = \<lparr>r_id = i, r_owner = ''o'', r_name = i, r_fullName = ''o/'' @ i,
     r_defaultBranch = ''main'', r_remoteUrl = [], r_localBasePath = [], r_enabled = True,
     r_maxConcurrentRuns = 1, r_healthStatus = Healthy, r_healthError = None,
     r_lastHealthCheckAt = None, r_configMetadata = [], r_createdAt = 0, r_updatedAt = 0\<rparr>"

text \<open>The factory of the command line, up to its constant prefix: a number, then the id.\<close>

definition sample_wid :: "repository \<Rightarrow> nat \<Rightarrow> ident" where
  "sample_wid repo seq = replicate seq CHR ''1'' @ ''-'' @ r_id repo"

lemma sample_wid_inject:
  "replicate m CHR ''1'' @ CHR ''-'' # xs = replicate n CHR ''1'' @ CHR ''-'' # ys \<Longrightarrow> m = n \<and> xs = ys"
proof (induction m arbitrary: n)
  case 0
  then show ?case by (cases n) auto
next
  case (Suc m)
  then show ?case by (cases n) auto
qed

lemma injective_sample_wid: "injective_factory sample_wid"
  unfolding injective_factory_def sample_wid_def by (auto dest!: sample_wid_inject)

definition sample_insp :: "repository \<Rightarrow> inspection" where
  "sample_insp repo = (if r_id repo = ''b'' then Available 0 0 else Available 2 0)"

text \<open>
  C25. In every interleaving of concurrent \<open>scheduleOnce\<close> calls, inspections, settling
  dispatches and \<open>stopAdmission\<close>: never more than \<open>globalConcurrency\<close> dispatches are in
  flight, never more for a repository than its \<open>maxConcurrentRuns\<close>, worker ids and the sequence
  numbers within a repository are unique, every sequence number is below the repository's
  limit, and when no call is active all claimed slots have been given back.
\<close>

theorem scheduler_limits:
  assumes "sched_reachable G le wid (\<lambda>r. r_maxConcurrentRuns r \<le> cap (r_id r)) (s, ts)"
  shows "length (sc_inFlight s) + length ts \<le> G \<and>
    (\<forall>repo. countReservedForRepo s repo \<le> cap repo) \<and>
    distinct (map rv_workerId (sc_inFlight s)) \<and>
    distinct (map (\<lambda>r. (rv_repoId r, rv_seq r)) (sc_inFlight s)) \<and>
    (\<forall>r \<in> set (sc_inFlight s). rv_seq r < cap (rv_repoId r)) \<and>
    (ts = [] \<longrightarrow> sc_claimedSlots s = 0)"
  using sched_reachable_inv [OF assms] by (auto simp: sched_inv_def pool_ok_def slots_ok_def)

theorem scheduler_limits_witness:
  "\<exists>s t. begin_tick 3 (\<lambda>a b. a \<le> b) False (Some [sample_repo ''a'', sample_repo ''c'']) new_scheduler
       = (s, t) \<and>
     (\<exists>s' t'. resume_tick 3 sample_wid False (Available 2 0) s t = (s', t') \<and>
        map rv_workerId (sc_inFlight s') = [''-a''] \<and> \<not> tk_done t' \<and>
        length (sc_inFlight s') + length [t'] \<le> 3)"
proof -
  let ?repos = "[sample_repo ''a'', sample_repo ''c'']"
  obtain s t where b: "begin_tick 3 (\<lambda>a b. a \<le> b) False (Some ?repos) new_scheduler = (s, t)"
    by (cases "begin_tick 3 (\<lambda>a b. a \<le> b) False (Some ?repos) new_scheduler")
  obtain s' t' where r: "resume_tick 3 sample_wid False (Available 2 0) s t = (s', t')"
    by (cases "resume_tick 3 sample_wid False (Available 2 0) s t")
  have open1: "\<not> tk_done (snd (begin_tick 3 (\<lambda>a b. a \<le> b) False (Some ?repos) new_scheduler))"
    by code_simp
  then have "\<not> tk_done t" by (simp add: b)
  moreover have open2: "(case begin_tick 3 (\<lambda>a b. a \<le> b) False (Some ?repos) new_scheduler of (s, t) \<Rightarrow>
      case resume_tick 3 sample_wid False (Available 2 0) s t of (s', t') \<Rightarrow>
        \<not> tk_done t' \<and> map rv_workerId (sc_inFlight s') = [''-a''])"
    by code_simp
  then have "\<not> tk_done t'" "map rv_workerId (sc_inFlight s') = [''-a'']" by (simp_all add: b r)
  moreover have "sched_reachable 3 (\<lambda>a b. a \<le> b) sample_wid (\<lambda>r. r_maxConcurrentRuns r \<le> 2) (s, [] @ keep_tick t)"
    by (rule sched_reachable.step [OF sched_reachable.start], rule sched_step.tick_begin [OF b])
      (simp add: sample_repo_def)
  ultimately have "sched_reachable 3 (\<lambda>a b. a \<le> b) sample_wid (\<lambda>r. r_maxConcurrentRuns r \<le> 2) (s', [t'])"
    using sched_reachable.step [OF _ sched_step.tick_resume [OF r, where us = "[]" and vs = "[]"]]
    by (simp add: keep_tick_def)
  from scheduler_limits [OF this] show ?thesis
    using b r \<open>\<not> tk_done t'\<close> \<open>map rv_workerId (sc_inFlight s') = [''-a'']\<close> by auto
qed

text \<open>
  An undisturbed \<open>scheduleOnce\<close> of an idle admission loop returns, gives its claims back
  and admits exactly the first eligible repositories of the rotation, each once, as many as
  \<open>(free + 1) div 2\<close> for \<open>free\<close> free slots: because a committed claim stays counted beside
  the reservation it became, each admission uses two slots of the call's budget.
\<close>

theorem scheduleOnce_admits:
  assumes "injective_factory wid" and "distinct (map r_id repos)" and "repos \<noteq> []"
    and "\<not> sc_stopped s" "sc_claimedSlots s = 0" "factory_made wid s"
    and "scheduleOnce G le wid insp repos s = (s', t')"
  shows "tk_done t' \<and> sc_claimedSlots s' = 0 \<and>
    tk_admitted t' = length (admits G le insp repos s) \<and>
    map rv_repoId (sc_inFlight s') = map rv_repoId (sc_inFlight s) @ map r_id (admits G le insp repos s) \<and>
    length (admits G le insp repos s) \<le> (G - length (sc_inFlight s) + 1) div 2"
  using scheduleOnce_spec [OF assms] by (simp add: admits_def)

theorem scheduleOnce_admits_witness:
  "\<exists>s' t'. scheduleOnce 4 (\<lambda>a b. a \<le> b) sample_wid sample_insp
      (map sample_repo [''d'', ''a'', ''b'', ''c'', ''e'']) new_scheduler = (s', t') \<and>
    tk_admitted t' = 2 \<and> map rv_repoId (sc_inFlight s') = [''a'', ''c'']"
proof -
  let ?repos = "map sample_repo [''d'', ''a'', ''b'', ''c'', ''e'']"
  obtain s' t' where run: "scheduleOnce 4 (\<lambda>a b. a \<le> b) sample_wid sample_insp ?repos new_scheduler = (s', t')"
    by (cases "scheduleOnce 4 (\<lambda>a b. a \<le> b) sample_wid sample_insp ?repos new_scheduler")
  have "distinct (map r_id ?repos)" by (simp add: sample_repo_def)
  moreover have "map r_id (admits 4 (\<lambda>a b. a \<le> b) sample_insp ?repos new_scheduler) = [''a'', ''c'']"
    by code_simp
  moreover from this have "length (admits 4 (\<lambda>a b. a \<le> b) sample_insp ?repos new_scheduler) = 2"
    by (metis length_map list.size(3,4) add_2_eq_Suc' One_nat_def Suc_1 add.right_neutral add_Suc_right)
  ultimately show ?thesis
    using scheduleOnce_admits [OF injective_sample_wid _ _ _ _ _ run] run
    by (simp add: new_scheduler_def factory_made_def)
qed

text \<open>
  C26. Bounded waiting. If a repository is eligible and a slot is free when an undisturbed call
  starts, and the call does not admit it, it has moved strictly closer to the head of the
  rotation of the next call over the same repositories; so it waits for fewer calls than there
  are repositories before it.
\<close>

theorem bounded_waiting:
  assumes "injective_factory wid" and "distinct (map r_id repos)"
    and "\<not> sc_stopped s" "sc_claimedSlots s = 0" "factory_made wid s"
    and "scheduleOnce G le wid insp repos s = (s', t')"
    and "r \<in> set repos" "eligible G insp s r" "length (sc_inFlight s) < G"
    and "r \<notin> set (admits G le insp repos s)"
  shows "\<exists>m n. find_index (\<lambda>x. x = r) (rotation le s repos) = Some n \<and>
    find_index (\<lambda>x. x = r) (rotation le s' repos) = Some m \<and> m < n"
proof -
  have "repos \<noteq> []" using assms(7) by auto
  note spec = scheduleOnce_spec [OF assms(1,2) this assms(3-6)]
  have mem: "r \<in> set (filter (eligible G insp s) (rotation le s repos))"
    using assms(7,8) by (simp add: rotation_def Let_def)
  have free: "0 < (G - length (sc_inFlight s) + 1) div 2" using assms(9) by linarith
  obtain us a vs where split: "rotation le s repos = us @ a # vs"
    "a = last (admits G le insp repos s)" "admits G le insp repos s \<noteq> []"
    and r: "r \<in> set vs" "r \<notin> set us" "r \<noteq> a"
    using filter_take_split [OF mem assms(10) [unfolded admits_def] free, folded admits_def] by metis
  have "sc_cursorId s' = Some (r_id a)" using spec split by simp
  then have next_rot: "rotation le s' repos = vs @ us @ [a]" by (rule rotation_after [OF assms(2) split(1)])
  obtain k where k: "find_index (\<lambda>x. x = r) vs = Some k"
    using r(1) find_index_None [of "\<lambda>x. x = r" vs] by (cases "find_index (\<lambda>x. x = r) vs") auto
  have none: "find_index (\<lambda>x. x = r) us = None" using r(2) by (auto simp: find_index_None)
  have "find_index (\<lambda>x. x = r) (rotation le s repos) = Some (length us + Suc k)"
    unfolding split(1) find_index_append none using k r(3) by simp
  moreover have "find_index (\<lambda>x. x = r) (rotation le s' repos) = Some k"
    unfolding next_rot find_index_append k by simp
  ultimately show ?thesis by (intro exI [of _ k] exI [of _ "length us + Suc k"]) simp
qed

theorem bounded_waiting_witness:
  "\<exists>m n. find_index (\<lambda>x. x = sample_repo ''e'')
      (rotation (\<lambda>a b. a \<le> b) new_scheduler (map sample_repo [''d'', ''a'', ''e''])) = Some n \<and>
    find_index (\<lambda>x. x = sample_repo ''e'') (rotation (\<lambda>a b. a \<le> b)
      (fst (scheduleOnce 2 (\<lambda>a b. a \<le> b) sample_wid sample_insp (map sample_repo [''d'', ''a'', ''e''])
        new_scheduler)) (map sample_repo [''d'', ''a'', ''e''])) = Some m \<and> m < n"
proof (rule bounded_waiting [OF injective_sample_wid _ _ _ _ surjective_pairing])
  show "eligible 2 sample_insp new_scheduler (sample_repo ''e'')"
    by code_simp
  show "sample_repo ''e'' \<notin> set (admits 2 (\<lambda>a b. a \<le> b) sample_insp (map sample_repo [''d'', ''a'', ''e''])
      new_scheduler)"
    by code_simp
qed (simp_all add: sample_repo_def new_scheduler_def factory_made_def)

end
