(* ===== verification/Phase_Graph.thy ===== *)
theory Phase_Graph
  imports Domain_Run
begin

text \<open>
  The phases of a run: \<^verbatim>\<open>packages/application/src/phases/phase-definitions.ts\<close> and
  \<^verbatim>\<open>phase-graph.ts\<close>. The table of definitions is an association list from names to
  definitions, its order the order of the source; \<open>defs\<close> arguments are tables a caller may
  substitute. Lemmas: an accepted order never lacks an input, the graph walks the scheduled
  phases one by one, and what the built-in table accepts.
\<close>

section \<open>Definitions of the phases\<close>

datatype retry_safety = Safe | Unsafe

record agent_contract =
  ac_requiredArtifacts :: "string list"
  ac_mustNotChangeBranch :: bool

record phase_definition =
  pd_name :: string
  pd_required :: "string list"
  pd_optional :: "string list"
  pd_outputs :: "string list"
  pd_agentContract :: "agent_contract option"
  pd_retrySafety :: retry_safety
  pd_skippable :: bool

datatype phase_error =
    UnknownPhaseError string
  | SkipUnknownPhase string
  | SkipNotSkippable string
  | CustomMissing "string list"
  | SkipOrphansInput string string
  | SkippedCurrentPhase string
  | MissingRequiredInputError string "string list"

definition STANDARD_LEAN_PHASE_ORDER :: "string list" where
  "STANDARD_LEAN_PHASE_ORDER =
     [''read_issue'', ''plan-design'', ''implement'', ''validate'', ''fix-validate'', ''spec-review'',
      ''quality-review'', ''fix-review'', ''follow-up-review'', ''create-pr'', ''wait-merge'']"

definition STRICT_LEAN_PHASE_ORDER :: "string list" where
  "STRICT_LEAN_PHASE_ORDER =
     [''read_issue'', ''plan-design'', ''architecture-review'', ''implement'', ''validate'',
      ''fix-validate'', ''spec-review'', ''quality-review'', ''fix-review'', ''follow-up-review'',
      ''create-pr'', ''wait-merge'']"

definition CANONICAL_PHASE_ORDER :: "string list" where
  "CANONICAL_PHASE_ORDER = STANDARD_LEAN_PHASE_ORDER"

definition resolvePhaseOrder :: "execution_policy option \<Rightarrow> string list" where
  "resolvePhaseOrder policy =
     (if policy = Some Strict then STRICT_LEAN_PHASE_ORDER else STANDARD_LEAN_PHASE_ORDER)"

definition phase_def ::
  "string \<Rightarrow> string list \<Rightarrow> string list \<Rightarrow> string list \<Rightarrow> string list option \<Rightarrow> retry_safety \<Rightarrow> bool \<Rightarrow>
   string \<times> phase_definition" where
  "phase_def name required optional outputs artifacts retry skippable =
     (name, \<lparr>pd_name = name, pd_required = required, pd_optional = optional, pd_outputs = outputs,
       pd_agentContract = map_option (\<lambda>a. \<lparr>ac_requiredArtifacts = a, ac_mustNotChangeBranch = True\<rparr>) artifacts,
       pd_retrySafety = retry, pd_skippable = skippable\<rparr>)"

definition PHASE_DEFINITIONS :: "(string \<times> phase_definition) list" where
  "PHASE_DEFINITIONS =
     [phase_def ''read_issue'' [] [] [''issue.md'', ''issue-comments.md''] None Safe False,
      phase_def ''plan-design'' [''issue.md''] [''issue-comments.md''] [''design.md'', ''plan.md'']
        (Some [''design.md'', ''plan.md'']) Safe False,
      phase_def ''architecture-review'' [''issue.md'', ''design.md'', ''plan.md''] [''issue-comments.md'']
        [''architecture-review.json'', ''architecture-review.md'', ''architecture-requirements.json'']
        (Some []) Safe False,
      phase_def ''implement'' [''plan.md''] [] [''implementation-log.md'']
        (Some [''implementation-log.md'']) Unsafe False,
      phase_def ''validate'' [] [''implementation-log.md''] [] None Safe False,
      phase_def ''fix-validate'' [] [''validate/failure.json''] [] None Safe False,
      phase_def ''spec-review'' [''issue.md'', ''design.md'']
        [''issue-comments.md'', ''plan.md'', ''validation.result'']
        [''spec-review.md'', ''spec-review.json'', ''spec-requirements-ledger.json'', ''code-review.md'',
         ''finding-ledger.json''] None Safe False,
      phase_def ''quality-review'' [''issue.md'']
        [''design.md'', ''plan.md'', ''issue-comments.md'', ''validation.result'', ''spec-review.json'']
        [''quality-review.md'', ''quality-review.json'', ''code-review.md'', ''finding-ledger.json'']
        None Safe False,
      phase_def ''fix-review'' [''code-review.md'']
        [''spec-review.json'', ''quality-review.json'', ''finding-ledger.json''] [] None Unsafe False,
      phase_def ''follow-up-review'' [''issue.md'']
        [''design.md'', ''plan.md'', ''validation.result'', ''finding-ledger.json'']
        [''code-review.md'', ''follow-up-review.json'', ''finding-ledger.json''] None Safe False,
      phase_def ''compound'' [''plan.md'', ''design.md''] [] [''compound.md'']
        (Some [''compound.md'']) Unsafe True,
      phase_def ''create-pr'' [''plan.md''] [''compound.md''] [''pr-summary.md'', ''pr-url.txt'']
        None Unsafe False,
      phase_def ''wait-merge'' [''pr-url.txt''] [] [] None Safe False]"

definition getPhaseDefinition :: "string \<Rightarrow> phase_error + phase_definition" where
  "getPhaseDefinition name =
     (case map_of PHASE_DEFINITIONS name of
        None \<Rightarrow> Inl (UnknownPhaseError name)
      | Some d \<Rightarrow> Inr d)"

section \<open>The order of a run\<close>

text \<open>The check of the skip list: the iteration of a set, in the order of insertion.\<close>

fun check_skips :: "(string \<times> phase_definition) list \<Rightarrow> string list \<Rightarrow> phase_error option" where
  "check_skips defs [] = None"
| "check_skips defs (s # skip) =
     (case map_of defs s of
        None \<Rightarrow> Some (SkipUnknownPhase s)
      | Some d \<Rightarrow> if \<not> pd_skippable d then Some (SkipNotSkippable s) else check_skips defs skip)"

text \<open>The last loop: every required input has been produced by a phase that is kept.\<close>

fun check_inputs :: "string list \<Rightarrow> phase_definition list \<Rightarrow> phase_error option" where
  "check_inputs produced [] = None"
| "check_inputs produced (d # kept) =
     (case List.find (\<lambda>req. req \<notin> set produced) (pd_required d) of
        Some req \<Rightarrow> Some (SkipOrphansInput req (pd_name d))
      | None \<Rightarrow> check_inputs (pd_outputs d @ produced) kept)"

definition orderedPhases ::
  "string list \<Rightarrow> (string \<times> phase_definition) list option \<Rightarrow> execution_policy option \<Rightarrow>
   phase_error + phase_definition list" where
  "orderedPhases skip definitions policy =
     (let defs = (case definitions of None \<Rightarrow> PHASE_DEFINITIONS | Some d \<Rightarrow> d);
          phaseOrder = (if policy \<noteq> None then resolvePhaseOrder policy else CANONICAL_PHASE_ORDER)
      in case check_skips defs skip of
        Some e \<Rightarrow> Inl e
      | None \<Rightarrow>
        let missing = filter (\<lambda>n. n \<notin> set skip \<and> map_of defs n = None) phaseOrder
        in if definitions \<noteq> None \<and> missing \<noteq> [] then Inl (CustomMissing missing)
        else let kept = map (\<lambda>n. the (map_of defs n)) (filter (\<lambda>n. n \<notin> set skip) phaseOrder)
        in case check_inputs [] kept of Some e \<Rightarrow> Inl e | None \<Rightarrow> Inr kept)"

text \<open>What \<open>nextPhase\<close> and \<open>getNextPhase\<close> do once they have the order.\<close>

definition advance :: "string list \<Rightarrow> string \<Rightarrow> phase_error + string option" where
  "advance order cur =
     (case find_index (\<lambda>n. n = cur) order of
        None \<Rightarrow> (if map_of PHASE_DEFINITIONS cur \<noteq> None then Inl (SkippedCurrentPhase cur)
                 else Inl (UnknownPhaseError cur))
      | Some idx \<Rightarrow> if idx = length order - 1 then Inr None else Inr (Some (order ! (idx + 1))))"

definition nextPhase :: "string \<Rightarrow> string list \<Rightarrow> phase_error + string option" where
  "nextPhase cur skip =
     (case orderedPhases skip None None of
        Inl e \<Rightarrow> Inl e
      | Inr kept \<Rightarrow> advance (map pd_name kept) cur)"

definition assertInputsAvailable :: "phase_definition \<Rightarrow> string list \<Rightarrow> phase_error option" where
  "assertInputsAvailable phase present =
     (let missing = filter (\<lambda>r. r \<notin> set present) (pd_required phase)
      in if missing \<noteq> [] then Some (MissingRequiredInputError (pd_name phase) missing) else None)"

section \<open>The lean phase graph\<close>

text \<open>A graph is determined by its policy; every policy but \<open>strict\<close> gives the standard one.\<close>

definition resolvePhaseGraph :: "execution_policy option \<Rightarrow> execution_policy" where
  "resolvePhaseGraph policy = (if policy = Some Strict then Strict else Standard)"

definition scheduledPhases :: "execution_policy \<Rightarrow> string list" where
  "scheduledPhases graph = resolvePhaseOrder (Some graph)"

definition isReachable :: "execution_policy \<Rightarrow> string \<Rightarrow> bool" where
  "isReachable graph phaseName \<longleftrightarrow> phaseName \<in> set (scheduledPhases graph)"

definition getFirstIncompletePhase ::
  "execution_policy \<Rightarrow> string set \<Rightarrow> string set \<Rightarrow> string set \<Rightarrow> string option" where
  "getFirstIncompletePhase graph completed skipped skipSet =
     List.find (\<lambda>n. n \<notin> completed \<and> n \<notin> skipped \<and> n \<notin> skipSet) (scheduledPhases graph)"

definition getOrderedDefinitions ::
  "execution_policy \<Rightarrow> string list \<Rightarrow> phase_error + phase_definition list" where
  "getOrderedDefinitions graph skip = orderedPhases skip (Some PHASE_DEFINITIONS) (Some graph)"

definition getNextPhase :: "execution_policy \<Rightarrow> string \<Rightarrow> string list \<Rightarrow> phase_error + string option" where
  "getNextPhase graph cur skip =
     (case getOrderedDefinitions graph skip of
        Inl e \<Rightarrow> Inl e
      | Inr kept \<Rightarrow> advance (map pd_name kept) cur)"

section \<open>Lemmas\<close>

lemma check_skips_None:
  "check_skips defs skip = None \<longleftrightarrow> (\<forall>s \<in> set skip. \<exists>d. map_of defs s = Some d \<and> pd_skippable d)"
  by (induction defs skip rule: check_skips.induct) (auto split: option.splits)

lemma check_inputs_None:
  "check_inputs produced kept = None \<longleftrightarrow>
   (\<forall>i < length kept. \<forall>req \<in> set (pd_required (kept ! i)).
      req \<in> set produced \<or> (\<exists>j < i. req \<in> set (pd_outputs (kept ! j))))"
proof (induction produced kept rule: check_inputs.induct)
  case (2 produced d kept)
  show ?case
  proof (cases "List.find (\<lambda>req. req \<notin> set produced) (pd_required d)")
    case None
    then have req: "\<forall>req \<in> set (pd_required d). req \<in> set produced" by (simp add: find_None_iff)
    have "check_inputs produced (d # kept) = check_inputs (pd_outputs d @ produced) kept"
      using None by simp
    also have "\<dots> = None \<longleftrightarrow> (\<forall>i < length kept. \<forall>req \<in> set (pd_required (kept ! i)).
        req \<in> set (pd_outputs d @ produced) \<or> (\<exists>j < i. req \<in> set (pd_outputs (kept ! j))))"
      using "2.IH" None by simp
    also have "\<dots> \<longleftrightarrow> (\<forall>i < length (d # kept). \<forall>req \<in> set (pd_required ((d # kept) ! i)).
        req \<in> set produced \<or> (\<exists>j < i. req \<in> set (pd_outputs ((d # kept) ! j))))"
      using req by (simp add: All_less_Suc2 Ex_less_Suc2) blast
    finally show ?thesis .
  next
    case (Some r)
    then have "r \<in> set (pd_required d)" "r \<notin> set produced" using find_SomeD [OF Some] by simp_all
    then have "\<not> (\<forall>i < length (d # kept). \<forall>req \<in> set (pd_required ((d # kept) ! i)).
        req \<in> set produced \<or> (\<exists>j < i. req \<in> set (pd_outputs ((d # kept) ! j))))"
      by (auto intro!: exI [of _ 0])
    then show ?thesis using Some by simp
  qed
qed simp

lemma orderedPhases_InrD:
  "orderedPhases skip definitions policy = Inr kept \<Longrightarrow>
   check_inputs [] kept = None \<and>
   kept = map (\<lambda>n. the (map_of (case definitions of None \<Rightarrow> PHASE_DEFINITIONS | Some d \<Rightarrow> d) n))
     (filter (\<lambda>n. n \<notin> set skip) (resolvePhaseOrder policy))"
  by (auto simp: orderedPhases_def Let_def resolvePhaseOrder_def CANONICAL_PHASE_ORDER_def
      split: option.splits if_split_asm)

lemma skippable_phases: "map_of PHASE_DEFINITIONS s = Some d \<Longrightarrow> pd_skippable d \<longleftrightarrow> s = ''compound''"
  by (auto simp: PHASE_DEFINITIONS_def phase_def_def split: if_split_asm)

lemma phase_order_facts:
  "''compound'' \<notin> set (resolvePhaseOrder policy)"
  "distinct (resolvePhaseOrder policy)"
  "check_inputs [] (map (\<lambda>n. the (map_of PHASE_DEFINITIONS n)) (resolvePhaseOrder policy)) = None"
  "map (\<lambda>n. pd_name (the (map_of PHASE_DEFINITIONS n))) (resolvePhaseOrder policy) = resolvePhaseOrder policy"
  "list_all (\<lambda>n. n \<in> set (map fst PHASE_DEFINITIONS)) (resolvePhaseOrder policy)"
  by (cases "policy = Some Strict"; simp add: resolvePhaseOrder_def; code_simp)+

text \<open>The built-in table: the skip list changes nothing.\<close>

lemma orderedPhases_builtin:
  assumes "definitions = None \<or> definitions = Some PHASE_DEFINITIONS"
  shows "orderedPhases skip definitions policy =
    (if set skip \<subseteq> {''compound''}
     then Inr (map (\<lambda>n. the (map_of PHASE_DEFINITIONS n)) (resolvePhaseOrder policy))
     else Inl (the (check_skips PHASE_DEFINITIONS skip)))"
proof (cases "set skip \<subseteq> {''compound''}")
  case True
  have "map_of PHASE_DEFINITIONS ''compound'' \<noteq> None"
    by (simp add: PHASE_DEFINITIONS_def phase_def_def)
  then have skips: "check_skips PHASE_DEFINITIONS skip = None"
    using True skippable_phases unfolding check_skips_None by blast
  have order: "(if policy \<noteq> None then resolvePhaseOrder policy else CANONICAL_PHASE_ORDER) = resolvePhaseOrder policy"
    by (simp add: resolvePhaseOrder_def CANONICAL_PHASE_ORDER_def)
  have kept: "filter (\<lambda>n. n \<notin> set skip) (resolvePhaseOrder policy) = resolvePhaseOrder policy"
    using True phase_order_facts(1) [of policy] by (intro filter_True) auto
  have missing: "filter (\<lambda>n. n \<notin> set skip \<and> map_of PHASE_DEFINITIONS n = None) (resolvePhaseOrder policy) = []"
    using phase_order_facts(5) [of policy] by (intro filter_False) (auto simp: list_all_iff map_of_eq_None_iff)
  have defs: "(case definitions of None \<Rightarrow> PHASE_DEFINITIONS | Some d \<Rightarrow> d) = PHASE_DEFINITIONS"
    using assms by auto
  show ?thesis
    using True phase_order_facts(3) [of policy]
    by (simp only: orderedPhases_def Let_def order defs skips kept missing option.case if_True simp_thms if_False)
next
  case False
  then have "check_skips PHASE_DEFINITIONS skip \<noteq> None"
    unfolding check_skips_None using skippable_phases by blast
  moreover have "(case definitions of None \<Rightarrow> PHASE_DEFINITIONS | Some d \<Rightarrow> d) = PHASE_DEFINITIONS"
    using assms by auto
  ultimately show ?thesis using False by (auto simp: orderedPhases_def Let_def)
qed

lemma getNextPhase_builtin:
  assumes "set skip \<subseteq> {''compound''}"
  shows "getNextPhase graph cur skip = advance (scheduledPhases graph) cur"
  using assms phase_order_facts(4) [of "Some graph"]
  by (simp add: getNextPhase_def getOrderedDefinitions_def orderedPhases_builtin scheduledPhases_def comp_def)

lemma find_index_distinct:
  "distinct xs \<Longrightarrow> i < length xs \<Longrightarrow> find_index (\<lambda>n. n = xs ! i) xs = Some i"
proof (induction xs arbitrary: i)
  case (Cons x xs)
  then show ?case by (cases i) auto
qed simp

lemma find_first_not_done:
  "distinct xs \<Longrightarrow> List.find (\<lambda>n. n \<notin> set (take i xs)) xs = (if i < length xs then Some (xs ! i) else None)"
proof (induction xs arbitrary: i)
  case (Cons x xs)
  show ?case
  proof (cases i)
    case 0
    then show ?thesis by simp
  next
    case (Suc k)
    have "List.find (\<lambda>n. n \<noteq> x \<and> n \<notin> set (take k xs)) xs = List.find (\<lambda>n. n \<notin> set (take k xs)) xs"
      using Cons.prems by (intro find_cong) auto
    then show ?thesis using Cons Suc by simp
  qed
qed simp

section \<open>Properties\<close>

text \<open>
  An order \<open>orderedPhases\<close> accepts, with the built-in or any other table of definitions,
  never stops for a missing input: when a phase of it is reached and the outputs of the phases
  before it are present, \<open>assertInputsAvailable\<close> passes.
\<close>

theorem accepted_order_has_inputs:
  assumes "orderedPhases skip definitions policy = Inr kept" and "i < length kept"
    and "\<forall>j < i. set (pd_outputs (kept ! j)) \<subseteq> set present"
  shows "assertInputsAvailable (kept ! i) present = None"
proof -
  have "check_inputs [] kept = None" using orderedPhases_InrD [OF assms(1)] by blast
  then have "\<forall>req \<in> set (pd_required (kept ! i)). \<exists>j < i. req \<in> set (pd_outputs (kept ! j))"
    using assms(2) by (simp add: check_inputs_None)
  then have "\<forall>req \<in> set (pd_required (kept ! i)). req \<in> set present" using assms(3) by blast
  then have "filter (\<lambda>r. r \<notin> set present) (pd_required (kept ! i)) = []"
    by (intro filter_False) auto
  then show ?thesis by (simp add: assertInputsAvailable_def)
qed

theorem accepted_order_has_inputs_witness:
  "assertInputsAvailable (the (map_of PHASE_DEFINITIONS ''plan-design'')) [''issue.md'', ''issue-comments.md''] = None"
proof -
  let ?kept = "map (\<lambda>n. the (map_of PHASE_DEFINITIONS n)) STANDARD_LEAN_PHASE_ORDER"
  have order: "orderedPhases [] None None = Inr ?kept"
    using orderedPhases_builtin [of None "[]" None] by (simp add: resolvePhaseOrder_def)
  have "\<forall>j < 1. set (pd_outputs (?kept ! j)) \<subseteq> set [''issue.md'', ''issue-comments.md'']"
    by (simp add: STANDARD_LEAN_PHASE_ORDER_def PHASE_DEFINITIONS_def phase_def_def)
  from accepted_order_has_inputs [OF order _ this] show ?thesis
    by (simp add: STANDARD_LEAN_PHASE_ORDER_def)
qed

text \<open>
  With the built-in definitions a skip list is accepted exactly if it names nothing but
  \<open>compound\<close>, and the result is then the full order of the policy: no skip list removes a phase
  of a run.
\<close>

theorem skip_lists_remove_nothing:
  "ok (orderedPhases skip None policy) = (set skip \<subseteq> {''compound''}) \<and>
   (case orderedPhases skip None policy of
      Inr kept \<Rightarrow> map pd_name kept = resolvePhaseOrder policy
    | Inl e \<Rightarrow> (\<exists>s \<in> set skip. e = SkipUnknownPhase s \<or> e = SkipNotSkippable s))"
proof (cases "set skip \<subseteq> {''compound''}")
  case True
  then show ?thesis
    using orderedPhases_builtin [of None skip policy] phase_order_facts(4) [of policy] by (simp add: comp_def)
next
  case False
  have err: "\<exists>s \<in> set skip. e = SkipUnknownPhase s \<or> e = SkipNotSkippable s"
    if "check_skips PHASE_DEFINITIONS skip = Some e" for e
    using that by (induction PHASE_DEFINITIONS skip rule: check_skips.induct)
      (auto split: option.splits if_split_asm)
  have "check_skips PHASE_DEFINITIONS skip \<noteq> None"
    using False skippable_phases unfolding check_skips_None by blast
  then show ?thesis using False orderedPhases_builtin [of None skip policy] err by auto
qed

text \<open>
  The graph is a line: after its first \<open>i\<close> phases are completed, the first incomplete phase
  is the next one, \<open>getNextPhase\<close> leads from each phase to the one that is then incomplete, and
  from the last to nothing. No phase is visited twice.
\<close>

theorem graph_is_a_line:
  assumes "i < length (scheduledPhases graph)" and "set skip \<subseteq> {''compound''}"
  shows "getFirstIncompletePhase graph (set (take i (scheduledPhases graph))) {} {} =
      Some (scheduledPhases graph ! i) \<and>
    getNextPhase graph (scheduledPhases graph ! i) skip =
      Inr (getFirstIncompletePhase graph (set (take (i + 1) (scheduledPhases graph))) {} {}) \<and>
    distinct (scheduledPhases graph)"
proof -
  have d: "distinct (scheduledPhases graph)" by (simp add: scheduledPhases_def phase_order_facts(2))
  have first: "getFirstIncompletePhase graph (set (take k (scheduledPhases graph))) {} {} =
      (if k < length (scheduledPhases graph) then Some (scheduledPhases graph ! k) else None)" for k
    using find_first_not_done [OF d, of k] by (simp add: getFirstIncompletePhase_def)
  have "advance (scheduledPhases graph) (scheduledPhases graph ! i) =
      Inr (if i + 1 < length (scheduledPhases graph) then Some (scheduledPhases graph ! (i + 1)) else None)"
    using find_index_distinct [OF d assms(1)] assms(1) by (auto simp: advance_def)
  then show ?thesis using getNextPhase_builtin [OF assms(2)] d assms(1) by (simp add: first)
qed

theorem graph_is_a_line_witness:
  "getNextPhase Strict ''plan-design'' [] = Inr (Some ''architecture-review'')"
proof -
  have facts: "1 < length (scheduledPhases Strict)" "scheduledPhases Strict ! 1 = ''plan-design''"
    "getFirstIncompletePhase Strict (set (take 2 (scheduledPhases Strict))) {} {} = Some ''architecture-review''"
    by code_simp+
  show ?thesis using graph_is_a_line [OF facts(1), of "[]"] facts(2,3) by (simp add: numeral_2_eq_2)
qed

text \<open>
  \<open>compound\<close>, which the documented order of phases has between the review and the pull
  request, is on neither order: no policy schedules it, and asking for the phase after it fails
  with the message that it is in the skip list, even when nothing is skipped.
\<close>

theorem compound_is_never_scheduled:
  "\<not> isReachable (resolvePhaseGraph policy) ''compound'' \<and>
   getNextPhase (resolvePhaseGraph policy) ''compound'' [] = Inl (SkippedCurrentPhase ''compound'') \<and>
   nextPhase ''compound'' [] = Inl (SkippedCurrentPhase ''compound'')"
proof -
  have def: "map_of PHASE_DEFINITIONS ''compound'' \<noteq> None"
    by (simp add: PHASE_DEFINITIONS_def phase_def_def)
  have none: "find_index (\<lambda>n. n = ''compound'') (resolvePhaseOrder p) = None" for p
    using phase_order_facts(1) [of p] by (auto simp: find_index_None)
  have "orderedPhases [] None None = Inr (map (\<lambda>n. the (map_of PHASE_DEFINITIONS n)) (resolvePhaseOrder None))"
    using orderedPhases_builtin [of None "[]" None] by simp
  then have "nextPhase ''compound'' [] = advance (resolvePhaseOrder None) ''compound''"
    using phase_order_facts(4) [of None] by (simp add: nextPhase_def comp_def)
  then show ?thesis
    using def none getNextPhase_builtin [of "[]"] phase_order_facts(1)
    by (simp add: isReachable_def scheduledPhases_def advance_def)
qed

end
