(* ===== verification/Domain_Loop.thy ===== *)
theory Domain_Loop
  imports Prelude
begin

text \<open>
  Bounded loops, \<^verbatim>\<open>packages/domain/src/loop.ts\<close>: the loop with its iterations
  and the operations that start, amend and close an iteration or exhaust the loop. Lemmas:
  iterations are numbered from one without gaps, never exceed the bound, and only the last
  one can be open; an iteration can be started exactly if the loop can iterate and none is
  open; the status of a closed loop is the outcome of its last iteration.
\<close>

section \<open>Data\<close>

datatype loop_type = Review_fix | Implement_step | Validate_fix | Plan_review

datatype loop_status = LRunning | LConverged | LConvergedWithNotes | LExhausted | LFailed

datatype iteration_outcome =
    Resolved | Fixed | Unresolved | Iteration_failed | Fix_failed | Revalidation_failed

datatype iteration_kind = Review | Deterministic_fix

record loop_iteration =
  it_index :: nat
  it_kind :: "iteration_kind option"
  it_reviewInvocationId :: "ident option"
  it_qualityReviewInvocationId :: "ident option"
  it_fixInvocationId :: "ident option"
  it_revalidationId :: "ident option"
  it_outcome :: "iteration_outcome option"
  it_startedAt :: time
  it_completedAt :: "time option"

record loop =
  l_id :: ident
  l_runId :: ident
  l_phaseId :: ident
  l_type :: loop_type
  l_maxIterations :: int
  l_iterations :: "loop_iteration list"
  l_status :: loop_status
  l_startedAt :: time
  l_completedAt :: "time option"

record create_loop_input =
  li_id :: ident
  li_runId :: ident
  li_phaseId :: ident
  li_type :: loop_type
  li_maxIterations :: int
  li_now :: time

datatype loop_error =
    BadMaxIterations int
  | LoopNotRunning string ident loop_status
  | LoopHasOpenIteration ident
  | LoopAtMaxIterations ident
  | LoopNoOpenIteration string ident

text \<open>The two shapes of the argument of \<open>startIteration\<close>.\<close>

datatype start_input =
    Start_review ident time
  | Start_deterministic_fix ident time

section \<open>Operations\<close>

definition createLoop :: "create_loop_input \<Rightarrow> loop_error + loop" where
  "createLoop i =
     (if li_maxIterations i < 1 then Inl (BadMaxIterations (li_maxIterations i))
      else Inr \<lparr>l_id = li_id i, l_runId = li_runId i, l_phaseId = li_phaseId i,
        l_type = li_type i, l_maxIterations = li_maxIterations i, l_iterations = [],
        l_status = LRunning, l_startedAt = li_now i, l_completedAt = None\<rparr>)"

definition canIterate :: "loop \<Rightarrow> bool" where
  "canIterate l \<longleftrightarrow> l_status l = LRunning \<and> int (length (l_iterations l)) < l_maxIterations l"

definition openIteration :: "loop \<Rightarrow> loop_iteration option" where
  "openIteration l =
     (if l_iterations l = [] then None
      else let lst = last (l_iterations l) in if it_completedAt lst = None then Some lst else None)"

definition new_iteration :: "nat \<Rightarrow> start_input \<Rightarrow> loop_iteration" where
  "new_iteration n inp =
     (case inp of
        Start_review ivid now \<Rightarrow>
          \<lparr>it_index = n, it_kind = Some Review, it_reviewInvocationId = Some ivid,
           it_qualityReviewInvocationId = None, it_fixInvocationId = None,
           it_revalidationId = None, it_outcome = None, it_startedAt = now,
           it_completedAt = None\<rparr>
      | Start_deterministic_fix ivid now \<Rightarrow>
          \<lparr>it_index = n, it_kind = Some Deterministic_fix, it_reviewInvocationId = None,
           it_qualityReviewInvocationId = None, it_fixInvocationId = Some ivid,
           it_revalidationId = None, it_outcome = None, it_startedAt = now,
           it_completedAt = None\<rparr>)"

definition startIteration :: "loop \<Rightarrow> start_input \<Rightarrow> loop_error + loop" where
  "startIteration l inp =
     (if l_status l \<noteq> LRunning then Inl (LoopNotRunning ''start'' (l_id l) (l_status l))
      else if openIteration l \<noteq> None then Inl (LoopHasOpenIteration (l_id l))
      else if int (length (l_iterations l)) \<ge> l_maxIterations l then Inl (LoopAtMaxIterations (l_id l))
      else Inr (l\<lparr>l_iterations :=
             l_iterations l @ [new_iteration (length (l_iterations l) + 1) inp]\<rparr>))"

text \<open>Optional ids of the argument are written only when they are defined.\<close>

definition completeIteration ::
  "loop \<Rightarrow> iteration_outcome \<Rightarrow> ident option \<Rightarrow> ident option \<Rightarrow> time \<Rightarrow> loop_error + loop" where
  "completeIteration l outcome fixId revalId now =
     (case openIteration l of
        None \<Rightarrow> Inl (LoopNoOpenIteration ''complete'' (l_id l))
      | Some opn \<Rightarrow>
          let updated = opn\<lparr>it_outcome := Some outcome, it_completedAt := Some now,
                it_fixInvocationId := (if fixId \<noteq> None then fixId else it_fixInvocationId opn),
                it_revalidationId := (if revalId \<noteq> None then revalId else it_revalidationId opn)\<rparr>;
              status = (case outcome of Resolved \<Rightarrow> LConverged | Iteration_failed \<Rightarrow> LFailed
                        | _ \<Rightarrow> LRunning)
          in Inr (l\<lparr>l_iterations := butlast (l_iterations l) @ [updated], l_status := status,
                    l_completedAt := (if status \<noteq> LRunning then Some now else l_completedAt l)\<rparr>))"

definition updateOpenIteration :: "loop \<Rightarrow> ident \<Rightarrow> loop_error + loop" where
  "updateOpenIteration l qualityId =
     (case openIteration l of
        None \<Rightarrow> Inl (LoopNoOpenIteration ''update'' (l_id l))
      | Some opn \<Rightarrow>
          Inr (l\<lparr>l_iterations := butlast (l_iterations l) @
                   [opn\<lparr>it_qualityReviewInvocationId := Some qualityId\<rparr>]\<rparr>))"

definition exhaust :: "loop \<Rightarrow> time \<Rightarrow> loop_error + loop" where
  "exhaust l now =
     (if l_status l \<noteq> LRunning then Inl (LoopNotRunning ''exhaust'' (l_id l) (l_status l))
      else Inr (l\<lparr>l_status := LExhausted, l_completedAt := Some now\<rparr>))"

lemmas [loop_ops] = createLoop_def startIteration_def completeIteration_def
  updateOpenIteration_def exhaust_def

section \<open>Histories and the invariant\<close>

datatype loop_op =
    Start_iteration start_input
  | Complete_iteration iteration_outcome "ident option" "ident option" time
  | Update_iteration ident
  | Exhaust_loop time

fun apply_loop_op :: "loop_op \<Rightarrow> loop \<Rightarrow> loop_error + loop" where
  "apply_loop_op (Start_iteration i) l = startIteration l i"
| "apply_loop_op (Complete_iteration out f r t) l = completeIteration l out f r t"
| "apply_loop_op (Update_iteration q) l = updateOpenIteration l q"
| "apply_loop_op (Exhaust_loop t) l = exhaust l t"

fun run_loop_ops :: "loop_op list \<Rightarrow> loop \<Rightarrow> loop_error + loop" where
  "run_loop_ops [] l = Inr l"
| "run_loop_ops (op # ops) l =
     (case apply_loop_op op l of Inl e \<Rightarrow> Inl e | Inr l' \<Rightarrow> run_loop_ops ops l')"

definition is_start :: "loop_op \<Rightarrow> bool" where
  "is_start op = (case op of Start_iteration _ \<Rightarrow> True | _ \<Rightarrow> False)"

definition iteration_wf :: "loop_iteration \<Rightarrow> bool" where
  "iteration_wf it \<longleftrightarrow> (it_outcome it = None \<longleftrightarrow> it_completedAt it = None)"

definition closed_status :: "iteration_outcome \<Rightarrow> loop_status" where
  "closed_status outcome =
     (case outcome of Resolved \<Rightarrow> LConverged | Iteration_failed \<Rightarrow> LFailed | _ \<Rightarrow> LRunning)"

definition loop_inv :: "loop \<Rightarrow> bool" where
  "loop_inv l \<longleftrightarrow>
     map it_index (l_iterations l) = [1..<Suc (length (l_iterations l))] \<and>
     int (length (l_iterations l)) \<le> l_maxIterations l \<and>
     (\<forall>it \<in> set (l_iterations l). iteration_wf it) \<and>
     (\<forall>it \<in> set (butlast (l_iterations l)). it_completedAt it \<noteq> None) \<and>
     (l_status l \<in> {LConverged, LFailed} \<longrightarrow>
        l_iterations l \<noteq> [] \<and> map_option closed_status (it_outcome (last (l_iterations l)))
          = Some (l_status l)) \<and>
     (l_status l \<noteq> LRunning \<longrightarrow> l_completedAt l \<noteq> None) \<and>
     l_status l \<noteq> LConvergedWithNotes"

lemma openIteration_SomeD:
  "openIteration l = Some it \<Longrightarrow> l_iterations l = butlast (l_iterations l) @ [it] \<and>
     it_completedAt it = None"
  by (auto simp: openIteration_def Let_def split: if_splits)

lemma openIteration_nonempty: "openIteration l = Some it \<Longrightarrow> 0 < length (l_iterations l)"
  by (auto simp: openIteration_def split: if_splits)

lemma openIteration_cong:
  "l_iterations l' = l_iterations l \<Longrightarrow> openIteration l' = openIteration l"
  by (simp add: openIteration_def)

lemma openIteration_None_iff:
  "openIteration l = None \<longleftrightarrow> l_iterations l = [] \<or> it_completedAt (last (l_iterations l)) \<noteq> None"
  by (auto simp: openIteration_def Let_def)

lemma new_iteration_simps [simp]:
  "it_index (new_iteration n i) = n" "it_outcome (new_iteration n i) = None"
  "it_completedAt (new_iteration n i) = None"
  by (cases i; simp add: new_iteration_def)+

lemma createLoop_inv: "createLoop i = Inr l \<Longrightarrow> loop_inv l \<and> l_iterations l = []"
  by (auto simp: createLoop_def loop_inv_def split: if_splits)

lemma startIteration_inv:
  assumes "startIteration l i = Inr l'" and inv: "loop_inv l"
  shows "loop_inv l'"
proof -
  have l': "l' = l\<lparr>l_iterations := l_iterations l @ [new_iteration (length (l_iterations l) + 1) i]\<rparr>"
    and run: "l_status l = LRunning" and opn: "openIteration l = None"
    and len: "int (length (l_iterations l)) < l_maxIterations l"
    using assms(1) by (auto simp: startIteration_def split: if_splits)
  have "\<forall>it \<in> set (l_iterations l). it_completedAt it \<noteq> None"
  proof (cases "l_iterations l" rule: rev_cases)
    case (snoc its it)
    then show ?thesis using opn inv by (auto simp: openIteration_None_iff loop_inv_def)
  qed simp
  then show ?thesis
    using inv run len by (simp add: l' loop_inv_def iteration_wf_def)
qed

lemma closing_inv:
  assumes inv: "loop_inv l" and opn: "openIteration l = Some it"
    and it': "it_index it' = it_index it" "iteration_wf it'"
    and l': "l_iterations l' = butlast (l_iterations l) @ [it']"
      "l_maxIterations l' = l_maxIterations l"
      "l_status l' \<in> {LConverged, LFailed} \<longrightarrow>
         map_option closed_status (it_outcome it') = Some (l_status l')"
      "l_status l' \<noteq> LRunning \<longrightarrow> l_completedAt l' \<noteq> None" "l_status l' \<noteq> LConvergedWithNotes"
  shows "loop_inv l'"
proof -
  from openIteration_SomeD [OF opn] obtain its where its: "l_iterations l = its @ [it]" by auto
  show ?thesis using inv it' l' by (simp add: loop_inv_def its)
qed

lemma completeIteration_inv:
  assumes "completeIteration l out f r t = Inr l'" and inv: "loop_inv l"
  shows "loop_inv l'"
proof -
  from assms(1) obtain it where it: "openIteration l = Some it"
    by (auto simp: completeIteration_def split: option.splits)
  show ?thesis
    by (rule closing_inv [OF inv it, where it' = "last (l_iterations l')"]) (use assms(1) it in
      \<open>auto simp: completeIteration_def Let_def iteration_wf_def closed_status_def
        split: iteration_outcome.splits\<close>)
qed

lemma updateOpenIteration_inv:
  assumes "updateOpenIteration l q = Inr l'" and inv: "loop_inv l"
  shows "loop_inv l'"
proof -
  from assms(1) obtain it where it: "openIteration l = Some it"
    by (auto simp: updateOpenIteration_def split: option.splits)
  from openIteration_SomeD [OF it] obtain its where
    its: "l_iterations l = its @ [it]" "it_completedAt it = None" by auto
  show ?thesis
    using assms(1) inv it by (auto simp: updateOpenIteration_def loop_inv_def its iteration_wf_def)
qed

lemma exhaust_inv: "exhaust l t = Inr l' \<Longrightarrow> loop_inv l \<Longrightarrow> loop_inv l'"
  by (auto simp: exhaust_def loop_inv_def split: if_splits)

lemma apply_loop_op_inv: "apply_loop_op op l = Inr l' \<Longrightarrow> loop_inv l \<Longrightarrow> loop_inv l'"
  by (cases op) (auto dest: startIteration_inv completeIteration_inv updateOpenIteration_inv
      exhaust_inv)

lemma apply_loop_op_length:
  "apply_loop_op op l = Inr l' \<Longrightarrow>
   length (l_iterations l') = length (l_iterations l) + (if is_start op then 1 else 0) \<and>
   l_maxIterations l' = l_maxIterations l"
  by (cases op) (auto simp: loop_ops is_start_def Let_def split: if_splits option.splits
      dest: openIteration_nonempty)

lemma run_loop_ops_inv: "run_loop_ops ops l = Inr l' \<Longrightarrow> loop_inv l \<Longrightarrow> loop_inv l'"
  by (induction ops arbitrary: l) (auto split: sum.splits dest: apply_loop_op_inv)

lemma run_loop_ops_length:
  "run_loop_ops ops l = Inr l' \<Longrightarrow>
   length (l_iterations l') = length (l_iterations l) + length (filter is_start ops) \<and>
   l_maxIterations l' = l_maxIterations l"
  by (induction ops arbitrary: l) (auto split: sum.splits dest!: apply_loop_op_length)

section \<open>Properties\<close>

text \<open>
  Every history of a new loop keeps its iterations numbered from one without gaps, closed
  but for the last, with the status of a converged or failed loop the outcome of its last
  iteration; and it starts at most \<open>maxIterations\<close> iterations, however the operations are
  ordered.
\<close>

theorem loop_bounded:
  assumes "createLoop i = Inr l" and "run_loop_ops ops l = Inr l'"
  shows "loop_inv l' \<and> int (length (filter is_start ops)) \<le> li_maxIterations i"
proof -
  have "loop_inv l'" using createLoop_inv assms run_loop_ops_inv by blast
  moreover have "l_maxIterations l = li_maxIterations i"
    using assms(1) by (auto simp: createLoop_def split: if_splits)
  ultimately show ?thesis
    using run_loop_ops_length [OF assms(2)] createLoop_inv [OF assms(1)]
    by (simp add: loop_inv_def)
qed

definition sample_loop_input :: create_loop_input where
  "sample_loop_input = \<lparr>li_id = ''l'', li_runId = ''r'', li_phaseId = ''fix-validate'',
     li_type = Validate_fix, li_maxIterations = 2, li_now = 0\<rparr>"

theorem loop_bounded_witness:
  "\<exists>l l'. createLoop sample_loop_input = Inr l \<and>
     run_loop_ops [Start_iteration (Start_review ''a'' 1), Complete_iteration Fixed None None 2,
       Start_iteration (Start_review ''b'' 3), Complete_iteration Resolved None None 4] l = Inr l' \<and>
     loop_inv l' \<and> l_status l' = LConverged"
proof -
  let ?ops = "[Start_iteration (Start_review ''a'' 1), Complete_iteration Fixed None None 2,
       Start_iteration (Start_review ''b'' 3), Complete_iteration Resolved None None 4]"
  obtain l where l: "createLoop sample_loop_input = Inr l"
    by (simp add: createLoop_def sample_loop_input_def)
  then obtain l' where l': "run_loop_ops ?ops l = Inr l'" and s: "l_status l' = LConverged"
    by (auto simp: createLoop_def sample_loop_input_def startIteration_def completeIteration_def
        openIteration_def new_iteration_def Let_def)
  show ?thesis using loop_bounded [OF l l'] l l' s by blast
qed

text \<open>
  \<open>canIterate\<close> is the exact guard of \<open>startIteration\<close>: on a loop without open
  iteration an iteration can be started if and only if \<open>canIterate\<close> says so, and a started
  iteration is the open one.
\<close>

theorem start_guard:
  "(\<exists>l'. startIteration l i = Inr l' \<and>
      openIteration l' = Some (new_iteration (length (l_iterations l) + 1) i))
   \<longleftrightarrow> canIterate l \<and> openIteration l = None"
  by (auto simp: startIteration_def canIterate_def openIteration_def Let_def)

text \<open>
  Exhausting a loop does not close its open iteration: closing it afterwards with any
  outcome that is neither resolved nor failed puts the exhausted loop back to \<open>running\<close>, its
  completion time still set.
\<close>

theorem exhausted_loop_revives:
  assumes "l_status l = LRunning" and "openIteration l \<noteq> None"
    and "outcome \<notin> {Resolved, Iteration_failed}"
  shows "\<exists>l1 l2. exhaust l t = Inr l1 \<and> l_status l1 = LExhausted \<and>
    completeIteration l1 outcome f r u = Inr l2 \<and> l_status l2 = LRunning \<and>
    l_completedAt l2 = Some t"
proof -
  obtain it where "openIteration l = Some it" using assms(2) by blast
  then have "openIteration (l\<lparr>l_status := LExhausted, l_completedAt := Some t\<rparr>) = Some it"
    using openIteration_cong [of "l\<lparr>l_status := LExhausted, l_completedAt := Some t\<rparr>" l] by simp
  then show ?thesis
    using assms(1,3) by (auto simp: exhaust_def completeIteration_def Let_def
        split: iteration_outcome.splits)
qed

theorem exhausted_loop_revives_witness:
  "\<exists>l l' l1 l2. createLoop sample_loop_input = Inr l \<and>
     startIteration l (Start_review ''a'' 1) = Inr l' \<and> exhaust l' 5 = Inr l1 \<and>
     completeIteration l1 Fixed None None 6 = Inr l2 \<and> l_status l2 = LRunning"
proof -
  obtain l l' where l: "createLoop sample_loop_input = Inr l"
    and l': "startIteration l (Start_review ''a'' 1) = Inr l'"
    and s: "l_status l' = LRunning" "openIteration l' \<noteq> None"
    by (simp add: createLoop_def sample_loop_input_def startIteration_def openIteration_def
        new_iteration_def Let_def)
  show ?thesis using exhausted_loop_revives [OF s, of Fixed 5 None None 6] l l' by auto
qed

end
