(* ===== verification/Domain_Review.thy ===== *)
theory Domain_Review
  imports Prelude
begin

text \<open>
  Pull request review comments, \<^verbatim>\<open>packages/domain/src/pr-review.ts\<close>: the
  comment entity, the severity its text announces, and the transitions
  pending, replied, processed and blocked. Lemmas: a processed comment is a verified one,
  processed and blocked comments are final, and \<open>attempts\<close> counts the replies.
\<close>

section \<open>Data\<close>

datatype comment_state = Pending | Replied | Processed | Blocked

datatype comment_outcome = Outcome_fixed | Outcome_no_fix

datatype comment_severity = Critical | High | Medium | Low

record pr_comment =
  c_runId :: ident
  c_prNumber :: int
  c_commentId :: int
  c_path :: string
  c_line :: int
  c_reviewer :: string
  c_body :: string
  c_state :: comment_state
  c_severity :: "comment_severity option"
  c_attempts :: nat
  c_outcome :: "comment_outcome option"
  c_replyId :: "int option"
  c_commitSha :: "string option"
  c_commitVerified :: bool
  c_replyVerified :: bool
  c_buildVerified :: bool
  c_blockedReason :: "string option"
  c_lastPoll :: int
  c_createdAt :: time
  c_updatedAt :: time

record create_comment_input =
  ci_runId :: ident
  ci_prNumber :: int
  ci_commentId :: int
  ci_path :: string
  ci_line :: int
  ci_reviewer :: string
  ci_body :: string
  ci_now :: time

text \<open>\<open>CommentStateError\<close>: the transition, the comment and the state found, or the
  verification flags that were not all set.\<close>

datatype comment_error =
    CommentStateError string int comment_state
  | ReplyNotVerified int
  | VerificationIncomplete int bool bool bool

section \<open>Severity\<close>

text \<open>The regular expressions \<^verbatim>\<open>/\b(P0|critical)\b/i\<close> and their siblings: a word of
  the alternatives, letter case ignored, between word boundaries.\<close>

definition word_char :: "char \<Rightarrow> bool" where
  "word_char c \<longleftrightarrow>
     (let n = of_char c :: nat
      in (48 \<le> n \<and> n \<le> 57) \<or> (65 \<le> n \<and> n \<le> 90) \<or> n = 95 \<or> (97 \<le> n \<and> n \<le> 122))"

definition lower_char :: "char \<Rightarrow> char" where
  "lower_char c =
     (let n = of_char c :: nat in if 65 \<le> n \<and> n \<le> 90 then char_of (n + 32) else c)"

definition word_boundary :: "string \<Rightarrow> nat \<Rightarrow> bool" where
  "word_boundary s i \<longleftrightarrow>
     (0 < i \<and> i \<le> length s \<and> word_char (s ! (i - 1))) \<noteq> (i < length s \<and> word_char (s ! i))"

definition has_word :: "string \<Rightarrow> string \<Rightarrow> bool" where
  "has_word w s \<longleftrightarrow>
     list_ex (\<lambda>i. map lower_char (take (length w) (drop i s)) = map lower_char w \<and>
                  word_boundary s i \<and> word_boundary s (i + length w)) [0..<Suc (length s)]"

definition parseSeverity :: "string \<Rightarrow> comment_severity option" where
  "parseSeverity body =
     (if has_word ''P0'' body \<or> has_word ''critical'' body then Some Critical
      else if has_word ''P1'' body \<or> has_word ''high'' body then Some High
      else if has_word ''P2'' body \<or> has_word ''medium'' body then Some Medium
      else if has_word ''P3'' body \<or> has_word ''low'' body then Some Low
      else None)"

section \<open>Transitions\<close>

definition createPrReviewComment :: "create_comment_input \<Rightarrow> pr_comment" where
  "createPrReviewComment i =
     \<lparr>c_runId = ci_runId i, c_prNumber = ci_prNumber i, c_commentId = ci_commentId i,
      c_path = ci_path i, c_line = ci_line i, c_reviewer = ci_reviewer i, c_body = ci_body i,
      c_state = Pending, c_severity = parseSeverity (ci_body i), c_attempts = 0,
      c_outcome = None, c_replyId = None, c_commitSha = None, c_commitVerified = False,
      c_replyVerified = False, c_buildVerified = False, c_blockedReason = None, c_lastPoll = 0,
      c_createdAt = ci_now i, c_updatedAt = ci_now i\<rparr>"

definition stripOptionalFields :: "pr_comment \<Rightarrow> pr_comment" where
  "stripOptionalFields c =
     c\<lparr>c_outcome := None, c_replyId := None, c_commitSha := None, c_blockedReason := None\<rparr>"

text \<open>\<open>now\<close> is the \<open>new Date()\<close> of the transition.\<close>

definition markReplied ::
  "pr_comment \<Rightarrow> int \<Rightarrow> comment_outcome \<Rightarrow> string option \<Rightarrow> int \<Rightarrow> time
   \<Rightarrow> comment_error + pr_comment" where
  "markReplied c replyId outcome commitSha poll now =
     (if c_state c \<noteq> Pending then Inl (CommentStateError ''replied'' (c_commentId c) (c_state c))
      else Inr ((stripOptionalFields c)
        \<lparr>c_state := Replied, c_replyId := Some replyId, c_outcome := Some outcome,
         c_commitSha := commitSha, c_attempts := c_attempts c + 1, c_lastPoll := poll,
         c_updatedAt := now\<rparr>))"

definition markProcessed ::
  "pr_comment \<Rightarrow> bool \<Rightarrow> bool \<Rightarrow> bool \<Rightarrow> time \<Rightarrow> comment_error + pr_comment" where
  "markProcessed c commitVerified replyVerified buildVerified now =
     (if c_state c \<noteq> Replied then Inl (CommentStateError ''processed'' (c_commentId c) (c_state c))
      else if c_outcome c = Some Outcome_no_fix \<and> \<not> replyVerified
      then Inl (ReplyNotVerified (c_commentId c))
      else if c_outcome c \<noteq> Some Outcome_no_fix \<and>
              (\<not> commitVerified \<or> \<not> replyVerified \<or> \<not> buildVerified)
      then Inl (VerificationIncomplete (c_commentId c) commitVerified replyVerified buildVerified)
      else Inr (c\<lparr>c_state := Processed,
        c_commitVerified := (if c_outcome c = Some Outcome_no_fix then c_commitVerified c else True),
        c_replyVerified := True,
        c_buildVerified := (if c_outcome c = Some Outcome_no_fix then c_buildVerified c else True),
        c_updatedAt := now\<rparr>))"

definition resetForRetry :: "pr_comment \<Rightarrow> int \<Rightarrow> time \<Rightarrow> comment_error + pr_comment" where
  "resetForRetry c poll now =
     (if c_state c \<noteq> Replied then Inl (CommentStateError ''retry'' (c_commentId c) (c_state c))
      else Inr ((stripOptionalFields c)
        \<lparr>c_state := Pending, c_lastPoll := poll, c_commitVerified := False,
         c_replyVerified := False, c_buildVerified := False, c_updatedAt := now\<rparr>))"

definition blockComment :: "pr_comment \<Rightarrow> string \<Rightarrow> time \<Rightarrow> comment_error + pr_comment" where
  "blockComment c reason now =
     (if c_state c \<noteq> Pending \<and> c_state c \<noteq> Replied
      then Inl (CommentStateError ''block'' (c_commentId c) (c_state c))
      else Inr (c\<lparr>c_state := Blocked, c_blockedReason := Some reason, c_updatedAt := now\<rparr>))"

definition isUnresolved :: "pr_comment \<Rightarrow> bool" where
  "isUnresolved c \<longleftrightarrow> c_state c = Pending"

lemmas [comment_ops] = markReplied_def markProcessed_def resetForRetry_def blockComment_def
  stripOptionalFields_def

section \<open>Histories and the invariant\<close>

datatype comment_op =
    Op_reply int comment_outcome "string option" int time
  | Op_process bool bool bool time
  | Op_retry int time
  | Op_block string time

fun apply_comment_op :: "comment_op \<Rightarrow> pr_comment \<Rightarrow> comment_error + pr_comment" where
  "apply_comment_op (Op_reply r out sha poll t) c = markReplied c r out sha poll t"
| "apply_comment_op (Op_process cv rv bv t) c = markProcessed c cv rv bv t"
| "apply_comment_op (Op_retry poll t) c = resetForRetry c poll t"
| "apply_comment_op (Op_block reason t) c = blockComment c reason t"

inductive comment_reachable :: "pr_comment \<Rightarrow> bool" where
  create: "comment_reachable (createPrReviewComment i)"
| step: "comment_reachable c \<Longrightarrow> apply_comment_op op c = Inr d \<Longrightarrow> comment_reachable d"

inductive_cases comment_reachableE: "comment_reachable c"

definition fully_verified :: "pr_comment \<Rightarrow> bool" where
  "fully_verified c \<longleftrightarrow>
     c_replyVerified c \<and> (c_outcome c = Some Outcome_fixed \<longrightarrow> c_commitVerified c \<and> c_buildVerified c)"

definition comment_inv :: "pr_comment \<Rightarrow> bool" where
  "comment_inv c \<longleftrightarrow>
     (c_state c \<in> {Replied, Processed} \<longrightarrow> c_outcome c \<noteq> None \<and> c_replyId c \<noteq> None \<and> 0 < c_attempts c) \<and>
     (c_state c = Pending \<longrightarrow> c_outcome c = None \<and> c_replyId c = None \<and> \<not> c_replyVerified c) \<and>
     (c_state c = Processed \<longrightarrow> fully_verified c) \<and>
     (c_state c = Replied \<longrightarrow> \<not> c_replyVerified c) \<and>
     (c_state c = Blocked \<longleftrightarrow> c_blockedReason c \<noteq> None)"

text \<open>The identity of a comment, which no transition touches, and its count of replies.\<close>

definition same_comment :: "pr_comment \<Rightarrow> pr_comment \<Rightarrow> bool" where
  "same_comment c d \<longleftrightarrow>
     c_runId d = c_runId c \<and> c_commentId d = c_commentId c \<and> c_severity d = c_severity c \<and>
     c_body d = c_body c \<and> c_attempts c \<le> c_attempts d"

text \<open>What each transition does to the fields the invariant mentions.\<close>

lemma markReplied_fields:
  "markReplied c r out sha poll t = Inr d \<Longrightarrow>
   c_state d = Replied \<and> c_outcome d = Some out \<and> c_replyId d = Some r \<and>
   c_attempts d = Suc (c_attempts c) \<and> c_replyVerified d = c_replyVerified c \<and>
   c_blockedReason d = None \<and> c_state c = Pending \<and> same_comment c d"
  by (auto simp: markReplied_def stripOptionalFields_def same_comment_def split: if_split_asm)

lemma markProcessed_fields:
  "markProcessed c cv rv bv t = Inr d \<Longrightarrow>
   c_state d = Processed \<and> c_outcome d = c_outcome c \<and> c_replyId d = c_replyId c \<and>
   c_attempts d = c_attempts c \<and> c_replyVerified d \<and>
   (c_outcome c \<noteq> Some Outcome_no_fix \<longrightarrow> c_commitVerified d \<and> c_buildVerified d) \<and>
   c_blockedReason d = c_blockedReason c \<and> c_state c = Replied \<and> same_comment c d"
  by (auto simp: markProcessed_def same_comment_def split: if_split_asm)

lemma resetForRetry_fields:
  "resetForRetry c poll t = Inr d \<Longrightarrow>
   c_state d = Pending \<and> c_outcome d = None \<and> c_replyId d = None \<and>
   \<not> c_replyVerified d \<and> c_blockedReason d = None \<and> same_comment c d"
  by (auto simp: resetForRetry_def same_comment_def stripOptionalFields_def split: if_split_asm)

lemma blockComment_fields:
  "blockComment c reason t = Inr d \<Longrightarrow> c_state d = Blocked \<and> c_blockedReason d = Some reason \<and>
     same_comment c d"
  by (auto simp: blockComment_def same_comment_def split: if_split_asm)

lemma apply_comment_op_inv:
  assumes "apply_comment_op op c = Inr d" and "comment_inv c"
  shows "comment_inv d"
proof (cases op)
  case (Op_reply r out sha poll t)
  with assms have "markReplied c r out sha poll t = Inr d" by simp
  from markReplied_fields [OF this] assms(2) show ?thesis by (simp add: comment_inv_def)
next
  case (Op_process cv rv bv t)
  with assms have "markProcessed c cv rv bv t = Inr d" by simp
  from markProcessed_fields [OF this] assms(2) show ?thesis
    by (simp add: comment_inv_def fully_verified_def)
next
  case (Op_retry poll t)
  with assms have "resetForRetry c poll t = Inr d" by simp
  from resetForRetry_fields [OF this] show ?thesis by (simp add: comment_inv_def)
next
  case (Op_block reason t)
  with assms have "blockComment c reason t = Inr d" by simp
  from blockComment_fields [OF this] show ?thesis by (simp add: comment_inv_def)
qed

lemma apply_comment_op_frame: "apply_comment_op op c = Inr d \<Longrightarrow> same_comment c d"
  by (cases op) (auto dest: markReplied_fields markProcessed_fields resetForRetry_fields
      blockComment_fields)

lemma final_comment_no_op:
  "c_state c \<in> {Processed, Blocked} \<Longrightarrow> \<exists>e. apply_comment_op op c = Inl e"
  by (cases op) (auto simp: comment_ops)

lemma comment_reachable_inv: "comment_reachable c \<Longrightarrow> comment_inv c"
proof (induction rule: comment_reachable.induct)
  case (create i)
  show ?case by (simp add: createPrReviewComment_def comment_inv_def)
next
  case (step c op d)
  then show ?case by (blast intro: apply_comment_op_inv)
qed

lemma comment_reachable_severity:
  "comment_reachable c \<Longrightarrow> c_severity c = parseSeverity (c_body c)"
  by (induction rule: comment_reachable.induct)
    (auto simp: createPrReviewComment_def same_comment_def dest!: apply_comment_op_frame)

section \<open>Properties\<close>

text \<open>
  No unverified comment is ever marked processed: in every comment the operations can
  produce, \<open>processed\<close> implies a verified reply and, for the outcome \<open>fixed\<close>, a verified
  commit and build; a replied comment has its reply recorded, and exactly the blocked ones
  have a reason.
\<close>

theorem processed_is_verified:
  assumes "comment_reachable c"
  shows "comment_inv c \<and> (c_state c = Processed \<longrightarrow> fully_verified c)"
  using comment_reachable_inv [OF assms] by (simp add: comment_inv_def)

definition sample_comment :: pr_comment where
  "sample_comment = createPrReviewComment \<lparr>ci_runId = ''r'', ci_prNumber = 3, ci_commentId = 11,
     ci_path = ''src/a.ts'', ci_line = 5, ci_reviewer = ''bob'', ci_body = ''P1: null deref'',
     ci_now = 0\<rparr>"

theorem processed_is_verified_witness:
  "\<exists>c. comment_reachable c \<and> c_state c = Processed \<and> fully_verified c"
proof -
  obtain c1 where c1: "apply_comment_op (Op_reply 5 Outcome_fixed (Some ''abc'') 1 2) sample_comment = Inr c1"
    and s1: "c_state c1 = Replied" "c_outcome c1 = Some Outcome_fixed"
    by (simp add: sample_comment_def createPrReviewComment_def comment_ops)
  from s1 obtain c where c: "apply_comment_op (Op_process True True True 3) c1 = Inr c"
    and s: "c_state c = Processed" by (simp add: comment_ops)
  have "comment_reachable sample_comment"
    unfolding sample_comment_def by (rule comment_reachable.create)
  then have "comment_reachable c" using c1 c by (blast intro: comment_reachable.step)
  then show ?thesis using processed_is_verified [of c] s by blast
qed

text \<open>
  Processed and blocked comments are final, and \<open>retry\<close> is the only way back: an
  operation succeeds on a comment if and only if it is a reply to a pending one, a retry of
  a replied one, a block of either, or the processing of a replied one whose verification
  is complete for its outcome.
\<close>

theorem comment_transitions:
  "(\<exists>d. apply_comment_op op c = Inr d) \<longleftrightarrow>
   (case op of
      Op_reply _ _ _ _ _ \<Rightarrow> c_state c = Pending
    | Op_retry _ _ \<Rightarrow> c_state c = Replied
    | Op_block _ _ \<Rightarrow> c_state c = Pending \<or> c_state c = Replied
    | Op_process cv rv bv _ \<Rightarrow> c_state c = Replied \<and> rv \<and>
        (c_outcome c = Some Outcome_no_fix \<or> (cv \<and> bv)))"
  by (cases op) (auto simp: comment_ops)

end
