(* ===== verification/Steps_Phases.thy ===== *)
theory Steps_Phases
  imports Text
begin

text \<open>
  Steps and phases of a run: \<^verbatim>\<open>packages/domain/src/step.ts\<close>, \<^verbatim>\<open>phase.ts\<close> and their tables in
  \<^verbatim>\<open>packages/infrastructure/src/sqlite/step-repository.ts\<close> and \<^verbatim>\<open>phase-repository.ts\<close>. The
  lemmas: a normalized path cannot leave its root, an upsert touches one row, and it never
  forgets the first commit or the revert counts of a step.
\<close>

section \<open>Paths\<close>

text \<open>One segment; the stack is kept with its top first. \<open>pop\<close> of an empty stack does nothing.\<close>

fun push_segment :: "string \<Rightarrow> string list \<Rightarrow> string list" where
  "push_segment seg st =
     (if seg = [] \<or> seg = ''.'' then st
      else if seg = ''..'' then tl st
      else seg # st)"

definition normalizeTaskPath :: "string \<Rightarrow> string" where
  "normalizeTaskPath p = (let t = js_trim p in
     if t = [] then []
     else join_with (CHR ''/'') (rev (fold push_segment
       (split_on (CHR ''/'') (map (\<lambda>c. if c = CHR 0x5C then CHR ''/'' else c) t)) [])))"

section \<open>Steps\<close>

datatype step_status = SPending | SRunning | SSuccess | SFailed | SNeedsHumanReview

record step =
  st_id :: ident
  st_runId :: ident
  st_phaseId :: string
  st_index :: nat
  st_title :: string
  st_status :: step_status
  st_startedAt :: "time option"
  st_completedAt :: "time option"
  st_initialPreStepHead :: "string option"
  st_revertCounts :: "(string \<times> int) list"

definition createStep :: "ident \<Rightarrow> ident \<Rightarrow> string \<Rightarrow> nat \<Rightarrow> string \<Rightarrow> step" where
  "createStep sid run phase idx title =
     \<lparr>st_id = sid, st_runId = run, st_phaseId = phase, st_index = idx, st_title = title,
      st_status = SPending, st_startedAt = None, st_completedAt = None,
      st_initialPreStepHead = None, st_revertCounts = []\<rparr>"

text \<open>The entries of a parsed object; \<open>None\<close> is a value that is no non-negative integer.\<close>

fun bump :: "(string \<times> int) list \<Rightarrow> string \<Rightarrow> int \<Rightarrow> (string \<times> int) list" where
  "bump [] k v = [(k, v)]"
| "bump ((k', v') # xs) k v = (if k' = k then (k, max v' v) # xs else (k', v') # bump xs k v)"

fun normalizeRevertCounts :: "(string \<times> int option) list \<Rightarrow> (string \<times> int) list \<Rightarrow> (string \<times> int) list" where
  "normalizeRevertCounts [] acc = acc"
| "normalizeRevertCounts ((key, val) # xs) acc =
     (let normKey = normalizeTaskPath key in
      if normKey = [] then normalizeRevertCounts xs acc
      else case val of
        None \<Rightarrow> normalizeRevertCounts xs acc
      | Some v \<Rightarrow> if v < 0 then normalizeRevertCounts xs acc
                  else normalizeRevertCounts xs (bump acc normKey v))"

definition clean_counts :: "(string \<times> int) list \<Rightarrow> (string \<times> int) list" where
  "clean_counts cs = normalizeRevertCounts (map (\<lambda>(k, v). (k, Some v)) cs) []"

section \<open>The steps table\<close>

type_synonym step_table = "step list"

definition same_step :: "step \<Rightarrow> step \<Rightarrow> bool" where
  "same_step s r \<longleftrightarrow> st_runId r = st_runId s \<and> st_phaseId r = st_phaseId s \<and> st_index r = st_index s"

text \<open>The conflict branch: the first commit and non-empty counts survive.\<close>

definition merge_step :: "step \<Rightarrow> step \<Rightarrow> step" where
  "merge_step row s = row\<lparr>st_id := st_id s, st_title := st_title s, st_status := st_status s,
     st_startedAt := st_startedAt s, st_completedAt := st_completedAt s,
     st_initialPreStepHead := coalesce (st_initialPreStepHead row) (st_initialPreStepHead s),
     st_revertCounts := (if clean_counts (st_revertCounts s) \<noteq> [] then clean_counts (st_revertCounts s)
       else st_revertCounts row)\<rparr>"

definition upsertStep :: "step_table \<Rightarrow> step \<Rightarrow> step_table" where
  "upsertStep tbl s =
     (if list_ex (same_step s) tbl then map (\<lambda>r. if same_step s r then merge_step r s else r) tbl
      else tbl @ [s\<lparr>st_revertCounts := clean_counts (st_revertCounts s)\<rparr>])"

definition PHASE_ORDER :: "(string \<times> nat) list" where
  "PHASE_ORDER = [(''read_issue'', 0), (''plan-design'', 1), (''plan-write'', 2), (''implement'', 3),
     (''validate'', 4), (''review-fix'', 5), (''compound'', 6), (''create-pr'', 7), (''post-pr-review'', 8)]"

definition phase_rank :: "string \<Rightarrow> nat" where
  "phase_rank p = (case map_of PHASE_ORDER p of None \<Rightarrow> 999 | Some n \<Rightarrow> n)"

definition rowToStep :: "step \<Rightarrow> step" where
  "rowToStep r = r\<lparr>st_revertCounts := clean_counts (st_revertCounts r)\<rparr>"

text \<open>The comparison by phase, then by index.\<close>

definition step_le :: "step \<Rightarrow> step \<Rightarrow> bool" where
  "step_le a b \<longleftrightarrow> phase_rank (st_phaseId a) < phase_rank (st_phaseId b) \<or>
     phase_rank (st_phaseId a) = phase_rank (st_phaseId b) \<and> st_index a \<le> st_index b"

definition listSteps :: "step_table \<Rightarrow> ident \<Rightarrow> step list" where
  "listSteps tbl run = sort_by step_le (map rowToStep (filter (\<lambda>r. st_runId r = run) tbl))"

definition findByIndex :: "step_table \<Rightarrow> ident \<Rightarrow> string \<Rightarrow> nat \<Rightarrow> step option" where
  "findByIndex tbl run phase idx = map_option rowToStep
     (List.find (\<lambda>r. st_runId r = run \<and> st_phaseId r = phase \<and> st_index r = idx) tbl)"

section \<open>Phases\<close>

datatype phase_status =
    PhPending | PhRunning | PhPassed | PhFailed | PhSkipped | PhBlocked | PhResting
  | PhNeedsHumanReview | PhDeferred

record phase =
  ph_id :: ident
  ph_runUuid :: ident
  ph_name :: string
  ph_status :: phase_status
  ph_attempt :: nat
  ph_startedAt :: "time option"
  ph_completedAt :: "time option"

type_synonym phase_table = "phase list"

definition upsertPhase :: "phase_table \<Rightarrow> phase \<Rightarrow> phase_table" where
  "upsertPhase tbl p =
     (if list_ex (\<lambda>r. ph_id r = ph_id p) tbl
      then map (\<lambda>r. if ph_id r = ph_id p
        then r\<lparr>ph_status := ph_status p, ph_attempt := ph_attempt p, ph_startedAt := ph_startedAt p,
               ph_completedAt := ph_completedAt p\<rparr> else r) tbl
      else tbl @ [p])"

text \<open>\<open>ORDER BY started_at ASC\<close>, absent dates first.\<close>

definition listPhases :: "phase_table \<Rightarrow> ident \<Rightarrow> phase list" where
  "listPhases tbl run = sort_by (\<lambda>a b. case (ph_startedAt a, ph_startedAt b) of
       (None, _) \<Rightarrow> True | (Some _, None) \<Rightarrow> False | (Some x, Some y) \<Rightarrow> x \<le> y)
     (filter (\<lambda>r. ph_runUuid r = run) tbl)"

section \<open>Paths stay inside\<close>

definition plain_segment :: "string \<Rightarrow> bool" where
  "plain_segment seg \<longleftrightarrow> seg \<noteq> [] \<and> seg \<noteq> ''.'' \<and> seg \<noteq> ''..'' \<and> CHR ''/'' \<notin> set seg \<and> CHR 0x5C \<notin> set seg"

lemma fold_segments:
  assumes "\<forall>seg \<in> set segs. CHR ''/'' \<notin> set seg \<and> CHR 0x5C \<notin> set seg" and "list_all plain_segment st"
  shows "list_all plain_segment (fold push_segment segs st)"
  using assms
proof (induction segs arbitrary: st)
  case (Cons seg segs)
  have "list_all plain_segment (tl st)" using Cons.prems(2) by (cases st) simp_all
  then have "list_all plain_segment (push_segment seg st)"
    using Cons.prems by (simp add: plain_segment_def [of seg])
  then show ?case using Cons by simp
qed simp

text \<open>
  A normalized task path cannot leave its root: it is empty, or its parts between slashes
  are all proper names, none of them empty, \<open>.\<close> or \<open>..\<close> or with a backslash.
\<close>

theorem normalized_path_inside:
  "normalizeTaskPath p = [] \<or> list_all plain_segment (split_on (CHR ''/'') (normalizeTaskPath p))"
proof -
  let ?t = "map (\<lambda>c. if c = CHR 0x5C then CHR ''/'' else c) (js_trim p)"
  let ?segs = "split_on (CHR ''/'') ?t"
  let ?st = "rev (fold push_segment ?segs [])"
  have "\<forall>seg \<in> set ?segs. CHR ''/'' \<notin> set seg \<and> CHR 0x5C \<notin> set seg"
  proof
    fix seg assume "seg \<in> set ?segs"
    from split_on_parts [OF this] show "CHR ''/'' \<notin> set seg \<and> CHR 0x5C \<notin> set seg" by auto
  qed
  then have plain: "list_all plain_segment ?st" using fold_segments [of ?segs "[]"] by simp
  show ?thesis
  proof (cases "?st = []")
    case False
    have "split_on (CHR ''/'') (join_with (CHR ''/'') ?st) = ?st"
      using False plain by (intro split_join) (auto simp: list_all_iff plain_segment_def)
    then show ?thesis using plain by (simp add: normalizeTaskPath_def Let_def)
  qed (simp add: normalizeTaskPath_def Let_def)
qed

section \<open>The tables\<close>

lemma upsertStep_other:
  "\<not> same_step s r \<Longrightarrow> r \<in> set tbl \<Longrightarrow> r \<in> set (upsertStep tbl s)"
  by (auto simp: upsertStep_def image_iff)

definition steps_distinct :: "step_table \<Rightarrow> bool" where
  "steps_distinct tbl \<longleftrightarrow> distinct (map (\<lambda>r. (st_runId r, st_phaseId r, st_index r)) tbl)"

lemma upsertStep_distinct: "steps_distinct tbl \<Longrightarrow> steps_distinct (upsertStep tbl s)"
proof -
  assume d: "steps_distinct tbl"
  let ?key = "\<lambda>r. (st_runId r, st_phaseId r, st_index r)"
  show ?thesis
  proof (cases "list_ex (same_step s) tbl")
    case True
    have "map ?key (map (\<lambda>r. if same_step s r then merge_step r s else r) tbl) = map ?key tbl"
      by (simp add: comp_def merge_step_def)
    then show ?thesis using d True by (simp add: upsertStep_def steps_distinct_def del: map_map)
  next
    case False
    then show ?thesis using d by (auto simp: upsertStep_def steps_distinct_def list_ex_iff same_step_def)
  qed
qed

text \<open>
  No upsert makes a step forget where it began: once the first commit of a step is
  recorded, every later state of its row has the same commit, however it is updated, and the table
  keeps one row per run, phase and index.
\<close>

theorem first_commit_kept:
  assumes "steps_distinct tbl" and "r \<in> set tbl" and "st_initialPreStepHead r = Some head"
  shows "steps_distinct (fold (\<lambda>s t. upsertStep t s) ops tbl) \<and>
    (\<exists>r' \<in> set (fold (\<lambda>s t. upsertStep t s) ops tbl). same_step r r' \<and> st_initialPreStepHead r' = Some head)"
  using assms
proof (induction ops arbitrary: tbl r)
  case (Cons s ops)
  have d: "steps_distinct (upsertStep tbl s)" by (rule upsertStep_distinct [OF Cons.prems(1)])
  obtain r1 where r1: "r1 \<in> set (upsertStep tbl s)" "same_step r r1" "st_initialPreStepHead r1 = Some head"
  proof (cases "same_step s r")
    case True
    then have "merge_step r s \<in> set (upsertStep tbl s)"
      using Cons.prems(2) by (auto simp: upsertStep_def list_ex_iff image_iff)
    then show ?thesis using that Cons.prems(3) by (simp add: merge_step_def same_step_def)
  next
    case False
    then show ?thesis using that upsertStep_other [OF False Cons.prems(2)] Cons.prems(3) by (simp add: same_step_def)
  qed
  from Cons.IH [OF d r1(1,3)] show ?case
    using r1(2) by (auto simp: same_step_def)
qed (auto simp: same_step_def)

definition sample_step :: step where
  "sample_step = (createStep ''s1'' ''u1'' ''implement'' 0 ''t'')\<lparr>st_initialPreStepHead := Some ''h''\<rparr>"

theorem first_commit_kept_witness:
  "\<exists>r' \<in> set (fold (\<lambda>s t. upsertStep t s)
      [createStep ''s2'' ''u1'' ''implement'' 0 ''t'', createStep ''s3'' ''u1'' ''implement'' 1 ''v'']
      [sample_step]). same_step sample_step r' \<and> st_initialPreStepHead r' = Some ''h''"
  using first_commit_kept [of "[sample_step]" sample_step "''h''"
      "[createStep ''s2'' ''u1'' ''implement'' 0 ''t'', createStep ''s3'' ''u1'' ''implement'' 1 ''v'']"]
  by (simp add: steps_distinct_def sample_step_def)

end
