(* ===== verification/Operations.thy ===== *)
theory Operations
  imports Effects Run_Store Job_Queue_Props Worker_Lease Worker_Registry Steps_Phases
begin

text \<open>
  The operational database as one state: runs, jobs, leases, workers, steps and phases. A use
  case over it is a program of \<open>Effects\<close> whose every access of a table is one atomic step
  \<open>sql\<close>; before each step the other processes may do what \<open>oe_meanwhile\<close> says. The ports
  the use cases call besides the tables answer by the number of the step.
\<close>

record ops_db =
  od_runs :: run_table
  od_jobs :: job_table
  od_leases :: lease_table
  od_workers :: worker_table
  od_steps :: step_table
  od_phases :: phase_table
  od_polls :: "(ident \<times> time) list"

text \<open>Published events, the run and the type, and the calls made of other ports, by name.\<close>

record ops_state =
  os_db :: ops_db
  os_clock :: nat
  os_events :: "(ident \<times> string) list"
  os_calls :: "string list"

datatype ops_exn =
    Ops_run run_error
  | Ops_runs run_store_error
  | Ops_job job_error
  | Ops_lease lease_error
  | Ops_other string

type_synonym 'a ops = "(ops_state, ops_exn, 'a) prog"

record ops_env =
  oe_now :: "nat \<Rightarrow> time"
  oe_token :: "nat \<Rightarrow> ident"
  oe_meanwhile :: "nat \<Rightarrow> ops_db \<Rightarrow> ops_db"
  oe_jobScope :: "ident option"
  oe_runStore :: run_store
  oe_repos :: "ident \<Rightarrow> repository option"
  oe_publish :: "nat \<Rightarrow> string option"

definition sql :: "ops_env \<Rightarrow> (nat \<Rightarrow> ops_db \<Rightarrow> (ops_exn + 'a) \<times> ops_db) \<Rightarrow> 'a ops" where
  "sql env f s =
     (let n = os_clock s;
          (r, db) = f n (oe_meanwhile env n (os_db s))
      in (r, s\<lparr>os_db := db, os_clock := n + 1\<rparr>))"

definition query :: "ops_env \<Rightarrow> (nat \<Rightarrow> ops_db \<Rightarrow> 'a) \<Rightarrow> 'a ops" where
  "query env f = sql env (\<lambda>n db. (Inr (f n db), db))"

definition attempted :: "'a ops \<Rightarrow> (ops_exn + 'a) ops" where
  "attempted m = catch m (\<lambda>e. Some (Inl e)) Inr"

definition ignoring :: "'a ops \<Rightarrow> unit ops" where
  "ignoring m = catch m (\<lambda>e. Some ()) (\<lambda>_. ())"

section \<open>The statements of the stores\<close>

definition db_runs :: "(run_table \<Rightarrow> 'a \<times> run_table) \<Rightarrow> nat \<Rightarrow> ops_db \<Rightarrow> (ops_exn + 'a) \<times> ops_db" where
  "db_runs f n db = (let (x, t) = f (od_runs db) in (Inr x, db\<lparr>od_runs := t\<rparr>))"

definition cas_run :: "ops_env \<Rightarrow> ident \<Rightarrow> run_patch \<Rightarrow> run_status \<Rightarrow> bool ops" where
  "cas_run env uuid p expected = sql env (db_runs (\<lambda>t. atomicUpdateByUuid t uuid p expected))"

definition find_run_op :: "ops_env \<Rightarrow> ident \<Rightarrow> run_record option ops" where
  "find_run_op env uuid = query env (\<lambda>n db. findRunByUuid (oe_runStore env) (od_runs db) uuid)"

definition enqueue_op :: "ops_env \<Rightarrow> (time \<Rightarrow> job) \<Rightarrow> unit ops" where
  "enqueue_op env mk = sql env (\<lambda>n db.
     case enqueue (\<lambda>r. map_option r_enabled (oe_repos env r)) (od_jobs db) (mk (oe_now env n)) of
       Inl e \<Rightarrow> (Inl (Ops_job e), db)
     | Inr t \<Rightarrow> (Inr (), db\<lparr>od_jobs := t\<rparr>))"

definition acquire_op :: "ops_env \<Rightarrow> ident \<Rightarrow> ident \<Rightarrow> ident \<Rightarrow> int \<Rightarrow> worker_lease ops" where
  "acquire_op env repo worker run ttl = sql env (\<lambda>n db.
     case acquire (od_leases db) repo worker run (oe_now env n) ttl (oe_token env n) of
       Inl e \<Rightarrow> (Inl (Ops_lease e), db)
     | Inr (l, t) \<Rightarrow> (Inr l, db\<lparr>od_leases := t\<rparr>))"

definition release_op :: "ops_env \<Rightarrow> lease_holder \<Rightarrow> unit ops" where
  "release_op env h = sql env (\<lambda>n db.
     case release (od_leases db) h of
       Inl e \<Rightarrow> (Inl (Ops_lease e), db)
     | Inr t \<Rightarrow> (Inr (), db\<lparr>od_leases := t\<rparr>))"

text \<open>\<open>eventBus.publish\<close>; \<open>Some message\<close> of the environment is its exception.\<close>

definition publish :: "ops_env \<Rightarrow> ident \<Rightarrow> string \<Rightarrow> unit ops" where
  "publish env run ty s = (case oe_publish env (os_clock s) of
     Some msg \<Rightarrow> (Inl (Ops_other msg), s)
   | None \<Rightarrow> (Inr (), s\<lparr>os_events := os_events s @ [(run, ty)]\<rparr>))"

definition holder_of :: "worker_lease \<Rightarrow> lease_holder" where
  "holder_of l = \<lparr>lh_repoId = wl_repoId l, lh_workerId = wl_workerId l, lh_runId = wl_runId l,
     lh_leaseToken = wl_leaseToken l\<rparr>"

text \<open>\<open>now()\<close>, and a call of a port other than the tables, during which time passes.\<close>

definition now_op :: "ops_env \<Rightarrow> time ops" where
  "now_op env = ask (\<lambda>s. oe_now env (os_clock s))"

definition port :: "ops_env \<Rightarrow> (nat \<Rightarrow> 'a) \<Rightarrow> 'a ops" where
  "port env f = query env (\<lambda>n db. f n)"

definition act :: "ops_env \<Rightarrow> string \<Rightarrow> (nat \<Rightarrow> 'a) \<Rightarrow> 'a ops" where
  "act env what f = sq (tell (\<lambda>s. s\<lparr>os_calls := os_calls s @ [what]\<rparr>)) (port env f)"

definition update_run :: "ops_env \<Rightarrow> ident \<Rightarrow> run_patch \<Rightarrow> unit ops" where
  "update_run env uuid p = sql env (db_runs (\<lambda>t. ((), updateRun t uuid p)))"

text \<open>\<open>try m finally f\<close>; an exception of \<open>f\<close> replaces the end of \<open>m\<close>.\<close>

definition finishing :: "'a ops \<Rightarrow> unit ops \<Rightarrow> 'a ops" where
  "finishing m f s = (case m s of (r, s') \<Rightarrow>
     case f s' of (Inl e, s'') \<Rightarrow> (Inl e, s'') | (Inr _, s'') \<Rightarrow> (r, s''))"

text \<open>A loop that carries a result.\<close>

fun thread :: "('a \<Rightarrow> 'r \<Rightarrow> 'r ops) \<Rightarrow> 'a list \<Rightarrow> 'r \<Rightarrow> 'r ops" where
  "thread f [] r = ret r"
| "thread f (x # xs) r = bnd (f x r) (thread f xs)"

section \<open>Undisturbed runs\<close>

definition undisturbed :: "ops_env \<Rightarrow> bool" where
  "undisturbed env \<longleftrightarrow> oe_meanwhile env = (\<lambda>_ db. db)"

named_theorems ops_simps \<open>evaluation of undisturbed programs over the database\<close>

lemma sql_alone [ops_simps]:
  "undisturbed env \<Longrightarrow> sql env f s = (fst (f (os_clock s) (os_db s)),
     s\<lparr>os_db := snd (f (os_clock s) (os_db s)), os_clock := os_clock s + 1\<rparr>)"
  by (simp add: sql_def undisturbed_def Let_def split: prod.split)

section \<open>What every step keeps\<close>

text \<open>
  \<open>keeps env I m\<close>: if the other processes keep the property \<open>I\<close> of the database, so does \<open>m\<close>,
  however it ends.
\<close>

definition others_keep :: "ops_env \<Rightarrow> (ops_db \<Rightarrow> bool) \<Rightarrow> bool" where
  "others_keep env I \<longleftrightarrow> (\<forall>n db. I db \<longrightarrow> I (oe_meanwhile env n db))"

abbreviation keeps :: "(ops_db \<Rightarrow> bool) \<Rightarrow> 'a ops \<Rightarrow> bool" where
  "keeps I m \<equiv> yields (\<lambda>s. I (os_db s)) (\<lambda>_. True) (\<lambda>_. True) m"

named_theorems keeps_intros \<open>rules for properties of the database\<close>

lemma others_keep_alone: "undisturbed env \<Longrightarrow> others_keep env I"
  by (simp add: others_keep_def undisturbed_def)

lemma keeps_sql:
  assumes "others_keep env I" and "\<And>n db. I db \<Longrightarrow> I (snd (f n db))"
  shows "keeps I (sql env f)"
proof (rule yieldsI)
  fix s :: ops_state
  assume "I (os_db s)"
  then have "I (snd (f (os_clock s) (oe_meanwhile env (os_clock s) (os_db s))))"
    using assms by (simp add: others_keep_def)
  then show "case sql env f s of (Inr x, s') \<Rightarrow> I (os_db s') \<and> True | (Inl e, s') \<Rightarrow> I (os_db s') \<and> True"
    by (auto simp: sql_def Let_def split: prod.splits sum.splits)
qed

lemma keeps_query [keeps_intros]: "others_keep env I \<Longrightarrow> keeps I (query env f)"
  unfolding query_def by (rule keeps_sql) simp_all

lemma keeps_port [keeps_intros]: "others_keep env I \<Longrightarrow> keeps I (port env f)"
  unfolding port_def by (rule keeps_query)

lemma keeps_now [keeps_intros]: "keeps I (now_op env)"
  unfolding now_op_def by (rule yields_ask) simp

lemma keeps_publish [keeps_intros]: "keeps I (publish env run ty)"
  by (rule yieldsI) (simp add: publish_def split: option.split)

lemma keeps_bnd [keeps_intros]: "keeps I m \<Longrightarrow> (\<And>x. keeps I (k x)) \<Longrightarrow> keeps I (bnd m k)"
  by (rule yields_bnd)

lemma keeps_ret [keeps_intros]: "keeps I (ret x)"
  by (rule yields_ret) simp

lemma keeps_stop [keeps_intros]: "keeps I (stop e)"
  by (rule yields_stop) simp

lemma keeps_sq [keeps_intros]: "keeps I m \<Longrightarrow> keeps I k \<Longrightarrow> keeps I (sq m k)"
  by (rule yields_sq)

lemma keeps_act [keeps_intros]: "others_keep env I \<Longrightarrow> keeps I (act env what f)"
  unfolding act_def by (intro keeps_sq yields_tell keeps_port) simp_all

lemma keeps_if [keeps_intros]: "keeps I m \<Longrightarrow> keeps I k \<Longrightarrow> keeps I (if c then m else k)"
  by simp

lemma keeps_catch [keeps_intros]: "keeps I m \<Longrightarrow> keeps I (catch m h f)"
  by (erule yields_catch) (simp_all split: option.split)

lemma keeps_attempted [keeps_intros]: "keeps I m \<Longrightarrow> keeps I (attempted m)"
  unfolding attempted_def by (rule keeps_catch)

lemma keeps_ignoring [keeps_intros]: "keeps I m \<Longrightarrow> keeps I (ignoring m)"
  unfolding ignoring_def by (rule keeps_catch)

lemma keeps_finishing [keeps_intros]:
  assumes "keeps I m" and "keeps I f"
  shows "keeps I (finishing m f)"
proof (rule yieldsI)
  fix s :: ops_state
  assume "I (os_db s)"
  then have "I (os_db (snd (m s)))" by (rule yields_inv [OF assms(1)])
  from yields_inv [OF assms(2) this]
  show "case finishing m f s of (Inr x, s') \<Rightarrow> I (os_db s') \<and> True | (Inl e, s') \<Rightarrow> I (os_db s') \<and> True"
    by (auto simp: finishing_def split: prod.splits sum.splits)
qed

lemma keeps_thread [keeps_intros]: "(\<And>x r. keeps I (f x r)) \<Longrightarrow> keeps I (thread f xs r)"
  by (induction xs arbitrary: r) (auto intro: keeps_intros)

lemmas keeps_cases = yields_option yields_sum yields_list yields_prod yields_let

lemma keeps_cas_run [keeps_intros]:
  "others_keep env I \<Longrightarrow> (\<And>db b t. I db \<Longrightarrow> atomicUpdateByUuid (od_runs db) uuid p st = (b, t) \<Longrightarrow>
     I (db\<lparr>od_runs := t\<rparr>)) \<Longrightarrow> keeps I (cas_run env uuid p st)"
  unfolding cas_run_def by (rule keeps_sql) (auto simp: db_runs_def split: prod.split)

lemma keeps_update_run [keeps_intros]:
  "others_keep env I \<Longrightarrow> (\<And>db. I db \<Longrightarrow> I (db\<lparr>od_runs := updateRun (od_runs db) uuid p\<rparr>)) \<Longrightarrow>
   keeps I (update_run env uuid p)"
  unfolding update_run_def by (rule keeps_sql) (auto simp: db_runs_def)

lemma keeps_enqueue [keeps_intros]:
  "others_keep env I \<Longrightarrow> (\<And>db j. I db \<Longrightarrow> I (db\<lparr>od_jobs := od_jobs db @ [j]\<rparr>)) \<Longrightarrow>
   keeps I (enqueue_op env mk)"
  unfolding enqueue_op_def by (rule keeps_sql) (auto simp: enqueue_def split: sum.split)

section \<open>No lease is left behind\<close>

text \<open>The holder's lease is not owned, or is among the leases \<open>hs\<close> of the program itself.\<close>

abbreviation only_mine :: "lease_holder \<Rightarrow> lease_holder set \<Rightarrow> ops_db \<Rightarrow> bool" where
  "only_mine h hs db \<equiv> lease_owns (od_leases db) h \<longrightarrow> h \<in> hs"

text \<open>The other processes never acquire the lease of \<open>h\<close>, token included.\<close>

definition never_granted :: "ops_env \<Rightarrow> lease_holder \<Rightarrow> bool" where
  "never_granted env h \<longleftrightarrow> (\<forall>n db. lease_owns (od_leases (oe_meanwhile env n db)) h \<longrightarrow>
     lease_owns (od_leases db) h)"

lemma never_granted_mine: "never_granted env h \<Longrightarrow> others_keep env (only_mine h hs)"
  by (auto simp: never_granted_def others_keep_def)

lemma acquire_mine:
  assumes "never_granted env h"
  shows "triple (\<lambda>s. only_mine h {} (os_db s)) (acquire_op env repo worker run ttl)
    (\<lambda>l s. only_mine h {holder_of l} (os_db s)) (\<lambda>e s. only_mine h {} (os_db s))"
proof (rule tripleI)
  fix s :: ops_state
  let ?n = "os_clock s"
  let ?db = "oe_meanwhile env ?n (os_db s)"
  assume "only_mine h {} (os_db s)"
  then have none: "\<not> lease_owns (od_leases ?db) h"
    using assms by (auto simp: never_granted_def)
  have "h = holder_of l" if acq: "acquire (od_leases ?db) repo worker run (oe_now env ?n) ttl (oe_token env ?n) =
      Inr (l, t)" and own: "lease_owns t h" for l t
  proof -
    have "lease_owns (exec_lease_op (Acquire repo worker run (oe_now env ?n) ttl (oe_token env ?n))
        (od_leases ?db)) h" using acq own by simp
    with none have "h = \<lparr>lh_repoId = repo, lh_workerId = worker, lh_runId = run,
        lh_leaseToken = oe_token env ?n\<rparr>"
      using lease_fence.exec_owns by (fastforce simp: lease_grants_def)
    then show ?thesis
      using acq by (auto simp: acquire_def holder_of_def Let_def split: option.splits if_split_asm)
  qed
  with none show "case acquire_op env repo worker run ttl s of
      (Inr l, s') \<Rightarrow> only_mine h {holder_of l} (os_db s') | (Inl e, s') \<Rightarrow> only_mine h {} (os_db s')"
    by (auto simp: acquire_op_def sql_def Let_def split: sum.splits prod.splits)
qed

lemma release_mine:
  assumes "never_granted env h" and "only_mine h {h'} (os_db s)"
  shows "\<not> lease_owns (od_leases (os_db (snd (ignoring (release_op env h') s)))) h"
proof -
  let ?db = "oe_meanwhile env (os_clock s) (os_db s)"
  have mine: "lease_owns (od_leases ?db) h \<longrightarrow> h = h'"
    using assms by (auto simp: never_granted_def)
  show ?thesis
  proof (cases "release (od_leases ?db) h'")
    case (Inl e)
    then have "\<not> lease_owns (od_leases ?db) h'"
      by (auto simp: release_def lease_owns_def split: option.splits if_split_asm)
    then show ?thesis using mine Inl
      by (auto simp: ignoring_def catch_def release_op_def sql_def Let_def)
  next
    case (Inr t)
    then have "t = (od_leases ?db)(lh_repoId h' := None)"
      by (auto simp: release_def split: option.splits if_split_asm)
    then have "\<not> lease_owns t h" using mine by (auto simp: lease_owns_def)
    then show ?thesis using Inr
      by (auto simp: ignoring_def catch_def release_op_def sql_def Let_def)
  qed
qed

text \<open>A step under a lease of its own.\<close>

lemma under_lease:
  assumes ng: "never_granted env h"
    and m: "\<And>l. keeps (only_mine h {holder_of l}) (m l)"
    and refused: "\<And>e. keeps (only_mine h {}) (k e)"
  shows "keeps (only_mine h {}) (bnd (attempted (acquire_op env repo worker run ttl))
    (\<lambda>got. case got of Inl e \<Rightarrow> k e
       | Inr l \<Rightarrow> finishing (m l) (ignoring (release_op env (holder_of l)))))"
  unfolding yields_def
proof (rule triple_bnd)
  show "triple (\<lambda>s. only_mine h {} (os_db s)) (attempted (acquire_op env repo worker run ttl))
      (\<lambda>got s. only_mine h (case got of Inl _ \<Rightarrow> {} | Inr l \<Rightarrow> {holder_of l}) (os_db s))
      (\<lambda>e s. only_mine h {} (os_db s) \<and> True)"
    unfolding attempted_def
    by (rule triple_catch) (rule triple_weaken [OF acquire_mine [OF ng]], simp_all)
next
  fix got :: "ops_exn + worker_lease"
  show "triple (\<lambda>s. only_mine h (case got of Inl _ \<Rightarrow> {} | Inr l \<Rightarrow> {holder_of l}) (os_db s))
     (case got of Inl e \<Rightarrow> k e | Inr l \<Rightarrow> finishing (m l) (ignoring (release_op env (holder_of l))))
     (\<lambda>x s. only_mine h {} (os_db s) \<and> True) (\<lambda>e s. only_mine h {} (os_db s) \<and> True)"
  proof (cases got)
    case (Inl e)
    then show ?thesis using refused [of e] by (simp add: yields_def)
  next
    case (Inr l)
    show ?thesis
    proof (rule tripleI)
      fix s :: ops_state
      assume "only_mine h (case got of Inl _ \<Rightarrow> {} | Inr l \<Rightarrow> {holder_of l}) (os_db s)"
      then have "only_mine h {holder_of l} (os_db (snd (m l s)))"
        using yields_inv [OF m [of l]] Inr by simp
      then have "\<not> lease_owns (od_leases (os_db (snd (ignoring (release_op env (holder_of l)) (snd (m l s)))))) h"
        by (rule release_mine [OF ng])
      then show "case (case got of Inl e \<Rightarrow> k e
          | Inr l \<Rightarrow> finishing (m l) (ignoring (release_op env (holder_of l)))) s of
          (Inr x, s') \<Rightarrow> only_mine h {} (os_db s') \<and> True | (Inl e, s') \<Rightarrow> only_mine h {} (os_db s') \<and> True"
        using Inr by (auto simp: finishing_def split: prod.splits sum.splits)
    qed
  qed
qed

end
