(* ===== verification/Recovery_Store.thy ===== *)
theory Recovery_Store
  imports Operations
begin

text \<open>
  The transactions of the recovery,
  \<^verbatim>\<open>packages/infrastructure/src/sqlite/operational-recovery-repository.ts\<close>: inspection of a
  repository, reclamation of the claims of a dead worker and of its lease. Lemmas: a reclamation
  is fenced by the lease token it was decided on, and it never takes a live claim of the
  repository it was decided for.
\<close>

section \<open>Operations\<close>

datatype conflict_reason =
    Lease_generation_changed | Claim_generation_changed | Worker_status_changed
  | Job_not_found | Job_already_active

record inspection_result =
  ir_activeLease :: "worker_lease option"
  ir_activeJob :: "job option"

definition inspect :: "ops_db \<Rightarrow> ident \<Rightarrow> time \<Rightarrow> inspection_result" where
  "inspect db repo now =
     \<lparr>ir_activeLease = (case od_leases db repo of
        Some l \<Rightarrow> if wl_expiresAt l > now then Some l else None | None \<Rightarrow> None),
      ir_activeJob = List.find (\<lambda>j. j_repoId j = repo \<and> (j_status j = JClaimed \<or> j_status j = JRunning))
        (od_jobs db)\<rparr>"

text \<open>A job that keeps its repository busy; a claim without an expiry does not.\<close>

definition live_job :: "time \<Rightarrow> job \<Rightarrow> bool" where
  "live_job now j \<longleftrightarrow> j_status j = JQueued \<or>
     (j_status j = JClaimed \<or> j_status j = JRunning) \<and>
       (case j_claimExpiresAt j of None \<Rightarrow> False | Some t \<Rightarrow> t > now)"

definition requeue_columns :: "job \<Rightarrow> job \<Rightarrow> job" where
  "requeue_columns requeued row = row\<lparr>j_status := j_status requeued, j_claimedBy := None,
     j_claimToken := None, j_claimedAt := None, j_claimExpiresAt := None\<rparr>"

fun requeue_rows :: "ident \<Rightarrow> job list \<Rightarrow> job_table \<Rightarrow> job_error + job_table" where
  "requeue_rows run [] tbl = Inr tbl"
| "requeue_rows run (job # jobs) tbl =
     (case resetJobToQueued job of
        Inl e \<Rightarrow> Inl e
      | Inr requeued \<Rightarrow> requeue_rows run jobs
          (map (\<lambda>r. if j_id r = j_id job \<and> j_runId r = run then requeue_columns requeued r else r) tbl))"

text \<open>A transaction that throws changes nothing.\<close>

definition reclaimExpiredClaim ::
  "ops_db \<Rightarrow> ident \<Rightarrow> ident \<Rightarrow> time \<Rightarrow> job_error + conflict_reason option \<times> ops_db" where
  "reclaimExpiredClaim db repo run now =
     (if (case od_leases db repo of None \<Rightarrow> False | Some l \<Rightarrow> wl_expiresAt l > now)
      then Inr (Some Lease_generation_changed, db)
      else if list_ex (\<lambda>j. j_repoId j = repo \<and> live_job now j) (od_jobs db)
      then Inr (Some Job_already_active, db)
      else
        let expired = filter (\<lambda>j. j_runId j = run \<and> (j_status j = JClaimed \<or> j_status j = JRunning)) (od_jobs db)
        in if expired = [] then Inr (Some Job_not_found, db)
           else case requeue_rows run expired (od_jobs db) of
             Inl e \<Rightarrow> Inl e
           | Inr tbl \<Rightarrow> Inr (None, db\<lparr>od_jobs := tbl\<rparr>))"

record reclamation =
  rl_repoId :: ident
  rl_leaseToken :: ident
  rl_workerId :: ident
  rl_runId :: ident
  rl_expectedJob :: "job_ownership option"
  rl_expectedWorkerStatus :: "worker_status option"

definition reclaim_job :: "job_table \<Rightarrow> job_ownership \<Rightarrow> job_error + conflict_reason option \<times> job_table" where
  "reclaim_job tbl owner =
     (case List.find (\<lambda>j. j_id j = o_jobId owner) tbl of
        None \<Rightarrow> Inr (Some Job_not_found, tbl)
      | Some row \<Rightarrow>
          if j_claimedBy row \<noteq> Some (o_workerId owner) \<or> j_claimToken row \<noteq> Some (o_claimToken owner)
          then Inr (Some Claim_generation_changed, tbl)
          else case resetJobToQueued row of
            Inl e \<Rightarrow> Inl e
          | Inr requeued \<Rightarrow> Inr (None, map (\<lambda>r. if j_id r = j_id row \<and>
                j_claimedBy r = Some (o_workerId owner) \<and> j_claimToken r = Some (o_claimToken owner)
              then requeue_columns requeued r else r) tbl))"

definition commitLeaseReclamation ::
  "ops_db \<Rightarrow> reclamation \<Rightarrow> job_error + conflict_reason option \<times> ops_db" where
  "commitLeaseReclamation db inp =
     (case od_leases db (rl_repoId inp) of
        None \<Rightarrow> Inr (Some Lease_generation_changed, db)
      | Some l \<Rightarrow>
        if wl_leaseToken l \<noteq> rl_leaseToken inp \<or> wl_workerId l \<noteq> rl_workerId inp \<or> wl_runId l \<noteq> rl_runId inp
        then Inr (Some Lease_generation_changed, db)
        else case findWorker (od_workers db) (rl_workerId inp) (rl_repoId inp) of
          None \<Rightarrow> Inr (Some Worker_status_changed, db)
        | Some w \<Rightarrow>
          if rl_expectedWorkerStatus inp \<noteq> None \<and> Some (w_status w) \<noteq> rl_expectedWorkerStatus inp
          then Inr (Some Worker_status_changed, db)
          else case (case rl_expectedJob inp of None \<Rightarrow> Inr (None, od_jobs db)
                     | Some owner \<Rightarrow> reclaim_job (od_jobs db) owner) of
            Inl e \<Rightarrow> Inl e
          | Inr (Some reason, _) \<Rightarrow> Inr (Some reason, db)
          | Inr (None, jobs) \<Rightarrow> Inr (None, db\<lparr>od_jobs := jobs,
              od_workers := map (\<lambda>r. if w_id r = rl_workerId inp \<and> w_repoId r = rl_repoId inp
                then r\<lparr>w_status := w_status (markWorkerUnhealthy w)\<rparr> else r) (od_workers db),
              od_leases := (od_leases db)(rl_repoId inp := None)\<rparr>))"

definition reclaim_holder :: "reclamation \<Rightarrow> lease_holder" where
  "reclaim_holder inp = \<lparr>lh_repoId = rl_repoId inp, lh_workerId = rl_workerId inp,
     lh_runId = rl_runId inp, lh_leaseToken = rl_leaseToken inp\<rparr>"

section \<open>A dead worker\<close>

text \<open>A database whose worker died: its lease has expired and its job is still running.\<close>

definition dead_job :: job where
  "dead_job = (createJob \<lparr>ji_id = ''j'', ji_runId = ''run'', ji_repoId = ''repo'', ji_issueNumber = 3,
       ji_priority = None, ji_createdAt = 0, ji_resumeDisposition = None\<rparr>)
     \<lparr>j_status := JRunning, j_claimedBy := Some ''w'', j_claimToken := Some ''ct'',
      j_claimedAt := Some 1, j_startedAt := Some 2, j_claimExpiresAt := Some 10\<rparr>"

definition dead_lease :: worker_lease where
  "dead_lease = \<lparr>wl_repoId = ''repo'', wl_workerId = ''w'', wl_runId = ''run'', wl_acquiredAt = 0,
     wl_heartbeatAt = 5, wl_expiresAt = 10, wl_leaseToken = ''lt''\<rparr>"

definition dead_db :: ops_db where
  "dead_db = \<lparr>od_runs = [], od_jobs = [dead_job], od_leases = Map.empty(''repo'' \<mapsto> dead_lease),
     od_workers = [createWorker ''w'' ''repo'' ''host'' 1 0], od_steps = [], od_phases = [], od_polls = []\<rparr>"

definition dead_reclamation :: reclamation where
  "dead_reclamation = \<lparr>rl_repoId = ''repo'', rl_leaseToken = ''lt'', rl_workerId = ''w'',
     rl_runId = ''run'', rl_expectedJob = None, rl_expectedWorkerStatus = None\<rparr>"

section \<open>What a reclamation changes\<close>

definition requeued :: "job \<Rightarrow> job" where
  "requeued r = r\<lparr>j_status := JQueued, j_claimedBy := None, j_claimToken := None,
     j_claimedAt := None, j_claimExpiresAt := None\<rparr>"

lemma requeue_columns_reset: "resetJobToQueued job = Inr q \<Longrightarrow> requeue_columns q = requeued"
  by (rule ext) (auto simp: resetJobToQueued_def requeue_columns_def requeued_def split: if_splits)

lemma requeued_simps [simp]:
  "j_id (requeued r) = j_id r" "j_runId (requeued r) = j_runId r" "j_repoId (requeued r) = j_repoId r"
  "j_status (requeued r) = JQueued" "j_startedAt (requeued r) = j_startedAt r"
  "requeued (requeued r) = requeued r"
  by (simp_all add: requeued_def)

definition claimed_job :: "job \<Rightarrow> bool" where
  "claimed_job j \<longleftrightarrow> j_status j = JClaimed \<or> j_status j = JRunning"

lemma requeue_rows_done:
  assumes "list_all claimed_job jobs"
  shows "requeue_rows run jobs tbl = Inr (map (\<lambda>r.
    if j_runId r = run \<and> j_id r \<in> j_id ` set jobs then requeued r else r) tbl)"
  using assms
proof (induction jobs arbitrary: tbl)
  case (Cons job jobs)
  then obtain q where "resetJobToQueued job = Inr q"
    by (auto simp: resetJobToQueued_def claimed_job_def)
  with Cons show ?case by (auto simp: requeue_columns_reset intro!: map_cong)
qed simp

text \<open>The reclamation of an expired claim in one equation; it never throws.\<close>

lemma reclaimExpiredClaim_cases:
  assumes "ids_distinct (od_jobs db)"
  shows "reclaimExpiredClaim db repo run now =
    (if \<exists>l. od_leases db repo = Some l \<and> wl_expiresAt l > now
     then Inr (Some Lease_generation_changed, db)
     else if \<exists>j \<in> set (od_jobs db). j_repoId j = repo \<and> live_job now j
     then Inr (Some Job_already_active, db)
     else if \<nexists>j. j \<in> set (od_jobs db) \<and> j_runId j = run \<and> claimed_job j
     then Inr (Some Job_not_found, db)
     else Inr (None, db\<lparr>od_jobs := map (\<lambda>r. if j_runId r = run \<and> claimed_job r then requeued r else r)
       (od_jobs db)\<rparr>))"
proof -
  let ?X = "filter (\<lambda>j. j_runId j = run \<and> claimed_job j) (od_jobs db)"
  have "list_all claimed_job ?X" by (simp add: list_all_iff)
  then have "requeue_rows run ?X (od_jobs db) = Inr (map (\<lambda>r.
    if j_runId r = run \<and> j_id r \<in> j_id ` set ?X then requeued r else r) (od_jobs db))"
    by (rule requeue_rows_done)
  also have "map (\<lambda>r. if j_runId r = run \<and> j_id r \<in> j_id ` set ?X then requeued r else r) (od_jobs db)
    = map (\<lambda>r. if j_runId r = run \<and> claimed_job r then requeued r else r) (od_jobs db)"
    by (rule map_cong [OF refl]) (auto dest: same_row [OF assms])
  finally show ?thesis
    unfolding reclaimExpiredClaim_def claimed_job_def [symmetric]
    by (auto simp: filter_empty_conv list_ex_iff split: option.splits)
qed

text \<open>
  A claim is only reclaimed when it is dead: a committed reclamation of an expired claim
  found no unexpired lease of the repository and no queued job or unexpired claim of it; it
  leaves no claimed or running job of the run, touches no other job, and keeps leases, workers,
  runs, steps and phases.
\<close>

theorem reclaimed_claims_were_dead:
  assumes "ids_distinct (od_jobs db)" and "reclaimExpiredClaim db repo run now = Inr (None, db')"
  shows "(case od_leases db repo of None \<Rightarrow> True | Some l \<Rightarrow> wl_expiresAt l \<le> now) \<and>
    list_all (\<lambda>j. j_repoId j = repo \<longrightarrow> \<not> live_job now j) (od_jobs db) \<and>
    list_all (\<lambda>j. j_runId j = run \<longrightarrow> \<not> claimed_job j) (od_jobs db') \<and>
    od_jobs db' = map (\<lambda>j. if j_runId j = run \<and> claimed_job j then requeued j else j) (od_jobs db) \<and>
    db' = db\<lparr>od_jobs := od_jobs db'\<rparr>"
  using assms(2) unfolding reclaimExpiredClaim_cases [OF assms(1)]
  by (auto simp: list_all_iff claimed_job_def split: if_split_asm option.splits)

theorem reclaimed_claims_were_dead_witness:
  "\<exists>db'. reclaimExpiredClaim dead_db ''repo'' ''run'' 11 = Inr (None, db') \<and>
     od_jobs db' = [requeued dead_job]"
proof -
  have d: "ids_distinct (od_jobs dead_db)" by (simp add: ids_distinct_def dead_db_def)
  obtain db' where r: "reclaimExpiredClaim dead_db ''repo'' ''run'' 11 = Inr (None, db')"
    using reclaimExpiredClaim_cases [OF d, of "''repo''" "''run''" 11]
    by (simp add: dead_db_def dead_job_def dead_lease_def live_job_def claimed_job_def createJob_def)
  from reclaimed_claims_were_dead [OF d r] r show ?thesis
    by (auto simp: dead_db_def dead_job_def claimed_job_def createJob_def)
qed

text \<open>
  The reclamation clears the claim of a running job but not its start date, unlike
  \<open>resetJobToQueued\<close>, so the table is no longer consistent.
\<close>

theorem reclaimed_start_date_stays:
  assumes "table_ok (od_jobs db)" and "reclaimExpiredClaim db repo run now = Inr (None, db')"
    and "j \<in> set (od_jobs db)" and "j_runId j = run" and "j_status j = JRunning"
  shows "requeued j \<in> set (od_jobs db') \<and> \<not> row_ok (requeued j) \<and>
    (\<exists>q. resetJobToQueued j = Inr q \<and> q \<noteq> requeued j)"
proof -
  have d: "ids_distinct (od_jobs db)" and ok: "row_ok j"
    using assms(1,3) by (auto simp: table_ok_def)
  have "j_startedAt j \<noteq> None" using ok assms(5) by (simp add: row_ok_def)
  moreover have "od_jobs db' = map (\<lambda>r. if j_runId r = run \<and> claimed_job r then requeued r else r) (od_jobs db)"
    using assms(2) unfolding reclaimExpiredClaim_cases [OF d] by (auto split: if_split_asm)
  ultimately show ?thesis
    using assms(3-5) by (auto simp: row_ok_def resetJobToQueued_def claimed_job_def requeued_def image_iff job.defs
     dest!: arg_cong [where f = j_startedAt])
qed

theorem reclaimed_start_date_stays_witness:
  "table_ok (od_jobs dead_db) \<and> \<not> row_ok (requeued dead_job)"
proof -
  have ok: "table_ok (od_jobs dead_db)"
    by (simp add: table_ok_def ids_distinct_def dead_db_def dead_job_def row_ok_def createJob_def
      job_settled_def)
  then have d: "ids_distinct (od_jobs dead_db)" by (simp add: table_ok_def)
  obtain db' where r: "reclaimExpiredClaim dead_db ''repo'' ''run'' 11 = Inr (None, db')"
    using reclaimExpiredClaim_cases [OF d, of "''repo''" "''run''" 11]
    by (simp add: dead_db_def dead_job_def dead_lease_def live_job_def claimed_job_def createJob_def)
  from reclaimed_start_date_stays [OF ok r, of dead_job] ok show ?thesis
    by (simp add: dead_db_def dead_job_def createJob_def)
qed

text \<open>
  C33. The reclamation of a lease is fenced: it commits only while the lease is still held by the
  worker, run and token it was decided for; then nobody holds a lease of the repository, and
  whatever happens afterwards without the lost token being granted again, the operations of the
  dead holder have no effect.
\<close>

theorem lease_reclamation_fenced:
  assumes "commitLeaseReclamation db inp = Inr (None, db')"
    and "\<forall>op \<in> set ops. \<not> lease_grants op (reclaim_holder inp)"
  shows "lease_owns (od_leases db) (reclaim_holder inp) \<and>
    od_leases db' = (od_leases db)(rl_repoId inp := None) \<and>
    fold exec_lease_op ops (od_leases db') =
      fold exec_lease_op (filter (\<lambda>op. lease_acting op \<noteq> Some (reclaim_holder inp)) ops) (od_leases db')"
proof -
  have "lease_owns (od_leases db) (reclaim_holder inp)"
    and gone: "od_leases db' = (od_leases db)(rl_repoId inp := None)"
    using assms(1)
    by (auto simp: commitLeaseReclamation_def lease_owns_def lease_matches_def reclaim_holder_def
      split: option.splits if_split_asm sum.splits prod.splits)
  moreover have "\<not> lease_owns (od_leases db') (reclaim_holder inp)"
    by (simp add: gone lease_owns_def reclaim_holder_def)
  ultimately show ?thesis
    using lease_fence.stale_operations_vanish [OF _ assms(2)] by blast
qed

theorem lease_reclamation_fenced_witness:
  "\<exists>db'. commitLeaseReclamation dead_db dead_reclamation = Inr (None, db') \<and>
     fold exec_lease_op [Acquire ''repo'' ''v'' ''run'' 20 5 ''new'', Release (reclaim_holder dead_reclamation)]
       (od_leases db') = fold exec_lease_op [Acquire ''repo'' ''v'' ''run'' 20 5 ''new''] (od_leases db')"
proof -
  obtain db' where r: "commitLeaseReclamation dead_db dead_reclamation = Inr (None, db')"
    by (simp add: commitLeaseReclamation_def dead_db_def dead_reclamation_def dead_lease_def
      findWorker_def createWorker_def)
  from lease_reclamation_fenced [OF r, of "[Acquire ''repo'' ''v'' ''run'' 20 5 ''new'',
      Release (reclaim_holder dead_reclamation)]"]
  show ?thesis using r
    by (auto simp: lease_grants_def lease_acting_def reclaim_holder_def dead_reclamation_def)
qed

end
