(* ===== verification/Sweepers.thy ===== *)
theory Sweepers
  imports Operations Text
begin

text \<open>
  The sweeps over active runs of \<^verbatim>\<open>packages/application/src\<close>: runs whose process died
  (\<^verbatim>\<open>sweep-orphaned-runs.ts\<close>, \<^verbatim>\<open>orphaned-runs-sweeper.ts\<close>) and runs that wait for a review
  (\<^verbatim>\<open>sweep-waiting-runs.ts\<close>, \<^verbatim>\<open>waiting-runs-sweeper.ts\<close>, \<^verbatim>\<open>pr-review/reactivate-on-review.ts\<close>,
  \<^verbatim>\<open>pr-review/apply-reactivation.ts\<close>). Log lines and notifications, which cannot fail, are left
  out. Lemmas: the policy of reactivation, what each sweep leaves of an entry, and what a
  concurrent writer can lose.
\<close>

section \<open>Runs whose process died\<close>

record orphan_entry =
  oen_uuid :: ident
  oen_run :: run_record
  oen_previousPid :: int
  oen_previousStatus :: run_status

definition latest_phase :: "phase list \<Rightarrow> phase option" where
  "latest_phase phases = (case sort_key (\<lambda>p. - the (ph_startedAt p))
        (sort_key (\<lambda>p. - set_opt (ph_completedAt p) 0) (filter (\<lambda>p. ph_startedAt p \<noteq> None) phases)) of
      [] \<Rightarrow> None | p # _ \<Rightarrow> Some p)"

definition inferred_status :: "phase list \<Rightarrow> run_status" where
  "inferred_status phases = (case latest_phase phases of
       None \<Rightarrow> RFailed
     | Some p \<Rightarrow>
         if ph_completedAt p = None then RFailed
         else if ph_status p = PhNeedsHumanReview then RNeedsHumanReview
         else if ph_status p = PhBlocked then RBlocked
         else RFailed)"

definition orphan_reason :: "run_record \<Rightarrow> run_status \<Rightarrow> int \<Rightarrow> string" where
  "orphan_reason run status pid =
     (let reason = ''orphaned: process '' @ show_int pid @ '' no longer running''
      in if status = RBlocked \<or> status = RNeedsHumanReview then set_opt (r_failureReason run) reason
         else reason)"

definition reconcile_run ::
  "ops_env \<Rightarrow> (nat \<Rightarrow> int \<Rightarrow> bool) \<Rightarrow> run_record \<Rightarrow> orphan_entry option ops" where
  "reconcile_run env alive run =
     (if r_status run \<noteq> RRunning then ret None
      else case rr_pid run of
        None \<Rightarrow> ret None
      | Some pid \<Rightarrow>
          bnd (port env (\<lambda>n. alive n pid)) (\<lambda>living.
          if living then ret None
          else bnd (now_op env) (\<lambda>completedAt.
            bnd (query env (\<lambda>n db. listPhases (od_phases db) (r_uuid run))) (\<lambda>phases.
            let status = inferred_status phases;
                reason = orphan_reason run status pid
            in bnd (cas_run env (r_uuid run)
                 (empty_patch\<lparr>rp_status := Some status, rp_completedAt := Some (Some completedAt),
                    rp_failureReason := Some (Some reason), rp_currentPhase := Some None\<rparr>)
                 (r_status run)) (\<lambda>updated.
               ret (if \<not> updated then None
                 else Some \<lparr>oen_uuid = r_uuid run,
                   oen_run = run\<lparr>r_currentPhase := None, r_status := status,
                     r_completedAt := Some completedAt, r_failureReason := Some reason\<rparr>,
                   oen_previousPid = pid, oen_previousStatus = r_status run\<rparr>))))))"

definition collect_orphan ::
  "ops_env \<Rightarrow> (nat \<Rightarrow> int \<Rightarrow> bool) \<Rightarrow> run_record \<Rightarrow> orphan_entry list \<Rightarrow> orphan_entry list ops" where
  "collect_orphan env alive run acc =
     bnd (reconcile_run env alive run) (\<lambda>entry. ret (acc @ (case entry of None \<Rightarrow> [] | Some e \<Rightarrow> [e])))"

text \<open>\<open>scanned\<close> and the entries; \<open>swept\<close> is their number.\<close>

definition sweep_orphaned_runs :: "ops_env \<Rightarrow> (nat \<Rightarrow> int \<Rightarrow> bool) \<Rightarrow> (nat \<times> orphan_entry list) ops" where
  "sweep_orphaned_runs env alive =
     bnd (query env (\<lambda>n db. findActiveRuns (oe_runStore env) (od_runs db))) (\<lambda>runs.
     bnd (thread (collect_orphan env alive) runs []) (\<lambda>entries. ret (length runs, entries)))"

section \<open>Their recovery\<close>

datatype orphan_outcome =
    Orphan_enqueued | Orphan_needs_human | Orphan_changed
  | Orphan_lease_conflict | Orphan_already_queued | Orphan_error ops_exn

record orphan_result =
  orr_scanned :: nat
  orr_enqueued :: nat
  orr_skippedLeaseConflict :: nat
  orr_skippedAlreadyQueued :: nat
  orr_enqueueErrors :: "(ident \<times> ops_exn) list"

definition tally_orphan :: "ident \<Rightarrow> orphan_outcome \<Rightarrow> orphan_result \<Rightarrow> orphan_result" where
  "tally_orphan run out r = (case out of
       Orphan_enqueued \<Rightarrow> r\<lparr>orr_enqueued := orr_enqueued r + 1\<rparr>
     | Orphan_lease_conflict \<Rightarrow> r\<lparr>orr_skippedLeaseConflict := orr_skippedLeaseConflict r + 1\<rparr>
     | Orphan_already_queued \<Rightarrow> r\<lparr>orr_skippedAlreadyQueued := orr_skippedAlreadyQueued r + 1\<rparr>
     | Orphan_error e \<Rightarrow> r\<lparr>orr_enqueueErrors := orr_enqueueErrors r @ [(run, e)]\<rparr>
     | _ \<Rightarrow> r)"

definition clear_to :: "run_status \<Rightarrow> run_patch" where
  "clear_to st = empty_patch\<lparr>rp_status := Some st, rp_completedAt := Some None,
     rp_failureReason := Some None, rp_currentPhase := Some None\<rparr>"

definition restoreRunToPreSweep :: "ops_env \<Rightarrow> orphan_entry \<Rightarrow> unit ops" where
  "restoreRunToPreSweep env entry = ignoring (bnd (cas_run env (oen_uuid entry)
     (clear_to (oen_previousStatus entry)) (r_status (oen_run entry))) (\<lambda>_. ret ()))"

definition restoreRunToPreSweepAtomic :: "ops_env \<Rightarrow> orphan_entry \<Rightarrow> unit ops" where
  "restoreRunToPreSweepAtomic env entry =
     bnd (cas_run env (oen_uuid entry) (clear_to (oen_previousStatus entry)) RRunning) (\<lambda>_. ret ())"

text \<open>A job of a sweep: its id carries the time of the sweep.\<close>

definition sweep_job :: "string \<Rightarrow> time \<Rightarrow> run_record \<Rightarrow> time \<Rightarrow> job" where
  "sweep_job pre stamp run now = createJob \<lparr>ji_id = pre @ r_uuid run @ ''-'' @ show_int stamp,
     ji_runId = r_uuid run, ji_repoId = r_repoId run, ji_issueNumber = r_issueNumber run,
     ji_priority = Some 10, ji_createdAt = now, ji_resumeDisposition = None\<rparr>"

definition lift_run_error :: "run_error + 'a \<Rightarrow> 'a ops" where
  "lift_run_error r = (case r of Inl e \<Rightarrow> stop (Ops_run e) | Inr x \<Rightarrow> ret x)"

text \<open>The body of the \<open>try\<close> under the lease.\<close>

definition recover_orphan :: "ops_env \<Rightarrow> orphan_entry \<Rightarrow> orphan_outcome ops" where
  "recover_orphan env entry =
     (let run = oen_run entry; expected = r_status run
      in if expected = RBlocked \<or> expected = RNeedsHumanReview
         then sq (publish env (r_uuid run) ''orchestrator.run.recovered_from_orphan'')
           (ret Orphan_needs_human)
         else bnd (lift_run_error (resumeRun (run.truncate run) None None)) (\<lambda>next_run.
           bnd (cas_run env (r_uuid run) (clear_to (r_status next_run)) expected) (\<lambda>updated.
           if \<not> updated then ret Orphan_changed
           else bnd (attempted (bnd (now_op env) (\<lambda>stamp.
               sq (publish env (r_uuid run) ''orchestrator.run.recovered_from_orphan'')
                 (enqueue_op env (sweep_job ''orphan-'' stamp run))))) (\<lambda>end.
             case end of
               Inr _ \<Rightarrow> ret Orphan_enqueued
             | Inl e \<Rightarrow> sq (restoreRunToPreSweepAtomic env entry) (stop e)))))"

definition orphan_step :: "ops_env \<Rightarrow> ident set \<Rightarrow> orphan_entry \<Rightarrow> orphan_outcome ops" where
  "orphan_step env active entry =
     (let run = oen_run entry
      in bnd (query env (\<lambda>n db. checkActiveLease (od_leases db) (r_repoId run) (oe_now env n))) (\<lambda>held.
         if held then sq (restoreRunToPreSweep env entry) (ret Orphan_lease_conflict)
         else if r_uuid run \<in> active then sq (restoreRunToPreSweep env entry) (ret Orphan_already_queued)
         else bnd (attempted (acquire_op env (r_repoId run) ''orphan-sweeper'' (r_uuid run) 30000)) (\<lambda>got.
           case got of
             Inl e \<Rightarrow> sq (restoreRunToPreSweep env entry)
               (ret (case e of Ops_lease (WorkerLeaseConflictError _ _) \<Rightarrow> Orphan_lease_conflict
                     | _ \<Rightarrow> Orphan_error e))
           | Inr lease \<Rightarrow> finishing
               (catch (recover_orphan env entry) (\<lambda>e. Some (Orphan_error e)) (\<lambda>out. out))
               (ignoring (release_op env (holder_of lease))))))"

definition sweep_orphans :: "ops_env \<Rightarrow> orphan_entry list \<Rightarrow> orphan_result ops" where
  "sweep_orphans env entries =
     bnd (query env (\<lambda>n db. j_runId ` set (listActive (oe_jobScope env) (od_jobs db)))) (\<lambda>active.
     thread (\<lambda>entry r. bnd (orphan_step env active entry) (\<lambda>out.
         ret (tally_orphan (r_uuid (oen_run entry)) out r))) entries
       \<lparr>orr_scanned = length entries, orr_enqueued = 0, orr_skippedLeaseConflict = 0,
        orr_skippedAlreadyQueued = 0, orr_enqueueErrors = []\<rparr>)"

section \<open>The policy of reactivation\<close>

datatype reactivation_action = Reactivate | Stay_ready | Time_out

definition day_ms :: int where
  "day_ms = 24 * 60 * 60 * 1000"

text \<open>The action and its reason; dates by their \<open>getTime()\<close>.\<close>

definition decideReactivation ::
  "time \<Rightarrow> time \<Rightarrow> int \<Rightarrow> time \<Rightarrow> time \<Rightarrow> reactivation_action \<times> string" where
  "decideReactivation readyAt now readyMaxDays lastSeenActivityAt newestCommentAt =
     (if newestCommentAt > lastSeenActivityAt then (Reactivate, ''new review activity since READY'')
      else if now > readyAt + readyMaxDays * day_ms
      then (Time_out, ''readyMaxDays ('' @ show_int readyMaxDays @ '') exceeded'')
      else (Stay_ready, ''no new activity, within deadline''))"

definition applyReactivation ::
  "ops_env \<Rightarrow> run_record \<Rightarrow> reactivation_action \<times> string \<Rightarrow> unit ops" where
  "applyReactivation env run d = (case fst d of
       Reactivate \<Rightarrow> bnd (lift_run_error (reactivate (run.truncate run))) (\<lambda>next_run.
         sq (update_run env (r_uuid run) (empty_patch\<lparr>rp_status := Some (r_status next_run)\<rparr>))
           (publish env (r_uuid run) ''post-pr-review.run.reactivated''))
     | Time_out \<Rightarrow> bnd (now_op env) (\<lambda>now.
         bnd (lift_run_error (cancelRun (run.truncate run) (Some (snd d)) now)) (\<lambda>next_run.
         sq (update_run env (r_uuid run) (empty_patch\<lparr>rp_status := Some (r_status next_run),
               rp_completedAt := map_option Some (r_completedAt next_run),
               rp_failureReason := (if truthy (r_failureReason next_run)
                 then Some (r_failureReason next_run) else None)\<rparr>))
           (publish env (r_uuid run) ''post-pr-review.run.timed_out'')))
     | Stay_ready \<Rightarrow> ret ())"

text \<open>
  The two functions the composition root passes to the sweep: the start of the server applies
  every decision at once, the worker defers a genuine reactivation to the job it enqueues.
\<close>

definition apply_deferred ::
  "ops_env \<Rightarrow> run_record \<Rightarrow> reactivation_action \<times> string \<Rightarrow> unit ops" where
  "apply_deferred env run d =
     (if fst d = Reactivate \<and> \<not> (has_infix ''PR merged'' (snd d) \<or> has_infix ''PR closed'' (snd d))
      then ret () else applyReactivation env run d)"

section \<open>Runs that wait for a review\<close>

datatype pr_state = Pr_open | Pr_merged | Pr_closed

text \<open>The GitHub calls of the sweep, by the number of the step.\<close>

record review_ports =
  vp_prContext :: "nat \<Rightarrow> run_record \<Rightarrow> string + (string \<times> int) option"
  vp_getPr :: "nat \<Rightarrow> string \<Rightarrow> int \<Rightarrow> string + pr_state"
  vp_comments :: "nat \<Rightarrow> string \<Rightarrow> int \<Rightarrow> string + time list"
  vp_readyMaxDays :: int

datatype waiting_outcome =
    Wait_skipped | Wait_passed | Wait_cancelled | Wait_reactivated string | Wait_timed_out | Wait_stayed

type_synonym sweep_errors = "(ident \<times> string \<times> ops_exn) list"

definition calling :: "string + 'a \<Rightarrow> 'a ops" where
  "calling r = (case r of Inl msg \<Rightarrow> stop (Ops_other msg) | Inr x \<Rightarrow> ret x)"

text \<open>The outermost \<open>catch\<close> of an iteration; an exception of its own event leaves the sweep.\<close>

definition unexpected ::
  "ops_env \<Rightarrow> run_record \<Rightarrow> waiting_outcome option \<times> sweep_errors \<Rightarrow> ops_exn
   \<Rightarrow> (waiting_outcome option \<times> sweep_errors) ops" where
  "unexpected env run sofar e = sq (publish env (r_uuid run) ''post-pr-review.sweep.error'')
     (ret (fst sofar, snd sofar @ [(r_uuid run, '''', e)]))"

definition report ::
  "ops_env \<Rightarrow> run_record \<Rightarrow> string \<Rightarrow> waiting_outcome option \<times> sweep_errors
   \<Rightarrow> (waiting_outcome option \<times> sweep_errors) ops" where
  "report env run ty sofar = bnd (attempted (publish env (r_uuid run) ty)) (\<lambda>r. case r of
       Inr _ \<Rightarrow> ret sofar
     | Inl e \<Rightarrow> unexpected env run sofar e)"

text \<open>A merged or closed PR: back to running, then to the final status unless that changed.\<close>

definition finalize_run ::
  "ops_env \<Rightarrow> (run_record \<Rightarrow> reactivation_action \<times> string \<Rightarrow> unit ops) \<Rightarrow> run_record \<Rightarrow> string
   \<Rightarrow> (time \<Rightarrow> run_patch) \<Rightarrow> string \<Rightarrow> waiting_outcome \<Rightarrow> waiting_outcome option ops" where
  "finalize_run env apply_decision run reason patch ty out =
     sq (apply_decision run (Reactivate, reason))
       (bnd (now_op env) (\<lambda>now. bnd (cas_run env (r_uuid run) (patch now) RRunning) (\<lambda>updated.
          if updated then sq (publish env (r_uuid run) ty) (ret (Some out)) else ret None)))"

definition finalize_or_note ::
  "ops_env \<Rightarrow> run_record \<Rightarrow> string \<Rightarrow> waiting_outcome option ops
   \<Rightarrow> (waiting_outcome option \<times> sweep_errors) ops" where
  "finalize_or_note env run what m = bnd (attempted m) (\<lambda>r. case r of
       Inr out \<Rightarrow> ret (out, [])
     | Inl e \<Rightarrow> ret (None, [(r_uuid run, what, e)]))"

definition latestPollAttempt :: "(ident \<times> time) list \<Rightarrow> ident \<Rightarrow> time option" where
  "latestPollAttempt polls run = map_option snd (List.find (\<lambda>p. fst p = run) (rev polls))"

definition newest_comment :: "time list \<Rightarrow> time \<Rightarrow> time" where
  "newest_comment comments start = foldl (\<lambda>m c. if c > m then c else m) start comments"

definition decide_waiting ::
  "ops_env \<Rightarrow> review_ports \<Rightarrow> (run_record \<Rightarrow> reactivation_action \<times> string \<Rightarrow> unit ops) \<Rightarrow> run_record
   \<Rightarrow> time list \<Rightarrow> (waiting_outcome option \<times> sweep_errors) ops" where
  "decide_waiting env ports apply_decision run comments =
     (let readyAt = set_opt (r_completedAt run) (r_startedAt run)
      in bnd (query env (\<lambda>n db. latestPollAttempt (od_polls db) (r_uuid run))) (\<lambda>attempt.
         bnd (now_op env) (\<lambda>now.
         let d = decideReactivation readyAt now (vp_readyMaxDays ports)
               (set_opt attempt (r_startedAt run)) (newest_comment comments readyAt)
         in bnd (attempted (apply_decision run d)) (\<lambda>r. case r of
              Inr _ \<Rightarrow> ret (Some (case fst d of Reactivate \<Rightarrow> Wait_reactivated (snd d)
                | Time_out \<Rightarrow> Wait_timed_out | Stay_ready \<Rightarrow> Wait_stayed), [])
            | Inl (Ops_run e) \<Rightarrow> report env run ''post-pr-review.sweep.skipped''
                (None, [(r_uuid run, ''concurrent_status_change'', Ops_run e)])
            | Inl e \<Rightarrow> report env run ''post-pr-review.sweep.error''
                (None, [(r_uuid run, ''applyReactivation failed'', e)])))))"

definition waiting_body ::
  "ops_env \<Rightarrow> review_ports \<Rightarrow> (run_record \<Rightarrow> reactivation_action \<times> string \<Rightarrow> unit ops) \<Rightarrow> run_record
   \<Rightarrow> (waiting_outcome option \<times> sweep_errors) ops" where
  "waiting_body env ports apply_decision run =
     bnd (port env (\<lambda>n. vp_prContext ports n run)) (\<lambda>answer. bnd (calling answer) (\<lambda>ctx.
     case ctx of
       None \<Rightarrow> report env run ''post-pr-review.sweep.skipped'' (Some Wait_skipped, [])
     | Some (repo, pr) \<Rightarrow>
         bnd (port env (\<lambda>n. vp_getPr ports n repo pr)) (\<lambda>detail. case detail of
           Inl msg \<Rightarrow> report env run ''post-pr-review.sweep.error''
             (None, [(r_uuid run, ''github.getPr failed'', Ops_other msg)])
         | Inr Pr_merged \<Rightarrow> finalize_or_note env run ''merge handling failed''
             (finalize_run env apply_decision run ''PR merged - finalizing run''
               (\<lambda>now. empty_patch\<lparr>rp_status := Some RPassed, rp_completedAt := Some (Some now)\<rparr>)
               ''post-pr-review.run.passed'' Wait_passed)
         | Inr Pr_closed \<Rightarrow> finalize_or_note env run ''close handling failed''
             (finalize_run env apply_decision run ''PR closed - finalizing run''
               (\<lambda>now. empty_patch\<lparr>rp_status := Some RCancelled, rp_completedAt := Some (Some now),
                  rp_failureReason := Some (Some ''PR closed'')\<rparr>)
               ''post-pr-review.run.cancelled'' Wait_cancelled)
         | Inr Pr_open \<Rightarrow>
             bnd (port env (\<lambda>n. vp_comments ports n repo pr)) (\<lambda>answer. case answer of
               Inl msg \<Rightarrow> report env run ''post-pr-review.sweep.error''
                 (None, [(r_uuid run, ''listReviewComments failed'', Ops_other msg)])
             | Inr comments \<Rightarrow> decide_waiting env ports apply_decision run comments))))"

definition waiting_step ::
  "ops_env \<Rightarrow> review_ports \<Rightarrow> (run_record \<Rightarrow> reactivation_action \<times> string \<Rightarrow> unit ops) \<Rightarrow> run_record
   \<Rightarrow> (waiting_outcome option \<times> sweep_errors) ops" where
  "waiting_step env ports apply_decision run =
     bnd (attempted (waiting_body env ports apply_decision run)) (\<lambda>r. case r of
       Inr x \<Rightarrow> ret x
     | Inl e \<Rightarrow> unexpected env run (None, []) e)"

record waiting_result =
  wr_scanned :: nat
  wr_reactivatedRuns :: "(run_record \<times> string) list"
  wr_timedOut :: nat
  wr_passedOnMergedPr :: nat
  wr_cancelledOnClosedPr :: nat
  wr_stayedReady :: nat
  wr_skipped :: nat
  wr_errors :: sweep_errors

definition tally_waiting ::
  "run_record \<Rightarrow> waiting_outcome option \<times> sweep_errors \<Rightarrow> waiting_result \<Rightarrow> waiting_result" where
  "tally_waiting run out r =
     (case fst out of
        None \<Rightarrow> r
      | Some Wait_skipped \<Rightarrow> r\<lparr>wr_skipped := wr_skipped r + 1\<rparr>
      | Some Wait_passed \<Rightarrow> r\<lparr>wr_passedOnMergedPr := wr_passedOnMergedPr r + 1\<rparr>
      | Some Wait_cancelled \<Rightarrow> r\<lparr>wr_cancelledOnClosedPr := wr_cancelledOnClosedPr r + 1\<rparr>
      | Some (Wait_reactivated reason) \<Rightarrow> r\<lparr>wr_reactivatedRuns := wr_reactivatedRuns r @ [(run, reason)]\<rparr>
      | Some Wait_timed_out \<Rightarrow> r\<lparr>wr_timedOut := wr_timedOut r + 1\<rparr>
      | Some Wait_stayed \<Rightarrow> r\<lparr>wr_stayedReady := wr_stayedReady r + 1\<rparr>)
     \<lparr>wr_scanned := wr_scanned r + 1, wr_errors := wr_errors r @ snd out\<rparr>"

definition sweep_waiting_runs ::
  "ops_env \<Rightarrow> review_ports \<Rightarrow> (run_record \<Rightarrow> reactivation_action \<times> string \<Rightarrow> unit ops) \<Rightarrow> waiting_result ops" where
  "sweep_waiting_runs env ports apply_decision =
     bnd (query env (\<lambda>n db. findActiveRuns (oe_runStore env) (od_runs db))) (\<lambda>runs.
     thread (\<lambda>run r. bnd (waiting_step env ports apply_decision run) (\<lambda>out. ret (tally_waiting run out r)))
       (filter (\<lambda>r. r_status r = RWaiting) runs)
       \<lparr>wr_scanned = 0, wr_reactivatedRuns = [], wr_timedOut = 0, wr_passedOnMergedPr = 0,
        wr_cancelledOnClosedPr = 0, wr_stayedReady = 0, wr_skipped = 0, wr_errors = []\<rparr>)"

section \<open>Their jobs\<close>

text \<open>A whole run given as a patch: what it does not have is absent.\<close>

definition patch_of_record :: "run_record \<Rightarrow> run_patch" where
  "patch_of_record r =
     \<lparr>rp_status = Some (r_status r), rp_currentPhase = map_option Some (r_currentPhase r),
      rp_completedPhases = Some (r_completedPhases r), rp_skippedPhases = Some (r_skippedPhases r),
      rp_completedAt = map_option Some (r_completedAt r),
      rp_failureReason = map_option Some (r_failureReason r), rp_exitCode = rr_exitCode r,
      rp_durationMs = rr_durationMs r, rp_startCommitSha = rr_startCommitSha r,
      rp_baseBranch = r_baseBranch r, rp_pid = rr_pid r, rp_configFingerprint = rr_configFingerprint r,
      rp_configSourcesJson = rr_configSourcesJson r, rp_executionPolicy = r_executionPolicy r,
      rp_pinnedRuntime = map_option Some (r_pinnedRuntime r)\<rparr>"

datatype resume_outcome = Wake_enqueued | Wake_changed | Wake_lease_conflict | Wake_error ops_exn

definition wake_run :: "ops_env \<Rightarrow> run_record \<Rightarrow> resume_outcome ops" where
  "wake_run env run =
     bnd (lift_run_error (reactivate (run.truncate run))) (\<lambda>next_run.
     bnd (cas_run env (r_uuid run) (patch_of_record (run\<lparr>r_status := r_status next_run\<rparr>)) (r_status run))
       (\<lambda>updated.
     if \<not> updated then ret Wake_changed
     else bnd (attempted (sq (publish env (r_uuid run) ''post-pr-review.run.reactivated'')
         (bnd (now_op env) (\<lambda>stamp. enqueue_op env (sweep_job ''sweep-'' stamp run))))) (\<lambda>end.
       case end of
         Inr _ \<Rightarrow> ret Wake_enqueued
       | Inl e \<Rightarrow> bnd (cas_run env (r_uuid run) (patch_of_record run) RRunning) (\<lambda>_.
           sq (ignoring (publish env (r_uuid run) ''post-pr-review.sweep.rollback'')) (stop e)))))"

definition wake_step :: "ops_env \<Rightarrow> ident \<Rightarrow> run_record \<Rightarrow> resume_outcome ops" where
  "wake_step env worker run =
     bnd (attempted (acquire_op env (r_repoId run) worker (r_uuid run) 30000)) (\<lambda>got. case got of
       Inl (Ops_lease (WorkerLeaseConflictError _ _)) \<Rightarrow> ret Wake_lease_conflict
     | Inl e \<Rightarrow> ret (Wake_error e)
     | Inr lease \<Rightarrow> finishing (catch (wake_run env run) (\<lambda>e. Some (Wake_error e)) (\<lambda>out. out))
         (ignoring (release_op env (holder_of lease))))"

text \<open>The result of the sweep and the outcome of each reactivated run, which is what the
  counters of \<open>WaitingRunsSweeperResult\<close> count.\<close>

definition sweep_and_wake ::
  "ops_env \<Rightarrow> review_ports \<Rightarrow> ident \<Rightarrow> (waiting_result \<times> (ident \<times> resume_outcome) list) ops" where
  "sweep_and_wake env ports worker =
     bnd (sweep_waiting_runs env ports (apply_deferred env)) (\<lambda>result.
     bnd (thread (\<lambda>entry acc. bnd (wake_step env worker (fst entry)) (\<lambda>out.
         ret (acc @ [(r_uuid (fst entry), out)]))) (wr_reactivatedRuns result) []) (\<lambda>outs.
     ret (result, outs)))"

end
