(* ===== verification/Sweepers_Props.thy ===== *)
theory Sweepers_Props
  imports Sweepers
begin

text \<open>
  Properties of the sweeps of \<open>Sweepers\<close>: the leases they take are given back whatever the
  other processes and ports do, a run whose process died is never stranded, a failed wake-up
  leaves the run as it was, and an applied decision overwrites what happened meanwhile.
\<close>

section \<open>Leases are given back\<close>

lemma keeps_lift_run_error [keeps_intros]: "keeps I (lift_run_error r)"
  unfolding lift_run_error_def by (auto intro: keeps_intros split: sum.split)

lemma recover_orphan_keeps:
  "others_keep env (only_mine h hs) \<Longrightarrow> keeps (only_mine h hs) (recover_orphan env entry)"
  unfolding recover_orphan_def restoreRunToPreSweepAtomic_def Let_def
  by (rule keeps_intros keeps_cases | assumption | simp)+

lemma wake_run_keeps:
  "others_keep env (only_mine h hs) \<Longrightarrow> keeps (only_mine h hs) (wake_run env run)"
  unfolding wake_run_def
  by (rule keeps_intros keeps_cases | assumption | simp)+

lemma orphan_step_keeps: "never_granted env h \<Longrightarrow> keeps (only_mine h {}) (orphan_step env active entry)"
  unfolding orphan_step_def Let_def restoreRunToPreSweep_def
  by (rule under_lease recover_orphan_keeps keeps_intros keeps_cases never_granted_mine | assumption | simp)+

lemma wake_step_keeps: "never_granted env h \<Longrightarrow> keeps (only_mine h {}) (wake_step env worker run)"
proof -
  assume ng: "never_granted env h"
  have "wake_step env worker run = bnd (attempted (acquire_op env (r_repoId run) worker (r_uuid run) 30000))
    (\<lambda>got. case got of Inl e \<Rightarrow> ret (case e of Ops_lease (WorkerLeaseConflictError _ _) \<Rightarrow> Wake_lease_conflict
        | _ \<Rightarrow> Wake_error e)
     | Inr lease \<Rightarrow> finishing (catch (wake_run env run) (\<lambda>e. Some (Wake_error e)) (\<lambda>out. out))
         (ignoring (release_op env (holder_of lease))))"
    unfolding wake_step_def
    by (rule arg_cong [where f = "bnd _"]) (auto simp: fun_eq_iff split: sum.split ops_exn.split lease_error.split)
  then show ?thesis
    using ng by (simp only:) (rule under_lease wake_run_keeps keeps_intros keeps_cases never_granted_mine | assumption)+
qed

lemma applyReactivation_keeps:
  "others_keep env (only_mine h hs) \<Longrightarrow> keeps (only_mine h hs) (applyReactivation env run d)"
  unfolding applyReactivation_def
  by (cases "fst d"; simp) (rule keeps_intros keeps_cases | assumption | simp)+

lemma apply_deferred_keeps:
  "others_keep env (only_mine h hs) \<Longrightarrow> keeps (only_mine h hs) (apply_deferred env run d)"
  unfolding apply_deferred_def by (rule keeps_intros applyReactivation_keeps | assumption)+

lemma report_keeps: "keeps I (report env run ty sofar)"
  unfolding report_def unexpected_def by (rule keeps_intros keeps_cases)+

lemma calling_keeps: "keeps I (calling r)"
  unfolding calling_def by (rule keeps_intros keeps_cases)+

lemma decide_waiting_keeps:
  assumes "others_keep env I" and "\<And>run d. keeps I (apply_decision run d)"
  shows "keeps I (decide_waiting env ports apply_decision run comments)"
proof -
  have "keeps I (case r of Inr x \<Rightarrow> ret (f x)
      | Inl (Ops_run e) \<Rightarrow> report env run a (g e) | Inl e \<Rightarrow> report env run b (k e))"
    for r :: "ops_exn + unit" and f g a b k
    by (cases r) (auto intro: keeps_intros report_keeps split: ops_exn.split)
  then show ?thesis
    unfolding decide_waiting_def Let_def by (intro keeps_intros assms)
qed

lemma finalize_keeps:
  assumes "others_keep env I" and "\<And>run d. keeps I (apply_decision run d)"
    and "\<And>db b t now. I db \<Longrightarrow> atomicUpdateByUuid (od_runs db) (r_uuid run) (p now) RRunning = (b, t) \<Longrightarrow>
      I (db\<lparr>od_runs := t\<rparr>)"
  shows "keeps I (finalize_or_note env run what (finalize_run env apply_decision run reason p ty out))"
  unfolding finalize_or_note_def finalize_run_def
  by (rule keeps_intros keeps_cases assms | assumption)+

lemma waiting_step_keeps:
  assumes "others_keep env I" and "\<And>run d. keeps I (apply_decision run d)"
    and "\<And>db p b t. I db \<Longrightarrow> atomicUpdateByUuid (od_runs db) (r_uuid run) p RRunning = (b, t) \<Longrightarrow>
      I (db\<lparr>od_runs := t\<rparr>)"
  shows "keeps I (waiting_step env ports apply_decision run)"
proof -
  have "keeps I (case d of Pr_merged \<Rightarrow> finalize_or_note env run b (finalize_run env apply_decision run c p ty out)
      | Pr_closed \<Rightarrow> finalize_or_note env run b' (finalize_run env apply_decision run c' p' ty' out')
      | Pr_open \<Rightarrow> bnd (port env f) (\<lambda>answer. case answer of
          Inl msg \<Rightarrow> report env run a' (x' msg)
        | Inr comments \<Rightarrow> decide_waiting env ports apply_decision run comments))"
    for d b c p ty out b' c' p' ty' out' f a' x'
    by (cases d)
      (auto intro!: keeps_intros report_keeps finalize_keeps decide_waiting_keeps assms
        intro: assms(3) split: pr_state.split sum.split)
  then show ?thesis
    unfolding waiting_step_def waiting_body_def unexpected_def
    by (intro keeps_intros keeps_cases report_keeps calling_keeps assms | assumption)+
qed

lemma sweep_orphans_keeps:
  "never_granted env h \<Longrightarrow> keeps (only_mine h {}) (sweep_orphans env entries)"
  unfolding sweep_orphans_def
  by (intro keeps_intros orphan_step_keeps never_granted_mine)

lemma sweep_and_wake_keeps:
  "never_granted env h \<Longrightarrow> keeps (only_mine h {}) (sweep_and_wake env ports worker)"
  unfolding sweep_and_wake_def sweep_waiting_runs_def
  by (intro keeps_intros waiting_step_keeps apply_deferred_keeps wake_step_keeps never_granted_mine) simp_all

text \<open>
  C35. The sweeps give back every lease they take. Whatever the other processes do to the tables
  between two steps, and however the ports fail, a lease that no one held before the sweep and
  that no other process acquires is held by no one after it.
\<close>

theorem sweeps_give_leases_back:
  assumes "never_granted env h" and "\<not> lease_owns (od_leases (os_db s)) h"
  shows "\<not> lease_owns (od_leases (os_db (snd (sweep_orphans env entries s)))) h \<and>
    \<not> lease_owns (od_leases (os_db (snd (sweep_and_wake env ports worker s)))) h"
  using yields_inv [OF sweep_orphans_keeps [OF assms(1)], of s entries]
    yields_inv [OF sweep_and_wake_keeps [OF assms(1)], of s ports worker] assms(2) by simp

section \<open>No run is stranded\<close>

definition run_is :: "ident \<Rightarrow> run_status \<Rightarrow> ops_db \<Rightarrow> bool" where
  "run_is u st db \<longleftrightarrow> distinct (map r_uuid (od_runs db)) \<and>
     map_option r_status (List.find (\<lambda>r. r_uuid r = u) (od_runs db)) = Some st"

lemma run_is_cas:
  assumes "run_is u st db" and "atomicUpdateByUuid (od_runs db) u p e = (b, t)" and "rp_status p = Some new"
  shows "b = (st = e) \<and> run_is u (if st = e then new else st) (db\<lparr>od_runs := t\<rparr>)"
proof -
  let ?f = "\<lambda>r. if r_uuid r = u \<and> r_status r = e then patch_row p r else r"
  have ne: "p \<noteq> empty_patch" using assms(3) by (auto simp: empty_patch_def)
  have t: "t = map ?f (od_runs db)" and b: "b = list_ex (\<lambda>r. r_uuid r = u \<and> r_status r = e) (od_runs db)"
    using assms(2) ne by (simp_all add: atomicUpdateByUuid_def update_where_def)
  have ids: "map r_uuid t = map r_uuid (od_runs db)" by (simp add: t comp_def patch_row_def)
  obtain r where r: "List.find (\<lambda>r. r_uuid r = u) (od_runs db) = Some r" "r_status r = st"
    using assms(1) by (auto simp: run_is_def)
  have uniq: "r' = r" if "r' \<in> set (od_runs db)" "r_uuid r' = u" for r'
    using that find_SomeD [OF r(1)] assms(1) by (auto simp: run_is_def distinct_map inj_on_def)
  have "b = (st = e)" using uniq find_SomeD [OF r(1)] r(2) by (auto simp: b list_ex_iff)
  moreover have "List.find (\<lambda>r. r_uuid r = u) (map ?f xs) = map_option ?f (List.find (\<lambda>r. r_uuid r = u) xs)"
    for xs by (induction xs) (auto simp: patch_row_def)
  then have "List.find (\<lambda>r. r_uuid r = u) t = Some (?f r)" by (simp add: t r(1))
  moreover have "r_status (?f r) = (if st = e then new else st)"
    using find_SomeD [OF r(1)] r(2) assms(3) by (simp add: patch_row_def set_opt_def)
  ultimately show ?thesis using assms(1) ids by (simp add: run_is_def)
qed

text \<open>The other processes leave the status of the run \<open>u\<close> alone.\<close>

definition status_calm :: "ops_env \<Rightarrow> ident \<Rightarrow> bool" where
  "status_calm env u \<longleftrightarrow> (\<forall>st. others_keep env (run_is u st))"

abbreviation status_in :: "ident \<Rightarrow> run_status \<Rightarrow> ops_state \<Rightarrow> bool" where
  "status_in u st s \<equiv> run_is u st (os_db s)"

lemma run_is_cong: "od_runs db' = od_runs db \<Longrightarrow> run_is u st db' = run_is u st db"
  by (simp add: run_is_def)

lemma triple_of_keeps: "keeps I m \<Longrightarrow> (\<And>e s. I (os_db s) \<Longrightarrow> E e s) \<Longrightarrow> (\<And>x s. I (os_db s) \<Longrightarrow> Q x s) \<Longrightarrow>
    triple (\<lambda>s. I (os_db s)) m Q E"
  unfolding yields_def by (erule triple_weaken) simp_all

lemma triple_cas:
  assumes "status_calm env u" and "rp_status p = Some new"
  shows "triple (status_in u st) (cas_run env u p e)
    (\<lambda>b s. b = (st = e) \<and> status_in u (if st = e then new else st) s) E"
proof (rule tripleI)
  fix s :: ops_state
  let ?db = "oe_meanwhile env (os_clock s) (os_db s)"
  assume "status_in u st s"
  then have now: "run_is u st ?db"
    using assms(1) by (simp add: status_calm_def others_keep_def)
  obtain b t where bt: "atomicUpdateByUuid (od_runs ?db) u p e = (b, t)" by (rule prod.exhaust)
  from run_is_cas [OF now bt assms(2)] bt show "case cas_run env u p e s of
      (Inr b, s') \<Rightarrow> b = (st = e) \<and> status_in u (if st = e then new else st) s' | (Inl x, s') \<Rightarrow> E x s'"
    by (auto simp: cas_run_def sql_def db_runs_def Let_def)
qed

lemma triple_query:
  assumes "others_keep env I"
  shows "triple (\<lambda>s. I (os_db s)) (query env f) (\<lambda>_ s. I (os_db s)) E"
  using assms by (auto intro!: tripleI simp: query_def sql_def Let_def others_keep_def)

lemma calm_keeps [keeps_intros]: "status_calm env u \<Longrightarrow> others_keep env (run_is u st)"
  by (simp add: status_calm_def)

lemma acquire_keeps_status [keeps_intros]:
  "status_calm env u \<Longrightarrow> keeps (run_is u st) (acquire_op env repo w run ttl)"
  unfolding acquire_op_def
  by (rule keeps_sql, erule calm_keeps) (auto simp: run_is_def split: sum.split prod.split)

lemma release_keeps_status [keeps_intros]:
  "status_calm env u \<Longrightarrow> keeps (run_is u st) (release_op env h)"
  unfolding release_op_def
  by (rule keeps_sql, erule calm_keeps) (auto simp: run_is_def split: sum.split)

lemma enqueue_keeps_status [keeps_intros]:
  "status_calm env u \<Longrightarrow> keeps (run_is u st) (enqueue_op env mk)"
  by (rule keeps_enqueue, erule calm_keeps) (auto simp: run_is_def)

lemma triple_sum:
  "(\<And>e. x = Inl e \<Longrightarrow> triple P (m e) Q E) \<Longrightarrow> (\<And>y. x = Inr y \<Longrightarrow> triple P (k y) Q E) \<Longrightarrow>
   triple P (case x of Inl e \<Rightarrow> m e | Inr y \<Rightarrow> k y) Q E"
  by (cases x) auto

lemma triple_ignoring:
  "triple P m (\<lambda>_. R) (\<lambda>_. R) \<Longrightarrow> triple P (ignoring m) (\<lambda>_. R) E"
  unfolding ignoring_def by (rule triple_catch) simp

lemma triple_attempted:
  "triple P m (\<lambda>x. Q (Inr x)) (\<lambda>e. Q (Inl e)) \<Longrightarrow> triple P (attempted m) Q E"
  unfolding attempted_def by (rule triple_catch) simp

lemma triple_finishing:
  assumes "triple P m Q (\<lambda>_ _. False)" and "\<And>x. triple (Q x) f (\<lambda>_. R x) (\<lambda>_ _. False)"
  shows "triple P (finishing m f) R E"
proof (rule tripleI)
  fix s :: ops_state
  assume s: "P s"
  show "case finishing m f s of (Inr x, s') \<Rightarrow> R x s' | (Inl e, s') \<Rightarrow> E e s'"
  proof (cases "m s")
    case (Pair r s1)
    with s assms(1) obtain x where x: "r = Inr x" "Q x s1" by (cases r) (force simp: triple_def)+
    show ?thesis
    proof (cases "f s1")
      case (Pair r2 s2)
      with x(2) assms(2) [of x] obtain y where "r2 = Inr y" "R x s2"
        by (cases r2) (force simp: triple_def)+
      then show ?thesis using \<open>m s = (r, s1)\<close> x(1) Pair by (simp add: finishing_def)
    qed
  qed
qed

text \<open>How the status of the run ends for an entry with the inferred status \<open>st\<close>.\<close>

fun settled_as :: "run_status \<Rightarrow> orphan_outcome \<Rightarrow> run_status \<Rightarrow> bool" where
  "settled_as st Orphan_needs_human final \<longleftrightarrow> final = st \<and> st \<noteq> RFailed"
| "settled_as st (Orphan_error _) final \<longleftrightarrow> final = RRunning \<or> final = st \<and> st \<noteq> RFailed"
| "settled_as st Orphan_changed final \<longleftrightarrow> False"
| "settled_as st _ final \<longleftrightarrow> final = RRunning"

definition entry_of :: "orphan_entry \<Rightarrow> ident \<Rightarrow> run_status \<Rightarrow> bool" where
  "entry_of entry u st \<longleftrightarrow> oen_uuid entry = u \<and> r_uuid (oen_run entry) = u \<and>
     oen_previousStatus entry = RRunning \<and> r_status (oen_run entry) = st \<and>
     st \<in> {RFailed, RBlocked, RNeedsHumanReview}"

lemma restore_status:
  assumes "status_calm env u" and "entry_of entry u st"
  shows "triple (status_in u st) (restoreRunToPreSweep env entry) (\<lambda>_. status_in u RRunning) E"
proof -
  have ids: "oen_uuid entry = u" "oen_previousStatus entry = RRunning" "r_status (oen_run entry) = st"
    using assms(2) by (simp_all add: entry_of_def)
  have "triple (status_in u st) (cas_run env u (clear_to RRunning) st)
    (\<lambda>b. status_in u RRunning) (\<lambda>e. status_in u RRunning)"
    by (rule triple_weaken [OF triple_cas [OF assms(1)]]) (auto simp: clear_to_def)
  then show ?thesis
    unfolding restoreRunToPreSweep_def ids
    by (intro triple_ignoring triple_bnd triple_ret)
qed

lemma resumeRun_failed:
  "r_status run = RFailed \<Longrightarrow> \<exists>n. resumeRun (run.truncate run) None None = Inr n \<and> r_status n = RRunning"
  by (simp add: resumeRun_def canResume_def run.defs)

lemma recover_status:
  assumes calm: "status_calm env u" and e: "entry_of entry u st"
  shows "triple (status_in u st) (recover_orphan env entry)
    (\<lambda>out s. \<exists>final. settled_as st out final \<and> status_in u final s)
    (\<lambda>x s. \<exists>final. settled_as st (Orphan_error x) final \<and> status_in u final s)"
proof -
  have ids: "oen_uuid entry = u" "r_uuid (oen_run entry) = u" "oen_previousStatus entry = RRunning"
      "r_status (oen_run entry) = st" "st = RFailed \<or> st = RBlocked \<or> st = RNeedsHumanReview"
    using e by (auto simp: entry_of_def)
  show ?thesis
  proof (cases "st = RFailed")
    case False
    with ids(5) show ?thesis
      unfolding recover_orphan_def Let_def ids
      by simp (rule triple_sq [where R = "status_in u st"], rule triple_of_keeps [OF keeps_publish],
          auto intro: triple_ret)
  next
    case True
    then obtain n where n: "resumeRun (run.truncate (oen_run entry)) None None = Inr n" "r_status n = RRunning"
      using resumeRun_failed ids(4) by blast
    have cas: "triple (status_in u RFailed) (cas_run env u (clear_to RRunning) RFailed)
        (\<lambda>b s. b \<and> status_in u RRunning s) E" for E
      by (rule triple_weaken [OF triple_cas [OF calm]]) (auto simp: clear_to_def)
    have undo: "triple (status_in u RRunning) (cas_run env u (clear_to RRunning) RRunning)
        (\<lambda>b s. status_in u RRunning s) E" for E
      by (rule triple_weaken [OF triple_cas [OF calm]]) (auto simp: clear_to_def)
    have body: "triple (status_in u RRunning) (attempted (bnd (now_op env) (\<lambda>stamp.
               sq (publish env u ''orchestrator.run.recovered_from_orphan'')
                 (enqueue_op env (sweep_job ''orphan-'' stamp (oen_run entry))))))
        (\<lambda>_. status_in u RRunning) E" for E
      unfolding attempted_def
      by (rule triple_catch, rule triple_of_keeps)
        (auto intro!: keeps_intros intro: enqueue_keeps_status calm)
    have rest: "triple (status_in u RRunning)
        (bnd (attempted (bnd (now_op env) (\<lambda>stamp.
               sq (publish env u ''orchestrator.run.recovered_from_orphan'')
                 (enqueue_op env (sweep_job ''orphan-'' stamp (oen_run entry)))))) (\<lambda>end.
             case end of
               Inr _ \<Rightarrow> ret Orphan_enqueued
             | Inl e \<Rightarrow> sq (bnd (cas_run env u (clear_to RRunning) RRunning) (\<lambda>_. ret ())) (stop e)))
        (\<lambda>out s. \<exists>final. settled_as RFailed out final \<and> status_in u final s)
        (\<lambda>x s. \<exists>final. settled_as RFailed (Orphan_error x) final \<and> status_in u final s)"
    proof (rule triple_bnd [OF body], rule triple_sum)
      show "triple (status_in u RRunning)
          (sq (bnd (cas_run env u (clear_to RRunning) RRunning) (\<lambda>_. ret ())) (stop e))
          (\<lambda>out s. \<exists>final. settled_as RFailed out final \<and> status_in u final s)
          (\<lambda>x s. \<exists>final. settled_as RFailed (Orphan_error x) final \<and> status_in u final s)" for e
        by (rule triple_sq, rule triple_bnd [OF undo], rule triple_ret, assumption) (auto intro: triple_stop)
    qed (auto intro: triple_ret)
    show ?thesis
      unfolding recover_orphan_def restoreRunToPreSweepAtomic_def Let_def ids True lift_run_error_def n
        sum.case bnd_ret
      by (simp only: n run_status.distinct simp_thms if_False)
        (rule triple_bnd [OF cas], rule triple_if, auto intro: triple_pre [OF rest] triple_ret simp del: settled_as.simps)
  qed
qed

lemma orphan_step_status:
  assumes calm: "status_calm env u" and e: "entry_of entry u st"
  shows "triple (status_in u st) (orphan_step env active entry)
    (\<lambda>out s. \<exists>final. settled_as st out final \<and> status_in u final s) (\<lambda>_ _. False)"
proof -
  have restored: "triple (status_in u st) (sq (restoreRunToPreSweep env entry) (ret out))
      (\<lambda>out s. \<exists>final. settled_as st out final \<and> status_in u final s) E"
    if "settled_as st out RRunning" for out E
    by (rule triple_sq [OF restore_status [OF calm e]], rule triple_ret) (use that in blast)
  have under: "triple (status_in u st)
     (finishing (catch (recover_orphan env entry) (\<lambda>e. Some (Orphan_error e)) (\<lambda>out. out))
       (ignoring (release_op env h)))
     (\<lambda>out s. \<exists>final. settled_as st out final \<and> status_in u final s) E" for h E
  proof (rule triple_finishing)
    show "triple (status_in u st) (catch (recover_orphan env entry) (\<lambda>e. Some (Orphan_error e)) (\<lambda>out. out))
        (\<lambda>out s. \<exists>final. settled_as st out final \<and> status_in u final s) (\<lambda>_ _. False)"
      by (rule triple_catch) (simp only: option.case, rule recover_status [OF calm e])
  next
    fix out
    show "triple (\<lambda>s. \<exists>final. settled_as st out final \<and> status_in u final s) (ignoring (release_op env h))
        (\<lambda>_ s. \<exists>final. settled_as st out final \<and> status_in u final s) (\<lambda>_ _. False)"
    proof (rule tripleI)
      fix s :: ops_state
      assume "\<exists>final. settled_as st out final \<and> status_in u final s"
      then obtain final where f: "settled_as st out final" "status_in u final s" by blast
      have "triple (status_in u final) (ignoring (release_op env h)) (\<lambda>_. status_in u final) (\<lambda>_ _. False)"
        by (rule triple_ignoring, rule triple_of_keeps [OF release_keeps_status [OF calm]])
      with f show "case ignoring (release_op env h) s of
          (Inr _, s') \<Rightarrow> \<exists>final. settled_as st out final \<and> status_in u final s' | (Inl _, s') \<Rightarrow> False"
        by (force simp: triple_def split: prod.splits sum.splits)
    qed
  qed
  have acq: "triple (status_in u st) (attempted (acquire_op env repo w run ttl)) (\<lambda>_. status_in u st) E"
    for repo w run ttl E
    unfolding attempted_def
    by (rule triple_catch, rule triple_of_keeps [OF acquire_keeps_status [OF calm]]) simp_all
  have look: "triple (status_in u st) (query env f) (\<lambda>_. status_in u st) E" for E and f :: "nat \<Rightarrow> ops_db \<Rightarrow> bool"
    by (rule triple_query [OF calm_keeps [OF calm]])
  show ?thesis
    unfolding orphan_step_def Let_def
    by (intro triple_bnd [OF look] triple_if triple_bnd [OF acq] triple_sum restored under)
      (auto split: ops_exn.split lease_error.split)
qed

lemma reconcile_status:
  assumes calm: "status_calm env u" and u: "r_uuid run = u"
  shows "triple (status_in u RRunning) (reconcile_run env alive run)
    (\<lambda>found s. case found of None \<Rightarrow> status_in u RRunning s
       | Some entry \<Rightarrow> \<exists>st. entry_of entry u st \<and> status_in u st s) (\<lambda>_ _. False)"
proof -
  have q: "triple (status_in u RRunning) (query env f) (\<lambda>_. status_in u RRunning) E"
    for E and f :: "nat \<Rightarrow> ops_db \<Rightarrow> 'x"
    by (rule triple_query [OF calm_keeps [OF calm]])
  have now: "triple P (now_op env) (\<lambda>_. P) E" for P E
    unfolding now_op_def by (rule triple_ask)
  have inferred: "inferred_status ps \<in> {RFailed, RBlocked, RNeedsHumanReview}" for ps
    by (simp add: inferred_status_def split: option.split)
  have none: "triple (status_in u RRunning) (ret None) (\<lambda>found s. case found of None \<Rightarrow> status_in u RRunning s
       | Some entry \<Rightarrow> \<exists>st. entry_of entry u st \<and> status_in u st s) E" for E
    by (rule triple_ret) simp
  show ?thesis
  proof (cases "r_status run = RRunning")
    case False
    then show ?thesis by (simp add: reconcile_run_def none)
  next
    case True
    show ?thesis
      unfolding reconcile_run_def Let_def u True port_def
      by (cases "rr_pid run"; simp only: option.case simp_thms if_False none)
        (intro triple_bnd [OF q] triple_bnd [OF now] triple_if none
          triple_bnd [OF triple_cas [OF calm]] triple_ret;
         use inferred in \<open>auto simp: entry_of_def u True split: if_splits\<close>)
  qed
qed

definition recover_dead ::
  "ops_env \<Rightarrow> (nat \<Rightarrow> int \<Rightarrow> bool) \<Rightarrow> ident set \<Rightarrow> run_record \<Rightarrow> orphan_outcome option ops" where
  "recover_dead env alive active run = bnd (reconcile_run env alive run) (\<lambda>found. case found of
       None \<Rightarrow> ret None
     | Some entry \<Rightarrow> bnd (orphan_step env active entry) (\<lambda>out. ret (Some out)))"


section \<open>A failed wake-up\<close>

lemma patch_of_record_row [simp]:
  "patch_row (patch_of_record r) r = r"
  "patch_row (patch_of_record (r\<lparr>r_status := st\<rparr>)) r = r\<lparr>r_status := st\<rparr>"
  "patch_row (patch_of_record r) (r\<lparr>r_status := st\<rparr>) = r"
  by (cases r; auto simp: patch_row_def patch_of_record_def set_opt_def split: option.split)+

lemma patch_of_record_nonempty [simp]: "patch_of_record r \<noteq> empty_patch"
  by (simp add: patch_of_record_def empty_patch_def)

lemma wake_first:
  assumes "distinct (map r_uuid t)" and "run \<in> set t"
    and "atomicUpdateByUuid t (r_uuid run) (patch_of_record (run\<lparr>r_status := st\<rparr>)) (r_status run) = (b, t1)"
  shows "b \<and> t1 = map (\<lambda>x. if r_uuid x = r_uuid run then run\<lparr>r_status := st\<rparr> else x) t"
proof -
  have uniq: "r = run" if "r \<in> set t" "r_uuid r = r_uuid run" for r
    using that assms(1,2) by (auto simp: distinct_map inj_on_def)
  have "b" and "t1 = map (\<lambda>r. if r_uuid r = r_uuid run \<and> r_status r = r_status run
      then patch_row (patch_of_record (run\<lparr>r_status := st\<rparr>)) r else r) t"
    using assms(2,3) by (auto simp: atomicUpdateByUuid_def update_where_def list_ex_iff)
  moreover have "map (\<lambda>r. if r_uuid r = r_uuid run \<and> r_status r = r_status run
      then patch_row (patch_of_record (run\<lparr>r_status := st\<rparr>)) r else r) t =
    map (\<lambda>r. if r_uuid r = r_uuid run then run\<lparr>r_status := st\<rparr> else r) t"
  proof (rule map_cong [OF refl])
    fix x assume "x \<in> set t"
    then show "(if r_uuid x = r_uuid run \<and> r_status x = r_status run
        then patch_row (patch_of_record (run\<lparr>r_status := st\<rparr>)) x else x) =
      (if r_uuid x = r_uuid run then run\<lparr>r_status := st\<rparr> else x)"
      using uniq [of x] by (cases "x = run") auto
  qed
  ultimately show ?thesis by simp
qed

lemma wake_undone:
  assumes "distinct (map r_uuid t)" and "run \<in> set t"
    and "atomicUpdateByUuid t (r_uuid run) (patch_of_record (run\<lparr>r_status := st\<rparr>)) (r_status run) = (True, t1)"
  shows "atomicUpdateByUuid t1 (r_uuid run) (patch_of_record run) st = (True, t)"
proof -
  have uniq: "r = run" if "r \<in> set t" "r_uuid r = r_uuid run" for r
    using that assms(1,2) by (auto simp: distinct_map inj_on_def)
  have t1: "t1 = map (\<lambda>r. if r_uuid r = r_uuid run then run\<lparr>r_status := st\<rparr> else r) t"
    using wake_first [OF assms] by simp
  have "run\<lparr>r_status := st\<rparr> \<in> set t1"
    using assms(2) by (auto simp: t1 intro!: image_eqI [of _ _ run])
  then have "list_ex (\<lambda>r. r_uuid r = r_uuid run \<and> r_status r = st) t1"
    unfolding list_ex_iff by (rule bexI [rotated]) simp
  moreover have "map (\<lambda>r. if r_uuid r = r_uuid run \<and> r_status r = st then patch_row (patch_of_record run) r else r) t1 = t"
    unfolding t1 map_map by (rule map_idI) (auto dest: uniq)
  ultimately show ?thesis by (simp add: atomicUpdateByUuid_def update_where_def)
qed

lemma reactivate_record:
  "reactivate (run.truncate run) = Inr n \<Longrightarrow> r_status run = RWaiting \<and> r_status n = RRunning"
  by (auto simp: reactivate_def run.defs split: if_splits option.splits)

lemma wake_run_cases:
  assumes alone: "undisturbed env" and d: "distinct (map r_uuid (od_runs (os_db s)))"
    and mem: "run \<in> set (od_runs (os_db s))" and w: "wake_run env run s = (r, s')"
  shows "od_leases (os_db s') = od_leases (os_db s) \<and>
    (case r of
       Inl _ \<Rightarrow> od_runs (os_db s') = od_runs (os_db s) \<and> od_jobs (os_db s') = od_jobs (os_db s)
     | Inr out \<Rightarrow> out = Wake_enqueued \<and> r_status run = RWaiting \<and>
         od_runs (os_db s') = map (\<lambda>x. if r_uuid x = r_uuid run then run\<lparr>r_status := RRunning\<rparr> else x)
           (od_runs (os_db s)) \<and>
         (\<exists>stamp now. od_jobs (os_db s') = od_jobs (os_db s) @ [sweep_job ''sweep-'' stamp run now]))"
proof (cases "reactivate (run.truncate run)")
  case (Inl e)
  then show ?thesis using w by (auto simp: wake_run_def lift_run_error_def bnd_run stop_run)
next
  case (Inr n)
  let ?t = "od_runs (os_db s)" and ?p = "patch_of_record (run\<lparr>r_status := RRunning\<rparr>)"
  from reactivate_record [OF Inr] have st: "r_status run = RWaiting" "r_status n = RRunning" by auto
  obtain b t1 where cas: "atomicUpdateByUuid ?t (r_uuid run) ?p RWaiting = (b, t1)" by (rule prod.exhaust)
  from wake_first [OF d mem, of RRunning b t1] cas st(1)
  have b: "b" and t1: "t1 = map (\<lambda>x. if r_uuid x = r_uuid run then run\<lparr>r_status := RRunning\<rparr> else x) ?t" by auto
  have undo: "atomicUpdateByUuid t1 (r_uuid run) (patch_of_record run) RRunning = (True, ?t)"
    using wake_undone [OF d mem, of RRunning t1] cas b st(1) by simp
  note eval = wake_run_def lift_run_error_def cas_run_def db_runs_def Inr st sql_alone [OF alone]
    cas b bnd_run sq_run ret_run stop_run attempted_def catch_def ignoring_def now_op_def ask_run
    publish_def enqueue_op_def undo
  have "od_leases (os_db s') = od_leases (os_db s) \<and>
    (case r of
       Inl _ \<Rightarrow> od_runs (os_db s') = ?t \<and> od_jobs (os_db s') = od_jobs (os_db s)
     | Inr out \<Rightarrow> out = Wake_enqueued \<and> od_runs (os_db s') = t1 \<and>
         (\<exists>stamp now. od_jobs (os_db s') = od_jobs (os_db s) @ [sweep_job ''sweep-'' stamp run now]))"
  proof (cases "oe_publish env (Suc (os_clock s))")
    case (Some msg)
    then show ?thesis using w by (auto simp: eval split: option.splits)
  next
    case None
    then show ?thesis using w by (auto simp: eval enqueue_def split: option.splits if_splits) blast
  qed
  then show ?thesis using st t1 by (simp split: sum.splits)
qed

text \<open>
  A wake-up that fails leaves no trace. When the job of a reactivated run cannot be
  announced or enqueued, or the lease is taken, and no other process interferes, the sweep
  leaves runs and jobs exactly as they were; when it succeeds, the run is running and its job is
  queued at the end of the table, and nothing else has changed.
\<close>

theorem failed_wake_leaves_no_trace:
  assumes "undisturbed env" and "distinct (map r_uuid (od_runs (os_db s)))"
    and "run \<in> set (od_runs (os_db s))" and "wake_step env worker run s = (r, s')"
  shows "\<exists>out. r = Inr out \<and>
    (case out of
       Wake_enqueued \<Rightarrow> r_status run = RWaiting \<and>
         od_runs (os_db s') = map (\<lambda>x. if r_uuid x = r_uuid run then run\<lparr>r_status := RRunning\<rparr> else x)
           (od_runs (os_db s)) \<and>
         (\<exists>stamp now. od_jobs (os_db s') = od_jobs (os_db s) @ [sweep_job ''sweep-'' stamp run now])
     | _ \<Rightarrow> od_runs (os_db s') = od_runs (os_db s) \<and> od_jobs (os_db s') = od_jobs (os_db s))"
proof -
  let ?acq = "acquire (od_leases (os_db s)) (r_repoId run) worker (r_uuid run) (oe_now env (os_clock s))
      30000 (oe_token env (os_clock s))"
  have rel: "od_runs (os_db (snd (ignoring (release_op env h) x))) = od_runs (os_db x) \<and>
      od_jobs (os_db (snd (ignoring (release_op env h) x))) = od_jobs (os_db x) \<and>
      fst (ignoring (release_op env h) x) = Inr ()" for h x
    by (auto simp: ignoring_def catch_def release_op_def sql_alone [OF assms(1)] split: sum.split)
  show ?thesis
  proof (cases ?acq)
    case (Inl e)
    then show ?thesis
      using assms(4)
      by (auto simp: wake_step_def bnd_run attempted_def catch_def acquire_op_def sql_alone [OF assms(1)]
        ret_run split: ops_exn.splits lease_error.splits)
  next
    case (Inr got)
    obtain l tbl where lt: "got = (l, tbl)" by (rule prod.exhaust)
    define s1 where "s1 = s\<lparr>os_db := os_db s\<lparr>od_leases := tbl\<rparr>, os_clock := Suc (os_clock s)\<rparr>"
    obtain r2 s2 where w: "wake_run env run s1 = (r2, s2)" by (rule prod.exhaust)
    have "r = Inr (case r2 of Inl e \<Rightarrow> Wake_error e | Inr out \<Rightarrow> out) \<and>
        s' = snd (ignoring (release_op env (holder_of l)) s2)"
      using assms(4) Inr lt w rel [of "holder_of l" s2]
      by (auto simp: wake_step_def bnd_run attempted_def catch_def acquire_op_def sql_alone [OF assms(1)]
        finishing_def s1_def split: sum.splits prod.splits)
    moreover have "distinct (map r_uuid (od_runs (os_db s1)))" "run \<in> set (od_runs (os_db s1))"
      using assms(2,3) by (simp_all add: s1_def)
    note wake_run_cases [OF assms(1) this w]
    ultimately show ?thesis
      using rel [of "holder_of l" s2] by (cases r2) (auto simp: s1_def)
  qed
qed

section \<open>Decisions on a stale run\<close>

lemma run_is_update:
  assumes "run_is u st db" and "rp_status p = Some new"
  shows "run_is u new (db\<lparr>od_runs := updateRun (od_runs db) u p\<rparr>)"
proof -
  have ne: "p \<noteq> empty_patch" using assms(2) by (auto simp: empty_patch_def)
  let ?f = "\<lambda>r. if r_uuid r = u then patch_row p r else r"
  have find: "List.find (\<lambda>r. r_uuid r = u) (map ?f xs) = map_option ?f (List.find (\<lambda>r. r_uuid r = u) xs)"
    for xs by (induction xs) simp_all
  have ids: "map r_uuid (map ?f xs) = map r_uuid xs" for xs
    by (simp add: comp_def)
  obtain r where r: "List.find (\<lambda>r. r_uuid r = u) (od_runs db) = Some r"
    using assms(1) by (auto simp: run_is_def)
  then have "r_uuid r = u" by (auto dest: find_SomeD)
  moreover have "r_status (patch_row p r) = new" by (simp add: patch_row_def assms(2) set_opt_def)
  moreover have "updateRun (od_runs db) u p = map ?f (od_runs db)" using ne by (simp add: updateRun_def)
  ultimately show ?thesis
    using assms(1) ids [of "od_runs db"] by (simp add: run_is_def find r del: map_map)
qed

text \<open>
  A decision of the sweep is written without a guard. Whatever the status of the run is when
  the decision is applied, cancelled or passed included, reactivating the run as the sweep read
  it sets it to running, and timing it out sets it to cancelled.
\<close>

theorem stale_decision_overwrites:
  assumes "status_calm env u" and "run_is u st (os_db s)" and "r_uuid run = u"
    and "r_status run = RWaiting" and "r_currentPhase run = None"
  shows "run_is u RRunning (os_db (snd (applyReactivation env run (Reactivate, reason) s))) \<and>
    run_is u RCancelled (os_db (snd (applyReactivation env run (Time_out, reason) s)))"
proof -
  have now: "run_is u st (oe_meanwhile env (os_clock s) (os_db s))"
    using assms(1,2) by (simp add: status_calm_def others_keep_def)
  have "\<exists>n. reactivate (run.truncate run) = Inr n \<and> r_status n = RRunning"
    using assms(4,5) by (simp add: reactivate_def run.defs)
  moreover have "\<exists>n. cancelRun (run.truncate run) (Some reason) t = Inr n \<and> r_status n = RCancelled" for t
    using assms(4,5) by (simp add: cancelRun_def run.defs terminal_statuses_def)
  moreover have "run_is u new (os_db (snd (sq (update_run env u p) (publish env u ty) s)))"
    if "rp_status p = Some new" for p new ty
    using run_is_update [OF now that]
    by (simp add: sq_run update_run_def sql_def db_runs_def Let_def publish_def split: option.split)
  moreover obtain m where "cancelRun (run.truncate run) (Some reason) (oe_now env (os_clock s)) = Inr m"
      "r_status m = RCancelled" using calculation(2) by blast
  ultimately show ?thesis
    using assms(3)
    by (auto simp: applyReactivation_def lift_run_error_def now_op_def bnd_run ask_run ret_run)
qed

section \<open>A sample\<close>

definition quiet_env :: ops_env where
  "quiet_env = \<lparr>oe_now = (\<lambda>n. int n), oe_token = (\<lambda>n. show_nat n), oe_meanwhile = (\<lambda>_ db. db),
     oe_jobScope = None, oe_runStore = sample_store, oe_repos = (\<lambda>_. None), oe_publish = (\<lambda>_. None)\<rparr>"

definition quiet_state :: "run_record \<Rightarrow> ops_state" where
  "quiet_state r = \<lparr>os_db = \<lparr>od_runs = [r], od_jobs = [], od_leases = Map.empty, od_workers = [],
     od_steps = [], od_phases = [], od_polls = []\<rparr>, os_clock = 0, os_events = [], os_calls = []\<rparr>"

lemma quiet_alone: "undisturbed quiet_env"
  by (simp add: undisturbed_def quiet_env_def)

lemma quiet_calm: "status_calm quiet_env u"
  by (simp add: status_calm_def others_keep_alone quiet_alone)

lemma quiet_run_is: "run_is (r_uuid r) (r_status r) (os_db (quiet_state r))"
  by (simp add: run_is_def quiet_state_def)

theorem sweeps_give_leases_back_witness:
  "\<not> lease_owns (od_leases (os_db (snd (sweep_orphans quiet_env [] (quiet_state (sample_row ''u'' RRunning))))))
     \<lparr>lh_repoId = ''repo'', lh_workerId = ''orphan-sweeper'', lh_runId = ''u'', lh_leaseToken = ''1''\<rparr>"
  using sweeps_give_leases_back [of quiet_env "\<lparr>lh_repoId = ''repo'', lh_workerId = ''orphan-sweeper'',
      lh_runId = ''u'', lh_leaseToken = ''1''\<rparr>" "quiet_state (sample_row ''u'' RRunning)" "[]"]
  by (simp add: never_granted_def quiet_env_def lease_owns_def quiet_state_def)


theorem failed_wake_leaves_no_trace_witness:
  "\<exists>out s'. wake_step quiet_env ''w'' (sample_row ''u'' RWaiting) (quiet_state (sample_row ''u'' RWaiting)) =
       (Inr out, s') \<and> (od_jobs (os_db s') = [] \<or> out = Wake_enqueued)"
proof -
  let ?run = "sample_row ''u'' RWaiting"
  obtain r s' where eq: "wake_step quiet_env ''w'' ?run (quiet_state ?run) = (r, s')" by (rule prod.exhaust)
  have "distinct (map r_uuid (od_runs (os_db (quiet_state ?run))))" "?run \<in> set (od_runs (os_db (quiet_state ?run)))"
    by (simp_all add: quiet_state_def)
  note ends = failed_wake_leaves_no_trace [OF quiet_alone this eq]
  then obtain out where out: "r = Inr out" by blast
  with ends have "od_jobs (os_db s') = [] \<or> out = Wake_enqueued"
    by (cases out) (simp_all add: quiet_state_def)
  with eq out show ?thesis by auto
qed

theorem stale_decision_overwrites_witness:
  "run_is ''u'' RRunning (os_db (snd (applyReactivation quiet_env (sample_row ''u'' RWaiting)
     (Reactivate, ''late comment'') (quiet_state (sample_row ''u'' RCancelled)))))"
proof -
  have "run_is ''u'' RCancelled (os_db (quiet_state (sample_row ''u'' RCancelled)))"
    using quiet_run_is [of "sample_row ''u'' RCancelled"]
    by (simp add: sample_row_def record_of_run_def run.defs run_record.defs)
  from stale_decision_overwrites [OF quiet_calm this, of "sample_row ''u'' RWaiting" "''late comment''"]
  show ?thesis by (simp add: sample_row_def record_of_run_def run.defs run_record.defs)
qed

end
