(* ===== verification/Run_Control.thy ===== *)
theory Run_Control
  imports Sweepers
begin

text \<open>
  The commands of the operator on a run: \<^verbatim>\<open>packages/application/src/cancel-run.ts\<close>,
  \<^verbatim>\<open>resume-run.ts\<close> and \<^verbatim>\<open>retry-failed-phase.ts\<close>, as programs over the tables. The abort of the
  agent, git and the inspection of the worktree answer by the number of the step; a write of
  steps or phases fails where \<open>su_dbError\<close> says. Error texts are shortened; log lines are left out.
\<close>

section \<open>Cancelling\<close>

datatype abort_status = Ab_exited | Ab_timed_out | Ab_not_found

text \<open>\<open>cp_abort\<close> may answer without a status; the left summands are exceptions.\<close>

record cancel_ports =
  cp_abort :: "nat \<Rightarrow> string + abort_status option"
  cp_unregister :: "nat \<Rightarrow> string + unit"
  cp_findCwd :: "nat \<Rightarrow> string + string"
  cp_headCommitShaOf :: "nat \<Rightarrow> string \<Rightarrow> string + string option"
  cp_headCommitSha :: "nat \<Rightarrow> string \<Rightarrow> string + string"
  cp_resetHard :: "nat \<Rightarrow> string \<Rightarrow> string \<Rightarrow> string + unit"
  cp_cleanUntracked :: "nat \<Rightarrow> string \<Rightarrow> string + unit"

record cancel_result =
  cr_runId :: ident
  cr_status :: run_status
  cr_abortStatus :: abort_status
  cr_worktreeReset :: bool
  cr_branchSha :: "string option"

definition acting :: "ops_env \<Rightarrow> string \<Rightarrow> (nat \<Rightarrow> string + 'a) \<Rightarrow> 'a ops" where
  "acting env what f = bnd (act env what f) calling"

definition job_owner :: "job \<Rightarrow> job_ownership option" where
  "job_owner job =
     (if truthy (j_claimedBy job) \<and> truthy (j_claimToken job)
      then Some \<lparr>o_jobId = j_id job, o_workerId = the (j_claimedBy job), o_claimToken = the (j_claimToken job)\<rparr>
      else None)"

definition cancel_job :: "ops_env \<Rightarrow> ident \<Rightarrow> job \<Rightarrow> unit ops" where
  "cancel_job env run job = ignoring (bnd (sql env (\<lambda>n db.
       case reconcileTerminalJob (oe_jobScope env) (od_jobs db)
           \<lparr>rc_jobId = j_id job, rc_targetStatus = JCancelled, rc_now = oe_now env n,
            rc_expectedStatus = None, rc_owner = job_owner job\<rparr> of
         Inl e \<Rightarrow> (Inl (Ops_job e), db)
       | Inr (reconciled, _, tbl) \<Rightarrow> (Inr reconciled, db\<lparr>od_jobs := tbl\<rparr>)))
     (\<lambda>reconciled. only_if reconciled (publish env run ''job.reconciled'')))"

definition open_job :: "job \<Rightarrow> bool" where
  "open_job j \<longleftrightarrow> j_status j = JQueued \<or> j_status j = JClaimed \<or> j_status j = JRunning"

definition cancel_jobs :: "ops_env \<Rightarrow> ident \<Rightarrow> unit ops" where
  "cancel_jobs env run = ignoring (bnd (query env (\<lambda>n db.
       filter open_job (listForRun (oe_jobScope env) (od_jobs db) run))) (each (cancel_job env run)))"

definition abort_agent :: "ops_env \<Rightarrow> cancel_ports \<Rightarrow> abort_status ops" where
  "abort_agent env ports =
     bnd (attempted (acting env ''abort'' (cp_abort ports))) (\<lambda>r.
     sq (ignoring (acting env ''unregister'' (cp_unregister ports)))
       (ret (case r of Inl _ \<Rightarrow> Ab_not_found | Inr None \<Rightarrow> Ab_exited | Inr (Some st) \<Rightarrow> st)))"

text \<open>Whether the worktree was reset, and the commit it was reset to.\<close>

definition reset_worktree :: "ops_env \<Rightarrow> cancel_ports \<Rightarrow> (bool \<times> string option) ops" where
  "reset_worktree env ports =
     bnd (attempted (bnd (acting env ''findCwd'' (cp_findCwd ports)) (\<lambda>cwd.
       bnd (acting env ''headCommitShaOf'' (\<lambda>n. cp_headCommitShaOf ports n cwd)) (\<lambda>sha. case sha of
         Some s \<Rightarrow> ret (cwd, s)
       | None \<Rightarrow> bnd (acting env ''headCommitSha'' (\<lambda>n. cp_headCommitSha ports n cwd)) (\<lambda>s. ret (cwd, s))))))
     (\<lambda>r. case r of
       Inl _ \<Rightarrow> ret (False, None)
     | Inr (cwd, s) \<Rightarrow>
         bnd (attempted (sq (only_if (s \<noteq> []) (acting env ''resetHard'' (\<lambda>n. cp_resetHard ports n cwd s)))
           (acting env ''cleanUntracked'' (\<lambda>n. cp_cleanUntracked ports n cwd)))) (\<lambda>r. ret (ok r, Some s)))"

definition release_lease_of :: "ops_env \<Rightarrow> run_record \<Rightarrow> unit ops" where
  "release_lease_of env run = ignoring (bnd (query env (\<lambda>n db. current (od_leases db) (r_repoId run)))
     (\<lambda>lease. case lease of
        None \<Rightarrow> ret ()
      | Some l \<Rightarrow> if wl_runId l \<noteq> r_uuid run then ret () else release_op env
          \<lparr>lh_repoId = r_repoId run, lh_workerId = wl_workerId l, lh_runId = wl_runId l,
           lh_leaseToken = wl_leaseToken l\<rparr>))"

definition cancel_patch :: "run \<Rightarrow> run_patch" where
  "cancel_patch cancelled = empty_patch\<lparr>rp_status := Some (r_status cancelled),
     rp_completedAt := Some (r_completedAt cancelled), rp_currentPhase := Some None,
     rp_failureReason := (if truthy (r_failureReason cancelled) then Some (r_failureReason cancelled) else None)\<rparr>"

text \<open>What follows the compare-and-set; none of it throws.\<close>

definition cancel_rest :: "ops_env \<Rightarrow> cancel_ports \<Rightarrow> run_record \<Rightarrow> run \<Rightarrow> ident \<Rightarrow> cancel_result ops" where
  "cancel_rest env ports run cancelled uuid =
     sq (cancel_jobs env uuid)
       (bnd (abort_agent env ports) (\<lambda>aborted.
        bnd (if aborted = Ab_timed_out then ret (False, None) else reset_worktree env ports) (\<lambda>(reset, sha).
        sq (release_lease_of env run)
          (ret \<lparr>cr_runId = uuid, cr_status = r_status cancelled, cr_abortStatus = aborted,
            cr_worktreeReset = reset, cr_branchSha = sha\<rparr>))))"

definition cancel_run :: "ops_env \<Rightarrow> cancel_ports \<Rightarrow> ident \<Rightarrow> string option \<Rightarrow> cancel_result ops" where
  "cancel_run env ports uuid reason =
     bnd (find_run_op env uuid) (\<lambda>found. case found of
       None \<Rightarrow> stop (Ops_other ''No run found'')
     | Some run \<Rightarrow>
         bnd (now_op env) (\<lambda>now. bnd (lift_run_error (cancelRun (run.truncate run) reason now)) (\<lambda>cancelled.
         bnd (cas_run env uuid (cancel_patch cancelled) (r_status run)) (\<lambda>updated.
         if \<not> updated then stop (Ops_other ''concurrent modification'')
         else cancel_rest env ports run cancelled uuid))))"

section \<open>Resuming\<close>

definition resolveResumeDisposition ::
  "run_status \<Rightarrow> string list \<Rightarrow> resume_disposition option \<Rightarrow> string + resume_disposition" where
  "resolveResumeDisposition status dirty requested = (case requested of
       Some d \<Rightarrow> Inr d
     | None \<Rightarrow>
         if status = RNeedsHumanReview \<and> dirty \<noteq> [] then Inl ''ResumeDispositionRequiredError''
         else Inr Reset_to_baseline)"

record resume_ports =
  su_inspect :: "nat \<Rightarrow> run_record \<Rightarrow> string + string list"
  su_dbError :: "nat \<Rightarrow> string option"

definition missing_worktree :: "string \<Rightarrow> bool" where
  "missing_worktree msg = list_ex (\<lambda>p. has_infix p (to_lower msg))
     [''enoent'', ''no such file or directory'', ''does not exist'', ''not a git repository'',
      ''git not found on path'', ''cannot change to'', ''fatal: path'']"

definition getMeaningfulDirtyPaths :: "ops_env \<Rightarrow> resume_ports \<Rightarrow> run_record \<Rightarrow> string list ops" where
  "getMeaningfulDirtyPaths env ports run =
     bnd (act env ''inspect'' (\<lambda>n. su_inspect ports n run)) (\<lambda>r. case r of
       Inr discarded \<Rightarrow> ret discarded
     | Inl msg \<Rightarrow> if missing_worktree msg then ret []
         else stop (Ops_other (''failed to inspect worktree cleanliness for resume: '' @ msg)))"

definition resolveEffectiveDisposition ::
  "ops_env \<Rightarrow> resume_ports \<Rightarrow> run_record \<Rightarrow> resume_disposition option \<Rightarrow> resume_disposition ops" where
  "resolveEffectiveDisposition env ports run requested = (case requested of
       Some d \<Rightarrow> ret d
     | None \<Rightarrow> bnd (getMeaningfulDirtyPaths env ports run) (\<lambda>dirty.
         calling (resolveResumeDisposition (r_status run) dirty requested)))"

record resume_input =
  su_runId :: ident
  su_fromPhase :: "string option"
  su_workerId :: ident
  su_attempt :: "nat option"
  su_disposition :: "resume_disposition option"
  su_pinnedRuntime :: "string option"

record transition_state =
  ts_status :: run_status
  ts_completedAt :: "time option"
  ts_failureReason :: "string option"
  ts_currentPhase :: "string option"
  ts_pinnedRuntime :: "string option"
  ts_completedPhases :: "string list"
  ts_skippedPhases :: "string list"
  ts_steps :: "step list"
  ts_phase :: "phase option"
  ts_disposition :: resume_disposition

text \<open>The checks both \<open>transition\<close> and \<open>execute\<close> begin with.\<close>

definition resumable :: "ops_env \<Rightarrow> ident \<Rightarrow> (run_record \<times> repository) ops" where
  "resumable env uuid =
     bnd (find_run_op env uuid) (\<lambda>found. case found of
       None \<Rightarrow> stop (Ops_other ''No run found'')
     | Some run \<Rightarrow>
         if \<not> canResume (run.truncate run) then stop (Ops_other ''Cannot resume run'')
         else case oe_repos env (r_repoId run) of
           None \<Rightarrow> stop (Ops_other ''No repo found'')
         | Some repo \<Rightarrow>
             if r_id repo \<noteq> r_repoId run then stop (Ops_other ''Repo ID mismatch'')
             else if \<not> r_enabled repo then stop (Ops_other ''repo is disabled'')
             else ret (run, repo))"

definition db_write :: "ops_env \<Rightarrow> resume_ports \<Rightarrow> (ops_db \<Rightarrow> ops_db) \<Rightarrow> unit ops" where
  "db_write env ports f = sql env (\<lambda>n db. case su_dbError ports n of
       Some msg \<Rightarrow> (Inl (Ops_other msg), db)
     | None \<Rightarrow> (Inr (), f db))"

definition write_step :: "ops_env \<Rightarrow> resume_ports \<Rightarrow> step \<Rightarrow> unit ops" where
  "write_step env ports st = db_write env ports (\<lambda>db. db\<lparr>od_steps := upsertStep (od_steps db) st\<rparr>)"

definition write_phase :: "ops_env \<Rightarrow> resume_ports \<Rightarrow> phase \<Rightarrow> unit ops" where
  "write_phase env ports p = db_write env ports (\<lambda>db. db\<lparr>od_phases := upsertPhase (od_phases db) p\<rparr>)"

text \<open>The rollback of a resumed run; \<open>with_pin\<close> if the pinned runtime is restored too.\<close>

definition restore_patch :: "transition_state \<Rightarrow> bool \<Rightarrow> run_patch" where
  "restore_patch ts with_pin = empty_patch\<lparr>rp_status := Some (ts_status ts),
     rp_completedAt := Some (ts_completedAt ts), rp_failureReason := Some (ts_failureReason ts),
     rp_currentPhase := Some (ts_currentPhase ts), rp_completedPhases := Some (ts_completedPhases ts),
     rp_skippedPhases := Some (ts_skippedPhases ts),
     rp_pinnedRuntime := (if with_pin then Some (ts_pinnedRuntime ts) else None)\<rparr>"

definition roll_back ::
  "ops_env \<Rightarrow> resume_ports \<Rightarrow> ident \<Rightarrow> transition_state \<Rightarrow> bool \<Rightarrow> unit ops" where
  "roll_back env ports uuid ts with_pin =
     bnd (cas_run env uuid (restore_patch ts with_pin) RRunning) (\<lambda>_.
     sq (each (write_step env ports) (ts_steps ts))
       (case ts_phase ts of None \<Rightarrow> ret () | Some p \<Rightarrow> write_phase env ports p))"

definition resume_patch :: "run \<Rightarrow> bool \<Rightarrow> run_patch" where
  "resume_patch reactivated with_pin = empty_patch\<lparr>rp_status := Some (r_status reactivated),
     rp_currentPhase := Some None, rp_completedAt := Some None, rp_failureReason := Some None,
     rp_completedPhases := Some (r_completedPhases reactivated),
     rp_skippedPhases := Some (r_skippedPhases reactivated),
     rp_pinnedRuntime := (if with_pin then Some (r_pinnedRuntime reactivated) else None)\<rparr>"

definition pending_phase :: "resume_input \<Rightarrow> string \<Rightarrow> phase" where
  "pending_phase inp name = \<lparr>ph_id = su_runId inp @ ''-'' @ name, ph_runUuid = su_runId inp, ph_name = name,
     ph_status = PhPending, ph_attempt = set_opt (su_attempt inp) 1, ph_startedAt = None,
     ph_completedAt = None\<rparr>"

text \<open>Steps and phase of \<open>fromPhase\<close> back to pending.\<close>

definition reopen_phase :: "ops_env \<Rightarrow> resume_ports \<Rightarrow> resume_input \<Rightarrow> step list \<Rightarrow> unit ops" where
  "reopen_phase env ports inp steps =
     (if \<not> truthy (su_fromPhase inp) then ret ()
      else sq (each (\<lambda>st. only_if (st_status st \<noteq> SSuccess)
           (write_step env ports (st\<lparr>st_startedAt := None, st_completedAt := None, st_status := SPending\<rparr>))) steps)
         (write_phase env ports (pending_phase inp (the (su_fromPhase inp)))))"

definition saved_rows :: "ops_env \<Rightarrow> resume_input \<Rightarrow> (step list \<times> phase option) ops" where
  "saved_rows env inp =
     (if \<not> truthy (su_fromPhase inp) then ret ([], None)
      else bnd (query env (\<lambda>n db. filter (\<lambda>st. Some (st_phaseId st) = su_fromPhase inp)
          (listSteps (od_steps db) (su_runId inp)))) (\<lambda>steps.
        bnd (query env (\<lambda>n db. List.find (\<lambda>p. Some (ph_name p) = su_fromPhase inp)
          (listPhases (od_phases db) (su_runId inp)))) (\<lambda>p. ret (steps, p))))"

definition saved_state ::
  "run_record \<Rightarrow> step list \<Rightarrow> phase option \<Rightarrow> resume_disposition \<Rightarrow> transition_state" where
  "saved_state run steps saved disposition =
     \<lparr>ts_status = r_status run, ts_completedAt = r_completedAt run, ts_failureReason = r_failureReason run,
      ts_currentPhase = (if truthy (r_currentPhase run) then r_currentPhase run else None),
      ts_pinnedRuntime = r_pinnedRuntime run, ts_completedPhases = r_completedPhases run,
      ts_skippedPhases = r_skippedPhases run, ts_steps = steps, ts_phase = saved,
      ts_disposition = disposition\<rparr>"

text \<open>The compare-and-set and what follows it.\<close>

definition activate_run ::
  "ops_env \<Rightarrow> resume_ports \<Rightarrow> resume_input \<Rightarrow> run_record \<Rightarrow> resume_disposition \<Rightarrow> run
   \<Rightarrow> step list \<times> phase option \<Rightarrow> transition_state ops" where
  "activate_run env ports inp run disposition reactivated rows =
     (let with_pin = (su_pinnedRuntime inp \<noteq> None);
          ts = saved_state run (fst rows) (snd rows) disposition
      in bnd (cas_run env (su_runId inp) (resume_patch reactivated with_pin) (r_status run)) (\<lambda>updated.
         if \<not> updated then stop (Ops_other ''concurrent modification'')
         else bnd (attempted (reopen_phase env ports inp (fst rows))) (\<lambda>r. case r of
             Inl e \<Rightarrow> sq (roll_back env ports (su_runId inp) ts with_pin) (stop e)
           | Inr _ \<Rightarrow> ret ts)))"

definition start_transition ::
  "ops_env \<Rightarrow> resume_ports \<Rightarrow> resume_input \<Rightarrow> run_record \<Rightarrow> transition_state ops" where
  "start_transition env ports inp run =
     bnd (resolveEffectiveDisposition env ports run (su_disposition inp)) (\<lambda>disposition.
     bnd (lift_run_error (resumeRun (run.truncate run) (su_fromPhase inp) (su_pinnedRuntime inp))) (\<lambda>reactivated.
     bnd (saved_rows env inp) (activate_run env ports inp run disposition reactivated)))"

definition resume_transition ::
  "ops_env \<Rightarrow> resume_ports \<Rightarrow> resume_input \<Rightarrow> transition_state ops" where
  "resume_transition env ports inp =
     bnd (resumable env (su_runId inp)) (\<lambda>(run, repo). start_transition env ports inp run)"

definition resume_job :: "resume_input \<Rightarrow> time \<Rightarrow> run_record \<Rightarrow> repository \<Rightarrow> resume_disposition \<Rightarrow> time \<Rightarrow> job" where
  "resume_job inp stamp run repo disposition now = createJob
     \<lparr>ji_id = ''resume-'' @ su_runId inp @ ''-'' @ show_int stamp, ji_runId = su_runId inp, ji_repoId = r_id repo,
      ji_issueNumber = r_issueNumber run, ji_priority = Some 10, ji_createdAt = now,
      ji_resumeDisposition = Some disposition\<rparr>"

text \<open>The body under the lease; it returns the id of the job.\<close>

definition queue_resumed ::
  "ops_env \<Rightarrow> resume_ports \<Rightarrow> resume_input \<Rightarrow> run_record \<Rightarrow> repository \<Rightarrow> transition_state \<Rightarrow> ident ops" where
  "queue_resumed env ports inp run repo ts =
     bnd (now_op env) (\<lambda>stamp.
     bnd (attempted (enqueue_op env (resume_job inp stamp run repo (ts_disposition ts)))) (\<lambda>r. case r of
       Inl e \<Rightarrow> sq (roll_back env ports (su_runId inp) ts True) (stop e)
     | Inr _ \<Rightarrow> ret (''resume-'' @ su_runId inp @ ''-'' @ show_int stamp)))"

definition resume_under_lease ::
  "ops_env \<Rightarrow> resume_ports \<Rightarrow> resume_input \<Rightarrow> run_record \<Rightarrow> repository \<Rightarrow> resume_disposition \<Rightarrow> ident ops" where
  "resume_under_lease env ports inp run repo disposition =
     bnd (resume_transition env ports (inp\<lparr>su_disposition := Some disposition\<rparr>))
       (queue_resumed env ports inp run repo)"

text \<open>The lease is tried first; a conflict does not stop the resumption.\<close>

definition resume_from ::
  "ops_env \<Rightarrow> resume_ports \<Rightarrow> resume_input \<Rightarrow> run_record \<Rightarrow> repository \<Rightarrow> ident ops" where
  "resume_from env ports inp run repo =
     bnd (resolveEffectiveDisposition env ports run (su_disposition inp)) (\<lambda>disposition.
     bnd (attempted (acquire_op env (r_id repo) (su_workerId inp) (su_runId inp) 30000)) (\<lambda>got.
     case got of
       Inl e \<Rightarrow> (case e of Ops_lease (WorkerLeaseConflictError _ _) \<Rightarrow>
           resume_under_lease env ports inp run repo disposition | _ \<Rightarrow> stop e)
     | Inr lease \<Rightarrow> finishing (resume_under_lease env ports inp run repo disposition)
         (ignoring (release_op env (holder_of lease)))))"

definition resume_run :: "ops_env \<Rightarrow> resume_ports \<Rightarrow> resume_input \<Rightarrow> ident ops" where
  "resume_run env ports inp =
     bnd (resumable env (su_runId inp)) (\<lambda>(run, repo). resume_from env ports inp run repo)"

section \<open>Retrying the failed phase\<close>

definition recoverable_phase :: "phase \<Rightarrow> bool" where
  "recoverable_phase p \<longleftrightarrow> ph_status p \<in> {PhFailed, PhBlocked, PhNeedsHumanReview, PhRunning}"

definition latestRecoverablePhaseName :: "phase list \<Rightarrow> string option" where
  "latestRecoverablePhaseName phases =
     (case sort_key (\<lambda>p. - set_opt (ph_completedAt p) 0) (filter recoverable_phase phases) of
        [] \<Rightarrow> None | p # _ \<Rightarrow> Some (ph_name p))"

definition maxRecoverableAttempt :: "phase list \<Rightarrow> string \<Rightarrow> nat" where
  "maxRecoverableAttempt phases name =
     Max (insert 0 (set (map ph_attempt (filter (\<lambda>p. ph_name p = name \<and> recoverable_phase p) phases))))"

definition retry_failed_phase ::
  "ops_env \<Rightarrow> resume_ports \<Rightarrow> ident \<Rightarrow> ident \<Rightarrow> resume_disposition option \<Rightarrow> string option
   \<Rightarrow> transition_state ops" where
  "retry_failed_phase env ports uuid worker disposition pinned =
     bnd (find_run_op env uuid) (\<lambda>found. case found of
       None \<Rightarrow> stop (Ops_other ''No run found'')
     | Some run \<Rightarrow>
         if \<not> canResume (run.truncate run) then stop (Ops_other ''Cannot retry phase'')
         else bnd (query env (\<lambda>n db. listPhases (od_phases db) uuid)) (\<lambda>phases.
           case (if truthy (r_currentPhase run) then r_currentPhase run else latestRecoverablePhaseName phases) of
             None \<Rightarrow> stop (Ops_other ''no current phase to retry'')
           | Some name \<Rightarrow>
               if name = [] then stop (Ops_other ''no current phase to retry'')
               else resume_transition env ports
                 \<lparr>su_runId = uuid, su_fromPhase = Some name, su_workerId = worker,
                  su_attempt = Some (maxRecoverableAttempt phases name + 1),
                  su_disposition = disposition, su_pinnedRuntime = pinned\<rparr>))"

end
