(* ===== verification/Run_Control_Props.thy ===== *)
theory Run_Control_Props
  imports Run_Control Sweepers_Props
begin

text \<open>
  Properties of the operator's commands of \<open>Run_Control\<close>: a failed resumption is undone, a
  cancelled run has no open job and no lease left, and a command that is refused has done nothing.
\<close>

section \<open>Rows of a run\<close>

lemma find_run_row:
  assumes "findRunByUuid cfg t uuid = Some run"
  obtains r where "r \<in> set t" "r_uuid r = uuid" "run = toRecord r"
  using assms by (auto simp: findRunByUuid_def dest!: find_SomeD)

lemma resume_done:
  assumes "resumeRun (run.truncate run) ph pin = Inr n"
  shows "r_status n = RRunning" and "r_status run \<noteq> RRunning"
    and "r_completedPhases n = r_completedPhases run" and "r_skippedPhases n = r_skippedPhases run"
    and "pin = None \<Longrightarrow> r_pinnedRuntime n = r_pinnedRuntime run"
  using assms by (auto simp: resumeRun_def canResume_def run.defs split: if_splits)

lemma restored_row:
  assumes "r_currentPhase r \<noteq> Some []" and "resumeRun (run.truncate (toRecord r)) ph pin = Inr n"
    and "pin \<noteq> None \<longrightarrow> p"
  shows "patch_row (restore_patch (saved_state (toRecord r) steps saved d) p)
    (patch_row (resume_patch n (pin \<noteq> None)) r) = r"
  using assms(1,3) resume_done [OF assms(2)]
  by (cases r) (auto simp: patch_row_def restore_patch_def saved_state_def resume_patch_def empty_patch_def
    set_opt_def toRecord_def truthy_def)

text \<open>The compare-and-set on the one row of a run.\<close>

definition put_row :: "run_table \<Rightarrow> ident \<Rightarrow> run_record \<Rightarrow> run_table" where
  "put_row t u r' = map (\<lambda>x. if r_uuid x = u then r' else x) t"

lemma cas_row:
  assumes "distinct (map r_uuid t)" and "r \<in> set t" and "r_uuid r = u" and "p \<noteq> empty_patch"
  shows "atomicUpdateByUuid t u p e =
    (if r_status r = e then (True, put_row t u (patch_row p r)) else (False, t))"
proof -
  have uniq: "x = r" if "x \<in> set t" "r_uuid x = u" for x
    using that assms(1-3) by (auto simp: distinct_map inj_on_def)
  have a: "list_ex (\<lambda>x. r_uuid x = u \<and> r_status x = e) t \<longleftrightarrow> r_status r = e"
    unfolding list_ex_iff using assms(2,3) uniq by blast
  have b: "map (\<lambda>x. if r_uuid x = u \<and> r_status x = e then patch_row p x else x) t =
      map (\<lambda>x. if r_uuid x = u \<and> r_status r = e then patch_row p r else x) t"
  proof (rule map_cong [OF refl])
    fix x assume "x \<in> set t"
    then show "(if r_uuid x = u \<and> r_status x = e then patch_row p x else x) =
        (if r_uuid x = u \<and> r_status r = e then patch_row p r else x)"
      using uniq [of x] by (cases "x = r") auto
  qed
  show ?thesis
    unfolding atomicUpdateByUuid_def update_where_def a b using assms(4) by (simp add: put_row_def)
qed

lemma put_row_mem: "r \<in> set t \<Longrightarrow> r_uuid r = u \<Longrightarrow> r' \<in> set (put_row t u r')"
  by (auto simp: put_row_def intro!: image_eqI [of _ _ r])

lemma put_row_ids: "r_uuid r' = u \<Longrightarrow> map r_uuid (put_row t u r') = map r_uuid t"
  by (auto simp: put_row_def)

lemma put_row_back:
  assumes "distinct (map r_uuid t)" and "r \<in> set t" and "r_uuid r = u" and "r_uuid r' = u"
  shows "put_row (put_row t u r') u r = t"
proof -
  have "x = r" if "x \<in> set t" "r_uuid x = u" for x
    using that assms(1-3) by (auto simp: distinct_map inj_on_def)
  then show ?thesis using assms(4) by (auto simp: put_row_def intro!: map_idI)
qed

section \<open>A failed resumption\<close>

abbreviation tables_are :: "run_table \<Rightarrow> job_table \<Rightarrow> ops_state \<Rightarrow> bool" where
  "tables_are t j s \<equiv> od_runs (os_db s) = t \<and> od_jobs (os_db s) = j"

lemma tables_keep:
  assumes "undisturbed env" and "keeps (\<lambda>db. od_runs db = t \<and> od_jobs db = j) m"
    and "\<And>e s. tables_are t j s \<Longrightarrow> E e s" and "\<And>x s. tables_are t j s \<Longrightarrow> Q x s"
  shows "triple (tables_are t j) m Q E"
  using assms(2-4) by (rule triple_of_keeps)

lemma tables_through:
  "undisturbed env \<Longrightarrow> keeps (\<lambda>db. od_runs db = t \<and> od_jobs db = j) m \<Longrightarrow>
   triple (tables_are t j) m (\<lambda>_. tables_are t j) (\<lambda>_. tables_are t j)"
  by (erule tables_keep) simp_all

lemma db_write_tables:
  "undisturbed env \<Longrightarrow> (\<And>db. od_runs (f db) = od_runs db \<and> od_jobs (f db) = od_jobs db) \<Longrightarrow>
   keeps (\<lambda>db. od_runs db = t \<and> od_jobs db = j) (db_write env ports f)"
  unfolding db_write_def
  by (rule keeps_sql [OF others_keep_alone]) (auto split: option.split)

lemma keeps_each [keeps_intros]: "(\<And>x. keeps I (f x)) \<Longrightarrow> keeps I (each f xs)"
  by (rule yields_each)

lemma keeps_only_if [keeps_intros]: "keeps I m \<Longrightarrow> keeps I (only_if c m)"
  by (rule yields_only_if)

lemma reopen_tables:
  "undisturbed env \<Longrightarrow> keeps (\<lambda>db. od_runs db = t \<and> od_jobs db = j) (reopen_phase env ports inp steps)"
  unfolding reopen_phase_def write_step_def write_phase_def
  by (intro keeps_intros db_write_tables) simp_all

lemma triple_cas_row:
  assumes "undisturbed env" and "atomicUpdateByUuid t u p e = (b, t')"
  shows "triple (tables_are t j) (cas_run env u p e) (\<lambda>b' s. b' = b \<and> tables_are t' j s) E"
  by (rule tripleI) (simp add: cas_run_def sql_alone [OF assms(1)] db_runs_def assms(2))

lemma roll_back_tables:
  assumes "undisturbed env" and "atomicUpdateByUuid t' u (restore_patch ts p) RRunning = (b, t)"
  shows "triple (tables_are t' j) (roll_back env ports u ts p) (\<lambda>_. tables_are t j) (\<lambda>_. tables_are t j)"
proof -
  have cas: "triple (tables_are t' j) (cas_run env u (restore_patch ts p) RRunning) (\<lambda>_. tables_are t j) E" for E
    by (rule triple_weaken [OF triple_cas_row [OF assms]]) auto
  have "triple (tables_are t j) (sq (each (write_step env ports) (ts_steps ts))
      (case ts_phase ts of None \<Rightarrow> ret () | Some q \<Rightarrow> write_phase env ports q))
      (\<lambda>_. tables_are t j) (\<lambda>_. tables_are t j)"
    unfolding write_step_def write_phase_def
    by (rule tables_keep [OF assms(1)]) (intro keeps_intros keeps_cases db_write_tables assms(1); simp)+
  then show ?thesis unfolding roll_back_def by (rule triple_bnd [OF cas])
qed

definition matches_run :: "run_table \<Rightarrow> ident \<Rightarrow> run_record \<Rightarrow> bool" where
  "matches_run t u r \<longleftrightarrow> distinct (map r_uuid t) \<and> r \<in> set t \<and> r_uuid r = u \<and> r_currentPhase r \<noteq> Some []"

lemma find_matching:
  "matches_run t u r \<Longrightarrow> findRunByUuid cfg t u = Some run \<Longrightarrow> run = toRecord r"
  by (erule find_run_row) (auto simp: matches_run_def distinct_map inj_on_def)

lemma toRecord_fields [simp]:
  "r_status (toRecord r) = r_status r" "r_uuid (toRecord r) = r_uuid r" "r_repoId (toRecord r) = r_repoId r"
  "r_issueNumber (toRecord r) = r_issueNumber r"
  by (simp_all add: toRecord_def)

lemma resumable_result:
  assumes "undisturbed env" and "matches_run t u r"
  shows "triple (tables_are t j) (resumable env u)
    (\<lambda>(run, repo) s. tables_are t j s \<and> run = toRecord r \<and> oe_repos env (r_repoId r) = Some repo \<and>
       r_id repo = r_repoId r \<and> r_enabled repo)
    (\<lambda>_. tables_are t j)"
proof -
  have find: "triple (tables_are t j) (find_run_op env u)
      (\<lambda>found s. tables_are t j s \<and> (\<forall>run. found = Some run \<longrightarrow> run = toRecord r)) E" for E
    using find_matching [OF assms(2)]
    by (intro tripleI) (simp add: find_run_op_def query_def sql_alone [OF assms(1)])
  show ?thesis
    unfolding resumable_def
    by (rule triple_bnd [OF find])
      (auto simp: triple_def ret_def stop_def split: option.splits)
qed

lemma resume_patch_ne [simp]: "resume_patch n p \<noteq> empty_patch" "restore_patch ts p \<noteq> empty_patch"
  by (simp_all add: resume_patch_def restore_patch_def empty_patch_def)

lemma resumed_and_back:
  assumes m: "matches_run t u r" and n: "resumeRun (run.truncate (toRecord r)) ph pin = Inr n"
  defines "t1 \<equiv> put_row t u (patch_row (resume_patch n (pin \<noteq> None)) r)"
  shows "atomicUpdateByUuid t u (resume_patch n (pin \<noteq> None)) (r_status r) = (True, t1)"
    and "(pin \<noteq> None \<longrightarrow> p) \<Longrightarrow>
      atomicUpdateByUuid t1 u (restore_patch (saved_state (toRecord r) steps saved d) p) RRunning = (True, t)"
proof -
  let ?r1 = "patch_row (resume_patch n (pin \<noteq> None)) r"
  have row: "distinct (map r_uuid t)" "r \<in> set t" "r_uuid r = u" "r_currentPhase r \<noteq> Some []"
    using m by (simp_all add: matches_run_def)
  show "atomicUpdateByUuid t u (resume_patch n (pin \<noteq> None)) (r_status r) = (True, t1)"
    using cas_row [OF row(1-3) resume_patch_ne(1)] by (simp add: t1_def)
  have st: "r_status ?r1 = RRunning"
    using resume_done(1) [OF n] by (simp add: resume_patch_def set_opt_def)
  have u1: "r_uuid ?r1 = u" using row(3) by simp
  have "distinct (map r_uuid t1)" unfolding t1_def put_row_ids [OF u1] by (rule row(1))
  moreover have "?r1 \<in> set t1" unfolding t1_def by (rule put_row_mem [OF row(2,3)])
  ultimately show "atomicUpdateByUuid t1 u (restore_patch (saved_state (toRecord r) steps saved d) p) RRunning = (True, t)"
    if "pin \<noteq> None \<longrightarrow> p"
    using cas_row [OF _ _ u1 resume_patch_ne(2)] st restored_row [OF row(4) n that]
      put_row_back [OF row(1-3) u1] by (simp add: t1_def)
qed

text \<open>A successful transition sets the run to running and changes nothing else of runs and jobs; a
  failed one changes neither.\<close>

definition resumed :: "run_table \<Rightarrow> run_record \<Rightarrow> resume_input \<Rightarrow> run \<Rightarrow> run_table" where
  "resumed t r inp n = put_row t (su_runId inp) (patch_row (resume_patch n (su_pinnedRuntime inp \<noteq> None)) r)"

definition transitioned ::
  "run_table \<Rightarrow> job_table \<Rightarrow> run_record \<Rightarrow> resume_input \<Rightarrow> transition_state \<Rightarrow> ops_state \<Rightarrow> bool" where
  "transitioned t j r inp ts s \<longleftrightarrow>
     (\<exists>n steps saved d. resumeRun (run.truncate (toRecord r)) (su_fromPhase inp) (su_pinnedRuntime inp) = Inr n \<and>
       ts = saved_state (toRecord r) steps saved d \<and> tables_are (resumed t r inp n) j s)"

lemma activate_result:
  assumes u: "undisturbed env" and m: "matches_run t (su_runId inp) r"
    and n: "resumeRun (run.truncate (toRecord r)) (su_fromPhase inp) (su_pinnedRuntime inp) = Inr n"
  shows "triple (tables_are t j) (activate_run env ports inp (toRecord r) d n rows)
    (transitioned t j r inp) (\<lambda>_. tables_are t j)"
proof -
  let ?t1 = "resumed t r inp n" and ?pin = "su_pinnedRuntime inp \<noteq> None"
  let ?ts = "saved_state (toRecord r) (fst rows) (snd rows) d"
  note go = resumed_and_back(1) [OF m n, folded resumed_def]
  note undo = resumed_and_back(2) [OF m n, folded resumed_def, of ?pin]
  have cas: "triple (tables_are t j) (cas_run env (su_runId inp) (resume_patch n ?pin) (r_status r))
      (\<lambda>b s. tables_are ?t1 j s \<and> b) E" for E
    by (rule triple_weaken [OF triple_cas_row [OF u go]]) auto
  have reopened: "triple (tables_are ?t1 j) (attempted (reopen_phase env ports inp (fst rows)))
      (\<lambda>_. tables_are ?t1 j) E" for E
    unfolding attempted_def
    by (rule triple_catch, rule tables_keep [OF u reopen_tables [OF u]]) simp_all
  have undone: "triple (tables_are ?t1 j) (sq (roll_back env ports (su_runId inp) ?ts ?pin) (stop e))
      Q (\<lambda>_. tables_are t j)" for e Q
    by (rule triple_sq [OF roll_back_tables [OF u undo]]) (simp_all add: triple_stop)
  have kept: "triple (tables_are ?t1 j) (ret ?ts) (transitioned t j r inp) E" for E
    by (rule triple_ret) (use n in \<open>auto simp: transitioned_def\<close>)
  show ?thesis
    unfolding activate_run_def Let_def toRecord_fields
    by (rule triple_bnd [OF cas], rule triple_conj_pre, simp only: simp_thms if_False)
      (rule triple_bnd [OF reopened], rule triple_sum, rule undone, rule kept)
qed

lemma disposition_tables:
  "undisturbed env \<Longrightarrow> keeps (\<lambda>db. od_runs db = t \<and> od_jobs db = j) (resolveEffectiveDisposition env ports run d)"
  unfolding resolveEffectiveDisposition_def getMeaningfulDirtyPaths_def calling_def
  by (intro keeps_intros keeps_cases others_keep_alone)

lemma saved_rows_tables:
  "undisturbed env \<Longrightarrow> keeps (\<lambda>db. od_runs db = t \<and> od_jobs db = j) (saved_rows env inp)"
  unfolding saved_rows_def by (intro keeps_intros others_keep_alone)

lemma start_transition_result:
  assumes u: "undisturbed env" and m: "matches_run t (su_runId inp) r"
  shows "triple (tables_are t j) (start_transition env ports inp (toRecord r))
    (transitioned t j r inp) (\<lambda>_. tables_are t j)"
  unfolding start_transition_def
proof (rule triple_bnd [OF tables_through [OF u disposition_tables [OF u]]])
  fix d
  show "triple (tables_are t j)
     (bnd (lift_run_error (resumeRun (run.truncate (toRecord r)) (su_fromPhase inp) (su_pinnedRuntime inp)))
       (\<lambda>n. bnd (saved_rows env inp) (activate_run env ports inp (toRecord r) d n)))
     (transitioned t j r inp) (\<lambda>_. tables_are t j)"
  proof (cases "resumeRun (run.truncate (toRecord r)) (su_fromPhase inp) (su_pinnedRuntime inp)")
    case (Inl e)
    then show ?thesis by (simp add: lift_run_error_def triple_stop)
  next
    case (Inr n)
    show ?thesis
      unfolding Inr lift_run_error_def sum.case bnd_ret
      by (rule triple_bnd [OF tables_through [OF u saved_rows_tables [OF u]] activate_result [OF u m Inr]])
  qed
qed

lemma transition_result:
  assumes u: "undisturbed env" and m: "matches_run t (su_runId inp) r"
  shows "triple (tables_are t j) (resume_transition env ports inp)
    (transitioned t j r inp) (\<lambda>_. tables_are t j)"
  unfolding resume_transition_def
  by (rule triple_bnd [OF resumable_result [OF u m]])
    (use start_transition_result [OF u m] in \<open>auto simp: triple_def split: prod.split\<close>)

definition queued_resumption ::
  "run_table \<Rightarrow> job_table \<Rightarrow> run_record \<Rightarrow> resume_input \<Rightarrow> ident \<Rightarrow> run_table \<Rightarrow> job_table \<Rightarrow> bool" where
  "queued_resumption t j r inp job t' j' \<longleftrightarrow>
     (\<exists>n stamp repo d now. resumeRun (run.truncate (toRecord r)) (su_fromPhase inp) (su_pinnedRuntime inp) = Inr n \<and>
       job = j_id (resume_job inp stamp (toRecord r) repo d now) \<and> t' = resumed t r inp n \<and>
       j' = j @ [resume_job inp stamp (toRecord r) repo d now])"

abbreviation resumed_with_job ::
  "run_table \<Rightarrow> job_table \<Rightarrow> run_record \<Rightarrow> resume_input \<Rightarrow> ident \<Rightarrow> ops_state \<Rightarrow> bool" where
  "resumed_with_job t j r inp job s \<equiv>
     queued_resumption t j r inp job (od_runs (os_db s)) (od_jobs (os_db s))"

lemma resume_job_id [simp]:
  "j_id (resume_job inp stamp run repo d now) = ''resume-'' @ su_runId inp @ ''-'' @ show_int stamp"
  by (simp add: resume_job_def createJob_def)

lemma enqueue_result:
  assumes "undisturbed env"
  shows "triple (tables_are t j) (attempted (enqueue_op env mk))
    (\<lambda>x s. case x of Inl _ \<Rightarrow> tables_are t j s | Inr _ \<Rightarrow> \<exists>now. tables_are t (j @ [mk now]) s) E"
  by (rule tripleI)
    (auto simp: attempted_def catch_def enqueue_op_def sql_alone [OF assms] enqueue_def split: sum.splits if_splits)

lemma triple_now: "triple P (now_op env) (\<lambda>_. P) E"
  unfolding now_op_def by (rule triple_ask)

lemma queue_resumed_result:
  assumes u: "undisturbed env"
    and n: "resumeRun (run.truncate (toRecord r)) (su_fromPhase inp) (su_pinnedRuntime inp) = Inr n"
    and undo: "atomicUpdateByUuid (resumed t r inp n) (su_runId inp) (restore_patch ts True) RRunning = (True, t)"
  shows "triple (tables_are (resumed t r inp n) j) (queue_resumed env ports inp (toRecord r) repo ts)
    (resumed_with_job t j r inp) (\<lambda>_. tables_are t j)"
  unfolding queue_resumed_def
proof (rule triple_bnd [OF triple_now], rule triple_bnd [OF enqueue_result [OF u]])
  fix stamp x
  let ?job = "resume_job inp stamp (toRecord r) repo (ts_disposition ts)"
  show "triple (\<lambda>s. case x of Inl _ \<Rightarrow> tables_are (resumed t r inp n) j s
      | Inr _ \<Rightarrow> \<exists>now. tables_are (resumed t r inp n) (j @ [?job now]) s)
    (case x of Inl e \<Rightarrow> sq (roll_back env ports (su_runId inp) ts True) (stop e)
        | Inr _ \<Rightarrow> ret (''resume-'' @ su_runId inp @ ''-'' @ show_int stamp))
    (resumed_with_job t j r inp) (\<lambda>_. tables_are t j)"
  proof (cases x)
    case (Inl e)
    show ?thesis unfolding Inl sum.case
      by (rule triple_sq [OF roll_back_tables [OF u undo]]) (simp_all add: triple_stop)
  next
    case (Inr y)
    show ?thesis unfolding Inr sum.case
      by (rule triple_ret) (use n in \<open>auto simp: queued_resumption_def\<close>)
  qed
qed

lemma under_lease_result:
  assumes u: "undisturbed env" and m: "matches_run t (su_runId inp) r"
  shows "triple (tables_are t j) (resume_under_lease env ports inp (toRecord r) repo d)
    (resumed_with_job t j r inp) (\<lambda>_. tables_are t j)"
  unfolding resume_under_lease_def
proof (rule triple_bnd)
  let ?inp = "inp\<lparr>su_disposition := Some d\<rparr>"
  have m': "matches_run t (su_runId ?inp) r" using m by simp
  show "triple (tables_are t j) (resume_transition env ports ?inp) (transitioned t j r ?inp) (\<lambda>_. tables_are t j)"
    by (rule transition_result [OF u m'])
  fix ts
  show "triple (transitioned t j r ?inp ts) (queue_resumed env ports inp (toRecord r) repo ts)
    (resumed_with_job t j r inp) (\<lambda>_. tables_are t j)"
  proof (rule tripleI)
    fix s
    assume "transitioned t j r ?inp ts s"
    then obtain n steps saved d' where n: "resumeRun (run.truncate (toRecord r)) (su_fromPhase inp)
        (su_pinnedRuntime inp) = Inr n" and ts: "ts = saved_state (toRecord r) steps saved d'"
      and s: "tables_are (resumed t r inp n) j s"
      by (auto simp: transitioned_def resumed_def)
    have "atomicUpdateByUuid (resumed t r inp n) (su_runId inp) (restore_patch ts True) RRunning = (True, t)"
      unfolding ts by (rule resumed_and_back(2) [OF m n, folded resumed_def]) simp
    from queue_resumed_result [OF u n this] s
    show "case queue_resumed env ports inp (toRecord r) repo ts s of
        (Inl e, s') \<Rightarrow> tables_are t j s' | (Inr x, s') \<Rightarrow> resumed_with_job t j r inp x s'"
      by (simp add: triple_def)
  qed
qed

lemma acquire_tables:
  "undisturbed env \<Longrightarrow> keeps (\<lambda>db. od_runs db = t \<and> od_jobs db = j) (acquire_op env repo w run ttl)"
  unfolding acquire_op_def
  by (rule keeps_sql [OF others_keep_alone]) (auto split: sum.split prod.split)

lemma release_tables:
  "undisturbed env \<Longrightarrow> od_runs (os_db (snd (ignoring (release_op env h) z))) = od_runs (os_db z) \<and>
     od_jobs (os_db (snd (ignoring (release_op env h) z))) = od_jobs (os_db z) \<and>
     fst (ignoring (release_op env h) z) = Inr ()"
  by (auto simp: ignoring_def catch_def release_op_def sql_alone split: sum.split)

lemma released_result:
  assumes u: "undisturbed env" and m: "triple P m (\<lambda>x s. Q x (od_runs (os_db s)) (od_jobs (os_db s)))
    (\<lambda>_ s. E (od_runs (os_db s)) (od_jobs (os_db s)))"
  shows "triple P (finishing m (ignoring (release_op env h)))
    (\<lambda>x s. Q x (od_runs (os_db s)) (od_jobs (os_db s))) (\<lambda>_ s. E (od_runs (os_db s)) (od_jobs (os_db s)))"
proof (rule tripleI)
  fix s assume "P s"
  with m have e: "case m s of (Inr x, s') \<Rightarrow> Q x (od_runs (os_db s')) (od_jobs (os_db s'))
      | (Inl e, s') \<Rightarrow> E (od_runs (os_db s')) (od_jobs (os_db s'))" by (simp add: triple_def)
  obtain y s1 where y: "m s = (y, s1)" by (rule prod.exhaust)
  obtain v s2 where v: "ignoring (release_op env h) s1 = (v, s2)" by (rule prod.exhaust)
  from release_tables [OF u, of h s1] v
  have "v = Inr ()" "od_runs (os_db s2) = od_runs (os_db s1)" "od_jobs (os_db s2) = od_jobs (os_db s1)" by auto
  with e y v show "case finishing m (ignoring (release_op env h)) s of
      (Inr x, s') \<Rightarrow> Q x (od_runs (os_db s')) (od_jobs (os_db s'))
    | (Inl e, s') \<Rightarrow> E (od_runs (os_db s')) (od_jobs (os_db s'))"
    by (cases y) (simp_all add: finishing_def)
qed

lemma resume_run_result:
  assumes u: "undisturbed env" and m: "matches_run t (su_runId inp) r"
  shows "triple (tables_are t j) (resume_run env ports inp) (resumed_with_job t j r inp) (\<lambda>_. tables_are t j)"
proof -
  note body = under_lease_result [OF u m]
  have released: "triple (tables_are t j) (finishing (resume_under_lease env ports inp (toRecord r) repo d)
      (ignoring (release_op env h))) (resumed_with_job t j r inp) (\<lambda>_. tables_are t j)" for repo d h
    by (rule released_result [OF u body])
  have acquired: "triple (tables_are t j) (attempted (acquire_op env repo w run ttl)) (\<lambda>_. tables_are t j) E"
    for repo w run ttl E
    unfolding attempted_def
    by (rule triple_catch, rule tables_keep [OF u acquire_tables [OF u]]) simp_all
  have known: "triple (tables_are t j) (resume_from env ports inp (toRecord r) repo)
      (resumed_with_job t j r inp) (\<lambda>_. tables_are t j)" for repo
    unfolding resume_from_def
    by (rule triple_bnd [OF tables_through [OF u disposition_tables [OF u]]], rule triple_bnd [OF acquired],
        rule triple_sum)
      (auto intro: body released triple_stop split: ops_exn.split lease_error.split)
  show ?thesis
    unfolding resume_run_def
  proof (rule triple_bnd [OF resumable_result [OF u m]])
    fix x
    show "triple ((\<lambda>(run, repo) s. tables_are t j s \<and> run = toRecord r \<and>
        oe_repos env (r_repoId r) = Some repo \<and> r_id repo = r_repoId r \<and> r_enabled repo) x)
      ((\<lambda>(run, repo). resume_from env ports inp run repo) x) (resumed_with_job t j r inp) (\<lambda>_. tables_are t j)"
      using known [of "snd x"] by (cases x; cases "fst x = toRecord r") (auto simp: triple_def)
  qed
qed

text \<open>
  C36. A failed resumption is undone. If no other process interferes, then however
  \<open>ResumeRun.execute\<close> fails (disabled or missing repository, dirty worktree, a database error while
  it reopens the phase, a refused job) runs and jobs are exactly as before; if it succeeds, the
  run is running as \<open>resumeRun\<close> says, one job for it is queued at the end of the table, and no
  other run or job has changed.
\<close>

theorem failed_resume_is_undone:
  assumes "undisturbed env" and "matches_run (od_runs (os_db s)) (su_runId inp) r"
    and "resume_run env ports inp s = (x, s')"
  shows "case x of
      Inl _ \<Rightarrow> tables_are (od_runs (os_db s)) (od_jobs (os_db s)) s'
    | Inr job \<Rightarrow> resumed_with_job (od_runs (os_db s)) (od_jobs (os_db s)) r inp job s'"
proof -
  note result = resume_run_result [OF assms(1,2), of "od_jobs (os_db s)" ports]
  show ?thesis
  proof (cases x)
    case (Inl e)
    with assms(3) show ?thesis using triple_Inl [OF result, of s e s'] by simp
  next
    case (Inr job)
    with assms(3) show ?thesis using triple_Inr [OF result, of s job s'] by simp
  qed
qed

section \<open>The jobs of a cancelled run\<close>

definition cancelled_row :: "time \<Rightarrow> job \<Rightarrow> job" where
  "cancelled_row now r = r\<lparr>j_status := JCancelled, j_completedAt := Some now, j_claimedBy := None,
     j_claimToken := None, j_claimExpiresAt := None\<rparr>"

text \<open>The table with the jobs in \<open>dom f\<close> cancelled, each at its time.\<close>

definition cancel_rows :: "(ident \<Rightarrow> time option) \<Rightarrow> job_table \<Rightarrow> job_table" where
  "cancel_rows f tbl = map (\<lambda>r. case f (j_id r) of None \<Rightarrow> r | Some now \<Rightarrow> cancelled_row now r) tbl"

lemma cancelled_row_ids [simp]:
  "j_id (cancelled_row now r) = j_id r" "j_repoId (cancelled_row now r) = j_repoId r"
  by (simp_all add: cancelled_row_def)

lemma cancel_rows_find:
  assumes d: "ids_distinct tbl" and job: "job \<in> set tbl" and "f (j_id job) = None" and "in_scope scope (j_repoId job)"
  shows "List.find (\<lambda>r. j_id r = j_id job \<and> in_scope scope (j_repoId r)) (cancel_rows f tbl) = Some job"
  using d job unfolding cancel_rows_def ids_distinct_def
proof (induction tbl)
  case (Cons r tbl)
  show ?case
  proof (cases "r = job")
    case True
    then show ?thesis using assms(3,4) by simp
  next
    case False
    with Cons.prems have "j_id r \<noteq> j_id job" "job \<in> set tbl" by (auto simp: rev_image_eqI)
    then show ?thesis using Cons by (simp split: option.split)
  qed
qed simp

lemma cancel_rows_step:
  assumes d: "ids_distinct tbl" and job: "job \<in> set tbl" and none: "f (j_id job) = None"
    and scope: "in_scope scope (j_repoId job)"
  shows "map (\<lambda>r. if j_id r = j_id job \<and> in_scope scope (j_repoId r) then cancelled_row now r else r)
      (cancel_rows f tbl) = cancel_rows (f(j_id job \<mapsto> now)) tbl"
  unfolding cancel_rows_def map_map
proof (rule map_cong [OF refl])
  fix r assume "r \<in> set tbl"
  then have "j_id r = j_id job \<Longrightarrow> r = job" using same_row [OF d] job by blast
  then show "((\<lambda>r. if j_id r = j_id job \<and> in_scope scope (j_repoId r) then cancelled_row now r else r) \<circ>
      (\<lambda>r. case f (j_id r) of None \<Rightarrow> r | Some now \<Rightarrow> cancelled_row now r)) r =
    (case (f(j_id job \<mapsto> now)) (j_id r) of None \<Rightarrow> r | Some now \<Rightarrow> cancelled_row now r)"
    using none scope by (auto split: option.split)
qed

lemma reconcile_cancels:
  assumes d: "ids_distinct tbl" and job: "job \<in> set tbl" and none: "f (j_id job) = None"
    and scope: "in_scope scope (j_repoId job)" and "open_job job"
  shows "reconcileTerminalJob scope (cancel_rows f tbl)
      \<lparr>rc_jobId = j_id job, rc_targetStatus = JCancelled, rc_now = now, rc_expectedStatus = None,
       rc_owner = job_owner job\<rparr> = Inr (True, JCancelled, cancel_rows (f(j_id job \<mapsto> now)) tbl)"
proof -
  have "\<not> job_settled (j_status job)" using assms(5) by (auto simp: open_job_def job_settled_def)
  moreover have "(case job_owner job of None \<Rightarrow> False | Some owner \<Rightarrow>
      j_claimedBy job \<noteq> Some (o_workerId owner) \<or> j_claimToken job \<noteq> Some (o_claimToken owner)) = False"
    by (auto simp: job_owner_def truthy_iff)
  ultimately show ?thesis
    using cancel_rows_step [OF d job, of f scope now] cancel_rows_find [OF d job, of f scope] none scope
    by (simp add: reconcileTerminalJob_def cancelled_row_def cong: if_cong split: option.splits)
qed

section \<open>What cancelling does\<close>

text \<open>Runs \<open>t\<close>, and the jobs in \<open>ids\<close> of the original table cancelled.\<close>

definition jobs_cancelled :: "run_table \<Rightarrow> job_table \<Rightarrow> ident set \<Rightarrow> ops_db \<Rightarrow> bool" where
  "jobs_cancelled t tbl ids db \<longleftrightarrow> od_runs db = t \<and> (\<exists>f. dom f = ids \<and> od_jobs db = cancel_rows f tbl)"

lemma cancel_rows_empty [simp]: "cancel_rows Map.empty tbl = tbl"
  by (simp add: cancel_rows_def)

lemma cancel_job_result:
  assumes u: "undisturbed env" and d: "ids_distinct tbl" and job: "job \<in> set tbl" and new: "j_id job \<notin> ids"
    and scope: "in_scope (oe_jobScope env) (j_repoId job)" and "open_job job"
  shows "triple (\<lambda>s. jobs_cancelled t tbl ids (os_db s)) (cancel_job env run job)
    (\<lambda>_ s. jobs_cancelled t tbl (insert (j_id job) ids) (os_db s)) E"
proof (rule tripleI)
  fix s :: ops_state
  assume "jobs_cancelled t tbl ids (os_db s)"
  then obtain f where f: "dom f = ids" "od_jobs (os_db s) = cancel_rows f tbl" and t: "od_runs (os_db s) = t"
    by (auto simp: jobs_cancelled_def)
  have none: "f (j_id job) = None" using new f(1) by auto
  note rec = reconcile_cancels [OF d job, of f "oe_jobScope env" "oe_now env (os_clock s)"]
  have "\<exists>g. dom g = insert (j_id job) ids \<and> cancel_rows (f(j_id job \<mapsto> oe_now env (os_clock s))) tbl = cancel_rows g tbl"
    using f(1) by (intro exI [of _ "f(j_id job \<mapsto> oe_now env (os_clock s))"]) auto
  then show "case cancel_job env run job s of
      (Inr _, s') \<Rightarrow> jobs_cancelled t tbl (insert (j_id job) ids) (os_db s') | (Inl x, s') \<Rightarrow> E x s'"
    using rec none scope assms(6) t f(2)
    by (auto simp: cancel_job_def ignoring_def catch_def bnd_run sql_alone [OF u] publish_def only_if_def
      jobs_cancelled_def split: option.split)
qed

lemma cancel_each_result:
  assumes u: "undisturbed env" and d: "ids_distinct tbl"
    and jobs: "\<forall>job \<in> set jobs. job \<in> set tbl \<and> in_scope (oe_jobScope env) (j_repoId job) \<and> open_job job"
    and "distinct (map j_id jobs)" and "j_id ` set jobs \<inter> ids = {}"
  shows "triple (\<lambda>s. jobs_cancelled t tbl ids (os_db s)) (each (cancel_job env run) jobs)
    (\<lambda>_ s. jobs_cancelled t tbl (ids \<union> j_id ` set jobs) (os_db s)) E"
  using jobs assms(4,5)
proof (induction jobs arbitrary: ids)
  case (Cons job jobs)
  have first: "triple (\<lambda>s. jobs_cancelled t tbl ids (os_db s)) (cancel_job env run job)
      (\<lambda>_ s. jobs_cancelled t tbl (insert (j_id job) ids) (os_db s)) E"
    using Cons.prems by (intro cancel_job_result [OF u d]) auto
  have "triple (\<lambda>s. jobs_cancelled t tbl (insert (j_id job) ids) (os_db s)) (each (cancel_job env run) jobs)
      (\<lambda>_ s. jobs_cancelled t tbl (insert (j_id job) ids \<union> j_id ` set jobs) (os_db s)) E"
    using Cons.prems by (intro Cons.IH) auto
  then show ?case using triple_sq [OF first] by (simp add: insert_commute)
qed (simp add: triple_ret)

definition open_ids :: "ops_env \<Rightarrow> job_table \<Rightarrow> ident \<Rightarrow> ident set" where
  "open_ids env tbl run = j_id ` set (filter open_job (listForRun (oe_jobScope env) tbl run))"

lemma cancel_jobs_result:
  assumes u: "undisturbed env" and d: "ids_distinct tbl"
  shows "triple (tables_are t tbl) (cancel_jobs env run)
    (\<lambda>_ s. jobs_cancelled t tbl (open_ids env tbl run) (os_db s)) E"
proof -
  let ?jobs = "filter open_job (listForRun (oe_jobScope env) tbl run)"
  have listed: "triple (tables_are t tbl) (query env (\<lambda>n db. filter open_job
      (listForRun (oe_jobScope env) (od_jobs db) run)))
      (\<lambda>jobs s. jobs_cancelled t tbl {} (os_db s) \<and> jobs = ?jobs) E'" for E'
    by (rule tripleI) (auto simp: query_def sql_alone [OF u] jobs_cancelled_def intro: exI [of _ Map.empty])
  have each: "triple (\<lambda>s. jobs_cancelled t tbl {} (os_db s)) (each (cancel_job env run) ?jobs)
      (\<lambda>_ s. jobs_cancelled t tbl (open_ids env tbl run) (os_db s)) E'" for E'
    using cancel_each_result [OF u d, of ?jobs "{}" t run] d
    by (auto simp: open_ids_def listForRun_def ids_distinct_def distinct_map_filter)
  have "triple (tables_are t tbl) (bnd (query env (\<lambda>n db. filter open_job
      (listForRun (oe_jobScope env) (od_jobs db) run))) (each (cancel_job env run)))
      (\<lambda>_ s. jobs_cancelled t tbl (open_ids env tbl run) (os_db s)) (\<lambda>_ _. False)"
    by (rule triple_bnd [OF listed]) (use each in \<open>auto simp: triple_def\<close>)
  then show ?thesis
    unfolding cancel_jobs_def
    by (intro triple_ignoring) (erule triple_weaken; simp)
qed

lemma keeps_acting [keeps_intros]: "others_keep env I \<Longrightarrow> keeps I (acting env what f)"
  unfolding acting_def by (intro keeps_intros calling_keeps)

lemma abort_keeps: "others_keep env I \<Longrightarrow> keeps I (abort_agent env ports)"
  unfolding abort_agent_def by (intro keeps_intros)

lemma reset_keeps: "others_keep env I \<Longrightarrow> keeps I (reset_worktree env ports)"
  unfolding reset_worktree_def by (intro keeps_intros keeps_cases keeps_only_if)

definition lease_left :: "ops_db \<Rightarrow> ident \<Rightarrow> ident \<Rightarrow> bool" where
  "lease_left db repo run \<longleftrightarrow> (\<exists>l. od_leases db repo = Some l \<and> wl_runId l = run)"

lemma release_lease_result:
  assumes u: "undisturbed env" and ids: "\<And>db l. I db = I (db\<lparr>od_leases := l\<rparr>)"
  shows "triple (\<lambda>s. I (os_db s)) (release_lease_of env run)
    (\<lambda>_ s. I (os_db s) \<and> \<not> lease_left (os_db s) (r_repoId run) (r_uuid run)) E"
proof (rule tripleI)
  fix s :: ops_state
  assume "I (os_db s)"
  then show "case release_lease_of env run s of
      (Inr _, s') \<Rightarrow> I (os_db s') \<and> \<not> lease_left (os_db s') (r_repoId run) (r_uuid run)
    | (Inl x, s') \<Rightarrow> E x s'"
    using ids [of "os_db s"]
    by (auto simp: release_lease_of_def ignoring_def catch_def bnd_run query_def sql_alone [OF u] current_def
      ret_run release_op_def release_def lease_matches_def lease_left_def split: option.splits)
qed

lemma cancelRun_done:
  "cancelRun run reason now = Inr c \<Longrightarrow> r_status c = RCancelled \<and> r_status run \<notin> terminal_statuses"
  by (auto simp: cancelRun_def split: if_splits)

definition run_cancelled :: "run_table \<Rightarrow> ident \<Rightarrow> run_table \<Rightarrow> bool" where
  "run_cancelled t u t' \<longleftrightarrow> (\<exists>r c. r \<in> set t \<and> r_uuid r = u \<and> r_status r \<notin> terminal_statuses \<and>
     r_status c = RCancelled \<and> t' = put_row t u (patch_row (cancel_patch c) r))"

lemma cancel_patch_ne [simp]: "cancel_patch c \<noteq> empty_patch"
  by (simp add: cancel_patch_def empty_patch_def)

lemma cancel_rest_result:
  assumes u: "undisturbed env" and d: "ids_distinct tbl" and id: "r_uuid run = uuid"
  shows "triple (tables_are t tbl) (cancel_rest env ports run c uuid)
    (\<lambda>_ s. jobs_cancelled t tbl (open_ids env tbl uuid) (os_db s) \<and>
       \<not> lease_left (os_db s) (r_repoId run) uuid) (\<lambda>_ _. True)"
proof -
  let ?I = "jobs_cancelled t tbl (open_ids env tbl uuid)"
  have abort: "triple (\<lambda>s. ?I (os_db s)) (abort_agent env ports) (\<lambda>_ s. ?I (os_db s)) (\<lambda>_ _. True)"
    by (rule triple_of_keeps [OF abort_keeps [OF others_keep_alone [OF u]]]) simp_all
  have reset: "triple (\<lambda>s. ?I (os_db s)) (if b then ret (False, None) else reset_worktree env ports)
      (\<lambda>_ s. ?I (os_db s)) (\<lambda>_ _. True)" for b
    by (rule triple_of_keeps) (auto intro: keeps_intros reset_keeps others_keep_alone u)
  have release: "triple (\<lambda>s. ?I (os_db s)) (release_lease_of env run)
      (\<lambda>_ s. ?I (os_db s) \<and> \<not> lease_left (os_db s) (r_repoId run) uuid) (\<lambda>_ _. True)"
    using release_lease_result [OF u, of ?I run] by (simp add: id jobs_cancelled_def)
  show ?thesis
    unfolding cancel_rest_def
    by (rule triple_sq [OF cancel_jobs_result [OF u d]], rule triple_bnd [OF abort], rule triple_bnd [OF reset])
      (auto intro!: triple_sq [OF release] triple_ret split: prod.split)
qed


section \<open>Refused commands and the worktree\<close>

definition never_stops :: "'a ops \<Rightarrow> bool" where
  "never_stops m \<longleftrightarrow> (\<forall>s. \<exists>x s'. m s = (Inr x, s'))"

lemma never_stops_ret: "never_stops (ret x)"
  by (simp add: never_stops_def ret_def)

lemma never_stops_bnd: "never_stops m \<Longrightarrow> (\<And>x. never_stops (k x)) \<Longrightarrow> never_stops (bnd m k)"
  unfolding never_stops_def bnd_def by (metis (no_types, lifting) old.prod.case sum.case(2))

lemma never_stops_sq: "never_stops m \<Longrightarrow> never_stops k \<Longrightarrow> never_stops (sq m k)"
  unfolding sq_def by (rule never_stops_bnd)

lemma never_stops_attempted: "never_stops (attempted m)" "never_stops (ignoring m)"
  by (auto simp: never_stops_def attempted_def ignoring_def catch_def split: prod.split sum.split)

lemma never_stops_rest: "never_stops (cancel_rest env ports run c u)"
  unfolding cancel_rest_def cancel_jobs_def abort_agent_def reset_worktree_def release_lease_of_def
  by (auto intro!: never_stops_sq never_stops_bnd never_stops_attempted never_stops_ret
    split: prod.split sum.split)

text \<open>
  A refused cancellation has done nothing. If \<open>CancelRun\<close> throws, because the run is missing,
  terminal or was changed meanwhile, then no job was reconciled, no agent aborted, no git command
  run and no event published; everything after the guarded write of the status is best effort
  and cannot make it throw.
\<close>

theorem refused_cancel_does_nothing:
  assumes "undisturbed env" and "cancel_run env ports u reason s = (Inl e, s')"
  shows "os_db s' = os_db s \<and> os_calls s' = os_calls s \<and> os_events s' = os_events s"
proof -
  have rest: "cancel_rest env ports run c u z \<noteq> (Inl e, s')" for run c z
    using never_stops_rest [of env ports run c u] unfolding never_stops_def
    by (metis fst_conv old.sum.distinct(2))
  have failed: "t = od_runs (os_db s)" if "atomicUpdateByUuid (od_runs (os_db s)) u (cancel_patch c) st = (False, t)" for c st t
    using that by (auto simp: atomicUpdateByUuid_def update_where_def list_ex_iff intro!: map_idI)
  show ?thesis
    using assms(2)
    by (auto simp: cancel_run_def find_run_op_def query_def sql_alone [OF assms(1)] bnd_run stop_run now_op_def
      ask_run ret_run lift_run_error_def cas_run_def db_runs_def rest dest: failed
      split: option.splits sum.splits prod.splits if_splits)
qed

text \<open>The calls of ports a program adds.\<close>

definition adds_calls :: "string list \<Rightarrow> 'a ops \<Rightarrow> bool" where
  "adds_calls cs m \<longleftrightarrow> (\<forall>s. os_calls (snd (m s)) = os_calls s @ cs)"

lemma adds_sql: "adds_calls [] (sql env f)"
  by (simp add: adds_calls_def sql_def Let_def split: prod.split)

lemma adds_publish: "adds_calls [] (publish env run ty)"
  by (simp add: adds_calls_def publish_def split: option.split)

lemma adds_ret: "adds_calls [] (ret x)" "adds_calls [] (stop e)"
  by (simp_all add: adds_calls_def ret_def stop_def)

lemma adds_calls_end: "adds_calls cs m \<Longrightarrow> m s = (x, s') \<Longrightarrow> os_calls s' = os_calls s @ cs"
  unfolding adds_calls_def by (metis snd_conv)

lemma adds_quiet_bnd:
  assumes "adds_calls [] m" and "\<And>x. adds_calls [] (k x)"
  shows "adds_calls [] (bnd m k)"
  unfolding adds_calls_def
proof
  fix s
  obtain r s1 where r: "m s = (r, s1)" by (rule prod.exhaust)
  from adds_calls_end [OF assms(1) r] assms(2) r
  show "os_calls (snd (bnd m k s)) = os_calls s @ []"
    by (cases r) (simp_all add: bnd_def adds_calls_def)
qed

lemma adds_after:
  assumes "adds_calls cs m" and "never_stops m" and "\<And>x. adds_calls ds (k x)"
  shows "adds_calls (cs @ ds) (bnd m k)"
  unfolding adds_calls_def
proof
  fix s
  obtain x s1 where r: "m s = (Inr x, s1)" using assms(2) unfolding never_stops_def by blast
  from adds_calls_end [OF assms(1) r] assms(3) [of x] r
  show "os_calls (snd (bnd m k s)) = os_calls s @ cs @ ds"
    by (simp add: bnd_def adds_calls_def)
qed

lemma adds_attempted: "adds_calls cs m \<Longrightarrow> adds_calls cs (attempted m)" "adds_calls cs m \<Longrightarrow> adds_calls cs (ignoring m)"
  by (auto simp: adds_calls_def attempted_def ignoring_def catch_def split: prod.split sum.split
    dest: adds_calls_end [unfolded adds_calls_def])

lemma adds_each: "(\<And>x. adds_calls [] (f x)) \<Longrightarrow> adds_calls [] (each f xs)"
  by (induction xs) (auto simp: sq_def intro: adds_ret adds_quiet_bnd)

lemma adds_acting: "adds_calls [what] (acting env what f)"
  by (simp add: adds_calls_def acting_def act_def bnd_run sq_run tell_run port_def query_def sql_def calling_def
    Let_def stop_run ret_run split: sum.split)

lemma adds_jobs: "adds_calls [] (cancel_jobs env u)"
  unfolding cancel_jobs_def cancel_job_def query_def only_if_def
  by (intro adds_attempted adds_quiet_bnd adds_each adds_sql) (auto intro: adds_publish adds_ret)

lemma adds_release: "adds_calls [] (release_lease_of env run)"
  unfolding release_lease_of_def query_def release_op_def
  by (intro adds_attempted adds_quiet_bnd adds_sql) (auto intro: adds_sql adds_ret split: option.split)

lemma adds_abort: "adds_calls [''abort'', ''unregister''] (abort_agent env ports)"
  unfolding abort_agent_def sq_def
  using adds_after [OF adds_attempted(1) [OF adds_acting] never_stops_attempted(1)
      adds_after [OF adds_attempted(2) [OF adds_acting] never_stops_attempted(2) adds_ret(1)]]
  by simp

text \<open>
  The worktree is never reset under a running agent. When the abort of the agent timed out,
  the only calls \<open>CancelRun\<close> has made are the abort itself and the removal of the registration:
  no git command ran, and the result says so, with any interference of other processes.
\<close>

theorem timed_out_abort_keeps_worktree:
  assumes "cancel_run env ports u reason s = (Inr res, s')" and "cr_abortStatus res = Ab_timed_out"
  shows "os_calls s' = os_calls s @ [''abort'', ''unregister''] \<and> \<not> cr_worktreeReset res \<and> cr_branchSha res = None"
proof -
  have rest: "os_calls z' = os_calls z @ [''abort'', ''unregister''] \<and> \<not> cr_worktreeReset res \<and> cr_branchSha res = None"
    if go: "cancel_rest env ports run c u z = (Inr res, z')" for run c z z'
  proof -
    obtain x1 z1 where 1: "cancel_jobs env u z = (Inr x1, z1)"
      using never_stops_attempted(2) by (auto simp: cancel_jobs_def never_stops_def)
    obtain ab z2 where 2: "abort_agent env ports z1 = (Inr ab, z2)"
      using go 1 by (auto simp: cancel_rest_def sq_run bnd_run split: sum.splits prod.splits)
    obtain pair z3 where 3: "(if ab = Ab_timed_out then ret (False, None) else reset_worktree env ports) z2 = (Inr pair, z3)"
      using go 1 2 by (auto simp: cancel_rest_def sq_run bnd_run split: sum.splits prod.splits)
    obtain reset sha where p: "pair = (reset, sha)" by (rule prod.exhaust)
    obtain x4 z4 where 4: "release_lease_of env run z3 = (Inr x4, z4)"
      using go 1 2 3 p by (auto simp: cancel_rest_def sq_run bnd_run split: sum.splits prod.splits)
    have ends: "z' = z4" "cr_abortStatus res = ab" "cr_worktreeReset res = reset" "cr_branchSha res = sha"
      using go 1 2 3 4 p by (auto simp: cancel_rest_def sq_run bnd_run ret_run)
    then have "z3 = z2" "\<not> reset" "sha = None" using 3 p assms(2) by (auto simp: ret_def)
    then show ?thesis
      using adds_calls_end [OF adds_jobs 1] adds_calls_end [OF adds_abort 2] adds_calls_end [OF adds_release 4] ends
      by simp
  qed
  show ?thesis
    using assms(1) rest
    by (auto simp: cancel_run_def find_run_op_def query_def bnd_run stop_run now_op_def ask_run ret_run
      lift_run_error_def cas_run_def sql_def Let_def db_runs_def split: option.splits sum.splits prod.splits if_splits)
qed

section \<open>A sample of commands\<close>

definition quiet_ports :: "abort_status \<Rightarrow> cancel_ports" where
  "quiet_ports st = \<lparr>cp_abort = (\<lambda>_. Inr (Some st)), cp_unregister = (\<lambda>_. Inr ()), cp_findCwd = (\<lambda>_. Inr ''/w''),
     cp_headCommitShaOf = (\<lambda>_ _. Inr None), cp_headCommitSha = (\<lambda>_ _. Inr ''abc''),
     cp_resetHard = (\<lambda>_ _ _. Inr ()), cp_cleanUntracked = (\<lambda>_ _. Inr ())\<rparr>"

abbreviation cancelled_sample :: "abort_status \<Rightarrow> run_status \<Rightarrow> (ops_exn + cancel_result) \<times> ops_state" where
  "cancelled_sample st status \<equiv>
     cancel_run quiet_env (quiet_ports st) ''u'' None (quiet_state (sample_row ''u'' status))"

lemma sample_cancels: "\<exists>res s'. cancelled_sample Ab_timed_out RRunning = (Inr res, s') \<and> cr_abortStatus res = Ab_timed_out"
proof -
  have "(case fst (cancelled_sample Ab_timed_out RRunning) of Inl e \<Rightarrow> False | Inr res \<Rightarrow> cr_abortStatus res = Ab_timed_out)"
    by code_simp
  then show ?thesis by (cases "cancelled_sample Ab_timed_out RRunning") (auto split: sum.splits)
qed

lemma sample_refused: "\<exists>e s'. cancelled_sample Ab_exited RPassed = (Inl e, s')"
proof -
  have "(case fst (cancelled_sample Ab_exited RPassed) of Inl e \<Rightarrow> True | Inr res \<Rightarrow> False)"
    by code_simp
  then show ?thesis by (cases "cancelled_sample Ab_exited RPassed") (auto split: sum.splits)
qed


theorem refused_cancel_does_nothing_witness:
  "os_calls (snd (cancelled_sample Ab_exited RPassed)) = [] \<and>
   od_runs (os_db (snd (cancelled_sample Ab_exited RPassed))) = [sample_row ''u'' RPassed]"
proof -
  obtain e s' where go: "cancelled_sample Ab_exited RPassed = (Inl e, s')" using sample_refused by blast
  from refused_cancel_does_nothing [OF quiet_alone go] go show ?thesis
    by (simp add: quiet_state_def)
qed

theorem timed_out_abort_keeps_worktree_witness:
  "os_calls (snd (cancelled_sample Ab_timed_out RRunning)) = [''abort'', ''unregister'']"
proof -
  obtain res s' where go: "cancelled_sample Ab_timed_out RRunning = (Inr res, s')" "cr_abortStatus res = Ab_timed_out"
    using sample_cancels by blast
  from timed_out_abort_keeps_worktree [OF this] go show ?thesis
    by (simp add: quiet_state_def)
qed

text \<open>A resumption whose write of the reopened phase fails, and one that is queued.\<close>

definition sample_repo :: repository where
  "sample_repo = \<lparr>r_id = ''repo'', r_owner = ''o'', r_name = ''n'', r_fullName = ''o/n'', r_defaultBranch = ''main'',
     r_remoteUrl = ''git'', r_localBasePath = ''/r'', r_enabled = True,
     r_maxConcurrentRuns = 1, r_healthStatus = Healthy, r_healthError = None, r_lastHealthCheckAt = None,
     r_configMetadata = [], r_createdAt = 0, r_updatedAt = 0\<rparr>"

definition open_env :: ops_env where
  "open_env = quiet_env\<lparr>oe_repos := (\<lambda>_. Some sample_repo)\<rparr>"

definition resumed_sample :: "string option \<Rightarrow> (ops_exn + ident) \<times> ops_state" where
  "resumed_sample dbError = resume_run open_env \<lparr>su_inspect = (\<lambda>_ _. Inr []), su_dbError = (\<lambda>_. dbError)\<rparr>
     \<lparr>su_runId = ''u'', su_fromPhase = Some ''implement'', su_workerId = ''w'', su_attempt = None,
      su_disposition = None, su_pinnedRuntime = None\<rparr> (quiet_state (sample_row ''u'' RFailed))"

lemma sample_resumes:
  "case fst (resumed_sample (Some ''locked'')) of Inl e \<Rightarrow> True | Inr job \<Rightarrow> False"
  "case fst (resumed_sample None) of Inl e \<Rightarrow> False | Inr job \<Rightarrow> True"
  by code_simp+

theorem failed_resume_is_undone_witness:
  "od_runs (os_db (snd (resumed_sample (Some ''locked'')))) = [sample_row ''u'' RFailed] \<and>
   length (od_jobs (os_db (snd (resumed_sample None)))) = 1"
proof -
  have m: "matches_run (od_runs (os_db (quiet_state (sample_row ''u'' RFailed))))
      (su_runId \<lparr>su_runId = ''u'', su_fromPhase = Some ''implement'', su_workerId = ''w'', su_attempt = None,
      su_disposition = None, su_pinnedRuntime = None\<rparr>) (sample_row ''u'' RFailed)"
    by (simp add: matches_run_def quiet_state_def sample_row_def record_of_run_def run.defs run_record.defs)
  have u: "undisturbed open_env" by (simp add: open_env_def undisturbed_def quiet_env_def)
  obtain e s' where go: "resumed_sample (Some ''locked'') = (Inl e, s')"
    using sample_resumes(1) by (cases "resumed_sample (Some ''locked'')") (auto split: sum.splits)
  obtain job s'' where go': "resumed_sample None = (Inr job, s'')"
    using sample_resumes(2) by (cases "resumed_sample None") (auto split: sum.splits)
  show ?thesis
    using failed_resume_is_undone [OF u m go [unfolded resumed_sample_def]]
      failed_resume_is_undone [OF u m go' [unfolded resumed_sample_def]] go go'
    by (auto simp: quiet_state_def queued_resumption_def)
qed

end
