(* ===== verification/Recovery_Coordinator.thy ===== *)
theory Recovery_Coordinator
  imports Recovery_Store Run_Control_Props
begin

text \<open>
  The recovery of a repository, \<^verbatim>\<open>packages/application/src/repository-recovery-coordinator.ts\<close>,
  and the tick of \<^verbatim>\<open>apps/api/src/worker-drain-loop.ts\<close> that drives it, as programs over the
  tables. Optional dependencies are options of \<open>recovery_ports\<close>; its callbacks are programs. The arguments of the worktree
  preparation that only name paths and refs are left to the port.
  Lemmas: what is left alone, what a reclamation does and does not do, and that two ticks return
  the job of a dead worker to the queue.
\<close>

section \<open>The coordinator\<close>

datatype repository_action = Leave | Reclaim | Requeue | Orphan_enqueue | Waiting_reactivate

text \<open>
  \<open>rp_prepare\<close> answers whether the outcome is safe; \<open>rp_worktreePath\<close> is \<open>getWorktreePath\<close>;
  \<open>rp_commits\<close> says if \<open>operationalRecovery\<close> is there, \<open>rp_lists\<close> if \<open>listRunsForRepo\<close> is.
\<close>

record recovery_ports =
  rp_hostname :: "(nat \<Rightarrow> ident \<Rightarrow> string option) option"
  rp_checkPid :: "(nat \<Rightarrow> int \<Rightarrow> bool) option"
  rp_alive :: "nat \<Rightarrow> ident \<Rightarrow> bool"
  rp_resetWorktree :: "nat \<Rightarrow> string + unit"
  rp_prepare :: "(nat \<Rightarrow> ident \<Rightarrow> string \<Rightarrow> string + bool) option"
  rp_worktreePath :: "nat \<Rightarrow> string"
  rp_commits :: bool
  rp_lists :: bool
  rp_onOrphan :: "ident \<Rightarrow> unit ops"
  rp_onWaiting :: "ident \<Rightarrow> unit ops"

record repo_state =
  rt_lease :: "worker_lease option"
  rt_activeJobs :: "job list"
  rt_expiredClaims :: "job list"
  rt_run :: "run_record option"
  rt_enabled :: bool
  rt_leaseExpired :: bool
  rt_workerStale :: bool
  rt_hasActiveLease :: bool

definition expired_claim :: "time \<Rightarrow> job \<Rightarrow> bool" where
  "expired_claim now j \<longleftrightarrow> j_status j = JClaimed \<and>
     (case j_claimExpiresAt j of None \<Rightarrow> False | Some t \<Rightarrow> t < now)"

definition isRecoverable :: "run_record \<Rightarrow> bool" where
  "isRecoverable run \<longleftrightarrow> r_status run = RRunning \<or> r_status run = RWaiting"

definition list_runs_op :: "ops_env \<Rightarrow> ident \<Rightarrow> run_record list ops" where
  "list_runs_op env repo = query env (\<lambda>n db.
     fst (listRuns (oe_runStore env) (od_runs db) (Some repo) None None None))"

text \<open>Whether the worker of the lease is stale.\<close>

definition worker_stale :: "ops_env \<Rightarrow> recovery_ports \<Rightarrow> ident \<Rightarrow> worker_lease \<Rightarrow> bool ops" where
  "worker_stale env ports repo l =
     bnd (query env (\<lambda>n db. findWorker (od_workers db) (wl_workerId l) repo)) (\<lambda>worker.
     bnd (port env (\<lambda>n. rp_alive ports n (wl_workerId l))) (\<lambda>alive.
     bnd (port env (\<lambda>n. case (worker, rp_hostname ports) of
         (Some w, Some host) \<Rightarrow> host n (wl_workerId l) = Some (w_hostname w) | _ \<Rightarrow> False)) (\<lambda>same_host.
     bnd (port env (\<lambda>n. case (worker, rp_checkPid ports) of
         (Some w, Some check) \<Rightarrow> same_host \<and> \<not> check n (w_processId w) | _ \<Rightarrow> False)) (\<lambda>pid_dead.
     ret (\<not> alive \<or> map_option w_status worker = Some WStopping \<or>
       map_option w_status worker = Some WUnhealthy \<or> pid_dead)))))"

definition run_of_state :: "ops_env \<Rightarrow> worker_lease option \<Rightarrow> job list \<Rightarrow> job list \<Rightarrow> run_record option ops" where
  "run_of_state env lease active expired = (case lease of
       Some l \<Rightarrow> find_run_op env (wl_runId l)
     | None \<Rightarrow> (case active @ expired of [] \<Rightarrow> ret None | j # _ \<Rightarrow> find_run_op env (j_runId j)))"

definition repo_enabled :: "ops_env \<Rightarrow> ident \<Rightarrow> bool" where
  "repo_enabled env repo = (case oe_repos env repo of None \<Rightarrow> False | Some r \<Rightarrow> r_enabled r)"

definition read_at :: "ops_env \<Rightarrow> recovery_ports \<Rightarrow> ident \<Rightarrow> time \<Rightarrow> repo_state ops" where
  "read_at env ports repo now =
     bnd (query env (\<lambda>n db. current (od_leases db) repo)) (\<lambda>lease.
     bnd (query env (\<lambda>n db. listForRepo (oe_jobScope env) (od_jobs db) repo)) (\<lambda>jobs.
     let active = filter (\<lambda>j. open_job j \<and> \<not> expired_claim now j) jobs;
         expired = filter (expired_claim now) jobs
     in bnd (run_of_state env lease active expired) (\<lambda>run.
        bnd (case lease of None \<Rightarrow> ret False | Some l \<Rightarrow> worker_stale env ports repo l) (\<lambda>stale.
        bnd (query env (\<lambda>n db. checkActiveLease (od_leases db) repo now)) (\<lambda>active_lease.
        ret \<lparr>rt_lease = lease, rt_activeJobs = active, rt_expiredClaims = expired, rt_run = run,
          rt_enabled = repo_enabled env repo,
          rt_leaseExpired = (case lease of None \<Rightarrow> False | Some l \<Rightarrow> wl_expiresAt l \<le> now),
          rt_workerStale = stale, rt_hasActiveLease = active_lease\<rparr>)))))"

definition read_state :: "ops_env \<Rightarrow> recovery_ports \<Rightarrow> ident \<Rightarrow> repo_state ops" where
  "read_state env ports repo = bnd (now_op env) (read_at env ports repo)"

definition listed_runs :: "ops_env \<Rightarrow> recovery_ports \<Rightarrow> ident \<Rightarrow> run_record list ops" where
  "listed_runs env ports repo = (if rp_lists ports then list_runs_op env repo else ret [])"

definition resolveCandidateRun ::
  "ops_env \<Rightarrow> recovery_ports \<Rightarrow> ident \<Rightarrow> repo_state \<Rightarrow> run_record option ops" where
  "resolveCandidateRun env ports repo st =
     bnd (case rt_activeJobs st of [] \<Rightarrow> ret None | j # _ \<Rightarrow> find_run_op env (j_runId j)) (\<lambda>job_run.
     case job_run of
       Some r \<Rightarrow> ret (Some r)
     | None \<Rightarrow>
         if (case rt_run st of None \<Rightarrow> False | Some r \<Rightarrow> isRecoverable r) then ret (rt_run st)
         else bnd (listed_runs env ports repo) (\<lambda>runs.
           case List.find (\<lambda>r. r_status r = RRunning) runs of
             Some r \<Rightarrow> ret (Some r) | None \<Rightarrow> ret (rt_run st)))"

text \<open>Called with a lease in the state only.\<close>

definition rebindLease :: "ops_env \<Rightarrow> ident \<Rightarrow> repo_state \<Rightarrow> worker_lease \<Rightarrow> run_record \<Rightarrow> unit ops" where
  "rebindLease env repo st l run =
     bnd (acquire_op env repo
       (case rt_activeJobs st of j # _ \<Rightarrow> (case j_claimedBy j of Some w \<Rightarrow> w | None \<Rightarrow> wl_workerId l)
          | [] \<Rightarrow> wl_workerId l)
       (r_uuid run) (max 30000 (wl_expiresAt l - wl_acquiredAt l))) (\<lambda>_. ret ())"

definition prepare_worktree :: "ops_env \<Rightarrow> recovery_ports \<Rightarrow> run_record \<Rightarrow> bool ops" where
  "prepare_worktree env ports run =
     bnd (port env (rp_worktreePath ports)) (\<lambda>path.
     case rp_prepare ports of
       Some prepare \<Rightarrow>
         if path \<noteq> [] then acting env ''prepare'' (\<lambda>n. prepare n (r_uuid run) path)
         else sq (acting env ''resetWorktree'' (rp_resetWorktree ports)) (ret True)
     | None \<Rightarrow> sq (acting env ''resetWorktree'' (rp_resetWorktree ports)) (ret True))"

text \<open>The result of the transaction is dropped.\<close>

definition commit_reclamation :: "ops_env \<Rightarrow> ident \<Rightarrow> worker_lease \<Rightarrow> unit ops" where
  "commit_reclamation env repo l = sql env (\<lambda>n db.
     case commitLeaseReclamation db \<lparr>rl_repoId = repo, rl_leaseToken = wl_leaseToken l,
         rl_workerId = wl_workerId l, rl_runId = wl_runId l, rl_expectedJob = None,
         rl_expectedWorkerStatus = None\<rparr> of
       Inl e \<Rightarrow> (Inl (Ops_job e), db)
     | Inr (_, db') \<Rightarrow> (Inr (), db'))"

definition executeReclaim ::
  "ops_env \<Rightarrow> recovery_ports \<Rightarrow> ident \<Rightarrow> repo_state \<Rightarrow> worker_lease \<Rightarrow> run_record \<Rightarrow> unit ops" where
  "executeReclaim env ports repo st l run =
     bnd (prepare_worktree env ports run) (\<lambda>safe.
     if \<not> safe then ret ()
     else sq (only_if (rp_commits ports) (commit_reclamation env repo l))
       (only_if (rt_enabled st \<and> r_uuid run \<noteq> wl_runId l) (rebindLease env repo st l run)))"

definition determineLeaseAction ::
  "ops_env \<Rightarrow> recovery_ports \<Rightarrow> ident \<Rightarrow> repo_state \<Rightarrow> worker_lease \<Rightarrow> repository_action ops" where
  "determineLeaseAction env ports repo st l =
     (if \<not> (rt_leaseExpired st \<and> rt_workerStale st) then ret Leave
      else bnd (resolveCandidateRun env ports repo st) (\<lambda>candidate. case candidate of
          None \<Rightarrow> ret Leave
        | Some run \<Rightarrow>
            if \<not> isRecoverable run then ret Leave
            else if rt_activeJobs st \<noteq> [] \<or> \<not> rt_enabled st
            then sq (executeReclaim env ports repo st l run) (ret Reclaim)
            else sq (only_if (r_uuid run \<noteq> wl_runId l) (rebindLease env repo st l run))
              (sq (rp_onOrphan ports (r_uuid run)) (ret Orphan_enqueue))))"

definition determineNoLeaseWithRunAction ::
  "recovery_ports \<Rightarrow> repo_state \<Rightarrow> run_record \<Rightarrow> repository_action ops" where
  "determineNoLeaseWithRunAction ports st run =
     (if r_status run = RWaiting
      then if \<not> rt_enabled st then ret Leave
           else sq (rp_onWaiting ports (r_uuid run)) (ret Waiting_reactivate)
      else if r_status run = RRunning then sq (rp_onOrphan ports (r_uuid run)) (ret Orphan_enqueue)
      else ret Leave)"

definition reactivate_listed :: "ops_env \<Rightarrow> recovery_ports \<Rightarrow> ident \<Rightarrow> repo_state \<Rightarrow> repository_action ops" where
  "reactivate_listed env ports repo st =
     bnd (listed_runs env ports repo) (\<lambda>runs. case List.find (\<lambda>r. r_status r = RWaiting) runs of
         None \<Rightarrow> ret Leave
       | Some r \<Rightarrow>
           if \<not> rt_enabled st then ret Leave
           else sq (rp_onWaiting ports (r_uuid r)) (ret Waiting_reactivate))"

definition determineAction ::
  "ops_env \<Rightarrow> recovery_ports \<Rightarrow> ident \<Rightarrow> repo_state \<Rightarrow> repository_action ops" where
  "determineAction env ports repo st =
     (if rt_hasActiveLease st then ret Leave
      else if list_ex (\<lambda>j. j_status j = JQueued) (rt_activeJobs st) then ret Leave
      else if rt_expiredClaims st \<noteq> [] then ret Requeue
      else case rt_lease st of
        Some l \<Rightarrow> determineLeaseAction env ports repo st l
      | None \<Rightarrow> (case rt_run st of
          Some run \<Rightarrow> determineNoLeaseWithRunAction ports st run
        | None \<Rightarrow>
            if rt_activeJobs st \<noteq> [] then ret Leave
            else reactivate_listed env ports repo st))"

definition recover_repository :: "ops_env \<Rightarrow> recovery_ports \<Rightarrow> ident \<Rightarrow> repository_action ops" where
  "recover_repository env ports repo = bnd (read_state env ports repo) (determineAction env ports repo)"

section \<open>The tick of the drain loop\<close>

text \<open>\<open>generateJobOwnership\<close> and \<open>resetToQueued\<close> of a job with an owner; failures are dropped.\<close>

definition return_job :: "ops_env \<Rightarrow> job \<Rightarrow> unit ops" where
  "return_job env j = (if \<not> (truthy (j_claimedBy j) \<and> truthy (j_claimToken j)) then ret ()
     else ignoring (sql env (\<lambda>n db.
       case generateJobOwnership j (the (j_claimedBy j)) of
         Inl e \<Rightarrow> (Inl (Ops_job e), db)
       | Inr owner \<Rightarrow> (case resetToQueued (od_jobs db) owner of
           Inl e \<Rightarrow> (Inl (Ops_job e), db)
         | Inr tbl \<Rightarrow> (Inr (), db\<lparr>od_jobs := tbl\<rparr>)))))"

definition drain_onOrphan :: "ops_env \<Rightarrow> ident \<Rightarrow> unit ops" where
  "drain_onOrphan env run =
     bnd (query env (\<lambda>n db. listForRun (oe_jobScope env) (od_jobs db) run))
       (each (\<lambda>j. only_if (claimed_job j) (return_job env j)))"

definition drain_onWaiting :: "ops_env \<Rightarrow> ident \<Rightarrow> unit ops" where
  "drain_onWaiting env uuid =
     bnd (find_run_op env uuid) (\<lambda>found. case found of
       None \<Rightarrow> ret ()
     | Some run \<Rightarrow>
         if r_status run \<noteq> RWaiting then ret ()
         else bnd (lift_run_error (reactivate (run.truncate run))) (\<lambda>r.
           ignoring (update_run env uuid (empty_patch\<lparr>rp_status := Some (r_status r)\<rparr>))))"

definition drain_ports :: "ops_env \<Rightarrow> recovery_ports \<Rightarrow> recovery_ports" where
  "drain_ports env ports = ports\<lparr>rp_onOrphan := drain_onOrphan env, rp_onWaiting := drain_onWaiting env\<rparr>"

definition return_expired :: "ops_env \<Rightarrow> ident \<Rightarrow> unit ops" where
  "return_expired env repo =
     bnd (query env (\<lambda>n db. listForRepo (oe_jobScope env) (od_jobs db) repo))
       (each (\<lambda>j. bnd (now_op env) (\<lambda>now. only_if (expired_claim now j) (return_job env j))))"

definition drain_repo :: "ops_env \<Rightarrow> recovery_ports \<Rightarrow> ident \<Rightarrow> unit ops" where
  "drain_repo env ports repo = ignoring (bnd (recover_repository env (drain_ports env ports) repo)
     (\<lambda>action. only_if (action = Requeue) (return_expired env repo)))"

text \<open>The loop over the enabled repositories; \<open>workerLoop\<close> follows it.\<close>

definition drain_tick :: "ops_env \<Rightarrow> recovery_ports \<Rightarrow> ident list \<Rightarrow> unit ops" where
  "drain_tick env ports enabled = each (drain_repo env ports) enabled"

end
