(* ===== verification/Recovery_Coordinator_Props.thy ===== *)
theory Recovery_Coordinator_Props
  imports Recovery_Coordinator
begin

text \<open>
  Properties of the recovery of a repository: what is left alone, how the job of a dead worker
  comes back, and when it does not.
\<close>

section \<open>Evaluation\<close>

abbreviation at :: "ops_db \<Rightarrow> string list \<Rightarrow> ops_state \<Rightarrow> bool" where
  "at D C s \<equiv> os_db s = D \<and> os_calls s = C"

lemma at_query:
  assumes "undisturbed env" and "\<And>n. triple (at D C) (k (f n D)) Q E"
  shows "triple (at D C) (bnd (query env f) k) Q E"
  using assms(2) by (auto simp: triple_def bnd_run query_def sql_alone [OF assms(1)])

lemma at_port:
  "undisturbed env \<Longrightarrow> (\<And>n. triple (at D C) (k (f n)) Q E) \<Longrightarrow> triple (at D C) (bnd (port env f) k) Q E"
  unfolding port_def by (rule at_query)

lemma at_find:
  "undisturbed env \<Longrightarrow> triple (at D C) (k (findRunByUuid (oe_runStore env) (od_runs D) u)) Q E \<Longrightarrow>
   triple (at D C) (bnd (find_run_op env u) k) Q E"
  unfolding find_run_op_def by (rule at_query)

lemma at_now:
  "(\<And>n. triple (at D C) (k (oe_now env n)) Q E) \<Longrightarrow> triple (at D C) (bnd (now_op env) k) Q E"
  by (auto simp: triple_def bnd_run now_op_def ask_run)

lemma triple_total: "triple P m Q (\<lambda>_ _. False) \<Longrightarrow> P s \<Longrightarrow> \<exists>x s'. m s = (Inr x, s') \<and> Q x s'"
  by (cases "m s"; cases "fst (m s)") (auto simp: triple_def)

section \<open>What the coordinator sees\<close>

definition run_seen :: "ops_env \<Rightarrow> ops_db \<Rightarrow> worker_lease option \<Rightarrow> job list \<Rightarrow> run_record option" where
  "run_seen env D lease jobs = (case lease of
       Some l \<Rightarrow> findRunByUuid (oe_runStore env) (od_runs D) (wl_runId l)
     | None \<Rightarrow> (case jobs of [] \<Rightarrow> None | j # _ \<Rightarrow> findRunByUuid (oe_runStore env) (od_runs D) (j_runId j)))"

definition sees :: "ops_env \<Rightarrow> recovery_ports \<Rightarrow> ops_db \<Rightarrow> ident \<Rightarrow> time \<Rightarrow> repo_state \<Rightarrow> bool" where
  "sees env ports D repo now st \<longleftrightarrow>
     (let jobs = listForRepo (oe_jobScope env) (od_jobs D) repo; lease = od_leases D repo
      in rt_lease st = lease \<and>
         rt_activeJobs st = filter (\<lambda>j. open_job j \<and> \<not> expired_claim now j) jobs \<and>
         rt_expiredClaims st = filter (expired_claim now) jobs \<and>
         rt_run st = run_seen env D lease (rt_activeJobs st @ rt_expiredClaims st) \<and>
         rt_enabled st = repo_enabled env repo \<and>
         rt_leaseExpired st = (lease \<noteq> None \<and> \<not> checkActiveLease (od_leases D) repo now) \<and>
         rt_hasActiveLease st = checkActiveLease (od_leases D) repo now \<and>
         (lease \<noteq> None \<longrightarrow> (\<forall>n w. \<not> rp_alive ports n w) \<longrightarrow> rt_workerStale st))"

lemma at_stale:
  assumes "undisturbed env"
    and "\<And>b. (\<forall>n w. \<not> rp_alive ports n w) \<longrightarrow> b \<Longrightarrow> triple (at D C) (k b) Q E"
  shows "triple (at D C) (bnd (worker_stale env ports repo l) k) Q E"
  unfolding worker_stale_def bnd_assoc
  by (intro at_query at_port assms(1)) (simp add: assms(2))

lemma at_run_of_state:
  assumes "undisturbed env" and "triple (at D C) (k (run_seen env D lease (active @ expired))) Q E"
  shows "triple (at D C) (bnd (run_of_state env lease active expired) k) Q E"
  using assms(2) unfolding run_of_state_def run_seen_def
  by (auto intro!: at_find [OF assms(1)] split: option.split list.split)

lemma at_read:
  assumes u: "undisturbed env" and k: "\<And>st. sees env ports D repo now st \<Longrightarrow> triple (at D C) (k st) Q E"
  shows "triple (at D C) (bnd (read_at env ports repo now) k) Q E"
  unfolding read_at_def bnd_assoc Let_def current_def
proof (intro at_query u at_run_of_state)
  let ?jobs = "listForRepo (oe_jobScope env) (od_jobs D) repo"
  show "triple (at D C) (bnd (case od_leases D repo of None \<Rightarrow> ret False | Some l \<Rightarrow> worker_stale env ports repo l)
     (\<lambda>stale. bnd (query env (\<lambda>n db. checkActiveLease (od_leases db) repo now)) (\<lambda>active_lease.
        bnd (ret \<lparr>rt_lease = od_leases D repo,
          rt_activeJobs = filter (\<lambda>j. open_job j \<and> \<not> expired_claim now j) ?jobs,
          rt_expiredClaims = filter (expired_claim now) ?jobs,
          rt_run = run_seen env D (od_leases D repo) (filter (\<lambda>j. open_job j \<and> \<not> expired_claim now j) ?jobs @
            filter (expired_claim now) ?jobs),
          rt_enabled = repo_enabled env repo,
          rt_leaseExpired = (case od_leases D repo of None \<Rightarrow> False | Some l \<Rightarrow> wl_expiresAt l \<le> now),
          rt_workerStale = stale, rt_hasActiveLease = active_lease\<rparr>) k))) Q E"
  proof (cases "od_leases D repo")
    case None
    show ?thesis unfolding None option.case bnd_ret
      by (rule at_query [OF u], rule k) (simp add: sees_def Let_def None checkActiveLease_def)
  next
    case (Some l)
    show ?thesis unfolding Some option.case bnd_ret
      by (rule at_stale [OF u], rule at_query [OF u], rule k) (auto simp: sees_def Let_def Some checkActiveLease_def)
  qed
qed

text \<open>
  The coordinator leaves a repository that is taken care of alone: with an unexpired lease or
  a queued job it answers \<open>leave\<close>, whatever else it sees, writes no table and calls nothing.
\<close>

theorem live_repository_left_alone:
  assumes "undisturbed env"
    and "checkActiveLease (od_leases (os_db s)) repo (oe_now env (os_clock s)) \<or>
      list_ex (\<lambda>j. j_status j = JQueued) (listForRepo (oe_jobScope env) (od_jobs (os_db s)) repo)"
  shows "\<exists>s'. recover_repository env ports repo s = (Inr Leave, s') \<and> os_db s' = os_db s \<and> os_calls s' = os_calls s"
proof -
  let ?now = "oe_now env (os_clock s)"
  have "triple (at (os_db s) (os_calls s)) (bnd (read_at env ports repo ?now) (determineAction env ports repo))
      (\<lambda>x s'. x = Leave \<and> at (os_db s) (os_calls s) s') (\<lambda>_ _. False)"
  proof (rule at_read [OF assms(1)])
    fix st
    assume "sees env ports (os_db s) repo ?now st"
    then have "rt_hasActiveLease st \<or> list_ex (\<lambda>j. j_status j = JQueued) (rt_activeJobs st)"
      using assms(2) by (auto simp: sees_def Let_def list_ex_iff open_job_def expired_claim_def)
    then show "triple (at (os_db s) (os_calls s)) (determineAction env ports repo st)
        (\<lambda>x s'. x = Leave \<and> at (os_db s) (os_calls s) s') (\<lambda>_ _. False)"
      by (auto simp: determineAction_def intro: triple_ret)
  qed
  from this have "case bnd (read_at env ports repo ?now) (determineAction env ports repo) s of
      (Inr x, s') \<Rightarrow> x = Leave \<and> at (os_db s) (os_calls s) s' | (Inl e, s') \<Rightarrow> False"
    unfolding triple_def by simp
  moreover have "recover_repository env ports repo s =
      bnd (read_at env ports repo ?now) (determineAction env ports repo) s"
    by (simp add: recover_repository_def read_state_def now_op_def bnd_run ask_run)
  ultimately show ?thesis by (auto split: prod.splits sum.splits)
qed

section \<open>The job of a dead worker\<close>

definition returned :: "job \<Rightarrow> job" where
  "returned j = j\<lparr>j_claimedBy := None, j_claimedAt := None, j_startedAt := None, j_claimToken := None,
     j_status := JQueued\<rparr>"

lemma apply_reset: "apply_job_op Op_reset = resetJobToQueued"
  by (simp add: fun_eq_iff)

lemma reset_row:
  assumes "resetToQueued t owner = Inr t'" and "ids_distinct t"
  obtains row where "row \<in> set t" "row_owned owner row" "claimed_job row" "t' = replace_row (returned row) t"
proof -
  have "updateJobWithOwnership t owner (apply_job_op Op_reset) = Inr t'"
    using assms(1) unfolding resetToQueued_def apply_reset .
  from updateJob_InrD [OF this assms(2)] obtain row u where
    "row \<in> set t" "row_owned owner row" "resetJobToQueued row = Inr u" "t' = replace_row u t" by auto
  moreover from this have "claimed_job row" "u = returned row"
    by (auto simp: resetJobToQueued_def claimed_job_def returned_def split: if_split_asm)
  ultimately show ?thesis using that by blast
qed

lemma reset_others:
  assumes "resetToQueued t owner = Inr t'" and "ids_distinct t" and "r \<in> set t"
    and "j_id r \<noteq> o_jobId owner \<or> j_claimedBy r = None"
  shows "r \<in> set t'"
proof -
  obtain row where row: "row \<in> set t" "row_owned owner row" "t' = replace_row (returned row) t"
    by (rule reset_row [OF assms(1,2)])
  have "r \<noteq> row" using row(2) assms(4) by (auto simp: row_owned_def)
  then have "j_id r \<noteq> j_id row" using same_row [OF assms(2,3) row(1)] by blast
  then show ?thesis using assms(3) row(3) by (force simp: replace_row_def returned_def image_iff)
qed

lemma reset_distinct:
  assumes "resetToQueued t owner = Inr t'" and "ids_distinct t"
  shows "ids_distinct t'"
  by (rule reset_row [OF assms]) (use assms(2) in \<open>simp add: ids_distinct_def map_id_replace_row\<close>)

lemma reset_owner:
  assumes "ids_distinct t" and "j \<in> set t" and "claimed_job j" and "row_owned owner j"
  shows "\<exists>t'. resetToQueued t owner = Inr t' \<and> returned j \<in> set t'"
proof -
  obtain row where f: "List.find (row_owned owner) t = Some row"
    using assms(2,4) by (cases "List.find (row_owned owner) t") (auto simp: find_None_iff)
  then have "row = j"
    using find_SomeD [OF f] same_row [OF assms(1) _ assms(2)] assms(4) by (auto simp: row_owned_def)
  then have "List.find (row_owned owner) t = Some j" using f by simp
  moreover have "resetJobToQueued j = Inr (returned j)"
    using assms(3) by (auto simp: resetJobToQueued_def returned_def claimed_job_def)
  moreover have "list_ex (\<lambda>r. j_id r = j_id (returned j) \<and> j_claimedBy r = Some (o_workerId owner) \<and>
      j_claimToken r = Some (o_claimToken owner)) t"
    using assms(2,4) by (auto simp: list_ex_iff row_owned_def returned_def)
  moreover have "settle_update (returned j) j = returned j"
    by (simp add: settle_update_def returned_def)
  ultimately show ?thesis
    using assms(2,4) by (auto simp: resetToQueued_def updateJobWithOwnership_def row_owned_def returned_def
      intro!: rev_image_eqI [where x = j])
qed

text \<open>Returning the jobs of a list returns each claimed job of it, and keeps the other tables.\<close>

abbreviation jobs_at :: "ops_db \<Rightarrow> (job_table \<Rightarrow> bool) \<Rightarrow> ops_state \<Rightarrow> bool" where
  "jobs_at D P s \<equiv> os_db s\<lparr>od_jobs := []\<rparr> = D\<lparr>od_jobs := []\<rparr> \<and> ids_distinct (od_jobs (os_db s)) \<and>
     P (od_jobs (os_db s))"

definition snapshot_owner :: "job \<Rightarrow> job_ownership" where
  "snapshot_owner x = \<lparr>o_jobId = j_id x, o_workerId = the (j_claimedBy x), o_claimToken = the (j_claimToken x)\<rparr>"

lemma return_job_run:
  assumes "undisturbed env" and "truthy (j_claimedBy x)" and "truthy (j_claimToken x)"
  shows "return_job env x s = (Inr (), s\<lparr>os_clock := os_clock s + 1,
    os_db := (case resetToQueued (od_jobs (os_db s)) (snapshot_owner x) of
       Inl _ \<Rightarrow> os_db s | Inr t \<Rightarrow> os_db s\<lparr>od_jobs := t\<rparr>)\<rparr>)"
  using assms(2,3)
  by (auto simp: return_job_def ignoring_def catch_def sql_alone [OF assms(1)] generateJobOwnership_def
    snapshot_owner_def truthy_iff split: sum.split)

lemma return_keeps:
  assumes "undisturbed env" and "\<And>t t'. P t \<Longrightarrow> ids_distinct t \<Longrightarrow> resetToQueued t (snapshot_owner x) = Inr t' \<Longrightarrow> P t'"
  shows "triple (jobs_at D P) (return_job env x) (\<lambda>_. jobs_at D P) E"
proof (cases "truthy (j_claimedBy x) \<and> truthy (j_claimToken x)")
  case True
  show ?thesis
  proof (rule tripleI)
    fix s assume s: "jobs_at D P s"
    then show "case return_job env x s of (Inr y, s') \<Rightarrow> jobs_at D P s' | (Inl e, s') \<Rightarrow> E e s'"
      using assms(2) reset_distinct True
      by (cases "resetToQueued (od_jobs (os_db s)) (snapshot_owner x)") (auto simp: return_job_run [OF assms(1)])
  qed
next
  case False
  then show ?thesis by (auto simp: return_job_def intro: triple_ret)
qed

lemma return_this:
  assumes "undisturbed env" and "truthy (j_claimedBy x)" and "truthy (j_claimToken x)" and "claimed_job x"
  shows "triple (jobs_at D (\<lambda>t. x \<in> set t)) (return_job env x) (\<lambda>_. jobs_at D (\<lambda>t. returned x \<in> set t)) E"
proof (rule tripleI)
  fix s assume s: "jobs_at D (\<lambda>t. x \<in> set t) s"
  have "row_owned (snapshot_owner x) x"
    using assms(2,3) by (auto simp: row_owned_def snapshot_owner_def truthy_iff)
  with reset_owner s assms(4) obtain t' where
    t': "resetToQueued (od_jobs (os_db s)) (snapshot_owner x) = Inr t'" "returned x \<in> set t'" by blast
  moreover from this have "ids_distinct t'" using reset_distinct s by blast
  ultimately show "case return_job env x s of
      (Inr y, s') \<Rightarrow> jobs_at D (\<lambda>t. returned x \<in> set t) s' | (Inl e, s') \<Rightarrow> E e s'"
    using s by (auto simp: return_job_run [OF assms(1-3)])
qed

lemma return_other:
  assumes "undisturbed env" and "\<And>x. x \<in> set xs \<Longrightarrow> j_id x \<noteq> j_id j \<or> j_claimedBy j = None"
  shows "triple (jobs_at D (\<lambda>t. j \<in> set t)) (each (\<lambda>x. only_if (c x) (return_job env x)) xs)
    (\<lambda>_. jobs_at D (\<lambda>t. j \<in> set t)) E"
proof (rule triple_each, rule triple_only_if)
  fix x assume "x \<in> set xs"
  then have "j \<in> set t'" if "j \<in> set t" "ids_distinct t" "resetToQueued t (snapshot_owner x) = Inr t'" for t t'
    using reset_others [OF that(3,2,1)] assms(2) by (auto simp: snapshot_owner_def)
  then show "triple (jobs_at D (\<lambda>t. j \<in> set t)) (return_job env x) (\<lambda>_. jobs_at D (\<lambda>t. j \<in> set t)) E"
    by (rule return_keeps [OF assms(1)])
qed simp

lemma each_append: "each f (xs @ y # ys) = sq (each f xs) (sq (f y) (each f ys))"
  by (induction xs) (simp_all add: sq_def bnd_assoc)

lemma return_all:
  assumes "undisturbed env" and "truthy (j_claimedBy j)" and "truthy (j_claimToken j)" and "claimed_job j"
    and "xs = ys @ j # zs" and "\<And>x. x \<in> set ys \<Longrightarrow> j_id x \<noteq> j_id j"
  shows "triple (jobs_at D (\<lambda>t. j \<in> set t)) (each (\<lambda>x. only_if (claimed_job x) (return_job env x)) xs)
    (\<lambda>_. jobs_at D (\<lambda>t. returned j \<in> set t)) E"
proof -
  have "triple (jobs_at D (\<lambda>t. j \<in> set t)) (only_if (claimed_job j) (return_job env j))
      (\<lambda>_. jobs_at D (\<lambda>t. returned j \<in> set t)) E"
    using return_this [OF assms(1-4)] assms(4) by (simp add: only_if_def)
  moreover have "triple (jobs_at D (\<lambda>t. j \<in> set t)) (each (\<lambda>x. only_if (claimed_job x) (return_job env x)) ys)
      (\<lambda>_. jobs_at D (\<lambda>t. j \<in> set t)) E"
    by (rule return_other [OF assms(1)]) (use assms(6) in blast)
  moreover have "triple (jobs_at D (\<lambda>t. returned j \<in> set t)) (each (\<lambda>x. only_if (claimed_job x) (return_job env x)) zs)
      (\<lambda>_. jobs_at D (\<lambda>t. returned j \<in> set t)) E"
    by (rule return_other [OF assms(1)]) (simp add: returned_def)
  ultimately show ?thesis
    unfolding assms(5) each_append by (blast intro: triple_sq)
qed

lemma orphan_returns:
  assumes u: "undisturbed env" and j: "truthy (j_claimedBy j)" "truthy (j_claimToken j)" "claimed_job j"
    and d: "ids_distinct (od_jobs D)" and mem: "j \<in> set (od_jobs D)" and sc: "in_scope (oe_jobScope env) (j_repoId j)"
  shows "triple (at D C) (drain_onOrphan env (j_runId j)) (\<lambda>_. jobs_at D (\<lambda>t. returned j \<in> set t)) E"
proof -
  let ?xs = "listForRun (oe_jobScope env) (od_jobs D) (j_runId j)"
  have "j \<in> set ?xs" using mem sc by (simp add: listForRun_def)
  then obtain ys zs where xs: "?xs = ys @ j # zs" by (meson split_list)
  have "distinct (map j_id ?xs)"
    using d unfolding listForRun_def ids_distinct_def by (rule distinct_map_filter)
  then have ys: "j_id x \<noteq> j_id j" if "x \<in> set ys" for x
    using that unfolding xs by (auto simp: rev_image_eqI)
  show ?thesis
    unfolding drain_onOrphan_def
    by (rule at_query [OF u], rule triple_pre, rule return_all [OF u j xs ys], assumption)
      (use d mem in auto)
qed

section \<open>Two ticks\<close>

definition worktree_ready :: "recovery_ports \<Rightarrow> bool" where
  "worktree_ready ports \<longleftrightarrow> (\<forall>n. rp_resetWorktree ports n = Inr ()) \<and>
     (case rp_prepare ports of None \<Rightarrow> True | Some p \<Rightarrow> \<forall>n u path. p n u path = Inr True)"

text \<open>
  The repository of a dead worker: its lease has expired, the worker, still \<open>registered\<close> or
  not, does not answer, and the one open job of the repository is running for a run that is still running.
\<close>

definition dead_repository ::
  "ops_env \<Rightarrow> recovery_ports \<Rightarrow> ops_db \<Rightarrow> ident \<Rightarrow> job \<Rightarrow> bool \<Rightarrow> bool" where
  "dead_repository env ports D repo j registered \<longleftrightarrow>
     (\<exists>l run. od_leases D repo = Some l \<and> (\<forall>n. wl_expiresAt l \<le> oe_now env n) \<and>
        (findWorker (od_workers D) (wl_workerId l) repo \<noteq> None) = registered \<and>
        findRunByUuid (oe_runStore env) (od_runs D) (j_runId j) = Some run \<and>
        r_status run = RRunning \<and> r_uuid run = j_runId j \<and> wl_runId l = j_runId j) \<and>
     (\<forall>n w. \<not> rp_alive ports n w) \<and> rp_commits ports \<and> worktree_ready ports \<and>
     ids_distinct (od_jobs D) \<and> truthy (j_claimedBy j) \<and> truthy (j_claimToken j) \<and> j_status j = JRunning \<and>
     filter open_job (listForRepo (oe_jobScope env) (od_jobs D) repo) = [j]"

lemma at_act:
  assumes u: "undisturbed env" and f: "\<And>n. f n = Inr v" and k: "\<And>C. triple (at D C) (k v) Q E"
  shows "triple (at D C) (bnd (acting env what f) k) Q E"
proof (rule triple_bnd)
  show "triple (at D C) (acting env what f) (\<lambda>x s. x = v \<and> os_db s = D) E"
    by (rule tripleI) (simp add: f acting_def act_def bnd_run sq_run tell_run port_def query_def
      sql_alone [OF u] calling_def ret_run)
  show "triple (\<lambda>s. x = v \<and> os_db s = D) (k x) Q E" for x
    using k by (auto simp: triple_def)
qed

lemma at_prepare:
  assumes u: "undisturbed env" and w: "worktree_ready ports" and k: "\<And>C. triple (at D C) (k True) Q E"
  shows "triple (at D C) (bnd (prepare_worktree env ports run) k) Q E"
  using w unfolding prepare_worktree_def bnd_assoc worktree_ready_def
  by (auto intro!: at_port [OF u] at_act [OF u] k simp: sq_def bnd_assoc split: option.splits)

definition reclaimed :: "ops_db \<Rightarrow> ident \<Rightarrow> ops_db \<Rightarrow> bool" where
  "reclaimed D repo D' \<longleftrightarrow> od_leases D' repo = None \<and> od_jobs D' = od_jobs D \<and> od_runs D' = od_runs D"

lemma at_commit:
  assumes u: "undisturbed env" and l: "od_leases D repo = Some l"
    and w: "findWorker (od_workers D) (wl_workerId l) repo = Some w"
  shows "triple (at D C) (commit_reclamation env repo l) (\<lambda>_ s. reclaimed D repo (os_db s)) E"
  using l w by (auto intro!: tripleI simp: commit_reclamation_def sql_alone [OF u] commitLeaseReclamation_def reclaimed_def)

lemma drain_repo_keeps_ports [simp]:
  "worktree_ready (drain_ports env ports) = worktree_ready ports"
  "rp_alive (drain_ports env ports) = rp_alive ports" "rp_commits (drain_ports env ports) = rp_commits ports"
  "rp_onOrphan (drain_ports env ports) = drain_onOrphan env"
  by (simp_all add: worktree_ready_def drain_ports_def)

lemma drain_decides:
  assumes u: "undisturbed env"
    and k: "\<And>n st. sees env (drain_ports env ports) D repo (oe_now env n) st \<Longrightarrow>
      triple (at D C) (determineAction env (drain_ports env ports) repo st)
        (\<lambda>a s. R s \<and> a \<noteq> Requeue) (\<lambda>_ _. False)"
  shows "triple (at D C) (drain_repo env ports repo) (\<lambda>_. R) E"
proof -
  have skip: "triple (\<lambda>s. R s \<and> a \<noteq> Requeue) (only_if (a = Requeue) m) (\<lambda>_. R) (\<lambda>_. R)" for a m
    by (simp add: triple_def only_if_def ret_run)
  show ?thesis
    unfolding drain_repo_def recover_repository_def read_state_def bnd_assoc
    by (rule triple_ignoring, rule at_now, rule at_read [OF u], rule triple_bnd [OF triple_weaken [OF k]])
      (assumption | rule skip | simp)+
qed

lemma open_split:
  assumes "filter open_job xs = ys"
  shows "filter (expired_claim now) xs = filter (expired_claim now) ys"
    and "filter (\<lambda>x. open_job x \<and> \<not> expired_claim now x) xs = filter (\<lambda>x. \<not> expired_claim now x) ys"
  unfolding assms [symmetric] by (auto intro!: filter_cong simp: expired_claim_def open_job_def)

lemma dead_sees:
  assumes "dead_repository env ports D repo j registered" and "sees env (drain_ports env ports) D repo (oe_now env n) st"
  shows "\<not> rt_hasActiveLease st" "rt_activeJobs st = [j]" "rt_expiredClaims st = []"
    "rt_leaseExpired st" "rt_workerStale st" "rt_lease st = od_leases D repo"
proof -
  obtain l where l: "od_leases D repo = Some l" "wl_expiresAt l \<le> oe_now env n" and alive: "\<And>n w. \<not> rp_alive ports n w"
    and jobs: "filter open_job (listForRepo (oe_jobScope env) (od_jobs D) repo) = [j]"
    and run: "\<not> expired_claim (oe_now env n) j"
    using assms(1) by (auto simp: dead_repository_def expired_claim_def)
  have "\<not> checkActiveLease (od_leases D) repo (oe_now env n)"
    using l by (simp add: checkActiveLease_def)
  then show "\<not> rt_hasActiveLease st" "rt_activeJobs st = [j]" "rt_expiredClaims st = []"
    "rt_leaseExpired st" "rt_workerStale st" "rt_lease st = od_leases D repo"
    using assms(2) l(1) alive run unfolding sees_def Let_def open_split [OF jobs] by simp_all
qed

lemma first_tick:
  assumes u: "undisturbed env" and dead: "dead_repository env ports D repo j True"
  shows "triple (at D C) (drain_repo env ports repo) (\<lambda>_ s. reclaimed D repo (os_db s)) E"
proof (rule drain_decides [OF u])
  let ?p = "drain_ports env ports"
  obtain l w run where l: "od_leases D repo = Some l" "findWorker (od_workers D) (wl_workerId l) repo = Some w"
    and run: "findRunByUuid (oe_runStore env) (od_runs D) (j_runId j) = Some run" "r_status run = RRunning"
      "r_uuid run = j_runId j" "wl_runId l = j_runId j"
    and p: "worktree_ready ?p" "rp_commits ?p" and j: "j_status j = JRunning"
    using dead by (auto simp: dead_repository_def)
  fix n st assume "sees env ?p D repo (oe_now env n) st"
  note st = dead_sees [OF dead this]
  have "triple (at D C') (executeReclaim env ?p repo st l run) (\<lambda>_ s. reclaimed D repo (os_db s)) E'" for C' E'
    unfolding executeReclaim_def
    by (rule at_prepare [OF u p(1)]) (use p(2) run(3,4) in \<open>auto intro!: triple_sq [OF at_commit [OF u l]] triple_ret
      simp: only_if_def\<close>)
  then have "triple (at D C) (determineLeaseAction env ?p repo st l)
      (\<lambda>a s. reclaimed D repo (os_db s) \<and> a \<noteq> Requeue) (\<lambda>_ _. False)"
    unfolding determineLeaseAction_def resolveCandidateRun_def bnd_assoc
    using st run by (auto simp: isRecoverable_def intro!: at_find [OF u] triple_sq triple_ret)
  then show "triple (at D C) (determineAction env ?p repo st)
      (\<lambda>a s. reclaimed D repo (os_db s) \<and> a \<noteq> Requeue) (\<lambda>_ _. False)"
    using st l(1) j by (simp add: determineAction_def)
qed

lemma second_tick:
  assumes u: "undisturbed env" and dead: "dead_repository env ports D repo j True" and r: "reclaimed D repo D'"
  shows "triple (at D' C) (drain_repo env ports repo)
    (\<lambda>_ s. returned j \<in> set (od_jobs (os_db s)) \<and> od_leases (os_db s) repo = None \<and> od_runs (os_db s) = od_runs D) E"
proof (rule drain_decides [OF u])
  let ?p = "drain_ports env ports"
  obtain run where run: "findRunByUuid (oe_runStore env) (od_runs D) (j_runId j) = Some run" "r_status run = RRunning"
      "r_uuid run = j_runId j"
    and j: "truthy (j_claimedBy j)" "truthy (j_claimToken j)" "claimed_job j" "j_status j = JRunning"
    and d: "ids_distinct (od_jobs D')" and o: "filter open_job (listForRepo (oe_jobScope env) (od_jobs D') repo) = [j]"
    using dead r by (auto simp: dead_repository_def claimed_job_def reclaimed_def)
  have "j \<in> set (listForRepo (oe_jobScope env) (od_jobs D') repo)"
    using arg_cong [OF o, of set] by auto
  then have mem: "j \<in> set (od_jobs D')" "in_scope (oe_jobScope env) (j_repoId j)"
    by (auto simp: listForRepo_def split: if_split_asm)
  fix n st assume sees: "sees env ?p D' repo (oe_now env n) st"
  have "\<not> expired_claim (oe_now env n) j" using j by (simp add: expired_claim_def)
  moreover have "od_leases D' repo = None" "od_runs D' = od_runs D" using r by (simp_all add: reclaimed_def)
  ultimately have st: "\<not> rt_hasActiveLease st" "rt_activeJobs st = [j]" "rt_expiredClaims st = []" "rt_lease st = None"
      "rt_run st = Some run"
    using sees run(1) unfolding sees_def Let_def open_split [OF o] by (simp_all add: checkActiveLease_def run_seen_def)
  have "triple (at D' C) (drain_onOrphan env (j_runId j)) (\<lambda>_. jobs_at D' (\<lambda>t. returned j \<in> set t)) (\<lambda>_ _. False)"
    by (rule orphan_returns [OF u j(1-3) d mem])
  then show "triple (at D' C) (determineAction env ?p repo st)
      (\<lambda>a s. (returned j \<in> set (od_jobs (os_db s)) \<and> od_leases (os_db s) repo = None \<and> od_runs (os_db s) = od_runs D) \<and>
        a \<noteq> Requeue) (\<lambda>_ _. False)"
    using st j(4) run(2,3) r
    by (auto simp: determineAction_def determineNoLeaseWithRunAction_def reclaimed_def intro!: triple_sq triple_ret
      dest: arg_cong [where f = od_leases] arg_cong [where f = od_runs])
qed


lemma at_refused:
  assumes u: "undisturbed env" and w: "findWorker (od_workers D) (wl_workerId l) repo = None"
  shows "triple (at D C) (commit_reclamation env repo l) (\<lambda>_ s. os_db s = D) E"
  by (rule tripleI)
    (simp add: w commit_reclamation_def sql_alone [OF u] commitLeaseReclamation_def split: option.split)

lemma lost_tick:
  assumes u: "undisturbed env" and dead: "dead_repository env ports D repo j False"
  shows "triple (at D C) (drain_repo env ports repo) (\<lambda>_ s. os_db s = D) E"
proof (rule drain_decides [OF u])
  let ?p = "drain_ports env ports"
  obtain l run where l: "od_leases D repo = Some l" "findWorker (od_workers D) (wl_workerId l) repo = None"
    and run: "findRunByUuid (oe_runStore env) (od_runs D) (j_runId j) = Some run" "r_status run = RRunning"
      "r_uuid run = j_runId j" "wl_runId l = j_runId j"
    and p: "worktree_ready ?p" "rp_commits ?p" and j: "j_status j = JRunning"
    using dead by (auto simp: dead_repository_def)
  fix n st assume "sees env ?p D repo (oe_now env n) st"
  note st = dead_sees [OF dead this]
  have "triple (at D C') (executeReclaim env ?p repo st l run) (\<lambda>_ s. os_db s = D) E'" for C' E'
    unfolding executeReclaim_def
    by (rule at_prepare [OF u p(1)]) (use p(2) run(3,4) in \<open>auto intro!: triple_sq [OF at_refused [OF u l(2)]] triple_ret
      simp: only_if_def\<close>)
  then have "triple (at D C) (determineLeaseAction env ?p repo st l) (\<lambda>a s. os_db s = D \<and> a \<noteq> Requeue) (\<lambda>_ _. False)"
    unfolding determineLeaseAction_def resolveCandidateRun_def bnd_assoc
    using st run by (auto simp: isRecoverable_def intro!: at_find [OF u] triple_sq triple_ret)
  then show "triple (at D C) (determineAction env ?p repo st) (\<lambda>a s. os_db s = D \<and> a \<noteq> Requeue) (\<lambda>_ _. False)"
    using st l(1) j by (simp add: determineAction_def)
qed

text \<open>
  A worker that is no longer registered blocks the recovery for good: with the same dead
  worker missing from the registry the coordinator reports a reclamation at every tick, but the
  transaction refuses, its result is dropped, and no number of ticks changes any table: the job
  stays running.
\<close>

theorem unregistered_worker_blocks_recovery:
  assumes "undisturbed env" and "dead_repository env ports (os_db s) repo j False"
  shows "\<exists>s'. each (\<lambda>_. drain_tick env ports [repo]) (replicate k ()) s = (Inr (), s') \<and> os_db s' = os_db s"
proof -
  have tick: "triple (\<lambda>s'. os_db s' = os_db s) (drain_tick env ports [repo]) (\<lambda>_ s'. os_db s' = os_db s) (\<lambda>_ _. False)"
    unfolding drain_tick_def each.simps
    by (rule triple_sq [where R = "\<lambda>s'. os_db s' = os_db s"])
      (use lost_tick [OF assms] in \<open>simp_all add: triple_def ret_run\<close>)
  have "triple (\<lambda>s'. os_db s' = os_db s) (each (\<lambda>_. drain_tick env ports [repo]) (replicate k ()))
      (\<lambda>_ s'. os_db s' = os_db s) (\<lambda>_ _. False)"
    by (rule triple_each) (rule tick)
  from triple_total [OF this] show ?thesis by simp
qed

section \<open>A sample\<close>

definition late_env :: ops_env where
  "late_env = quiet_env\<lparr>oe_now := (\<lambda>_. 11)\<rparr>"

definition bare_ports :: recovery_ports where
  "bare_ports = \<lparr>rp_hostname = None, rp_checkPid = None, rp_alive = (\<lambda>_ _. False),
     rp_resetWorktree = (\<lambda>_. Inr ()), rp_prepare = None, rp_worktreePath = (\<lambda>_. []), rp_commits = True,
     rp_lists = False, rp_onOrphan = (\<lambda>_. ret ()), rp_onWaiting = (\<lambda>_. ret ())\<rparr>"

definition dead_state :: "worker list \<Rightarrow> ops_state" where
  "dead_state ws = \<lparr>os_db = dead_db\<lparr>od_runs := [sample_row ''run'' RRunning], od_workers := ws\<rparr>,
     os_clock = 0, os_events = [], os_calls = []\<rparr>"

lemma late_alone: "undisturbed late_env"
  by (simp add: undisturbed_def late_env_def quiet_env_def)

lemma sample_dead:
  assumes "registered = (findWorker ws ''w'' ''repo'' \<noteq> None)"
  shows "dead_repository late_env bare_ports (os_db (dead_state ws)) ''repo'' dead_job registered"
  using assms
  by (auto simp: dead_repository_def dead_state_def dead_db_def dead_lease_def dead_job_def bare_ports_def late_env_def
    quiet_env_def worktree_ready_def ids_distinct_def createJob_def listForRepo_def in_scope_def open_job_def findRunByUuid_def
    sample_store_def sample_row_def record_of_run_def toRecord_def run.defs run_record.defs)

theorem live_repository_left_alone_witness:
  "\<exists>s'. recover_repository quiet_env bare_ports ''repo'' (dead_state []) = (Inr Leave, s') \<and>
     os_db s' = os_db (dead_state [])"
  using live_repository_left_alone [OF quiet_alone, of "dead_state []" "''repo''" bare_ports]
  by (auto simp: checkActiveLease_def dead_state_def dead_db_def dead_lease_def quiet_env_def)


theorem unregistered_worker_blocks_recovery_witness:
  "\<exists>s'. each (\<lambda>_. drain_tick late_env bare_ports [''repo'']) (replicate 1000 ()) (dead_state []) = (Inr (), s') \<and>
     od_jobs (os_db s') = [dead_job]"
proof -
  have "dead_repository late_env bare_ports (os_db (dead_state [])) ''repo'' dead_job False"
    by (rule sample_dead) (simp add: findWorker_def)
  from unregistered_worker_blocks_recovery [OF late_alone this, of 1000] show ?thesis
    by (auto simp: dead_state_def dead_db_def)
qed

end
