(* ===== verification/Json.thy ===== *)
theory Json
  imports Text
begin

text \<open>
  Values of \<open>JSON.parse\<close> and the property reads the code makes of them. Numbers are integers, an
  object is the list of its properties; reading a property of \<open>null\<close> is JavaScript's
  \<open>TypeError\<close>, of any other value without it \<open>undefined\<close>.
\<close>

datatype json =
    JNull | JBool bool | JNum int | JStr string | JArr "json list" | JObj "(string \<times> json) list"

definition prop_of :: "json \<Rightarrow> string \<Rightarrow> string + json option" where
  "prop_of j k = (case j of
       JNull \<Rightarrow> Inl ''TypeError''
     | JObj kvs \<Rightarrow> Inr (map_of kvs k)
     | _ \<Rightarrow> Inr None)"

text \<open>\<open>toUpperCase\<close> for comparison with an ASCII text.\<close>

definition upper_char :: "char \<Rightarrow> string" where
  "upper_char c = (if c \<ge> CHR ''a'' \<and> c \<le> CHR ''z'' then [char_of (of_char c - 32 :: nat)]
     else if of_char c = (0xDF :: nat) then ''SS'' else [c])"

definition to_upper :: "string \<Rightarrow> string" where
  "to_upper s = concat (map upper_char s)"

text \<open>\<open>value.verdict?.toUpperCase() === word\<close>.\<close>

definition verdict_is :: "json \<Rightarrow> string \<Rightarrow> string + bool" where
  "verdict_is j word = (case prop_of j ''verdict'' of
       Inl e \<Rightarrow> Inl e
     | Inr None \<Rightarrow> Inr False
     | Inr (Some JNull) \<Rightarrow> Inr False
     | Inr (Some (JStr v)) \<Rightarrow> Inr (to_upper v = word)
     | Inr (Some _) \<Rightarrow> Inl ''TypeError'')"

fun some_unresolved :: "json list \<Rightarrow> string + bool" where
  "some_unresolved [] = Inr False"
| "some_unresolved (e # es) = (case prop_of e ''status'' of
       Inl err \<Rightarrow> Inl err
     | Inr st \<Rightarrow> if st = Some (JStr ''unresolved'') then Inr True else some_unresolved es)"

text \<open>\<open>ledger.entries?.some((e) => e.status === 'unresolved')\<close>.\<close>

definition has_unresolved :: "json \<Rightarrow> string + bool" where
  "has_unresolved j = (case prop_of j ''entries'' of
       Inl e \<Rightarrow> Inl e
     | Inr None \<Rightarrow> Inr False
     | Inr (Some JNull) \<Rightarrow> Inr False
     | Inr (Some (JArr es)) \<Rightarrow> some_unresolved es
     | Inr (Some _) \<Rightarrow> Inl ''TypeError'')"

definition js_falsy :: "json \<Rightarrow> bool" where
  "js_falsy j \<longleftrightarrow> j = JNull \<or> j = JBool False \<or> j = JNum 0 \<or> j = JStr []"

lemma upper_words: "to_upper ''approve'' = ''APPROVE''" "to_upper ''Pass'' = ''PASS''"
  by code_simp+

end
