(* ===== verification/Executor_Phase.thy ===== *)
theory Executor_Phase
  imports Run_Control Phase_Graph Json
begin

text \<open>
  One phase of a run, \<^verbatim>\<open>packages/application/src/executor/run-executor.ts\<close>:
  \<open>executeSinglePhase\<close> and the methods that write the end of a run. What the handler of a phase
  returns or throws, the artifact store and the failure store are answered by \<open>exec_ports\<close> at
  each step; a handler's own writes to the tables are among \<open>oe_meanwhile\<close>. The calls of handlers
  and of the artifact store are logged in \<open>os_calls\<close> by name. Messages, suggested actions and
  notifications are left out; \<open>insert\<close> and \<open>update\<close> of the phase repository are the same upsert.
\<close>

section \<open>State and results\<close>

record failure =
  fl_runUuid :: ident
  fl_phase :: "string option"
  fl_kind :: string
  fl_message :: string
  fl_canRetry :: bool

datatype phase_result =
    Res_passed | Res_deferred | Res_skipped | Res_resting
  | Res_failed failure | Res_blocked failure | Res_needs_review failure

datatype handler_error = Not_wired string | Threw string

record phase_record =
  pr_phase :: string
  pr_status :: phase_status
  pr_failure :: "failure option"

record run_output =
  ro_run :: run
  ro_phases :: "phase_record list"

text \<open>\<open>completedSet\<close>, \<open>previouslySkippedSet\<close> and \<open>skipSet\<close> as lists in insertion order.\<close>

record exec_state =
  xs_run :: run
  xs_skip :: "string list"
  xs_completed :: "string list"
  xs_prevSkipped :: "string list"
  xs_present :: "string list"
  xs_stored :: "string list option"
  xs_phases :: "phase_record list"

record exec_ports =
  xp_registered :: "string \<Rightarrow> bool"
  xp_handler :: "string \<Rightarrow> nat \<Rightarrow> handler_error + phase_result"
  xp_artifacts :: "nat \<Rightarrow> string + string list"
  xp_insertFailure :: "nat \<Rightarrow> string + unit"
  xp_read :: "string \<Rightarrow> nat \<Rightarrow> string + json"
  xp_write :: "nat \<Rightarrow> string + unit"
  xp_fresh :: "nat \<Rightarrow> string + bool"
  xp_invalidate :: "nat \<Rightarrow> string + unit"

text \<open>
  \<open>xp_read\<close> is \<open>artifacts.read\<close> followed by \<open>JSON.parse\<close>, \<open>xp_fresh\<close> and \<open>xp_invalidate\<close> are
  \<open>verifyValidationFreshness\<close> and \<open>invalidateValidationEvidence\<close>. A step that may return from the
  whole execution is \<open>early\<close>.
\<close>

type_synonym 'a early = "(run_output + 'a) ops"

definition further :: "'a early \<Rightarrow> ('a \<Rightarrow> 'b early) \<Rightarrow> 'b early" where
  "further m k = bnd m (\<lambda>r. case r of Inl out \<Rightarrow> ret (Inl out) | Inr x \<Rightarrow> k x)"

section \<open>The end of a run\<close>

definition put_phase :: "ops_env \<Rightarrow> phase \<Rightarrow> unit ops" where
  "put_phase env p = sql env (\<lambda>n db. (Inr (), db\<lparr>od_phases := upsertPhase (od_phases db) p\<rparr>))"

definition phaseId :: "ident \<Rightarrow> string \<Rightarrow> ident" where
  "phaseId uuid name = uuid @ ''-'' @ name"

definition new_phase :: "ident \<Rightarrow> string \<Rightarrow> phase_status \<Rightarrow> nat \<Rightarrow> time \<Rightarrow> time option \<Rightarrow> phase" where
  "new_phase uuid name st attempt started completed =
     \<lparr>ph_id = phaseId uuid name, ph_runUuid = uuid, ph_name = name, ph_status = st, ph_attempt = attempt,
      ph_startedAt = Some started, ph_completedAt = completed\<rparr>"

definition settled_elsewhere :: "run_record option \<Rightarrow> bool" where
  "settled_elsewhere found = (case found of None \<Rightarrow> False
     | Some r \<Rightarrow> r_status r \<in> {RCancelled, RFailed, RBlocked, RPassed})"

definition output_of :: "run_record option \<Rightarrow> phase_record list \<Rightarrow> run_output" where
  "output_of found phases = \<lparr>ro_run = run.truncate (the found), ro_phases = phases\<rparr>"

definition end_patch :: "run_status \<Rightarrow> string option \<Rightarrow> time \<Rightarrow> string option \<Rightarrow> run_patch" where
  "end_patch st phase at reason = empty_patch\<lparr>rp_status := Some st, rp_currentPhase := Some phase,
     rp_completedAt := Some (Some at), rp_failureReason := Some reason\<rparr>"

text \<open>
  What \<open>failRun\<close>, \<open>blockRun\<close> and \<open>needsHumanReviewRun\<close> share: the transition, the row of the
  phase, the failure, the status and two events.
\<close>

definition record_end ::
  "ops_env \<Rightarrow> exec_ports \<Rightarrow> run_error + run \<Rightarrow> run_status \<Rightarrow> phase_status \<Rightarrow> (run \<Rightarrow> string option) \<Rightarrow> string \<Rightarrow> string
   \<Rightarrow> string \<Rightarrow> phase \<Rightarrow> failure \<Rightarrow> time \<Rightarrow> phase_record list \<Rightarrow> run_output ops" where
  "record_end env xp result st phase_st phase_of phase_event run_event name phase failure at phases =
     bnd (lift_run_error result) (\<lambda>run.
     sq (put_phase env (phase\<lparr>ph_status := phase_st, ph_completedAt := Some at\<rparr>))
    (sq (acting env ''insert failure'' (xp_insertFailure xp))
    (sq (update_run env (r_uuid run) (end_patch st (phase_of run) at (Some (fl_message failure))))
    (sq (publish env (r_uuid run) phase_event)
    (sq (publish env (r_uuid run) run_event)
    (ret \<lparr>ro_run = run,
      ro_phases = phases @ [\<lparr>pr_phase = name, pr_status = phase_st, pr_failure = Some failure\<rparr>]\<rparr>))))))"

definition unless_settled ::
  "ops_env \<Rightarrow> run \<Rightarrow> failure \<Rightarrow> phase_record list \<Rightarrow> bool \<Rightarrow> run_output ops \<Rightarrow> run_output ops" where
  "unless_settled env run failure phases force m =
     bnd (find_run_op env (r_uuid run)) (\<lambda>found.
     if \<not> force \<and> settled_elsewhere found then ret (output_of found phases)
     else if fl_runUuid failure \<noteq> r_uuid run then stop (Ops_other ''mismatched runUuid'')
     else m)"

definition fail_run ::
  "ops_env \<Rightarrow> exec_ports \<Rightarrow> run \<Rightarrow> string \<Rightarrow> phase \<Rightarrow> failure \<Rightarrow> time \<Rightarrow> phase_record list \<Rightarrow> run_output ops" where
  "fail_run env xp run name phase failure at phases = unless_settled env run failure phases False
     (record_end env xp (failRun run (fl_message failure) at) RFailed PhFailed (\<lambda>_. None)
       ''phase.failed'' ''run.failed'' name phase failure at phases)"

definition block_run ::
  "ops_env \<Rightarrow> exec_ports \<Rightarrow> run \<Rightarrow> string \<Rightarrow> phase \<Rightarrow> failure \<Rightarrow> time \<Rightarrow> phase_record list \<Rightarrow> run_output ops" where
  "block_run env xp run name phase failure at phases = unless_settled env run failure phases False
     (record_end env xp (blockRun run (fl_message failure) at) RBlocked PhBlocked (\<lambda>_. None)
       ''phase.blocked'' ''run.blocked'' name phase failure at phases)"

definition needs_review_run ::
  "ops_env \<Rightarrow> exec_ports \<Rightarrow> bool \<Rightarrow> run \<Rightarrow> string \<Rightarrow> phase \<Rightarrow> failure \<Rightarrow> time \<Rightarrow> phase_record list \<Rightarrow> run_output ops" where
  "needs_review_run env xp force run name phase failure at phases = unless_settled env run failure phases force
     (record_end env xp (markRunNeedsHumanReview run (fl_message failure) at) RNeedsHumanReview PhNeedsHumanReview
       r_currentPhase ''phase.needs_human_review'' ''run.needs_human_review'' name phase failure at phases)"

definition failure_at :: "run \<Rightarrow> string \<Rightarrow> string \<Rightarrow> string \<Rightarrow> bool \<Rightarrow> failure" where
  "failure_at run phase kind msg retry = \<lparr>fl_runUuid = r_uuid run, fl_phase = Some phase, fl_kind = kind,
     fl_message = msg, fl_canRetry = retry\<rparr>"

definition escalateToHumanReview ::
  "ops_env \<Rightarrow> exec_ports \<Rightarrow> run \<Rightarrow> string \<Rightarrow> string \<Rightarrow> phase_record list \<Rightarrow> run_output ops" where
  "escalateToHumanReview env xp run name msg phases = bnd (now_op env) (\<lambda>at.
     needs_review_run env xp False run name (new_phase (r_uuid run) name PhNeedsHumanReview 1 at (Some at))
       (failure_at run name ''needs_human_review'' msg True) at phases)"

definition fail_early ::
  "ops_env \<Rightarrow> exec_ports \<Rightarrow> run \<Rightarrow> string \<Rightarrow> string \<Rightarrow> phase_record list \<Rightarrow> run_output ops" where
  "fail_early env xp run name msg phases = bnd (now_op env) (\<lambda>at.
     fail_run env xp run name (new_phase (r_uuid run) name PhFailed 1 at (Some at))
       (failure_at run name ''missing_artifact'' msg False) at phases)"

definition failOnResumeArtifactMismatch ::
  "ops_env \<Rightarrow> exec_ports \<Rightarrow> run \<Rightarrow> string \<Rightarrow> string \<Rightarrow> phase_record list \<Rightarrow> run_output ops" where
  "failOnResumeArtifactMismatch env xp run name artifact phases =
     fail_early env xp run name (''output missing from the artifact store: '' @ artifact) phases"

definition failOnMissingInput ::
  "ops_env \<Rightarrow> exec_ports \<Rightarrow> run \<Rightarrow> string \<Rightarrow> phase_record list \<Rightarrow> run_output ops" where
  "failOnMissingInput env xp run name phases = fail_early env xp run name ''missing required input'' phases"

definition failOnWorktreeHydrationFailure ::
  "ops_env \<Rightarrow> exec_ports \<Rightarrow> run \<Rightarrow> string \<Rightarrow> phase_record list \<Rightarrow> run_output ops" where
  "failOnWorktreeHydrationFailure env xp run msg phases =
     bnd (now_op env) (\<lambda>at.
     bnd (find_run_op env (r_uuid run)) (\<lambda>found.
     if settled_elsewhere found then ret (output_of found phases)
     else let text = ''failed to hydrate worktree from durable artifacts: '' @ msg in
       bnd (lift_run_error (failRun run text at)) (\<lambda>failed.
       sq (acting env ''insert failure'' (xp_insertFailure xp))
      (sq (update_run env (r_uuid run) (end_patch RFailed None at (Some text)))
      (sq (publish env (r_uuid run) ''run.failed'')
      (ret \<lparr>ro_run = failed, ro_phases = phases\<rparr>))))))"

definition passed_run :: "ops_env \<Rightarrow> run \<Rightarrow> phase_record list \<Rightarrow> run_output ops" where
  "passed_run env run phases =
     bnd (now_op env) (\<lambda>at. bnd (lift_run_error (passRun run at)) (\<lambda>final.
     bnd (now_op env) (\<lambda>at.
     sq (update_run env (r_uuid run) (end_patch RPassed None at None))
    (sq (publish env (r_uuid run) ''run.completed'')
    (ret \<lparr>ro_run = final, ro_phases = phases\<rparr>)))))"

section \<open>One phase\<close>

definition add_missing :: "string list \<Rightarrow> string list \<Rightarrow> string list" where
  "add_missing xs present = foldl (\<lambda>acc x. if x \<in> set acc then acc else acc @ [x]) present xs"

definition note_phase :: "string \<Rightarrow> phase_status \<Rightarrow> exec_state \<Rightarrow> exec_state" where
  "note_phase name st s = s\<lparr>xs_phases := xs_phases s @ [\<lparr>pr_phase = name, pr_status = st, pr_failure = None\<rparr>]\<rparr>"

text \<open>The outputs of a phase that is already completed; the first one missing from the store ends the run.\<close>

definition accept_completed ::
  "ops_env \<Rightarrow> exec_ports \<Rightarrow> phase_definition \<Rightarrow> string \<Rightarrow> exec_state \<Rightarrow> (phase_status \<times> exec_state) early" where
  "accept_completed env xp d name s =
     (case (case xs_stored s of None \<Rightarrow> None | Some stored \<Rightarrow> List.find (\<lambda>out. out \<notin> set stored) (pd_outputs d)) of
        Some out \<Rightarrow> bnd (failOnResumeArtifactMismatch env xp (xs_run s) (pd_name d) out (xs_phases s)) (\<lambda>out. ret (Inl out))
      | None \<Rightarrow> ret (Inr (PhPassed, note_phase name PhPassed (s\<lparr>xs_present := add_missing (pd_outputs d) (xs_present s)\<rparr>))))"

text \<open>\<open>skippedPhases\<close> grows by the name, a row of the phase and an event are written.\<close>

definition record_skip :: "ops_env \<Rightarrow> run \<Rightarrow> string \<Rightarrow> exec_state \<Rightarrow> exec_state ops" where
  "record_skip env run name s =
     (let cur = (xs_run s)\<lparr>r_skippedPhases := r_skippedPhases (xs_run s) @ [name]\<rparr>
      in bnd (now_op env) (\<lambda>at.
         sq (put_phase env (new_phase (r_uuid run) name PhSkipped 1 at (Some at)))
        (sq (update_run env (r_uuid run) (empty_patch\<lparr>rp_skippedPhases := Some (r_skippedPhases cur)\<rparr>))
        (sq (publish env (r_uuid run) ''phase.skipped'')
        (ret (note_phase name PhSkipped (s\<lparr>xs_run := cur\<rparr>)))))))"

definition list_artifacts :: "ops_env \<Rightarrow> exec_ports \<Rightarrow> string list \<Rightarrow> string list ops" where
  "list_artifacts env xp present =
     bnd (attempted (acting env ''list artifacts'' (xp_artifacts xp))) (\<lambda>r. case r of
       Inl _ \<Rightarrow> ret present | Inr stored \<Rightarrow> ret (add_missing stored present))"

text \<open>The end of a phase the run goes on after: passed, deferred or skipped by its handler.\<close>

definition finish_phase ::
  "ops_env \<Rightarrow> exec_ports \<Rightarrow> phase_status \<Rightarrow> run_error + run \<Rightarrow> string list \<Rightarrow> (run \<Rightarrow> run_patch) \<Rightarrow> string
   \<Rightarrow> phase_definition \<Rightarrow> phase \<Rightarrow> exec_state \<Rightarrow> (phase_status \<times> exec_state) early" where
  "finish_phase env xp st result outputs patch event d phase s =
     bnd (lift_run_error result) (\<lambda>cur. bnd (now_op env) (\<lambda>at.
     bnd (list_artifacts env xp (add_missing outputs (xs_present s))) (\<lambda>present.
     sq (put_phase env (phase\<lparr>ph_status := st, ph_completedAt := Some at\<rparr>))
    (sq (update_run env (r_uuid cur) ((patch cur)\<lparr>rp_currentPhase := Some None\<rparr>))
    (sq (publish env (r_uuid cur) event)
    (ret (Inr (st, note_phase (pd_name d) st (s\<lparr>xs_run := cur, xs_present := present\<rparr>)))))))))"

definition rest_phase ::
  "ops_env \<Rightarrow> phase_definition \<Rightarrow> phase \<Rightarrow> exec_state \<Rightarrow> (phase_status \<times> exec_state) early" where
  "rest_phase env d phase s =
     bnd (now_op env) (\<lambda>at.
     sq (put_phase env (phase\<lparr>ph_status := PhResting, ph_completedAt := Some at\<rparr>))
    (sq (update_run env (r_uuid (xs_run s)) (empty_patch\<lparr>rp_currentPhase := Some None\<rparr>))
    (sq (publish env (r_uuid (xs_run s)) ''phase.resting'')
    (ret (Inl \<lparr>ro_run = (xs_run s)\<lparr>r_currentPhase := None\<rparr>,
       ro_phases = xs_phases (note_phase (pd_name d) PhResting s)\<rparr>)))))"

definition ended :: "run_output ops \<Rightarrow> 'a early" where
  "ended m = bnd m (\<lambda>out. ret (Inl out))"

text \<open>The \<open>switch\<close> over the outcome of the handler.\<close>

definition settle_phase ::
  "ops_env \<Rightarrow> exec_ports \<Rightarrow> phase_definition \<Rightarrow> phase \<Rightarrow> phase_result \<Rightarrow> exec_state \<Rightarrow> (phase_status \<times> exec_state) early" where
  "settle_phase env xp d phase result s =
     (let run = xs_run s; name = pd_name d; phases = xs_phases s;
          passed = (\<lambda>st. finish_phase env xp st (completePhase run name) (pd_outputs d)
            (\<lambda>r. empty_patch\<lparr>rp_completedPhases := Some (r_completedPhases r)\<rparr>) ''phase.completed'' d phase s)
      in case result of
           Res_deferred \<Rightarrow> passed PhDeferred
         | Res_passed \<Rightarrow> passed PhPassed
         | Res_skipped \<Rightarrow> finish_phase env xp PhSkipped (skipPhase run name) []
             (\<lambda>r. empty_patch\<lparr>rp_skippedPhases := Some (r_skippedPhases r)\<rparr>) ''phase.skipped'' d phase s
         | Res_resting \<Rightarrow> rest_phase env d phase s
         | Res_failed f \<Rightarrow> ended (bnd (now_op env) (\<lambda>at. fail_run env xp run name phase f at phases))
         | Res_blocked f \<Rightarrow> ended (bnd (now_op env) (\<lambda>at. block_run env xp run name phase f at phases))
         | Res_needs_review f \<Rightarrow>
             ended (bnd (now_op env) (\<lambda>at. needs_review_run env xp False run name phase f at phases)))"

text \<open>What follows the call of the handler.\<close>

definition after_handler ::
  "ops_env \<Rightarrow> exec_ports \<Rightarrow> phase_definition \<Rightarrow> phase \<Rightarrow> handler_error + phase_result \<Rightarrow> exec_state
   \<Rightarrow> (phase_status \<times> exec_state) early" where
  "after_handler env xp d phase r s =
     bnd (find_run_op env (r_uuid (xs_run s))) (\<lambda>found.
     case r of
       Inl e \<Rightarrow>
         if settled_elsewhere found then ret (Inl (output_of found (xs_phases s)))
         else (case e of
             Not_wired msg \<Rightarrow> ended (bnd (now_op env) (\<lambda>at. block_run env xp (xs_run s) (pd_name d) phase
               (failure_at (xs_run s) (pd_name d) ''handler_not_wired'' msg False) at (xs_phases s)))
           | Threw msg \<Rightarrow> ended (bnd (now_op env) (\<lambda>at. fail_run env xp (xs_run s) (pd_name d) phase
               (failure_at (xs_run s) (pd_name d) ''command_failed'' msg False) at (xs_phases s))))
     | Inr result \<Rightarrow>
         if settled_elsewhere found \<and> result \<noteq> Res_resting then ret (Inl (output_of found (xs_phases s)))
         else settle_phase env xp d phase result s)"

definition call_handler ::
  "ops_env \<Rightarrow> exec_ports \<Rightarrow> phase_definition \<Rightarrow> phase \<Rightarrow> exec_state \<Rightarrow> (phase_status \<times> exec_state) early" where
  "call_handler env xp d phase s =
     bnd (act env (''handler '' @ pd_name d) (xp_handler xp (pd_name d))) (\<lambda>r. after_handler env xp d phase r s)"

definition start_phase ::
  "ops_env \<Rightarrow> exec_ports \<Rightarrow> phase_definition \<Rightarrow> exec_state \<Rightarrow> (phase_status \<times> exec_state) early" where
  "start_phase env xp d s =
     bnd (lift_run_error (startPhase (xs_run s) (pd_name d))) (\<lambda>cur.
     bnd (query env (\<lambda>n db. List.find (\<lambda>p. ph_name p = pd_name d) (listPhases (od_phases db) (r_uuid cur)))) (\<lambda>existing.
     bnd (now_op env) (\<lambda>at.
     let phase = new_phase (r_uuid cur) (pd_name d) PhRunning
           (case existing of None \<Rightarrow> 1 | Some p \<Rightarrow> ph_attempt p + 1) at None
     in sq (put_phase env phase)
       (sq (update_run env (r_uuid cur) (empty_patch\<lparr>rp_currentPhase := Some (Some (pd_name d))\<rparr>))
       (sq (publish env (r_uuid cur) ''phase.started'')
       (bnd (find_run_op env (r_uuid cur)) (\<lambda>found.
        if settled_elsewhere found \<or> map_option r_status found = Some RNeedsHumanReview
        then ret (Inl (output_of found (xs_phases s)))
        else call_handler env xp d phase (s\<lparr>xs_run := cur\<rparr>))))))))"

definition executeSinglePhase ::
  "ops_env \<Rightarrow> exec_ports \<Rightarrow> string \<Rightarrow> bool \<Rightarrow> exec_state \<Rightarrow> (phase_status \<times> exec_state) early" where
  "executeSinglePhase env xp name force s =
     (case getPhaseDefinition name of
        Inl e \<Rightarrow> stop (Ops_other ''unknown phase'')
      | Inr d \<Rightarrow>
          if \<not> force \<and> name \<in> set (xs_completed s) \<and> name \<notin> set (xs_prevSkipped s)
          then accept_completed env xp d name s
          else if \<not> force \<and> name \<in> set (xs_prevSkipped s) then ret (Inr (PhSkipped, note_phase name PhSkipped s))
          else if name \<in> set (xs_skip s)
          then bnd (record_skip env (xs_run s) name s) (\<lambda>s. ret (Inr (PhSkipped, s)))
          else if \<not> xp_registered xp (pd_name d) then stop (Ops_other ''no PhaseHandler registered'')
          else case assertInputsAvailable d (xs_present s) of
            Some e \<Rightarrow> ended (failOnMissingInput env xp (xs_run s) (pd_name d) (xs_phases s))
          | None \<Rightarrow> start_phase env xp d s)"

end
