(* ===== verification/Executor_Lean.thy ===== *)
theory Executor_Lean
  imports Executor_Phase
begin

text \<open>
  The course of a run, \<open>executeLean\<close> of \<^verbatim>\<open>packages/application/src/executor/run-executor.ts\<close>:
  phases of the plan, validation with one repair, reviews, the convergence loop of review and
  fix, the pull request. The stage of the loop is kept in the artifact
  \<^verbatim>\<open>review-convergence.json\<close>; an iteration there that is no number compares false, strings are not
  coerced. The loop has fuel; \<open>Executor_Props\<close> shows how much is enough.
\<close>

section \<open>Phases already done\<close>

fun seed_outputs :: "string list option \<Rightarrow> string list \<Rightarrow> string list \<Rightarrow> string + string list" where
  "seed_outputs stored [] present = Inr present"
| "seed_outputs stored (out # outs) present =
     (let has = (\<lambda>x. case stored of None \<Rightarrow> False | Some st \<Rightarrow> x \<in> set st)
      in if out = ''issue-comments.md''
         then seed_outputs stored outs (if has out then add_missing [out] present else present)
         else if stored \<noteq> None \<and> \<not> has out \<and> out \<notin> set present \<and> (has ''plan.md'' \<or> has ''design.md'')
         then Inl out
         else seed_outputs stored outs (add_missing [out] present))"

definition recorded :: "string \<Rightarrow> exec_state \<Rightarrow> bool" where
  "recorded name s \<longleftrightarrow> list_ex (\<lambda>p. pr_phase p = name) (xs_phases s)"

definition note_once :: "string \<Rightarrow> phase_status \<Rightarrow> exec_state \<Rightarrow> exec_state" where
  "note_once name st s = (if recorded name s then s else note_phase name st s)"

fun seed_completed :: "ops_env \<Rightarrow> exec_ports \<Rightarrow> string list \<Rightarrow> exec_state \<Rightarrow> exec_state early" where
  "seed_completed env xp [] s = ret (Inr s)"
| "seed_completed env xp (name # names) s =
     (case (case map_of PHASE_DEFINITIONS name of None \<Rightarrow> Inr (xs_present s)
            | Some d \<Rightarrow> seed_outputs (xs_stored s) (pd_outputs d) (xs_present s)) of
        Inl out \<Rightarrow> ended (failOnResumeArtifactMismatch env xp (xs_run s)
          (pd_name (the (map_of PHASE_DEFINITIONS name))) out (xs_phases s))
      | Inr present \<Rightarrow>
          let present' = (if name = ''plan-design'' then add_missing [''plan.md''] present else present)
          in seed_completed env xp names (note_once name PhPassed (s\<lparr>xs_present := present'\<rparr>)))"

definition seed_skipped :: "exec_state \<Rightarrow> exec_state" where
  "seed_skipped s = foldl (\<lambda>s name. note_once name PhSkipped s) s (xs_prevSkipped s)"

definition unless_completed :: "ops_env \<Rightarrow> exec_ports \<Rightarrow> string \<Rightarrow> exec_state \<Rightarrow> exec_state early" where
  "unless_completed env xp name s =
     (if name \<in> set (xs_completed s) then ret (Inr s)
      else further (executeSinglePhase env xp name False s) (\<lambda>(st, s). ret (Inr s)))"

section \<open>Validation\<close>

definition recordConditionallySkippedPhase :: "ops_env \<Rightarrow> string \<Rightarrow> exec_state \<Rightarrow> exec_state early" where
  "recordConditionallySkippedPhase env name s =
     (if name \<in> set (r_skippedPhases (xs_run s)) then ret (Inr s)
      else bnd (record_skip env (xs_run s) name s) (\<lambda>s. ret (Inr s)))"

definition escalate :: "ops_env \<Rightarrow> exec_ports \<Rightarrow> exec_state \<Rightarrow> string \<Rightarrow> string \<Rightarrow> 'a early" where
  "escalate env xp s name msg = ended (escalateToHumanReview env xp (xs_run s) name msg (xs_phases s))"

text \<open>One repair, then validation again.\<close>

definition repair_validation :: "ops_env \<Rightarrow> exec_ports \<Rightarrow> string \<Rightarrow> string \<Rightarrow> exec_state \<Rightarrow> exec_state early" where
  "repair_validation env xp msg msg' s =
     further (executeSinglePhase env xp ''fix-validate'' True s) (\<lambda>(st, s).
     if st \<noteq> PhPassed then escalate env xp s ''fix-validate'' msg
     else further (executeSinglePhase env xp ''validate'' True s) (\<lambda>(st, s).
       if st \<noteq> PhPassed then escalate env xp s ''validate'' msg' else ret (Inr s)))"

definition initial_validation :: "ops_env \<Rightarrow> exec_ports \<Rightarrow> exec_state \<Rightarrow> exec_state early" where
  "initial_validation env xp s =
     bnd (acting env ''verify freshness'' (xp_fresh xp)) (\<lambda>fresh.
     let completed = (''validate'' \<in> set (xs_completed s))
     in if completed \<and> fresh then ret (Inr s)
        else further (executeSinglePhase env xp ''validate'' completed s) (\<lambda>(st, s).
          if st = PhDeferred then repair_validation env xp ''fix-validate repair attempt did not pass''
            ''deterministic revalidation failed'' s
          else if st \<noteq> PhPassed \<and> st \<noteq> PhSkipped
          then escalate env xp s ''validate'' ''deterministic validation failed''
          else recordConditionallySkippedPhase env ''fix-validate'' s))"

section \<open>Review and convergence\<close>

record conv_state =
  cv_iteration :: "int option"
  cv_subStep :: "string option"

definition conv_of_json :: "json \<Rightarrow> conv_state option" where
  "conv_of_json j = (if js_falsy j then None else
     Some \<lparr>cv_iteration = (case prop_of j ''iteration'' of Inr (Some (JNum i)) \<Rightarrow> Some i | _ \<Rightarrow> None),
       cv_subStep = (case prop_of j ''subStep'' of Inr (Some (JStr st)) \<Rightarrow> Some st | _ \<Rightarrow> None)\<rparr>)"

definition read_json :: "ops_env \<Rightarrow> exec_ports \<Rightarrow> string \<Rightarrow> json ops" where
  "read_json env xp name = acting env (''read '' @ name) (xp_read xp name)"

text \<open>The write is logged with the stage it makes durable.\<close>

definition write_convergence :: "ops_env \<Rightarrow> exec_ports \<Rightarrow> conv_state \<Rightarrow> unit ops" where
  "write_convergence env xp c = acting env (''converge '' @ the (cv_subStep c)) (xp_write xp)"

definition read_convergence :: "ops_env \<Rightarrow> exec_ports \<Rightarrow> conv_state option ops" where
  "read_convergence env xp =
     bnd (attempted (read_json env xp ''review-convergence.json'')) (\<lambda>r. case r of
       Inl _ \<Rightarrow> ret None | Inr j \<Rightarrow> ret (conv_of_json j))"

text \<open>Whether a review of an artifact approves; unreadable and malformed artifacts are exceptions.\<close>

definition read_verdict :: "ops_env \<Rightarrow> exec_ports \<Rightarrow> string \<Rightarrow> string \<Rightarrow> bool ops" where
  "read_verdict env xp artifact word = bnd (read_json env xp artifact) (\<lambda>j. calling (verdict_is j word))"

definition read_unresolved :: "ops_env \<Rightarrow> exec_ports \<Rightarrow> bool ops" where
  "read_unresolved env xp = bnd (read_json env xp ''finding-ledger.json'') (\<lambda>j. calling (has_unresolved j))"

definition unresolved_or_absent :: "ops_env \<Rightarrow> exec_ports \<Rightarrow> bool ops" where
  "unresolved_or_absent env xp = bnd (attempted (read_unresolved env xp)) (\<lambda>r. case r of
     Inl _ \<Rightarrow> ret False | Inr b \<Rightarrow> ret b)"

definition conv_at :: "int \<Rightarrow> string \<Rightarrow> conv_state" where
  "conv_at i st = \<lparr>cv_iteration = Some i, cv_subStep = Some st\<rparr>"

definition first_convergence :: "ops_env \<Rightarrow> exec_ports \<Rightarrow> exec_state \<Rightarrow> (conv_state \<times> exec_state) early" where
  "first_convergence env xp s =
     bnd (attempted (read_verdict env xp ''spec-review.json'' ''PASS'')) (\<lambda>spec. case spec of
       Inl _ \<Rightarrow> escalate env xp s ''spec-review'' ''Missing or unreadable review artifacts after spec-review''
     | Inr spec_ok \<Rightarrow>
     bnd (attempted (read_verdict env xp ''quality-review.json'' ''APPROVE'')) (\<lambda>quality. case quality of
       Inl _ \<Rightarrow> escalate env xp s ''quality-review'' ''Missing or unreadable review artifacts after quality-review''
     | Inr quality_ok \<Rightarrow>
     bnd (unresolved_or_absent env xp) (\<lambda>unresolved.
     let c = (if spec_ok \<and> quality_ok \<and> \<not> unresolved then conv_at 0 ''approved'' else conv_at 1 ''fix-review'')
     in sq (write_convergence env xp c) (ret (Inr (c, s))))))"

definition fix_step :: "ops_env \<Rightarrow> exec_ports \<Rightarrow> int \<Rightarrow> exec_state \<Rightarrow> (conv_state \<times> exec_state) early" where
  "fix_step env xp i s =
     further (executeSinglePhase env xp ''fix-review'' True s) (\<lambda>(st, s).
     sq (acting env ''invalidate evidence'' (xp_invalidate xp))
    (sq (write_convergence env xp (conv_at i ''validate'')) (ret (Inr (conv_at i ''validate'', s)))))"

definition revalidate :: "ops_env \<Rightarrow> exec_ports \<Rightarrow> exec_state \<Rightarrow> exec_state early" where
  "revalidate env xp s =
     further (executeSinglePhase env xp ''validate'' True s) (\<lambda>(st, s).
     if st = PhDeferred then repair_validation env xp ''validation repair failed after review fix''
       ''revalidation failed after review fix repair'' s
     else if st \<noteq> PhPassed then escalate env xp s ''validate'' ''validation failed after review fix''
     else recordConditionallySkippedPhase env ''fix-validate'' s)"

definition validate_step :: "ops_env \<Rightarrow> exec_ports \<Rightarrow> int \<Rightarrow> exec_state \<Rightarrow> (conv_state \<times> exec_state) early" where
  "validate_step env xp i s = further (revalidate env xp s) (\<lambda>s.
     sq (write_convergence env xp (conv_at i ''follow-up-review'')) (ret (Inr (conv_at i ''follow-up-review'', s))))"

text \<open>Whether the follow-up approves; \<open>None\<close> if neither the review nor the ledger is readable.\<close>

definition follow_up_approves :: "ops_env \<Rightarrow> exec_ports \<Rightarrow> bool option ops" where
  "follow_up_approves env xp =
     bnd (attempted (read_verdict env xp ''follow-up-review.json'' ''APPROVE'')) (\<lambda>r.
     bnd (case r of Inr yes \<Rightarrow> ret (Some yes)
          | Inl _ \<Rightarrow> bnd (attempted (read_unresolved env xp)) (\<lambda>l. case l of
              Inl _ \<Rightarrow> ret None | Inr unresolved \<Rightarrow> ret (Some (\<not> unresolved)))) (\<lambda>good.
     if good = Some True then bnd (unresolved_or_absent env xp) (\<lambda>unresolved. ret (Some (\<not> unresolved)))
     else ret good))"

definition follow_up_step ::
  "ops_env \<Rightarrow> exec_ports \<Rightarrow> int \<Rightarrow> int \<Rightarrow> exec_state \<Rightarrow> (conv_state \<times> exec_state) early" where
  "follow_up_step env xp bound i s =
     further (executeSinglePhase env xp ''follow-up-review'' True s) (\<lambda>(st, s).
     bnd (follow_up_approves env xp) (\<lambda>good. case good of
       None \<Rightarrow> escalate env xp s ''follow-up-review'' ''Missing or unreadable review artifacts after follow-up-review''
     | Some approved \<Rightarrow>
         if \<not> approved \<and> i \<ge> bound
         then escalate env xp s ''follow-up-review'' ''review-fix convergence loop exhausted''
         else let c = (if approved then conv_at i ''approved'' else conv_at (i + 1) ''fix-review'')
           in sq (write_convergence env xp c) (ret (Inr (c, s)))))"

definition in_stage :: "string \<Rightarrow> conv_state \<Rightarrow> bool" where
  "in_stage st c \<longleftrightarrow> cv_subStep c = Some st"

text \<open>One turn of the loop: the three sub-steps in order, each if it is the stage reached.\<close>

definition turn ::
  "ops_env \<Rightarrow> exec_ports \<Rightarrow> int \<Rightarrow> int \<Rightarrow> conv_state \<Rightarrow> exec_state \<Rightarrow> (conv_state \<times> exec_state) early" where
  "turn env xp bound i c s =
     further (if in_stage ''fix-review'' c then fix_step env xp i s else ret (Inr (c, s))) (\<lambda>(c, s).
     further (if in_stage ''validate'' c then validate_step env xp i s else ret (Inr (c, s))) (\<lambda>(c, s).
     if in_stage ''follow-up-review'' c then follow_up_step env xp bound i s else ret (Inr (c, s))))"

definition loops :: "int \<Rightarrow> conv_state \<Rightarrow> bool" where
  "loops bound c \<longleftrightarrow> \<not> in_stage ''approved'' c \<and> (case cv_iteration c of None \<Rightarrow> False | Some i \<Rightarrow> i \<le> bound)"

fun converge :: "ops_env \<Rightarrow> exec_ports \<Rightarrow> int \<Rightarrow> nat \<Rightarrow> conv_state \<Rightarrow> exec_state \<Rightarrow> exec_state early" where
  "converge env xp bound 0 c s = stop (Ops_other ''out of fuel'')"
| "converge env xp bound (Suc fuel) c s =
     (if \<not> loops bound c then ret (Inr s)
      else further (turn env xp bound (the (cv_iteration c)) c s) (\<lambda>(c, s). converge env xp bound fuel c s))"

definition first_reviews ::
  "ops_env \<Rightarrow> exec_ports \<Rightarrow> conv_state option \<Rightarrow> exec_state \<Rightarrow> (conv_state \<times> exec_state) early" where
  "first_reviews env xp conv s = (case conv of
       Some c \<Rightarrow> ret (Inr (c, s))
     | None \<Rightarrow> further (unless_completed env xp ''spec-review'' s) (\<lambda>s.
         further (unless_completed env xp ''quality-review'' s) (first_convergence env xp)))"

definition review_stage :: "ops_env \<Rightarrow> exec_ports \<Rightarrow> int \<Rightarrow> nat \<Rightarrow> exec_state \<Rightarrow> exec_state early" where
  "review_stage env xp bound fuel s =
     (if ''create-pr'' \<in> set (xs_completed s) \<or> ''wait-merge'' \<in> set (xs_completed s) then ret (Inr s)
      else bnd (read_convergence env xp) (\<lambda>conv.
        further (first_reviews env xp conv s) (\<lambda>(c, s). converge env xp bound fuel c s)))"

section \<open>The whole course\<close>

fun record_requested_skips :: "ops_env \<Rightarrow> string list \<Rightarrow> exec_state \<Rightarrow> exec_state ops" where
  "record_requested_skips env [] s = ret s"
| "record_requested_skips env (name # names) s =
     (if \<not> recorded name s \<and> name \<notin> set (r_skippedPhases (xs_run s))
      then bnd (record_skip env (xs_run s) name s) (record_requested_skips env names)
      else record_requested_skips env names s)"

definition finish_run :: "ops_env \<Rightarrow> exec_state \<Rightarrow> run_output ops" where
  "finish_run env s =
     bnd (record_requested_skips env (xs_skip s) s) (\<lambda>s.
     bnd (find_run_op env (r_uuid (xs_run s))) (\<lambda>found.
     if settled_elsewhere found then ret (output_of found (xs_phases s))
     else passed_run env (xs_run s) (xs_phases s)))"

definition plan_stage :: "ops_env \<Rightarrow> exec_ports \<Rightarrow> exec_state \<Rightarrow> exec_state early" where
  "plan_stage env xp s =
     further (unless_completed env xp ''read_issue'' s) (\<lambda>s.
     further (unless_completed env xp ''plan-design'' s) (\<lambda>s.
     further (if r_executionPolicy (xs_run s) = Some Strict then unless_completed env xp ''architecture-review'' s
              else ret (Inr s)) (\<lambda>s.
     unless_completed env xp ''implement'' s)))"

definition publish_stage :: "ops_env \<Rightarrow> exec_ports \<Rightarrow> exec_state \<Rightarrow> exec_state early" where
  "publish_stage env xp s =
     further (unless_completed env xp ''create-pr'' s) (unless_completed env xp ''wait-merge'')"

definition before_publication ::
  "ops_env \<Rightarrow> exec_ports \<Rightarrow> int \<Rightarrow> nat \<Rightarrow> exec_state \<Rightarrow> exec_state early" where
  "before_publication env xp bound fuel s =
     further (seed_completed env xp (xs_completed s) s) (\<lambda>s.
     further (plan_stage env xp (seed_skipped s)) (\<lambda>s.
     further (initial_validation env xp s) (\<lambda>s.
     review_stage env xp bound fuel s)))"

definition executeLean :: "ops_env \<Rightarrow> exec_ports \<Rightarrow> int \<Rightarrow> nat \<Rightarrow> exec_state \<Rightarrow> run_output ops" where
  "executeLean env xp bound fuel s =
     bnd (further (before_publication env xp bound fuel s) (publish_stage env xp))
     (\<lambda>r. case r of Inl out \<Rightarrow> ret out | Inr s \<Rightarrow> finish_run env s)"

end
