(* ===== verification/Executor_Admission.thy ===== *)
theory Executor_Admission
  imports Executor_Lean
begin

text \<open>
  The admission of a run, \<open>execute\<close> and \<open>recordPreparationFailure\<close> of
  \<^verbatim>\<open>packages/application/src/executor/run-executor.ts\<close>: the guard of the start commit, the
  disposition of a resumed worktree, hydration. Every refusal leaves the run to a human.
  \<open>admission_ports\<close> answers for git, the worktree and the context; optional dependencies are
  options. The classification of dirty paths (\<open>uncommittedSourcePaths\<close>, protected paths, and for
  runs without a policy the manifest) is an argument.
\<close>

section \<open>The start commit\<close>

record admission_ports =
  ap_ctxBase :: "string option"
  ap_resolveRef :: "(string \<Rightarrow> nat \<Rightarrow> string + string option) option"
  ap_insertEvent :: "(nat \<Rightarrow> string + unit) option"
  ap_hasQueue :: bool
  ap_hasSteps :: bool
  ap_inspect :: "(nat \<Rightarrow> string + string list) option"
  ap_execute :: "nat \<Rightarrow> string + bool"
  ap_dirtyPaths :: "nat \<Rightarrow> string + string list"
  ap_allowed :: "string list"
  ap_protected :: "string \<Rightarrow> bool"
  ap_manifest :: "step option \<Rightarrow> nat \<Rightarrow> string + unit"
  ap_hydrate :: "nat \<Rightarrow> string + unit"

record exec_input =
  ei_run :: run_record
  ei_skip :: "string list"
  ei_present :: "string list"
  ei_disposition :: "resume_disposition option"
  ei_bound :: int

definition trimmed :: "string option \<Rightarrow> string" where
  "trimmed s = (case s of None \<Rightarrow> [] | Some t \<Rightarrow> js_trim t)"

definition setup_failed :: "ops_env \<Rightarrow> exec_ports \<Rightarrow> bool \<Rightarrow> run \<Rightarrow> string \<Rightarrow> string \<Rightarrow> run_output ops" where
  "setup_failed env xp force run name msg = bnd (now_op env) (\<lambda>at.
     needs_review_run env xp force run name (new_phase (r_uuid run) name PhNeedsHumanReview 1 at (Some at))
       (failure_at run name ''setup_failed'' msg True) at [])"

definition refuse :: "ops_env \<Rightarrow> exec_ports \<Rightarrow> run \<Rightarrow> string \<Rightarrow> string \<Rightarrow> 'a early" where
  "refuse env xp run name msg = ended (setup_failed env xp False run name msg)"

definition first_incomplete :: "run \<Rightarrow> string list \<Rightarrow> string option" where
  "first_incomplete run skip = getFirstIncompletePhase (resolvePhaseGraph (r_executionPolicy run))
     (set (r_completedPhases run)) (set (r_skippedPhases run)) (set skip)"

definition recordPreparationFailure :: "ops_env \<Rightarrow> exec_ports \<Rightarrow> run \<Rightarrow> string \<Rightarrow> unit ops" where
  "recordPreparationFailure env xp run msg = (case first_incomplete run [] of
       None \<Rightarrow> ret ()
     | Some name \<Rightarrow> bnd (setup_failed env xp True run name msg) (\<lambda>_. ret ()))"

text \<open>The remote ref first, then the local one; \<open>Inl\<close> carries the last error.\<close>

definition resolve_base :: "ops_env \<Rightarrow> admission_ports \<Rightarrow> string \<Rightarrow> (string + string) ops" where
  "resolve_base env ap base = (if base = [] then ret (Inl ''no configured base branch'')
     else case ap_resolveRef ap of
       None \<Rightarrow> ret (Inl ''git adapter does not support resolveRef'')
     | Some resolve \<Rightarrow>
         bnd (act env ''resolveRef'' (resolve (''origin/'' @ base))) (\<lambda>remote.
         if (case remote of Inr sha \<Rightarrow> truthy sha | Inl _ \<Rightarrow> False)
         then ret (Inr (case remote of Inr (Some sha) \<Rightarrow> sha | _ \<Rightarrow> []))
         else bnd (act env ''resolveRef'' (resolve base)) (\<lambda>here. case here of
             Inl e \<Rightarrow> ret (Inl e)
           | Inr sha \<Rightarrow> if truthy sha then ret (Inr (the sha))
               else ret (Inl (case remote of Inl e \<Rightarrow> e | Inr _ \<Rightarrow> ''neither ref resolved to a commit'')))))"

definition fail_job :: "ops_env \<Rightarrow> job \<Rightarrow> unit ops" where
  "fail_job env job = ignoring (sql env (\<lambda>n db.
       case reconcileTerminalJob (oe_jobScope env) (od_jobs db)
           \<lparr>rc_jobId = j_id job, rc_targetStatus = JFailed, rc_now = oe_now env n,
            rc_expectedStatus = None, rc_owner = job_owner job\<rparr> of
         Inl e \<Rightarrow> (Inl (Ops_job e), db)
       | Inr (_, _, tbl) \<Rightarrow> (Inr (), db\<lparr>od_jobs := tbl\<rparr>)))"

definition fail_jobs :: "ops_env \<Rightarrow> admission_ports \<Rightarrow> ident \<Rightarrow> unit ops" where
  "fail_jobs env ap run = only_if (ap_hasQueue ap) (ignoring (bnd (query env (\<lambda>n db.
       listForRun (oe_jobScope env) (od_jobs db) run))
     (each (\<lambda>j. only_if (open_job j) (fail_job env j)))))"

text \<open>\<open>try\<close> to insert an audit event, then emit it.\<close>

definition note_event :: "ops_env \<Rightarrow> admission_ports \<Rightarrow> run \<Rightarrow> string \<Rightarrow> unit ops" where
  "note_event env ap run ty =
     sq (case ap_insertEvent ap of None \<Rightarrow> ret () | Some ins \<Rightarrow> ignoring (acting env ''insert event'' ins))
       (publish env (r_uuid run) ty)"

definition store_baseline ::
  "ops_env \<Rightarrow> exec_ports \<Rightarrow> admission_ports \<Rightarrow> run \<Rightarrow> string \<Rightarrow> string \<Rightarrow> unit early" where
  "store_baseline env xp ap run name sha =
     sq (update_run env (r_uuid run) (empty_patch\<lparr>rp_startCommitSha := Some sha\<rparr>))
    (bnd (find_run_op env (r_uuid run)) (\<lambda>found.
     if (case found of None \<Rightarrow> False | Some r \<Rightarrow> truthy (rr_startCommitSha r) \<and> trimmed (rr_startCommitSha r) = sha)
     then sq (note_event env ap run ''run.resume_start_commit_recovered'') (ret (Inr ()))
     else sq (fail_jobs env ap (r_uuid run))
       (refuse env xp run name ''failed to persist recovered startCommitSha'')))"

definition recover_baseline ::
  "ops_env \<Rightarrow> exec_ports \<Rightarrow> admission_ports \<Rightarrow> exec_input \<Rightarrow> run_record \<Rightarrow> unit early" where
  "recover_baseline env xp ap inp persisted =
     (let run = run.truncate (ei_run inp);
          name = (case first_incomplete run (ei_skip inp) of Some n \<Rightarrow> n | None \<Rightarrow> ''read_issue'');
          base = (case ap_ctxBase ap of Some b \<Rightarrow> js_trim b | None \<Rightarrow> trimmed (r_baseBranch persisted))
      in if (base \<noteq> [] \<and> ap_resolveRef ap \<noteq> None) \<or> ei_disposition inp \<noteq> None
         then bnd (resolve_base env ap base) (\<lambda>r. case r of
             Inl e \<Rightarrow> sq (fail_jobs env ap (r_uuid run))
               (refuse env xp run name (''failed to recover missing startCommitSha: '' @ e))
           | Inr sha \<Rightarrow> store_baseline env xp ap run name sha)
         else ret (Inr ()))"

definition guard_baseline ::
  "ops_env \<Rightarrow> exec_ports \<Rightarrow> admission_ports \<Rightarrow> exec_input \<Rightarrow> unit early" where
  "guard_baseline env xp ap inp =
     (if trimmed (rr_startCommitSha (ei_run inp)) \<noteq> [] then ret (Inr ())
      else if r_baseBranch (ei_run inp) = None \<and> ei_disposition inp = None then ret (Inr ())
      else bnd (find_run_op env (r_uuid (ei_run inp))) (\<lambda>found.
        let persisted = (case found of Some r \<Rightarrow> r | None \<Rightarrow> ei_run inp)
        in if trimmed (rr_startCommitSha persisted) \<noteq> [] then ret (Inr ())
           else recover_baseline env xp ap inp persisted))"

section \<open>The worktree of a resumed run\<close>

definition reset_audit :: "ops_env \<Rightarrow> admission_ports \<Rightarrow> run \<Rightarrow> unit ops" where
  "reset_audit env ap run = (case ap_insertEvent ap of
       None \<Rightarrow> stop (Ops_other ''eventRepository port is not configured'')
     | Some ins \<Rightarrow> sq (acting env ''insert event'' ins) (publish env (r_uuid run) ''run.resume_worktree_reset''))"

definition execute_reset :: "ops_env \<Rightarrow> admission_ports \<Rightarrow> run \<Rightarrow> string \<Rightarrow> unit ops" where
  "execute_reset env ap run baseline =
     bnd (acting env ''reset worktree'' (ap_execute ap)) (\<lambda>success.
     if \<not> success then stop (Ops_other ''worktree lifecycle execution failed'')
     else update_run env (r_uuid run) (empty_patch\<lparr>rp_startCommitSha := Some (js_trim baseline)\<rparr>))"

definition reset_to_baseline ::
  "ops_env \<Rightarrow> exec_ports \<Rightarrow> admission_ports \<Rightarrow> run \<Rightarrow> string \<Rightarrow> step \<Rightarrow> unit early" where
  "reset_to_baseline env xp ap run name st =
     (if trimmed (st_initialPreStepHead st) = [] then refuse env xp run name ''step is missing its baseline''
      else case ap_inspect ap of
        None \<Rightarrow> refuse env xp run name ''worktreeLifecycle port is not configured''
      | Some inspect \<Rightarrow>
          bnd (act env ''inspect'' inspect) (\<lambda>r. case r of
            Inl msg \<Rightarrow> refuse env xp run name ''failed to resolve resume baseline''
          | Inr _ \<Rightarrow> bnd (attempted (reset_audit env ap run)) (\<lambda>r. case r of
              Inl _ \<Rightarrow> refuse env xp run name ''failed to insert resume audit event''
            | Inr _ \<Rightarrow> bnd (attempted (execute_reset env ap run (the (st_initialPreStepHead st)))) (\<lambda>r. case r of
                Inl _ \<Rightarrow> refuse env xp run name ''failed to execute resume reset plan''
              | Inr _ \<Rightarrow> ret (Inr ())))))"

definition preserve_worktree ::
  "ops_env \<Rightarrow> exec_ports \<Rightarrow> admission_ports \<Rightarrow> run \<Rightarrow> string \<Rightarrow> step \<Rightarrow> unit early" where
  "preserve_worktree env xp ap run name st =
     bnd (act env ''git status'' (ap_dirtyPaths ap)) (\<lambda>r. case r of
       Inl _ \<Rightarrow> refuse env xp run name ''failed to check git status for preserve resume''
     | Inr dirty \<Rightarrow>
         if r_executionPolicy run = Some Standard \<or> r_executionPolicy run = Some Strict
         then if list_ex (\<lambda>p. p \<notin> set (ap_allowed ap) \<and> ap_protected ap p) dirty
           then refuse env xp run name ''preserve mode rejected unpermitted dirty paths''
           else ret (Inr ())
         else bnd (act env ''classify'' (ap_manifest ap (Some st))) (\<lambda>r. case r of
             Inl msg \<Rightarrow> refuse env xp run name msg | Inr _ \<Rightarrow> ret (Inr ())))"

definition tolerant_phase :: "string \<Rightarrow> bool" where
  "tolerant_phase name \<longleftrightarrow> name \<in> {''validate'', ''fix-validate'', ''spec-review'', ''quality-review'',
     ''fix-review'', ''follow-up-review'', ''create-pr''}"

definition dirty_paths :: "ops_env \<Rightarrow> admission_ports \<Rightarrow> (string + string list) ops" where
  "dirty_paths env ap =
     bnd (case ap_inspect ap of
         Some inspect \<Rightarrow> act env ''inspect'' inspect
       | None \<Rightarrow> act env ''git status'' (ap_dirtyPaths ap)) (\<lambda>r. case r of
       Inl msg \<Rightarrow> if missing_worktree msg then ret (Inr []) else ret (Inl msg)
     | Inr paths \<Rightarrow> ret (Inr paths))"

definition clean_worktree ::
  "ops_env \<Rightarrow> exec_ports \<Rightarrow> admission_ports \<Rightarrow> run \<Rightarrow> string \<Rightarrow> unit early" where
  "clean_worktree env xp ap run name =
     bnd (dirty_paths env ap) (\<lambda>r. case r of
       Inl msg \<Rightarrow> refuse env xp run name ''failed to check the worktree for resume''
     | Inr paths \<Rightarrow> if paths \<noteq> []
         then refuse env xp run name ''cannot resume with dirty worktree'' else ret (Inr ()))"

definition resumable_step :: "ops_env \<Rightarrow> admission_ports \<Rightarrow> ident \<Rightarrow> step option ops" where
  "resumable_step env ap uuid = (if \<not> ap_hasSteps ap then ret None
     else query env (\<lambda>n db. List.find (\<lambda>st. st_status st \<noteq> SSuccess)
       (sort_key st_index (filter (\<lambda>st. st_phaseId st = ''implement'') (listSteps (od_steps db) uuid)))))"

definition admit_worktree ::
  "ops_env \<Rightarrow> exec_ports \<Rightarrow> admission_ports \<Rightarrow> exec_input \<Rightarrow> unit early" where
  "admit_worktree env xp ap inp =
     (let run = run.truncate (ei_run inp)
      in case (ei_disposition inp, first_incomplete run (ei_skip inp)) of
           (Some disposition, Some name) \<Rightarrow>
             bnd (resumable_step env ap (r_uuid run)) (\<lambda>step.
             if name = ''implement'' then (case step of
                 Some st \<Rightarrow>
                   if disposition = Reset_to_baseline then reset_to_baseline env xp ap run name st
                   else preserve_worktree env xp ap run name st
               | None \<Rightarrow> sq (note_event env ap run ''run.resume_disposition_deferred'') (ret (Inr ())))
             else if tolerant_phase name
             then sq (note_event env ap run ''run.resume_disposition_deferred'') (ret (Inr ()))
             else clean_worktree env xp ap run name)
         | _ \<Rightarrow> ret (Inr ()))"

section \<open>The execution\<close>

definition hydrate :: "ops_env \<Rightarrow> exec_ports \<Rightarrow> admission_ports \<Rightarrow> run \<Rightarrow> unit early" where
  "hydrate env xp ap run = bnd (act env ''hydrate'' (ap_hydrate ap)) (\<lambda>r. case r of
       Inr _ \<Rightarrow> ret (Inr ())
     | Inl msg \<Rightarrow> sq (publish env (r_uuid run) ''run.worktree_hydration_failed'')
         (ended (failOnWorktreeHydrationFailure env xp run msg [])))"

definition stored_artifacts :: "ops_env \<Rightarrow> exec_ports \<Rightarrow> run \<Rightarrow> string list option ops" where
  "stored_artifacts env xp run = (if r_completedPhases run = [] then ret None
     else bnd (attempted (acting env ''list artifacts'' (xp_artifacts xp))) (\<lambda>r. case r of
       Inl _ \<Rightarrow> ret None | Inr stored \<Rightarrow> ret (Some stored)))"

definition admit :: "ops_env \<Rightarrow> exec_ports \<Rightarrow> admission_ports \<Rightarrow> exec_input \<Rightarrow> unit early" where
  "admit env xp ap inp =
     further (guard_baseline env xp ap inp) (\<lambda>_.
     further (admit_worktree env xp ap inp) (\<lambda>_.
     hydrate env xp ap (run.truncate (ei_run inp))))"

definition initial_state :: "exec_input \<Rightarrow> string list option \<Rightarrow> exec_state" where
  "initial_state inp stored = (let run = run.truncate (ei_run inp) in
     \<lparr>xs_run = run, xs_skip = add_missing (ei_skip inp) [], xs_completed = add_missing (r_completedPhases run) [],
      xs_prevSkipped = add_missing (r_skippedPhases run) [], xs_present = ei_present inp, xs_stored = stored,
      xs_phases = []\<rparr>)"

definition execute ::
  "ops_env \<Rightarrow> exec_ports \<Rightarrow> admission_ports \<Rightarrow> nat \<Rightarrow> exec_input \<Rightarrow> run_output ops" where
  "execute env xp ap fuel inp =
     (case orderedPhases (ei_skip inp) None (r_executionPolicy (ei_run inp)) of
        Inl e \<Rightarrow> stop (Ops_other ''invalid skip list'')
      | Inr _ \<Rightarrow> bnd (admit env xp ap inp) (\<lambda>r. case r of
          Inl out \<Rightarrow> ret out
        | Inr _ \<Rightarrow> bnd (stored_artifacts env xp (run.truncate (ei_run inp))) (\<lambda>stored.
            executeLean env xp (ei_bound inp) fuel (initial_state inp stored))))"

end
