(* ===== verification/Executor_Cost.thy ===== *)
theory Executor_Cost
  imports Executor_Admission
begin

text \<open>
  Two calculi for the programs of the run executor. \<open>cost f k m\<close> bounds the weight of the calls a
  program logs; the locale \<open>handler_weight\<close> collects the costs of the executor's steps for
  weights that only count handlers, \<open>Executor_Props\<close> interprets it with the number of handlers
  called and with the creation of the pull request. \<open>early\<close> says what holds when the execution
  goes on after a step.
\<close>

section \<open>What a program costs\<close>

text \<open>
  \<open>cost f k m\<close>: the calls \<open>m\<close> adds to the log weigh at most \<open>k\<close>, each weighed by \<open>f\<close>, whatever
  the ports answer and the other processes do.
\<close>

definition cost :: "(string \<Rightarrow> nat) \<Rightarrow> nat \<Rightarrow> 'a ops \<Rightarrow> bool" where
  "cost f k m \<longleftrightarrow> (\<forall>w. \<exists>cs. os_calls (snd (m w)) = os_calls w @ cs \<and> sum_list (map f cs) \<le> k)"

named_theorems cost_intros \<open>programs that cost nothing\<close>

lemma costI: "(\<And>w. \<exists>cs. os_calls (snd (m w)) = os_calls w @ cs \<and> sum_list (map f cs) \<le> k) \<Longrightarrow> cost f k m"
  by (simp add: cost_def)

lemma costE: "cost f k m \<Longrightarrow> m w = (r, w') \<Longrightarrow> \<exists>cs. os_calls w' = os_calls w @ cs \<and> sum_list (map f cs) \<le> k"
  unfolding cost_def by (metis snd_conv)

lemma cost_mono: "cost f k m \<Longrightarrow> k \<le> k' \<Longrightarrow> cost f k' m"
  unfolding cost_def by (meson le_trans)

lemma cost_none: "(\<And>w. os_calls (snd (m w)) = os_calls w) \<Longrightarrow> cost f k m"
  by (rule costI) (rule exI [where x = "[]"], simp)

lemma cost_sql [cost_intros]: "cost f k (sql env g)"
  by (rule cost_none) (simp add: sql_def Let_def split: prod.split)

lemma cost_query [cost_intros]: "cost f k (query env g)"
  unfolding query_def by (rule cost_sql)

lemma cost_port [cost_intros]: "cost f k (port env g)"
  unfolding port_def by (rule cost_query)

lemma cost_basic [cost_intros]: "cost f k (ret x)" "cost f k (stop e)" "cost f k (now_op env)" "cost f k (publish env r ty)"
  by (auto intro!: cost_none simp: ret_def stop_def now_op_def ask_def publish_def split: option.split)

lemma cost_lift [cost_intros]: "cost f k (lift_run_error r)" "cost f k (calling c)"
  unfolding lift_run_error_def calling_def by (auto intro: cost_intros split: sum.split)

lemma cost_stores [cost_intros]:
  "cost f k (find_run_op env u)" "cost f k (update_run env u p)" "cost f k (put_phase env ph)"
  unfolding find_run_op_def update_run_def put_phase_def by (intro cost_intros)+

lemma cost_bnd_add:
  assumes "cost f k m" and "\<And>x. cost f k' (c x)"
  shows "cost f (k + k') (bnd m c)"
proof (rule costI)
  fix w
  obtain r w1 where r: "m w = (r, w1)" by (rule prod.exhaust)
  from costE [OF assms(1) r] obtain cs where cs: "os_calls w1 = os_calls w @ cs" "sum_list (map f cs) \<le> k" by blast
  show "\<exists>cs. os_calls (snd (bnd m c w)) = os_calls w @ cs \<and> sum_list (map f cs) \<le> k + k'"
  proof (cases r)
    case (Inl e)
    then show ?thesis using r cs by (auto simp: bnd_def intro!: exI [where x = cs])
  next
    case (Inr x)
    obtain r2 w2 where r2: "c x w1 = (r2, w2)" by (rule prod.exhaust)
    from costE [OF assms(2) r2] obtain ds where "os_calls w2 = os_calls w1 @ ds" "sum_list (map f ds) \<le> k'" by blast
    then show ?thesis using r r2 cs Inr by (auto simp: bnd_def intro!: exI [where x = "cs @ ds"])
  qed
qed

lemma cost_bnd [cost_intros]: "cost f 0 m \<Longrightarrow> (\<And>x. cost f k (c x)) \<Longrightarrow> cost f k (bnd m c)"
  using cost_bnd_add [of f 0 m k c] by simp

lemma cost_sq [cost_intros]: "cost f 0 m \<Longrightarrow> cost f k c \<Longrightarrow> cost f k (sq m c)"
  unfolding sq_def by (rule cost_bnd)

lemma cost_catch: "cost f k m \<Longrightarrow> cost f k (catch m h g)"
  unfolding cost_def catch_def by (auto split: prod.split sum.split option.split) (metis snd_conv)+

lemma cost_attempted [cost_intros]: "cost f k m \<Longrightarrow> cost f k (attempted m)" "cost f k m \<Longrightarrow> cost f k (ignoring m)"
  unfolding attempted_def ignoring_def by (rule cost_catch; assumption)+

lemma cost_if [cost_intros]: "(b \<Longrightarrow> cost f k m) \<Longrightarrow> (\<not> b \<Longrightarrow> cost f k c) \<Longrightarrow> cost f k (if b then m else c)"
  by simp

lemma cost_only_if [cost_intros]: "cost f k m \<Longrightarrow> cost f k (only_if b m)"
  by (simp add: only_if_def cost_basic)

lemma cost_option [cost_intros]: "(x = None \<Longrightarrow> cost f k m) \<Longrightarrow> (\<And>y. x = Some y \<Longrightarrow> cost f k (c y)) \<Longrightarrow>
    cost f k (case x of None \<Rightarrow> m | Some y \<Rightarrow> c y)"
  by (cases x) auto

lemma cost_sum [cost_intros]: "(\<And>e. cost f k (m e)) \<Longrightarrow> (\<And>y. cost f k (c y)) \<Longrightarrow>
    cost f k (case x of Inl e \<Rightarrow> m e | Inr y \<Rightarrow> c y)"
  by (cases x) auto

lemma cost_prod [cost_intros]: "(\<And>a b. cost f k (c a b)) \<Longrightarrow> cost f k (case x of (a, b) \<Rightarrow> c a b)"
  by (cases x) auto

lemma cost_let [cost_intros]: "cost f k (c x) \<Longrightarrow> cost f k (let y = x in c y)"
  by simp

lemma cost_each [cost_intros]: "(\<And>x. cost f 0 (g x)) \<Longrightarrow> cost f k (each g xs)"
  by (rule cost_mono [where k = 0], induction xs) (auto intro: cost_intros)

lemma cost_act: "cost f (f what) (act env what g)"
  by (rule costI) (auto simp: act_def sq_run tell_run port_def query_def sql_def Let_def intro!: exI [where x = "[what]"])

lemma cost_act_free [cost_intros]: "f what = 0 \<Longrightarrow> cost f k (act env what g)"
  using cost_mono [OF cost_act [of f what env g], of k] by simp

lemma cost_acting [cost_intros]: "f what = 0 \<Longrightarrow> cost f k (acting env what g)"
  unfolding acting_def by (intro cost_intros) simp_all

lemma cost_further_add: "cost f k m \<Longrightarrow> (\<And>x. cost f k' (c x)) \<Longrightarrow> cost f (k + k') (further m c)"
  unfolding further_def by (rule cost_bnd_add) (auto intro!: cost_intros)

lemma cost_further [cost_intros]: "cost f 0 m \<Longrightarrow> (\<And>x. cost f k (c x)) \<Longrightarrow> cost f k (further m c)"
  using cost_further_add [of f 0 m k c] by simp

lemma cost_further_last: "cost f k m \<Longrightarrow> (\<And>x. cost f 0 (c x)) \<Longrightarrow> cost f k (further m c)"
  using cost_further_add [of f k m 0 c] by simp

lemma cost_ended [cost_intros]: "cost f k m \<Longrightarrow> cost f k (ended m)"
  unfolding ended_def using cost_bnd_add [of f k m 0 "\<lambda>out. ret (Inl out)"] by (simp add: cost_basic)

section \<open>The cost of a phase\<close>

lemma definitions_named: "list_all (\<lambda>(n, d). pd_name d = n) PHASE_DEFINITIONS"
  by code_simp

lemma defined_name: "getPhaseDefinition n = Inr d \<Longrightarrow> pd_name d = n"
  using definitions_named by (auto simp: getPhaseDefinition_def list_all_iff dest!: map_of_SomeD split: option.splits)

text \<open>Weights that only count calls of handlers.\<close>

locale handler_weight =
  fixes f :: "string \<Rightarrow> nat"
  assumes only_handlers: "f c \<noteq> 0 \<Longrightarrow> take 8 c = ''handler ''"
begin

lemma weightless: "take 8 c \<noteq> ''handler '' \<Longrightarrow> f c = 0"
  using only_handlers by blast

lemma free_calls [cost_intros]:
  "f ''insert failure'' = 0" "f ''list artifacts'' = 0" "f ''verify freshness'' = 0" "f ''invalidate evidence'' = 0"
  "f (''read '' @ n) = 0" "f (''converge '' @ n) = 0" "f ''resolveRef'' = 0" "f ''insert event'' = 0"
  "f ''reset worktree'' = 0" "f ''inspect'' = 0" "f ''git status'' = 0" "f ''classify'' = 0" "f ''hydrate'' = 0"
  by (rule weightless; simp)+

lemma cost_ends [cost_intros]:
  "cost f k (fail_run env xp run n ph fl at phs)" "cost f k (block_run env xp run n ph fl at phs)"
  "cost f k (needs_review_run env xp b run n ph fl at phs)"
  unfolding fail_run_def block_run_def needs_review_run_def unless_settled_def record_end_def
  by (intro cost_intros)+

lemma cost_failures [cost_intros]:
  "cost f k (failOnResumeArtifactMismatch env xp run n a phs)" "cost f k (failOnMissingInput env xp run n phs)"
  "cost f k (failOnWorktreeHydrationFailure env xp run msg phs)" "cost f k (escalateToHumanReview env xp run n msg phs)"
  "cost f k (passed_run env run phs)" "cost f k (escalate env xp s n msg)"
  unfolding failOnResumeArtifactMismatch_def failOnMissingInput_def failOnWorktreeHydrationFailure_def
    escalateToHumanReview_def fail_early_def passed_run_def escalate_def Let_def
  by (intro cost_intros)+

lemma cost_record_skip [cost_intros]: "cost f k (record_skip env run n s)"
  unfolding record_skip_def Let_def by (intro cost_intros)

lemma cost_finish [cost_intros]:
  "cost f k (finish_phase env xp st r outs p ev d ph s)" "cost f k (rest_phase env d ph s)"
  unfolding finish_phase_def rest_phase_def list_artifacts_def Let_def by (intro cost_intros)+

lemma cost_settle [cost_intros]: "cost f k (settle_phase env xp d ph r s)"
  unfolding settle_phase_def Let_def by (cases r) (simp_all, (intro cost_intros)+)

lemma cost_after [cost_intros]: "cost f k (after_handler env xp d ph r s)"
  unfolding after_handler_def by (intro cost_intros) (auto intro!: cost_intros split: handler_error.split)

lemma cost_call: "cost f (f (''handler '' @ pd_name d)) (call_handler env xp d ph s)"
  unfolding call_handler_def using cost_bnd_add [OF cost_act cost_after [where k = 0]] by simp

lemma cost_start: "cost f (f (''handler '' @ pd_name d)) (start_phase env xp d s)"
  unfolding start_phase_def Let_def by (intro cost_intros cost_call)

lemma cost_accept [cost_intros]: "cost f k (accept_completed env xp d n s)"
  unfolding accept_completed_def by (intro cost_intros)

lemma cost_phase: "cost f (f (''handler '' @ n)) (executeSinglePhase env xp n b s)"
proof (cases "getPhaseDefinition n")
  case (Inl e)
  then show ?thesis unfolding executeSinglePhase_def by (simp only: sum.case cost_basic)
next
  case (Inr d)
  have "cost f (f (''handler '' @ n)) (start_phase env xp d s)"
    using cost_start [of d] defined_name [OF Inr] by simp
  then show ?thesis
    unfolding executeSinglePhase_def Inr sum.case by (intro cost_intros)
qed

abbreviation h :: "string \<Rightarrow> nat" where
  "h n \<equiv> f (''handler '' @ n)"

lemma cost_unless: "cost f (h n) (unless_completed env xp n s)"
  unfolding unless_completed_def
  by (intro cost_if cost_basic cost_further_last cost_phase cost_prod)

lemma cost_seed [cost_intros]: "cost f k (seed_completed env xp ns s)"
  by (induction ns arbitrary: s) (simp_all add: cost_basic, intro cost_intros)

lemma cost_plan:
  "cost f (h ''read_issue'' + (h ''plan-design'' + (h ''architecture-review'' + h ''implement''))) (plan_stage env xp s)"
  unfolding plan_stage_def
  by (intro cost_further_add cost_unless cost_if cost_basic)

lemma cost_repair: "cost f (h ''fix-validate'' + h ''validate'') (repair_validation env xp m m' s)"
  unfolding repair_validation_def
  by (intro cost_further_add cost_further_last cost_phase cost_prod cost_if cost_failures cost_basic)

lemma cost_conditional_skip [cost_intros]: "cost f k (recordConditionallySkippedPhase env n s)"
  unfolding recordConditionallySkippedPhase_def by (intro cost_intros)

lemma cost_initial: "cost f (h ''validate'' + (h ''fix-validate'' + h ''validate'')) (initial_validation env xp s)"
  unfolding initial_validation_def Let_def
  by (intro cost_bnd cost_acting free_calls cost_if cost_basic cost_further_add cost_phase cost_prod cost_repair cost_failures
      cost_conditional_skip)

lemma cost_reads [cost_intros]:
  "cost f k (read_convergence env xp)" "cost f k (read_verdict env xp a v)" "cost f k (read_unresolved env xp)"
  "cost f k (unresolved_or_absent env xp)" "cost f k (write_convergence env xp c)" "cost f k (follow_up_approves env xp)"
  "cost f k (first_convergence env xp s)"
  unfolding read_convergence_def read_json_def read_verdict_def read_unresolved_def unresolved_or_absent_def
    write_convergence_def follow_up_approves_def first_convergence_def Let_def
  by (intro cost_intros)+

lemma cost_steps:
  "cost f (h ''fix-review'') (fix_step env xp i s)"
  "cost f (h ''validate'' + (h ''fix-validate'' + h ''validate'')) (validate_step env xp i s)"
  "cost f (h ''follow-up-review'') (follow_up_step env xp b i s)"
proof -
  have "cost f (h ''validate'' + (h ''fix-validate'' + h ''validate'')) (revalidate env xp s)"
    unfolding revalidate_def
    by (intro cost_if cost_further_add cost_phase cost_prod cost_repair cost_failures cost_conditional_skip)
  then show "cost f (h ''validate'' + (h ''fix-validate'' + h ''validate'')) (validate_step env xp i s)"
    unfolding validate_step_def
    by (intro cost_further_last cost_sq cost_reads cost_basic)
  show "cost f (h ''fix-review'') (fix_step env xp i s)"
    unfolding fix_step_def
    by (intro cost_further_last cost_phase cost_prod cost_sq cost_acting cost_reads cost_basic free_calls)
  show "cost f (h ''follow-up-review'') (follow_up_step env xp b i s)"
    unfolding follow_up_step_def Let_def
    by (intro cost_further_last cost_phase cost_prod cost_bnd cost_option cost_if cost_sq cost_failures cost_reads cost_basic)
qed

text \<open>The weight of a turn.\<close>

definition turn_weight :: nat where
  "turn_weight = h ''fix-review'' + (h ''validate'' + (h ''fix-validate'' + h ''validate'') + h ''follow-up-review'')"

lemma cost_turn: "cost f turn_weight (turn env xp b i c s)"
  unfolding turn_def turn_weight_def
  by (intro cost_further_add cost_prod cost_if cost_steps cost_basic)

end

section \<open>What a step goes on with\<close>

text \<open>\<open>early P m Q\<close>: started with \<open>P\<close>, the program either ends the execution or goes on with \<open>Q\<close>.\<close>

definition early :: "(ops_state \<Rightarrow> bool) \<Rightarrow> 'a early \<Rightarrow> ('a \<Rightarrow> ops_state \<Rightarrow> bool) \<Rightarrow> bool" where
  "early P m Q \<longleftrightarrow> (\<forall>w x w'. P w \<longrightarrow> m w = (Inr (Inr x), w') \<longrightarrow> Q x w')"

named_theorems early_intros \<open>how a program goes on\<close>

lemma earlyD: "early P m Q \<Longrightarrow> P w \<Longrightarrow> m w = (Inr (Inr x), w') \<Longrightarrow> Q x w'"
  by (simp add: early_def)

lemma early_pre: "early P' m Q \<Longrightarrow> (\<And>w. P w \<Longrightarrow> P' w) \<Longrightarrow> early P m Q"
  unfolding early_def by blast

lemma early_post: "early P m Q' \<Longrightarrow> (\<And>x w. Q' x w \<Longrightarrow> Q x w) \<Longrightarrow> early P m Q"
  by (simp add: early_def)

lemma early_go: "(\<And>w. P w \<Longrightarrow> Q x w) \<Longrightarrow> early P (ret (Inr x)) Q"
  by (simp add: early_def ret_def)

lemma early_ends [early_intros]: "early P (ret (Inl out)) Q" "early P (ended m) Q" "early P (stop e) Q"
  by (auto simp: early_def ret_def ended_def stop_def bnd_def split: prod.splits sum.splits)

lemma early_further: "early P m R \<Longrightarrow> (\<And>x. early (R x) (c x) Q) \<Longrightarrow> early P (further m c) Q"
  by (fastforce simp: early_def further_def bnd_def ret_def split: prod.splits sum.splits)

lemma early_bnd: "triple P m R (\<lambda>_ _. True) \<Longrightarrow> (\<And>x. early (R x) (c x) Q) \<Longrightarrow> early P (bnd m c) Q"
  by (fastforce simp: early_def triple_def bnd_def split: prod.splits sum.splits)

lemma early_skip: "(\<And>x. early (\<lambda>_. True) (c x) Q) \<Longrightarrow> early P (bnd m c) Q"
  by (fastforce simp: early_def bnd_def split: prod.splits sum.splits)

lemma early_sq: "early (\<lambda>_. True) c Q \<Longrightarrow> early P (sq m c) Q"
  unfolding sq_def by (rule early_skip)

lemma early_if: "(b \<Longrightarrow> early P m Q) \<Longrightarrow> (\<not> b \<Longrightarrow> early P c Q) \<Longrightarrow> early P (if b then m else c) Q"
  by simp

lemma early_option: "(x = None \<Longrightarrow> early P m Q) \<Longrightarrow> (\<And>y. x = Some y \<Longrightarrow> early P (c y) Q) \<Longrightarrow>
    early P (case x of None \<Rightarrow> m | Some y \<Rightarrow> c y) Q"
  by (cases x) auto

lemma early_sum: "(\<And>e. early P (m e) Q) \<Longrightarrow> (\<And>y. early P (c y) Q) \<Longrightarrow>
    early P (case x of Inl e \<Rightarrow> m e | Inr y \<Rightarrow> c y) Q"
  by (cases x) auto

lemmas early_paths = early_skip early_sq early_if early_option early_sum early_ends

lemma further_cong:
  "early (\<lambda>_. True) m (\<lambda>x w. c x w = c' x w) \<Longrightarrow> further m c = further m c'"
  by (rule ext) (auto simp: early_def further_def bnd_def split: prod.splits sum.splits)

lemma cost_further_given:
  assumes "cost f k m" and "early (\<lambda>_. True) m (\<lambda>x _. V x)" and "\<And>x. V x \<Longrightarrow> cost f k' (c x)"
  shows "cost f (k + k') (further m c)"
proof -
  have "further m c = further m (\<lambda>x. if V x then c x else stop (Ops_other []))"
    by (rule further_cong, rule early_post [OF assms(2)]) simp
  then show ?thesis
    by (rule ssubst) (rule cost_further_add [OF assms(1)], simp add: assms(3) cost_basic)
qed

text \<open>The set of completed phases the execution started with does not change.\<close>

lemma still_phase: "early P (executeSinglePhase env xp n b s) (\<lambda>x _. xs_completed (snd x) = xs_completed s)"
proof -
  have "xs_completed s0 = C \<Longrightarrow> early P (settle_phase env xp d ph r s0) (\<lambda>x _. xs_completed (snd x) = C)" for P d ph r s0 C
    unfolding settle_phase_def finish_phase_def rest_phase_def Let_def
    by (cases r) (auto intro!: early_paths early_go simp: note_phase_def)
  then have "early P (start_phase env xp d s) (\<lambda>x _. xs_completed (snd x) = xs_completed s)" for P d
    unfolding start_phase_def call_handler_def after_handler_def Let_def
    by (intro early_paths) (auto intro!: early_paths split: handler_error.split)
  then show ?thesis
    unfolding executeSinglePhase_def accept_completed_def record_skip_def Let_def
    by (auto intro!: early_paths early_go simp: note_phase_def bnd_assoc sq_def split: sum.split option.split)
qed

lemma after_phase:
  assumes "xs_completed s = C" and "\<And>st s'. xs_completed s' = C \<Longrightarrow> early (\<lambda>_. True) (c (st, s')) Q"
  shows "early P (further (executeSinglePhase env xp n b s) c) Q"
  by (rule early_further [OF still_phase]) (use assms in \<open>fastforce simp: early_def\<close>)

lemma early_given: "(V \<Longrightarrow> early (\<lambda>_. True) m Q) \<Longrightarrow> early (\<lambda>_. V) m Q"
  by (simp add: early_def)

lemma still_further:
  assumes "early P m (\<lambda>x _. xs_completed x = C)" and "\<And>x. xs_completed x = C \<Longrightarrow> early (\<lambda>_. True) (c x) Q"
  shows "early P (further m c) Q"
  by (rule early_further [OF assms(1)]) (rule early_given, rule assms(2))

abbreviation still :: "string list \<Rightarrow> exec_state early \<Rightarrow> bool" where
  "still C m \<equiv> early (\<lambda>_. True) m (\<lambda>x _. xs_completed x = C)"

lemma still_go: "xs_completed s = C \<Longrightarrow> still C (ret (Inr s))"
  by (simp add: early_go)

lemma still_unless: "xs_completed s = C \<Longrightarrow> still C (unless_completed env xp n s)"
  unfolding unless_completed_def by (intro early_if still_go after_phase) (assumption | simp only: prod.case | rule still_go)+

lemma still_seed: "xs_completed s = C \<Longrightarrow> still C (seed_completed env xp ns s)"
proof (induction ns arbitrary: s)
  case (Cons n ns)
  then show ?case by (auto intro!: early_sum early_ends simp: Let_def note_once_def note_phase_def)
qed (simp add: early_go)

lemma still_plan: "xs_completed s = C \<Longrightarrow> still C (plan_stage env xp s)"
  unfolding plan_stage_def by (intro still_further still_unless early_if still_go)

lemma still_skip: "xs_completed s = C \<Longrightarrow> still C (recordConditionallySkippedPhase env n s)"
  unfolding recordConditionallySkippedPhase_def record_skip_def Let_def bnd_assoc sq_def bnd_ret
  by (intro early_if early_skip still_go) (simp_all add: note_phase_def)

lemma still_repair: "xs_completed s = C \<Longrightarrow> still C (repair_validation env xp m m' s)"
  unfolding repair_validation_def escalate_def
  by (rule after_phase, assumption, simp only: prod.case, intro early_if early_ends after_phase, assumption,
      simp only: prod.case, intro early_if early_ends still_go)

lemma still_initial: "xs_completed s = C \<Longrightarrow> still C (initial_validation env xp s)"
  unfolding initial_validation_def escalate_def Let_def
  by (intro early_skip early_if still_go after_phase; (simp only: prod.case)?; intro early_if still_repair still_skip early_ends)

lemma skipped_still: "xs_completed (seed_skipped s) = xs_completed s"
proof -
  have "xs_completed (foldl (\<lambda>s name. note_once name PhSkipped s) s ns) = xs_completed s" for ns
    by (induction ns arbitrary: s) (simp_all add: note_once_def note_phase_def)
  then show ?thesis by (simp add: seed_skipped_def)
qed

end
