(* ===== verification/Executor_Props.thy ===== *)
theory Executor_Props
  imports Executor_Cost Run_Control_Props
begin

text \<open>
  Properties of the run executor: the convergence loop ends and logs an approval before it is
  left, the pull request comes after the approval, how many handlers an execution calls, what
  stops it, and two states of the loop that are not what they should be.
\<close>

section \<open>The convergence loop\<close>

text \<open>A state of the loop with a stage it knows and an iteration from 1 on, or an approval.\<close>

definition proper :: "conv_state \<Rightarrow> bool" where
  "proper c \<longleftrightarrow> in_stage ''approved'' c \<or>
     (case (cv_iteration c, cv_subStep c) of
        (Some i, Some st) \<Rightarrow> 1 \<le> i \<and> st \<in> set [''fix-review'', ''validate'', ''follow-up-review'']
      | _ \<Rightarrow> False)"

definition turns_left :: "int \<Rightarrow> conv_state \<Rightarrow> nat" where
  "turns_left bound c = (if in_stage ''approved'' c then 0 else nat (bound + 1 - the (cv_iteration c)))"

lemma conv_at_simps [simp]:
  "in_stage st (conv_at i st') \<longleftrightarrow> st' = st" "cv_iteration (conv_at i st) = Some i" "cv_subStep (conv_at i st) = Some st"
  by (auto simp: in_stage_def conv_at_def)

definition approval_logged :: "conv_state \<Rightarrow> ops_state \<Rightarrow> bool" where
  "approval_logged c w \<longleftrightarrow> (in_stage ''approved'' c \<longrightarrow> ''converge approved'' \<in> set (os_calls w))"

definition follows :: "int \<Rightarrow> int \<Rightarrow> conv_state \<Rightarrow> bool" where
  "follows bound i c \<longleftrightarrow> c = conv_at i ''approved'' \<or> c = conv_at (i + 1) ''fix-review'' \<and> i < bound"

lemma log_acting: "triple P (acting env what g) (\<lambda>_ w. what \<in> set (os_calls w)) (\<lambda>_ _. True)"
  by (auto simp: triple_def acting_def act_def sq_run tell_run port_def query_def sql_def bnd_run calling_def
      Let_def lift_def stop_def ret_def split: prod.splits sum.splits)

lemma log_write: "triple P (write_convergence env xp c) (\<lambda>_. approval_logged c) (\<lambda>_ _. True)"
  unfolding write_convergence_def
  by (rule triple_weaken [OF log_acting]) (auto simp: approval_logged_def in_stage_def)

lemma early_write: "(\<And>w. approval_logged c w \<Longrightarrow> Q x w) \<Longrightarrow> early P (sq (write_convergence env xp c) (ret (Inr x))) Q"
  unfolding sq_def by (rule early_bnd [OF log_write]) (rule early_go)

lemma fix_next: "early P (fix_step env xp i s) (\<lambda>x _. fst x = conv_at i ''validate'')"
  unfolding fix_step_def
  by (rule after_phase [OF refl], simp only: prod.case) (rule early_sq, rule early_write, simp)

lemma validate_next: "early P (validate_step env xp i s) (\<lambda>x _. fst x = conv_at i ''follow-up-review'')"
  unfolding validate_step_def
  by (rule early_further [where R = "\<lambda>_ _. True"]) (auto simp: early_def [where Q = "\<lambda>_ _. True"] intro: early_write)

lemma follow_up_next:
  "early P (follow_up_step env xp bound i s) (\<lambda>x w. follows bound i (fst x) \<and> approval_logged (fst x) w)"
  unfolding follow_up_step_def Let_def
  by (rule after_phase [OF refl], simp only: prod.case, intro early_skip early_option early_if)
    (auto intro!: early_write early_ends simp: escalate_def follows_def)

lemma turn_next:
  assumes "proper c" and "\<not> in_stage ''approved'' c"
  shows "early P (turn env xp bound (the (cv_iteration c)) c s)
    (\<lambda>x w. follows bound (the (cv_iteration c)) (fst x) \<and> approval_logged (fst x) w)"
proof -
  obtain i st where c: "c = conv_at i st" "st \<in> {''fix-review'', ''validate'', ''follow-up-review''}"
    using assms by (cases c) (auto simp: proper_def conv_at_def in_stage_def split: option.splits)
  have last: "early (\<lambda>_. fst x = conv_at i ''follow-up-review'')
      ((case x of (c, s) \<Rightarrow> if in_stage ''follow-up-review'' c then follow_up_step env xp bound i s else ret (Inr (c, s))))
      (\<lambda>x w. follows bound i (fst x) \<and> approval_logged (fst x) w)" for x
    by (rule early_given) (cases x; simp add: follow_up_next)
  have rest: "early (\<lambda>_. a = conv_at i ''validate'' \<or> a = conv_at i ''follow-up-review'')
      (further (if in_stage ''validate'' a then validate_step env xp i b else ret (Inr (a, b)))
        (\<lambda>(c, s). if in_stage ''follow-up-review'' c then follow_up_step env xp bound i s else ret (Inr (c, s))))
      (\<lambda>x w. follows bound i (fst x) \<and> approval_logged (fst x) w)" for a b
    by (rule early_given, rule early_further [OF _ last]) (auto simp: early_go intro: validate_next)
  show ?thesis unfolding turn_def c conv_at_simps option.sel
  proof (rule early_further [where R = "\<lambda>x _. fst x = conv_at i ''validate'' \<or> fst x = conv_at i ''follow-up-review''"])
    show "early P (if st = ''fix-review'' then fix_step env xp i s else ret (Inr (conv_at i st, s)))
        (\<lambda>x _. fst x = conv_at i ''validate'' \<or> fst x = conv_at i ''follow-up-review'')"
      using c(2) by (auto simp: early_go intro: early_post [OF fix_next])
  qed (simp only: split_beta, rule rest)
qed

lemma follows_proper: "follows bound i c \<Longrightarrow> 1 \<le> i \<Longrightarrow> i \<le> bound \<Longrightarrow> proper c \<and> turns_left bound c < nat (bound + 1 - i)"
  by (auto simp: follows_def proper_def turns_left_def)

lemma looping:
  assumes "proper c" and "loops bound c"
  obtains i where "cv_iteration c = Some i" "1 \<le> i" "i \<le> bound" "turns_left bound c = nat (bound + 1 - i)"
    "\<not> in_stage ''approved'' c"
  using assms by (auto simp: loops_def proper_def turns_left_def split: option.splits)

text \<open>The loop without fuel: a number of turns, after which it must be over.\<close>

fun turns :: "ops_env \<Rightarrow> exec_ports \<Rightarrow> int \<Rightarrow> nat \<Rightarrow> conv_state \<Rightarrow> exec_state \<Rightarrow> exec_state early" where
  "turns env xp bound 0 c s = ret (Inr s)"
| "turns env xp bound (Suc n) c s =
     (if \<not> loops bound c then ret (Inr s)
      else further (turn env xp bound (the (cv_iteration c)) c s) (\<lambda>(c, s). turns env xp bound n c s))"

lemma converge_turns:
  "proper c \<Longrightarrow> turns_left bound c \<le> n \<Longrightarrow> n < fuel \<Longrightarrow> converge env xp bound fuel c s = turns env xp bound n c s"
proof (induction n arbitrary: fuel c s)
  case 0
  then have "\<not> loops bound c" by (auto elim: looping)
  then show ?case using 0 by (cases fuel) simp_all
next
  case (Suc n)
  obtain fuel' where f: "fuel = Suc fuel'" "n < fuel'" using Suc.prems(3) by (cases fuel) auto
  show ?case
  proof (cases "loops bound c")
    case True
    then obtain i where i: "cv_iteration c = Some i" "1 \<le> i" "i \<le> bound" "turns_left bound c = nat (bound + 1 - i)"
      "\<not> in_stage ''approved'' c" by (rule looping [OF Suc.prems(1)])
    have "further (turn env xp bound i c s) (\<lambda>(c, s). converge env xp bound fuel' c s) =
        further (turn env xp bound i c s) (\<lambda>(c, s). turns env xp bound n c s)"
    proof (rule further_cong, rule early_post [OF turn_next [OF Suc.prems(1) i(5), unfolded i(1) option.sel]])
      fix x :: "conv_state \<times> exec_state" and w
      assume "follows bound i (fst x) \<and> approval_logged (fst x) w"
      then have "proper (fst x)" "turns_left bound (fst x) \<le> n"
        using follows_proper [of bound i "fst x"] i Suc.prems(2) by auto
      then show "(case x of (c, s) \<Rightarrow> converge env xp bound fuel' c s) w = (case x of (c, s) \<Rightarrow> turns env xp bound n c s) w"
        using Suc.IH f(2) by (cases x) simp
    qed
    then show ?thesis using True f i by simp
  qed (use f in simp)
qed

lemma converge_logs:
  "proper c \<Longrightarrow> in_stage ''approved'' c \<or> the (cv_iteration c) \<le> bound \<Longrightarrow>
   early (approval_logged c) (converge env xp bound fuel c s) (\<lambda>_ w. ''converge approved'' \<in> set (os_calls w))"
proof (induction fuel arbitrary: c s)
  case (Suc fuel)
  show ?case
  proof (cases "loops bound c")
    case True
    obtain i where i: "cv_iteration c = Some i" "1 \<le> i" "i \<le> bound" "\<not> in_stage ''approved'' c"
      by (rule looping [OF Suc.prems(1) True])
    have "early (\<lambda>w. follows bound i (fst x) \<and> approval_logged (fst x) w)
        (case x of (c, s) \<Rightarrow> converge env xp bound fuel c s) (\<lambda>_ w. ''converge approved'' \<in> set (os_calls w))" for x
    proof (cases "follows bound i (fst x)")
      case True
      then have "proper (fst x)" "in_stage ''approved'' (fst x) \<or> the (cv_iteration (fst x)) \<le> bound"
        using i by (auto simp: follows_def proper_def)
      from Suc.IH [OF this] show ?thesis by (cases x) (auto intro: early_pre)
    qed (simp add: early_def)
    then show ?thesis
      using True i by (auto intro!: early_further [OF turn_next [OF Suc.prems(1) i(4), unfolded i(1) option.sel]])
  next
    case False
    then have "in_stage ''approved'' c"
      using Suc.prems by (auto simp: loops_def proper_def split: option.splits)
    then show ?thesis using False by (simp add: early_go approval_logged_def)
  qed
qed (simp add: early_ends)

context handler_weight begin

lemma cost_converge: "proper c \<Longrightarrow> cost f (turns_left bound c * turn_weight) (converge env xp bound fuel c s)"
proof (induction fuel arbitrary: c s)
  case (Suc fuel)
  show ?case
  proof (cases "loops bound c")
    case True
    obtain i where i: "cv_iteration c = Some i" "1 \<le> i" "i \<le> bound" "turns_left bound c = nat (bound + 1 - i)"
      "\<not> in_stage ''approved'' c" by (rule looping [OF Suc.prems(1) True])
    have "cost f (turn_weight + (turns_left bound c - 1) * turn_weight)
        (further (turn env xp bound i c s) (\<lambda>(c, s). converge env xp bound fuel c s))"
    proof (rule cost_further_given [OF cost_turn, where V = "\<lambda>x. follows bound i (fst x)"])
      show "early (\<lambda>_. True) (turn env xp bound i c s) (\<lambda>x _. follows bound i (fst x))"
        by (rule early_post [OF turn_next [OF Suc.prems(1) i(5), unfolded i(1) option.sel]]) simp
    next
      fix x :: "conv_state \<times> exec_state"
      assume "follows bound i (fst x)"
      from follows_proper [OF this i(2,3)] have "proper (fst x)" "turns_left bound (fst x) \<le> turns_left bound c - 1"
        using i(4) by auto
      then show "cost f ((turns_left bound c - 1) * turn_weight) (case x of (c, s) \<Rightarrow> converge env xp bound fuel c s)"
        using Suc.IH [of "fst x" "snd x"] by (auto simp: split_beta intro: cost_mono mult_le_mono1)
    qed
    moreover have "0 < turns_left bound c" using i(3,4) by simp
    then have "turn_weight + (turns_left bound c - 1) * turn_weight = turns_left bound c * turn_weight"
      by (cases "turns_left bound c") simp_all
    ultimately show ?thesis using True i by simp
  qed (simp add: cost_basic)
qed (simp add: cost_basic)

end

section \<open>Up to the pull request\<close>

text \<open>What is read as the state of the loop, if anything, satisfies \<open>V\<close>.\<close>

definition convergence_read :: "exec_ports \<Rightarrow> (conv_state \<Rightarrow> bool) \<Rightarrow> bool" where
  "convergence_read xp V \<longleftrightarrow> (\<forall>n. case xp_read xp ''review-convergence.json'' n of
     Inl _ \<Rightarrow> True | Inr j \<Rightarrow> (case conv_of_json j of None \<Rightarrow> True | Some c \<Rightarrow> V c))"

lemma read_convergence_reads:
  "convergence_read xp V \<Longrightarrow> triple P (read_convergence env xp) (\<lambda>conv _. \<forall>c. conv = Some c \<longrightarrow> V c) (\<lambda>_ _. True)"
  by (auto simp: triple_def convergence_read_def read_convergence_def read_json_def attempted_def catch_def acting_def act_def
      sq_run tell_run port_def query_def sql_def bnd_run calling_def Let_def lift_def stop_def ret_def
      split: prod.splits sum.splits option.splits)

definition reviewed :: "(conv_state \<Rightarrow> bool) \<Rightarrow> conv_state \<Rightarrow> ops_state \<Rightarrow> bool" where
  "reviewed V c w \<longleftrightarrow> V c \<or> (c = conv_at 0 ''approved'' \<or> c = conv_at 1 ''fix-review'') \<and> approval_logged c w"

lemma early_any: "early P m (\<lambda>_ _. True)"
  by (simp add: early_def)

lemma first_convergence_next: "early P (first_convergence env xp s) (\<lambda>x. reviewed V (fst x))"
  unfolding first_convergence_def Let_def escalate_def
  by (intro early_skip early_sum early_ends early_write) (simp add: reviewed_def)

lemma first_reviews_next:
  "early (\<lambda>_. \<forall>c. conv = Some c \<longrightarrow> V c) (first_reviews env xp conv s) (\<lambda>x. reviewed V (fst x))"
  unfolding first_reviews_def
  by (intro early_option early_further [OF early_any] first_convergence_next early_go) (simp add: reviewed_def)

lemma review_stage_logs:
  assumes "1 \<le> bound" and "''create-pr'' \<notin> set (xs_completed s)" "''wait-merge'' \<notin> set (xs_completed s)"
    and V: "convergence_read xp (\<lambda>c. proper c \<and> \<not> in_stage ''approved'' c \<and> the (cv_iteration c) \<le> bound)"
  shows "early P (review_stage env xp bound fuel s) (\<lambda>_ w. ''converge approved'' \<in> set (os_calls w))"
proof -
  let ?V = "\<lambda>c. proper c \<and> \<not> in_stage ''approved'' c \<and> the (cv_iteration c) \<le> bound"
  have "early (reviewed ?V (fst x)) (case x of (c, s) \<Rightarrow> converge env xp bound fuel c s)
      (\<lambda>_ w. ''converge approved'' \<in> set (os_calls w))" for x
  proof (cases "proper (fst x) \<and> (in_stage ''approved'' (fst x) \<or> the (cv_iteration (fst x)) \<le> bound)")
    case True
    have "reviewed ?V c w \<Longrightarrow> approval_logged c w" for c w
      by (auto simp: reviewed_def approval_logged_def)
    then show ?thesis
      using converge_logs [of "fst x" bound env xp fuel "snd x"] True by (auto simp: split_beta intro: early_pre)
  next
    case False
    then have "\<not> reviewed ?V (fst x) w" for w
      using assms(1) by (auto simp: reviewed_def proper_def)
    then show ?thesis by (simp add: early_def)
  qed
  then show ?thesis
    unfolding review_stage_def
    using assms(2,3) by (auto intro!: early_bnd [OF read_convergence_reads [OF V]] early_further [OF first_reviews_next])
qed

lemma before_publication_logs:
  assumes "1 \<le> bound" and "''create-pr'' \<notin> set (xs_completed s)" "''wait-merge'' \<notin> set (xs_completed s)"
    and "convergence_read xp (\<lambda>c. proper c \<and> \<not> in_stage ''approved'' c \<and> the (cv_iteration c) \<le> bound)"
  shows "early (\<lambda>_. True) (before_publication env xp bound fuel s) (\<lambda>_ w. ''converge approved'' \<in> set (os_calls w))"
  unfolding before_publication_def
  by (rule still_further [OF still_seed [OF refl]], rule still_further [OF still_plan [OF skipped_still]],
      rule still_further [OF still_initial], assumption, rule review_stage_logs [OF assms(1) _ _ assms(4)])
    (simp_all add: assms(2,3))

lemma cost_bnd_given:
  assumes "cost f 0 m" and "triple (\<lambda>_. True) m (\<lambda>x _. V x) (\<lambda>_ _. True)" and "\<And>x. V x \<Longrightarrow> cost f k (c x)"
  shows "cost f k (bnd m c)"
proof -
  have "bnd m c = bnd m (\<lambda>x. if V x then c x else stop (Ops_other []))"
    using assms(2) by (fastforce simp: triple_def bnd_def fun_eq_iff split: prod.splits sum.splits)
  then show ?thesis by (rule ssubst) (rule cost_bnd [OF assms(1)], simp add: assms(3) cost_basic)
qed

lemma proper_turns: "proper c \<Longrightarrow> turns_left bound c \<le> nat bound"
  by (auto simp: proper_def turns_left_def split: option.splits)

lemma reviews_proper:
  "\<forall>c. conv = Some c \<longrightarrow> proper c \<Longrightarrow> early (\<lambda>_. True) (first_reviews env xp conv s) (\<lambda>x _. proper (fst x))"
  by (rule early_post [OF early_pre [OF first_reviews_next]]) (auto simp: reviewed_def proper_def)

context handler_weight begin

lemma cost_first_reviews: "cost f (h ''spec-review'' + h ''quality-review'') (first_reviews env xp conv s)"
  unfolding first_reviews_def
  by (intro cost_option cost_basic cost_further_add cost_further_last cost_unless cost_reads)

lemma cost_review:
  assumes "convergence_read xp proper"
  shows "cost f (h ''spec-review'' + h ''quality-review'' + nat bound * turn_weight) (review_stage env xp bound fuel s)"
proof -
  have "cost f (nat bound * turn_weight) (case x of (c, s) \<Rightarrow> converge env xp bound fuel c s)" if "proper (fst x)" for x
    using cost_converge [OF that, of bound env xp fuel "snd x"] proper_turns [OF that, of bound]
    by (auto simp: split_beta intro: cost_mono mult_le_mono1)
  then show ?thesis
    unfolding review_stage_def
    by (intro cost_if cost_basic cost_bnd_given [OF _ read_convergence_reads [OF assms]] cost_reads
        cost_further_given [OF cost_first_reviews reviews_proper])
qed

lemma cost_before:
  "convergence_read xp proper \<Longrightarrow> cost f (0 +
     (h ''read_issue'' + (h ''plan-design'' + (h ''architecture-review'' + h ''implement'')) +
     (h ''validate'' + (h ''fix-validate'' + h ''validate'') +
     (h ''spec-review'' + h ''quality-review'' + nat bound * turn_weight)))) (before_publication env xp bound fuel s)"
  unfolding before_publication_def
  by (intro cost_further_add cost_seed cost_plan cost_initial cost_review)

lemma cost_publish: "cost f (h ''create-pr'' + h ''wait-merge'') (publish_stage env xp s)"
  unfolding publish_stage_def by (intro cost_further_add cost_unless)

lemma cost_skips [cost_intros]: "cost f k (record_requested_skips env ns s)"
proof (induction ns arbitrary: s)
  case (Cons n ns)
  have "cost f 0 (record_skip env (xs_run s) n s)" by (rule cost_record_skip)
  from cost_bnd [OF this Cons] Cons show ?case by simp
qed (simp add: cost_basic)

lemma cost_finish_run [cost_intros]: "cost f k (finish_run env s)"
  unfolding finish_run_def passed_run_def by (intro cost_intros)

lemma cost_executeLean:
  assumes "convergence_read xp proper"
  shows "cost f (0 + (h ''read_issue'' + (h ''plan-design'' + (h ''architecture-review'' + h ''implement'')) +
     (h ''validate'' + (h ''fix-validate'' + h ''validate'') +
     (h ''spec-review'' + h ''quality-review'' + nat bound * turn_weight))) +
     (h ''create-pr'' + h ''wait-merge'') + 0) (executeLean env xp bound fuel s)"
  unfolding executeLean_def
  by (intro cost_bnd_add cost_further_add cost_before cost_publish cost_sum cost_basic cost_finish_run assms)

end

section \<open>The handlers that are called\<close>

definition handler_call :: "string \<Rightarrow> bool" where
  "handler_call c \<longleftrightarrow> take 8 c = ''handler ''"

interpretation handlers: handler_weight "\<lambda>c. if handler_call c then 1 else 0"
  by unfold_locales (simp add: handler_call_def split: if_split_asm)

interpretation creation: handler_weight "\<lambda>c. if c = ''handler create-pr'' then 1 else 0"
  by unfold_locales (simp split: if_split_asm)

lemma counted: "sum_list (map (\<lambda>c. if P c then 1 else 0) cs) = length (filter P cs)"
  by (induction cs) simp_all

lemma add_missing_set: "set (add_missing xs ys) = set xs \<union> set ys"
  unfolding add_missing_def by (induction xs arbitrary: ys) auto

lemma lean_calls_bounded:
  assumes "convergence_read xp proper"
  shows "cost (\<lambda>c. if handler_call c then 1 else 0) (11 + 5 * nat bound) (executeLean env xp bound fuel s)"
proof -
  let ?f = "\<lambda>c. if handler_call c then 1 else 0 :: nat"
  have one: "?f (''handler '' @ n) = 1" for n by (simp add: handler_call_def)
  show ?thesis
    using handlers.cost_executeLean [OF assms, of bound env fuel s]
    unfolding handlers.turn_weight_def one by (rule cost_mono) simp
qed

lemma executeLean_calls:
  assumes "before_publication env xp bound fuel s w = (r, w1)"
  shows "os_calls (snd (executeLean env xp bound fuel s w)) = os_calls w1 \<or>
    (\<exists>s' ds. r = Inr (Inr s') \<and> os_calls (snd (executeLean env xp bound fuel s w)) = os_calls w1 @ ds)"
proof (cases "\<exists>s'. r = Inr (Inr s')")
  case True
  then obtain s' where r: "r = Inr (Inr s')" by blast
  let ?rest = "bnd (publish_stage env xp s') (\<lambda>r. case r of Inl out \<Rightarrow> ret out | Inr s \<Rightarrow> finish_run env s)"
  have "executeLean env xp bound fuel s w = ?rest w1"
    using assms unfolding executeLean_def further_def r by (simp add: bnd_def)
  moreover have "cost (\<lambda>c. if c = ''handler create-pr'' then 1 else 0)
      (creation.h ''create-pr'' + creation.h ''wait-merge'' + 0) ?rest"
    by (rule cost_bnd_add [OF creation.cost_publish]) (intro cost_sum cost_basic creation.cost_finish_run)
  then have "\<exists>ds. os_calls (snd (?rest w1)) = os_calls w1 @ ds" unfolding cost_def by blast
  ultimately show ?thesis using r by simp
next
  case False
  then show ?thesis using assms
    by (auto simp: executeLean_def further_def bnd_def ret_def split: sum.splits)
qed

context handler_weight begin

lemma cost_refuse [cost_intros]: "cost f k (refuse env xp run n msg)"
  unfolding refuse_def setup_failed_def by (intro cost_intros)

lemma cost_jobs [cost_intros]: "cost f k (fail_jobs env ap u)" "cost f k (note_event env ap run ty)"
  unfolding fail_jobs_def fail_job_def note_event_def by (intro cost_intros)+

lemma cost_guard [cost_intros]: "cost f k (guard_baseline env xp ap inp)"
  unfolding guard_baseline_def recover_baseline_def store_baseline_def resolve_base_def Let_def
  by (intro cost_intros)

lemma cost_worktree [cost_intros]:
  "cost f k (reset_to_baseline env xp ap run n st)" "cost f k (preserve_worktree env xp ap run n st)"
  "cost f k (clean_worktree env xp ap run n)" "cost f k (resumable_step env ap u)"
  unfolding reset_to_baseline_def reset_audit_def execute_reset_def preserve_worktree_def clean_worktree_def dirty_paths_def
    resumable_step_def
  by (intro cost_intros)+

lemma cost_admit [cost_intros]: "cost f k (admit env xp ap inp)"
  unfolding admit_def admit_worktree_def hydrate_def Let_def by (intro cost_intros)

lemma cost_stored [cost_intros]: "cost f k (stored_artifacts env xp run)"
  unfolding stored_artifacts_def by (intro cost_intros)

lemma cost_execute:
  assumes "\<And>s. cost f k (executeLean env xp (ei_bound inp) fuel s)"
  shows "cost f k (execute env xp ap fuel inp)"
  unfolding execute_def
  by (intro cost_sum cost_bnd [OF cost_admit] cost_bnd [OF cost_stored] cost_basic assms)

end

lemma lean_approval:
  assumes "1 \<le> bound" and "''create-pr'' \<notin> set (xs_completed s)" "''wait-merge'' \<notin> set (xs_completed s)"
    and "convergence_read xp (\<lambda>c. proper c \<and> \<not> in_stage ''approved'' c \<and> the (cv_iteration c) \<le> bound)"
    and "''handler create-pr'' \<notin> set (os_calls w)"
    and "os_calls (snd (executeLean env xp bound fuel s w)) = before @ ''handler create-pr'' # after"
  shows "''converge approved'' \<in> set before"
proof -
  obtain r w1 where w1: "before_publication env xp bound fuel s w = (r, w1)" by (rule prod.exhaust)
  have "convergence_read xp proper"
    using assms(4) by (fastforce simp: convergence_read_def split: sum.splits option.splits)
  then have "cost (\<lambda>c. if c = ''handler create-pr'' then 1 else 0) 0 (before_publication env xp bound fuel s)"
    by (rule cost_mono [OF creation.cost_before]) (simp add: creation.turn_weight_def)
  from costE [OF this w1] have free: "''handler create-pr'' \<notin> set (os_calls w1)"
    using assms(5) by (auto simp: sum_list_eq_0_iff split: if_split_asm)
  from executeLean_calls [OF w1] show ?thesis
  proof (elim disjE exE conjE)
    assume "os_calls (snd (executeLean env xp bound fuel s w)) = os_calls w1"
    then have "''handler create-pr'' \<in> set (os_calls w1)" using assms(6) by (metis in_set_conv_decomp)
    then show ?thesis using free by contradiction
  next
    fix s' ds
    assume r: "r = Inr (Inr s')" and "os_calls (snd (executeLean env xp bound fuel s w)) = os_calls w1 @ ds"
    then have "os_calls w1 @ ds = before @ ''handler create-pr'' # after" using assms(6) by simp
    then have "set (os_calls w1) \<subseteq> set before" using free by (auto simp: append_eq_append_conv2 append_eq_Cons_conv)
    moreover have "''converge approved'' \<in> set (os_calls w1)"
      using earlyD [OF before_publication_logs [OF assms(1-4)]] w1 r by blast
    ultimately show ?thesis by blast
  qed
qed

text \<open>
  C5. Whatever the handlers, git and the other processes do, one execution calls at most
  \<open>11 + 5 * n\<close> handlers, \<open>n\<close> the bound on review-fix iterations.
\<close>

theorem handler_calls_bounded:
  assumes "convergence_read xp proper"
  shows "\<exists>cs. os_calls (snd (execute env xp ap fuel inp w)) = os_calls w @ cs \<and>
    length (filter handler_call cs) \<le> 11 + 5 * nat (ei_bound inp)"
  using costE [OF handlers.cost_execute [OF lean_calls_bounded [OF assms]] surjective_pairing]
  by (simp add: counted)

lemma create_after_approval:
  assumes "1 \<le> ei_bound inp"
    and "''create-pr'' \<notin> set (r_completedPhases (ei_run inp))" "''wait-merge'' \<notin> set (r_completedPhases (ei_run inp))"
    and "convergence_read xp (\<lambda>c. proper c \<and> \<not> in_stage ''approved'' c \<and> the (cv_iteration c) \<le> ei_bound inp)"
    and "os_calls w = []"
    and "os_calls (snd (execute env xp ap fuel inp w)) = before @ ''handler create-pr'' # after"
  shows "''converge approved'' \<in> set before"
proof -
  let ?lean = "\<lambda>stored. executeLean env xp (ei_bound inp) fuel (initial_state inp stored)"
  let ?up = "further (admit env xp ap inp) (\<lambda>_. bnd (stored_artifacts env xp (run.truncate (ei_run inp))) (\<lambda>x. ret (Inr x)))"
  have free: "cost (\<lambda>c. if c = ''handler create-pr'' then 1 else 0) 0 ?up"
    by (intro cost_further creation.cost_admit cost_bnd creation.cost_stored cost_basic)
  obtain r w1 where w1: "?up w = (r, w1)" by (rule prod.exhaust)
  have before: "''handler create-pr'' \<notin> set (os_calls w1)"
    using costE [OF free w1] assms(5) by (auto simp: sum_list_eq_0_iff split: if_split_asm)
  have "''handler create-pr'' \<in> set (os_calls (snd (execute env xp ap fuel inp w)))" using assms(6) by simp
  then obtain stored where "r = Inr (Inr stored)" "execute env xp ap fuel inp w = ?lean stored w1"
    using w1 before assms(5) unfolding execute_def
    by (auto simp: further_def bnd_def ret_def stop_def split: prod.splits sum.splits)
  moreover have "set (xs_completed (initial_state inp stored)) = set (r_completedPhases (ei_run inp))"
    by (simp add: initial_state_def Let_def run.defs add_missing_set)
  ultimately show ?thesis
    using lean_approval [OF assms(1) _ _ assms(4) before, of "initial_state inp stored" env fuel "before" "after"] assms(2,3,6)
    by simp
qed



text \<open>
  A persisted convergence state whose iteration exceeds the bound, left by an execution with a
  larger one, is taken for the end of the review: the stage goes on without calling a handler,
  although nothing was approved.
\<close>

theorem stale_convergence_skips_review:
  assumes "convergence_read xp (\<lambda>c. case cv_iteration c of Some i \<Rightarrow> bound < i | None \<Rightarrow> False)"
    and "read_convergence env xp w = (Inr (Some c), w')"
  shows "review_stage env xp bound (Suc fuel) s w =
    (Inr (Inr s), if ''create-pr'' \<in> set (xs_completed s) \<or> ''wait-merge'' \<in> set (xs_completed s) then w else w')"
proof -
  have "case cv_iteration c of Some i \<Rightarrow> bound < i | None \<Rightarrow> False"
    using triple_Inr [OF read_convergence_reads [OF assms(1)] TrueI assms(2)] by blast
  then have "converge env xp bound (Suc fuel) c s = ret (Inr s)" by (auto simp: loops_def split: option.splits)
  then show ?thesis
    using assms(2) by (simp add: review_stage_def first_reviews_def further_def bnd_def ret_def)
qed

text \<open>
  The loop never ends on a persisted stage that is none of its four: no fuel is enough.
\<close>

theorem unknown_stage_never_ends:
  assumes "cv_iteration c = Some i" and "i \<le> bound"
    and "\<forall>st \<in> set [''fix-review'', ''validate'', ''follow-up-review'', ''approved'']. \<not> in_stage st c"
  shows "converge env xp bound fuel c s w = (Inl (Ops_other ''out of fuel''), w)"
proof (induction fuel)
  case (Suc fuel)
  have "loops bound c" and "turn env xp bound i c s = ret (Inr (c, s))"
    using assms by (auto simp: loops_def turn_def further_def bnd_ret)
  then show ?case using Suc assms(1) by (simp add: further_def bnd_ret)
qed (simp add: stop_def)


lemma early_never:
  assumes "early (\<lambda>_. True) m (\<lambda>_ _. False)"
  shows "triple (\<lambda>_. True) m (\<lambda>r _. \<exists>out. r = Inl out) (\<lambda>_ _. True)"
proof (rule tripleI)
  fix w
  obtain r w' where m: "m w = (r, w')" by (rule prod.exhaust)
  then have "r \<noteq> Inr (Inr x)" for x using assms by (auto simp: early_def)
  then have "\<exists>out. y = Inl out" if "r = Inr y" for y using that by (cases y) auto
  then show "case m w of (Inr r, s') \<Rightarrow> \<exists>out. r = Inl out | (Inl e, s') \<Rightarrow> True"
    using m by (cases r) simp_all
qed

lemma triple_act: "triple P (act env what g) (\<lambda>x _. \<exists>n. x = g n) (\<lambda>_ _. True)"
  by (auto simp: triple_def act_def sq_run tell_run port_def query_def sql_def Let_def)

text \<open>
  A run resumed at a phase that tolerates no changes, in a worktree with any, calls no
  handler.
\<close>

theorem dirty_worktree_not_resumed:
  assumes "ei_disposition inp = Some d"
    and "first_incomplete (run.truncate (ei_run inp)) (ei_skip inp) = Some name"
    and "name \<noteq> ''implement''" "\<not> tolerant_phase name"
    and "ap_inspect ap = Some inspect" "\<And>n. \<exists>p ps. inspect n = Inr (p # ps)"
  shows "\<exists>cs. os_calls (snd (execute env xp ap fuel inp w)) = os_calls w @ cs \<and> filter handler_call cs = []"
proof -
  have "triple P (dirty_paths env ap) (\<lambda>r _. \<exists>p ps. r = Inr (p # ps)) (\<lambda>_ _. True)" for P
    unfolding dirty_paths_def assms(5) option.case
  proof (rule triple_bnd [OF triple_act])
    fix x
    show "triple (\<lambda>_. \<exists>n. x = inspect n) (case x of
        Inl msg \<Rightarrow> if missing_worktree msg then ret (Inr []) else ret (Inl msg) | Inr paths \<Rightarrow> ret (Inr paths))
        (\<lambda>r _. \<exists>p ps. r = Inr (p # ps)) (\<lambda>_ _. True)"
    proof (cases "\<exists>n. x = inspect n")
      case True
      then obtain p ps where "x = Inr (p # ps)" using assms(6) by blast
      then show ?thesis by (simp add: triple_ret)
    qed (simp add: triple_def)
  qed
  then have "early P (clean_worktree env xp ap run name) (\<lambda>_ _. False)" for P run
    unfolding clean_worktree_def refuse_def
    by (rule early_bnd) (force simp: early_def ended_def bnd_def ret_def split: prod.splits sum.splits)
  then have "early (\<lambda>_. True) (admit env xp ap inp) (\<lambda>_ _. False)"
    unfolding admit_def admit_worktree_def Let_def assms(1,2) prod.case option.case
    using assms(3,4) by (intro early_further [OF early_any] early_further [where R = "\<lambda>_ _. False"] early_skip)
      (simp_all add: early_def)
  note ends = early_never [OF this]
  have "cost (\<lambda>c. if handler_call c then 1 else 0) 0 (execute env xp ap fuel inp)"
    unfolding execute_def
    by (rule cost_sum, rule cost_basic, rule cost_bnd_given [OF handlers.cost_admit ends]) (auto simp: cost_basic)
  from costE [OF this surjective_pairing, of w] show ?thesis by (simp add: counted)
qed

section \<open>Samples\<close>

definition json_verdict :: "string \<Rightarrow> json" where
  "json_verdict v = JObj [(''verdict'', JStr v)]"

definition passing_ports :: exec_ports where
  "passing_ports = \<lparr>xp_registered = (\<lambda>_. True), xp_handler = (\<lambda>_ _. Inr Res_passed), xp_artifacts = (\<lambda>_. Inl ''none''),
     xp_insertFailure = (\<lambda>_. Inr ()),
     xp_read = (\<lambda>name _. if name = ''spec-review.json'' then Inr (json_verdict ''PASS'')
       else if name = ''quality-review.json'' then Inr (json_verdict ''approve'') else Inl ''ENOENT''),
     xp_write = (\<lambda>_. Inr ()), xp_fresh = (\<lambda>_. Inr True), xp_invalidate = (\<lambda>_. Inr ())\<rparr>"

definition plain_admission :: admission_ports where
  "plain_admission = \<lparr>ap_ctxBase = None, ap_resolveRef = None, ap_insertEvent = None, ap_hasQueue = False,
     ap_hasSteps = False, ap_inspect = Some (\<lambda>_. Inr [''notes.txt'']), ap_execute = (\<lambda>_. Inr True), ap_dirtyPaths = (\<lambda>_. Inr []),
     ap_allowed = [], ap_protected = (\<lambda>_. False), ap_manifest = (\<lambda>_ _. Inr ()), ap_hydrate = (\<lambda>_. Inr ())\<rparr>"

definition reviewed_run :: run_record where
  "reviewed_run = (sample_row ''u'' RRunning)\<lparr>r_completedPhases := [''read_issue'', ''plan-design'', ''implement'',
     ''validate'', ''spec-review'', ''quality-review''], r_skippedPhases := []\<rparr>"

definition reviewed_input :: exec_input where
  "reviewed_input = \<lparr>ei_run = reviewed_run, ei_skip = [], ei_present = [], ei_disposition = None, ei_bound = 4\<rparr>"

lemma passing_reads: "xp_read passing_ports ''review-convergence.json'' n = Inl ''ENOENT''"
  by (simp add: passing_ports_def)

lemma passing_convergence: "convergence_read passing_ports V"
  by (simp add: convergence_read_def passing_reads)

theorem handler_calls_bounded_witness:
  "\<exists>cs. os_calls (snd (execute quiet_env passing_ports plain_admission 1 reviewed_input (quiet_state reviewed_run))) =
      os_calls (quiet_state reviewed_run) @ cs \<and> length (filter handler_call cs) \<le> 31"
  using handler_calls_bounded [OF passing_convergence, of quiet_env plain_admission 1 reviewed_input "quiet_state reviewed_run"]
  by (simp add: reviewed_input_def)



definition stale_ports :: exec_ports where
  "stale_ports = passing_ports\<lparr>xp_read := (\<lambda>_ _. Inr (JObj [(''iteration'', JNum 5), (''subStep'', JStr ''fix-review'')]))\<rparr>"

lemma stale_read: "fst (read_convergence quiet_env stale_ports (quiet_state reviewed_run)) = Inr (Some (conv_at 5 ''fix-review''))"
  by code_simp

lemma stale_convergence: "convergence_read stale_ports (\<lambda>c. case cv_iteration c of Some i \<Rightarrow> 4 < i | None \<Rightarrow> False)"
  by (simp add: convergence_read_def stale_ports_def conv_of_json_def js_falsy_def prop_of_def)

theorem stale_convergence_skips_review_witness:
  "review_stage quiet_env stale_ports 4 6 (initial_state reviewed_input None) (quiet_state reviewed_run) =
     (Inr (Inr (initial_state reviewed_input None)),
      snd (read_convergence quiet_env stale_ports (quiet_state reviewed_run)))"
proof -
  have "read_convergence quiet_env stale_ports (quiet_state reviewed_run) =
      (Inr (Some (conv_at 5 ''fix-review'')), snd (read_convergence quiet_env stale_ports (quiet_state reviewed_run)))"
    using stale_read by (simp add: prod_eq_iff)
  from stale_convergence_skips_review [OF stale_convergence this, of 5 "initial_state reviewed_input None"]
  show ?thesis
    by (simp add: initial_state_def reviewed_input_def reviewed_run_def run.defs add_missing_def numeral_eq_Suc)
qed

theorem unknown_stage_never_ends_witness:
  "converge quiet_env passing_ports 4 6 (conv_at 1 ''review'') (initial_state reviewed_input None)
     (quiet_state reviewed_run) = (Inl (Ops_other ''out of fuel''), quiet_state reviewed_run)"
  by (rule unknown_stage_never_ends [of _ 1]) simp_all

theorem dirty_worktree_not_resumed_witness:
  "\<exists>cs. os_calls (snd (execute quiet_env passing_ports plain_admission 6
       (reviewed_input\<lparr>ei_run := sample_row ''u'' RRunning, ei_disposition := Some Reset_to_baseline\<rparr>)
       (quiet_state (sample_row ''u'' RRunning)))) = os_calls (quiet_state (sample_row ''u'' RRunning)) @ cs \<and>
     filter handler_call cs = []"
proof (rule dirty_worktree_not_resumed)
  show "first_incomplete (run.truncate (ei_run (reviewed_input\<lparr>ei_run := sample_row ''u'' RRunning,
      ei_disposition := Some Reset_to_baseline\<rparr>))) (ei_skip (reviewed_input\<lparr>ei_run := sample_row ''u'' RRunning,
      ei_disposition := Some Reset_to_baseline\<rparr>)) = Some ''read_issue''"
    by code_simp
qed (auto simp: tolerant_phase_def plain_admission_def)


end
