(* ===== verification/Artifacts.thy ===== *)
theory Artifacts
  imports Text "HOL-Library.List_Lexorder"
begin

text \<open>
  The files the orchestrator itself writes into a worktree, and the paths \<^verbatim>\<open>git status\<close> reports:
  \<^verbatim>\<open>packages/application/src/artifacts/orchestrator-artifacts.ts\<close>. A pattern is matched directly
  (\<open>glob\<close>) where the code compiles it to a regular expression. \<open>TextDecoder.decode\<close> is the
  argument \<open>utf8\<close>. Lemmas: what a pattern matches, quoted paths are read back, and a report of
  git status is read as exactly its paths.
\<close>

section \<open>Patterns\<close>

definition ORCHESTRATOR_ARTIFACT_PATHS :: "string list" where
  "ORCHESTRATOR_ARTIFACT_PATHS =
     [''validation.headsha'', ''validation.fingerprint'', ''review-fix-plan.json'', 
     ''review-task-manifest.json'', ''review-triage.md'', ''code-review.md'', ''review.md'', 
     ''task-manifest.json'', ''implementation-log.md'', ''arbiter-result.json'', 
     ''review-loop-history.json'', ''implement-step-history-*.json'', ''compound-draft.md'', 
     ''compound.md'', ''validation.result'', ''result.json'', ''scratch-files.json'', 
     ''.ai-tmp/scratch-files.json'', ''fix-validate-done.marker'', ''plan-review-passed.marker'', 
     ''pr-summary.md'', ''pr-url.txt'', ''finding-ledger.json'', ''review-convergence.json'', 
     ''review-head-sha.txt'', ''spec-review-head-sha.txt'', ''quality-review-head-sha.txt'', 
     ''whole-change-review.json'', ''follow-up-review.json'', ''spec-review.json'', 
     ''spec-review.md'', ''spec-requirements-ledger.json'', ''quality-review.json'', 
     ''quality-review.md'', ''architecture-review.json'', ''architecture-review.md'', 
     ''architecture-requirements.json'', ''validate/critical-files.json'']"

definition ORCHESTRATOR_PATCH_EXCLUDE :: string where
  "ORCHESTRATOR_PATCH_EXCLUDE = ''*.patch''"

definition ORCHESTRATOR_DIFF_EXCLUDES :: "string list" where
  "ORCHESTRATOR_DIFF_EXCLUDES = [''*.diff'', ''*-diff.txt'', ''diff.txt'']"

definition PROMPT_ORCHESTRATOR_ARTIFACT_PATHS :: "string list" where
  "PROMPT_ORCHESTRATOR_ARTIFACT_PATHS =
     [''issue.md'', ''issue-comments.md'', ''design.md'', ''plan.md'', ''task-context-step-*.md'', 
     ''plan-review-findings.md'', ''plan-fix-result.json'', ''quality-review-result*.json'', 
     ''spec-review-result*.json'', ''fix-result*.json'', ''follow-up-review-result*.json'', 
     ''fix-review-result*.json'', ''fix-validate-result*.json'', ''prompt.md'', 
     ''implementation-log*.md'']"

definition isOrchestratorArtifactPath :: "string \<Rightarrow> bool" where
  "isOrchestratorArtifactPath path \<longleftrightarrow> path \<in> set ORCHESTRATOR_ARTIFACT_PATHS"

definition orchestratorExcludePatterns :: "string list" where
  "orchestratorExcludePatterns = ORCHESTRATOR_ARTIFACT_PATHS @ [ORCHESTRATOR_PATCH_EXCLUDE] @
     ORCHESTRATOR_DIFF_EXCLUDES @ PROMPT_ORCHESTRATOR_ARTIFACT_PATHS"

text \<open>\<open>patternToRegExp(pattern).test(path)\<close>: a star is \<open>[^/]*\<close>, all else is literal.\<close>

fun glob :: "string \<Rightarrow> string \<Rightarrow> bool" where
  "glob [] s = (s = [])"
| "glob (p # ps) [] = (p = CHR ''*'' \<and> glob ps [])"
| "glob (p # ps) (c # cs) =
     (if p = CHR ''*'' then glob ps (c # cs) \<or> (c \<noteq> CHR ''/'' \<and> glob (p # ps) cs)
      else p = c \<and> glob ps cs)"

definition artifact_pattern :: "string \<Rightarrow> bool" where
  "artifact_pattern path \<longleftrightarrow> list_ex (\<lambda>p. glob p path) orchestratorExcludePatterns"

text \<open>\<open>replace(/\r$/, '')\<close> and \<open>replace(/^(\.\/|\/)+/, '')\<close>.\<close>

definition strip_cr :: "string \<Rightarrow> string" where
  "strip_cr s = (if s \<noteq> [] \<and> last s = CHR 0x0D then butlast s else s)"

fun strip_lead :: "string \<Rightarrow> string" where
  "strip_lead [] = []"
| "strip_lead [c] = (if c = CHR ''/'' then [] else [c])"
| "strip_lead (c # d # s) =
     (if c = CHR ''/'' then strip_lead (d # s)
      else if c = CHR ''.'' \<and> d = CHR ''/'' then strip_lead s else c # d # s)"

definition isOrchestratorArtifactPattern :: "string \<Rightarrow> bool" where
  "isOrchestratorArtifactPattern path =
     (let normalized = strip_lead (strip_cr path)
      in path \<noteq> [] \<and> normalized \<noteq> [] \<and> (take 4 normalized = ''.ai/'' \<or> artifact_pattern normalized))"

definition basename :: "string \<Rightarrow> string" where
  "basename p = last (split_on (CHR ''/'') p)"

definition isProtectedArtifactCandidate :: "string \<Rightarrow> bool" where
  "isProtectedArtifactCandidate path =
     (let normalized = strip_lead (strip_cr path)
      in path \<noteq> [] \<and> normalized \<noteq> [] \<and>
         (isOrchestratorArtifactPattern normalized \<or> isOrchestratorArtifactPattern (basename normalized)))"

section \<open>Paths of git\<close>

definition octal :: "char \<Rightarrow> bool" where
  "octal c \<longleftrightarrow> CHR ''0'' \<le> c \<and> c \<le> CHR ''7''"

definition digit :: "char \<Rightarrow> nat" where
  "digit c = of_char c - 48"

text \<open>Up to \<open>n\<close> octal digits, as a number, and what follows them.\<close>

fun take_octal :: "nat \<Rightarrow> nat \<Rightarrow> string \<Rightarrow> nat \<times> string" where
  "take_octal (Suc n) acc (c # s) = (if octal c then take_octal n (acc * 8 + digit c) s else (acc, c # s))"
| "take_octal n acc s = (acc, s)"

lemma take_octal_shorter: "length (snd (take_octal n acc s)) \<le> length s"
  by (induction n acc s rule: take_octal.induct) auto

text \<open>A run of octal escapes, read from its first digit; \<open>Uint8Array\<close> keeps eight bits of each.\<close>

function octal_run :: "string \<Rightarrow> nat list \<times> string" where
  "octal_run s = (let (v, rest) = take_octal 3 0 s
     in case rest of
          c # d # r \<Rightarrow>
            if c = CHR 0x5C \<and> octal d then (let (bytes, t) = octal_run (d # r) in (v mod 256 # bytes, t))
            else ([v mod 256], rest)
        | _ \<Rightarrow> ([v mod 256], rest))"
  by pat_completeness auto

termination
proof (relation "measure length")
  fix s :: string and x v rest c xs d r
  assume "x = take_octal 3 0 s" "(v, rest) = x" "rest = c # xs" "xs = d # r"
  then have "snd (take_octal 3 0 s) = c # d # r" by (simp add: prod_eq_iff)
  then show "(d # r, s) \<in> measure length"
    using take_octal_shorter [of 3 0 s] by simp
qed simp

declare octal_run.simps [simp del]

lemma octal_run_shorter: "length (snd (octal_run s)) \<le> length s"
proof (induction "length s" arbitrary: s rule: less_induct)
  case less
  obtain v rest where t: "take_octal 3 0 s = (v, rest)" by (rule prod.exhaust)
  then have len: "length rest \<le> length s" using take_octal_shorter [of 3 0 s] by simp
  show ?case
  proof (cases "\<exists>d r. rest = CHR 0x5C # d # r \<and> octal d")
    case True
    then obtain d r where r: "rest = CHR 0x5C # d # r" "octal d" by blast
    have "length (d # r) < length s" using r len by simp
    from less [OF this] have "length (snd (octal_run (d # r))) \<le> length (d # r)" .
    then show ?thesis using r t len by (subst octal_run.simps) (auto split: prod.split)
  next
    case False
    then have "snd (octal_run s) = rest" using t by (subst octal_run.simps) (auto split: list.split)
    then show ?thesis using len by simp
  qed
qed

text \<open>The text between the quotes.\<close>

definition unescape :: "char \<Rightarrow> char" where
  "unescape c =
     (if c = CHR ''a'' then CHR 0x07 else if c = CHR ''b'' then CHR 0x08 else if c = CHR ''f'' then CHR 0x0C
      else if c = CHR ''n'' then CHR 0x0A else if c = CHR ''r'' then CHR 0x0D else if c = CHR ''t'' then CHR 0x09
      else if c = CHR ''v'' then CHR 0x0B else c)"

function unquote :: "(nat list \<Rightarrow> string) \<Rightarrow> string \<Rightarrow> string" where
  "unquote utf8 [] = []"
| "unquote utf8 [c] = [c]"
| "unquote utf8 (c # d # s) =
     (if c \<noteq> CHR 0x5C then c # unquote utf8 (d # s)
      else if octal d then (let (bytes, rest) = octal_run (d # s) in utf8 bytes @ unquote utf8 rest)
      else unescape d # unquote utf8 s)"
  by pat_completeness auto

termination
proof (relation "measure (length \<circ> snd)")
  fix utf8 :: "nat list \<Rightarrow> string" and c d s x bytes rest
  assume "x = octal_run (d # s)" "(bytes, rest) = x"
  then have "length rest \<le> length (d # s)" using octal_run_shorter [of "d # s"] by (metis snd_conv)
  then show "((utf8, rest), utf8, c # d # s) \<in> measure (length \<circ> snd)" by simp
qed simp_all

definition unquoteGitPath :: "(nat list \<Rightarrow> string) \<Rightarrow> string \<Rightarrow> string" where
  "unquoteGitPath utf8 path =
     (if length path \<ge> 2 \<and> hd path = CHR 0x22 \<and> last path = CHR 0x22
      then unquote utf8 (butlast (tl path)) else path)"

section \<open>The report of git status\<close>

text \<open>What stands before and after the first occurrence of \<open>p\<close>.\<close>

fun split_at :: "string \<Rightarrow> string \<Rightarrow> (string \<times> string) option" where
  "split_at p [] = (if p = [] then Some ([], []) else None)"
| "split_at p (c # s) = (if take (length p) (c # s) = p then Some ([], drop (length p) (c # s))
     else map_option (\<lambda>(a, b). (c # a, b)) (split_at p s))"

text \<open>After an opening quote: what stands before and after the closing one.\<close>

fun closing_quote :: "string \<Rightarrow> (string \<times> string) option" where
  "closing_quote [] = None"
| "closing_quote (c # s) =
     (if c = CHR 0x22 then Some ([], s)
      else if c = CHR 0x5C then (case s of [] \<Rightarrow> None
        | d # t \<Rightarrow> map_option (\<lambda>(a, b). (c # d # a, b)) (closing_quote t))
      else map_option (\<lambda>(a, b). (c # a, b)) (closing_quote s))"

definition split_plain :: "string \<Rightarrow> string list" where
  "split_plain payload = (case split_at '' -> '' payload of Some (a, b) \<Rightarrow> [a, b] | None \<Rightarrow> [payload])"

definition split_renamed :: "string \<Rightarrow> string list" where
  "split_renamed payload =
     (if hd payload \<noteq> CHR 0x22 then split_plain payload
      else case closing_quote (tl payload) of
          None \<Rightarrow> split_plain payload
        | Some (inner, rest) \<Rightarrow> (case split_at '' -> '' rest of
            Some (_, b) \<Rightarrow> [CHR 0x22 # inner @ [CHR 0x22], b]
          | None \<Rightarrow> split_plain payload))"

definition parseGitStatusLine :: "string \<Rightarrow> string list" where
  "parseGitStatusLine raw = (let line = strip_cr raw
     in if length line \<le> 3 then []
        else if line ! 0 \<in> {CHR ''R'', CHR ''C''} \<or> line ! 1 \<in> {CHR ''R'', CHR ''C''} then split_renamed (drop 3 line)
        else [drop 3 line])"

definition parseGitStatusPaths :: "(nat list \<Rightarrow> string) \<Rightarrow> string \<Rightarrow> string list" where
  "parseGitStatusPaths utf8 status =
     sort (remdups (filter (\<lambda>p. p \<noteq> []) (map (unquoteGitPath utf8)
       (concat (map parseGitStatusLine (filter (\<lambda>l. l \<noteq> []) (split_on (CHR 0x0A) status)))))))"

definition uncommittedSourcePaths :: "(nat list \<Rightarrow> string) \<Rightarrow> string \<Rightarrow> string list" where
  "uncommittedSourcePaths utf8 status = filter (\<lambda>p. \<not> artifact_pattern p) (parseGitStatusPaths utf8 status)"

definition isUntrackedOrAddedStatusLine :: "string \<Rightarrow> bool" where
  "isUntrackedOrAddedStatusLine line \<longleftrightarrow>
     length line \<ge> 3 \<and> (take 3 line = ''?? '' \<or> line ! 0 = CHR ''A'' \<or> line ! 1 = CHR ''A'')"

section \<open>What a pattern matches\<close>

lemma glob_star: "glob (CHR ''*'' # ps) s \<longleftrightarrow> (\<exists>a b. s = a @ b \<and> CHR ''/'' \<notin> set a \<and> glob ps b)"
proof (induction s)
  case (Cons c s)
  let ?cut = "\<lambda>s. \<exists>a b. s = a @ b \<and> CHR ''/'' \<notin> set a \<and> glob ps b"
  have "?cut (c # s) \<longleftrightarrow> glob ps (c # s) \<or> (c \<noteq> CHR ''/'' \<and> ?cut s)"
  proof
    assume "?cut (c # s)"
    then obtain a b where "c # s = a @ b" "CHR ''/'' \<notin> set a" "glob ps b" by blast
    then show "glob ps (c # s) \<or> (c \<noteq> CHR ''/'' \<and> ?cut s)" by (cases a) auto
  next
    assume "glob ps (c # s) \<or> (c \<noteq> CHR ''/'' \<and> ?cut s)"
    then show "?cut (c # s)"
    proof (elim disjE conjE exE)
      assume "glob ps (c # s)"
      then show ?thesis by (intro exI [of _ "[]"] exI [of _ "c # s"]) simp
    next
      fix a b assume "c \<noteq> CHR ''/''" "s = a @ b" "CHR ''/'' \<notin> set a" "glob ps b"
      then show ?thesis by (intro exI [of _ "c # a"] exI [of _ b]) simp
    qed
  qed
  then show ?case using Cons by simp
qed simp

lemma glob_literal: "CHR ''*'' \<notin> set p \<Longrightarrow> glob p s \<longleftrightarrow> s = p"
  by (induction p s rule: glob.induct) auto

lemma glob_self: "glob p p"
proof (induction p)
  case (Cons c p)
  then have "\<exists>a b. c # p = a @ b \<and> CHR ''/'' \<notin> set a \<and> glob p b" if "c = CHR ''*''"
    using that by (intro exI [of _ "[c]"] exI [of _ p]) simp
  then show ?case using Cons glob_star [of p "c # p"] by (cases "c = CHR ''*''") auto
qed simp

lemma artifact_path_pattern: "isOrchestratorArtifactPath p \<Longrightarrow> artifact_pattern p"
  by (auto simp: isOrchestratorArtifactPath_def artifact_pattern_def orchestratorExcludePatterns_def list_ex_iff intro: glob_self)

section \<open>What git writes\<close>

text \<open>The C-style quoting of git, for ASCII paths.\<close>

definition escapes :: "(char \<times> char) list" where
  "escapes = [(CHR 0x07, CHR ''a''), (CHR 0x08, CHR ''b''), (CHR 0x0C, CHR ''f''), (CHR 0x0A, CHR ''n''), (CHR 0x0D, CHR ''r''),
     (CHR 0x09, CHR ''t''), (CHR 0x0B, CHR ''v''), (CHR 0x22, CHR 0x22), (CHR 0x5C, CHR 0x5C)]"

definition control :: "char \<Rightarrow> bool" where
  "control c \<longleftrightarrow> map_of escapes c = None \<and> ((of_char c :: nat) < 32 \<or> (of_char c :: nat) = 127)"

definition octal_char :: "nat \<Rightarrow> char" where
  "octal_char n = char_of (48 + n)"

definition three_digits :: "char \<Rightarrow> string" where
  "three_digits c = (let n = of_char c in [octal_char (n div 64), octal_char (n div 8 mod 8), octal_char (n mod 8)])"

definition quote_char :: "char \<Rightarrow> string" where
  "quote_char c = (case map_of escapes c of Some e \<Rightarrow> [CHR 0x5C, e]
     | None \<Rightarrow> if control c then CHR 0x5C # three_digits c else [c])"

definition git_quote :: "string \<Rightarrow> string" where
  "git_quote p = CHR 0x22 # concat (map quote_char p) @ [CHR 0x22]"

definition ascii :: "string \<Rightarrow> bool" where
  "ascii p \<longleftrightarrow> (\<forall>c \<in> set p. (of_char c :: nat) < 128)"

text \<open>\<open>TextDecoder\<close> reads the bytes below 128 as themselves.\<close>

definition reads_ascii :: "(nat list \<Rightarrow> string) \<Rightarrow> bool" where
  "reads_ascii utf8 \<longleftrightarrow> (\<forall>p. ascii p \<longrightarrow> utf8 (map of_char p) = p)"

lemma octal_octal_char: "n < 8 \<Longrightarrow> octal (octal_char n)"
  by (auto simp: octal_def octal_char_def less_eq_char_def)

lemma digit_octal_char: "n < 8 \<Longrightarrow> digit (octal_char n) = n"
  by (simp add: digit_def octal_char_def)

lemma take_octal_char: "k < 8 \<Longrightarrow> take_octal (Suc n) acc (octal_char k # s) = take_octal n (acc * 8 + k) s"
  by (simp add: octal_octal_char digit_octal_char)

lemma octal_sum: "8 * e + r = n \<Longrightarrow> 8 * a + b = e \<Longrightarrow> ((0 * 8 + a) * 8 + b) * 8 + r = (n :: nat)"
  by simp

lemma octal_value: "((0 * 8 + n div 64) * 8 + n div 8 mod 8) * 8 + n mod 8 = (n :: nat)"
proof -
  have "8 * (n div 8 div 8) + n div 8 mod 8 = n div 8" by (rule mult_div_mod_eq)
  moreover have "n div 8 div 8 = n div 64" by (simp add: div_mult2_eq [symmetric])
  ultimately have "8 * (n div 64) + n div 8 mod 8 = n div 8" by (simp only:)
  then show ?thesis by (rule octal_sum [OF mult_div_mod_eq])
qed

lemma take_three:
  assumes "(of_char c :: nat) < 128"
  shows "take_octal 3 0 (three_digits c @ s) = (of_char c, s)"
proof -
  define n where "n = (of_char c :: nat)"
  then have "n div 64 < 8" "n div 8 mod 8 < 8" "n mod 8 < 8" using assms by simp_all
  then show ?thesis
    unfolding three_digits_def Let_def numeral_3_eq_3 append_Cons append_Nil n_def [symmetric]
    by (simp only: octal_octal_char digit_octal_char take_octal.simps if_True octal_value)
qed

lemma escapes_checked: "list_all (\<lambda>(c, e). \<not> octal e \<and> unescape e = c) escapes"
  by code_simp

lemma escapes_plain: "map_of escapes c = Some e \<Longrightarrow> \<not> octal e \<and> unescape e = c"
  using escapes_checked by (auto simp: list_all_iff dest!: map_of_SomeD)

lemma unescaped: "map_of escapes c = None \<Longrightarrow> c \<noteq> CHR 0x5C \<and> c \<noteq> CHR 0x22"
  by (auto simp: escapes_def)

text \<open>A run of control characters is one run of octal escapes.\<close>

lemma octal_controls:
  assumes "ascii (c # cs)" and "list_all control (c # cs)"
    and "\<And>d r. t = CHR 0x5C # d # r \<Longrightarrow> \<not> octal d"
  shows "octal_run (three_digits c @ concat (map quote_char cs) @ t) = (map of_char (c # cs), t)"
  using assms(1,2)
proof (induction cs arbitrary: c)
  case Nil
  then have "take_octal 3 0 (three_digits c @ t) = (of_char c, t)" by (intro take_three) (simp add: ascii_def)
  then show ?case using assms(3) Nil by (subst octal_run.simps) (auto simp: ascii_def split: list.split)
next
  case (Cons d cs)
  let ?rest = "concat (map quote_char cs) @ t"
  have d: "quote_char d = CHR 0x5C # three_digits d"
    using Cons.prems by (auto simp: quote_char_def control_def split: option.split)
  have "(of_char d :: nat) div 64 < 8"
    using Cons.prems(1) by (intro less_mult_imp_div_less) (simp add: ascii_def)
  then obtain e r where e: "three_digits d = e # r" "octal e"
    by (simp add: three_digits_def Let_def octal_octal_char)
  have "take_octal 3 0 (three_digits c @ CHR 0x5C # e # r @ ?rest) = (of_char c, CHR 0x5C # e # r @ ?rest)"
    using Cons.prems by (intro take_three) (simp add: ascii_def)
  moreover have "octal_run (e # r @ ?rest) = (map of_char (d # cs), t)"
    using Cons.IH [of d] Cons.prems e by (simp add: ascii_def)
  ultimately show ?case
    using e Cons.prems by (subst octal_run.simps) (simp add: d ascii_def)
qed

lemma controls_first: "\<exists>cs s. p = cs @ s \<and> list_all control cs \<and> (s = [] \<or> \<not> control (hd s))"
  by (rule exI [of _ "takeWhile control p"], rule exI [of _ "dropWhile control p"])
    (use hd_dropWhile [of control p] in \<open>auto simp: list_all_iff dest: set_takeWhileD\<close>)

lemma quoted_head:
  assumes "s = [] \<or> \<not> control (hd s)" and "concat (map quote_char s) = CHR 0x5C # d # r"
  shows "\<not> octal d"
proof (cases s)
  case (Cons c t)
  show ?thesis
  proof (cases "map_of escapes c")
    case None
    then show ?thesis using assms Cons unescaped [OF None] by (simp add: quote_char_def)
  next
    case (Some e)
    then show ?thesis using assms Cons escapes_plain [OF Some] by (simp add: quote_char_def)
  qed
qed (use assms in simp)

lemma unquote_plain: "c \<noteq> CHR 0x5C \<Longrightarrow> unquote utf8 (c # s) = c # unquote utf8 s"
  by (cases s) simp_all

lemma unquote_quoted:
  assumes "reads_ascii utf8"
  shows "ascii p \<Longrightarrow> unquote utf8 (concat (map quote_char p)) = p"
proof (induction "length p" arbitrary: p rule: less_induct)
  case less
  show ?case
  proof (cases p)
    case (Cons c q)
    have q: "unquote utf8 (concat (map quote_char q)) = q" using less Cons by (simp add: ascii_def)
    show ?thesis
    proof (cases "control c")
      case False
      then show ?thesis
        using q Cons escapes_plain [of c] unescaped [of c]
        by (cases "map_of escapes c") (simp_all add: quote_char_def unquote_plain)
    next
      case True
      obtain cs s where s: "q = cs @ s" "list_all control cs" "s = [] \<or> \<not> control (hd s)"
        using controls_first [of q] by blast
      have run: "octal_run (three_digits c @ concat (map quote_char cs) @ concat (map quote_char s)) =
          (map of_char (c # cs), concat (map quote_char s))"
        using less.prems Cons True s quoted_head by (intro octal_controls) (auto simp: ascii_def)
      obtain e r where e: "three_digits c = e # r" "octal e"
        using less.prems Cons less_mult_imp_div_less [of "of_char c :: nat" 8 64]
        by (simp add: three_digits_def Let_def octal_octal_char ascii_def)
      have "unquote utf8 (concat (map quote_char s)) = s" using less s Cons by (simp add: ascii_def)
      moreover have "ascii (c # cs)" using less.prems Cons s by (simp add: ascii_def)
      then have "utf8 (map of_char (c # cs)) = c # cs"
        using assms unfolding reads_ascii_def by blast
      moreover have "concat (map quote_char p) =
          CHR 0x5C # e # r @ concat (map quote_char cs) @ concat (map quote_char s)"
        using Cons s True e by (simp add: quote_char_def control_def)
      ultimately show ?thesis using run e Cons s by simp
    qed
  qed simp
qed

lemma quoted_path_read_back:
  assumes "reads_ascii utf8" and "ascii p"
  shows "unquoteGitPath utf8 (git_quote p) = p"
  using unquote_quoted [OF assms] by (simp add: unquoteGitPath_def git_quote_def)

section \<open>Reading a report\<close>

text \<open>What \<^verbatim>\<open>git status --porcelain\<close> documents: a path is quoted if it needs escapes or has a space.\<close>

definition needs_quote :: "string \<Rightarrow> bool" where
  "needs_quote p \<longleftrightarrow> list_ex (\<lambda>c. map_of escapes c \<noteq> None \<or> control c \<or> c = CHR '' '') p"

definition git_path :: "string \<Rightarrow> string" where
  "git_path p = (if needs_quote p then git_quote p else p)"

datatype status_entry = Changed char char string | Renamed char string string

fun entry_line :: "status_entry \<Rightarrow> string" where
  "entry_line (Changed x y p) = x # y # CHR '' '' # git_path p"
| "entry_line (Renamed y p q) = CHR ''R'' # y # CHR '' '' # git_path p @ '' -> '' @ git_path q"

fun entry_paths :: "status_entry \<Rightarrow> string list" where
  "entry_paths (Changed x y p) = [p]"
| "entry_paths (Renamed y p q) = [p, q]"

definition status_codes :: string where
  "status_codes = '' MTADU?!''"

fun entry_ok :: "status_entry \<Rightarrow> bool" where
  "entry_ok (Changed x y p) = (x \<in> set status_codes \<and> y \<in> set status_codes \<and> ascii p \<and> p \<noteq> [])"
| "entry_ok (Renamed y p q) = (y \<in> set status_codes \<and> ascii p \<and> ascii q \<and> p \<noteq> [] \<and> q \<noteq> [])"

definition status_report :: "status_entry list \<Rightarrow> string" where
  "status_report es = concat (map (\<lambda>e. entry_line e @ [CHR 0x0A]) es)"

lemma escapes_visible: "list_all (\<lambda>(c, e). e \<noteq> CHR 0x0A \<and> e \<noteq> CHR 0x0D) escapes"
  by code_simp

lemma octal_visible: "n < 8 \<Longrightarrow> octal_char n \<noteq> CHR 0x0A \<and> octal_char n \<noteq> CHR 0x0D"
  using octal_octal_char [of n] by (auto simp: octal_def less_eq_char_def)

lemma line_end_escaped: "map_of escapes (CHR 0x0A) \<noteq> None" "map_of escapes (CHR 0x0D) \<noteq> None"
  by (simp_all add: escapes_def)

lemma quote_char_visible:
  assumes "(of_char c :: nat) < 128"
  shows "CHR 0x0A \<notin> set (quote_char c) \<and> CHR 0x0D \<notin> set (quote_char c)"
proof (cases "map_of escapes c")
  case None
  have "(of_char c :: nat) div 64 < 8" using assms by (intro less_mult_imp_div_less) simp
  then show ?thesis
    using None line_end_escaped octal_visible [of "of_char c div 64"] octal_visible [of "of_char c div 8 mod 8"]
      octal_visible [of "of_char c mod 8"]
    by (auto simp: quote_char_def three_digits_def Let_def)
next
  case (Some e)
  then show ?thesis using escapes_visible by (auto simp: quote_char_def list_all_iff dest!: map_of_SomeD)
qed

lemma git_path_visible: "ascii p \<Longrightarrow> CHR 0x0A \<notin> set (git_path p) \<and> CHR 0x0D \<notin> set (git_path p)"
  using quote_char_visible line_end_escaped
  by (auto simp: git_path_def git_quote_def needs_quote_def ascii_def list_ex_iff)

lemma entry_visible:
  assumes "entry_ok e"
  shows "CHR 0x0A \<notin> set (entry_line e) \<and> CHR 0x0D \<notin> set (entry_line e) \<and> entry_line e \<noteq> []"
proof -
  have "CHR 0x0A \<notin> set status_codes" "CHR 0x0D \<notin> set status_codes" by (simp_all add: status_codes_def)
  then show ?thesis using assms git_path_visible by (cases e) auto
qed

lemma git_path_back: "reads_ascii utf8 \<Longrightarrow> ascii p \<Longrightarrow> unquoteGitPath utf8 (git_path p) = p"
proof (cases "needs_quote p")
  case False
  then have "p \<noteq> [] \<longrightarrow> hd p \<noteq> CHR 0x22"
    by (cases p) (auto simp: needs_quote_def escapes_def)
  then show ?thesis using False by (cases p) (auto simp: git_path_def unquoteGitPath_def)
qed (simp add: git_path_def quoted_path_read_back)

lemma closing_quote_found:
  "ascii p \<Longrightarrow> closing_quote (concat (map quote_char p) @ CHR 0x22 # rest) = Some (concat (map quote_char p), rest)"
proof (induction p)
  case (Cons c p)
  have plain: "x \<noteq> CHR 0x22 \<and> x \<noteq> CHR 0x5C" if "octal x" for x
    using that by (auto simp: octal_def less_eq_char_def)
  have "(of_char c :: nat) div 64 < 8" using Cons.prems by (intro less_mult_imp_div_less) (simp add: ascii_def)
  then have "\<forall>x \<in> set (three_digits c). octal x" by (auto simp: three_digits_def Let_def octal_octal_char)
  then obtain a b d where "three_digits c = [a, b, d]" "octal a" "octal b" "octal d"
    by (auto simp: three_digits_def Let_def)
  then show ?case
    using Cons plain unescaped [of c]
    by (cases "map_of escapes c") (simp_all add: quote_char_def ascii_def)
qed simp

lemma split_at_spaceless:
  "CHR '' '' \<notin> set a \<Longrightarrow> split_at '' -> '' (a @ '' -> '' @ b) = Some (a, b)"
  by (induction a) auto

lemma strip_cr_visible: "CHR 0x0D \<notin> set s \<Longrightarrow> strip_cr s = s"
  by (auto simp: strip_cr_def dest: last_in_set)

lemma split_renamed_path: "ascii p \<Longrightarrow> p \<noteq> [] \<Longrightarrow> split_renamed (git_path p @ '' -> '' @ x) = [git_path p, x]"
proof (cases "needs_quote p")
  case True
  assume "ascii p"
  then show ?thesis
    using True closing_quote_found [of p "'' -> '' @ x"] split_at_spaceless [of "[]" x]
    by (simp add: split_renamed_def git_path_def git_quote_def)
next
  case False
  assume "p \<noteq> []"
  moreover have "CHR '' '' \<notin> set p" using False by (auto simp: needs_quote_def list_ex_iff)
  moreover have "p \<noteq> [] \<longrightarrow> hd p \<noteq> CHR 0x22"
    using False by (cases p) (auto simp: needs_quote_def escapes_def)
  ultimately show ?thesis
    using False split_at_spaceless [of p x]
    by (simp add: split_renamed_def git_path_def split_plain_def)
qed

lemma git_path_nonempty: "p \<noteq> [] \<Longrightarrow> git_path p \<noteq> []"
  by (simp add: git_path_def git_quote_def)

lemma parse_entry: "entry_ok e \<Longrightarrow> parseGitStatusLine (entry_line e) = map git_path (entry_paths e)"
proof (cases e)
  case (Changed x y p)
  assume ok: "entry_ok e"
  have "x \<notin> {CHR ''R'', CHR ''C''}" "y \<notin> {CHR ''R'', CHR ''C''}"
    using ok Changed by (auto simp: status_codes_def)
  moreover have "0 < length (git_path p)" using ok Changed git_path_nonempty by auto
  moreover have "strip_cr (entry_line e) = entry_line e" using entry_visible [OF ok] by (simp add: strip_cr_visible)
  ultimately show ?thesis using Changed by (simp add: parseGitStatusLine_def Let_def)
next
  case (Renamed y p q)
  assume ok: "entry_ok e"
  have "strip_cr (entry_line e) = entry_line e" using entry_visible [OF ok] by (simp add: strip_cr_visible)
  then show ?thesis
    using ok Renamed split_renamed_path [of p "git_path q"] by (simp add: parseGitStatusLine_def Let_def)
qed

lemma split_lines:
  "\<forall>l \<in> set ls. c \<notin> set l \<Longrightarrow> split_on c (concat (map (\<lambda>l. l @ [c]) ls)) = ls @ [[]]"
  by (induction ls) (simp_all add: split_on_append)

lemma entry_paths_ascii: "entry_ok e \<Longrightarrow> p \<in> set (entry_paths e) \<Longrightarrow> ascii p"
  by (cases e) auto

text \<open>
  C19. The report of git status is read as exactly the paths it reports: for ASCII paths, quoted or
  not, changed, untracked or renamed, \<open>parseGitStatusPaths\<close> gives the sorted set of them.
\<close>

theorem status_report_read_back:
  assumes "reads_ascii utf8" and "list_all entry_ok es"
  shows "parseGitStatusPaths utf8 (status_report es) = sort (remdups (concat (map entry_paths es)))"
proof -
  let ?lines = "map entry_line es"
  have "split_on (CHR 0x0A) (status_report es) = ?lines @ [[]]"
    using split_lines [of ?lines "CHR 0x0A"] assms(2) entry_visible
    by (auto simp: status_report_def list_all_iff comp_def)
  moreover have "filter (\<lambda>l. l \<noteq> []) ?lines = ?lines"
    using assms(2) entry_visible by (auto simp: list_all_iff filter_id_conv)
  moreover have "concat (map parseGitStatusLine ?lines) = map git_path (concat (map entry_paths es))"
    using assms(2) by (induction es) (simp_all add: parse_entry)
  moreover have "map (unquoteGitPath utf8) (map git_path (concat (map entry_paths es))) = concat (map entry_paths es)"
  proof -
    have "\<forall>p \<in> set (concat (map entry_paths es)). unquoteGitPath utf8 (git_path p) = p"
    proof
      fix p assume "p \<in> set (concat (map entry_paths es))"
      then obtain e where "e \<in> set es" "p \<in> set (entry_paths e)" by auto
      moreover from this have "entry_ok e" using assms(2) by (simp add: list_all_iff)
      ultimately have "ascii p" by (blast intro: entry_paths_ascii)
      then show "unquoteGitPath utf8 (git_path p) = p" by (rule git_path_back [OF assms(1)])
    qed
    then have "map (unquoteGitPath utf8 \<circ> git_path) (concat (map entry_paths es)) = concat (map entry_paths es)"
      by (intro map_idI) auto
    then show ?thesis by simp
  qed
  moreover have "filter (\<lambda>p. p \<noteq> []) (concat (map entry_paths es)) = concat (map entry_paths es)"
    using assms(2) by (induction es) (auto elim: entry_ok.elims)
  ultimately show ?thesis by (simp add: parseGitStatusPaths_def)
qed

definition plain_bytes :: "nat list \<Rightarrow> string" where
  "plain_bytes bs = map char_of bs"

theorem status_report_read_back_witness:
  "parseGitStatusPaths plain_bytes (status_report [Renamed CHR '' '' ''old name.ts'' ''src/new.ts'',
       Changed CHR ''?'' CHR ''?'' [CHR ''a'', CHR 0x0A, CHR 0x1B, CHR 0x7F]]) =
     sort (remdups [''old name.ts'', ''src/new.ts'', [CHR ''a'', CHR 0x0A, CHR 0x1B, CHR 0x7F]])"
  using status_report_read_back [of plain_bytes "[Renamed CHR '' '' ''old name.ts'' ''src/new.ts'',
       Changed CHR ''?'' CHR ''?'' [CHR ''a'', CHR 0x0A, CHR 0x1B, CHR 0x7F]]"]
  by (simp add: reads_ascii_def plain_bytes_def status_codes_def ascii_def map_idI)

end
