(* ===== verification/Task_Boundaries.thy ===== *)
theory Task_Boundaries
  imports Artifacts Steps_Phases Json
begin

text \<open>
  Which files a task may change: \<^verbatim>\<open>packages/application/src/task-file-boundaries.ts\<close>. A task of the
  manifest is a value of \<^verbatim>\<open>JSON.parse\<close>. Sets and maps are lists in insertion order, the sort of
  premature implementations compares with \<open>localeCompare\<close>, an argument. Lemmas: a change is
  classified exactly once, what no scope can permit, and when a boundary check passes.
\<close>

section \<open>Paths and sets\<close>

definition entry_path :: "json \<Rightarrow> string" where
  "entry_path j = (case j of JStr s \<Rightarrow> normalizeTaskPath s | _ \<Rightarrow> [])"

text \<open>\<open>[...new Set(xs)]\<close>.\<close>

definition unique :: "'a list \<Rightarrow> 'a list" where
  "unique xs = rev (remdups (rev xs))"

lemma unique_set [simp]: "set (unique xs) = set xs" "distinct (unique xs)"
  by (simp_all add: unique_def)

definition nonempty :: "string list \<Rightarrow> string list" where
  "nonempty = filter (\<lambda>p. p \<noteq> [])"

definition normalizedPathSet :: "string list option \<Rightarrow> string list" where
  "normalizedPathSet paths = unique (nonempty (map normalizeTaskPath (case paths of None \<Rightarrow> [] | Some ps \<Rightarrow> ps)))"

definition prefix_match :: "string \<Rightarrow> string \<Rightarrow> bool" where
  "prefix_match pre path \<longleftrightarrow> pre \<noteq> [] \<and> path \<noteq> [] \<and>
     (path = pre \<or> take (length pre + 1) path = pre @ ''/'')"

definition isSegmentPrefixMatch :: "string \<Rightarrow> string \<Rightarrow> bool" where
  "isSegmentPrefixMatch pre path = prefix_match (normalizeTaskPath pre) (normalizeTaskPath path)"

definition ends_with :: "string \<Rightarrow> string \<Rightarrow> bool" where
  "ends_with p suf \<longleftrightarrow> length suf \<le> length p \<and> drop (length p - length suf) p = suf"

definition isProtectedTaskPath :: "string \<Rightarrow> bool" where
  "isProtectedTaskPath path =
     (let norm = normalizeTaskPath path
      in norm \<noteq> [] \<and>
         (norm = ''.gitignore'' \<or> ends_with norm ''/.gitignore'' \<or> norm = ''.ai-orchestrator.json'' \<or>
          norm = ''.github'' \<or> take 8 norm = ''.github/'' \<or> isOrchestratorArtifactPattern norm))"

section \<open>Scopes\<close>

record task_scope =
  ts_required :: "string list"
  ts_mayExtend :: "string list"
  ts_areas :: "string list"
  ts_nonGoals :: "string list"
  ts_reference :: "string list"

definition empty_scope :: task_scope where
  "empty_scope = \<lparr>ts_required = [], ts_mayExtend = [], ts_areas = [], ts_nonGoals = [], ts_reference = []\<rparr>"

text \<open>\<open>typeof task === 'object'\<close> and its array properties; an array has none of the names.\<close>

definition is_object :: "json \<Rightarrow> bool" where
  "is_object j \<longleftrightarrow> (case j of JObj _ \<Rightarrow> True | JArr _ \<Rightarrow> True | _ \<Rightarrow> False)"

definition array_at :: "json \<Rightarrow> string \<Rightarrow> json list option" where
  "array_at j k = (case j of JObj kvs \<Rightarrow> (case map_of kvs k of Some (JArr xs) \<Rightarrow> Some xs | _ \<Rightarrow> None) | _ \<Rightarrow> None)"

definition entries_at :: "json \<Rightarrow> string \<Rightarrow> string list" where
  "entries_at j k = nonempty (map entry_path (case array_at j k of None \<Rightarrow> [] | Some xs \<Rightarrow> xs))"

text \<open>The directory of a file, \<open>file.slice(0, file.lastIndexOf('/'))\<close> where it has one.\<close>

definition parent_dir :: "string \<Rightarrow> string option" where
  "parent_dir file = (let d = rev (tl (dropWhile (\<lambda>c. c \<noteq> CHR ''/'') (rev file)))
     in if CHR ''/'' \<in> set file \<and> d \<noteq> [] \<and> d \<noteq> ''.'' then Some d else None)"

definition resolveEffectiveTaskScope :: "json \<Rightarrow> task_scope" where
  "resolveEffectiveTaskScope task =
     (if \<not> is_object task then empty_scope
      else let required = unique (entries_at task ''expected_files'' @ entries_at task ''files'')
      in \<lparr>ts_required = required,
          ts_mayExtend = unique (entries_at task ''may_extend''),
          ts_areas = unique (List.map_filter parent_dir required @ entries_at task ''permitted_areas''),
          ts_nonGoals = unique (entries_at task ''non_goals''),
          ts_reference = unique (entries_at task ''reference_files'')\<rparr>)"

definition declaredTaskFiles :: "json \<Rightarrow> string list" where
  "declaredTaskFiles task = ts_required (resolveEffectiveTaskScope task)"

definition referenceTaskFiles :: "json \<Rightarrow> string list" where
  "referenceTaskFiles task = ts_reference (resolveEffectiveTaskScope task)"

definition hasDeclaredSurface :: "json \<Rightarrow> int option \<Rightarrow> bool" where
  "hasDeclaredSurface task version =
     (let some_of = (\<lambda>k. case array_at task k of None \<Rightarrow> False | Some xs \<Rightarrow> xs \<noteq> [])
      in is_object task \<and>
        (if version = Some 2
         then array_at task ''expected_files'' \<noteq> None \<or> some_of ''reference_files'' \<or> some_of ''files'' \<or>
              some_of ''may_extend'' \<or> some_of ''permitted_areas''
         else some_of ''expected_files'' \<or> some_of ''files''))"

definition getTaskNumber :: "json \<Rightarrow> int \<Rightarrow> int" where
  "getTaskNumber task fallback =
     (let num = (\<lambda>k. case task of JObj kvs \<Rightarrow> (case map_of kvs k of Some (JNum n) \<Rightarrow> Some n | _ \<Rightarrow> None) | _ \<Rightarrow> None)
      in case num ''n'' of Some n \<Rightarrow> n
         | None \<Rightarrow> (case num ''task_number'' of Some n \<Rightarrow> n | None \<Rightarrow> fallback + 1))"

section \<open>Classification of changes\<close>

record classify_opts =
  co_candidates :: "(string \<times> bool) list"
  co_scope :: task_scope
  co_manifestTasks :: "json list option"
  co_tasks :: "json list option"
  co_downstream :: "json list option"
  co_manifest :: "json option"
  co_current :: "int option"
  co_exempt :: "string list option"
  co_protected :: "(string \<Rightarrow> bool) option"
  co_localeLe :: "string \<Rightarrow> string \<Rightarrow> bool"

text \<open>
  A candidate is a path with \<open>tracked\<close>; a bare path is tracked. \<open>co_localeLe\<close> stands for
  \<open>localeCompare(a, b) <= 0\<close>.
\<close>

record change_classes =
  cc_permitted :: "string list"
  cc_reference :: "string list"
  cc_nonGoal :: "string list"
  cc_premature :: "(string \<times> int) list"
  cc_drift :: "string list"
  cc_protected :: "string list"

definition all_tasks :: "classify_opts \<Rightarrow> json list" where
  "all_tasks opts = (case co_manifestTasks opts of Some ts \<Rightarrow> ts
     | None \<Rightarrow> (case co_tasks opts of Some ts \<Rightarrow> ts
     | None \<Rightarrow> (case co_manifest opts of None \<Rightarrow> []
     | Some m \<Rightarrow> (case array_at m ''tasks'' of Some ts \<Rightarrow> ts | None \<Rightarrow> []))))"

text \<open>The tasks after the current one, with their numbers.\<close>

definition later_tasks :: "classify_opts \<Rightarrow> (int \<times> json) list" where
  "later_tasks opts =
     (let tasks = (case co_downstream opts of Some ts \<Rightarrow> ts | None \<Rightarrow> all_tasks opts);
          offset = (if co_downstream opts \<noteq> None then (case co_current opts of Some n \<Rightarrow> n | None \<Rightarrow> 0) else 0);
          numbered = map (\<lambda>(i, t). (getTaskNumber t (offset + int i), t)) (enumerate 0 tasks)
      in filter (\<lambda>(n, t). case co_current opts of None \<Rightarrow> True | Some cur \<Rightarrow> \<not> n \<le> cur) numbered)"

text \<open>\<open>downstreamRequiredMap\<close>: the least number of a later task that requires the file.\<close>

fun note_required :: "int \<Rightarrow> string list \<Rightarrow> (string \<rightharpoonup> int) \<Rightarrow> (string \<rightharpoonup> int)" where
  "note_required n [] m = m"
| "note_required n (f # fs) m =
     note_required n fs (case m f of None \<Rightarrow> m(f \<mapsto> n) | Some k \<Rightarrow> if n < k then m(f \<mapsto> n) else m)"

fun required_later :: "(int \<times> json) list \<Rightarrow> (string \<rightharpoonup> int) \<Rightarrow> (string \<rightharpoonup> int)" where
  "required_later [] m = m"
| "required_later ((n, t) # ts) m = required_later ts (note_required n (ts_required (resolveEffectiveTaskScope t)) m)"

definition downstream_required :: "classify_opts \<Rightarrow> string \<rightharpoonup> int" where
  "downstream_required opts = required_later (later_tasks opts) Map.empty"

text \<open>The normalized candidates, each once, tracked if any of its occurrences is.\<close>

fun merge_candidate :: "string \<Rightarrow> bool \<Rightarrow> (string \<times> bool) list \<Rightarrow> (string \<times> bool) list" where
  "merge_candidate p tracked [] = [(p, tracked)]"
| "merge_candidate p tracked ((q, t) # cs) =
     (if q = p then (q, t \<or> tracked) # cs else (q, t) # merge_candidate p tracked cs)"

definition candidates :: "classify_opts \<Rightarrow> (string \<times> bool) list" where
  "candidates opts = fold (\<lambda>(raw, tracked) acc. let norm = normalizeTaskPath raw
     in if norm = [] then acc else merge_candidate norm tracked acc) (co_candidates opts) []"

datatype change_class =
    Exempt | Protected | Non_goal | Permitted | Premature int | Reference | Drift

definition class_of :: "classify_opts \<Rightarrow> string \<Rightarrow> bool \<Rightarrow> change_class" where
  "class_of opts p tracked =
     (let scope = co_scope opts; norm = (\<lambda>ps. nonempty (map normalizeTaskPath ps)); later = downstream_required opts
      in if isOrchestratorArtifactPattern p \<or> p = ''.ai-orchestrator.json'' \<or>
            (case co_protected opts of None \<Rightarrow> False | Some f \<Rightarrow> f p) then Protected
         else if p \<in> set (normalizedPathSet (co_exempt opts)) then Exempt
         else if list_ex (\<lambda>ng. prefix_match ng p) (norm (ts_nonGoals scope)) then Non_goal
         else if p \<in> set (normalizedPathSet (Some (ts_required scope))) then Permitted
         else if isProtectedTaskPath p then Protected
         else case later p of Some n \<Rightarrow> Premature n
         | None \<Rightarrow>
         if p \<in> set (normalizedPathSet (Some (ts_reference scope))) then Reference
         else if p \<in> set (normalizedPathSet (Some (ts_mayExtend scope))) then Permitted
         else if list_ex (\<lambda>area. prefix_match area p) (norm (ts_areas scope)) then (if tracked then Permitted else Drift)
         else Drift)"

definition of_class :: "classify_opts \<Rightarrow> change_class \<Rightarrow> string list" where
  "of_class opts c = sort (unique (map fst (filter (\<lambda>(p, t). class_of opts p t = c) (candidates opts))))"

definition premature :: "classify_opts \<Rightarrow> (string \<times> int) list" where
  "premature opts = List.map_filter (\<lambda>(p, t). case class_of opts p t of Premature n \<Rightarrow> Some (p, n) | _ \<Rightarrow> None) (candidates opts)"

text \<open>By path as the locale compares, then by number.\<close>

definition premature_le :: "classify_opts \<Rightarrow> string \<times> int \<Rightarrow> string \<times> int \<Rightarrow> bool" where
  "premature_le opts a b \<longleftrightarrow>
     (if \<not> co_localeLe opts (fst a) (fst b) then False
      else if \<not> co_localeLe opts (fst b) (fst a) then True else snd a \<le> snd b)"

definition classifyTaskChanges :: "classify_opts \<Rightarrow> change_classes" where
  "classifyTaskChanges opts =
     \<lparr>cc_permitted = of_class opts Permitted, cc_reference = of_class opts Reference,
      cc_nonGoal = of_class opts Non_goal, cc_premature = sort_by (premature_le opts) (premature opts),
      cc_drift = of_class opts Drift, cc_protected = of_class opts Protected\<rparr>"

section \<open>Checks of a whole manifest\<close>

definition plain_opts :: "task_scope \<Rightarrow> (string \<times> bool) list \<Rightarrow> classify_opts" where
  "plain_opts scope cands = \<lparr>co_candidates = cands, co_scope = scope, co_manifestTasks = None, co_tasks = None,
     co_downstream = None, co_manifest = None, co_current = None, co_exempt = None, co_protected = None,
     co_localeLe = (\<le>)\<rparr>"

definition isPathPermittedByScope :: "string \<Rightarrow> task_scope \<Rightarrow> bool" where
  "isPathPermittedByScope path scope = (let norm = normalizeTaskPath path
     in norm \<noteq> [] \<and> norm \<in> set (cc_permitted (classifyTaskChanges (plain_opts scope [(norm, True)]))))"

record boundary_classes =
  bc_reference :: "string list"
  bc_undeclared :: "string list"

definition classifyUndeclaredFiles :: "string list \<Rightarrow> string list \<Rightarrow> string list \<Rightarrow> string list \<Rightarrow> boundary_classes" where
  "classifyUndeclaredFiles committed writable reference exempt =
     (let undeclared = sort (filter (\<lambda>f. f \<notin> set writable \<and> f \<notin> set exempt \<and> \<not> isOrchestratorArtifactPattern f)
        (unique (nonempty (map normalizeTaskPath committed))))
      in \<lparr>bc_reference = filter (\<lambda>f. f \<in> set reference) undeclared,
          bc_undeclared = filter (\<lambda>f. f \<notin> set reference) undeclared\<rparr>)"

definition manifest_tasks :: "json \<Rightarrow> json list" where
  "manifest_tasks m = (case array_at m ''tasks'' of None \<Rightarrow> [] | Some ts \<Rightarrow> ts)"

text \<open>\<open>writableSet\<close> and \<open>referenceSet\<close>.\<close>

definition getManifestBoundaries :: "json \<Rightarrow> string list \<times> string list" where
  "getManifestBoundaries m =
     (let scopes = map resolveEffectiveTaskScope (manifest_tasks m)
      in (normalizedPathSet (Some (concat (map (\<lambda>s. ts_required s @ ts_mayExtend s) scopes))),
          normalizedPathSet (Some (concat (map ts_reference scopes)))))"

definition checkTaskBoundaries :: "string list \<Rightarrow> json \<Rightarrow> string list option \<Rightarrow> boundary_classes" where
  "checkTaskBoundaries committed m exempt =
     (let files = filter (\<lambda>f. f \<notin> set (normalizedPathSet exempt) \<and> \<not> isOrchestratorArtifactPattern f)
            (unique (nonempty (map normalizeTaskPath committed)));
          scopes = map resolveEffectiveTaskScope (manifest_tasks m);
          reference = concat (map ts_reference scopes);
          outside = filter (\<lambda>f. \<not> list_ex (isPathPermittedByScope f) scopes) files
      in if \<not> is_object m then \<lparr>bc_reference = [], bc_undeclared = sort files\<rparr>
         else \<lparr>bc_reference = sort (unique (filter (\<lambda>f. f \<in> set reference) outside)),
               bc_undeclared = sort (unique (filter (\<lambda>f. f \<notin> set reference) outside))\<rparr>)"

section \<open>Ownership\<close>

definition FILE_OWNERSHIP_FIELDS :: "string list" where
  "FILE_OWNERSHIP_FIELDS = [''expected_files'', ''files'', ''may_extend'', ''reference_files'']"

definition names_file :: "json \<Rightarrow> string \<Rightarrow> string \<Rightarrow> bool" where
  "names_file task field norm = (case array_at task field of None \<Rightarrow> False
     | Some xs \<Rightarrow> list_ex (\<lambda>j. case j of JStr s \<Rightarrow> normalizeTaskPath s = norm | _ \<Rightarrow> False) xs)"

text \<open>The claims of all tasks on a file, each number and field once.\<close>

definition isFileOwnedByAnyTask :: "string \<Rightarrow> json \<Rightarrow> (int \<times> string) list" where
  "isFileOwnedByAnyTask path m =
     (let norm = normalizeTaskPath path
      in if norm = [] then []
         else unique (concat (map (\<lambda>(i, task). if is_object task
                then map (\<lambda>field. (getTaskNumber task (int i), field))
                  (filter (\<lambda>field. names_file task field norm) FILE_OWNERSHIP_FIELDS)
                else []) (enumerate 0 (manifest_tasks m)))))"

section \<open>Loading the manifest\<close>

datatype manifest_result =
    Manifest_found json | Manifest_missing string | Manifest_malformed string string

text \<open>Whether an exception's text says the artifact does not exist.\<close>

definition isNotFoundError :: "string \<Rightarrow> bool" where
  "isNotFoundError msg = list_ex (\<lambda>p. has_infix p (to_lower msg))
     [''not found'', ''enoent'', ''file does not exist'', ''missing'', ''no such file'']"

text \<open>The text of a source and what \<open>JSON.parse\<close> makes of it, \<open>Inl\<close> the message of its exception.\<close>

definition parsed_manifest :: "string \<Rightarrow> string + json \<Rightarrow> manifest_result" where
  "parsed_manifest place r = (case r of
       Inl e \<Rightarrow> Manifest_malformed (''malformed task-manifest.json in '' @ place @ '': '' @ e) e
     | Inr j \<Rightarrow> if is_object j then Manifest_found j
         else Manifest_malformed (''task-manifest.json in '' @ place @ '' is not an object'') ''parsed to non-object'')"

text \<open>
  \<open>store\<close> is the read of the artifact store, \<open>worktree\<close> that of the file, \<open>None\<close> where the dependency
  is absent; \<open>Inl\<close> of the result is the exception that is thrown on.
\<close>

definition loadManifest ::
  "(string \<Rightarrow> string + json) \<Rightarrow> json option \<Rightarrow> (string + string) option \<Rightarrow> (string + string option) option
   \<Rightarrow> string + manifest_result" where
  "loadManifest parse given store worktree =
     (let missing = Inr (Manifest_missing ''task-manifest.json not found'');
          from_worktree = (case worktree of None \<Rightarrow> missing
            | Some (Inl e) \<Rightarrow> if isNotFoundError e then missing else Inl e
            | Some (Inr raw) \<Rightarrow> if truthy raw then Inr (parsed_manifest ''worktree'' (parse (the raw))) else missing)
      in case given of
           Some j \<Rightarrow> if js_falsy j then
               (case store of None \<Rightarrow> from_worktree
                | Some (Inl e) \<Rightarrow> if isNotFoundError e then from_worktree else Inl e
                | Some (Inr raw) \<Rightarrow> Inr (parsed_manifest ''artifact store'' (parse raw)))
             else if (case j of JObj kvs \<Rightarrow> map_of kvs ''tasks'' \<noteq> None | _ \<Rightarrow> False) then Inr (Manifest_found j)
             else Inr (Manifest_malformed ''input manifest is invalid'' ''manifest must be an object with a tasks property'')
         | None \<Rightarrow> (case store of None \<Rightarrow> from_worktree
             | Some (Inl e) \<Rightarrow> if isNotFoundError e then from_worktree else Inl e
             | Some (Inr raw) \<Rightarrow> Inr (parsed_manifest ''artifact store'' (parse raw))))"

section \<open>A change is classified once\<close>

lemma merge_candidate_set: "fst ` set (merge_candidate p t cs) = insert p (fst ` set cs)"
  by (induction p t cs rule: merge_candidate.induct) auto

lemma merge_candidate_distinct: "distinct (map fst cs) \<Longrightarrow> distinct (map fst (merge_candidate p t cs))"
proof (induction p t cs rule: merge_candidate.induct)
  case (2 p tracked q t cs)
  then show ?case
    using merge_candidate_set [of p tracked cs] by (simp only: merge_candidate.simps) auto
qed simp

lemmas merge_candidate_paths = merge_candidate_set merge_candidate_distinct

lemma candidates_distinct: "distinct (map fst (candidates opts))"
proof -
  have "distinct (map fst acc) \<Longrightarrow> distinct (map fst (fold (\<lambda>(raw, tracked) acc. let norm = normalizeTaskPath raw
      in if norm = [] then acc else merge_candidate norm tracked acc) cs acc))" for cs acc
    by (induction cs arbitrary: acc) (auto simp: Let_def merge_candidate_paths split: prod.split)
  then show ?thesis by (simp add: candidates_def)
qed

lemma candidates_paths:
  "fst ` set (candidates opts) = {p \<in> (normalizeTaskPath \<circ> fst) ` set (co_candidates opts). p \<noteq> []}"
proof -
  have "fst ` set (fold (\<lambda>(raw, tracked) acc. let norm = normalizeTaskPath raw
      in if norm = [] then acc else merge_candidate norm tracked acc) cs acc) =
      fst ` set acc \<union> {p \<in> (normalizeTaskPath \<circ> fst) ` set cs. p \<noteq> []}" for cs acc
  proof (induction cs arbitrary: acc)
    case (Cons c cs)
    have "fst ` set (case c of (raw, tracked) \<Rightarrow> let norm = normalizeTaskPath raw
        in if norm = [] then acc else merge_candidate norm tracked acc) =
        fst ` set acc \<union> {p \<in> {normalizeTaskPath (fst c)}. p \<noteq> []}"
      by (cases c) (auto simp: Let_def merge_candidate_paths)
    then show ?case using Cons by (auto simp: case_prod_beta)
  qed simp
  then show ?thesis by (simp add: candidates_def)
qed

lemma candidate_once: "(p, t) \<in> set (candidates opts) \<Longrightarrow> (p, u) \<in> set (candidates opts) \<Longrightarrow> u = t"
  using candidates_distinct [of opts] by (metis eq_key_imp_eq_value)

lemma of_class_iff: "p \<in> set (of_class opts c) \<longleftrightarrow> (\<exists>t. (p, t) \<in> set (candidates opts) \<and> class_of opts p t = c)"
  by (force simp: of_class_def image_iff)

lemma premature_iff: "p \<in> fst ` set (premature opts) \<longleftrightarrow>
    (\<exists>t n. (p, t) \<in> set (candidates opts) \<and> class_of opts p t = Premature n)"
proof -
  have "fst ` set (List.map_filter (\<lambda>(p, t). case class_of opts p t of Premature n \<Rightarrow> Some (p, n) | _ \<Rightarrow> None) cs) =
      {p. \<exists>t n. (p, t) \<in> set cs \<and> class_of opts p t = Premature n}" for cs
  proof (induction cs)
    case (Cons c cs)
    then show ?case by (cases c; cases "class_of opts (fst c) (snd c)") (auto simp: List.map_filter_simps)
  qed (simp add: List.map_filter_simps)
  then show ?thesis by (simp add: premature_def)
qed

definition exempted :: "classify_opts \<Rightarrow> string \<Rightarrow> bool" where
  "exempted opts p \<longleftrightarrow> p \<in> set (normalizedPathSet (co_exempt opts)) \<and> \<not> isOrchestratorArtifactPattern p \<and>
     p \<noteq> ''.ai-orchestrator.json'' \<and> \<not> (case co_protected opts of None \<Rightarrow> False | Some f \<Rightarrow> f p)"

lemma exempt_class: "class_of opts p t = Exempt \<longleftrightarrow> exempted opts p"
  by (auto simp: class_of_def Let_def exempted_def split: option.splits)

definition class_lists :: "change_classes \<Rightarrow> string list list" where
  "class_lists r = [cc_permitted r, cc_reference r, cc_nonGoal r, map fst (cc_premature r), cc_drift r, cc_protected r]"

text \<open>
  Every changed path gets exactly one verdict: of the six lists of a classification a normalized
  candidate is in one, unless it is exempt; nothing else is in any.
\<close>

theorem change_classified_once:
  "length (filter (\<lambda>l. p \<in> set l) (class_lists (classifyTaskChanges opts))) =
     (if p \<noteq> [] \<and> p \<in> (normalizeTaskPath \<circ> fst) ` set (co_candidates opts) \<and> \<not> exempted opts p then 1 else 0)"
proof (cases "\<exists>t. (p, t) \<in> set (candidates opts)")
  case True
  then obtain t where t: "(p, t) \<in> set (candidates opts)" by blast
  then have only: "(p, u) \<in> set (candidates opts) \<longleftrightarrow> u = t" for u using candidate_once [OF t] by blast
  have "p \<in> fst ` set (candidates opts)" using t by force
  then show ?thesis
    using exempt_class [of opts p t]
    by (cases "class_of opts p t")
      (simp_all add: class_lists_def classifyTaskChanges_def of_class_iff premature_iff only candidates_paths)
next
  case False
  then have "p \<notin> fst ` set (candidates opts)" by force
  then show ?thesis
    using False by (auto simp: class_lists_def classifyTaskChanges_def of_class_iff premature_iff candidates_paths)
qed

section \<open>When a boundary check passes\<close>

text \<open>What a scope permits: no excluded path, and a required file or an unprotected one it may extend.\<close>

definition scope_paths :: "string list \<Rightarrow> string set" where
  "scope_paths ps = set (normalizedPathSet (Some ps))"

definition within :: "string list \<Rightarrow> string \<Rightarrow> bool" where
  "within areas p \<longleftrightarrow> (\<exists>area \<in> scope_paths areas. prefix_match area p)"

definition permits :: "task_scope \<Rightarrow> string \<Rightarrow> bool" where
  "permits scope p \<longleftrightarrow> \<not> isOrchestratorArtifactPattern p \<and> p \<noteq> ''.ai-orchestrator.json'' \<and>
     \<not> within (ts_nonGoals scope) p \<and>
     (p \<in> scope_paths (ts_required scope) \<or>
      \<not> isProtectedTaskPath p \<and> p \<notin> scope_paths (ts_reference scope) \<and>
        (p \<in> scope_paths (ts_mayExtend scope) \<or> within (ts_areas scope) p))"

lemma within_list: "list_ex (\<lambda>a. prefix_match a p) (nonempty (map normalizeTaskPath areas)) \<longleftrightarrow> within areas p"
  by (auto simp: within_def scope_paths_def normalizedPathSet_def list_ex_iff)

lemma no_later_tasks: "downstream_required (plain_opts scope cands) = Map.empty"
  by (simp add: downstream_required_def later_tasks_def all_tasks_def plain_opts_def)

lemma permitted_class: "class_of (plain_opts scope cands) p True = Permitted \<longleftrightarrow> permits scope p"
  by (simp add: class_of_def Let_def no_later_tasks permits_def within_list scope_paths_def)
    (simp add: plain_opts_def normalizedPathSet_def nonempty_def)

lemma isPathPermitted_iff:
  assumes "normalizeTaskPath (normalizeTaskPath path) = normalizeTaskPath path"
  shows "isPathPermittedByScope path scope \<longleftrightarrow> normalizeTaskPath path \<noteq> [] \<and> permits scope (normalizeTaskPath path)"
proof -
  have "candidates (plain_opts scope [(normalizeTaskPath path, True)]) =
      (if normalizeTaskPath path = [] then [] else [(normalizeTaskPath path, True)])"
    by (simp add: candidates_def plain_opts_def assms Let_def)
  then have "q \<in> set (candidates (plain_opts scope [(normalizeTaskPath path, True)])) \<longleftrightarrow>
      q = (normalizeTaskPath path, True) \<and> normalizeTaskPath path \<noteq> []" for q
    by simp
  then show ?thesis
    unfolding isPathPermittedByScope_def Let_def classifyTaskChanges_def change_classes.simps of_class_iff
    by (simp add: permitted_class ex_bool_eq)
qed

lemma sort_empty: "sort xs = [] \<longleftrightarrow> xs = []"
  by (metis length_0_conv length_sort)

lemma sort_unique_empty: "sort (unique xs) = [] \<longleftrightarrow> xs = []"
  by (metis set_empty set_sort unique_set(1))

lemma both_filters: "filter P xs = [] \<and> filter (\<lambda>x. \<not> P x) xs = [] \<longleftrightarrow> xs = []"
  by (induction xs) auto

text \<open>
  C20. The boundary check of the validate-fix loop lets a set of changes pass exactly if each of them is
  an artifact of the orchestrator, exempt, or permitted by the scope of some task of the manifest.
\<close>

theorem boundary_check_passes:
  assumes "\<forall>f \<in> set committed. normalizeTaskPath (normalizeTaskPath f) = normalizeTaskPath f"
  shows "bc_reference (checkTaskBoundaries committed m exempt) @ bc_undeclared (checkTaskBoundaries committed m exempt) = [] \<longleftrightarrow>
    (\<forall>f \<in> set committed. let p = normalizeTaskPath f in
       p = [] \<or> p \<in> set (normalizedPathSet exempt) \<or> isOrchestratorArtifactPattern p \<or>
       (is_object m \<and> (\<exists>task \<in> set (manifest_tasks m). permits (resolveEffectiveTaskScope task) p)))"
proof -
  let ?files = "filter (\<lambda>f. f \<notin> set (normalizedPathSet exempt) \<and> \<not> isOrchestratorArtifactPattern f)
    (unique (nonempty (map normalizeTaskPath committed)))"
  let ?scopes = "map resolveEffectiveTaskScope (manifest_tasks m)"
  have permitted: "isPathPermittedByScope p scope \<longleftrightarrow> permits scope p" if "p \<in> set ?files" for p scope
    using that assms isPathPermitted_iff [of p scope] by (auto simp: nonempty_def)
  have "bc_reference (checkTaskBoundaries committed m exempt) @ bc_undeclared (checkTaskBoundaries committed m exempt) = [] \<longleftrightarrow>
      (if is_object m then \<forall>p \<in> set ?files. \<exists>scope \<in> set ?scopes. isPathPermittedByScope p scope else ?files = [])"
  proof (cases "is_object m")
    case True
    let ?outside = "filter (\<lambda>f. \<not> list_ex (isPathPermittedByScope f) ?scopes) ?files"
    have "bc_reference (checkTaskBoundaries committed m exempt) @ bc_undeclared (checkTaskBoundaries committed m exempt) = []
        \<longleftrightarrow> ?outside = []"
      using True by (simp only: checkTaskBoundaries_def Let_def not_True_eq_False if_False boundary_classes.simps
          append_is_Nil_conv sort_unique_empty both_filters)
    then show ?thesis using True by (simp only: if_True filter_empty_conv list_ex_iff not_not)
  next
    case False
    then show ?thesis
      by (simp only: checkTaskBoundaries_def Let_def not_False_eq_True if_True if_False boundary_classes.simps append.simps
          sort_empty)
  qed
  moreover have "(\<forall>p \<in> set ?files. \<exists>scope \<in> set ?scopes. isPathPermittedByScope p scope) \<longleftrightarrow>
      (\<forall>p \<in> set ?files. \<exists>task \<in> set (manifest_tasks m). permits (resolveEffectiveTaskScope task) p)"
    using permitted by simp
  moreover have "?files = [] \<longleftrightarrow> (\<forall>p \<in> set ?files. False)"
    using filter_empty_conv [of "\<lambda>_. True" ?files] by simp
  moreover have "(\<forall>p \<in> set ?files. Q p) \<longleftrightarrow> (\<forall>f \<in> set committed. let p = normalizeTaskPath f in
       p = [] \<or> p \<in> set (normalizedPathSet exempt) \<or> isOrchestratorArtifactPattern p \<or> Q p)" for Q
    by (auto simp: nonempty_def Let_def)
  ultimately show ?thesis by (cases "is_object m") (simp_all only: if_True if_False simp_thms)
qed

definition sample_manifest :: json where
  "sample_manifest = JObj [(''tasks'', JArr [JObj [(''n'', JNum 1), (''expected_files'', JArr [JStr ''src/a.ts'']),
     (''non_goals'', JArr [JStr ''src/b.ts''])]])]"

theorem boundary_check_passes_witness:
  "bc_reference (checkTaskBoundaries [''src/a.ts'', ''src/b.ts''] sample_manifest None) @
     bc_undeclared (checkTaskBoundaries [''src/a.ts'', ''src/b.ts''] sample_manifest None) = [] \<longleftrightarrow>
   (\<forall>f \<in> set [''src/a.ts'', ''src/b.ts'']. let p = normalizeTaskPath f in
       p = [] \<or> p \<in> set (normalizedPathSet None) \<or> isOrchestratorArtifactPattern p \<or>
       (is_object sample_manifest \<and>
        (\<exists>task \<in> set (manifest_tasks sample_manifest). permits (resolveEffectiveTaskScope task) p)))"
proof (rule boundary_check_passes)
  show "\<forall>f \<in> set [''src/a.ts'', ''src/b.ts'']. normalizeTaskPath (normalizeTaskPath f) = normalizeTaskPath f"
    by code_simp
qed

end
