(* ===== verification/Validate_Fix.thy ===== *)
theory Validate_Fix
  imports Effects Domain_Loop Task_Boundaries
begin

text \<open>
  The loop that repairs a failed validation,
  \<^verbatim>\<open>packages/application/src/validate-fix/validate-fix-loop.ts\<close>: an agent fixes, the boundaries of
  the task are checked, the validation runs again, a failed fix is rolled back. The agent, git,
  the validation and the event bus answer through \<open>vf_env\<close> by the number of the vf_call; what was
  done is recorded in order in \<open>vs_acts\<close>, the loops written to the repository in \<open>vs_saved\<close>.
  Metadata and messages of events are left out.
\<close>

section \<open>State and ports\<close>

datatype fix_verdict = V_fixed | V_cannot_fix | V_no_fixes_needed

record fix_result =
  fr_invocation :: ident
  fr_success :: bool
  fr_verdict :: "fix_verdict option"
  fr_head :: "string option"

record fix_options =
  fo_useFallback :: bool
  fo_diagnostic :: "string option"
  fo_allowed :: "string list option"

datatype vf_act = Fix_ran fix_result | Rolled_back bool | Revalidated bool

datatype vf_exn = Vf_loop loop_error | Vf_threw string

record vf_state =
  vs_clock :: nat
  vs_saved :: "loop list"
  vs_acts :: "vf_act list"
  vs_events :: "string list"

type_synonym 'a vf = "(vf_state, vf_exn, 'a) prog"

record vf_git =
  vg_head :: "nat \<Rightarrow> string + string"
  vg_changed :: "nat \<Rightarrow> string \<Rightarrow> string \<Rightarrow> string + string list"
  vg_status :: "nat \<Rightarrow> string + string"

record vf_env =
  ve_now :: "nat \<Rightarrow> time"
  ve_id :: "nat \<Rightarrow> ident"
  ve_fix :: "nat \<Rightarrow> fix_options \<Rightarrow> string + fix_result"
  ve_revalidate :: "nat \<Rightarrow> string + ident \<times> bool"
  ve_rollback :: "(nat \<Rightarrow> string \<Rightarrow> string + bool) option"
  ve_git :: "vf_git option"
  ve_parse :: "string \<Rightarrow> string + json"
  ve_store :: "(nat \<Rightarrow> string + string) option"
  ve_worktree :: "(nat \<Rightarrow> string + string option) option"
  ve_publish :: "nat \<Rightarrow> string option"
  ve_utf8 :: "nat list \<Rightarrow> string"

record vf_input =
  vi_runId :: ident
  vi_phaseId :: ident
  vi_max :: int
  vi_fallback :: "string option"
  vi_enforce :: bool
  vi_manifest :: "json option"

text \<open>A call of a port, recorded as \<open>what\<close> if it returns.\<close>

definition vf_call :: "(nat \<Rightarrow> string + 'a) \<Rightarrow> ('a \<Rightarrow> vf_act list) \<Rightarrow> 'a vf" where
  "vf_call f what s = (let s' = s\<lparr>vs_clock := vs_clock s + 1\<rparr> in case f (vs_clock s) of
       Inl e \<Rightarrow> (Inl (Vf_threw e), s')
     | Inr x \<Rightarrow> (Inr x, s'\<lparr>vs_acts := vs_acts s @ what x\<rparr>))"

definition vf_emit :: "vf_env \<Rightarrow> string \<Rightarrow> unit vf" where
  "vf_emit env ty s = (case ve_publish env (vs_clock s) of
       Some e \<Rightarrow> (Inl (Vf_threw e), s\<lparr>vs_clock := vs_clock s + 1\<rparr>)
     | None \<Rightarrow> (Inr (), s\<lparr>vs_clock := vs_clock s + 1, vs_events := vs_events s @ [ty]\<rparr>))"

definition vf_now :: "vf_env \<Rightarrow> time vf" where
  "vf_now env = ask (\<lambda>s. ve_now env (vs_clock s))"

definition lift_loop :: "loop_error + 'a \<Rightarrow> 'a vf" where
  "lift_loop r = (case r of Inl e \<Rightarrow> stop (Vf_loop e) | Inr x \<Rightarrow> ret x)"

definition save_loop :: "loop \<Rightarrow> unit vf" where
  "save_loop l = tell (\<lambda>s. s\<lparr>vs_saved := vs_saved s @ [l]\<rparr>)"

definition rollback :: "vf_env \<Rightarrow> string \<Rightarrow> bool vf" where
  "rollback env head = (case ve_rollback env of
     None \<Rightarrow> ret False
   | Some f \<Rightarrow> vf_call (\<lambda>n. f n head) (\<lambda>ok. [Rolled_back ok]))"

section \<open>One iteration\<close>

text \<open>\<open>completeIteration\<close>, the update of the repository and the event.\<close>

definition close_iteration :: "vf_env \<Rightarrow> loop \<Rightarrow> iteration_outcome \<Rightarrow> fix_result \<Rightarrow> ident option \<Rightarrow> loop vf" where
  "close_iteration env l outcome fix reval =
     bnd (vf_now env) (\<lambda>now.
     bnd (lift_loop (completeIteration l outcome (Some (fr_invocation fix)) reval now)) (\<lambda>l.
     sq (save_loop l) (sq (vf_emit env ''loop.iteration.completed'') (ret l))))"

datatype vf_next = Break_loop loop | Continue_loop loop nat "string option"

definition changed_files :: "vf_env \<Rightarrow> vf_git \<Rightarrow> string \<Rightarrow> string list vf" where
  "changed_files env git before =
     bnd (vf_call (vg_head git) (\<lambda>_. [])) (\<lambda>head.
     bnd (if head \<noteq> before then vf_call (\<lambda>n. vg_changed git n before head) (\<lambda>_. []) else ret []) (\<lambda>committed.
     bnd (vf_call (vg_status git) (\<lambda>_. [])) (\<lambda>status.
     ret (unique (committed @ uncommittedSourcePaths (ve_utf8 env) status)))))"

definition violations :: "vf_input \<Rightarrow> string list \<Rightarrow> json \<Rightarrow> string list" where
  "violations inp changed m =
     (let c = (if vi_enforce inp then checkTaskBoundaries changed m None
               else let (w, r) = getManifestBoundaries m in classifyUndeclaredFiles changed w r [])
      in bc_reference c @ bc_undeclared c)"

fun comma_list :: "string list \<Rightarrow> string" where
  "comma_list [] = []"
| "comma_list [x] = x"
| "comma_list (x # y # xs) = x @ '', '' @ comma_list (y # xs)"

text \<open>The message of a boundary failure, if there is one; the body of the \<open>try\<close>.\<close>

definition check_changes :: "vf_env \<Rightarrow> vf_input \<Rightarrow> manifest_result \<Rightarrow> vf_git \<Rightarrow> string \<Rightarrow> string option vf" where
  "check_changes env inp manifest git before =
     bnd (changed_files env git before) (\<lambda>changed.
     if changed = [] then ret None
     else case manifest of
         Manifest_missing _ \<Rightarrow> sq (vf_emit env ''task_boundary.check_failed'')
           (ret (Some ''task boundary check failed: task-manifest.json not found''))
       | Manifest_malformed msg _ \<Rightarrow> sq (vf_emit env ''task_boundary.check_failed'')
           (ret (Some (''task boundary check failed: '' @ msg)))
       | Manifest_found m \<Rightarrow>
           if violations inp changed m = [] then ret None
           else sq (vf_emit env ''task_boundary.violated'')
             (ret (Some (vi_phaseId inp @ '' modified undeclared files: ''
                @ comma_list (violations inp changed m)))))"

definition exn_text :: "vf_exn \<Rightarrow> string" where
  "exn_text e = (case e of Vf_threw msg \<Rightarrow> msg | Vf_loop _ \<Rightarrow> ''loop'')"

definition boundary_failure :: "vf_env \<Rightarrow> vf_input \<Rightarrow> manifest_result \<Rightarrow> fix_result \<Rightarrow> string option vf" where
  "boundary_failure env inp manifest fix = (case ve_git env of
       None \<Rightarrow> ret None
     | Some git \<Rightarrow>
         if \<not> truthy (fr_head fix) then ret None
         else bnd (catch (check_changes env inp manifest git (the (fr_head fix))) (\<lambda>e. Some (Inl e)) Inr) (\<lambda>r. case r of
             Inr failure \<Rightarrow> ret failure
           | Inl e \<Rightarrow> sq (vf_emit env ''task_boundary.check_failed'')
               (ret (Some (''task boundary check failed: '' @ exn_text e)))))"

definition can_roll_back :: "vf_env \<Rightarrow> fix_result \<Rightarrow> bool" where
  "can_roll_back env fix \<longleftrightarrow> truthy (fr_head fix) \<and> ve_rollback env \<noteq> None"

text \<open>A rollback where one is possible; \<open>Some\<close> next is the end of the loop when it failed.\<close>

definition undo :: "vf_env \<Rightarrow> loop \<Rightarrow> fix_result \<Rightarrow> vf_next option vf" where
  "undo env l fix =
     (if \<not> can_roll_back env fix then ret None
      else bnd (rollback env (the (fr_head fix))) (\<lambda>ok.
        if ok then ret None
        else sq (vf_emit env ''loop.rollback.failed'')
          (bnd (close_iteration env l Iteration_failed fix None) (\<lambda>l. ret (Some (Break_loop l))))))"

definition on_boundary_failure :: "vf_env \<Rightarrow> loop \<Rightarrow> fix_result \<Rightarrow> string \<Rightarrow> vf_next vf" where
  "on_boundary_failure env l fix msg =
     bnd (ask (\<lambda>s. ve_id env (vs_clock s))) (\<lambda>reval.
     bnd (undo env l fix) (\<lambda>ended. case ended of
       Some next \<Rightarrow> ret next
     | None \<Rightarrow> bnd (close_iteration env l Revalidation_failed fix (Some reval)) (\<lambda>l.
         ret (if can_roll_back env fix then Continue_loop l 0 (Some msg) else Break_loop l))))"

definition on_no_fixes :: "vf_env \<Rightarrow> loop \<Rightarrow> fix_result \<Rightarrow> nat \<Rightarrow> vf_next vf" where
  "on_no_fixes env l fix failures =
     bnd (vf_call (ve_revalidate env) (\<lambda>(_, passed). [Revalidated passed])) (\<lambda>(reval, passed).
     if passed then bnd (close_iteration env l Resolved fix (Some reval)) (\<lambda>l. ret (Break_loop l))
     else bnd (close_iteration env l Unresolved fix None) (\<lambda>l. ret (Continue_loop l failures None)))"

definition on_fixed :: "vf_env \<Rightarrow> loop \<Rightarrow> fix_result \<Rightarrow> vf_next vf" where
  "on_fixed env l fix =
     bnd (vf_call (ve_revalidate env) (\<lambda>(_, passed). [Revalidated passed])) (\<lambda>(reval, passed).
     if passed then bnd (close_iteration env l Resolved fix (Some reval)) (\<lambda>l. ret (Break_loop l))
     else sq (only_if (\<not> truthy (fr_head fix) \<and> ve_rollback env \<noteq> None) (vf_emit env ''loop.rollback.unavailable''))
       (bnd (undo env l fix) (\<lambda>ended. case ended of
           Some next \<Rightarrow> ret next
         | None \<Rightarrow> bnd (close_iteration env l Revalidation_failed fix (Some reval)) (\<lambda>l.
             ret (if can_roll_back env fix then Continue_loop l 0 None else Break_loop l)))))"

text \<open>What follows a started iteration.\<close>

definition settle_fix :: "vf_env \<Rightarrow> vf_input \<Rightarrow> manifest_result \<Rightarrow> loop \<Rightarrow> fix_result \<Rightarrow> nat \<Rightarrow> vf_next vf" where
  "settle_fix env inp manifest l fix failures =
     (if \<not> fr_success fix
      then sq (only_if (can_roll_back env fix) (bnd (rollback env (the (fr_head fix))) (\<lambda>_. ret ())))
        (bnd (close_iteration env l Iteration_failed fix None) (\<lambda>l. ret (Break_loop l)))
      else bnd (boundary_failure env inp manifest fix) (\<lambda>failure. case failure of
          Some msg \<Rightarrow> on_boundary_failure env l fix msg
        | None \<Rightarrow> (case fr_verdict fix of
            Some V_no_fixes_needed \<Rightarrow> on_no_fixes env l fix failures
          | None \<Rightarrow> sq (vf_emit env ''loop.verdict_missing'')
              (bnd (close_iteration env l Iteration_failed fix None) (\<lambda>l. ret (Break_loop l)))
          | Some V_cannot_fix \<Rightarrow> bnd (close_iteration env l Fix_failed fix None) (\<lambda>l.
              ret (Continue_loop l (failures + 1) None))
          | Some V_fixed \<Rightarrow> on_fixed env l fix)))"

definition iteration ::
  "vf_env \<Rightarrow> vf_input \<Rightarrow> manifest_result \<Rightarrow> string list option \<Rightarrow> loop \<Rightarrow> nat \<Rightarrow> string option \<Rightarrow> vf_next vf" where
  "iteration env inp manifest allowed l failures diag =
     (let fallback = (failures \<ge> 2 \<and> vi_fallback inp \<noteq> None);
          opts = \<lparr>fo_useFallback = fallback, fo_diagnostic = (if truthy diag then diag else None), fo_allowed = allowed\<rparr>
      in sq (vf_emit env ''loop.iteration.started'')
        (sq (only_if fallback (vf_emit env ''phase.fallback.escalated''))
        (bnd (vf_call (\<lambda>n. ve_fix env n opts) (\<lambda>fix. [Fix_ran fix])) (\<lambda>fix.
         bnd (vf_now env) (\<lambda>now.
         bnd (lift_loop (startIteration l (Start_review (fr_invocation fix) now))) (\<lambda>l.
         sq (save_loop l) (settle_fix env inp manifest l fix failures)))))))"

section \<open>The loop\<close>

fun iterations ::
  "vf_env \<Rightarrow> vf_input \<Rightarrow> manifest_result \<Rightarrow> string list option \<Rightarrow> nat \<Rightarrow> loop \<Rightarrow> nat \<Rightarrow> string option \<Rightarrow> loop vf" where
  "iterations env inp manifest allowed 0 l failures diag = stop (Vf_threw ''out of fuel'')"
| "iterations env inp manifest allowed (Suc fuel) l failures diag =
     (if \<not> canIterate l then ret l
      else bnd (iteration env inp manifest allowed l failures diag) (\<lambda>next. case next of
          Break_loop l \<Rightarrow> ret l
        | Continue_loop l failures diag \<Rightarrow> iterations env inp manifest allowed fuel l failures diag))"

definition allowed_files :: "manifest_result \<Rightarrow> string list option" where
  "allowed_files manifest = (case manifest of
       Manifest_found m \<Rightarrow> (let w = fst (getManifestBoundaries m) in if w \<noteq> [] then Some (sort w) else None)
     | _ \<Rightarrow> None)"

text \<open>The final loop and whether the phase passed.\<close>

definition finish_loop :: "vf_env \<Rightarrow> loop \<Rightarrow> (loop \<times> bool) vf" where
  "finish_loop env l =
     (if l_status l = LConverged then ret (l, True)
      else if l_status l = LFailed then ret (l, False)
      else bnd (vf_now env) (\<lambda>now. bnd (lift_loop (exhaust l now)) (\<lambda>l.
        sq (save_loop l) (sq (vf_emit env ''loop.exhausted'') (ret (l, False))))))"

definition load_manifest :: "vf_env \<Rightarrow> vf_input \<Rightarrow> manifest_result vf" where
  "load_manifest env inp = vf_call (\<lambda>n. loadManifest (ve_parse env) (vi_manifest inp)
     (map_option (\<lambda>f. f n) (ve_store env)) (map_option (\<lambda>f. f n) (ve_worktree env))) (\<lambda>_. [])"

text \<open>The new loop and the manifest.\<close>

definition open_loop :: "vf_env \<Rightarrow> vf_input \<Rightarrow> (loop \<times> manifest_result) vf" where
  "open_loop env inp =
     bnd (ask (\<lambda>s. (ve_id env (vs_clock s), ve_now env (vs_clock s)))) (\<lambda>(ident, now).
     bnd (lift_loop (createLoop \<lparr>li_id = ident, li_runId = vi_runId inp, li_phaseId = vi_phaseId inp,
        li_type = Validate_fix, li_maxIterations = vi_max inp, li_now = now\<rparr>)) (\<lambda>l.
     sq (save_loop l)
    (bnd (load_manifest env inp) (\<lambda>manifest.
     ret (l, manifest)))))"

definition validate_fix :: "vf_env \<Rightarrow> vf_input \<Rightarrow> nat \<Rightarrow> (loop \<times> bool) vf" where
  "validate_fix env inp fuel =
     bnd (open_loop env inp) (\<lambda>(l, manifest).
     bnd (iterations env inp manifest (allowed_files manifest) fuel l 0 None) (finish_loop env))"

section \<open>What an fix_attempt leaves behind\<close>

definition is_fix :: "vf_act \<Rightarrow> bool" where
  "is_fix a = (case a of Fix_ran _ \<Rightarrow> True | _ \<Rightarrow> False)"

definition fixes_in :: "vf_act list \<Rightarrow> nat" where
  "fixes_in a = length (filter is_fix a)"

lemma fixes_in_simps [simp]:
  "fixes_in [] = 0" "fixes_in (a @ b) = fixes_in a + fixes_in b"
  "fixes_in (Fix_ran fix # a) = Suc (fixes_in a)"
  "fixes_in (Rolled_back did # a) = fixes_in a" "fixes_in (Revalidated did # a) = fixes_in a"
  by (simp_all add: fixes_in_def is_fix_def)

text \<open>The attempts after which the loop goes on.\<close>

definition carried_on :: "vf_act list \<Rightarrow> bool" where
  "carried_on a \<longleftrightarrow> (\<exists>fix.
       a = [Fix_ran fix] \<and> fr_verdict fix = Some V_cannot_fix
     \<or> a = [Fix_ran fix, Revalidated False] \<and> fr_verdict fix = Some V_no_fixes_needed
     \<or> a = [Fix_ran fix, Rolled_back True]
     \<or> a = [Fix_ran fix, Revalidated False, Rolled_back True])"

definition confirmed :: "vf_act list \<Rightarrow> bool" where
  "confirmed a \<longleftrightarrow> (\<exists>fix. a = [Fix_ran fix, Revalidated True])"

lemma carried_on_one_fix: "carried_on a \<Longrightarrow> fixes_in a = 1"
  by (auto simp: carried_on_def)

definition closed_as :: "loop \<Rightarrow> loop \<Rightarrow> loop_status \<Rightarrow> bool" where
  "closed_as l l' st \<longleftrightarrow> length (l_iterations l') = length (l_iterations l) \<and>
     l_maxIterations l' = l_maxIterations l \<and> l_status l' = st"

definition fix_attempt :: "loop \<Rightarrow> vf_next \<Rightarrow> vf_act list \<Rightarrow> bool" where
  "fix_attempt l next a = (case next of
       Break_loop l' \<Rightarrow> fixes_in a \<le> 1 \<and> (l_status l' = LConverged \<longrightarrow> confirmed a)
     | Continue_loop l' _ _ \<Rightarrow> carried_on a \<and> closed_as l l' LRunning)"

text \<open>\<open>actless V m\<close>: no act, a value that satisfies \<open>V\<close>.\<close>

definition actless :: "('a \<Rightarrow> bool) \<Rightarrow> 'a vf \<Rightarrow> bool" where
  "actless V m \<longleftrightarrow> (\<forall>A. yields (\<lambda>s. vs_acts s = A) V (\<lambda>_. True) m)"

text \<open>\<open>grows a V m\<close>: \<open>m\<close>, begun after the acts \<open>a\<close>, makes them acts that satisfy \<open>V\<close>, and runs
  at most one fix in all.\<close>

definition grows :: "vf_act list \<Rightarrow> ('a \<Rightarrow> vf_act list \<Rightarrow> bool) \<Rightarrow> 'a vf \<Rightarrow> bool" where
  "grows a V m \<longleftrightarrow> (\<forall>A. triple (\<lambda>s. vs_acts s = A @ a) m
     (\<lambda>x s. \<exists>b. vs_acts s = A @ b \<and> V x b) (\<lambda>_ s. \<exists>b. vs_acts s = A @ b \<and> fixes_in b \<le> 1))"

named_theorems calm_intros \<open>programs without acts\<close>
named_theorems grows_intros \<open>rules for the acts of a program\<close>

lemma calmD: "actless V m \<Longrightarrow> yields (\<lambda>s. vs_acts s = A) V (\<lambda>_. True) m"
  by (simp add: actless_def)

lemma calm_weaken: "actless V m \<Longrightarrow> (\<And>x. V x \<Longrightarrow> W x) \<Longrightarrow> actless W m"
  unfolding actless_def by (blast intro: yields_weaken)

lemma calm_any [calm_intros]: "actless V m \<Longrightarrow> actless (\<lambda>_. True) m"
  by (erule calm_weaken) simp

lemma calm_ret: "V x \<Longrightarrow> actless V (ret x)"
  by (simp add: actless_def yields_ret)

lemma calm_bnd: "actless V m \<Longrightarrow> (\<And>x. V x \<Longrightarrow> actless W (k x)) \<Longrightarrow> actless W (bnd m k)"
  unfolding actless_def by (blast intro: yields_bnd)

lemma calm_sq: "actless V m \<Longrightarrow> actless W k \<Longrightarrow> actless W (sq m k)"
  unfolding sq_def by (erule calm_bnd)

lemma calm_emit: "actless (\<lambda>_. True) (vf_emit env ty)"
  by (auto simp: actless_def vf_emit_def intro!: yieldsI split: option.splits)

lemma calm_ask: "actless (\<lambda>_. True) (ask f)"
  by (simp add: actless_def yields_ask)

lemma calm_now: "actless (\<lambda>_. True) (vf_now env)"
  unfolding vf_now_def by (rule calm_ask)

lemma calm_save: "actless (\<lambda>_. True) (save_loop l)"
  by (simp add: actless_def save_loop_def yields_tell)

lemma calm_lift: "(\<And>x. r = Inr x \<Longrightarrow> V x) \<Longrightarrow> actless V (lift_loop r)"
  by (cases r) (simp_all add: lift_loop_def actless_def yields_ret yields_stop)

lemma calm_call: "actless (\<lambda>_. True) (vf_call f (\<lambda>_. []))"
  by (auto simp: actless_def vf_call_def Let_def intro!: yieldsI split: sum.splits)

lemma calm_only_if: "actless V m \<Longrightarrow> actless (\<lambda>_. True) (only_if c m)"
  by (auto simp: only_if_def intro: calm_ret calm_any)

lemma grows_ret: "V x a \<Longrightarrow> grows a V (ret x)"
  by (auto simp: grows_def intro!: triple_ret)

lemma grows_bnd:
  assumes "actless W m" and "fixes_in a \<le> 1" and "\<And>x. W x \<Longrightarrow> grows a V (k x)"
  shows "grows a V (bnd m k)"
  unfolding grows_def
proof
  fix A
  show "triple (\<lambda>s. vs_acts s = A @ a) (bnd m k) (\<lambda>x s. \<exists>b. vs_acts s = A @ b \<and> V x b)
      (\<lambda>_ s. \<exists>b. vs_acts s = A @ b \<and> fixes_in b \<le> 1)"
    by (rule triple_bnd [where R = "\<lambda>x s. vs_acts s = A @ a \<and> W x"],
        rule triple_weaken [OF calmD [OF assms(1), unfolded yields_def, of "A @ a"]])
      (use assms(2,3) in \<open>auto simp: grows_def intro: triple_conj_pre\<close>)
qed

lemma grows_sq: "actless W m \<Longrightarrow> fixes_in a \<le> 1 \<Longrightarrow> grows a V k \<Longrightarrow> grows a V (sq m k)"
  unfolding sq_def by (rule grows_bnd)

lemma grows_call:
  assumes "fixes_in a \<le> 1" and "\<And>x. grows (a @ what x) V (k x)"
  shows "grows a V (bnd (vf_call f what) k)"
  unfolding grows_def
proof
  fix A
  show "triple (\<lambda>s. vs_acts s = A @ a) (bnd (vf_call f what) k) (\<lambda>x s. \<exists>b. vs_acts s = A @ b \<and> V x b)
      (\<lambda>_ s. \<exists>b. vs_acts s = A @ b \<and> fixes_in b \<le> 1)"
    by (rule triple_bnd [where R = "\<lambda>x s. vs_acts s = A @ (a @ what x)"])
      (use assms in \<open>auto simp: vf_call_def Let_def grows_def split: sum.splits intro!: tripleI\<close>)
qed


lemma close_iteration_calm: "actless (\<lambda>l'. closed_as l l' (closed_status outcome)) (close_iteration env l outcome fix reval)"
  unfolding close_iteration_def
proof (rule calm_bnd [OF calm_now], rule calm_bnd [OF calm_lift])
  fix now l'
  assume "completeIteration l outcome (Some (fr_invocation fix)) reval now = Inr l'"
  then show "closed_as l l' (closed_status outcome)"
    by (auto simp: completeIteration_def closed_as_def closed_status_def Let_def
        split: option.splits iteration_outcome.splits dest: openIteration_nonempty)
next
  fix l' assume "closed_as l l' (closed_status outcome)"
  then show "actless (\<lambda>l'. closed_as l l' (closed_status outcome))
      (sq (save_loop l') (sq (vf_emit env ''loop.iteration.completed'') (ret l')))"
    by (intro calm_sq [OF calm_save] calm_sq [OF calm_emit] calm_ret)
qed

lemma closing:
  "fixes_in a \<le> 1 \<Longrightarrow> (\<And>l'. closed_as l l' (closed_status outcome) \<Longrightarrow> V (f l') a) \<Longrightarrow>
   grows a V (bnd (close_iteration env l outcome fix reval) (\<lambda>l'. ret (f l')))"
  by (rule grows_bnd [OF close_iteration_calm]) (auto intro: grows_ret)

lemma check_changes_calm: "actless (\<lambda>_. True) (check_changes env inp manifest git before)"
  unfolding check_changes_def changed_files_def
  by (auto intro!: calm_bnd [OF calm_call] calm_bnd [where V = "\<lambda>_. True"] calm_sq [OF calm_emit]
      calm_ret calm_call split: manifest_result.splits)

lemma catch_calm: "actless V m \<Longrightarrow> actless (\<lambda>_. True) (catch m (\<lambda>e. Some (f e)) g)"
  by (auto simp: actless_def intro!: yields_catch)

lemma boundary_failure_calm: "actless (\<lambda>_. True) (boundary_failure env inp manifest fix)"
  unfolding boundary_failure_def
  by (auto intro!: calm_ret calm_bnd [OF catch_calm [OF check_changes_calm]] calm_sq [OF calm_emit]
      split: option.splits sum.splits)

lemma grows_undo:
  assumes "fixes_in a \<le> 1"
    and "\<not> can_roll_back env fix \<Longrightarrow> grows a V (k None)"
    and "can_roll_back env fix \<Longrightarrow> grows (a @ [Rolled_back True]) V (k None)"
    and "\<And>l'. closed_as l l' LFailed \<Longrightarrow> grows (a @ [Rolled_back False]) V (k (Some (Break_loop l')))"
  shows "grows a V (bnd (undo env l fix) k)"
proof (cases "can_roll_back env fix")
  case True
  then obtain f where f: "ve_rollback env = Some f" by (auto simp: can_roll_back_def)
  have failed: "closed_status Iteration_failed = LFailed" by (simp add: closed_status_def)
  have "grows (a @ [Rolled_back did]) V (bnd (if did then ret None
      else sq (vf_emit env ''loop.rollback.failed'')
        (bnd (close_iteration env l Iteration_failed fix None) (\<lambda>l. ret (Some (Break_loop l))))) k)" for did
  proof (cases did)
    case True then show ?thesis using assms(3) \<open>can_roll_back env fix\<close> by simp
  next
    case False
    have "grows (a @ [Rolled_back False]) V (bnd (vf_emit env ''loop.rollback.failed'') (\<lambda>_.
        bnd (close_iteration env l Iteration_failed fix None) (\<lambda>l. k (Some (Break_loop l)))))"
      using assms(1,4) by (intro grows_bnd [OF calm_emit] grows_bnd [OF close_iteration_calm])
        (simp_all add: failed)
    then show ?thesis using False by (simp add: sq_def bnd_assoc)
  qed
  then show ?thesis
    using True assms(1) by (simp add: undo_def rollback_def f bnd_assoc grows_call)
qed (simp add: undo_def assms(2))

lemma on_boundary_failure_acts:
  "grows [Fix_ran fix] (fix_attempt l) (on_boundary_failure env l fix msg)"
  unfolding on_boundary_failure_def
  by (rule grows_bnd [OF calm_ask], simp, rule grows_undo)
    (auto intro!: closing grows_ret simp: fix_attempt_def carried_on_def closed_status_def closed_as_def)

lemma on_no_fixes_acts:
  "fr_verdict fix = Some V_no_fixes_needed \<Longrightarrow>
   grows [Fix_ran fix] (fix_attempt l) (on_no_fixes env l fix failures)"
  unfolding on_no_fixes_def
  by (rule grows_call)
    (auto intro!: closing simp: fix_attempt_def carried_on_def closed_status_def closed_as_def confirmed_def
      split: prod.splits)

lemma on_fixed_acts: "grows [Fix_ran fix] (fix_attempt l) (on_fixed env l fix)"
proof -
  have "grows [Fix_ran fix, Revalidated False] (fix_attempt l)
      (bnd (undo env l fix) (\<lambda>ended. case ended of
           Some next \<Rightarrow> ret next
         | None \<Rightarrow> bnd (close_iteration env l Revalidation_failed fix (Some reval)) (\<lambda>l.
             ret (if can_roll_back env fix then Continue_loop l 0 None else Break_loop l))))" for reval
    by (rule grows_undo)
      (auto intro!: closing grows_ret simp: fix_attempt_def carried_on_def closed_status_def closed_as_def)
  then show ?thesis
    unfolding on_fixed_def
    by (intro grows_call)
      (auto intro!: closing grows_sq [OF calm_only_if [OF calm_emit]]
        simp: fix_attempt_def closed_status_def closed_as_def confirmed_def split: prod.splits)
qed

lemma settle_fix_acts: "grows [Fix_ran fix] (fix_attempt l) (settle_fix env inp manifest l fix failures)"
proof (cases "fr_success fix")
  case True
  have rest: "grows [Fix_ran fix] (fix_attempt l) (case fr_verdict fix of
            Some V_no_fixes_needed \<Rightarrow> on_no_fixes env l fix failures
          | None \<Rightarrow> sq (vf_emit env ''loop.verdict_missing'')
              (bnd (close_iteration env l Iteration_failed fix None) (\<lambda>l. ret (Break_loop l)))
          | Some V_cannot_fix \<Rightarrow> bnd (close_iteration env l Fix_failed fix None) (\<lambda>l.
              ret (Continue_loop l (failures + 1) None))
          | Some V_fixed \<Rightarrow> on_fixed env l fix)"
    by (auto intro!: on_no_fixes_acts on_fixed_acts grows_sq [OF calm_emit] closing
        simp: fix_attempt_def carried_on_def closed_status_def closed_as_def
        split: option.splits fix_verdict.splits)
  show ?thesis
    unfolding settle_fix_def using True rest
    by (auto intro!: grows_bnd [OF boundary_failure_calm] on_boundary_failure_acts split: option.splits)
next
  case False
  have close: "grows a (fix_attempt l) (bnd (close_iteration env l Iteration_failed fix None) (\<lambda>l. ret (Break_loop l)))"
    if "fixes_in a \<le> 1" for a
    using that by (intro closing) (auto simp: fix_attempt_def closed_status_def closed_as_def)
  show ?thesis
  proof (cases "can_roll_back env fix")
    case True
    then obtain f where "ve_rollback env = Some f" by (auto simp: can_roll_back_def)
    then show ?thesis using True False
      by (auto simp: settle_fix_def rollback_def only_if_def sq_def bnd_assoc intro!: grows_call close)
  next
    case no: False
    then show ?thesis using False
      by (auto simp: settle_fix_def only_if_def sq_def intro!: close)
  qed
qed


section \<open>What the loop leaves behind\<close>

definition iterated :: "loop \<Rightarrow> vf_next \<Rightarrow> vf_act list \<Rightarrow> bool" where
  "iterated l next a \<longleftrightarrow> (\<exists>l1. length (l_iterations l1) = Suc (length (l_iterations l)) \<and>
     l_maxIterations l1 = l_maxIterations l \<and> fix_attempt l1 next a)"

lemma grows_weaken: "grows a V m \<Longrightarrow> (\<And>x b. V x b \<Longrightarrow> W x b) \<Longrightarrow> grows a W m"
  unfolding grows_def by (blast intro: triple_weaken)

lemma iteration_acts: "grows [] (iterated l) (iteration env inp manifest allowed l failures diag)"
proof -
  have settle: "grows [Fix_ran fx] (iterated l) (settle_fix env inp manifest l1 fx failures)"
    if "length (l_iterations l1) = Suc (length (l_iterations l)) \<and> l_maxIterations l1 = l_maxIterations l"
    for fx l1
    using that by (intro grows_weaken [OF settle_fix_acts]) (auto simp: iterated_def)
  have started: "actless (\<lambda>l1. length (l_iterations l1) = Suc (length (l_iterations l)) \<and>
      l_maxIterations l1 = l_maxIterations l) (lift_loop (startIteration l i))" for i
    by (rule calm_lift) (auto simp: startIteration_def split: if_splits)
  show ?thesis
    unfolding iteration_def Let_def
    by (intro grows_sq [OF calm_emit] grows_sq [OF calm_only_if [OF calm_emit]] grows_call
        grows_bnd [OF calm_now] grows_bnd [OF started] grows_sq [OF calm_save]) (simp_all add: settle)
qed

text \<open>The acts of a run of at most \<open>n\<close> attempts; \<open>c\<close> if it converged.\<close>

definition run_trace :: "nat \<Rightarrow> bool \<Rightarrow> vf_act list \<Rightarrow> bool" where
  "run_trace n c acts \<longleftrightarrow> (\<exists>atts a. acts = concat atts @ a \<and> list_all carried_on atts \<and>
     length atts + fixes_in a \<le> n \<and> (c \<longrightarrow> confirmed a))"

lemma run_trace_last: "fixes_in a \<le> n \<Longrightarrow> (c \<longrightarrow> confirmed a) \<Longrightarrow> run_trace n c a"
  unfolding run_trace_def by (rule exI [of _ "[]"]) auto

lemma run_trace_more: "carried_on a \<Longrightarrow> run_trace n c acts \<Longrightarrow> run_trace (Suc n) c (a @ acts)"
proof -
  assume a: "carried_on a" and "run_trace n c acts"
  then obtain atts b where b: "acts = concat atts @ b" "list_all carried_on atts"
    "length atts + fixes_in b \<le> n" "c \<longrightarrow> confirmed b" by (auto simp: run_trace_def)
  show "run_trace (Suc n) c (a @ acts)"
    unfolding run_trace_def by (rule exI [of _ "a # atts"]) (use a b in auto)
qed

lemma run_trace_fixes: "run_trace n c acts \<Longrightarrow> fixes_in acts \<le> n"
proof -
  assume "run_trace n c acts"
  then obtain atts a where "acts = concat atts @ a" "list_all carried_on atts" "length atts + fixes_in a \<le> n"
    by (auto simp: run_trace_def)
  moreover have "list_all carried_on atts \<Longrightarrow> fixes_in (concat atts) = length atts"
    by (induction atts) (simp_all add: carried_on_one_fix)
  ultimately show ?thesis by simp
qed

definition left :: "loop \<Rightarrow> nat" where
  "left l = nat (l_maxIterations l) - length (l_iterations l)"

lemma iterations_acts:
  assumes "l_status l = LRunning"
  shows "\<exists>b. vs_acts (snd (iterations env inp manifest allowed fuel l failures diag s)) = vs_acts s @ b \<and>
    run_trace (left l) (\<exists>l'. fst (iterations env inp manifest allowed fuel l failures diag s) = Inr l'
      \<and> l_status l' = LConverged) b"
  using assms
proof (induction fuel arbitrary: l failures diag s)
  case 0
  then show ?case by (auto simp: stop_run intro: run_trace_last)
next
  case (Suc fuel)
  show ?case
  proof (cases "canIterate l")
    case False
    then show ?thesis using Suc.prems by (auto simp: ret_run intro: run_trace_last)
  next
    case go: True
    then have left: "1 \<le> left l" by (auto simp: left_def canIterate_def)
    obtain r s1 where it: "iteration env inp manifest allowed l failures diag s = (r, s1)" by fastforce
    have g: "triple (\<lambda>s'. vs_acts s' = vs_acts s) (iteration env inp manifest allowed l failures diag)
      (\<lambda>x s'. \<exists>b. vs_acts s' = vs_acts s @ b \<and> iterated l x b)
      (\<lambda>_ s'. \<exists>b. vs_acts s' = vs_acts s @ b \<and> fixes_in b \<le> 1)"
      using iteration_acts [of l env inp manifest allowed failures diag, unfolded grows_def, THEN spec, of "vs_acts s"] by simp
    show ?thesis
    proof (cases r)
      case (Inl e)
      then obtain b where "vs_acts s1 = vs_acts s @ b" "fixes_in b \<le> 1"
        using triple_Inl [OF g _ it [unfolded Inl]] by auto
      then show ?thesis using it Inl go left by (auto simp: bnd_run intro!: run_trace_last)
    next
      case (Inr nxt)
      then obtain b where b: "vs_acts s1 = vs_acts s @ b" "iterated l nxt b"
        using triple_Inr [OF g _ it [unfolded Inr]] by auto
      show ?thesis
      proof (cases nxt)
        case (Break_loop l')
        then show ?thesis using it Inr go left b
          by (auto simp: bnd_run ret_run iterated_def fix_attempt_def intro!: run_trace_last)
      next
        case (Continue_loop l' f d)
        then have b': "carried_on b" "l_status l' = LRunning" "left l = Suc (left l')"
          using b(2) left by (auto simp: iterated_def fix_attempt_def closed_as_def left_def)
        obtain c where "vs_acts (snd (iterations env inp manifest allowed fuel l' f d s1)) = vs_acts s1 @ c"
          "run_trace (left l') (\<exists>l''. fst (iterations env inp manifest allowed fuel l' f d s1) = Inr l''
            \<and> l_status l'' = LConverged) c"
          using Suc.IH [OF b'(2)] by blast
        then show ?thesis using it Inr go Continue_loop b(1) b'(1,3)
          by (auto simp: bnd_run intro!: run_trace_more)
      qed
    qed
  qed
qed

lemma finish_loop_calm: "actless (\<lambda>(l', passed). passed \<longrightarrow> l_status l = LConverged) (finish_loop env l)"
  unfolding finish_loop_def
  by (auto intro!: calm_ret calm_bnd [OF calm_now] calm_bnd [OF calm_lift] calm_sq [OF calm_save]
      calm_sq [OF calm_emit])


section \<open>Properties\<close>

text \<open>How the loop starts, and the acts of the whole run.\<close>

lemma calm_load: "actless (\<lambda>_. True) (load_manifest env inp)"
  unfolding load_manifest_def by (rule calm_call)

lemma open_loop_calm:
  "actless (\<lambda>(l, manifest). l_status l = LRunning \<and> left l = nat (vi_max inp)) (open_loop env inp)"
proof -
  have new: "actless (\<lambda>l. l_status l = LRunning \<and> left l = nat (vi_max inp))
      (lift_loop (createLoop \<lparr>li_id = i, li_runId = vi_runId inp, li_phaseId = vi_phaseId inp,
        li_type = Validate_fix, li_maxIterations = vi_max inp, li_now = t\<rparr>))" for i t
    by (rule calm_lift) (auto simp: createLoop_def left_def split: if_splits)
  show ?thesis
    unfolding open_loop_def
    by (rule calm_bnd [OF calm_ask]) (auto intro!: calm_bnd [OF new] calm_sq [OF calm_save]
        calm_bnd [OF calm_load] calm_ret split: prod.splits)
qed

lemma validate_fix_start:
  assumes "validate_fix env inp fuel s = (r, s')"
  shows "vs_acts s' = vs_acts s \<and> (\<exists>e. r = Inl e) \<or>
    (\<exists>l manifest s1. vs_acts s1 = vs_acts s \<and> l_status l = LRunning \<and> left l = nat (vi_max inp) \<and>
      bnd (iterations env inp manifest (allowed_files manifest) fuel l 0 None) (finish_loop env) s1 = (r, s'))"
proof -
  note calm = calmD [OF open_loop_calm, of "vs_acts s" inp env]
  obtain x s1 where x: "open_loop env inp s = (x, s1)" by fastforce
  show ?thesis
  proof (cases x)
    case (Inl e)
    then show ?thesis using x assms yields_Inl [OF calm _ x [unfolded Inl]]
      by (auto simp: validate_fix_def bnd_run [of "open_loop env inp"])
  next
    case (Inr p)
    then show ?thesis using x assms yields_Inr [OF calm _ x [unfolded Inr]]
      by (cases p) (auto simp: validate_fix_def bnd_run [of "open_loop env inp"])
  qed
qed

lemma validate_fix_trace:
  assumes "validate_fix env inp fuel s = (r, s')"
  shows "\<exists>b. vs_acts s' = vs_acts s @ b \<and> run_trace (nat (vi_max inp)) (\<exists>l. r = Inr (l, True)) b"
  using validate_fix_start [OF assms]
proof (elim disjE exE conjE)
  fix l manifest s1
  assume s1: "vs_acts s1 = vs_acts s" and l: "l_status l = LRunning" "left l = nat (vi_max inp)"
    and run: "bnd (iterations env inp manifest (allowed_files manifest) fuel l 0 None) (finish_loop env) s1 = (r, s')"
  obtain x s2 where x: "iterations env inp manifest (allowed_files manifest) fuel l 0 None s1 = (x, s2)"
    by fastforce
  obtain b where b: "vs_acts s2 = vs_acts s @ b"
    "run_trace (left l) (\<exists>l'. x = Inr l' \<and> l_status l' = LConverged) b"
    using iterations_acts [OF l(1), of env inp manifest "allowed_files manifest" fuel 0 None s1] x s1 by auto
  show ?thesis
  proof (cases x)
    case (Inl e)
    then show ?thesis using run x b l by (auto simp: bnd_run)
  next
    case (Inr l')
    have f: "yields (\<lambda>s. vs_acts s = vs_acts s2) (\<lambda>(l'', passed). passed \<longrightarrow> l_status l' = LConverged)
        (\<lambda>_. True) (finish_loop env l')"
      by (rule calmD [OF finish_loop_calm])
    have r: "finish_loop env l' s2 = (r, s')" using run x Inr by (simp add: bnd_run)
    have "vs_acts s' = vs_acts s2" using yields_inv [OF f, of s2] r by simp
    moreover have "l_status l' = LConverged" if "r = Inr (m, True)" for m
      using yields_Inr [OF f _ r [unfolded that]] by simp
    ultimately show ?thesis using b l Inr
      by (cases "\<exists>m. r = Inr (m, True)") (auto simp: run_trace_def)
  qed
qed (auto intro: run_trace_last)

text \<open>
  C16. A phase that passed ends with a fix that the validation confirmed right after it; each earlier
  attempt declined to fix, claimed that nothing was to be fixed, or was rolled back successfully,
  and there were fewer of them than the bound of the loop.
\<close>

theorem passed_phase_was_revalidated:
  assumes "validate_fix env inp fuel s = (Inr (l, True), s')"
  shows "\<exists>atts fix. vs_acts s' = vs_acts s @ concat atts @ [Fix_ran fix, Revalidated True] \<and>
    list_all carried_on atts \<and> int (length atts) < vi_max inp"
  using validate_fix_trace [OF assms] by (auto simp: run_trace_def confirmed_def)

text \<open>
  However it ends, an error included, a run of the loop asks the fix agent at most
  \<open>maxIterations\<close> times.
\<close>

theorem fixes_within_bound:
  "\<exists>acts. vs_acts (snd (validate_fix env inp fuel s)) = vs_acts s @ acts \<and>
     fixes_in acts \<le> nat (vi_max inp)"
  by (cases "validate_fix env inp fuel s") (auto dest!: validate_fix_trace run_trace_fixes)

text \<open>Fuel.\<close>

lemma bnd_cong: "(\<And>x s'. m s = (Inr x, s') \<Longrightarrow> k x s' = k' x s') \<Longrightarrow> bnd m k s = bnd m k' s"
  by (auto simp: bnd_run split: prod.splits sum.splits)

lemma iteration_left:
  assumes "iteration env inp manifest allowed l failures diag s = (Inr (Continue_loop l' f d), s')"
    and "canIterate l"
  shows "left l = Suc (left l')"
  using triple_Inr [OF iteration_acts [of l env inp manifest allowed failures diag, unfolded grows_def, THEN spec, of "vs_acts s"] _ assms(1)]
    assms(2)
  by (auto simp: iterated_def fix_attempt_def closed_as_def left_def canIterate_def)

lemma iterations_fuel:
  "left l < fuel \<Longrightarrow> left l < fuel' \<Longrightarrow>
   iterations env inp manifest allowed fuel l failures diag s =
   iterations env inp manifest allowed fuel' l failures diag s"
proof (induction fuel arbitrary: fuel' l failures diag s)
  case (Suc fuel)
  then obtain n where n: "fuel' = Suc n" by (cases fuel') auto
  show ?case
  proof (cases "canIterate l")
    case True
    then show ?thesis
      using Suc.prems iteration_left [OF _ True]
      by (auto simp: n intro!: bnd_cong Suc.IH split: vf_next.splits)
  qed (simp add: n)
qed simp

text \<open>
  The loop terminates: with fuel for one attempt more than \<open>maxIterations\<close> the run is the same
  as with any larger fuel, so that it never ends for want of fuel.
\<close>

theorem enough_fuel:
  assumes "nat (vi_max inp) < fuel"
  shows "validate_fix env inp fuel = validate_fix env inp (Suc (nat (vi_max inp)))"
proof
  fix s
  have "bnd (iterations env inp m a fuel l 0 None) (finish_loop env) s1 =
      bnd (iterations env inp m a (Suc (nat (vi_max inp))) l 0 None) (finish_loop env) s1"
    if "left l = nat (vi_max inp)" for l m a s1
    using iterations_fuel [of l fuel "Suc (nat (vi_max inp))"] that assms by (simp add: bnd_run)
  moreover have "left l = nat (vi_max inp)" if "open_loop env inp s = (Inr (l, m), s1)" for l m s1
    using yields_Inr [OF calmD [OF open_loop_calm] _ that] by simp
  ultimately show "validate_fix env inp fuel s = validate_fix env inp (Suc (nat (vi_max inp))) s"
    unfolding validate_fix_def by (intro bnd_cong) (simp only: split_paired_all prod.case)
qed


section \<open>Witnesses\<close>

definition sample_fix :: fix_result where
  "sample_fix = \<lparr>fr_invocation = ''i'', fr_success = True, fr_verdict = Some V_fixed, fr_head = Some ''h''\<rparr>"

text \<open>The first revalidation, the third vf_call, fails; the rollback is the fourth.\<close>

definition sample_vf :: vf_env where
  "sample_vf = \<lparr>ve_now = (\<lambda>n. 0), ve_id = (\<lambda>n. ''l''), ve_fix = (\<lambda>_ _. Inr sample_fix),
     ve_revalidate = (\<lambda>n. Inr (''v'', n > 4)), ve_rollback = Some (\<lambda>n _. Inr True), ve_git = None,
     ve_parse = Inl, ve_store = None, ve_worktree = None, ve_publish = (\<lambda>_. None),
     ve_utf8 = (\<lambda>_. [])\<rparr>"

definition sample_vf_input :: "int \<Rightarrow> vf_input" where
  "sample_vf_input m = \<lparr>vi_runId = ''r'', vi_phaseId = ''validate'', vi_max = m, vi_fallback = None, vi_enforce = True,
     vi_manifest = None\<rparr>"

definition sample_vf_state :: vf_state where
  "sample_vf_state = \<lparr>vs_clock = 0, vs_saved = [], vs_acts = [], vs_events = []\<rparr>"

lemma sample_run:
  "case validate_fix sample_vf (sample_vf_input 2) 2 sample_vf_state of
     (Inr (l, passed), s) \<Rightarrow> passed \<and> vs_acts s = [Fix_ran sample_fix, Revalidated False, Rolled_back True,
        Fix_ran sample_fix, Revalidated True] | _ \<Rightarrow> False"
  by code_simp

theorem passed_phase_was_revalidated_witness:
  "\<exists>l s' atts fix. validate_fix sample_vf (sample_vf_input 2) 2 sample_vf_state = (Inr (l, True), s') \<and>
     vs_acts s' = concat atts @ [Fix_ran fix, Revalidated True] \<and> list_all carried_on atts \<and> length atts < 2"
proof -
  obtain l s' where run: "validate_fix sample_vf (sample_vf_input 2) 2 sample_vf_state = (Inr (l, True), s')"
    using sample_run by (auto split: prod.splits sum.splits)
  show ?thesis
    using passed_phase_was_revalidated [OF run] run by (auto simp: sample_vf_state_def sample_vf_input_def)
qed

theorem enough_fuel_witness:
  "validate_fix sample_vf (sample_vf_input 3) 9 = validate_fix sample_vf (sample_vf_input 3) 4"
  using enough_fuel [of "sample_vf_input 3" 9 sample_vf] by (simp add: sample_vf_input_def)

text \<open>
  Without a rollback a failed revalidation ends the loop at once, and the loop is reported as
  exhausted although only one of its five iterations was used.
\<close>

lemma exhausted_after_one_iteration:
  "case validate_fix (sample_vf\<lparr>ve_rollback := None\<rparr>) (sample_vf_input 5) 1 sample_vf_state of
     (Inr (l, passed), s) \<Rightarrow> \<not> passed \<and> l_status l = LExhausted \<and> length (l_iterations l) = 1 \<and>
        last (vs_events s) = ''loop.exhausted'' | _ \<Rightarrow> False"
  by code_simp

end
