(* ===== verification/Digits.thy ===== *)
theory Digits
  imports Prelude Text
begin

text \<open>
  Decimal numerals as template literals print them and \<open>parseInt\<close> reads them, shared by the
  theories that build identifiers and parse headers. Lemma: reading gives back what was printed.
\<close>

definition digit_value :: "char \<Rightarrow> nat" where
  "digit_value c = of_char c - 48"

definition digits_value :: "string \<Rightarrow> nat" where
  "digits_value s = foldl (\<lambda>a c. 10 * a + digit_value c) 0 s"

lemma digit_value_char: "r < 10 \<Longrightarrow> digit_value (char_of (48 + r)) = r"
  by (simp add: digit_value_def take_bit_eq_mod)

lemma show_nat_value: "digits_value (show_nat n) = n"
proof (induction n rule: less_induct)
  case (less n)
  show ?case
  proof (cases "n < 10")
    case True
    then have "show_nat n = [char_of (48 + n)]" by (subst show_nat.simps) simp
    then show ?thesis using True by (simp add: digits_value_def digit_value_char)
  next
    case False
    then have "show_nat n = show_nat (n div 10) @ [char_of (48 + n mod 10)]" by (subst show_nat.simps) simp
    moreover have "digits_value (show_nat (n div 10)) = n div 10" using False by (intro less) simp
    ultimately show ?thesis by (simp add: digits_value_def digit_value_char)
  qed
qed

lemma show_nat_inject: "show_nat m = show_nat n \<longleftrightarrow> m = n"
  by (metis show_nat_value)

definition is_digit :: "char \<Rightarrow> bool" where
  "is_digit c \<longleftrightarrow> (of_char c :: nat) \<in> {48..57}"

lemma digit_char: "(r :: nat) < 10 \<Longrightarrow> is_digit (char_of (48 + r))"
  by (simp add: is_digit_def take_bit_eq_mod)

lemma show_nat_digits: "list_all is_digit (show_nat n)" "show_nat n \<noteq> []"
proof (induction n rule: less_induct)
  case (less n)
  case 1 show ?case using less(1) [of "n div 10"] digit_char [of n] digit_char [of "n mod 10"]
    by (subst show_nat.simps) auto
  case 2 show ?case by (subst show_nat.simps) simp
qed

text \<open>\<open>(\d+)\<close> and the rest of the line; \<open>None\<close> where there is no digit.\<close>

definition read_number :: "string \<Rightarrow> (nat \<times> string) option" where
  "read_number s = (let ds = takeWhile is_digit s
     in if ds = [] then None else Some (digits_value ds, dropWhile is_digit s))"

lemma read_show_nat: "rest = [] \<or> \<not> is_digit (hd rest) \<Longrightarrow> read_number (show_nat n @ rest) = Some (n, rest)"
proof -
  assume r: "rest = [] \<or> \<not> is_digit (hd rest)"
  have "takeWhile is_digit (show_nat n @ rest) = show_nat n" "dropWhile is_digit (show_nat n @ rest) = rest"
    using show_nat_digits [of n] r by (auto simp: list_all_iff takeWhile_append dropWhile_append) (cases rest; simp)+
  then show ?thesis by (simp add: read_number_def Let_def show_nat_digits show_nat_value)
qed

end
