(* ===== verification/Finding_Ledger.thy ===== *)
theory Finding_Ledger
  imports Digits Json
begin

text \<open>
  The ledger of review findings, \<^verbatim>\<open>packages/application/src/review-fix/finding-ledger.ts\<close>: how
  findings get their identifiers, how the follow-up review resolves them and when a repeated
  verdict is stale. The hexadecimal digest of SHA-256 is the argument \<open>sha\<close>. Lemmas: identifiers
  are distinct and the loop that looks for a free one ends, entries are never dropped, a finding
  is resolved only by an evaluation, and a verdict repeated often enough is reported.
\<close>

section \<open>Data\<close>

datatype finding_status = Finding_unresolved | Finding_resolved

datatype finding_source = Spec_review | Quality_review

record ledger_entry =
  le_id :: string
  le_status :: finding_status
  le_severity :: string
  le_files :: "string list"
  le_evidence :: string
  le_rationale :: string
  le_correction :: string
  le_iteration :: int
  le_source :: "finding_source option"
  le_resolvedIn :: "int option"
  le_resolution :: "string option"
  le_criterion :: "bool option"
  le_lastUnresolved :: "string option"
  le_repeats :: "int option"

record ledger =
  lg_iterations :: int
  lg_entries :: "ledger_entry list"

text \<open>A finding as a reviewer reports it; any property may be missing.\<close>

record finding =
  fi_severity :: "string option"
  fi_files :: "string list option"
  fi_evidence :: "string option"
  fi_rationale :: "string option"
  fi_correction :: "string option"

record criterion =
  ac_criterion :: "string option"
  ac_requirement :: "string option"
  ac_result :: "string option"
  ac_evidence :: "string option"

record evaluation =
  ev_finding :: string
  ev_resolved :: bool
  ev_evidence :: string

section \<open>Identifiers\<close>

definition STALE_REPEAT_THRESHOLD :: int where
  "STALE_REPEAT_THRESHOLD = 3"

text \<open>\<open>s.replace(/\s+/g, ' ')\<close>; the first argument says that a run of spaces is under way.\<close>

fun collapse_spaces :: "bool \<Rightarrow> string \<Rightarrow> string" where
  "collapse_spaces run [] = []"
| "collapse_spaces run (c # s) =
     (if js_space c then (if run then [] else '' '') @ collapse_spaces True s
      else c # collapse_spaces False s)"

definition normalizeEvidenceForStaleDetection :: "string \<Rightarrow> string" where
  "normalizeEvidenceForStaleDetection evidence = collapse_spaces False (to_lower (js_trim evidence))"

definition or_empty :: "string option \<Rightarrow> string" where
  "or_empty s = (case s of None \<Rightarrow> [] | Some t \<Rightarrow> t)"

text \<open>The text that is digested.\<close>

definition finding_text :: "finding \<Rightarrow> string" where
  "finding_text f =
     join_with CHR '','' (sort (case fi_files f of None \<Rightarrow> [] | Some fs \<Rightarrow> fs)) @ ''|'' @
     to_lower (js_trim (or_empty (fi_rationale f))) @ ''|'' @
     to_lower (js_trim (or_empty (fi_correction f))) @ ''|'' @
     take 100 (to_lower (js_trim (or_empty (fi_evidence f))))"

definition computeFindingFingerprint :: "(string \<Rightarrow> string) \<Rightarrow> finding \<Rightarrow> nat \<Rightarrow> string" where
  "computeFindingFingerprint sha f fallback =
     (if length (finding_text f) > 3 then ''F-'' @ take 8 (sha (finding_text f))
      else ''F-'' @ show_nat (fallback + 1))"

definition hex_char :: "char \<Rightarrow> bool" where
  "hex_char c \<longleftrightarrow> c \<in> set ''0123456789abcdefABCDEF''"

text \<open>\<open>/^F-[0-9a-f]{8}$/i\<close>.\<close>

definition content_fingerprint :: "string \<Rightarrow> bool" where
  "content_fingerprint i \<longleftrightarrow> length i = 10 \<and> take 2 i \<in> {''F-'', ''f-''} \<and> list_all hex_char (drop 2 i)"

text \<open>The loop \<open>while (seenIds.has(id)) id = base-k++\<close> from its second test on.\<close>

definition numbered :: "string \<Rightarrow> nat \<Rightarrow> string" where
  "numbered base k = base @ ''-'' @ show_nat k"

lemma numbered_inject: "numbered base j = numbered base k \<longleftrightarrow> j = k"
  by (simp add: numbered_def show_nat_inject)

function free_suffix :: "string \<Rightarrow> nat \<Rightarrow> string list \<Rightarrow> string" where
  "free_suffix base k seen =
     (if numbered base k \<in> set seen then free_suffix base (k + 1) seen else numbered base k)"
  by auto
termination
proof (relation "measure (\<lambda>(base, k, seen). card {j. k \<le> j \<and> numbered base j \<in> set seen})")
  fix base k seen assume "numbered base k \<in> set seen"
  moreover have "finite {j. k \<le> j \<and> numbered base j \<in> set seen}"
    by (rule finite_subset [of _ "numbered base -` set seen"])
      (auto intro!: finite_vimageI simp: inj_def numbered_inject)
  ultimately have "card {j. k + 1 \<le> j \<and> numbered base j \<in> set seen} < card {j. k \<le> j \<and> numbered base j \<in> set seen}"
    by (intro psubset_card_mono psubsetI) (auto, metis (no_types, lifting) Suc_n_not_le_n mem_Collect_eq order_refl)
  then show "((base, k + 1, seen), base, k, seen)
      \<in> measure (\<lambda>(base, k, seen). card {j. k \<le> j \<and> numbered base j \<in> set seen})" by simp
qed simp

declare free_suffix.simps [simp del]

definition free_id :: "string \<Rightarrow> string list \<Rightarrow> string" where
  "free_id base seen = (if base \<in> set seen then free_suffix base 1 seen else base)"

lemma free_suffix_fresh: "free_suffix base k seen \<notin> set seen"
  by (induction base k seen rule: free_suffix.induct) (simp add: free_suffix.simps)

lemma free_id_fresh: "free_id base seen \<notin> set seen"
  by (simp add: free_id_def free_suffix_fresh)

section \<open>Operations\<close>

text \<open>\<open>value || fallback\<close> of a string.\<close>

definition or_else :: "string option \<Rightarrow> string \<Rightarrow> string" where
  "or_else s d = (if truthy s then the s else d)"

definition new_entry :: "string \<Rightarrow> finding \<Rightarrow> finding_source \<Rightarrow> int \<Rightarrow> ledger_entry" where
  "new_entry i f source iter =
     \<lparr>le_id = i, le_status = Finding_unresolved, le_severity = or_else (fi_severity f) ''high'',
      le_files = (case fi_files f of None \<Rightarrow> [] | Some fs \<Rightarrow> fs), le_evidence = or_else (fi_evidence f) [],
      le_rationale = or_else (fi_rationale f) [], le_correction = or_else (fi_correction f) [],
      le_iteration = iter, le_source = Some source, le_resolvedIn = None, le_resolution = None,
      le_criterion = Some False, le_lastUnresolved = None, le_repeats = None\<rparr>"

text \<open>The loop over the findings from index \<open>n\<close>; a content fingerprint that is known is skipped.\<close>

fun append_from ::
  "(string \<Rightarrow> string) \<Rightarrow> finding_source \<Rightarrow> int \<Rightarrow> nat \<Rightarrow> finding list \<Rightarrow> ledger_entry list \<Rightarrow> string list \<Rightarrow> ledger_entry list" where
  "append_from sha source iter n [] result seen = result"
| "append_from sha source iter n (f # fs) result seen =
     (let base = computeFindingFingerprint sha f n
      in if content_fingerprint base \<and> base \<in> set seen then append_from sha source iter (n + 1) fs result seen
         else let i = free_id base seen
           in append_from sha source iter (n + 1) fs (result @ [new_entry i f source iter]) (i # seen))"

definition appendFindingsToLedger ::
  "(string \<Rightarrow> string) \<Rightarrow> ledger_entry list \<Rightarrow> finding list \<Rightarrow> finding_source \<Rightarrow> int \<Rightarrow> string list \<Rightarrow> ledger_entry list" where
  "appendFindingsToLedger sha entries fs source iter seen = append_from sha source iter (length entries) fs entries seen"

definition failing :: "criterion \<Rightarrow> bool" where
  "failing ac \<longleftrightarrow> (case ac_result ac of None \<Rightarrow> False | Some r \<Rightarrow> to_upper r = ''FAIL'')"

definition criterion_entry :: "string \<Rightarrow> criterion \<Rightarrow> ledger_entry" where
  "criterion_entry i ac = (let text = or_empty (coalesce (ac_criterion ac) (ac_requirement ac)) in
     \<lparr>le_id = i, le_status = Finding_unresolved, le_severity = ''high'', le_files = [],
      le_evidence = or_else (ac_evidence ac) ''Requirement not satisfied'',
      le_rationale = ''Failed requirement: '' @ text,
      le_correction = ''Implement requirement to satisfy: '' @ text,
      le_iteration = 0, le_source = Some Spec_review, le_resolvedIn = None, le_resolution = None,
      le_criterion = Some True, le_lastUnresolved = None, le_repeats = None\<rparr>)"

text \<open>The entries of the failed acceptance criteria from index \<open>n\<close>.\<close>

fun criteria_from :: "nat \<Rightarrow> criterion list \<Rightarrow> ledger_entry list \<Rightarrow> ledger_entry list" where
  "criteria_from n [] entries = entries"
| "criteria_from n (ac # acs) entries =
     criteria_from (n + 1) acs
       (entries @ [criterion_entry (free_id (''AC-'' @ show_nat (n + 1)) (map le_id entries)) ac])"

definition createFindingLedger ::
  "(string \<Rightarrow> string) \<Rightarrow> finding list \<Rightarrow> criterion list \<Rightarrow> finding_source \<Rightarrow> ledger" where
  "createFindingLedger sha fs acs source =
     (let entries = criteria_from 0 (filter failing acs) []
      in \<lparr>lg_iterations = 0,
          lg_entries = appendFindingsToLedger sha entries fs source 0 (map le_id entries)\<rparr>)"

definition appendFindingLedgerEntries ::
  "(string \<Rightarrow> string) \<Rightarrow> ledger \<Rightarrow> finding list \<Rightarrow> finding_source \<Rightarrow> ledger" where
  "appendFindingLedgerEntries sha l fs source =
     l\<lparr>lg_entries := appendFindingsToLedger sha (lg_entries l) fs source (lg_iterations l) (map le_id (lg_entries l))\<rparr>"

text \<open>What an iteration makes of an entry: \<open>evalMap.get(entry.id)\<close> is the last evaluation with its id.\<close>

definition last_evaluation :: "evaluation list \<Rightarrow> string \<Rightarrow> evaluation option" where
  "last_evaluation evs i = map_of (rev (map (\<lambda>ev. (ev_finding ev, ev)) evs)) i"

definition sourced :: "ledger_entry \<Rightarrow> ledger_entry" where
  "sourced e = e\<lparr>le_source := (case le_source e of None \<Rightarrow> Some Spec_review | Some s \<Rightarrow> Some s)\<rparr>"

definition review_entry :: "evaluation list \<Rightarrow> int \<Rightarrow> ledger_entry \<Rightarrow> ledger_entry" where
  "review_entry evs iter e = (case last_evaluation evs (le_id e) of
       None \<Rightarrow> sourced e
     | Some ev \<Rightarrow>
         if ev_resolved ev then (sourced e)\<lparr>le_status := Finding_resolved, le_resolvedIn := Some iter,
           le_resolution := Some (ev_evidence ev), le_lastUnresolved := None, le_repeats := None\<rparr>
         else let evidence = normalizeEvidenceForStaleDetection (ev_evidence ev)
           in (sourced e)\<lparr>le_status := Finding_unresolved, le_lastUnresolved := Some evidence,
                le_repeats := Some (if le_lastUnresolved e = Some evidence
                  then (case le_repeats e of None \<Rightarrow> 1 | Some n \<Rightarrow> n) + 1 else 1)\<rparr>)"

definition updateFindingLedger ::
  "(string \<Rightarrow> string) \<Rightarrow> ledger \<Rightarrow> evaluation list \<Rightarrow> finding list \<Rightarrow> int \<Rightarrow> finding_source \<Rightarrow> ledger" where
  "updateFindingLedger sha l evs fs iter source =
     \<lparr>lg_iterations = iter,
      lg_entries = appendFindingsToLedger sha (map (review_entry evs iter) (lg_entries l)) fs source iter
        (map le_id (lg_entries l))\<rparr>"

definition unresolved :: "ledger_entry \<Rightarrow> bool" where
  "unresolved e \<longleftrightarrow> le_status e = Finding_unresolved"

definition hasUnresolvedBlockingFindings :: "ledger \<Rightarrow> bool" where
  "hasUnresolvedBlockingFindings l = list_ex unresolved (lg_entries l)"

definition getStaleRepeatedFindings :: "ledger \<Rightarrow> int \<Rightarrow> ledger_entry list" where
  "getStaleRepeatedFindings l threshold =
     filter (\<lambda>e. unresolved e \<and> (case le_repeats e of None \<Rightarrow> 0 | Some n \<Rightarrow> n) \<ge> threshold) (lg_entries l)"

section \<open>Text for the prompts\<close>

fun comma_separated :: "string list \<Rightarrow> string" where
  "comma_separated [] = []"
| "comma_separated [x] = x"
| "comma_separated (x # y # xs) = x @ '', '' @ comma_separated (y # xs)"

definition source_text :: "ledger_entry \<Rightarrow> string" where
  "source_text e = (case le_source e of Some Quality_review \<Rightarrow> ''quality-review'' | _ \<Rightarrow> ''spec-review'')"

definition files_line :: "ledger_entry \<Rightarrow> string list" where
  "files_line e = (if le_files e = [] then [] else [''  Files: '' @ comma_separated (le_files e)])"

definition heading :: "ledger_entry \<Rightarrow> string" where
  "heading e = ''- **['' @ le_id e @ ''] ['' @ to_upper (le_severity e) @ '']** '' @ le_rationale e"

definition unresolved_lines :: "bool \<Rightarrow> ledger_entry \<Rightarrow> string list" where
  "unresolved_lines iteration e = [heading e] @ files_line e @
     [''  Evidence: '' @ le_evidence e, ''  Required Fix: '' @ le_correction e,
      ''  Source: '' @ source_text e @
        (if iteration then '' (iteration '' @ show_int (le_iteration e) @ '')'' else []), []]"

definition resolved_lines :: "ledger_entry \<Rightarrow> string list" where
  "resolved_lines e =
     [''- **['' @ le_id e @ ''] [RESOLVED in iter '' @ (case le_resolvedIn e of None \<Rightarrow> ''?'' | Some n \<Rightarrow> show_int n)
        @ '']** '' @ le_rationale e] @
     (if truthy (le_resolution e) then [''  Resolution Evidence: '' @ the (le_resolution e)] else []) @
     [''  Source: '' @ source_text e, []]"

definition formatLedgerForPrompt :: "ledger \<Rightarrow> string" where
  "formatLedgerForPrompt l =
     (let unres = filter unresolved (lg_entries l); res = filter (\<lambda>e. \<not> unresolved e) (lg_entries l)
      in if lg_entries l = [] then ''No review findings recorded.''
         else join_with (CHR 0x0A)
           ((if unres = [] then [] else ''### UNRESOLVED BLOCKING FINDINGS:'' # concat (map (unresolved_lines True) unres)) @
            (if res = [] then []
             else ''### PREVIOUSLY RESOLVED FINDINGS (REGRESSION CHECKLIST):'' # concat (map resolved_lines res))))"

definition formatLedgerForFixPrompt :: "ledger \<Rightarrow> string" where
  "formatLedgerForFixPrompt l =
     (let unres = filter unresolved (lg_entries l)
      in if unres = [] then ''No unresolved findings.''
         else join_with (CHR 0x0A) (''### FINDINGS TO RESOLVE:'' # concat (map (unresolved_lines False) unres)))"

section \<open>Identifiers are distinct and entries stay\<close>

lemma new_entry_simps [simp]:
  "le_id (new_entry i f source iter) = i" "unresolved (new_entry i f source iter)"
  "le_iteration (new_entry i f source iter) = iter" "le_source (new_entry i f source iter) = Some source"
  "le_lastUnresolved (new_entry i f source iter) = None" "le_repeats (new_entry i f source iter) = None"
  by (simp_all add: new_entry_def unresolved_def)

lemma criterion_entry_id [simp]: "le_id (criterion_entry i ac) = i"
  by (simp add: criterion_entry_def Let_def)

lemma append_from_grows:
  "\<exists>new. append_from sha source iter n fs result seen = result @ new \<and>
     list_all unresolved new \<and> set (map le_id new) \<inter> set seen = {} \<and> distinct (map le_id new) \<and>
     list_all (\<lambda>e. le_iteration e = iter \<and> le_source e = Some source \<and> le_lastUnresolved e = None \<and> le_repeats e = None) new"
proof (induction fs arbitrary: n result seen)
  case (Cons f fs)
  let ?base = "computeFindingFingerprint sha f n"
  let ?i = "free_id ?base seen"
  show ?case
  proof (cases "content_fingerprint ?base \<and> ?base \<in> set seen")
    case True
    then show ?thesis using Cons.IH by (simp add: Let_def)
  next
    case False
    let ?e = "new_entry ?i f source iter"
    obtain new where new: "append_from sha source iter (n + 1) fs (result @ [?e]) (?i # seen) = (result @ [?e]) @ new"
      "list_all unresolved new" "set (map le_id new) \<inter> set (?i # seen) = {}" "distinct (map le_id new)"
      "list_all (\<lambda>e. le_iteration e = iter \<and> le_source e = Some source \<and> le_lastUnresolved e = None \<and> le_repeats e = None) new"
      using Cons.IH by blast
    show ?thesis
      by (rule exI [of _ "?e # new"])
        (use new False free_id_fresh [of ?base seen] in \<open>auto simp: Let_def\<close>)
  qed
qed simp

lemma free_id_entries: "free_id base (map le_id es) \<notin> le_id ` set es"
  using free_id_fresh [of base "map le_id es"] by simp

lemma criteria_from_distinct:
  "distinct (map le_id entries) \<Longrightarrow> distinct (map le_id (criteria_from n acs entries))"
  by (induction n acs entries rule: criteria_from.induct)
    (simp_all add: free_id_entries)

text \<open>Well-formedness of an entry and of a ledger.\<close>

definition entry_wf :: "ledger_entry \<Rightarrow> bool" where
  "entry_wf e \<longleftrightarrow> le_source e \<noteq> None \<and>
     (le_lastUnresolved e = None \<longleftrightarrow> le_repeats e = None) \<and>
     (case le_repeats e of None \<Rightarrow> True | Some n \<Rightarrow> n \<ge> 1) \<and>
     (\<not> unresolved e \<longrightarrow> le_resolvedIn e \<noteq> None \<and> le_resolution e \<noteq> None \<and> le_repeats e = None)"

definition ledger_wf :: "ledger \<Rightarrow> bool" where
  "ledger_wf l \<longleftrightarrow> distinct (map le_id (lg_entries l)) \<and> list_all entry_wf (lg_entries l)"

text \<open>The ledgers the operations build.\<close>

inductive built :: "(string \<Rightarrow> string) \<Rightarrow> ledger \<Rightarrow> bool" for sha where
  built_new: "built sha (createFindingLedger sha fs acs source)"
| built_append: "built sha l \<Longrightarrow> built sha (appendFindingLedgerEntries sha l fs source)"
| built_update: "built sha l \<Longrightarrow> built sha (updateFindingLedger sha l evs fs iter source)"


lemma ledger_append_wf:
  assumes "distinct (map le_id entries)" and "list_all entry_wf entries" and "seen = map le_id entries"
  shows "distinct (map le_id (append_from sha source iter n fs entries seen)) \<and>
    list_all entry_wf (append_from sha source iter n fs entries seen)"
proof -
  obtain new where "append_from sha source iter n fs entries seen = entries @ new" "list_all unresolved new"
    "set (map le_id new) \<inter> set seen = {}" "distinct (map le_id new)"
    "list_all (\<lambda>e. le_iteration e = iter \<and> le_source e = Some source \<and> le_lastUnresolved e = None \<and> le_repeats e = None) new"
    using append_from_grows by blast
  then show ?thesis using assms by (auto simp: list_all_iff entry_wf_def)
qed

lemma criteria_wf: "list_all entry_wf entries \<Longrightarrow> list_all entry_wf (criteria_from n acs entries)"
  by (induction n acs entries rule: criteria_from.induct)
    (simp_all add: criterion_entry_def entry_wf_def unresolved_def Let_def)

lemma review_entry_id [simp]: "le_id (review_entry evs iter e) = le_id e"
  by (simp add: review_entry_def sourced_def Let_def split: option.splits)

lemma review_entry_wf: "entry_wf e \<Longrightarrow> entry_wf (review_entry evs iter e)"
  by (auto simp: review_entry_def sourced_def entry_wf_def unresolved_def Let_def split: option.splits)

lemma ledger_well_formed_lemma: "built sha l \<Longrightarrow> ledger_wf l"
proof (induction rule: built.induct)
  case (built_new fs acs source)
  show ?case
    using ledger_append_wf [OF criteria_from_distinct criteria_wf refl] unfolding ledger_wf_def createFindingLedger_def
    by (simp add: appendFindingsToLedger_def Let_def)
next
  case (built_append l fs source)
  then show ?case
    using ledger_append_wf [OF _ _ refl] unfolding ledger_wf_def appendFindingLedgerEntries_def
    by (simp add: appendFindingsToLedger_def)
next
  case (built_update l evs fs iter source)
  then have "distinct (map le_id (map (review_entry evs iter) (lg_entries l)))"
    "list_all entry_wf (map (review_entry evs iter) (lg_entries l))"
    "map le_id (lg_entries l) = map le_id (map (review_entry evs iter) (lg_entries l))"
    by (auto simp: ledger_wf_def list_all_iff comp_def review_entry_wf)
  then show ?case
    using ledger_append_wf [of "map (review_entry evs iter) (lg_entries l)" "map le_id (lg_entries l)"]
    by (simp add: ledger_wf_def updateFindingLedger_def appendFindingsToLedger_def)
qed

section \<open>Resolution only by an evaluation\<close>

lemma update_entries:
  "\<exists>new. lg_entries (updateFindingLedger sha l evs fs iter source) = map (review_entry evs iter) (lg_entries l) @ new \<and>
     list_all unresolved new"
  unfolding updateFindingLedger_def appendFindingsToLedger_def
  using append_from_grows [of sha source iter "length (map (review_entry evs iter) (lg_entries l))" fs
      "map (review_entry evs iter) (lg_entries l)" "map le_id (lg_entries l)"]
  by (simp only: ledger.simps) blast

lemma review_entry_open:
  "unresolved (review_entry evs iter e) \<longleftrightarrow> (case last_evaluation evs (le_id e) of
     None \<Rightarrow> unresolved e | Some ev \<Rightarrow> \<not> ev_resolved ev)"
  by (auto simp: review_entry_def sourced_def unresolved_def Let_def split: option.splits)

lemma last_evaluation_SomeD: "last_evaluation evs i = Some ev \<Longrightarrow> ev \<in> set evs \<and> ev_finding ev = i"
  by (auto simp: last_evaluation_def dest!: map_of_SomeD)

text \<open>A new finding is recorded unless its fingerprint is known.\<close>

lemma append_from_nothing:
  "append_from sha source iter n fs result seen = result \<longleftrightarrow>
   (\<forall>k < length fs. let i = computeFindingFingerprint sha (fs ! k) (n + k) in content_fingerprint i \<and> i \<in> set seen)"
proof (induction fs arbitrary: n)
  case (Cons f fs)
  let ?base = "computeFindingFingerprint sha f n"
  show ?case
  proof (cases "content_fingerprint ?base \<and> ?base \<in> set seen")
    case True
    then show ?thesis using Cons.IH [of "n + 1"] by (simp add: Let_def All_less_Suc2)
  next
    case False
    obtain new where "append_from sha source iter (n + 1) fs (result @ [new_entry (free_id ?base seen) f source iter])
        (free_id ?base seen # seen) = (result @ [new_entry (free_id ?base seen) f source iter]) @ new"
      using append_from_grows by blast
    then show ?thesis using False by (auto simp: Let_def)
  qed
qed simp

text \<open>
  C15. After an update nothing is unresolved only if every finding that was unresolved before was
  evaluated as resolved and each of the new findings has an identifier the ledger knows.
\<close>

theorem converged_only_on_evidence:
  assumes "\<not> hasUnresolvedBlockingFindings (updateFindingLedger sha l evs fs iter source)"
  shows "(\<forall>e \<in> set (lg_entries l). unresolved e \<longrightarrow>
      (\<exists>ev \<in> set evs. ev_finding ev = le_id e \<and> ev_resolved ev)) \<and>
    (\<forall>f \<in> set fs. \<exists>n. computeFindingFingerprint sha f n \<in> set (map le_id (lg_entries l)))"
proof -
  let ?old = "map (review_entry evs iter) (lg_entries l)"
  obtain new where new: "lg_entries (updateFindingLedger sha l evs fs iter source) = ?old @ new" "list_all unresolved new"
    using update_entries by blast
  then have closed: "\<forall>e \<in> set (lg_entries l). \<not> unresolved (review_entry evs iter e)" and "new = []"
    using assms by (auto simp: hasUnresolvedBlockingFindings_def list_ex_iff list_all_iff)
  have "\<exists>ev \<in> set evs. ev_finding ev = le_id e \<and> ev_resolved ev"
    if e: "e \<in> set (lg_entries l)" "unresolved e" for e
  proof -
    have "\<not> unresolved (review_entry evs iter e)" using closed e(1) by blast
    then obtain ev where "last_evaluation evs (le_id e) = Some ev" "ev_resolved ev"
      using e(2) by (auto simp: review_entry_open split: option.splits)
    then show ?thesis by (blast dest: last_evaluation_SomeD)
  qed
  moreover have "\<exists>n. computeFindingFingerprint sha f n \<in> set (map le_id (lg_entries l))" if f: "f \<in> set fs" for f
  proof -
    obtain k where "k < length fs" "f = fs ! k" using f by (auto simp: in_set_conv_nth)
    moreover have "append_from sha source iter (length ?old) fs ?old (map le_id (lg_entries l)) = ?old"
      using new(1) \<open>new = []\<close> by (simp add: updateFindingLedger_def appendFindingsToLedger_def)
    then have "computeFindingFingerprint sha (fs ! k) (length ?old + k) \<in> set (map le_id (lg_entries l))"
      if "k < length fs" for k
      using that unfolding append_from_nothing by (simp add: Let_def)
    ultimately show ?thesis by blast
  qed
  ultimately show ?thesis by blast
qed


section \<open>Stale verdicts\<close>

text \<open>The iterations of a follow-up review: evaluations, new findings and the index.\<close>

definition review_all ::
  "(string \<Rightarrow> string) \<Rightarrow> finding_source \<Rightarrow> (evaluation list \<times> finding list \<times> int) list \<Rightarrow> ledger \<Rightarrow> ledger" where
  "review_all sha source = fold (\<lambda>(evs, fs, iter) l. updateFindingLedger sha l evs fs iter source)"

definition asserted :: "string \<Rightarrow> string \<Rightarrow> evaluation list \<Rightarrow> bool" where
  "asserted i w evs \<longleftrightarrow> (case last_evaluation evs i of None \<Rightarrow> False
     | Some ev \<Rightarrow> \<not> ev_resolved ev \<and> normalizeEvidenceForStaleDetection (ev_evidence ev) = w)"

definition repeated :: "string \<Rightarrow> string \<Rightarrow> int \<Rightarrow> ledger_entry \<Rightarrow> bool" where
  "repeated i w k e \<longleftrightarrow> le_id e = i \<and> unresolved e \<and> le_lastUnresolved e = Some w \<and>
     (\<exists>n. le_repeats e = Some n \<and> n \<ge> k)"

lemma review_entry_asserted:
  assumes "asserted i w evs" and "le_id e = i"
  shows "review_entry evs iter e = (sourced e)\<lparr>le_status := Finding_unresolved, le_lastUnresolved := Some w,
     le_repeats := Some (if le_lastUnresolved e = Some w then (case le_repeats e of None \<Rightarrow> 1 | Some n \<Rightarrow> n) + 1 else 1)\<rparr>"
proof -
  obtain ev where ev: "last_evaluation evs (le_id e) = Some ev" "\<not> ev_resolved ev"
    "normalizeEvidenceForStaleDetection (ev_evidence ev) = w"
    using assms by (auto simp: asserted_def split: option.splits)
  show ?thesis unfolding review_entry_def ev(1) option.case Let_def ev(3) using ev(2) by (simp only: if_False)
qed

lemma review_entry_first:
  assumes "asserted i w evs" "le_id e = i" "entry_wf e"
  shows "repeated i w 1 (review_entry evs iter e)"
  unfolding review_entry_asserted [OF assms(1,2)] using assms(2,3)
  by (auto simp: repeated_def sourced_def unresolved_def entry_wf_def split: option.split)

lemma review_entry_again:
  assumes "asserted i w evs" "repeated i w k e"
  shows "repeated i w (k + 1) (review_entry evs iter e)"
proof -
  obtain n where n: "le_id e = i" "le_lastUnresolved e = Some w" "le_repeats e = Some n" "n \<ge> k"
    using assms(2) by (auto simp: repeated_def)
  show ?thesis
    unfolding review_entry_asserted [OF assms(1) n(1)] using n by (simp add: repeated_def sourced_def unresolved_def)
qed

lemma reviewed_entry:
  "e \<in> set (lg_entries l) \<Longrightarrow> review_entry evs iter e \<in> set (lg_entries (updateFindingLedger sha l evs fs iter source))"
  using update_entries [of sha l evs fs iter source] by auto

lemma review_all_repeats:
  "\<forall>(evs, fs, iter) \<in> set us. asserted i w evs \<Longrightarrow> e \<in> set (lg_entries l) \<Longrightarrow> repeated i w k e \<Longrightarrow>
   \<exists>e \<in> set (lg_entries (review_all sha source us l)). repeated i w (k + int (length us)) e"
proof (induction us arbitrary: l e k)
  case (Cons u us)
  obtain evs fs iter where u: "u = (evs, fs, iter)" by (cases u) auto
  let ?l = "updateFindingLedger sha l evs fs iter source"
  have "review_entry evs iter e \<in> set (lg_entries ?l)" "repeated i w (k + 1) (review_entry evs iter e)"
    using Cons.prems u by (auto intro: reviewed_entry review_entry_again)
  then have "\<exists>e \<in> set (lg_entries (review_all sha source us ?l)). repeated i w (k + 1 + int (length us)) e"
    using Cons.prems(1) by (intro Cons.IH) auto
  then show ?case by (simp add: u review_all_def add.assoc)
qed (auto simp: review_all_def)

text \<open>
  A reviewer who repeats the same unresolved verdict is noticed: a finding evaluated as unresolved
  with the same evidence, up to case and spaces, in \<open>threshold\<close> consecutive iterations is reported
  as stale, whatever else the iterations bring.
\<close>

theorem stale_verdict_reported:
  assumes "built sha l" and "i \<in> set (map le_id (lg_entries l))"
    and "\<forall>(evs, fs, iter) \<in> set us. asserted i w evs" and "us \<noteq> []" and "threshold \<le> int (length us)"
  shows "i \<in> set (map le_id (getStaleRepeatedFindings (review_all sha source us l) threshold))"
proof -
  obtain e where e: "e \<in> set (lg_entries l)" "le_id e = i" using assms(2) by auto
  obtain evs fs iter us' where us: "us = (evs, fs, iter) # us'" using assms(4) by (cases us) auto
  let ?l = "updateFindingLedger sha l evs fs iter source"
  have "entry_wf e" using ledger_well_formed_lemma [OF assms(1)] e by (auto simp: ledger_wf_def list_all_iff)
  then have "review_entry evs iter e \<in> set (lg_entries ?l)" "repeated i w 1 (review_entry evs iter e)"
    using e assms(3) by (auto simp: us intro: reviewed_entry review_entry_first)
  then obtain d where "d \<in> set (lg_entries (review_all sha source us' ?l))" "repeated i w (1 + int (length us')) d"
    using review_all_repeats [of us' i w "review_entry evs iter e" ?l 1 sha source] assms(3) by (auto simp: us)
  then show ?thesis
    using assms(5) by (auto simp: us review_all_def repeated_def getStaleRepeatedFindings_def)
qed

section \<open>A regression that is lost\<close>

text \<open>
  A finding that was resolved and is reported again in a later iteration with the same content is
  dropped as a duplicate: the ledger still says that nothing is unresolved.
\<close>

theorem regression_is_lost:
  assumes "content_fingerprint (computeFindingFingerprint sha f 0)" and "length (finding_text f) > 3"
  shows "let l0 = createFindingLedger sha [f] [] source;
       l1 = updateFindingLedger sha l0 [\<lparr>ev_finding = computeFindingFingerprint sha f 0, ev_resolved = True, ev_evidence = w\<rparr>] [] 1 source;
       l2 = updateFindingLedger sha l1 [] [f] 2 source
     in hasUnresolvedBlockingFindings l0 \<and> \<not> hasUnresolvedBlockingFindings l2"
proof -
  have "computeFindingFingerprint sha f (Suc 0) = computeFindingFingerprint sha f 0"
    using assms(2) by (simp add: computeFindingFingerprint_def)
  then show ?thesis using assms(1)
    by (simp add: createFindingLedger_def updateFindingLedger_def appendFindingsToLedger_def Let_def free_id_def
        hasUnresolvedBlockingFindings_def review_entry_def last_evaluation_def sourced_def)
      (simp add: unresolved_def)
qed


text \<open>
  C17. Every ledger the operations build has distinct identifiers and well-formed entries: a resolved
  finding carries the iteration and the evidence of its resolution, and repeats are counted, from
  one, exactly for the entries with a remembered verdict.
\<close>

theorem ledger_well_formed:
  assumes "built sha l"
  shows "ledger_wf l"
  using assms by (rule ledger_well_formed_lemma)

section \<open>Witnesses\<close>

definition sample_sha :: "string \<Rightarrow> string" where
  "sample_sha s = replicate 64 CHR ''0''"

definition sample_finding :: finding where
  "sample_finding = \<lparr>fi_severity = None, fi_files = Some [''b.ts'', ''a.ts''], fi_evidence = Some '' Line 3 '',
     fi_rationale = Some ''unchecked index'', fi_correction = Some ''check it''\<rparr>"

definition sample_evaluation :: "bool \<Rightarrow> evaluation" where
  "sample_evaluation r = \<lparr>ev_finding = ''F-00000000'', ev_resolved = r, ev_evidence = ''still  There ''\<rparr>"

definition sample_ledger :: ledger where
  "sample_ledger = createFindingLedger sample_sha [sample_finding] [] Spec_review"

theorem ledger_well_formed_witness:
  "ledger_wf (updateFindingLedger sample_sha sample_ledger [sample_evaluation False] [sample_finding] 1 Spec_review)"
  by (rule ledger_well_formed [where sha = sample_sha]) (simp add: sample_ledger_def built_new built_update)

lemma sample_ledger_id: "map le_id (lg_entries sample_ledger) = [''F-00000000'']"
  by code_simp

theorem converged_only_on_evidence_witness:
  "\<not> hasUnresolvedBlockingFindings (updateFindingLedger sample_sha sample_ledger [sample_evaluation True] [] 1 Spec_review) \<and>
   (\<exists>ev \<in> set [sample_evaluation True]. ev_finding ev = ''F-00000000'' \<and> ev_resolved ev)"
proof -
  let ?l = "updateFindingLedger sample_sha sample_ledger [sample_evaluation True] [] 1 Spec_review"
  have closed: "\<not> hasUnresolvedBlockingFindings ?l" by code_simp
  have "\<forall>e \<in> set (lg_entries sample_ledger). unresolved e" by code_simp
  then show ?thesis
    using converged_only_on_evidence [OF closed] sample_ledger_id closed by (auto simp: map_eq_Cons_conv)
qed

theorem stale_verdict_reported_witness:
  "''F-00000000'' \<in> set (map le_id (getStaleRepeatedFindings
     (review_all sample_sha Spec_review (map (\<lambda>k. ([sample_evaluation False], [], k)) [1, 2, 3]) sample_ledger)
     STALE_REPEAT_THRESHOLD))"
proof (rule stale_verdict_reported [where w = "''still there''"])
  show "built sample_sha sample_ledger" by (simp add: sample_ledger_def built_new)
  show "''F-00000000'' \<in> set (map le_id (lg_entries sample_ledger))" by (simp add: sample_ledger_id)
  have "asserted ''F-00000000'' ''still there'' [sample_evaluation False]" by code_simp
  then show "\<forall>(evs, fs, iter) \<in> set (map (\<lambda>k. ([sample_evaluation False], [], k)) [1, 2, 3]).
      asserted ''F-00000000'' ''still there'' evs" by simp
qed (simp_all add: STALE_REPEAT_THRESHOLD_def)

theorem regression_is_lost_witness:
  "let l0 = createFindingLedger sample_sha [sample_finding] [] Spec_review;
       l1 = updateFindingLedger sample_sha l0 [\<lparr>ev_finding = computeFindingFingerprint sample_sha sample_finding 0,
         ev_resolved = True, ev_evidence = ''fixed''\<rparr>] [] 1 Spec_review;
       l2 = updateFindingLedger sample_sha l1 [] [sample_finding] 2 Spec_review
     in hasUnresolvedBlockingFindings l0 \<and> \<not> hasUnresolvedBlockingFindings l2"
proof (rule regression_is_lost)
  show "content_fingerprint (computeFindingFingerprint sample_sha sample_finding 0)" by code_simp
  show "length (finding_text sample_finding) > 3" by code_simp
qed

end
