(* ===== verification/Unified_Diff.thy ===== *)
theory Unified_Diff
  imports Digits
begin

text \<open>
  The parser of unified diffs, \<^verbatim>\<open>packages/application/src/pr-review/unified-diff.ts\<close>: one step per
  line over the local variables of \<open>parseUnifiedDiff\<close>. The map of hunks is a list of entries in
  insertion order. Lemmas: what git prints is read back, and a removed line whose text begins with
  two dashes and a space is taken for a file header.
\<close>

section \<open>Data\<close>

record hunk_header =
  hh_oldStart :: nat
  hh_oldLines :: nat
  hh_newStart :: nat
  hh_newLines :: nat

record parsed_hunk =
  ph_header :: hunk_header
  ph_body :: string
  ph_additions :: nat
  ph_deletions :: nat
  ph_new :: bool
  ph_deleted :: bool
  ph_binary :: bool
  ph_identity :: string

type_synonym hunk_map = "(string \<times> parsed_hunk list) list"

record parsed_diff =
  pd_hunks :: hunk_map
  pd_files :: "string list"
  pd_stat :: string
  pd_error :: "string option"

text \<open>The local variables of the parser.\<close>

record diff_state =
  ds_hunks :: hunk_map
  ds_files :: "string list"
  ds_file :: "string option"
  ds_header :: "hunk_header option"
  ds_body :: "string list"
  ds_headerLines :: "string list"
  ds_additions :: nat
  ds_deletions :: nat
  ds_binary :: bool
  ds_new :: bool
  ds_deleted :: bool
  ds_error :: "string option"

section \<open>Hunks\<close>

definition generateHunkIdentity :: "string \<Rightarrow> hunk_header \<Rightarrow> string" where
  "generateHunkIdentity path h =
     path @ '':'' @ show_nat (hh_oldStart h) @ '','' @ show_nat (hh_oldLines h) @ '':'' @
     show_nat (hh_newStart h) @ '','' @ show_nat (hh_newLines h)"

fun push_hunk :: "string \<Rightarrow> parsed_hunk \<Rightarrow> hunk_map \<Rightarrow> hunk_map" where
  "push_hunk f h [] = [(f, [h])]"
| "push_hunk f h ((g, hs) # m) = (if g = f then (g, hs @ [h]) # m else (g, hs) # push_hunk f h m)"

definition new_hunk ::
  "string \<Rightarrow> hunk_header \<Rightarrow> string list \<Rightarrow> nat \<Rightarrow> nat \<Rightarrow> bool \<Rightarrow> bool \<Rightarrow> bool \<Rightarrow> parsed_hunk" where
  "new_hunk file h body add del isnew isdel bin =
     \<lparr>ph_header = h, ph_body = join_with (CHR 0x0A) body, ph_additions = add, ph_deletions = del,
      ph_new = isnew, ph_deleted = isdel, ph_binary = bin, ph_identity = generateHunkIdentity file h\<rparr>"

definition finalizeHunk ::
  "hunk_map \<Rightarrow> string \<Rightarrow> hunk_header \<Rightarrow> string list \<Rightarrow> nat \<Rightarrow> nat \<Rightarrow> bool \<Rightarrow> bool \<Rightarrow> bool \<Rightarrow> hunk_map" where
  "finalizeHunk hunks file h body add del isnew isdel bin =
     push_hunk file (new_hunk file h body add del isnew isdel bin) hunks"

section \<open>Lines\<close>

definition begins :: "string \<Rightarrow> string \<Rightarrow> bool" where
  "begins p s \<longleftrightarrow> take (length p) s = p"

text \<open>\<open>s\<close> without the prefix \<open>p\<close>, if it has it.\<close>

definition after :: "string \<Rightarrow> string \<Rightarrow> string option" where
  "after p s = (if begins p s then Some (drop (length p) s) else None)"

text \<open>\<open>(\d+)(?:,(\d+))?\<close>: the numbers, one line where the second is absent.\<close>

definition read_range :: "string \<Rightarrow> ((nat \<times> nat) \<times> string) option" where
  "read_range s = (case read_number s of None \<Rightarrow> None
     | Some (start, rest) \<Rightarrow> (case after '','' rest of None \<Rightarrow> Some ((start, 1), rest)
       | Some rest' \<Rightarrow> (case read_number rest' of None \<Rightarrow> Some ((start, 1), rest)
         | Some (len, rest'') \<Rightarrow> Some ((start, len), rest''))))"

definition parseHunkHeader :: "string \<Rightarrow> hunk_header option" where
  "parseHunkHeader line = (case after ''@@ -'' line of None \<Rightarrow> None
     | Some s \<Rightarrow> (case read_range s of None \<Rightarrow> None
     | Some ((os, ol), s) \<Rightarrow> (case after '' +'' s of None \<Rightarrow> None
     | Some s \<Rightarrow> (case read_range s of None \<Rightarrow> None
     | Some ((ns, nl), s) \<Rightarrow> if begins '' @@'' s
         then Some \<lparr>hh_oldStart = os, hh_oldLines = ol, hh_newStart = ns, hh_newLines = nl\<rparr> else None))))"

text \<open>\<open>replace\<close> of every pair of characters by one, from the left.\<close>

fun replace_pair :: "char \<Rightarrow> char \<Rightarrow> char \<Rightarrow> string \<Rightarrow> string" where
  "replace_pair a b r [] = []"
| "replace_pair a b r [c] = [c]"
| "replace_pair a b r (c # d # s) =
     (if c = a \<and> d = b then r # replace_pair a b r s else c # replace_pair a b r (d # s))"

definition unquotePath :: "string \<Rightarrow> string" where
  "unquotePath path =
     (if path \<noteq> [] \<and> hd path = CHR 0x22 \<and> last path = CHR 0x22
      then replace_pair (CHR 0x5C) (CHR 0x5C) (CHR 0x5C)
        (replace_pair (CHR 0x5C) (CHR 0x22) (CHR 0x22) (butlast (tl path)))
      else path)"

text \<open>The path of a header line after its marker; \<open>None\<close> is \<open>/dev/null\<close>.\<close>

definition header_path :: "string \<Rightarrow> string \<Rightarrow> string option" where
  "header_path side rest = (let path = js_trim rest in
     if path = ''/dev/null'' then None
     else let p = unquotePath path in Some (case after side p of None \<Rightarrow> p | Some q \<Rightarrow> q))"

fun parseOldNewPaths :: "string list \<Rightarrow> string option \<times> string option \<Rightarrow> string option \<times> string option" where
  "parseOldNewPaths [] p = p"
| "parseOldNewPaths (l # ls) (old, new) = (case after ''--- '' l of
       Some rest \<Rightarrow> parseOldNewPaths ls (header_path ''a/'' rest, new)
     | None \<Rightarrow> (case after ''+++ '' l of
         Some rest \<Rightarrow> parseOldNewPaths ls (old, header_path ''b/'' rest)
       | None \<Rightarrow> parseOldNewPaths ls (old, new)))"

text \<open>What precedes the last occurrence of \<open>sep\<close>, and whether there is one.\<close>

fun before_last :: "string \<Rightarrow> string \<Rightarrow> string option" where
  "before_last sep [] = (if begins sep [] then Some [] else None)"
| "before_last sep (c # s) = (case before_last sep s of
       Some p \<Rightarrow> Some (c # p)
     | None \<Rightarrow> if begins sep (c # s) then Some [] else None)"

definition line_break :: "char \<Rightarrow> bool" where
  "line_break c \<longleftrightarrow> c = CHR 0x0A \<or> c = CHR 0x0D"

text \<open>\<open>/^diff --git "?a\/(.+)"? b\//\<close>; the group is greedy and never empty.\<close>

definition parseDiffGitLine :: "string \<Rightarrow> string option" where
  "parseDiffGitLine line = (case after ''diff --git '' line of None \<Rightarrow> None
     | Some s \<Rightarrow> (case after ''a/'' (if begins [CHR 0x22] s then tl s else s) of None \<Rightarrow> None
     | Some s \<Rightarrow> (case before_last '' b/'' (takeWhile (\<lambda>c. \<not> line_break c) s) of None \<Rightarrow> None
     | Some p \<Rightarrow> if p = [] then None else Some (unquotePath p))))"

section \<open>The parser\<close>

definition empty_state :: diff_state where
  "empty_state = \<lparr>ds_hunks = [], ds_files = [], ds_file = None, ds_header = None, ds_body = [],
     ds_headerLines = [], ds_additions = 0, ds_deletions = 0, ds_binary = False, ds_new = False,
     ds_deleted = False, ds_error = None\<rparr>"

text \<open>\<open>finalizeHunk\<close> of the current hunk, if there is one with a file.\<close>

definition flush :: "diff_state \<Rightarrow> diff_state" where
  "flush s = (case ds_header s of
       Some h \<Rightarrow> if truthy (ds_file s) then
         s\<lparr>ds_hunks := finalizeHunk (ds_hunks s) (the (ds_file s)) h (ds_body s) (ds_additions s)
             (ds_deletions s) (ds_new s) (ds_deleted s) (ds_binary s)\<rparr> else s
     | None \<Rightarrow> s)"

text \<open>
  The start of a file. The flags set in the branch of \<open>---\<close> are overwritten by the reset that
  follows it.
\<close>

definition file_line :: "string \<Rightarrow> diff_state \<Rightarrow> diff_state" where
  "file_line line s =
     (let s = flush s;
          s = (if begins ''diff --git'' line
               then s\<lparr>ds_file := parseDiffGitLine line, ds_headerLines := [line]\<rparr>
               else if begins ''--- '' line then
                 (let s = s\<lparr>ds_headerLines := ds_headerLines s @ [line]\<rparr> in
                  case parseOldNewPaths [line] (None, None) of
                    (None, Some new) \<Rightarrow> s\<lparr>ds_file := Some new\<rparr>
                  | (Some old, None) \<Rightarrow> s\<lparr>ds_file := Some old\<rparr>
                  | (Some old, Some _) \<Rightarrow> if old \<noteq> [] then s\<lparr>ds_file := Some old\<rparr> else s
                  | (None, None) \<Rightarrow> s)
               else s)
      in s\<lparr>ds_header := None, ds_body := [], ds_additions := 0, ds_deletions := 0,
           ds_binary := False, ds_new := False, ds_deleted := False\<rparr>)"

definition new_path_line :: "string \<Rightarrow> diff_state \<Rightarrow> diff_state" where
  "new_path_line line s =
     (let lines = ds_headerLines s @ [line]; (old, new) = parseOldNewPaths lines (None, None)
      in s\<lparr>ds_headerLines := lines, ds_file := (if truthy new then new else ds_file s),
           ds_new := (old = None \<and> new \<noteq> None \<or> ds_new s),
           ds_deleted := (old \<noteq> None \<and> new = None \<or> ds_deleted s)\<rparr>)"

definition hunk_line :: "nat \<Rightarrow> string \<Rightarrow> diff_state \<Rightarrow> diff_state" where
  "hunk_line i line s = (case parseHunkHeader line of
       Some h \<Rightarrow> (flush s)\<lparr>ds_header := Some h, ds_body := [line], ds_additions := 0, ds_deletions := 0\<rparr>
     | None \<Rightarrow> if truthy (ds_error s) then s
         else s\<lparr>ds_error := Some (''Malformed hunk header at line '' @ show_nat (i + 1) @ '': '' @ line)\<rparr>)"

definition body_line :: "string \<Rightarrow> diff_state \<Rightarrow> diff_state" where
  "body_line line s = s\<lparr>ds_body := ds_body s @ [line],
     ds_additions := ds_additions s + (if begins ''+'' line \<and> \<not> begins ''+++'' line then 1 else 0),
     ds_deletions := ds_deletions s + (if begins ''-'' line \<and> \<not> begins ''---'' line then 1 else 0)\<rparr>"

definition binary_line :: "string \<Rightarrow> diff_state \<Rightarrow> diff_state" where
  "binary_line line s = (let f = the (ds_file s) in
     s\<lparr>ds_binary := True, ds_files := (if f \<in> set (ds_files s) then ds_files s else ds_files s @ [f]),
       ds_hunks := finalizeHunk (ds_hunks s) f \<lparr>hh_oldStart = 0, hh_oldLines = 0, hh_newStart = 0, hh_newLines = 0\<rparr>
         [line] 0 0 False False True\<rparr>)"

definition parse_line :: "nat \<Rightarrow> string \<Rightarrow> diff_state \<Rightarrow> diff_state" where
  "parse_line i line s =
     (if begins ''diff --'' line \<or> begins ''--- '' line then file_line line s
      else if begins ''+++ '' line then new_path_line line s
      else if begins ''@@'' line then hunk_line i line s
      else if ds_header s \<noteq> None then body_line line s
      else if has_infix ''Binary files'' line \<and> truthy (ds_file s) then binary_line line s
      else s)"

fun parse_lines :: "nat \<Rightarrow> string list \<Rightarrow> diff_state \<Rightarrow> diff_state" where
  "parse_lines i [] s = s"
| "parse_lines i (l # ls) s = parse_lines (i + 1) ls (parse_line i l s)"

definition stat_line :: "string \<times> parsed_hunk list \<Rightarrow> string" where
  "stat_line = (\<lambda>(path, hs). if hs \<noteq> [] \<and> ph_binary (hd hs) then path @ '' | Binary''
     else path @ '' | '' @ show_nat (sum_list (map ph_additions hs)) @ '' +, '' @
       show_nat (sum_list (map ph_deletions hs)) @ '' -'')"

definition parseUnifiedDiff :: "string \<Rightarrow> parsed_diff" where
  "parseUnifiedDiff diff =
     (if js_blank diff then \<lparr>pd_hunks = [], pd_files = [], pd_stat = [], pd_error = None\<rparr>
      else let s = flush (parse_lines 0 (split_on (CHR 0x0A) diff) empty_state)
        in \<lparr>pd_hunks = ds_hunks s,
            pd_files = ds_files s @ filter (\<lambda>p. p \<notin> set (ds_files s)) (map fst (ds_hunks s)),
            pd_stat = join_with (CHR 0x0A) (map stat_line (ds_hunks s)), pd_error = ds_error s\<rparr>)"

definition findHunkForLine :: "hunk_map \<Rightarrow> string \<Rightarrow> int \<Rightarrow> parsed_hunk option" where
  "findHunkForLine hunks path line = (case map_of hunks path of None \<Rightarrow> None
     | Some hs \<Rightarrow> List.find (\<lambda>h. line \<ge> int (hh_newStart (ph_header h)) \<and>
         line < int (hh_newStart (ph_header h)) + int (hh_newLines (ph_header h))) hs)"

text \<open>The indices given to \<open>slice\<close> may be negative only at the end, where they count from there.\<close>

definition extractBoundedSourceContext :: "string list \<Rightarrow> int \<Rightarrow> int \<Rightarrow> string" where
  "extractBoundedSourceContext ls line around =
     (let start = max 0 (line - around - 1); end' = min (int (length ls)) (line + around);
          stop = (if end' < 0 then max 0 (int (length ls) + end') else end')
      in join_with (CHR 0x0A) (drop (nat start) (take (nat stop) ls)))"

section \<open>The diffs git prints\<close>

datatype change_kind = Modified | Added | Deleted

text \<open>The lines of a hunk are pairs of a mark and a text.\<close>

record diff_hunk =
  dh_header :: hunk_header
  dh_section :: string
  dh_lines :: "(char \<times> string) list"

record file_diff =
  fd_path :: string
  fd_kind :: change_kind
  fd_extra :: "string list"
  fd_hunks :: "diff_hunk list"

definition print_range :: "nat \<Rightarrow> nat \<Rightarrow> string" where
  "print_range start len = show_nat start @ (if len = 1 then [] else '','' @ show_nat len)"

definition print_header :: "diff_hunk \<Rightarrow> string" where
  "print_header h = (let hd = dh_header h in
     ''@@ -'' @ print_range (hh_oldStart hd) (hh_oldLines hd) @ '' +'' @
     print_range (hh_newStart hd) (hh_newLines hd) @ '' @@'' @ dh_section h)"

definition print_hunk :: "diff_hunk \<Rightarrow> string list" where
  "print_hunk h = print_header h # map (\<lambda>(m, t). m # t) (dh_lines h)"

definition old_line :: "file_diff \<Rightarrow> string" where
  "old_line f = ''--- '' @ (if fd_kind f = Added then ''/dev/null'' else ''a/'' @ fd_path f)"

definition new_line :: "file_diff \<Rightarrow> string" where
  "new_line f = ''+++ '' @ (if fd_kind f = Deleted then ''/dev/null'' else ''b/'' @ fd_path f)"

definition print_file :: "file_diff \<Rightarrow> string list" where
  "print_file f = [''diff --git a/'' @ fd_path f @ '' b/'' @ fd_path f] @ fd_extra f @
     [old_line f, new_line f] @ concat (map print_hunk (fd_hunks f))"

definition print_diff :: "file_diff list \<Rightarrow> string" where
  "print_diff fs = join_with (CHR 0x0A) (concat (map print_file fs))"

definition path_ok :: "string \<Rightarrow> bool" where
  "path_ok p \<longleftrightarrow> p \<noteq> [] \<and> \<not> js_space (last p) \<and> CHR 0x0A \<notin> set p"

definition extra_ok :: "string \<Rightarrow> bool" where
  "extra_ok l \<longleftrightarrow> CHR 0x0A \<notin> set l \<and> \<not> has_infix ''Binary files'' l \<and> \<not> begins ''diff --'' l \<and>
     \<not> begins ''--- '' l \<and> \<not> begins ''+++ '' l \<and> \<not> begins ''@@'' l"

text \<open>The excluded texts are those of lines that look like \<open>+++\<close> or \<open>---\<close>.\<close>

definition line_ok :: "char \<times> string \<Rightarrow> bool" where
  "line_ok = (\<lambda>(m, t). m \<in> {CHR '' '', CHR ''+'', CHR ''-'', CHR 0x5C} \<and> CHR 0x0A \<notin> set t \<and>
     \<not> (m = CHR ''+'' \<and> begins ''++'' t) \<and> \<not> (m = CHR ''-'' \<and> begins ''--'' t))"

definition file_ok :: "file_diff \<Rightarrow> bool" where
  "file_ok f \<longleftrightarrow> path_ok (fd_path f) \<and> list_all extra_ok (fd_extra f) \<and> fd_hunks f \<noteq> [] \<and>
     list_all (\<lambda>h. CHR 0x0A \<notin> set (dh_section h) \<and> list_all line_ok (dh_lines h)) (fd_hunks f)"

definition marked :: "char \<Rightarrow> diff_hunk \<Rightarrow> nat" where
  "marked c h = length (filter (\<lambda>(m, t). m = c) (dh_lines h))"

definition hunk_of :: "file_diff \<Rightarrow> diff_hunk \<Rightarrow> parsed_hunk" where
  "hunk_of f h = new_hunk (fd_path f) (dh_header h) (print_hunk h) (marked CHR ''+'' h) (marked CHR ''-'' h)
     (fd_kind f = Added) (fd_kind f = Deleted) False"

section \<open>Reading what was printed\<close>

lemma after_append [simp]: "after p (p @ s) = Some s"
  by (simp add: after_def begins_def)

lemma begins_append [simp]: "begins p (p @ s)"
  by (simp add: begins_def)

lemma begins_simps [simp]:
  "begins [] s" "\<not> begins (c # p) []" "begins (c # p) (d # s) \<longleftrightarrow> c = d \<and> begins p s"
  by (auto simp: begins_def)

lemma begins_prefix: "begins (p @ q) s \<Longrightarrow> begins p s"
  by (induction p arbitrary: s) (simp, case_tac s, simp_all)

lemma line_ok_plain:
  assumes "line_ok (m, t)"
  shows "\<not> begins ''diff --'' (m # t)" "\<not> begins ''--- '' (m # t)" "\<not> begins ''+++ '' (m # t)" "\<not> begins ''@@'' (m # t)"
    "begins ''+'' (m # t) \<and> \<not> begins ''+++'' (m # t) \<longleftrightarrow> m = CHR ''+''"
    "begins ''-'' (m # t) \<and> \<not> begins ''---'' (m # t) \<longleftrightarrow> m = CHR ''-''"
  using assms begins_prefix [of "''++''" "'' ''" t] begins_prefix [of "''--''" "'' ''" t]
  by (auto simp: line_ok_def)

lemma read_range_back:
  assumes "rest \<noteq> []" "\<not> is_digit (hd rest)" "hd rest \<noteq> CHR '',''"
  shows "read_range (print_range a b @ rest) = Some ((a, b), rest)"
proof (cases "b = 1")
  case True
  have "after '','' rest = None" using assms by (cases rest) (simp_all add: after_def begins_def)
  then show ?thesis using True assms by (simp add: read_range_def print_range_def read_show_nat)
next
  case False
  have comma: "read_number (show_nat a @ '','' @ show_nat b @ rest) = Some (a, '','' @ show_nat b @ rest)"
    by (rule read_show_nat) (simp add: is_digit_def)
  have "read_number (show_nat b @ rest) = Some (b, rest)" using assms by (simp add: read_show_nat)
  then show ?thesis using False comma
    by (simp add: read_range_def print_range_def after_def begins_def)
qed

lemma header_back: "parseHunkHeader (print_header h) = Some (dh_header h)"
proof -
  let ?h = "dh_header h" and ?tail = "'' @@'' @ dh_section h"
  have new: "read_range (print_range (hh_newStart ?h) (hh_newLines ?h) @ ?tail) =
      Some ((hh_newStart ?h, hh_newLines ?h), ?tail)"
    by (rule read_range_back) (simp_all add: is_digit_def)
  have old: "read_range (print_range (hh_oldStart ?h) (hh_oldLines ?h) @ '' +'' @
        print_range (hh_newStart ?h) (hh_newLines ?h) @ ?tail) =
      Some ((hh_oldStart ?h, hh_oldLines ?h), '' +'' @ print_range (hh_newStart ?h) (hh_newLines ?h) @ ?tail)"
    by (rule read_range_back) (simp_all add: is_digit_def)
  show ?thesis
    unfolding parseHunkHeader_def print_header_def Let_def after_append option.case old prod.case new
    by (simp add: begins_def)
qed

lemma parse_lines_append: "parse_lines i (xs @ ys) s = parse_lines (i + length xs) ys (parse_lines i xs s)"
  by (induction xs arbitrary: i s) simp_all

text \<open>The lines of a hunk.\<close>

lemma parse_hunk_lines:
  assumes "list_all line_ok ls" and "ds_header s \<noteq> None"
  shows "parse_lines i (map (\<lambda>(m, t). m # t) ls) s = s\<lparr>ds_body := ds_body s @ map (\<lambda>(m, t). m # t) ls,
     ds_additions := ds_additions s + length (filter (\<lambda>(m, t). m = CHR ''+'') ls),
     ds_deletions := ds_deletions s + length (filter (\<lambda>(m, t). m = CHR ''-'') ls)\<rparr>"
  using assms
proof (induction ls arbitrary: i s)
  case (Cons l ls)
  obtain m t where l: "l = (m, t)" by (cases l)
  then have ok: "line_ok (m, t)" using Cons.prems by simp
  have "parse_line i (m # t) s = body_line (m # t) s"
    using Cons.prems(2) by (simp only: parse_line_def line_ok_plain [OF ok] simp_thms if_True if_False)
  moreover have "body_line (m # t) s = s\<lparr>ds_body := ds_body s @ [m # t],
     ds_additions := ds_additions s + (if m = CHR ''+'' then 1 else 0),
     ds_deletions := ds_deletions s + (if m = CHR ''-'' then 1 else 0)\<rparr>"
    by (simp only: body_line_def line_ok_plain [OF ok])
  ultimately show ?case using Cons.IH [of "body_line (m # t) s" "i + 1"] Cons.prems by (simp add: l)
qed simp

lemma flush_simps [simp]:
  "ds_file (flush s) = ds_file s" "ds_new (flush s) = ds_new s" "ds_deleted (flush s) = ds_deleted s"
  "ds_binary (flush s) = ds_binary s" "ds_files (flush s) = ds_files s" "ds_error (flush s) = ds_error s"
  "ds_headerLines (flush s) = ds_headerLines s" "ds_header (flush s) = ds_header s"
  by (simp_all add: flush_def split: option.split)

lemma flush_pending:
  "ds_header s = Some h \<Longrightarrow> truthy (ds_file s) \<Longrightarrow> flush s = s\<lparr>ds_hunks := finalizeHunk (ds_hunks s) (the (ds_file s)) h
     (ds_body s) (ds_additions s) (ds_deletions s) (ds_new s) (ds_deleted s) (ds_binary s)\<rparr>"
  by (simp add: flush_def)

lemma flush_none: "ds_header s = None \<Longrightarrow> flush s = s"
  by (simp add: flush_def)

text \<open>A state inside the hunks of a file: its path and flags are known.\<close>

definition within_file :: "file_diff \<Rightarrow> diff_state \<Rightarrow> bool" where
  "within_file f s \<longleftrightarrow> ds_file s = Some (fd_path f) \<and> ds_new s = (fd_kind f = Added) \<and>
     ds_deleted s = (fd_kind f = Deleted) \<and> \<not> ds_binary s"

lemma print_header_begins: "begins ''@@'' (print_header h)" "\<not> begins ''diff --'' (print_header h)"
  "\<not> begins ''--- '' (print_header h)" "\<not> begins ''+++ '' (print_header h)"
  by (simp_all add: print_header_def Let_def)

lemma parse_hunk:
  fixes i :: nat
  assumes "within_file f s" and "path_ok (fd_path f)" and "list_all line_ok (dh_lines h)"
  defines "t \<equiv> parse_lines i (print_hunk h) s"
  shows "within_file f t \<and> ds_hunks (flush t) = push_hunk (fd_path f) (hunk_of f h) (ds_hunks (flush s)) \<and>
    ds_files t = ds_files s \<and> ds_error t = ds_error s"
proof -
  let ?s = "(flush s)\<lparr>ds_header := Some (dh_header h), ds_body := [print_header h], ds_additions := 0, ds_deletions := 0\<rparr>"
  have "parse_line i (print_header h) s = ?s"
    by (simp add: parse_line_def print_header_begins hunk_line_def header_back)
  then have t: "t = ?s\<lparr>ds_body := print_hunk h, ds_additions := marked CHR ''+'' h, ds_deletions := marked CHR ''-'' h\<rparr>"
    using parse_hunk_lines [OF assms(3), of ?s "i + 1"] by (simp add: t_def print_hunk_def marked_def)
  have "truthy (Some (fd_path f))" using assms(2) by (simp add: path_ok_def)
  then show ?thesis
    using assms(1) by (simp add: t within_file_def flush_pending finalizeHunk_def hunk_of_def)
qed

lemma parse_hunks:
  assumes "within_file f s" and "path_ok (fd_path f)" and "list_all (\<lambda>h. list_all line_ok (dh_lines h)) hs"
  shows "within_file f (parse_lines i (concat (map print_hunk hs)) s) \<and>
    ds_hunks (flush (parse_lines i (concat (map print_hunk hs)) s)) =
      fold (push_hunk (fd_path f)) (map (hunk_of f) hs) (ds_hunks (flush s)) \<and>
    ds_files (parse_lines i (concat (map print_hunk hs)) s) = ds_files s \<and>
    ds_error (parse_lines i (concat (map print_hunk hs)) s) = ds_error s"
  using assms(1,3)
proof (induction hs arbitrary: i s)
  case (Cons h hs)
  let ?t = "parse_lines i (print_hunk h) s"
  have "within_file f ?t" "ds_hunks (flush ?t) = push_hunk (fd_path f) (hunk_of f h) (ds_hunks (flush s))"
    "ds_files ?t = ds_files s" "ds_error ?t = ds_error s"
    using parse_hunk [OF Cons.prems(1) assms(2), of h i] Cons.prems(2) by auto
  then show ?case
    using Cons.IH [of ?t "i + length (print_hunk h)"] Cons.prems(2) by (simp add: parse_lines_append)
qed simp

lemma push_same: "f \<notin> fst ` set m \<Longrightarrow> push_hunk f h (m @ [(f, hs)]) = m @ [(f, hs @ [h])]"
  by (induction m) auto

lemma push_new: "f \<notin> fst ` set m \<Longrightarrow> push_hunk f h m = m @ [(f, [h])]"
  by (induction m) auto

lemma push_all:
  assumes "f \<notin> fst ` set m"
  shows "fold (push_hunk f) hs (m @ [(f, gs)]) = m @ [(f, gs @ hs)]"
  using assms by (induction hs arbitrary: gs) (simp_all add: push_same)

lemma push_hunks: "f \<notin> fst ` set m \<Longrightarrow> hs \<noteq> [] \<Longrightarrow> fold (push_hunk f) hs m = m @ [(f, hs)]"
  by (cases hs) (simp_all add: push_new push_all)

text \<open>The lines before the hunks.\<close>

lemma parse_extra:
  assumes "list_all extra_ok ls" and "ds_header s = None"
  shows "parse_lines i ls s = s"
  using assms by (induction ls arbitrary: i) (simp_all add: parse_line_def extra_ok_def)

lemma trim_path:
  assumes "path_ok p" and "\<not> js_space c"
  shows "js_trim (c # d # p) = c # d # p"
proof -
  obtain q x where p: "p = q @ [x]" using assms(1) by (cases p rule: rev_cases) (auto simp: path_ok_def)
  then show ?thesis using assms by (simp add: js_trim_def path_ok_def)
qed

lemma header_path_back:
  assumes "path_ok p"
  shows "header_path ''a/'' (''a/'' @ p) = Some p" "header_path ''b/'' (''b/'' @ p) = Some p"
    "header_path side ''/dev/null'' = None"
proof -
  have "\<not> js_space (CHR ''a'')" "\<not> js_space (CHR ''b'')" by (simp_all add: js_space_def)
  then show "header_path ''a/'' (''a/'' @ p) = Some p" "header_path ''b/'' (''b/'' @ p) = Some p"
    using assms by (simp_all add: header_path_def trim_path unquotePath_def after_def)
  have "js_trim ''/dev/null'' = ''/dev/null''" by (simp add: js_trim_def js_space_def)
  then show "header_path side ''/dev/null'' = None" by (simp add: header_path_def)
qed

lemma old_new_paths:
  assumes "path_ok (fd_path f)"
  shows "parseOldNewPaths [old_line f] (None, None) = (if fd_kind f = Added then None else Some (fd_path f), None)"
    "parseOldNewPaths [''diff --git a/'' @ x, old_line f, new_line f] (None, None) =
      (if fd_kind f = Added then None else Some (fd_path f), if fd_kind f = Deleted then None else Some (fd_path f))"
  using assms header_path_back [OF assms]
  by (simp_all add: old_line_def new_line_def after_def)

lemma new_path_line_keeps [simp]:
  "ds_hunks (new_path_line l s) = ds_hunks s" "ds_header (new_path_line l s) = ds_header s"
  "ds_files (new_path_line l s) = ds_files s" "ds_error (new_path_line l s) = ds_error s"
  "ds_binary (new_path_line l s) = ds_binary s"
  by (simp_all add: new_path_line_def Let_def split: prod.split)

lemma new_path_line_sets:
  assumes "parseOldNewPaths (ds_headerLines s @ [l]) (None, None) = (old, new)"
  shows "ds_file (new_path_line l s) = (if truthy new then new else ds_file s)"
    "ds_new (new_path_line l s) = (old = None \<and> new \<noteq> None \<or> ds_new s)"
    "ds_deleted (new_path_line l s) = (old \<noteq> None \<and> new = None \<or> ds_deleted s)"
  using assms by (simp_all add: new_path_line_def Let_def)

lemma parse_file_header:
  fixes i :: nat and s :: diff_state
  assumes "path_ok (fd_path f)" and "list_all extra_ok (fd_extra f)"
  defines "t \<equiv> parse_lines i ([''diff --git a/'' @ fd_path f @ '' b/'' @ fd_path f] @ fd_extra f @ [old_line f, new_line f]) s"
  shows "within_file f t \<and> ds_hunks (flush t) = ds_hunks (flush s) \<and> ds_files t = ds_files s \<and> ds_error t = ds_error s"
proof -
  let ?d = "''diff --git a/'' @ fd_path f @ '' b/'' @ fd_path f"
  define s1 where "s1 = parse_line i ?d s"
  have d: "begins ''diff --'' ?d" "begins ''diff --git'' ?d" by simp_all
  have s1: "ds_header s1 = None" "ds_headerLines s1 = [?d]" "ds_hunks s1 = ds_hunks (flush s)"
    "ds_files s1 = ds_files s" "ds_error s1 = ds_error s"
    unfolding s1_def parse_line_def file_line_def Let_def by (simp_all only: d) simp_all
  define s2 where "s2 = parse_line (i + 1 + length (fd_extra f)) (old_line f) s1"
  have o: "begins ''--- '' (old_line f)" "\<not> begins ''diff --git'' (old_line f)" by (simp_all add: old_line_def)
  have s2: "ds_header s2 = None" "ds_headerLines s2 = [?d, old_line f]" "ds_hunks s2 = ds_hunks (flush s)"
    "ds_files s2 = ds_files s" "ds_error s2 = ds_error s" "\<not> ds_new s2" "\<not> ds_deleted s2" "\<not> ds_binary s2"
    "fd_kind f \<noteq> Added \<longrightarrow> ds_file s2 = Some (fd_path f)"
    using s1 unfolding s2_def parse_line_def file_line_def Let_def old_new_paths [OF assms(1)]
    by (auto simp: o flush_def split: option.split)
  have n: "begins ''+++ '' (new_line f)" "\<not> begins ''diff --'' (new_line f)" "\<not> begins ''--- '' (new_line f)"
    by (simp_all add: new_line_def)
  have t: "t = parse_line (i + 2 + length (fd_extra f)) (new_line f) s2"
    using s1(1) parse_extra [OF assms(2), of s1] by (simp add: t_def parse_lines_append s1_def s2_def add.assoc)
  have paths: "parseOldNewPaths (ds_headerLines s2 @ [new_line f]) (None, None) =
      (if fd_kind f = Added then None else Some (fd_path f), if fd_kind f = Deleted then None else Some (fd_path f))"
    using old_new_paths(2) [OF assms(1), of "fd_path f @ '' b/'' @ fd_path f"] by (simp add: s2(2))
  have "t = new_path_line (new_line f) s2" by (simp add: t parse_line_def n)
  moreover have "within_file f (new_path_line (new_line f) s2)"
    using s2(6-9) assms(1) unfolding within_file_def new_path_line_sets [OF paths]
    by (cases "fd_kind f") (auto simp: path_ok_def)
  ultimately show ?thesis using s2 by (simp add: flush_none)
qed

lemma parse_file:
  fixes i :: nat and s :: diff_state
  assumes "file_ok f" and "fd_path f \<notin> fst ` set (ds_hunks (flush s))"
  defines "t \<equiv> parse_lines i (print_file f) s"
  shows "ds_hunks (flush t) = ds_hunks (flush s) @ [(fd_path f, map (hunk_of f) (fd_hunks f))] \<and>
    ds_files t = ds_files s \<and> ds_error t = ds_error s"
proof -
  let ?head = "[''diff --git a/'' @ fd_path f @ '' b/'' @ fd_path f] @ fd_extra f @ [old_line f, new_line f]"
  let ?u = "parse_lines i ?head s"
  have ok: "path_ok (fd_path f)" "list_all extra_ok (fd_extra f)" "fd_hunks f \<noteq> []"
    "list_all (\<lambda>h. list_all line_ok (dh_lines h)) (fd_hunks f)"
    using assms(1) by (auto simp: file_ok_def list_all_iff)
  have u: "within_file f ?u" "ds_hunks (flush ?u) = ds_hunks (flush s)" "ds_files ?u = ds_files s" "ds_error ?u = ds_error s"
    using parse_file_header [OF ok(1,2), of i s] by blast+
  have "print_file f = ?head @ concat (map print_hunk (fd_hunks f))" by (simp add: print_file_def)
  then have "t = parse_lines (i + length ?head) (concat (map print_hunk (fd_hunks f))) ?u"
    unfolding t_def by (simp only: parse_lines_append)
  then show ?thesis
    using parse_hunks [OF u(1) ok(1) ok(4), of "i + length ?head"] u(2-4) assms(2) ok(3) by (simp add: push_hunks)
qed

lemma parse_files:
  assumes "list_all file_ok fs" and "distinct (map fd_path fs)"
    and "fd_path ` set fs \<inter> fst ` set (ds_hunks (flush s)) = {}"
  shows "ds_hunks (flush (parse_lines i (concat (map print_file fs)) s)) =
      ds_hunks (flush s) @ map (\<lambda>f. (fd_path f, map (hunk_of f) (fd_hunks f))) fs \<and>
    ds_files (parse_lines i (concat (map print_file fs)) s) = ds_files s \<and>
    ds_error (parse_lines i (concat (map print_file fs)) s) = ds_error s"
  using assms
proof (induction fs arbitrary: i s)
  case (Cons f fs)
  let ?t = "parse_lines i (print_file f) s"
  have t: "ds_hunks (flush ?t) = ds_hunks (flush s) @ [(fd_path f, map (hunk_of f) (fd_hunks f))]"
    "ds_files ?t = ds_files s" "ds_error ?t = ds_error s"
    using parse_file [of f s i] Cons.prems by auto
  have "fd_path ` set fs \<inter> fst ` set (ds_hunks (flush ?t)) = {}" using Cons.prems by (auto simp: t)
  then show ?case
    using Cons.IH [of ?t "i + length (print_file f)"] Cons.prems t by (simp add: parse_lines_append)
qed simp

text \<open>No printed line contains a line break.\<close>

lemma show_nat_no_break: "CHR 0x0A \<notin> set (show_nat n)"
  using show_nat_digits(1) [of n] by (auto simp: list_all_iff is_digit_def)

lemma header_no_break: "CHR 0x0A \<notin> set (dh_section h) \<Longrightarrow> CHR 0x0A \<notin> set (print_header h)"
  by (simp add: print_header_def print_range_def show_nat_no_break Let_def)

lemma paths_no_break: "path_ok (fd_path f) \<Longrightarrow> CHR 0x0A \<notin> set (old_line f) \<and> CHR 0x0A \<notin> set (new_line f)"
  by (cases "fd_kind f") (simp_all add: old_line_def new_line_def path_ok_def)

lemma line_no_break: "line_ok (m, t) \<Longrightarrow> CHR 0x0A \<notin> set (m # t)"
  by (auto simp: line_ok_def)

lemma print_file_lines:
  assumes "file_ok f" and "l \<in> set (print_file f)"
  shows "CHR 0x0A \<notin> set l"
proof -
  have path: "path_ok (fd_path f)" using assms(1) by (simp add: file_ok_def)
  then have "CHR 0x0A \<notin> set (''diff --git a/'' @ fd_path f @ '' b/'' @ fd_path f)" by (simp add: path_ok_def)
  moreover have "CHR 0x0A \<notin> set x" if "x \<in> set (fd_extra f)" for x
    using assms(1) that by (simp add: file_ok_def list_all_iff extra_ok_def)
  moreover have "CHR 0x0A \<notin> set x" if "h \<in> set (fd_hunks f)" "x \<in> set (print_hunk h)" for h x
  proof -
    have "CHR 0x0A \<notin> set (dh_section h)" "\<forall>p \<in> set (dh_lines h). line_ok p"
      using assms(1) that(1) by (auto simp: file_ok_def list_all_iff)
    then show ?thesis using that(2) line_no_break header_no_break by (fastforce simp: print_hunk_def)
  qed
  ultimately show ?thesis using assms(2) paths_no_break [OF path] unfolding print_file_def by auto
qed


section \<open>A removed line that cuts its hunk\<close>

text \<open>
  A removed line whose text begins with two dashes and a space, a comment of SQL or Lua say, is
  taken for the header of a file: the hunk ends before it, and it and all lines after it in the
  hunk appear nowhere.
\<close>

theorem removed_comment_cuts_hunk:
  assumes "ds_header s \<noteq> None" and "list_all line_ok rest" and "\<forall>(m, l) \<in> set rest. \<not> has_infix ''Binary files'' (m # l)"
  shows "ds_hunks (flush (parse_lines i ((''-'' @ ''-- '' @ comment) # map (\<lambda>(m, t). m # t) rest) s)) = ds_hunks (flush s)"
proof -
  let ?s = "file_line (''-'' @ ''-- '' @ comment) s"
  have cut: "parse_line i (''-'' @ ''-- '' @ comment) s = ?s" by (simp add: parse_line_def)
  have hunks: "ds_hunks ?s = ds_hunks (flush s)" "ds_header ?s = None"
    by (simp_all add: file_line_def Let_def split: prod.split option.split)
  have skip: "parse_lines j (map (\<lambda>(m, t). m # t) rest) ?s = ?s" for j
    using assms(2,3)
  proof (induction rest arbitrary: j)
    case (Cons l rest)
    obtain m t where l: "l = (m, t)" by (cases l)
    then have ok: "line_ok (m, t)" using Cons.prems(1) by simp
    have "\<not> has_infix ''Binary files'' (m # t)" using Cons.prems(2) l by simp
    then have "parse_line j (m # t) ?s = ?s"
      by (simp only: parse_line_def line_ok_plain [OF ok] hunks(2) simp_thms if_False)
    then show ?case using Cons l by simp
  qed simp
  show ?thesis unfolding parse_lines.simps cut skip flush_none [OF hunks(2)] by (rule hunks(1))
qed

section \<open>Witnesses\<close>

definition sample_hunk :: "(char \<times> string) list \<Rightarrow> diff_hunk" where
  "sample_hunk ls = \<lparr>dh_header = \<lparr>hh_oldStart = 1, hh_oldLines = 2, hh_newStart = 1, hh_newLines = 1\<rparr>,
     dh_section = '' main()'', dh_lines = ls\<rparr>"

definition sample_files :: "file_diff list" where
  "sample_files = [\<lparr>fd_path = ''src/a.ts'', fd_kind = Modified, fd_extra = [''index 12..34 100644''],
       fd_hunks = [sample_hunk [(CHR '' '', ''x''), (CHR ''-'', ''y''), (CHR ''+'', ''z'')], sample_hunk []]\<rparr>,
     \<lparr>fd_path = ''b'', fd_kind = Added, fd_extra = [], fd_hunks = [sample_hunk [(CHR ''+'', ''x'')]]\<rparr>]"


theorem removed_comment_cuts_hunk_witness:
  "ds_hunks (flush (parse_lines 7 ((''-'' @ ''-- '' @ ''old'') # map (\<lambda>(m, t). m # t) [(CHR ''+'', ''select 1'')])
     (empty_state\<lparr>ds_file := Some ''q.sql'', ds_header := Some (dh_header (sample_hunk []))\<rparr>))) =
   ds_hunks (flush (empty_state\<lparr>ds_file := Some ''q.sql'', ds_header := Some (dh_header (sample_hunk []))\<rparr>))"
  by (rule removed_comment_cuts_hunk) (simp, code_simp, code_simp)

end
