(* ===== verification/Comment_Batcher.thy ===== *)
theory Comment_Batcher
  imports Unified_Diff Domain_Review
begin

text \<open>
  Batches of review comments, \<^verbatim>\<open>packages/application/src/pr-review/comment-batcher.ts\<close>: comments in
  one hunk of the diff go together, the others of a file in groups of five. Lemmas: every comment
  is in exactly one batch, and how large a batch can be.
\<close>

record comment_batch =
  cb_path :: string
  cb_key :: string
  cb_ids :: "int list"
  cb_priority :: nat

definition MAX_BATCH_SIZE :: nat where
  "MAX_BATCH_SIZE = 5"

text \<open>\<open>replace(/^\.\//, '').replace(/\/$/, '')\<close>.\<close>

definition normalizePath :: "string \<Rightarrow> string" where
  "normalizePath path = (let p = (case after ''./'' path of None \<Rightarrow> path | Some q \<Rightarrow> q)
     in if p \<noteq> [] \<and> last p = CHR ''/'' then butlast p else p)"

definition buildLocalityKey :: "string \<Rightarrow> string option \<Rightarrow> int \<Rightarrow> string" where
  "buildLocalityKey path identity i =
     (if truthy identity then ''hunk:'' @ the identity @ '':'' @ show_int i
      else ''file:'' @ normalizePath path @ '':'' @ show_int i)"

definition groupKeyForPath :: "string \<Rightarrow> int \<Rightarrow> string" where
  "groupKeyForPath path i = ''file:'' @ normalizePath path @ '':'' @ show_int i"

definition getParsedDiff :: "string option \<Rightarrow> parsed_diff option \<Rightarrow> parsed_diff option" where
  "getParsedDiff diff parsed = (case parsed of Some d \<Rightarrow> Some d | None \<Rightarrow> map_option parseUnifiedDiff diff)"

definition hunk_identity :: "hunk_map \<Rightarrow> pr_comment \<Rightarrow> string option" where
  "hunk_identity hunks c = map_option ph_identity (findHunkForLine hunks (normalizePath (c_path c)) (c_line c))"

definition locality :: "hunk_map \<Rightarrow> pr_comment \<Rightarrow> string" where
  "locality hunks c = (let p = normalizePath (c_path c)
     in if truthy (hunk_identity hunks c) then p @ ''::'' @ the (hunk_identity hunks c) else p)"

text \<open>\<open>byLocality\<close>: the comments by their locality, in insertion order.\<close>

fun add_local :: "string \<Rightarrow> pr_comment \<Rightarrow> (string \<times> pr_comment list) list \<Rightarrow> (string \<times> pr_comment list) list" where
  "add_local k c [] = [(k, [c])]"
| "add_local k c ((l, cs) # m) = (if l = k then (l, cs @ [c]) # m else (l, cs) # add_local k c m)"

definition by_locality :: "hunk_map \<Rightarrow> pr_comment list \<Rightarrow> (string \<times> pr_comment list) list" where
  "by_locality hunks cs = fold (\<lambda>c. add_local (locality hunks c) c) cs []"

text \<open>\<open>slice(i, i + MAX_BATCH_SIZE)\<close> for \<open>i = 0, MAX_BATCH_SIZE, ...\<close>\<close>

function chunks :: "nat \<Rightarrow> 'a list \<Rightarrow> 'a list list" where
  "chunks n xs = (if xs = [] \<or> n = 0 then [] else take n xs # chunks n (drop n xs))"
  by auto
termination by (relation "measure (\<lambda>(n, xs). length xs)") auto

declare chunks.simps [simp del]

definition batch_of :: "hunk_map \<Rightarrow> nat \<Rightarrow> pr_comment \<Rightarrow> pr_comment list \<Rightarrow> comment_batch" where
  "batch_of hunks priority first cs = (let p = normalizePath (c_path first) in
     \<lparr>cb_path = p, cb_key = buildLocalityKey p (hunk_identity hunks first) (c_commentId (hd cs)),
      cb_ids = map c_commentId cs, cb_priority = priority\<rparr>)"

definition groups_of :: "hunk_map \<Rightarrow> pr_comment list \<Rightarrow> pr_comment list list" where
  "groups_of hunks cs = (if truthy (hunk_identity hunks (hd cs)) then [cs] else chunks MAX_BATCH_SIZE cs)"

text \<open>The groups of every locality, each with the first comment of its locality.\<close>

definition pieces :: "hunk_map \<Rightarrow> (string \<times> pr_comment list) list \<Rightarrow> (pr_comment \<times> pr_comment list) list" where
  "pieces hunks m = concat (map (\<lambda>(_, local). map (\<lambda>g. (hd local, g)) (groups_of hunks local)) m)"

definition groupCommentsIntoBatches ::
  "pr_comment list \<Rightarrow> string option \<Rightarrow> parsed_diff option \<Rightarrow> comment_batch list" where
  "groupCommentsIntoBatches cs diff parsed =
     (let hunks = (case getParsedDiff diff parsed of None \<Rightarrow> [] | Some d \<Rightarrow> pd_hunks d)
      in map (\<lambda>(n, first, g). batch_of hunks (n + 1) first g) (enumerate 0 (pieces hunks (by_locality hunks cs))))"

section \<open>Each comment is in one batch\<close>

lemma chunks_concat: "0 < n \<Longrightarrow> concat (chunks n xs) = xs"
  by (induction n xs rule: chunks.induct) (subst chunks.simps, auto)

lemma chunks_sizes: "g \<in> set (chunks n xs) \<Longrightarrow> g \<noteq> [] \<and> length g \<le> n"
proof (induction n xs rule: chunks.induct)
  case (1 n xs)
  then show ?case by (subst (asm) (2) chunks.simps) (auto split: if_splits)
qed

lemma add_local_mset: "mset (concat (map snd (add_local k c m))) = add_mset c (mset (concat (map snd m)))"
  by (induction k c m rule: add_local.induct) auto

lemma add_local_nonempty: "\<forall>p \<in> set m. snd p \<noteq> [] \<Longrightarrow> \<forall>p \<in> set (add_local k c m). snd p \<noteq> []"
  by (induction k c m rule: add_local.induct) auto

lemma fold_local_mset:
  "mset (concat (map snd (fold (\<lambda>c. add_local (f c) c) cs m))) = mset cs + mset (concat (map snd m))"
  by (induction cs arbitrary: m) (simp_all add: add_local_mset del: mset_concat)

lemma fold_local_nonempty:
  "\<forall>p \<in> set m. snd p \<noteq> [] \<Longrightarrow> \<forall>p \<in> set (fold (\<lambda>c. add_local (f c) c) cs m). snd p \<noteq> []"
proof (induction cs arbitrary: m)
  case (Cons c cs)
  show ?case using Cons.IH [OF add_local_nonempty [OF Cons.prems]] by simp
qed simp

lemma groups_concat: "concat (groups_of hunks cs) = cs"
  by (simp add: groups_of_def chunks_concat MAX_BATCH_SIZE_def)

lemma groups_sizes:
  "g \<in> set (groups_of hunks cs) \<Longrightarrow> cs \<noteq> [] \<Longrightarrow> g \<noteq> [] \<and>
     (length g \<le> MAX_BATCH_SIZE \<or> truthy (hunk_identity hunks (hd cs)))"
  by (auto simp: groups_of_def dest: chunks_sizes split: if_splits)

lemma pieces_concat: "concat (map snd (pieces hunks m)) = concat (map snd m)"
  by (induction m) (auto simp: pieces_def comp_def groups_concat)

lemma pieces_sizes:
  "(first, g) \<in> set (pieces hunks m) \<Longrightarrow> \<forall>p \<in> set m. snd p \<noteq> [] \<Longrightarrow>
   g \<noteq> [] \<and> (length g \<le> MAX_BATCH_SIZE \<or> truthy (hunk_identity hunks first))"
  by (fastforce simp: pieces_def dest: groups_sizes)

text \<open>
  C13. The batches partition the comments: each comment is in exactly one batch, no batch is empty, and
  one with more than five comments has the key of a hunk.
\<close>

theorem batches_partition:
  "mset (concat (map cb_ids (groupCommentsIntoBatches cs diff parsed))) = mset (map c_commentId cs) \<and>
   list_all (\<lambda>b. cb_ids b \<noteq> [] \<and> (length (cb_ids b) \<le> 5 \<or> begins ''hunk:'' (cb_key b)))
     (groupCommentsIntoBatches cs diff parsed)"
proof -
  define hunks where "hunks = (case getParsedDiff diff parsed of None \<Rightarrow> [] | Some d \<Rightarrow> pd_hunks d)"
  let ?local = "by_locality hunks cs" and ?batches = "groupCommentsIntoBatches cs diff parsed"
  have batches: "?batches = map (\<lambda>(n, first, g). batch_of hunks (n + 1) first g) (enumerate 0 (pieces hunks ?local))"
    unfolding groupCommentsIntoBatches_def hunks_def Let_def ..
  have ids: "map cb_ids ?batches = map (map c_commentId) (map snd (pieces hunks ?local))"
    unfolding batches by (rule nth_equalityI) (auto simp: batch_of_def Let_def nth_enumerate_eq split: prod.splits)
  have all: "mset (concat (map snd ?local)) = mset cs" "\<forall>p \<in> set ?local. snd p \<noteq> []"
    using fold_local_mset [of "locality hunks" cs "[]"] fold_local_nonempty [of "[]" "locality hunks" cs]
    by (simp_all add: by_locality_def)
  have "concat (map cb_ids ?batches) = map c_commentId (concat (map snd ?local))"
    unfolding ids map_concat [symmetric] pieces_concat ..
  then have "mset (concat (map cb_ids ?batches)) = mset (map c_commentId cs)"
    using all(1) by (metis mset_map)
  moreover have "cb_ids b \<noteq> [] \<and> (length (cb_ids b) \<le> 5 \<or> begins ''hunk:'' (cb_key b))" if batch: "b \<in> set ?batches" for b
  proof -
    obtain x where x: "x \<in> set (enumerate 0 (pieces hunks ?local))" "b = (\<lambda>(n, first, g). batch_of hunks (n + 1) first g) x"
      using batch unfolding batches set_map by blast
    moreover obtain n first g where "x = (n, first, g)" by (cases x)
    ultimately have b: "b = batch_of hunks (n + 1) first g" "(n, first, g) \<in> set (enumerate 0 (pieces hunks ?local))"
      by simp_all
    then have "(first, g) \<in> set (pieces hunks ?local)" by (auto simp: in_set_enumerate_eq) (metis nth_mem)
    then show ?thesis
      using pieces_sizes [OF _ all(2)] b(1) by (auto simp: batch_of_def Let_def MAX_BATCH_SIZE_def buildLocalityKey_def)
  qed
  ultimately show ?thesis by (simp add: list_all_iff)
qed

end
