(* ===== verification/Review_Store.thy ===== *)
theory Review_Store
  imports Domain_Review
begin

text \<open>
  The tables of the pull request review, \<^verbatim>\<open>infrastructure/src/sqlite/pr-review-repository.ts\<close>:
  comments with the key of run and comment, replies, polls and attempts as lists of rows in
  insertion order; every method is one statement and one atomic step. The mapping of rows to
  objects is the identity here, \<open>null\<close> is \<open>None\<close>. Lemmas: what a lookup finds after an upsert,
  and that the update of an attempt leaves its paths and its action as they were inserted.
\<close>

section \<open>Rows\<close>

datatype attempt_action = Act_review | Act_verify | Act_remediate

datatype attempt_disposition = Attempt_success | Attempt_failure | Attempt_skipped

record review_attempt =
  ra_id :: ident
  ra_runId :: ident
  ra_commentId :: int
  ra_retry :: nat
  ra_startHead :: string
  ra_completedHead :: "string option"
  ra_mode :: string
  ra_prompt :: string
  ra_result :: string
  ra_action :: attempt_action
  ra_verifier :: "string option"
  ra_build :: "string option"
  ra_disposition :: "attempt_disposition option"
  ra_createdAt :: time

record review_reply =
  rr_id :: ident
  rr_runId :: ident
  rr_prNumber :: int
  rr_commentId :: int
  rr_body :: string
  rr_postedAt :: time
  rr_verified :: bool

datatype poll_status = Poll_running | Poll_completed | Poll_failed | Poll_rate_limited

datatype poll_terminal = All_resolved | Max_polls_reached | Poll_blocked | Poll_timed_out | Poll_cancelled

record poll_attempt =
  pa_id :: ident
  pa_runId :: ident
  pa_prNumber :: int
  pa_pollNumber :: int
  pa_status :: poll_status
  pa_fetched :: nat
  pa_processed :: nat
  pa_startedAt :: time
  pa_completedAt :: "time option"
  pa_nextPollAt :: "time option"
  pa_terminal :: "poll_terminal option"

record review_db =
  vb_comments :: "pr_comment list"
  vb_replies :: "review_reply list"
  vb_polls :: "poll_attempt list"
  vb_attempts :: "review_attempt list"

section \<open>Statements\<close>

definition same_key :: "ident \<Rightarrow> int \<Rightarrow> pr_comment \<Rightarrow> bool" where
  "same_key run i c \<longleftrightarrow> c_runId c = run \<and> c_commentId c = i"

text \<open>\<open>ON CONFLICT (run_uuid, comment_id) DO UPDATE\<close> of every column but \<open>created_at\<close>.\<close>

definition upsertComment :: "pr_comment \<Rightarrow> review_db \<Rightarrow> review_db" where
  "upsertComment c db =
     (if list_ex (same_key (c_runId c) (c_commentId c)) (vb_comments db)
      then db\<lparr>vb_comments := map (\<lambda>r. if same_key (c_runId c) (c_commentId c) r
        then c\<lparr>c_createdAt := c_createdAt r\<rparr> else r) (vb_comments db)\<rparr>
      else db\<lparr>vb_comments := vb_comments db @ [c]\<rparr>)"

definition getComment :: "review_db \<Rightarrow> ident \<Rightarrow> int \<Rightarrow> pr_comment option" where
  "getComment db run i = List.find (same_key run i) (vb_comments db)"

definition listComments :: "review_db \<Rightarrow> ident \<Rightarrow> pr_comment list" where
  "listComments db run = sort_by (\<lambda>a b. c_commentId a \<le> c_commentId b)
     (filter (\<lambda>c. c_runId c = run) (vb_comments db))"

definition insertReply :: "review_reply \<Rightarrow> review_db \<Rightarrow> review_db" where
  "insertReply r db = db\<lparr>vb_replies := vb_replies db @ [r]\<rparr>"

definition listReplies :: "review_db \<Rightarrow> ident \<Rightarrow> review_reply list" where
  "listReplies db run = sort_by (\<lambda>a b. rr_postedAt a \<le> rr_postedAt b)
     (filter (\<lambda>r. rr_runId r = run) (vb_replies db))"

definition insertPollAttempt :: "poll_attempt \<Rightarrow> review_db \<Rightarrow> review_db" where
  "insertPollAttempt p db = db\<lparr>vb_polls := vb_polls db @ [p]\<rparr>"

definition updatePollAttempt :: "poll_attempt \<Rightarrow> review_db \<Rightarrow> review_db" where
  "updatePollAttempt p db = db\<lparr>vb_polls := map (\<lambda>r. if pa_id r = pa_id p
     then r\<lparr>pa_status := pa_status p, pa_fetched := pa_fetched p, pa_processed := pa_processed p,
       pa_completedAt := pa_completedAt p, pa_nextPollAt := pa_nextPollAt p, pa_terminal := pa_terminal p\<rparr>
     else r) (vb_polls db)\<rparr>"

definition listPollAttempts :: "review_db \<Rightarrow> ident \<Rightarrow> poll_attempt list" where
  "listPollAttempts db run = sort_by (\<lambda>a b. pa_pollNumber a \<le> pa_pollNumber b)
     (filter (\<lambda>p. pa_runId p = run) (vb_polls db))"

definition latestPoll :: "review_db \<Rightarrow> ident \<Rightarrow> poll_attempt option" where
  "latestPoll db run = List.find (\<lambda>p. pa_runId p = run) (rev (vb_polls db))"

definition appendCommentAttempt :: "review_attempt \<Rightarrow> review_db \<Rightarrow> review_db" where
  "appendCommentAttempt a db = db\<lparr>vb_attempts := vb_attempts db @ [a]\<rparr>"

definition updateCommentAttempt :: "review_attempt \<Rightarrow> review_db \<Rightarrow> review_db" where
  "updateCommentAttempt a db = db\<lparr>vb_attempts := map (\<lambda>r. if ra_id r = ra_id a
     then r\<lparr>ra_completedHead := ra_completedHead a, ra_verifier := ra_verifier a,
       ra_build := ra_build a, ra_disposition := ra_disposition a\<rparr> else r) (vb_attempts db)\<rparr>"

definition listCommentAttempts :: "review_db \<Rightarrow> ident \<Rightarrow> int \<Rightarrow> review_attempt list" where
  "listCommentAttempts db run i =
     sort_by (\<lambda>a b. ra_retry a < ra_retry b \<or> ra_retry a = ra_retry b \<and> ra_createdAt a \<le> ra_createdAt b)
       (filter (\<lambda>a. ra_runId a = run \<and> ra_commentId a = i) (vb_attempts db))"

section \<open>Lookups\<close>

lemma getComment_key: "getComment db run i = Some c \<Longrightarrow> c_runId c = run \<and> c_commentId c = i \<and> c \<in> set (vb_comments db)"
  by (auto simp: getComment_def same_key_def dest!: find_SomeD)

lemma listComments_set: "c \<in> set (listComments db run) \<longleftrightarrow> c \<in> set (vb_comments db) \<and> c_runId c = run"
  by (auto simp: listComments_def)

lemma find_snoc: "List.find P (xs @ [x]) = (case List.find P xs of None \<Rightarrow> if P x then Some x else None | Some y \<Rightarrow> Some y)"
  by (induction xs) auto

lemma find_map_key:
  "(\<And>r. P r \<Longrightarrow> P (f r)) \<Longrightarrow> List.find P (map (\<lambda>r. if P r then f r else r) xs) = map_option f (List.find P xs)"
  by (induction xs) auto

lemma find_map_other:
  "(\<And>r. Q r \<Longrightarrow> \<not> P r \<and> \<not> P (f r)) \<Longrightarrow> List.find P (map (\<lambda>r. if Q r then f r else r) xs) = List.find P xs"
  by (induction xs) auto

text \<open>What is written is found, up to the date of creation, and nothing else changes.\<close>

lemma getComment_upsert:
  "getComment (upsertComment c db) run i =
     (if c_runId c = run \<and> c_commentId c = i
      then Some (case getComment db run i of None \<Rightarrow> c | Some r \<Rightarrow> c\<lparr>c_createdAt := c_createdAt r\<rparr>)
      else getComment db run i)"
proof (cases "c_runId c = run \<and> c_commentId c = i")
  case True
  have upd: "vb_comments (db\<lparr>vb_comments := x\<rparr>) = x" for x by simp
  from True have key: "same_key (c_runId c) (c_commentId c) = same_key run i" by simp
  have new: "List.find (same_key run i) (vb_comments db @ [c]) = Some c"
    if "\<not> list_ex (same_key run i) (vb_comments db)"
  proof -
    have "List.find (same_key run i) (vb_comments db) = None" using that by (simp add: find_None_iff list_ex_iff)
    then show ?thesis using True by (simp add: find_snoc same_key_def)
  qed
  have mapped: "List.find (same_key run i) (map (\<lambda>r. if same_key run i r then c\<lparr>c_createdAt := c_createdAt r\<rparr> else r) (vb_comments db)) =
      map_option (\<lambda>r. c\<lparr>c_createdAt := c_createdAt r\<rparr>) (List.find (same_key run i) (vb_comments db))"
    using True by (intro find_map_key) (simp add: same_key_def)
  show ?thesis
  proof (cases "list_ex (same_key run i) (vb_comments db)")
    case found: True
    then obtain r where r: "List.find (same_key run i) (vb_comments db) = Some r"
      using find_None_iff [of "same_key run i" "vb_comments db"] by (auto simp: list_ex_iff)
    have "getComment (upsertComment c db) run i = Some (c\<lparr>c_createdAt := c_createdAt r\<rparr>)"
      unfolding getComment_def upsertComment_def key using found
      by (simp only: if_True upd mapped r option.map)
    moreover have "getComment db run i = Some r" unfolding getComment_def by (rule r)
    ultimately show ?thesis using True by simp
  next
    case absent: False
    then have none: "List.find (same_key run i) (vb_comments db) = None" by (simp add: find_None_iff list_ex_iff)
    have "getComment (upsertComment c db) run i = Some c"
      unfolding getComment_def upsertComment_def key using absent
      by (simp only: if_False upd new [OF absent])
    moreover have "getComment db run i = None" unfolding getComment_def by (rule none)
    ultimately show ?thesis using True by simp
  qed
next
  case False
  then have other: "\<not> same_key run i c" by (simp add: same_key_def)
  have "List.find (same_key run i) (vb_comments db @ [c]) = List.find (same_key run i) (vb_comments db)"
    using other by (simp add: find_snoc split: option.split)
  moreover have "List.find (same_key run i) (map (\<lambda>r. if same_key (c_runId c) (c_commentId c) r
      then c\<lparr>c_createdAt := c_createdAt r\<rparr> else r) (vb_comments db)) = List.find (same_key run i) (vb_comments db)"
    using False by (intro find_map_other) (auto simp: same_key_def)
  ultimately show ?thesis using False by (simp only: getComment_def upsertComment_def if_False split: if_split) simp
qed

lemma upsertComment_rows:
  "r \<in> set (vb_comments (upsertComment c db)) \<Longrightarrow> r \<in> set (vb_comments db) \<or> (\<exists>t. r = c\<lparr>c_createdAt := t\<rparr>) \<or> r = c"
  by (auto simp: upsertComment_def split: if_splits)

end
