(* ===== verification/Review_Verify.thy ===== *)
theory Review_Verify
  imports Effects Review_Store
begin

text \<open>
  The verification of a fix, \<^verbatim>\<open>application/src/pr-review/verify-comment.ts\<close>, and of the result of
  a batch, \<^verbatim>\<open>application/src/results/schemas/poll-task-result.ts\<close>. The services (git, GitHub, the
  agents, the build) answer through \<open>pr_ports\<close> by the number of the call and may throw at each;
  \<open>rs_acts\<close> records in their order the calls that change the repository or the pull request, and
  \<open>rs_live\<close> holds the attempt objects of the call of the runner under way, which the code mutates.
  Lemmas: what a successful verification rests on, and which batch results are accepted.
\<close>

section \<open>State and ports\<close>

datatype review_exn = Review_comment comment_error | Review_threw string

datatype review_act =
    Agent_ran "int list" | Reset_hard string | Pushed | Rolled_back_to string
  | Reply_posted int | Thread_resolved int

record review_state =
  rs_db :: review_db
  rs_clock :: nat
  rs_acts :: "review_act list"
  rs_live :: "review_attempt list"

type_synonym 'a rv = "(review_state, review_exn, 'a) prog"

record gh_comment =
  gc_id :: int
  gc_path :: string
  gc_line :: "int option"
  gc_reviewer :: string
  gc_body :: string
  gc_inReplyTo :: "int option"
  gc_reviewId :: "int option"

record gh_review =
  gr_id :: int
  gr_approved :: bool

record gh_pr =
  gp_open :: bool
  gp_headRef :: string

record fix_inspection =
  in_touchesPath :: bool
  in_nearLine :: "bool option"
  in_reason :: string

datatype task_action = Task_fixed | Task_no_fix | Task_blocked

record task_result =
  tr_id :: int
  tr_action :: task_action
  tr_reply :: string
  tr_blockedReason :: "string option"

text \<open>\<open>None\<close> in \<open>in_nearLine\<close> is \<open>'skipped'\<close>; \<open>None\<close> from an extraction is \<open>ok: false\<close>.\<close>

record pr_ports =
  pp_now :: "nat \<Rightarrow> time"
  pp_id :: "nat \<Rightarrow> ident"
  pp_listComments :: "nat \<Rightarrow> string + gh_comment list"
  pp_listReviews :: "nat \<Rightarrow> string + gh_review list"
  pp_getPr :: "nat \<Rightarrow> string + gh_pr"
  pp_reply :: "nat \<Rightarrow> int \<Rightarrow> string \<Rightarrow> string + int"
  pp_resolveThread :: "nat \<Rightarrow> int \<Rightarrow> string + unit"
  pp_head :: "nat \<Rightarrow> string + string"
  pp_headOf :: "nat \<Rightarrow> string \<Rightarrow> string + string"
  pp_diff :: "nat \<Rightarrow> string \<Rightarrow> string + string"
  pp_remoteRef :: "nat \<Rightarrow> string \<Rightarrow> string + string option"
  pp_isAncestor :: "nat \<Rightarrow> string \<Rightarrow> string \<Rightarrow> string + bool"
  pp_logBetween :: "nat \<Rightarrow> string \<Rightarrow> string \<Rightarrow> string + string list"
  pp_resetHard :: "nat \<Rightarrow> string \<Rightarrow> string + unit"
  pp_clean :: "nat \<Rightarrow> string + unit"
  pp_push :: "nat \<Rightarrow> string + unit"
  pp_commitPushed :: "nat \<Rightarrow> string \<Rightarrow> string \<Rightarrow> string + bool"
  pp_build :: "nat \<Rightarrow> string + bool \<times> string option"
  pp_verifyCode :: "(nat \<Rightarrow> int \<Rightarrow> string \<Rightarrow> string \<Rightarrow> string + bool \<times> string) option"
  pp_inspect :: "(nat \<Rightarrow> int \<Rightarrow> string \<Rightarrow> string \<Rightarrow> string + fix_inspection) option"
  pp_render :: "nat \<Rightarrow> int \<Rightarrow> string + string"
  pp_renderBatch :: "(nat \<Rightarrow> int list \<Rightarrow> string + string) option"
  pp_profile :: "nat \<Rightarrow> string + unit"
  pp_agent :: "nat \<Rightarrow> int list \<Rightarrow> string + bool \<times> string option"
  pp_readArtifact :: "nat \<Rightarrow> string \<Rightarrow> string + string"
  pp_writeArtifact :: "nat \<Rightarrow> string \<Rightarrow> string + string"
  pp_extract :: "nat \<Rightarrow> string + task_result option"
  pp_extractBatch :: "(nat \<Rightarrow> string + task_result list option) option"
  pp_rollback :: "(nat \<Rightarrow> string \<Rightarrow> string + bool) option"
  pp_context :: "(nat \<Rightarrow> string \<Rightarrow> string + unit) option"

text \<open>A call that is recorded in \<open>rs_acts\<close> as \<open>what\<close> if it returns, and a plain one.\<close>

definition act :: "(nat \<Rightarrow> string + 'a) \<Rightarrow> review_act list \<Rightarrow> 'a rv" where
  "act f what s = (let s' = s\<lparr>rs_clock := rs_clock s + 1\<rparr> in case f (rs_clock s) of
       Inl e \<Rightarrow> (Inl (Review_threw e), s')
     | Inr x \<Rightarrow> (Inr x, s'\<lparr>rs_acts := rs_acts s @ what\<rparr>))"

definition ask_port :: "(nat \<Rightarrow> string + 'a) \<Rightarrow> 'a rv" where
  "ask_port f = act f []"

definition store :: "(review_db \<Rightarrow> review_db) \<Rightarrow> unit rv" where
  "store f = tell (\<lambda>s. s\<lparr>rs_db := f (rs_db s)\<rparr>)"

definition lookup :: "(review_db \<Rightarrow> 'a) \<Rightarrow> 'a rv" where
  "lookup f = ask (\<lambda>s. f (rs_db s))"

definition read_now :: "pr_ports \<Rightarrow> time rv" where
  "read_now ports = ask_port (\<lambda>n. Inr (pp_now ports n))"

definition new_id :: "pr_ports \<Rightarrow> ident rv" where
  "new_id ports = ask_port (\<lambda>n. Inr (pp_id ports n))"

text \<open>A transition of a comment on the object at hand, and the upsert of its result.\<close>

definition transition :: "pr_ports \<Rightarrow> (time \<Rightarrow> comment_error + pr_comment) \<Rightarrow> pr_comment rv" where
  "transition ports f = bnd (read_now ports) (\<lambda>now. case f now of
       Inl e \<Rightarrow> stop (Review_comment e)
     | Inr c \<Rightarrow> sq (store (upsertComment c)) (ret c))"

section \<open>Verification of a comment\<close>

record verification =
  vr_ok :: bool
  vr_reply :: bool
  vr_commit :: bool
  vr_build :: bool
  vr_code :: bool
  vr_reason :: string
  vr_buildError :: "string option"
  vr_codeReason :: "string option"

definition verifyReplyPosted :: "pr_ports \<Rightarrow> int \<Rightarrow> bool rv" where
  "verifyReplyPosted ports i = bnd (ask_port (pp_listComments ports)) (\<lambda>cs.
     ret (list_ex (\<lambda>c. gc_inReplyTo c = Some i) cs))"

record remote_fix =
  rf_commit :: bool
  rf_onRemote :: bool
  rf_newer :: bool
  rf_reason :: string

definition remote_reason :: "bool \<Rightarrow> bool \<Rightarrow> bool \<Rightarrow> string" where
  "remote_reason onRemote newer commit =
     (if \<not> onRemote then ''fix commit is not an ancestor of remote branch tip''
      else if \<not> newer then ''fix commit is not newer than start (logBetween empty)''
      else if \<not> commit then ''commit not pushed to remote'' else [])"

definition verifyRemoteFixCommit ::
  "pr_ports \<Rightarrow> string \<Rightarrow> string option \<Rightarrow> string option \<Rightarrow> remote_fix rv" where
  "verifyRemoteFixCommit ports branch start sha =
     (if \<not> truthy sha
      then ret \<lparr>rf_commit = False, rf_onRemote = False, rf_newer = False, rf_reason = ''commit not pushed to remote''\<rparr>
      else let fixed = the sha in
        bnd (if truthy start then ask_port (\<lambda>n. pp_commitPushed ports n (the start) fixed) else ret True) (\<lambda>commit.
        bnd (ask_port (\<lambda>n. pp_remoteRef ports n branch)) (\<lambda>remote.
        bnd (if truthy remote then ask_port (\<lambda>n. pp_isAncestor ports n fixed (the remote)) else ret False) (\<lambda>onRemote.
        bnd (if truthy start then bnd (ask_port (\<lambda>n. pp_logBetween ports n (the start) fixed)) (\<lambda>log. ret (log \<noteq> []))
             else ret True) (\<lambda>newer.
        ret \<lparr>rf_commit = commit, rf_onRemote = onRemote, rf_newer = newer,
             rf_reason = remote_reason onRemote newer commit\<rparr>)))))"

definition failed_reason :: "bool \<Rightarrow> remote_fix \<Rightarrow> bool \<Rightarrow> string" where
  "failed_reason reply remote build =
     (if \<not> reply then ''reply not found on GitHub''
      else if \<not> rf_onRemote remote then ''fix commit is not an ancestor of remote branch tip''
      else if \<not> rf_newer remote then ''fix commit is not newer than start (logBetween empty)''
      else if \<not> rf_commit remote then ''commit not pushed to remote''
      else if \<not> build then ''build did not pass'' else [])"

text \<open>The structural check of the diff: the verification it fails with, if it does.\<close>

definition inspect_fix ::
  "pr_ports \<Rightarrow> bool \<Rightarrow> pr_comment \<Rightarrow> string option \<Rightarrow> string option \<Rightarrow> verification \<Rightarrow> verification option rv" where
  "inspect_fix ports mechanical c original running v = (case pp_inspect ports of
       None \<Rightarrow> ret None
     | Some inspect \<Rightarrow>
         if \<not> (mechanical \<and> truthy (c_commitSha c) \<and> truthy original) then ret None
         else bnd (ask_port (\<lambda>n. inspect n (c_commentId c) (case running of None \<Rightarrow> [] | Some r \<Rightarrow> r) (the (c_commitSha c))))
           (\<lambda>i. let note = (if in_reason i \<noteq> [] then Some (in_reason i) else None)
             in if \<not> in_touchesPath i \<and> pp_verifyCode ports \<noteq> None then ret None
             else if \<not> in_touchesPath i then ret (Some (v\<lparr>vr_ok := False, vr_code := False,
               vr_reason := ''fix commit does not touch '' @ c_path c, vr_codeReason := note\<rparr>))
             else if in_nearLine i = Some False then ret (Some (v\<lparr>vr_ok := False, vr_code := False,
               vr_reason := ''code verification failed: '' @ in_reason i, vr_codeReason := note\<rparr>))
             else ret None))"

text \<open>The semantic verifier, asked only for a fix that is mechanically verified.\<close>

definition verify_code :: "pr_ports \<Rightarrow> bool \<Rightarrow> pr_comment \<Rightarrow> string option \<Rightarrow> verification \<Rightarrow> verification rv" where
  "verify_code ports mechanical c running v = (case pp_verifyCode ports of
       None \<Rightarrow> ret v
     | Some verify \<Rightarrow>
         if \<not> (mechanical \<and> truthy (c_commitSha c)) then ret v
         else bnd (ask_port (\<lambda>n. verify n (c_commentId c) (case running of None \<Rightarrow> [] | Some r \<Rightarrow> r) (the (c_commitSha c))))
           (\<lambda>(pass, reason). if pass then ret v
             else ret (v\<lparr>vr_ok := False, vr_code := False, vr_reason := ''code verification failed: '' @ reason,
               vr_codeReason := Some reason\<rparr>)))"

definition verify_fix ::
  "pr_ports \<Rightarrow> bool \<Rightarrow> string \<Rightarrow> pr_comment \<Rightarrow> string option \<Rightarrow> string option \<Rightarrow> bool \<Rightarrow> verification rv" where
  "verify_fix ports skip branch c original running reply =
     bnd (verifyRemoteFixCommit ports branch running (c_commitSha c)) (\<lambda>remote.
     bnd (if skip then ret (True, None) else ask_port (pp_build ports)) (\<lambda>(build, buildError).
     let mechanical = (rf_onRemote remote \<and> rf_newer remote \<and> rf_commit remote \<and> reply \<and> build);
         v = \<lparr>vr_ok = mechanical, vr_reply = reply, vr_commit = rf_commit remote, vr_build = build, vr_code = True,
           vr_reason = (if mechanical then [] else failed_reason reply remote build),
           vr_buildError = buildError, vr_codeReason = None\<rparr>
     in if skip then ret v
     else bnd (inspect_fix ports mechanical c original running v) (\<lambda>failed. case failed of
         Some w \<Rightarrow> ret w
       | None \<Rightarrow> verify_code ports mechanical c running v)))"

definition verifyComment ::
  "pr_ports \<Rightarrow> bool \<Rightarrow> string \<Rightarrow> pr_comment \<Rightarrow> string option \<Rightarrow> string option \<Rightarrow> verification rv" where
  "verifyComment ports skip branch c original running =
     bnd (verifyReplyPosted ports (c_commentId c)) (\<lambda>reply.
     if c_outcome c = Some Outcome_no_fix
     then ret \<lparr>vr_ok = reply, vr_reply = reply, vr_commit = True, vr_build = True, vr_code = True,
       vr_reason = (if reply then [] else ''reply not found on GitHub''), vr_buildError = None, vr_codeReason = None\<rparr>
     else if c_commitSha c = None \<or> c_commitSha c = running
     then ret \<lparr>vr_ok = False, vr_reply = reply, vr_commit = False, vr_build = False, vr_code = True,
       vr_reason = ''agent did not produce a new commit (commitSha unchanged)'', vr_buildError = None,
       vr_codeReason = None\<rparr>
     else verify_fix ports skip branch c original running reply)"

section \<open>The result of a batch\<close>

definition entry_valid :: "task_result \<Rightarrow> bool" where
  "entry_valid r \<longleftrightarrow> 0 \<le> tr_id r \<and> tr_reply r \<noteq> []"

definition missing_ids :: "int list \<Rightarrow> int list \<Rightarrow> int list" where
  "missing_ids ids expected = filter (\<lambda>i. i \<notin> set ids) expected"

text \<open>The keys of \<open>resultIdCounts\<close> in insertion order are the first occurrences.\<close>

definition duplicate_ids :: "int list \<Rightarrow> int list" where
  "duplicate_ids ids = filter (\<lambda>i. 1 < count_list ids i) (rev (remdups (rev ids)))"

definition unknown_ids :: "int list \<Rightarrow> int list \<Rightarrow> int list" where
  "unknown_ids ids expected = filter (\<lambda>i. i \<notin> set expected) ids"

definition validatePollTaskBatchResult :: "task_result list \<Rightarrow> int list \<Rightarrow> task_result list option" where
  "validatePollTaskBatchResult results expected =
     (let ids = map tr_id results
      in if \<not> list_all entry_valid results \<or> missing_ids ids expected \<noteq> [] \<or> duplicate_ids ids \<noteq> [] \<or>
            unknown_ids ids expected \<noteq> [] then None
         else Some (map (\<lambda>i. the (List.find (\<lambda>r. tr_id r = i) results)) expected))"

section \<open>What a verification rests on\<close>

text \<open>\<open>gives db m V\<close>: \<open>m\<close> leaves the tables \<open>db\<close> alone, and what it returns satisfies \<open>V\<close>.\<close>

abbreviation gives :: "review_db \<Rightarrow> 'a rv \<Rightarrow> ('a \<Rightarrow> bool) \<Rightarrow> bool" where
  "gives db m V \<equiv> yields (\<lambda>s. rs_db s = db) V (\<lambda>_. True) m"

lemma gives_keeps:
  assumes "\<And>db. gives db m V"
  shows "yields (\<lambda>s. P (rs_db s)) V (\<lambda>_. True) m"
proof (rule yieldsI)
  fix s :: review_state
  assume s: "P (rs_db s)"
  obtain r s' where m: "m s = (r, s')" by (cases "m s")
  have "rs_db s' = rs_db s \<and> (\<forall>x. r = Inr x \<longrightarrow> V x)"
    using yields_Inr [OF assms refl] yields_Inl [OF assms refl] m by (cases r) auto
  then show "case m s of (Inr x, s') \<Rightarrow> P (rs_db s') \<and> V x | (Inl e, s') \<Rightarrow> P (rs_db s') \<and> True"
    using s m by (cases r) auto
qed

lemma gives_act: "gives db (act f what) (\<lambda>x. \<exists>n. f n = Inr x)"
  by (rule yieldsI) (auto simp: act_def Let_def split: sum.splits)

lemma gives_ask_port: "gives db (ask_port f) (\<lambda>x. \<exists>n. f n = Inr x)"
  unfolding ask_port_def by (rule gives_act)

lemma gives_ask_any: "gives db (ask_port f) (\<lambda>_. True)"
  by (rule yields_any [OF gives_ask_port])

definition reply_seen :: "pr_ports \<Rightarrow> int \<Rightarrow> bool" where
  "reply_seen ports i \<longleftrightarrow> (\<exists>n cs. pp_listComments ports n = Inr cs \<and> list_ex (\<lambda>g. gc_inReplyTo g = Some i) cs)"

definition on_remote :: "pr_ports \<Rightarrow> string \<Rightarrow> string \<Rightarrow> bool" where
  "on_remote ports branch sha \<longleftrightarrow>
     (\<exists>n m tip. pp_remoteRef ports n branch = Inr (Some tip) \<and> pp_isAncestor ports m sha tip = Inr True)"

definition newer_than :: "pr_ports \<Rightarrow> string option \<Rightarrow> string \<Rightarrow> bool" where
  "newer_than ports start sha \<longleftrightarrow> (\<forall>a. start = Some a \<longrightarrow> a \<noteq> [] \<longrightarrow>
     (\<exists>n. pp_commitPushed ports n a sha = Inr True) \<and> (\<exists>n log. pp_logBetween ports n a sha = Inr log \<and> log \<noteq> []))"

definition build_passed :: "pr_ports \<Rightarrow> bool" where
  "build_passed ports \<longleftrightarrow> (\<exists>n e. pp_build ports n = Inr (True, e))"

definition code_passed :: "pr_ports \<Rightarrow> int \<Rightarrow> string option \<Rightarrow> string \<Rightarrow> bool" where
  "code_passed ports i start sha \<longleftrightarrow> (\<forall>verify. pp_verifyCode ports = Some verify \<longrightarrow>
     (\<exists>n r. verify n i (case start of None \<Rightarrow> [] | Some a \<Rightarrow> a) sha = Inr (True, r)))"

lemma truthy_Some: "truthy x \<Longrightarrow> \<exists>y. x = Some y \<and> y \<noteq> []"
  by (cases x) (auto simp: truthy_def)

lemma gives_reply: "gives db (verifyReplyPosted ports i) (\<lambda>b. b \<longrightarrow> reply_seen ports i)"
  unfolding verifyReplyPosted_def
  by (rule yields_bnd [OF gives_ask_port]) (auto intro!: yields_ret simp: reply_seen_def)

definition remote_good :: "pr_ports \<Rightarrow> string \<Rightarrow> string option \<Rightarrow> string option \<Rightarrow> remote_fix \<Rightarrow> bool" where
  "remote_good ports branch start sha r \<longleftrightarrow> (rf_commit r \<and> rf_onRemote r \<and> rf_newer r \<longrightarrow>
     (\<exists>fixed. sha = Some fixed \<and> fixed \<noteq> [] \<and> on_remote ports branch fixed \<and> newer_than ports start fixed))"

lemma gives_remote:
  "gives db (verifyRemoteFixCommit ports branch start sha) (remote_good ports branch start sha)"
proof (cases "truthy sha")
  case False
  then show ?thesis by (simp add: verifyRemoteFixCommit_def yields_ret remote_good_def)
next
  case True
  then obtain fixed where fixed: "sha = Some fixed" "fixed \<noteq> []" using truthy_Some by blast
  have commit: "gives db (if truthy start then ask_port (\<lambda>n. pp_commitPushed ports n (the start) fixed) else ret True)
      (\<lambda>b. b \<longrightarrow> truthy start \<longrightarrow> (\<exists>n. pp_commitPushed ports n (the start) fixed = Inr True))"
    by (rule yields_if, rule yields_weaken [OF gives_ask_port], auto intro: yields_ret)
  have ancestor: "gives db (if truthy remote then ask_port (\<lambda>n. pp_isAncestor ports n fixed (the remote)) else ret False)
      (\<lambda>b. b \<longrightarrow> truthy remote \<and> (\<exists>n. pp_isAncestor ports n fixed (the remote) = Inr True))" for remote
    by (rule yields_if, rule yields_weaken [OF gives_ask_port], auto intro: yields_ret)
  have log: "gives db (if truthy start then bnd (ask_port (\<lambda>n. pp_logBetween ports n (the start) fixed)) (\<lambda>log. ret (log \<noteq> []))
      else ret True) (\<lambda>b. b \<longrightarrow> truthy start \<longrightarrow> (\<exists>n log. pp_logBetween ports n (the start) fixed = Inr log \<and> log \<noteq> []))"
    by (auto intro!: yields_bnd [OF gives_ask_port] yields_ret)
  show ?thesis
    unfolding verifyRemoteFixCommit_def Let_def fixed(1) option.sel
    apply (rule yields_if)
    using True fixed apply simp
    apply (rule yields_bnd [OF commit])
    apply (rule yields_bnd [OF gives_ask_port])
    apply (rule yields_bnd [OF ancestor])
    apply (rule yields_bnd [OF log])
    apply (rule yields_ret)
    using fixed(2) apply (fastforce simp: remote_good_def on_remote_def newer_than_def truthy_def dest: truthy_Some)
    done
qed

definition verified ::
  "pr_ports \<Rightarrow> bool \<Rightarrow> string \<Rightarrow> pr_comment \<Rightarrow> string option \<Rightarrow> bool" where
  "verified ports skip branch c running \<longleftrightarrow> reply_seen ports (c_commentId c) \<and>
     (c_outcome c \<noteq> Some Outcome_no_fix \<longrightarrow> (\<exists>sha. c_commitSha c = Some sha \<and> running \<noteq> Some sha \<and>
        on_remote ports branch sha \<and> newer_than ports running sha \<and>
        (\<not> skip \<longrightarrow> build_passed ports \<and> code_passed ports (c_commentId c) running sha)))"

lemma gives_inspect: "gives db (inspect_fix ports mechanical c original running v)
    (\<lambda>w. \<forall>w'. w = Some w' \<longrightarrow> \<not> vr_ok w')"
  unfolding inspect_fix_def Let_def
  by (auto intro!: yields_option yields_ret yields_bnd [OF gives_ask_any] split: option.split)

lemma gives_build: "gives db (if skip then ret (True, None) else ask_port (pp_build ports))
    (\<lambda>x. fst x \<longrightarrow> \<not> skip \<longrightarrow> build_passed ports)"
  by (rule yields_if, simp add: yields_ret, rule yields_weaken [OF gives_ask_port])
    (auto simp: build_passed_def, metis prod.collapse)

lemma gives_verify_code:
  "(vr_ok v \<longrightarrow> mechanical) \<Longrightarrow> gives db (verify_code ports mechanical c running v)
    (\<lambda>w. vr_ok w \<longrightarrow> w = v \<and> (truthy (c_commitSha c) \<longrightarrow> code_passed ports (c_commentId c) running (the (c_commitSha c))))"
  unfolding verify_code_def
  by (rule yields_option, simp add: yields_ret code_passed_def, rule yields_if, simp add: yields_ret,
      rule yields_bnd [OF gives_ask_port])
    (auto intro!: yields_ret split: prod.split simp: code_passed_def)

definition found_verified ::
  "pr_ports \<Rightarrow> bool \<Rightarrow> string \<Rightarrow> pr_comment \<Rightarrow> string option \<Rightarrow> verification \<Rightarrow> bool" where
  "found_verified ports skip branch c running v \<longleftrightarrow>
     (vr_ok v \<longrightarrow> verified ports skip branch c running \<and> vr_reply v \<and> vr_commit v \<and> vr_build v)"

lemma gives_verify_fix:
  assumes "reply \<longrightarrow> reply_seen ports (c_commentId c)" and "c_commitSha c \<noteq> running"
  shows "gives db (verify_fix ports skip branch c original running reply)
    (found_verified ports skip branch c running)"
  unfolding verify_fix_def
proof (rule yields_bnd [OF gives_remote], rule yields_bnd [OF gives_build], rule yields_prod, unfold Let_def)
  fix remote x build and buildError :: "string option"
  assume remote: "remote_good ports branch running (c_commitSha c) remote"
    and "fst x \<longrightarrow> \<not> skip \<longrightarrow> build_passed ports" and "x = (build, buildError)"
  then have build: "build \<longrightarrow> \<not> skip \<longrightarrow> build_passed ports" by simp
  let ?m = "rf_onRemote remote \<and> rf_newer remote \<and> rf_commit remote \<and> reply \<and> build"
  let ?v = "\<lparr>vr_ok = ?m, vr_reply = reply, vr_commit = rf_commit remote, vr_build = build, vr_code = True,
     vr_reason = (if ?m then [] else failed_reason reply remote build), vr_buildError = buildError, vr_codeReason = None\<rparr>"
  have good: "verified ports skip branch c running"
    if all: "?m" and code: "\<not> skip \<longrightarrow> truthy (c_commitSha c) \<longrightarrow> code_passed ports (c_commentId c) running (the (c_commitSha c))"
  proof -
    obtain sha where sha: "c_commitSha c = Some sha" "sha \<noteq> []" "on_remote ports branch sha" "newer_than ports running sha"
      using all remote by (auto simp: remote_good_def)
    then show ?thesis using all code assms build by (auto simp: verified_def truthy_def)
  qed
  show "gives db (if skip then ret ?v else bnd (inspect_fix ports ?m c original running ?v)
      (\<lambda>failed. case failed of None \<Rightarrow> verify_code ports ?m c running ?v | Some w \<Rightarrow> ret w))
    (found_verified ports skip branch c running)"
  proof (rule yields_if, rule yields_ret)
    show "gives db (bnd (inspect_fix ports ?m c original running ?v)
        (\<lambda>failed. case failed of None \<Rightarrow> verify_code ports ?m c running ?v | Some w \<Rightarrow> ret w))
      (found_verified ports skip branch c running)"
      by (rule yields_bnd [OF gives_inspect], rule yields_option,
          rule yields_weaken [OF gives_verify_code]) (use good in \<open>auto intro!: yields_ret simp: found_verified_def\<close>)
  qed (use good in \<open>auto simp: found_verified_def\<close>)
qed

text \<open>A comment found verified has a reply, a fix on the remote branch, and passed every check asked for.\<close>

lemma gives_verified: "gives db (verifyComment ports skip branch c original running)
    (found_verified ports skip branch c running)"
  unfolding verifyComment_def
  by (rule yields_bnd [OF gives_reply], intro yields_if yields_ret gives_verify_fix)
    (auto simp: verified_def found_verified_def)

section \<open>Which batch results are accepted\<close>

lemma filter_empty: "filter P xs = [] \<longleftrightarrow> (\<forall>x \<in> set xs. \<not> P x)"
  by (induction xs) auto

lemma find_by_key: "i \<in> set (map key xs) \<Longrightarrow> \<exists>x. List.find (\<lambda>r. key r = i) xs = Some x \<and> x \<in> set xs \<and> key x = i"
  by (induction xs) auto

lemma find_key_distinct:
  "distinct (map key xs) \<Longrightarrow> x \<in> set xs \<Longrightarrow> List.find (\<lambda>r. key r = key x) xs = Some x"
  by (induction xs) (auto simp: image_iff)

lemma distinct_by_count: "distinct xs \<longleftrightarrow> (\<forall>x \<in> set xs. count_list xs x \<le> 1)"
  by (induction xs) (auto simp: count_list_0_iff Ball_def)

definition matches_batch :: "task_result list \<Rightarrow> int list \<Rightarrow> bool" where
  "matches_batch results expected \<longleftrightarrow> list_all entry_valid results \<and> distinct (map tr_id results) \<and>
     set (map tr_id results) = set expected"

lemma validate_def2: "validatePollTaskBatchResult results expected =
    (if matches_batch results expected
     then Some (map (\<lambda>i. the (List.find (\<lambda>r. tr_id r = i) results)) expected) else None)"
proof -
  let ?ids = "map tr_id results"
  have "(duplicate_ids ?ids = []) = distinct ?ids"
    by (simp add: duplicate_ids_def filter_empty distinct_by_count not_less)
  moreover have "(missing_ids ?ids expected = [] \<and> unknown_ids ?ids expected = []) = (set ?ids = set expected)"
    unfolding filter_empty missing_ids_def unknown_ids_def by blast
  ultimately show ?thesis
    unfolding validatePollTaskBatchResult_def matches_batch_def Let_def by auto
qed

text \<open>
  C12. A batch result is accepted exactly if its entries are well formed, no identifier comes twice, and
  the identifiers are the expected ones; it is then put into the expected order, entry by entry.
\<close>

theorem batch_result_accepted:
  "case validatePollTaskBatchResult results expected of
     None \<Rightarrow> \<not> matches_batch results expected
   | Some rs \<Rightarrow> matches_batch results expected \<and> map tr_id rs = expected \<and> set rs = set results"
proof (cases "matches_batch results expected")
  case True
  let ?entry = "\<lambda>i. the (List.find (\<lambda>r. tr_id r = i) results)"
  from True have ids: "distinct (map tr_id results)" "set (map tr_id results) = set expected"
    by (simp_all add: matches_batch_def)
  have entry: "tr_id (?entry i) = i \<and> ?entry i \<in> set results" if "i \<in> set expected" for i
    using find_by_key [of i tr_id results] that ids(2) by auto
  have "r \<in> ?entry ` set expected" if "r \<in> set results" for r
  proof
    show "r = ?entry (tr_id r)" using find_key_distinct [OF ids(1) that] by simp
    show "tr_id r \<in> set expected" using that ids(2) by auto
  qed
  then have "map tr_id (map ?entry expected) = expected \<and> set (map ?entry expected) = set results"
    using entry by (auto intro!: map_idI)
  then show ?thesis using True by (simp add: validate_def2)
qed (simp add: validate_def2)

end
