(* ===== verification/Review_Runner.thy ===== *)
theory Review_Runner
  imports Text Review_Verify
begin

text \<open>
  One attempt at one comment or at a batch, \<^verbatim>\<open>application/src/pr-review/poll-task-runner.ts\<close>. What
  only goes into prompts and metadata (the diff, the feedback of earlier attempts, the context) is
  left to the ports. \<open>executeTask\<close> and \<open>executeBatch\<close> keep the comments in the form the domain
  allows, and a comment stored as processed with a fix has its commit on the remote branch.
\<close>

section \<open>Inputs and outputs\<close>

record task_input =
  ti_runId :: ident
  ti_prNumber :: int
  ti_pollNumber :: int
  ti_branch :: string
  ti_start :: string
  ti_original :: string
  ti_mode :: string
  ti_retry :: nat
  ti_skip :: bool

datatype output_action = Out_fixed | Out_no_fix | Out_blocked | Out_failed

record task_output =
  to_id :: int
  to_action :: output_action
  to_processed :: bool
  to_blocked :: bool
  to_buildError :: "string option"
  to_codeReason :: "string option"
  to_attemptId :: "ident option"

record batch_output =
  bo_outputs :: "task_output list"
  bo_split :: bool

definition open_output :: "int \<Rightarrow> output_action \<Rightarrow> ident \<Rightarrow> task_output" where
  "open_output i action a = \<lparr>to_id = i, to_action = action, to_processed = False, to_blocked = False,
     to_buildError = None, to_codeReason = None, to_attemptId = Some a\<rparr>"

definition unchanged_sha :: string where
  "unchanged_sha = ''agent did not produce a new commit (commitSha unchanged)''"

section \<open>The steps of both\<close>

text \<open>\<open>recover m h\<close>: \<open>try\<close> with a handler that is a program of its own.\<close>

definition recover :: "'a rv \<Rightarrow> (review_exn \<Rightarrow> 'a rv) \<Rightarrow> 'a rv" where
  "recover m h s = (case m s of (Inl e, s') \<Rightarrow> h e s' | (Inr x, s') \<Rightarrow> (Inr x, s'))"

fun gather :: "('a \<Rightarrow> 'b rv) \<Rightarrow> 'a list \<Rightarrow> 'b list rv" where
  "gather f [] = ret []"
| "gather f (x # xs) = bnd (f x) (\<lambda>y. bnd (gather f xs) (\<lambda>ys. ret (y # ys)))"

definition begin_attempts :: "review_attempt list \<Rightarrow> unit rv" where
  "begin_attempts as = sq (tell (\<lambda>s. s\<lparr>rs_live := as\<rparr>)) (store (\<lambda>db. fold appendCommentAttempt as db))"

definition change_attempts :: "(review_attempt \<Rightarrow> review_attempt) \<Rightarrow> unit rv" where
  "change_attempts f = tell (\<lambda>s. s\<lparr>rs_live := map f (rs_live s)\<rparr>)"

definition save_attempts :: "(review_attempt \<Rightarrow> bool) \<Rightarrow> unit rv" where
  "save_attempts P = tell (\<lambda>s. s\<lparr>rs_db := fold updateCommentAttempt (filter P (rs_live s)) (rs_db s)\<rparr>)"

text \<open>Head, disposition, action and feedback of the attempts \<open>P\<close>, and their update.\<close>

definition close_attempts ::
  "pr_ports \<Rightarrow> (review_attempt \<Rightarrow> bool) \<Rightarrow> attempt_disposition \<Rightarrow> attempt_action \<Rightarrow>
   (review_attempt \<Rightarrow> review_attempt) \<Rightarrow> unit rv" where
  "close_attempts ports P disposition action feedback = bnd (ask_port (pp_head ports)) (\<lambda>head.
     sq (change_attempts (\<lambda>a. if P a then (feedback a)\<lparr>ra_completedHead := Some head,
        ra_disposition := Some disposition, ra_action := action\<rparr> else a))
     (save_attempts P))"

definition set_action :: "(review_attempt \<Rightarrow> bool) \<Rightarrow> attempt_action \<Rightarrow> unit rv" where
  "set_action P action = change_attempts (\<lambda>a. if P a then a\<lparr>ra_action := action\<rparr> else a)"

definition verifier_feedback :: "string option \<Rightarrow> review_attempt \<Rightarrow> review_attempt" where
  "verifier_feedback x a = (case x of None \<Rightarrow> a | Some r \<Rightarrow> a\<lparr>ra_verifier := Some r\<rparr>)"

definition build_feedback :: "string option \<Rightarrow> review_attempt \<Rightarrow> review_attempt" where
  "build_feedback x a = (case x of None \<Rightarrow> a | Some r \<Rightarrow> a\<lparr>ra_build := Some r\<rparr>)"

definition any_attempt :: "review_attempt \<Rightarrow> bool" where
  "any_attempt a = True"

definition resetToStart :: "pr_ports \<Rightarrow> task_input \<Rightarrow> unit rv" where
  "resetToStart ports i = sq (act (\<lambda>n. pp_resetHard ports n (ti_start i)) [Reset_hard (ti_start i)])
     (ask_port (pp_clean ports))"

text \<open>The result of the agent copied to a durable artifact; a failure leaves the path as it is.\<close>

definition keep_result :: "pr_ports \<Rightarrow> string option \<Rightarrow> string rv" where
  "keep_result ports json = (case json of
       None \<Rightarrow> ret []
     | Some path \<Rightarrow> if path = [] then ret [] else
         catch (bnd (ask_port (\<lambda>n. pp_readArtifact ports n path)) (\<lambda>contents.
           ask_port (\<lambda>n. pp_writeArtifact ports n contents))) (\<lambda>_. Some path) (\<lambda>x. x))"

definition find_reply :: "gh_comment list \<Rightarrow> int \<Rightarrow> int option" where
  "find_reply cs i = map_option gc_id (List.find (\<lambda>g. gc_inReplyTo g = Some i) cs)"

definition postReply :: "pr_ports \<Rightarrow> int \<Rightarrow> string \<Rightarrow> gh_comment list \<Rightarrow> int rv" where
  "postReply ports i body earlier = (case find_reply earlier i of
       Some r \<Rightarrow> ret r
     | None \<Rightarrow> act (\<lambda>n. pp_reply ports n i body) [Reply_posted i])"

definition postReplyIfMissing :: "pr_ports \<Rightarrow> int \<Rightarrow> string \<Rightarrow> int rv" where
  "postReplyIfMissing ports i body = bnd (ask_port (pp_listComments ports)) (postReply ports i body)"

definition record_reply :: "pr_ports \<Rightarrow> task_input \<Rightarrow> int \<Rightarrow> string \<Rightarrow> unit rv" where
  "record_reply ports i comment body = bnd (new_id ports) (\<lambda>rid. bnd (read_now ports) (\<lambda>now.
     store (insertReply \<lparr>rr_id = rid, rr_runId = ti_runId i, rr_prNumber = ti_prNumber i,
       rr_commentId = comment, rr_body = body, rr_postedAt = now, rr_verified = True\<rparr>)))"

text \<open>A verified comment: processed, its thread resolved, the attempt closed.\<close>

definition accept ::
  "pr_ports \<Rightarrow> (review_attempt \<Rightarrow> bool) \<Rightarrow> pr_comment \<Rightarrow> verification \<Rightarrow> unit rv" where
  "accept ports P replied v =
     bnd (transition ports (markProcessed replied (vr_commit v) (vr_reply v) (vr_build v))) (\<lambda>_.
     sq (act (\<lambda>n. pp_resolveThread ports n (c_commentId replied)) [Thread_resolved (c_commentId replied)])
     (close_attempts ports P Attempt_success Act_remediate (\<lambda>a. a)))"

definition block_as_asked ::
  "pr_ports \<Rightarrow> task_input \<Rightarrow> (review_attempt \<Rightarrow> bool) \<Rightarrow> pr_comment \<Rightarrow> task_result \<Rightarrow> ident \<Rightarrow> task_output rv" where
  "block_as_asked ports i P c r aid =
     sq (record_reply ports i (c_commentId c) (tr_reply r))
     (bnd (transition ports (blockComment c (case tr_blockedReason r of None \<Rightarrow> ''agent blocked'' | Some b \<Rightarrow> b))) (\<lambda>_.
     sq (close_attempts ports P Attempt_failure Act_remediate (verifier_feedback (tr_blockedReason r)))
     (ret ((open_output (c_commentId c) Out_blocked aid)\<lparr>to_blocked := True\<rparr>))))"

section \<open>One comment\<close>

definition task_failed :: "pr_ports \<Rightarrow> pr_comment \<Rightarrow> ident \<Rightarrow> task_output rv" where
  "task_failed ports c aid = sq (close_attempts ports any_attempt Attempt_failure Act_review (\<lambda>a. a))
     (ret (open_output (c_commentId c) Out_failed aid))"

definition task_no_fix :: "pr_ports \<Rightarrow> task_input \<Rightarrow> pr_comment \<Rightarrow> task_result \<Rightarrow> ident \<Rightarrow> task_output rv" where
  "task_no_fix ports i c r aid =
     bnd (postReplyIfMissing ports (c_commentId c) (tr_reply r)) (\<lambda>rid.
     sq (record_reply ports i (c_commentId c) (tr_reply r))
     (bnd (transition ports (markReplied c rid Outcome_no_fix None (ti_pollNumber i))) (\<lambda>replied.
     sq (set_action any_attempt Act_verify)
     (bnd (verifyComment ports True (ti_branch i) replied (Some (ti_original i)) (Some (ti_start i))) (\<lambda>v.
     if vr_ok v
     then sq (accept ports any_attempt replied v)
       (ret ((open_output (c_commentId c) Out_no_fix aid)\<lparr>to_processed := True\<rparr>))
     else sq (close_attempts ports any_attempt Attempt_failure Act_verify
         (verifier_feedback (Some ''reply verification failed'')))
       (ret (open_output (c_commentId c) Out_no_fix aid)))))))"

text \<open>A fix that fails before it is pushed: the attempt is closed and the checkout reset.\<close>

definition reject_fix ::
  "pr_ports \<Rightarrow> task_input \<Rightarrow> attempt_action \<Rightarrow> (review_attempt \<Rightarrow> review_attempt) \<Rightarrow> task_output \<Rightarrow> task_output rv" where
  "reject_fix ports i action feedback out =
     sq (close_attempts ports any_attempt Attempt_failure action feedback)
     (sq (resetToStart ports i) (ret out))"

definition publish_fix ::
  "pr_ports \<Rightarrow> task_input \<Rightarrow> pr_comment \<Rightarrow> task_result \<Rightarrow> string \<Rightarrow> ident \<Rightarrow> task_output rv" where
  "publish_fix ports i c r sha aid =
     sq (act (pp_push ports) [Pushed])
     (bnd (postReplyIfMissing ports (c_commentId c) (tr_reply r)) (\<lambda>rid.
     sq (record_reply ports i (c_commentId c) (tr_reply r))
     (bnd (transition ports (markReplied c rid Outcome_fixed (Some sha) (ti_pollNumber i))) (\<lambda>replied.
     bnd (verifyComment ports (ti_skip i) (ti_branch i) replied (Some (ti_original i)) (Some (ti_start i))) (\<lambda>v.
     if vr_ok v
     then sq (accept ports any_attempt replied v)
       (ret ((open_output (c_commentId c) Out_fixed aid)\<lparr>to_processed := True\<rparr>))
     else sq (close_attempts ports any_attempt Attempt_failure Act_verify
         (verifier_feedback (Some (case vr_buildError v of Some e \<Rightarrow> e
            | None \<Rightarrow> (case vr_codeReason v of Some e \<Rightarrow> e | None \<Rightarrow> ''verification failed'')))))
       (ret ((open_output (c_commentId c) Out_fixed aid)
          \<lparr>to_buildError := vr_buildError v, to_codeReason := vr_codeReason v\<rparr>)))))))"

definition check_code ::
  "pr_ports \<Rightarrow> int \<Rightarrow> string \<Rightarrow> string \<Rightarrow> string option rv" where
  "check_code ports i start sha = (case pp_verifyCode ports of
       None \<Rightarrow> ret None
     | Some verify \<Rightarrow> bnd (ask_port (\<lambda>n. verify n i start sha)) (\<lambda>(pass, reason).
         ret (if pass then None else Some reason)))"

definition task_fixed :: "pr_ports \<Rightarrow> task_input \<Rightarrow> pr_comment \<Rightarrow> task_result \<Rightarrow> ident \<Rightarrow> task_output rv" where
  "task_fixed ports i c r aid = (let out = open_output (c_commentId c) Out_fixed aid in
     bnd (ask_port (pp_head ports)) (\<lambda>sha.
     if sha = ti_start i
     then reject_fix ports i Act_remediate (build_feedback (Some unchanged_sha))
       (out\<lparr>to_buildError := Some unchanged_sha\<rparr>)
     else sq (set_action any_attempt Act_remediate)
     (bnd (ask_port (pp_build ports)) (\<lambda>(passed, e).
     if \<not> passed then reject_fix ports i Act_remediate (build_feedback e) (out\<lparr>to_buildError := e\<rparr>)
     else sq (set_action any_attempt Act_verify)
     (bnd (check_code ports (c_commentId c) (ti_start i) sha) (\<lambda>failed. case failed of
         Some reason \<Rightarrow> reject_fix ports i Act_verify (verifier_feedback (Some reason))
           (out\<lparr>to_codeReason := Some reason\<rparr>)
       | None \<Rightarrow> publish_fix ports i c r sha aid))))))"

definition task_result_step ::
  "pr_ports \<Rightarrow> task_input \<Rightarrow> pr_comment \<Rightarrow> ident \<Rightarrow> task_result option \<Rightarrow> task_output rv" where
  "task_result_step ports i c aid extracted = (case extracted of
       None \<Rightarrow> task_failed ports c aid
     | Some r \<Rightarrow>
         if tr_id r \<noteq> c_commentId c then task_failed ports c aid
         else (case tr_action r of
             Task_blocked \<Rightarrow> bnd (postReplyIfMissing ports (c_commentId c) (tr_reply r))
               (\<lambda>_. block_as_asked ports i any_attempt c r aid)
           | Task_no_fix \<Rightarrow> task_no_fix ports i c r aid
           | Task_fixed \<Rightarrow> task_fixed ports i c r aid))"

definition task_body :: "pr_ports \<Rightarrow> task_input \<Rightarrow> pr_comment \<Rightarrow> ident \<Rightarrow> task_output rv" where
  "task_body ports i c aid =
     sq (resetToStart ports i)
     (bnd (ask_port (\<lambda>n. pp_render ports n (c_commentId c))) (\<lambda>prompt.
     sq (change_attempts (\<lambda>a. a\<lparr>ra_prompt := prompt\<rparr>))
     (bnd (ask_port (pp_head ports)) (\<lambda>head.
     sq (change_attempts (\<lambda>a. a\<lparr>ra_completedHead := Some head\<rparr>))
     (sq (save_attempts any_attempt)
     (sq (ask_port (pp_profile ports))
     (bnd (act (\<lambda>n. pp_agent ports n [c_commentId c]) [Agent_ran [c_commentId c]]) (\<lambda>(success, json).
     bnd (keep_result ports json) (\<lambda>path.
     sq (change_attempts (\<lambda>a. a\<lparr>ra_result := path\<rparr>))
     (sq (save_attempts any_attempt)
     (if \<not> success then task_failed ports c aid
      else bnd (ask_port (pp_extract ports)) (task_result_step ports i c aid))))))))))))"

definition new_attempt :: "task_input \<Rightarrow> string \<Rightarrow> ident \<Rightarrow> time \<Rightarrow> int \<Rightarrow> review_attempt" where
  "new_attempt i head aid now comment =
     \<lparr>ra_id = aid, ra_runId = ti_runId i, ra_commentId = comment, ra_retry = ti_retry i,
      ra_startHead = ti_start i, ra_completedHead = Some head, ra_mode = ti_mode i, ra_prompt = [],
      ra_result = [], ra_action = Act_review, ra_verifier = None, ra_build = None,
      ra_disposition = None, ra_createdAt = now\<rparr>"

definition task_catch :: "pr_ports \<Rightarrow> task_input \<Rightarrow> review_exn \<Rightarrow> task_output rv" where
  "task_catch ports i e = bnd (ask_port (pp_head ports)) (\<lambda>head.
     sq (change_attempts (\<lambda>a. a\<lparr>ra_completedHead := Some head, ra_disposition := Some Attempt_failure\<rparr>))
     (sq (save_attempts any_attempt) (sq (resetToStart ports i) (stop e))))"

definition executeTask :: "pr_ports \<Rightarrow> task_input \<Rightarrow> pr_comment \<Rightarrow> task_output rv" where
  "executeTask ports i c =
     bnd (new_id ports) (\<lambda>aid.
     bnd (ask_port (pp_head ports)) (\<lambda>head.
     bnd (read_now ports) (\<lambda>now.
     sq (begin_attempts [new_attempt i head aid now (c_commentId c)])
     (recover (task_body ports i c aid) (task_catch ports i)))))"

section \<open>A batch\<close>

text \<open>Every attempt of the batch fails, the checkout is reset, and two or more comments are split.\<close>

definition fail_batch ::
  "pr_ports \<Rightarrow> task_input \<Rightarrow> attempt_action \<Rightarrow> (review_attempt \<Rightarrow> review_attempt) \<Rightarrow>
   (task_output \<Rightarrow> task_output) \<Rightarrow> batch_output rv" where
  "fail_batch ports i action feedback extra =
     sq (close_attempts ports any_attempt Attempt_failure action feedback)
     (sq (resetToStart ports i)
     (ask (\<lambda>s. \<lparr>bo_outputs = map (\<lambda>a. extra (open_output (ra_commentId a) Out_failed (ra_id a))) (rs_live s),
        bo_split = (1 < length (rs_live s))\<rparr>)))"

definition validation_feedback :: "task_result list \<Rightarrow> int list \<Rightarrow> string" where
  "validation_feedback results expected = (let ids = map tr_id results; good = list_all entry_valid results;
       shown = (\<lambda>xs. join_with (CHR '','') (map show_int (if good then xs else [])))
     in ''batch validation failed: missing='' @ shown (missing_ids ids expected) @
        '', duplicate='' @ shown (duplicate_ids ids) @ '', unknown='' @ shown (unknown_ids ids expected))"

definition check_all ::
  "pr_ports \<Rightarrow> task_input \<Rightarrow> string \<Rightarrow> task_result list \<Rightarrow> (int \<times> string) list rv" where
  "check_all ports i sha fixed = bnd (gather (\<lambda>r. bnd (check_code ports (tr_id r) (ti_start i) sha)
       (\<lambda>e. ret (case e of None \<Rightarrow> [] | Some x \<Rightarrow> [(tr_id r, x)]))) fixed) (\<lambda>es. ret (concat es))"

definition remote_verification :: "remote_fix \<Rightarrow> verification" where
  "remote_verification r = (let good = (rf_onRemote r \<and> rf_newer r \<and> rf_commit r) in
     \<lparr>vr_ok = good, vr_reply = True, vr_commit = rf_commit r, vr_build = True, vr_code = True,
      vr_reason = (if good then [] else rf_reason r), vr_buildError = None, vr_codeReason = None\<rparr>)"

definition trusted :: verification where
  "trusted = \<lparr>vr_ok = True, vr_reply = True, vr_commit = True, vr_build = True, vr_code = True,
     vr_reason = [], vr_buildError = None, vr_codeReason = None\<rparr>"

text \<open>What is decided before the replies: a failed batch, or the results, the head, and whether it
  was pushed.\<close>

definition checked_results ::
  "pr_ports \<Rightarrow> task_input \<Rightarrow> task_result list \<Rightarrow>
   (batch_output + task_result list \<times> string \<times> bool) rv" where
  "checked_results ports i results =
     bnd (ask_port (pp_head ports)) (\<lambda>sha.
     let fixed = filter (\<lambda>r. tr_action r = Task_fixed) results; hasFixed = (fixed \<noteq> []) in
     if hasFixed \<and> sha = ti_start i
     then bnd (fail_batch ports i Act_remediate (build_feedback (Some unchanged_sha))
       (\<lambda>out. out\<lparr>to_buildError := Some unchanged_sha\<rparr>)) (\<lambda>b. ret (Inl b))
     else bnd (if hasFixed then ask_port (pp_build ports) else ret (True, None)) (\<lambda>(passed, e).
     if \<not> passed
     then bnd (fail_batch ports i Act_remediate (build_feedback e) (\<lambda>out. out\<lparr>to_buildError := e\<rparr>)) (\<lambda>b. ret (Inl b))
     else bnd (check_all ports i sha fixed) (\<lambda>errors.
     if errors \<noteq> []
     then bnd (fail_batch ports i Act_verify
         (\<lambda>a. verifier_feedback (map_of (rev errors) (ra_commentId a)) a)
         (\<lambda>out. out\<lparr>to_codeReason := map_of (rev errors) (to_id out)\<rparr>)) (\<lambda>b. ret (Inl b))
     else if hasFixed then sq (act (pp_push ports) [Pushed]) (ret (Inr (results, sha, True)))
     else ret (Inr (results, sha, False)))))"

definition batch_before ::
  "pr_ports \<Rightarrow> task_input \<Rightarrow> pr_comment list \<Rightarrow>
   (batch_output + task_result list \<times> string \<times> bool) rv" where
  "batch_before ports i cs =
     sq (resetToStart ports i)
     (case pp_renderBatch ports of None \<Rightarrow> stop (Review_threw ''executeBatch requires renderBatchTaskPrompt in deps'')
     | Some render \<Rightarrow>
     bnd (ask_port (\<lambda>n. render n (map c_commentId cs))) (\<lambda>prompt.
     sq (change_attempts (\<lambda>a. a\<lparr>ra_prompt := prompt\<rparr>))
     (sq (save_attempts any_attempt)
     (sq (ask_port (pp_profile ports))
     (bnd (act (\<lambda>n. pp_agent ports n (map c_commentId cs)) [Agent_ran (map c_commentId cs)]) (\<lambda>(success, json).
     bnd (keep_result ports json) (\<lambda>path.
     sq (change_attempts (\<lambda>a. a\<lparr>ra_result := path\<rparr>))
     (sq (save_attempts any_attempt)
     (if \<not> success then bnd (fail_batch ports i Act_review (\<lambda>a. a) (\<lambda>out. out)) (\<lambda>b. ret (Inl b))
      else (case pp_extractBatch ports of
          None \<Rightarrow> stop (Review_threw ''executeBatch requires extractBatchTaskResult in deps'')
        | Some extract \<Rightarrow> bnd (ask_port extract) (\<lambda>extracted.
            (case extracted of
               None \<Rightarrow> bnd (fail_batch ports i Act_review (\<lambda>a. a) (\<lambda>out. out)) (\<lambda>b. ret (Inl b))
             | Some raw \<Rightarrow> (case validatePollTaskBatchResult raw (map c_commentId cs) of
                   None \<Rightarrow> bnd (fail_batch ports i Act_review
                       (verifier_feedback (Some (validation_feedback raw (map c_commentId cs)))) (\<lambda>out. out)) (\<lambda>b. ret (Inl b))
                 | Some results \<Rightarrow> checked_results ports i results)))))))))))))"

text \<open>The feedback of a reply that did not verify; \<open>reason\<close> is always a string.\<close>

definition finalizeBatchReply ::
  "pr_ports \<Rightarrow> task_input \<Rightarrow> pr_comment \<Rightarrow> ident \<Rightarrow> task_result \<Rightarrow> gh_comment list \<Rightarrow>
   comment_outcome \<Rightarrow> string option \<Rightarrow> verification \<Rightarrow> task_output rv" where
  "finalizeBatchReply ports i c aid r earlier outcome sha v =
     (let this = (\<lambda>a. ra_id a = aid); kind = (if outcome = Outcome_fixed then Out_fixed else Out_no_fix) in
     bnd (postReply ports (c_commentId c) (tr_reply r) earlier) (\<lambda>rid.
     sq (record_reply ports i (c_commentId c) (tr_reply r))
     (bnd (transition ports (markReplied c rid outcome (if outcome = Outcome_fixed then sha else None) (ti_pollNumber i))) (\<lambda>replied.
     sq (set_action this Act_verify)
     (if vr_ok v
      then sq (accept ports this replied v) (ret ((open_output (c_commentId c) kind aid)\<lparr>to_processed := True\<rparr>))
      else sq (close_attempts ports this Attempt_failure Act_verify
          (verifier_feedback (Some (case vr_buildError v of Some e \<Rightarrow> e
             | None \<Rightarrow> (case vr_codeReason v of Some e \<Rightarrow> e | None \<Rightarrow> vr_reason v)))))
        (ret ((open_output (c_commentId c) kind aid)
           \<lparr>to_buildError := vr_buildError v, to_codeReason := vr_codeReason v\<rparr>)))))))"

definition batch_entry ::
  "pr_ports \<Rightarrow> task_input \<Rightarrow> task_result list \<Rightarrow> string \<Rightarrow> verification option \<Rightarrow> gh_comment list \<Rightarrow>
   pr_comment \<Rightarrow> task_output rv" where
  "batch_entry ports i results sha fixed earlier c =
     bnd (ask rs_live) (\<lambda>live.
     case (List.find (\<lambda>r. tr_id r = c_commentId c) results, List.find (\<lambda>a. ra_commentId a = c_commentId c) live) of
       (Some r, Some a) \<Rightarrow>
         (case tr_action r of
            Task_blocked \<Rightarrow> bnd (postReply ports (c_commentId c) (tr_reply r) earlier)
              (\<lambda>_. block_as_asked ports i (\<lambda>b. ra_id b = ra_id a) c r (ra_id a))
          | Task_no_fix \<Rightarrow> finalizeBatchReply ports i c (ra_id a) r earlier Outcome_no_fix None trusted
          | Task_fixed \<Rightarrow> (case fixed of
                None \<Rightarrow> stop (Review_threw ''TypeError'')
              | Some v \<Rightarrow> finalizeBatchReply ports i c (ra_id a) r earlier Outcome_fixed (Some sha) v))
     | _ \<Rightarrow> stop (Review_threw ''TypeError''))"

definition batch_after ::
  "pr_ports \<Rightarrow> task_input \<Rightarrow> pr_comment list \<Rightarrow> task_result list \<Rightarrow> string \<Rightarrow> bool \<Rightarrow> batch_output rv" where
  "batch_after ports i cs results sha pushed =
     bnd (if pushed then bnd (verifyRemoteFixCommit ports (ti_branch i) (Some (ti_start i)) (Some sha))
            (\<lambda>r. ret (Some (remote_verification r)))
          else ret None) (\<lambda>fixed.
     bnd (ask_port (pp_listComments ports)) (\<lambda>earlier.
     bnd (gather (batch_entry ports i results sha fixed earlier)
       (sort_by (\<lambda>a b. c_commentId a \<le> c_commentId b) cs)) (\<lambda>outs.
     ret \<lparr>bo_outputs = outs,
       bo_split = (list_ex (\<lambda>out. \<not> to_processed out \<and> \<not> to_blocked out \<and> to_action out \<noteq> Out_no_fix) outs \<and>
         1 < length cs)\<rparr>)))"

text \<open>After a push the checkout is left as it is: the remote already has the commit.\<close>

definition batch_catch :: "pr_ports \<Rightarrow> task_input \<Rightarrow> bool \<Rightarrow> review_exn \<Rightarrow> 'a rv" where
  "batch_catch ports i pushed e = bnd (ask_port (pp_head ports)) (\<lambda>head.
     sq (change_attempts (\<lambda>a. a\<lparr>ra_completedHead := Some head, ra_disposition :=
        (if ra_disposition a = Some Attempt_success then Some Attempt_success else Some Attempt_failure)\<rparr>))
     (sq (save_attempts any_attempt)
     (sq (only_if (\<not> pushed) (resetToStart ports i)) (stop e))))"

definition executeBatch :: "pr_ports \<Rightarrow> task_input \<Rightarrow> pr_comment list \<Rightarrow> batch_output rv" where
  "executeBatch ports i cs =
     sq (new_id ports)
     (bnd (gather (\<lambda>_. new_id ports) cs) (\<lambda>aids.
     bnd (ask_port (pp_head ports)) (\<lambda>head.
     bnd (gather (\<lambda>(aid, c). bnd (read_now ports) (\<lambda>now. ret (new_attempt i head aid now (c_commentId c))))
       (zip aids cs)) (\<lambda>as.
     sq (begin_attempts as)
     (bnd (recover (batch_before ports i cs) (batch_catch ports i False)) (\<lambda>r. case r of
         Inl out \<Rightarrow> ret out
       | Inr (results, sha, pushed) \<Rightarrow>
           recover (batch_after ports i cs results sha pushed) (batch_catch ports i pushed)))))))"

end
