(* ===== verification/Review_Runner_Inv.thy ===== *)
theory Review_Runner_Inv
  imports Review_Runner
begin

text \<open>
  The invariant of the comments under the runner of \<^verbatim>\<open>Review_Runner\<close>: every stored comment is one the
  transitions of the domain allow, and a processed fix has its commit on the branch of the pull
  request. It holds however a task or a batch ends.
\<close>

section \<open>The invariant\<close>

definition pr_branch :: "pr_ports \<Rightarrow> string \<Rightarrow> bool" where
  "pr_branch ports branch \<longleftrightarrow> (\<exists>n pr. pp_getPr ports n = Inr pr \<and> gp_headRef pr = branch)"

definition landed :: "pr_ports \<Rightarrow> pr_comment \<Rightarrow> bool" where
  "landed ports c \<longleftrightarrow> (\<exists>sha branch. c_commitSha c = Some sha \<and> pr_branch ports branch \<and> on_remote ports branch sha)"

definition sound_comment :: "pr_ports \<Rightarrow> pr_comment \<Rightarrow> bool" where
  "sound_comment ports c \<longleftrightarrow> comment_inv c \<and>
     (c_state c = Processed \<longrightarrow> c_outcome c = Some Outcome_fixed \<longrightarrow> landed ports c)"

definition sound_db :: "pr_ports \<Rightarrow> review_db \<Rightarrow> bool" where
  "sound_db ports db \<longleftrightarrow> (\<forall>c \<in> set (vb_comments db). sound_comment ports c)"

abbreviation holds :: "pr_ports \<Rightarrow> 'a rv \<Rightarrow> ('a \<Rightarrow> bool) \<Rightarrow> bool" where
  "holds ports m V \<equiv> yields (\<lambda>s. sound_db ports (rs_db s)) V (\<lambda>_. True) m"

section \<open>Rules\<close>

lemma holds_act: "holds ports (act f what) (\<lambda>x. \<exists>n. f n = Inr x)"
  by (rule gives_keeps [OF gives_act])

lemma holds_ask: "holds ports (ask_port f) (\<lambda>x. \<exists>n. f n = Inr x)"
  by (rule gives_keeps [OF gives_ask_port])

lemma holds_any: "holds ports m V \<Longrightarrow> holds ports m (\<lambda>_. True)"
  by (rule yields_any)

lemma holds_store: "(\<And>db. sound_db ports db \<Longrightarrow> sound_db ports (f db)) \<Longrightarrow> holds ports (store f) (\<lambda>_. True)"
  unfolding store_def by (rule yields_tell) simp

lemma holds_recover:
  "holds ports m V \<Longrightarrow> (\<And>e. holds ports (h e) V) \<Longrightarrow> holds ports (recover m h) V"
  by (rule yieldsI) (auto simp: recover_def dest: yields_Inr yields_Inl split: prod.splits sum.splits)

lemma holds_gather:
  "(\<And>x. x \<in> set xs \<Longrightarrow> holds ports (f x) (\<lambda>_. True)) \<Longrightarrow> holds ports (gather f xs) (\<lambda>_. True)"
  by (induction xs) (auto intro!: yields_ret intro: yields_bnd)

lemma holds_live: "holds ports (change_attempts f) (\<lambda>_. True)"
  unfolding change_attempts_def by (rule yields_tell) simp

lemma comments_of_attempts: "vb_comments (fold updateCommentAttempt as db) = vb_comments db"
  by (induction as arbitrary: db) (simp_all add: updateCommentAttempt_def)

lemma comments_of_appended: "vb_comments (fold appendCommentAttempt as db) = vb_comments db"
  by (induction as arbitrary: db) (simp_all add: appendCommentAttempt_def)

lemma holds_save: "holds ports (save_attempts P) (\<lambda>_. True)"
  unfolding save_attempts_def by (rule yields_tell) (simp add: sound_db_def comments_of_attempts)

lemma holds_begin: "holds ports (begin_attempts as) (\<lambda>_. True)"
  unfolding begin_attempts_def
  by (intro yields_sq yields_tell holds_store) (simp_all add: sound_db_def comments_of_appended)

lemma sound_created: "sound_comment ports (c\<lparr>c_createdAt := t\<rparr>) = sound_comment ports c"
  by (simp add: sound_comment_def comment_inv_def fully_verified_def landed_def)

lemma sound_upsert: "sound_comment ports c \<Longrightarrow> sound_db ports db \<Longrightarrow> sound_db ports (upsertComment c db)"
  unfolding sound_db_def by (auto dest!: upsertComment_rows simp: sound_created)

lemma holds_transition:
  assumes "\<And>now d. f now = Inr d \<Longrightarrow> sound_comment ports d \<and> V d"
  shows "holds ports (transition ports f) (\<lambda>d. sound_comment ports d \<and> V d)"
  unfolding transition_def read_now_def
  by (rule yields_bnd [OF holds_ask], rule yields_sum)
    (auto intro!: yields_stop yields_sq yields_ret holds_store dest: assms simp: sound_upsert)

text \<open>One attempt is started or closed, the checkout reset, a reply posted and recorded.\<close>

named_theorems holds_rules \<open>rules for the steps of the runner\<close>

lemma holds_head_any [holds_rules]: "holds ports (ask_port f) (\<lambda>_. True)"
  by (rule holds_any [OF holds_ask])

lemma holds_act_any [holds_rules]: "holds ports (act f what) (\<lambda>_. True)"
  by (rule holds_any [OF holds_act])

lemma holds_close [holds_rules]: "holds ports (close_attempts ports P d a fb) (\<lambda>_. True)"
  unfolding close_attempts_def
  by (rule yields_bnd [OF holds_head_any]) (intro yields_sq holds_live holds_save)

lemma holds_set_action [holds_rules]: "holds ports (set_action P a) (\<lambda>_. True)"
  unfolding set_action_def by (rule holds_live)

lemma holds_reset [holds_rules]: "holds ports (resetToStart ports i) (\<lambda>_. True)"
  unfolding resetToStart_def by (intro yields_sq holds_act_any holds_head_any)

lemma holds_result [holds_rules]: "holds ports (keep_result ports json) (\<lambda>_. True)"
  unfolding keep_result_def
  by (intro yields_option yields_ret yields_if yields_catch [where Y = "\<lambda>_. True" and V = "\<lambda>_. True"]
      yields_bnd [OF holds_head_any] holds_head_any) auto

lemma holds_reply [holds_rules]: "holds ports (postReply ports c body earlier) (\<lambda>_. True)"
  unfolding postReply_def by (intro yields_option holds_act_any yields_ret) simp

lemma holds_reply_missing [holds_rules]: "holds ports (postReplyIfMissing ports c body) (\<lambda>_. True)"
  unfolding postReplyIfMissing_def by (rule yields_bnd [OF holds_head_any]) (rule holds_reply)

lemma holds_record [holds_rules]: "holds ports (record_reply ports i c body) (\<lambda>_. True)"
  unfolding record_reply_def new_id_def read_now_def
  by (intro yields_bnd [OF holds_head_any] holds_store) (simp add: sound_db_def insertReply_def)

section \<open>Transitions of a comment\<close>

lemma sound_inv: "comment_inv d \<Longrightarrow> c_state d \<noteq> Processed \<Longrightarrow> sound_comment ports d"
  by (simp add: sound_comment_def)

definition just_replied :: "pr_ports \<Rightarrow> pr_comment \<Rightarrow> comment_outcome \<Rightarrow> string option \<Rightarrow> pr_comment \<Rightarrow> bool" where
  "just_replied ports c outcome sha d \<longleftrightarrow> c_state d = Replied \<and> c_outcome d = Some outcome \<and>
     c_commitSha d = sha \<and> c_commentId d = c_commentId c"

lemma holds_markReplied:
  assumes "sound_comment ports c"
  shows "holds ports (transition ports (markReplied c rid outcome sha poll))
     (\<lambda>d. sound_comment ports d \<and> just_replied ports c outcome sha d)"
proof (rule holds_transition)
  fix now d assume d: "markReplied c rid outcome sha poll now = Inr d"
  then have "apply_comment_op (Op_reply rid outcome sha poll now) c = Inr d" by simp
  then have "comment_inv d" using apply_comment_op_inv assms by (metis sound_comment_def)
  moreover have "just_replied ports c outcome sha d"
    using d by (auto simp: just_replied_def markReplied_def stripOptionalFields_def split: if_splits)
  ultimately show "sound_comment ports d \<and> just_replied ports c outcome sha d"
    by (auto intro!: sound_inv simp: just_replied_def)
qed

lemma holds_block:
  assumes "sound_comment ports c"
  shows "holds ports (transition ports (blockComment c reason)) (\<lambda>_. True)"
proof (rule holds_any, rule holds_transition [where V = "\<lambda>_. True"])
  fix now d assume d: "blockComment c reason now = Inr d"
  then have "apply_comment_op (Op_block reason now) c = Inr d" by simp
  then have "comment_inv d" using apply_comment_op_inv assms by (metis sound_comment_def)
  then show "sound_comment ports d \<and> True"
    using blockComment_fields [OF d] by (auto intro!: sound_inv)
qed

lemma holds_markProcessed:
  assumes "sound_comment ports c" and "c_outcome c = Some Outcome_fixed \<Longrightarrow> landed ports c"
  shows "holds ports (transition ports (markProcessed c cv rv bv)) (\<lambda>_. True)"
proof (rule holds_any, rule holds_transition [where V = "\<lambda>_. True"])
  fix now d assume d: "markProcessed c cv rv bv now = Inr d"
  then have "apply_comment_op (Op_process cv rv bv now) c = Inr d" by simp
  then have "comment_inv d" using apply_comment_op_inv assms(1) by (metis sound_comment_def)
  moreover have "c_outcome d = c_outcome c \<and> c_commitSha d = c_commitSha c"
    using d by (auto simp: markProcessed_def split: if_splits)
  ultimately show "sound_comment ports d \<and> True"
    using assms(2) by (auto simp: sound_comment_def landed_def)
qed

lemma holds_accept:
  "sound_comment ports c \<Longrightarrow> (c_outcome c = Some Outcome_fixed \<Longrightarrow> landed ports c) \<Longrightarrow>
   holds ports (accept ports P c v) (\<lambda>_. True)"
  unfolding accept_def
  by (intro yields_bnd [OF holds_markProcessed] yields_sq holds_act_any holds_close)

section \<open>One comment\<close>

lemma holds_verify: "holds ports (verifyComment ports skip branch c original running)
    (found_verified ports skip branch c running)"
  by (rule gives_keeps [OF gives_verified])

lemma verified_landed:
  "found_verified ports skip branch c running v \<Longrightarrow> vr_ok v \<Longrightarrow> pr_branch ports branch \<Longrightarrow>
   c_outcome c = Some Outcome_fixed \<Longrightarrow> landed ports c"
  by (auto simp: found_verified_def verified_def landed_def)

lemma holds_failed [holds_rules]: "holds ports (task_failed ports c aid) (\<lambda>_. True)"
  unfolding task_failed_def by (intro yields_sq holds_close yields_ret) simp

lemma holds_blocked:
  "sound_comment ports c \<Longrightarrow> holds ports (block_as_asked ports i P c r aid) (\<lambda>_. True)"
  unfolding block_as_asked_def
  by (intro yields_sq holds_record yields_bnd [OF holds_block] holds_close yields_ret) simp_all

lemma holds_no_fix:
  assumes "sound_comment ports c"
  shows "holds ports (task_no_fix ports i c r aid) (\<lambda>_. True)"
  unfolding task_no_fix_def
  by (rule yields_bnd [OF holds_reply_missing], rule yields_sq [OF holds_record],
      rule yields_bnd [OF holds_markReplied [OF assms]], rule yields_sq [OF holds_set_action],
      rule yields_bnd [OF holds_verify], intro yields_if yields_sq holds_accept holds_close yields_ret)
    (auto simp: just_replied_def)

lemma holds_reject [holds_rules]: "holds ports (reject_fix ports i a fb out) (\<lambda>_. True)"
  unfolding reject_fix_def by (intro yields_sq holds_close holds_reset yields_ret) simp

lemma holds_publish:
  assumes "sound_comment ports c" and "pr_branch ports (ti_branch i)"
  shows "holds ports (publish_fix ports i c r sha aid) (\<lambda>_. True)"
  unfolding publish_fix_def
  by (rule yields_sq [OF holds_act_any], rule yields_bnd [OF holds_reply_missing], rule yields_sq [OF holds_record],
      rule yields_bnd [OF holds_markReplied [OF assms(1)]],
      rule yields_bnd [OF holds_verify], intro yields_if yields_sq holds_accept holds_close yields_ret)
    (use assms(2) verified_landed in \<open>auto simp: just_replied_def\<close>)

lemma holds_check_code [holds_rules]: "holds ports (check_code ports c start sha) (\<lambda>_. True)"
  unfolding check_code_def
  by (intro yields_option yields_ret yields_bnd [OF holds_head_any] yields_prod) simp_all

lemma holds_fixed:
  assumes "sound_comment ports c" and "pr_branch ports (ti_branch i)"
  shows "holds ports (task_fixed ports i c r aid) (\<lambda>_. True)"
  unfolding task_fixed_def Let_def
  by (intro yields_bnd [OF holds_head_any] yields_if yields_sq yields_prod yields_bnd [OF holds_check_code]
      yields_option holds_reject holds_set_action holds_publish assms)

lemma holds_step:
  assumes "sound_comment ports c" and "pr_branch ports (ti_branch i)"
  shows "holds ports (task_result_step ports i c aid extracted) (\<lambda>_. True)"
  unfolding task_result_step_def
  by (auto split: option.split task_action.split intro!: yields_bnd [OF holds_reply_missing]
      holds_failed holds_blocked holds_no_fix holds_fixed assms)

lemma holds_body:
  assumes "sound_comment ports c" and "pr_branch ports (ti_branch i)"
  shows "holds ports (task_body ports i c aid) (\<lambda>_. True)"
  unfolding task_body_def
  by (intro yields_sq yields_bnd [OF holds_head_any] yields_bnd [OF holds_act_any] yields_bnd [OF holds_result]
      yields_prod yields_if holds_reset holds_live holds_save holds_head_any holds_failed holds_step assms)

lemma holds_catch: "holds ports (task_catch ports i e) (\<lambda>_. True)"
  unfolding task_catch_def
  by (intro yields_bnd [OF holds_head_any] yields_sq holds_live holds_save holds_reset yields_stop) simp

text \<open>However an attempt ends, the comments are sound again.\<close>

lemma holds_executeTask:
  assumes "sound_comment ports c" and "pr_branch ports (ti_branch i)"
  shows "holds ports (executeTask ports i c) (\<lambda>_. True)"
  unfolding executeTask_def new_id_def read_now_def
  by (intro yields_bnd [OF holds_head_any] yields_sq holds_begin holds_recover holds_body holds_catch assms)

section \<open>A batch\<close>

lemma holds_fail_batch: "holds ports (fail_batch ports i a fb extra) (\<lambda>_. True)"
  unfolding fail_batch_def by (intro yields_sq holds_close holds_reset yields_ask) simp

lemma holds_check_all: "holds ports (check_all ports i sha rs) (\<lambda>_. True)"
  unfolding check_all_def
  by (rule yields_bnd [OF holds_gather], rule yields_bnd [OF holds_check_code]) (simp_all add: yields_ret)

lemma holds_checked: "holds ports (checked_results ports i results) (\<lambda>_. True)"
  unfolding checked_results_def Let_def
  by (rule yields_bnd [OF holds_head_any], rule yields_if, rule yields_bnd [OF holds_fail_batch], simp add: yields_ret,
      rule yields_bnd [where V = "\<lambda>_. True"], rule yields_if, rule holds_head_any, simp add: yields_ret,
      rule yields_prod, rule yields_if, rule yields_bnd [OF holds_fail_batch], simp add: yields_ret,
      rule yields_bnd [OF holds_check_all], rule yields_if, rule yields_bnd [OF holds_fail_batch], simp add: yields_ret,
      rule yields_if, rule yields_sq [OF holds_act_any]) (simp_all add: yields_ret)

lemma holds_failing: "holds ports (bnd (fail_batch ports i a fb extra) (\<lambda>b. ret (Inl b))) (\<lambda>_. True)"
  by (rule yields_bnd [OF holds_fail_batch]) (simp add: yields_ret)

lemma holds_before: "holds ports (batch_before ports i cs) (\<lambda>_. True)"
  unfolding batch_before_def
  by (rule yields_sq [OF holds_reset], rule yields_option, rule yields_stop, simp,
      intro yields_sq yields_bnd [OF holds_head_any] yields_bnd [OF holds_act_any] yields_bnd [OF holds_result]
        yields_prod yields_if yields_option yields_stop holds_live holds_save holds_head_any holds_failing holds_checked) simp

text \<open>A verification that vouches for the fix of a batch.\<close>

definition vouches :: "pr_ports \<Rightarrow> string \<Rightarrow> string \<Rightarrow> verification \<Rightarrow> bool" where
  "vouches ports branch sha v \<longleftrightarrow> (vr_ok v \<longrightarrow> on_remote ports branch sha)"

lemma holds_remote: "holds ports (bnd (verifyRemoteFixCommit ports branch start (Some sha))
    (\<lambda>r. ret (Some (remote_verification r)))) (\<lambda>x. \<forall>v. x = Some v \<longrightarrow> vouches ports branch sha v)"
  by (rule yields_bnd [OF gives_keeps [OF gives_remote]], rule yields_ret)
    (auto simp: remote_good_def remote_verification_def vouches_def Let_def)

lemma holds_finalize:
  assumes "sound_comment ports c" and "pr_branch ports (ti_branch i)"
    and "outcome = Outcome_fixed \<Longrightarrow> \<exists>s. sha = Some s \<and> vouches ports (ti_branch i) s v"
  shows "holds ports (finalizeBatchReply ports i c aid r earlier outcome sha v) (\<lambda>_. True)"
  unfolding finalizeBatchReply_def Let_def
  by (rule yields_bnd [OF holds_reply], rule yields_sq [OF holds_record],
      rule yields_bnd [OF holds_markReplied [OF assms(1)]], rule yields_sq [OF holds_set_action],
      intro yields_if yields_sq holds_accept holds_close yields_ret)
    (use assms(2,3) in \<open>auto simp: just_replied_def vouches_def landed_def\<close>)

lemma holds_entry:
  assumes "sound_comment ports c" and "pr_branch ports (ti_branch i)"
    and "\<forall>v. fixed = Some v \<longrightarrow> vouches ports (ti_branch i) sha v"
  shows "holds ports (batch_entry ports i results sha fixed earlier c) (\<lambda>_. True)"
  unfolding batch_entry_def
  by (rule yields_bnd [where V = "\<lambda>_. True"], rule yields_ask, simp)
    (use assms in \<open>auto split: option.split task_action.split intro!: yields_stop yields_bnd [OF holds_reply]
      holds_blocked holds_finalize\<close>)

lemma holds_after:
  assumes "list_all (sound_comment ports) cs" and "pr_branch ports (ti_branch i)"
  shows "holds ports (batch_after ports i cs results sha pushed) (\<lambda>_. True)"
  unfolding batch_after_def
  by (rule yields_bnd [where V = "\<lambda>x. \<forall>v. x = Some v \<longrightarrow> vouches ports (ti_branch i) sha v"],
      rule yields_if, rule holds_remote, rule yields_ret, simp, rule yields_bnd [OF holds_head_any],
      rule yields_bnd [OF holds_gather], rule holds_entry)
    (use assms in \<open>auto intro: yields_ret simp: list_all_iff\<close>)

lemma holds_batch_catch: "holds ports (batch_catch ports i pushed e) (\<lambda>_. True)"
  unfolding batch_catch_def
  by (intro yields_bnd [OF holds_head_any] yields_sq holds_live holds_save yields_only_if holds_reset yields_stop) simp

lemma holds_executeBatch:
  assumes "list_all (sound_comment ports) cs" and "pr_branch ports (ti_branch i)"
  shows "holds ports (executeBatch ports i cs) (\<lambda>_. True)"
proof -
  have attempts: "holds ports (gather (\<lambda>(aid, c). bnd (read_now ports)
      (\<lambda>now. ret (new_attempt i head aid now (c_commentId c)))) xs) (\<lambda>_. True)" for head xs
    unfolding read_now_def by (rule holds_gather) (auto intro!: yields_bnd [OF holds_head_any] yields_ret)
  show ?thesis
    unfolding executeBatch_def
    by (intro yields_sq yields_bnd [OF holds_gather] yields_bnd [OF holds_head_any] yields_bnd [OF attempts]
        holds_begin yields_bnd [OF holds_recover [OF holds_before holds_batch_catch]] yields_sum yields_prod
        holds_recover holds_after holds_batch_catch assms yields_ret, unfold new_id_def)
      (auto intro: holds_head_any)
qed

end
