(* ===== verification/Review_Process.thy ===== *)
theory Review_Process
  imports Comment_Batcher Review_Runner_Inv
begin

text \<open>
  One poll of the review of a pull request, \<^verbatim>\<open>application/src/pr-review/process-pr-review-comments.ts\<close>,
  and the readiness check of \<^verbatim>\<open>check-merge-readiness.ts\<close>. The work queue is processed with fuel;
  \<open>queue_weight\<close> of it is enough. The warnings, the selection of the context and the feedback of
  earlier attempts only go into prompts and logs and are left out, but for the calls that can throw.
\<close>

section \<open>Data\<close>

record process_env =
  pe_runId :: ident
  pe_prNumber :: int
  pe_pollNumber :: int
  pe_baseBranch :: "string option"
  pe_repoRoot :: "string option"

definition ESCALATION_BUDGET :: nat where
  "ESCALATION_BUDGET = 3"

record work_item =
  wi_ids :: "int list"
  wi_attempt :: nat
  wi_start :: "string option"

record queue_state =
  qs_items :: "work_item list"
  qs_running :: string
  qs_diff :: "string option"
  qs_results :: "task_output list"

datatype poll_outcome = ALL_RESOLVED | PARTIAL_PROGRESS | POLL_BLOCKED | NO_UNRESOLVED

record process_output =
  po_outcome :: poll_outcome
  po_processed :: nat
  po_blocked :: nat
  po_allResolved :: bool

fun thread :: "('a \<Rightarrow> 'b \<Rightarrow> 'b rv) \<Rightarrow> 'a list \<Rightarrow> 'b \<Rightarrow> 'b rv" where
  "thread f [] b = ret b"
| "thread f (x # xs) b = bnd (f x b) (thread f xs)"

definition open_task :: "task_output \<Rightarrow> bool" where
  "open_task out \<longleftrightarrow> \<not> to_processed out \<and> \<not> to_blocked out \<and> to_action out \<noteq> Out_no_fix"

definition thrown_output :: "bool \<Rightarrow> int \<Rightarrow> task_output" where
  "thrown_output blocked i = \<lparr>to_id = i, to_action = Out_failed, to_processed = False, to_blocked = blocked,
     to_buildError = None, to_codeReason = None, to_attemptId = None\<rparr>"

definition fallback_reason :: "task_output \<Rightarrow> string" where
  "fallback_reason out = (case to_codeReason out of
       Some r \<Rightarrow> ''verified incorrect: '' @ r
     | None \<Rightarrow> (case to_buildError out of
         Some e \<Rightarrow> ''code verified correct but build failing: '' @ e
       | None \<Rightarrow> ''task failed after '' @ show_nat ESCALATION_BUDGET @ '' attempts''))"

section \<open>Steps\<close>

text \<open>\<open>rollbackFix\<close> if there is one; its answer only decides on a warning.\<close>

definition rollback_fix :: "pr_ports \<Rightarrow> string \<Rightarrow> unit rv" where
  "rollback_fix ports sha = (case pp_rollback ports of
       None \<Rightarrow> ret ()
     | Some f \<Rightarrow> sq (act (\<lambda>n. f n sha) [Rolled_back_to sha]) (ret ()))"

text \<open>The context of the prompt: a failure is only warned of.\<close>

definition select_context :: "pr_ports \<Rightarrow> string \<Rightarrow> unit rv" where
  "select_context ports head = (case pp_context ports of
       None \<Rightarrow> ret ()
     | Some f \<Rightarrow> catch (ask_port (\<lambda>n. f n head)) (\<lambda>_. Some ()) (\<lambda>x. x))"

definition pending_of :: "process_env \<Rightarrow> int list \<Rightarrow> pr_comment list rv" where
  "pending_of env ids = lookup (\<lambda>db. filter (\<lambda>c. c_state c = Pending)
     (List.map_filter (getComment db (pe_runId env)) ids))"

definition task_input_of :: "process_env \<Rightarrow> string \<Rightarrow> string \<Rightarrow> string \<Rightarrow> nat \<Rightarrow> task_input" where
  "task_input_of env branch start original attempt =
     \<lparr>ti_runId = pe_runId env, ti_prNumber = pe_prNumber env, ti_pollNumber = pe_pollNumber env,
      ti_branch = branch, ti_start = start, ti_original = original,
      ti_mode = (if attempt = 1 then ''initial_full'' else ''intermediate_delta''),
      ti_retry = attempt, ti_skip = False\<rparr>"

definition retry_item :: "nat \<Rightarrow> string option \<Rightarrow> pr_comment \<Rightarrow> work_item" where
  "retry_item attempt start c = \<lparr>wi_ids = [c_commentId c], wi_attempt = attempt + 1, wi_start = start\<rparr>"

definition still_open :: "task_output list \<Rightarrow> pr_comment \<Rightarrow> bool" where
  "still_open outs c \<longleftrightarrow> (case List.find (\<lambda>out. to_id out = c_commentId c) outs of
       None \<Rightarrow> False | Some out \<Rightarrow> open_task out)"

text \<open>The budget of attempts is used up: the open comments of the batch are blocked.\<close>

definition give_up :: "pr_ports \<Rightarrow> pr_comment list \<Rightarrow> task_output \<Rightarrow> task_output rv" where
  "give_up ports cs out =
     (if \<not> open_task out then ret out
      else case List.find (\<lambda>c. c_commentId c = to_id out) cs of
          None \<Rightarrow> ret out
        | Some c \<Rightarrow> bnd (transition ports (blockComment c (fallback_reason out)))
            (\<lambda>_. ret (out\<lparr>to_blocked := True\<rparr>)))"

definition now_at_head :: "pr_ports \<Rightarrow> queue_state \<Rightarrow> queue_state rv" where
  "now_at_head ports st = bnd (ask_port (pp_head ports)) (\<lambda>head. ret (st\<lparr>qs_running := head\<rparr>))"

definition after_batch ::
  "pr_ports \<Rightarrow> nat \<Rightarrow> string \<Rightarrow> pr_comment list \<Rightarrow> batch_output \<Rightarrow> queue_state \<Rightarrow> queue_state rv" where
  "after_batch ports attempt start cs b st =
     (let outs = bo_outputs b; done = st\<lparr>qs_results := qs_results st @ outs\<rparr> in
      if list_all (\<lambda>out. \<not> open_task out) outs then now_at_head ports done
      else if bo_split b \<and> attempt < ESCALATION_BUDGET
      then sq (rollback_fix ports start)
        (now_at_head ports (done\<lparr>qs_items :=
           map (retry_item attempt None) (filter (still_open outs) cs) @ qs_items st\<rparr>))
      else if length cs = 1 \<and> attempt < ESCALATION_BUDGET
      then now_at_head ports (done\<lparr>qs_items :=
           map (retry_item attempt (Some start)) (filter (still_open outs) cs) @ qs_items st\<rparr>)
      else if attempt = ESCALATION_BUDGET
      then bnd (gather (give_up ports cs) outs) (\<lambda>outs'.
        sq (only_if (list_ex open_task outs) (rollback_fix ports start))
        (now_at_head ports (st\<lparr>qs_results := qs_results st @ outs'\<rparr>)))
      else ret done)"

definition process_batch ::
  "pr_ports \<Rightarrow> task_input \<Rightarrow> string \<Rightarrow> pr_comment list \<Rightarrow> queue_state \<Rightarrow> queue_state rv" where
  "process_batch ports i start cs st =
     sq (select_context ports (ti_start i))
     (bnd (recover (executeBatch ports i cs) (\<lambda>_. ret
        \<lparr>bo_outputs = map (\<lambda>c. thrown_output False (c_commentId c)) cs, bo_split = (1 < length cs)\<rparr>)) (\<lambda>b.
     after_batch ports (ti_retry i) start cs b st))"

definition after_single ::
  "pr_ports \<Rightarrow> nat \<Rightarrow> string \<Rightarrow> pr_comment \<Rightarrow> task_output \<Rightarrow> queue_state \<Rightarrow> queue_state rv" where
  "after_single ports attempt target c out st =
     (if attempt = ESCALATION_BUDGET \<and> \<not> to_processed out \<and> \<not> to_blocked out
      then bnd (transition ports (blockComment c (fallback_reason out))) (\<lambda>_.
        sq (rollback_fix ports target)
        (ret (st\<lparr>qs_results := qs_results st @ [thrown_output True (c_commentId c)]\<rparr>)))
      else ret (st\<lparr>qs_results := qs_results st @ [out],
        qs_items := (if attempt < ESCALATION_BUDGET then [retry_item attempt (Some target) c] else []) @ qs_items st\<rparr>))"

definition process_single ::
  "pr_ports \<Rightarrow> task_input \<Rightarrow> string \<Rightarrow> pr_comment \<Rightarrow> queue_state \<Rightarrow> queue_state rv" where
  "process_single ports i start c st =
     (let target = (if ti_retry i = 1 then qs_running st else start) in
     sq (select_context ports (ti_start i))
     (bnd (recover (bnd (executeTask ports i c) (\<lambda>out.
         if open_task out then ret (False, out, qs_running st)
         else bnd (ask_port (pp_head ports)) (\<lambda>head. ret (True, out, head))))
       (\<lambda>_. ret (False, thrown_output False (c_commentId c), qs_running st))) (\<lambda>(finished, out, head).
     if finished then ret (st\<lparr>qs_running := head, qs_results := qs_results st @ [out]\<rparr>)
     else after_single ports (ti_retry i) target c out st)))"

text \<open>A diff that cannot be made blocks the comments of the item.\<close>

definition block_all :: "pr_ports \<Rightarrow> string \<Rightarrow> pr_comment list \<Rightarrow> unit rv" where
  "block_all ports reason = each (\<lambda>c. bnd (transition ports (blockComment c reason)) (\<lambda>_. ret ()))"

definition exn_text :: "review_exn \<Rightarrow> string" where
  "exn_text e = (case e of Review_threw m \<Rightarrow> m | Review_comment _ \<Rightarrow> ''comment'')"

definition make_diff :: "pr_ports \<Rightarrow> nat \<Rightarrow> string \<Rightarrow> queue_state \<Rightarrow> (string + string \<times> string option) rv" where
  "make_diff ports attempt head st =
     (if attempt = 1 \<and> qs_diff st \<noteq> None then ret (Inr (the (qs_diff st), None))
      else catch (ask_port (\<lambda>n. pp_diff ports n head)) (\<lambda>e. Some (Inl (''Diff generation failed: '' @ exn_text e)))
        (\<lambda>d. Inr (d, qs_diff st)))"

definition batching :: "pr_ports \<Rightarrow> bool" where
  "batching ports \<longleftrightarrow> pp_renderBatch ports \<noteq> None \<and> pp_extractBatch ports \<noteq> None"

definition process_item ::
  "pr_ports \<Rightarrow> process_env \<Rightarrow> string \<Rightarrow> string \<Rightarrow> work_item \<Rightarrow> queue_state \<Rightarrow> queue_state rv" where
  "process_item ports env branch original item st0 =
     bnd (if wi_attempt item = 1 \<and> qs_diff st0 \<noteq> None then ret (qs_running st0) else ask_port (pp_head ports)) (\<lambda>live.
     let st = st0\<lparr>qs_running := live\<rparr>;
         start = (if wi_attempt item = 1 then live else (case wi_start item of None \<Rightarrow> live | Some s \<Rightarrow> s));
         i = task_input_of env branch live original (wi_attempt item)
     in bnd (pending_of env (wi_ids item)) (\<lambda>cs.
     if cs = [] then ret st
     else bnd (make_diff ports (wi_attempt item) live st) (\<lambda>d. case d of
         Inl reason \<Rightarrow> sq (block_all ports reason cs)
           (ret (st\<lparr>qs_results := qs_results st @ map (\<lambda>c. thrown_output True (c_commentId c)) cs\<rparr>))
       | Inr (_, rest) \<Rightarrow>
           if batching ports then process_batch ports i start cs (st\<lparr>qs_diff := rest\<rparr>)
           else bnd (thread (process_single ports i start) cs (st\<lparr>qs_diff := rest\<rparr>)) (now_at_head ports))))"

fun process_queue ::
  "nat \<Rightarrow> pr_ports \<Rightarrow> process_env \<Rightarrow> string \<Rightarrow> string \<Rightarrow> queue_state \<Rightarrow> queue_state option rv" where
  "process_queue fuel ports env branch original st = (case qs_items st of
       [] \<Rightarrow> ret (Some st)
     | item # items \<Rightarrow> (case fuel of
         0 \<Rightarrow> ret None
       | Suc k \<Rightarrow> bnd (process_item ports env branch original item (st\<lparr>qs_items := items\<rparr>))
           (process_queue k ports env branch original)))"

declare process_queue.simps [simp del]

section \<open>The poll\<close>

text \<open>The comments of reviewers, without replies and without what belongs to an approval.\<close>

definition reviewer_comments :: "gh_comment list \<Rightarrow> gh_review list \<Rightarrow> gh_comment list" where
  "reviewer_comments raw reviews =
     (let approved = map gr_id (filter gr_approved reviews)
      in filter (\<lambda>c. gc_inReplyTo c = None \<and>
           (case gc_reviewId c of None \<Rightarrow> 0 | Some r \<Rightarrow> r) \<notin> set approved) raw)"

definition store_new :: "pr_ports \<Rightarrow> process_env \<Rightarrow> gh_comment \<Rightarrow> unit rv" where
  "store_new ports env rc =
     bnd (lookup (\<lambda>db. getComment db (pe_runId env) (gc_id rc))) (\<lambda>known. case known of
       Some _ \<Rightarrow> ret ()
     | None \<Rightarrow> bnd (read_now ports) (\<lambda>now. store (upsertComment (createPrReviewComment
         \<lparr>ci_runId = pe_runId env, ci_prNumber = pe_prNumber env, ci_commentId = gc_id rc, ci_path = gc_path rc,
          ci_line = (case gc_line rc of None \<Rightarrow> 0 | Some l \<Rightarrow> l), ci_reviewer = gc_reviewer rc,
          ci_body = gc_body rc, ci_now = now\<rparr>))))"

definition verify_orphan :: "pr_ports \<Rightarrow> process_env \<Rightarrow> string \<Rightarrow> string option \<Rightarrow> pr_comment \<Rightarrow> (nat \<times> nat) rv" where
  "verify_orphan ports env branch start c =
     bnd (verifyComment ports False branch c start start) (\<lambda>v.
     if vr_ok v
     then bnd (transition ports (markProcessed c (vr_commit v) (vr_reply v) (vr_build v))) (\<lambda>_.
       sq (act (\<lambda>n. pp_resolveThread ports n (c_commentId c)) [Thread_resolved (c_commentId c)]) (ret (0, 1)))
     else if ESCALATION_BUDGET \<le> c_attempts c
     then bnd (transition ports (blockComment c ''verification failed'')) (\<lambda>_. ret (1, 0))
     else bnd (transition ports (resetForRetry c (pe_pollNumber env))) (\<lambda>_. ret (0, 0)))"

text \<open>Replied comments whose reply was never verified: how many are blocked, how many processed.\<close>

definition verifyOrphaned :: "pr_ports \<Rightarrow> process_env \<Rightarrow> string option \<Rightarrow> (nat \<times> nat) rv" where
  "verifyOrphaned ports env start =
     bnd (lookup (\<lambda>db. filter (\<lambda>c. c_state c = Replied \<and> \<not> c_replyVerified c) (listComments db (pe_runId env)))) (\<lambda>orphans.
     if orphans = [] then ret (0, 0)
     else bnd (ask_port (pp_getPr ports)) (\<lambda>pr.
       bnd (gather (verify_orphan ports env (gp_headRef pr) start) orphans) (\<lambda>counts.
       ret (sum_list (map fst counts), sum_list (map snd counts)))))"

definition recordPoll ::
  "pr_ports \<Rightarrow> process_env \<Rightarrow> time \<Rightarrow> nat \<Rightarrow> nat \<Rightarrow> poll_terminal option \<Rightarrow> poll_status \<Rightarrow> unit rv" where
  "recordPoll ports env started fetched processed terminal status =
     bnd (new_id ports) (\<lambda>i. bnd (read_now ports) (\<lambda>now.
     store (insertPollAttempt \<lparr>pa_id = i, pa_runId = pe_runId env, pa_prNumber = pe_prNumber env,
       pa_pollNumber = pe_pollNumber env, pa_status = status, pa_fetched = fetched, pa_processed = processed,
       pa_startedAt = started, pa_completedAt = Some now, pa_nextPollAt = None, pa_terminal = terminal\<rparr>)))"

text \<open>What the stored comments say at the end of a poll.\<close>

definition in_progress :: "pr_comment list \<Rightarrow> bool" where
  "in_progress cs \<longleftrightarrow> list_ex isUnresolved cs \<or> list_ex (\<lambda>c. c_state c = Replied \<and> \<not> c_replyVerified c) cs"

definition any_blocked :: "pr_comment list \<Rightarrow> bool" where
  "any_blocked cs \<longleftrightarrow> list_ex (\<lambda>c. c_state c = Blocked) cs"

definition poll_end :: "pr_comment list \<Rightarrow> poll_terminal option" where
  "poll_end cs = (if in_progress cs then None else if any_blocked cs then Some Poll_blocked else Some All_resolved)"

definition poll_result :: "nat \<Rightarrow> nat \<Rightarrow> pr_comment list \<Rightarrow> process_output" where
  "poll_result processed blocked cs = (let resolved = (\<not> in_progress cs \<and> \<not> any_blocked cs) in
     \<lparr>po_outcome = (if 0 < processed \<and> resolved then ALL_RESOLVED
        else if 0 < processed \<or> 0 < blocked then PARTIAL_PROGRESS else POLL_BLOCKED),
      po_processed = processed, po_blocked = blocked, po_allResolved = resolved\<rparr>)"

text \<open>The head of the base branch, on the remote and in the checkout of the repository: only compared for a warning.\<close>

definition base_heads :: "pr_ports \<Rightarrow> process_env \<Rightarrow> bool \<Rightarrow> bool \<Rightarrow> (string option \<times> string option) rv" where
  "base_heads ports env remote local =
     bnd (if remote \<and> truthy (pe_baseBranch env) then ask_port (\<lambda>n. pp_remoteRef ports n (the (pe_baseBranch env))) else ret None) (\<lambda>r.
     bnd (if local \<and> truthy (pe_repoRoot env) \<and> truthy (pe_baseBranch env)
          then bnd (ask_port (\<lambda>n. pp_headOf ports n (the (pe_repoRoot env)))) (\<lambda>h. ret (Some h)) else ret None) (\<lambda>l.
     ret (r, l)))"

definition first_items :: "process_env \<Rightarrow> string \<Rightarrow> comment_batch \<Rightarrow> work_item list rv" where
  "first_items env running b = bnd (pending_of env (cb_ids b)) (\<lambda>cs.
     ret (if cs = [] then [] else [\<lparr>wi_ids = map c_commentId cs, wi_attempt = 1, wi_start = Some running\<rparr>]))"

definition quiet_poll :: "pr_ports \<Rightarrow> process_env \<Rightarrow> time \<Rightarrow> nat \<Rightarrow> process_output rv" where
  "quiet_poll ports env started fetched =
     sq (verifyOrphaned ports env None)
     (bnd (lookup (\<lambda>db. listComments db (pe_runId env))) (\<lambda>cs.
     sq (recordPoll ports env started fetched 0 (poll_end cs) Poll_completed)
     (ret \<lparr>po_outcome = NO_UNRESOLVED, po_processed = 0,
        po_blocked = length (filter (\<lambda>c. c_state c = Blocked) cs),
        po_allResolved = (\<not> in_progress cs \<and> \<not> any_blocked cs)\<rparr>)))"

definition close_poll ::
  "pr_ports \<Rightarrow> process_env \<Rightarrow> time \<Rightarrow> nat \<Rightarrow> string \<Rightarrow> task_output list \<Rightarrow> process_output rv" where
  "close_poll ports env started fetched original results =
     bnd (verifyOrphaned ports env (Some original)) (\<lambda>(orphan_blocked, orphan_processed).
     bnd (lookup (\<lambda>db. listComments db (pe_runId env))) (\<lambda>cs.
     let processed = length (filter to_processed results) + orphan_processed;
         blocked = length (filter to_blocked results) + orphan_blocked
     in sq (recordPoll ports env started fetched processed (poll_end cs) Poll_completed)
       (ret (poll_result processed blocked cs))))"

definition active_poll ::
  "nat \<Rightarrow> pr_ports \<Rightarrow> process_env \<Rightarrow> time \<Rightarrow> pr_comment list \<Rightarrow> gh_pr \<Rightarrow> process_output option rv" where
  "active_poll fuel ports env started unresolved pr =
     bnd (ask_port (pp_head ports)) (\<lambda>original.
     bnd (base_heads ports env True True) (\<lambda>(remote, local).
     bnd (ask_port (pp_head ports)) (\<lambda>running.
     bnd (ask_port (\<lambda>n. pp_diff ports n running)) (\<lambda>diff.
     bnd (gather (first_items env running) (groupCommentsIntoBatches unresolved (Some diff) None)) (\<lambda>items.
     bnd (process_queue fuel ports env (gp_headRef pr) original
       \<lparr>qs_items = concat items, qs_running = running, qs_diff = Some diff, qs_results = []\<rparr>) (\<lambda>r. case r of
         None \<Rightarrow> ret None
       | Some st \<Rightarrow> sq (base_heads ports env (truthy remote) (truthy local))
           (bnd (close_poll ports env started (length unresolved) original (qs_results st)) (\<lambda>out. ret (Some out)))))))))"

definition executePoll :: "nat \<Rightarrow> pr_ports \<Rightarrow> process_env \<Rightarrow> process_output option rv" where
  "executePoll fuel ports env =
     bnd (read_now ports) (\<lambda>started.
     bnd (ask_port (pp_listComments ports)) (\<lambda>raw.
     bnd (ask_port (pp_listReviews ports)) (\<lambda>reviews.
     let rcs = reviewer_comments raw reviews in
     sq (each (store_new ports env) rcs)
     (bnd (lookup (\<lambda>db. filter isUnresolved (listComments db (pe_runId env)))) (\<lambda>unresolved.
     if unresolved = [] then bnd (quiet_poll ports env started (length rcs)) (\<lambda>out. ret (Some out))
     else bnd (ask_port (pp_getPr ports)) (\<lambda>pr.
       if \<not> gp_open pr
       then sq (recordPoll ports env started (length unresolved) 0 None Poll_failed)
         (ret (Some \<lparr>po_outcome = POLL_BLOCKED, po_processed = 0, po_blocked = 0, po_allResolved = False\<rparr>))
       else active_poll fuel ports env started unresolved pr))))))"

section \<open>Readiness\<close>

record merge_readiness =
  rd_ready :: bool
  rd_blocked :: "(int \<times> string) list"
  rd_unverified :: "(int \<times> comment_severity) list"

definition comment_severity_of :: "pr_comment \<Rightarrow> comment_severity option" where
  "comment_severity_of c = (case c_severity c of Some s \<Rightarrow> Some s | None \<Rightarrow> parseSeverity (c_body c))"

definition checkMergeReadiness :: "review_db \<Rightarrow> ident \<Rightarrow> merge_readiness" where
  "checkMergeReadiness db run =
     (let cs = listComments db run;
          blocked = map (\<lambda>c. (c_commentId c, if truthy (c_blockedReason c) then the (c_blockedReason c) else ''unknown''))
            (filter (\<lambda>c. c_state c = Blocked) cs);
          unverified = map (\<lambda>c. (c_commentId c, case comment_severity_of c of Some s \<Rightarrow> s | None \<Rightarrow> High))
            (filter (\<lambda>c. comment_severity_of c \<in> {Some Critical, Some High})
              (filter (\<lambda>c. c_state c \<noteq> Processed \<and> c_state c \<noteq> Blocked) cs))
      in \<lparr>rd_ready = (blocked = [] \<and> unverified = []), rd_blocked = blocked, rd_unverified = unverified\<rparr>)"

end
