(* ===== verification/Review_Process_Props.thy ===== *)
theory Review_Process_Props
  imports Review_Process
begin

text \<open>
  What a poll of the review of a pull request guarantees: the comments stay sound, a processed fix is
  on the branch of the pull request, \<open>allResolved\<close> means that every comment is processed, the queue
  empties, and a comment is ready to merge only if it is processed or of low severity.
\<close>

section \<open>The comments stay sound\<close>

lemma holds_lookup:
  "(\<And>db. sound_db ports db \<Longrightarrow> V (f db)) \<Longrightarrow> holds ports (lookup f) V"
  unfolding lookup_def by (rule yields_ask) simp

lemma holds_unit: "holds ports m (\<lambda>_. True) \<Longrightarrow> holds ports (bnd m (\<lambda>x. ret (g x))) (\<lambda>_. True)"
  by (erule yields_bnd) (simp add: yields_ret)

lemma holds_thread:
  "(\<And>x b. x \<in> set xs \<Longrightarrow> holds ports (f x b) (\<lambda>_. True)) \<Longrightarrow> holds ports (thread f xs b) (\<lambda>_. True)"
  by (induction xs arbitrary: b) (auto intro!: yields_ret intro: yields_bnd)

lemma holds_rollback: "holds ports (rollback_fix ports sha) (\<lambda>_. True)"
  unfolding rollback_fix_def by (intro yields_option yields_ret yields_sq holds_act_any) simp_all

lemma holds_context: "holds ports (select_context ports head) (\<lambda>_. True)"
  unfolding select_context_def
  by (intro yields_option yields_ret yields_catch [where V = "\<lambda>_. True" and Y = "\<lambda>_. True"] holds_head_any) simp_all

lemma holds_at_head: "holds ports (now_at_head ports st) (\<lambda>_. True)"
  unfolding now_at_head_def by (rule holds_unit) (rule holds_head_any)

lemma holds_pending: "holds ports (pending_of env ids) (list_all (sound_comment ports))"
  unfolding pending_of_def
  by (rule holds_lookup)
    (auto simp: list_all_iff map_filter_def sound_db_def dest: getComment_key)

lemma holds_give_up:
  "list_all (sound_comment ports) cs \<Longrightarrow> holds ports (give_up ports cs out) (\<lambda>_. True)"
  unfolding give_up_def
  by (intro yields_if yields_ret yields_option holds_unit holds_block)
    (auto simp: list_all_iff dest!: find_SomeD)

lemma holds_after_batch:
  "list_all (sound_comment ports) cs \<Longrightarrow> holds ports (after_batch ports a start cs b st) (\<lambda>_. True)"
  unfolding after_batch_def Let_def
  by (intro yields_if yields_sq holds_at_head holds_rollback yields_bnd [OF holds_gather] holds_give_up
      yields_only_if yields_ret) simp_all

lemma holds_process_batch:
  assumes "list_all (sound_comment ports) cs" and "pr_branch ports (ti_branch i)"
  shows "holds ports (process_batch ports i start cs st) (\<lambda>_. True)"
  unfolding process_batch_def
  by (intro yields_sq holds_context yields_bnd [OF holds_recover [OF holds_executeBatch]] holds_after_batch assms
      yields_ret) simp

lemma holds_after_single:
  "sound_comment ports c \<Longrightarrow> holds ports (after_single ports a target c out st) (\<lambda>_. True)"
  unfolding after_single_def
  by (intro yields_if yields_bnd [OF holds_block] yields_sq holds_rollback yields_ret) simp_all

lemma holds_process_single:
  assumes "sound_comment ports c" and "pr_branch ports (ti_branch i)"
  shows "holds ports (process_single ports i start c st) (\<lambda>_. True)"
  unfolding process_single_def Let_def
  by (rule yields_sq [OF holds_context], rule yields_bnd [OF holds_recover [where V = "\<lambda>_. True"]],
      rule yields_bnd [OF holds_executeTask [OF assms]], rule yields_if)
    (auto intro!: yields_ret holds_unit holds_head_any holds_after_single assms split: prod.split)

lemma holds_block_all:
  "list_all (sound_comment ports) cs \<Longrightarrow> holds ports (block_all ports reason cs) (\<lambda>_. True)"
  unfolding block_all_def by (intro yields_each holds_unit holds_block) (simp add: list_all_iff)

lemma holds_make_diff: "holds ports (make_diff ports a head st) (\<lambda>_. True)"
  unfolding make_diff_def
  by (intro yields_if yields_ret yields_catch [where V = "\<lambda>_. True" and Y = "\<lambda>_. True"] holds_head_any) simp_all

lemma holds_item:
  assumes "pr_branch ports branch"
  shows "holds ports (process_item ports env branch original item st) (\<lambda>_. True)"
proof -
  have branch: "pr_branch ports (ti_branch (task_input_of env branch live original a))" for live a
    using assms by (simp add: task_input_of_def)
  show ?thesis
    unfolding process_item_def Let_def
    by (rule yields_bnd [where V = "\<lambda>_. True"], rule yields_if, simp add: yields_ret, rule holds_head_any,
        rule yields_bnd [OF holds_pending], rule yields_if, simp add: yields_ret,
        rule yields_bnd [OF holds_make_diff], rule yields_sum, rule yields_sq [OF holds_block_all], assumption,
        simp add: yields_ret, rule yields_prod, rule yields_if, rule holds_process_batch [OF _ branch], assumption,
        rule yields_bnd [OF holds_thread], rule holds_process_single [OF _ branch])
      (auto intro: holds_at_head simp: list_all_iff)
qed

lemma holds_queue:
  assumes "pr_branch ports branch"
  shows "holds ports (process_queue fuel ports env branch original st) (\<lambda>_. True)"
proof (induction fuel arbitrary: st)
  case 0
  show ?case by (subst process_queue.simps) (auto intro: yields_ret split: list.split)
next
  case (Suc k)
  show ?case
    by (subst process_queue.simps) (auto intro!: yields_ret yields_bnd [OF holds_item [OF assms]] Suc split: list.split)
qed

lemma holds_reset_comment:
  assumes "sound_comment ports c"
  shows "holds ports (transition ports (resetForRetry c poll)) (\<lambda>_. True)"
proof (rule holds_any, rule holds_transition [where V = "\<lambda>_. True"])
  fix now d assume d: "resetForRetry c poll now = Inr d"
  then have "apply_comment_op (Op_retry poll now) c = Inr d" by simp
  then have "comment_inv d" using apply_comment_op_inv assms by (metis sound_comment_def)
  then show "sound_comment ports d \<and> True" using resetForRetry_fields [OF d] by (auto intro!: sound_inv)
qed

lemma holds_verify_orphan:
  assumes "sound_comment ports c" and "pr_branch ports branch"
  shows "holds ports (verify_orphan ports env branch start c) (\<lambda>_. True)"
  unfolding verify_orphan_def
  by (rule yields_bnd [OF holds_verify], intro yields_if yields_bnd [OF holds_markProcessed] yields_sq holds_act_any
      yields_bnd [OF holds_block] yields_bnd [OF holds_reset_comment] yields_ret)
    (use assms verified_landed in auto)

lemma holds_listed:
  "holds ports (lookup (\<lambda>db. filter P (listComments db run))) (list_all (sound_comment ports))"
  by (rule holds_lookup) (auto simp: list_all_iff listComments_set sound_db_def)

lemma known_branch: "holds ports (ask_port (pp_getPr ports)) (\<lambda>pr. pr_branch ports (gp_headRef pr))"
  by (rule yields_weaken [OF holds_ask]) (auto simp: pr_branch_def)

lemma holds_verifyOrphaned: "holds ports (verifyOrphaned ports env start) (\<lambda>_. True)"
  unfolding verifyOrphaned_def
  by (rule yields_bnd [OF holds_listed], rule yields_if, simp add: yields_ret, rule yields_bnd [OF known_branch],
      rule holds_unit, rule holds_gather, rule holds_verify_orphan) (auto simp: list_all_iff)

lemma holds_recordPoll: "holds ports (recordPoll ports env started f p t status) (\<lambda>_. True)"
  unfolding recordPoll_def new_id_def read_now_def
  by (intro yields_bnd [OF holds_head_any] holds_store) (simp add: sound_db_def insertPollAttempt_def)

lemma holds_store_new: "holds ports (store_new ports env rc) (\<lambda>_. True)"
  unfolding store_new_def read_now_def
  by (rule yields_bnd [OF holds_lookup [where V = "\<lambda>_. True"]], simp, intro yields_option yields_ret
      yields_bnd [OF holds_head_any] holds_store)
    (auto intro!: sound_upsert sound_inv comment_reachable_inv comment_reachable.create
      simp: createPrReviewComment_def [THEN arg_cong [where f = c_state]])

lemma holds_base_heads: "holds ports (base_heads ports env remote local) (\<lambda>_. True)"
  unfolding base_heads_def
  by (rule yields_bnd [where V = "\<lambda>_. True"], intro yields_if holds_head_any yields_ret, simp,
      rule yields_bnd [where V = "\<lambda>_. True"], intro yields_if holds_unit holds_head_any yields_ret)
    (simp_all add: yields_ret)

lemma holds_first_items: "holds ports (first_items env running b) (\<lambda>_. True)"
  unfolding first_items_def by (rule holds_unit) (rule holds_any [OF holds_pending])

lemma holds_quiet: "holds ports (quiet_poll ports env started n) (\<lambda>_. True)"
  unfolding quiet_poll_def
  by (intro yields_sq holds_verifyOrphaned yields_bnd [OF holds_lookup [where V = "\<lambda>_. True"]] holds_recordPoll yields_ret)
    simp_all

lemma holds_close_poll: "holds ports (close_poll ports env started n original results) (\<lambda>_. True)"
  unfolding close_poll_def Let_def
  by (intro yields_sq yields_bnd [OF holds_verifyOrphaned] yields_prod
      yields_bnd [OF holds_lookup [where V = "\<lambda>_. True"]] holds_recordPoll yields_ret) simp_all

lemma holds_active:
  assumes "pr_branch ports (gp_headRef pr)"
  shows "holds ports (active_poll fuel ports env started cs pr) (\<lambda>_. True)"
  unfolding active_poll_def
  by (rule yields_bnd [OF holds_head_any], rule yields_bnd [OF holds_base_heads], rule yields_prod,
      rule yields_bnd [OF holds_head_any], rule yields_bnd [OF holds_head_any],
      rule yields_bnd [OF holds_gather], rule holds_first_items, rule yields_bnd [OF holds_queue [OF assms]],
      rule yields_option, simp add: yields_ret, rule yields_sq [OF holds_base_heads], rule holds_unit, rule holds_close_poll)

lemma holds_executePoll: "holds ports (executePoll fuel ports env) (\<lambda>_. True)"
  unfolding executePoll_def Let_def read_now_def
  by (rule yields_bnd [OF holds_head_any], rule yields_bnd [OF holds_head_any], rule yields_bnd [OF holds_head_any],
      rule yields_sq, rule yields_each, rule holds_store_new, rule yields_bnd [OF holds_listed], rule yields_if,
      rule holds_unit, rule holds_quiet, rule yields_bnd [OF known_branch], rule yields_if,
      rule yields_sq [OF holds_recordPoll], simp add: yields_ret, rule holds_active)

text \<open>
  C7. However a poll ends, with a result or an exception, from sound comments it leaves sound comments: each
  satisfies the invariant of the domain, and the commit of a fix that is marked processed was found on the
  branch of the pull request.
\<close>

theorem processed_fix_is_on_the_branch:
  assumes "sound_db ports (rs_db s)"
  shows "sound_db ports (rs_db (snd (executePoll fuel ports env s)))"
  using yields_inv [OF holds_executePoll] assms by blast

section \<open>All resolved\<close>

definition all_processed :: "process_env \<Rightarrow> review_db \<Rightarrow> bool" where
  "all_processed env db \<longleftrightarrow> (\<forall>c \<in> set (vb_comments db). c_runId c = pe_runId env \<longrightarrow> c_state c = Processed)"

definition truthful :: "process_env \<Rightarrow> process_output \<Rightarrow> review_state \<Rightarrow> bool" where
  "truthful env out s \<longleftrightarrow> (po_allResolved out \<longrightarrow> all_processed env (rs_db s)) \<and>
     (po_outcome out = ALL_RESOLVED \<longrightarrow> po_allResolved out)"

lemma resolved_processed:
  assumes "sound_db ports db" and "\<not> in_progress (listComments db (pe_runId env))"
    and "\<not> any_blocked (listComments db (pe_runId env))"
  shows "all_processed env db"
  unfolding all_processed_def
proof (intro ballI impI)
  fix c assume c: "c \<in> set (vb_comments db)" "c_runId c = pe_runId env"
  then have listed: "c \<in> set (listComments db (pe_runId env))" by (simp add: listComments_set)
  have "comment_inv c" using assms(1) c(1) by (simp add: sound_db_def sound_comment_def)
  then show "c_state c = Processed"
    using assms(2,3) listed
    by (cases "c_state c") (auto simp: in_progress_def any_blocked_def list_ex_iff isUnresolved_def comment_inv_def)
qed

text \<open>The comments as they are now stay as they are: what a program adds to a poll's record.\<close>

lemma recordPoll_comments:
  "\<exists>s'. recordPoll ports env started f p t status s = (Inr (), s') \<and> vb_comments (rs_db s') = vb_comments (rs_db s)"
  by (simp add: recordPoll_def new_id_def read_now_def store_def ask_port_def act_def Let_def prog_simps
      insertPollAttempt_def)

lemma poll_tail:
  "triple (\<lambda>s. sound_db ports (rs_db s))
     (bnd (lookup (\<lambda>db. listComments db (pe_runId env))) (\<lambda>cs. sq (recordPoll ports env started f (p cs) (t cs) status) (ret (out cs))))
     (\<lambda>out' s. \<exists>cs. cs = listComments (rs_db s) (pe_runId env) \<and> sound_db ports (rs_db s) \<and> out' = out cs)
     (\<lambda>_ _. True)"
proof (rule tripleI)
  fix s :: review_state
  assume sound: "sound_db ports (rs_db s)"
  let ?cs = "listComments (rs_db s) (pe_runId env)"
  obtain s' where s': "recordPoll ports env started f (p ?cs) (t ?cs) status s = (Inr (), s')"
    "vb_comments (rs_db s') = vb_comments (rs_db s)" using recordPoll_comments by blast
  then have "listComments (rs_db s') (pe_runId env) = ?cs" "sound_db ports (rs_db s')"
    using sound by (simp_all add: listComments_def sound_db_def)
  then show "case bnd (lookup (\<lambda>db. listComments db (pe_runId env)))
      (\<lambda>cs. sq (recordPoll ports env started f (p cs) (t cs) status) (ret (out cs))) s of
     (Inl e, s') \<Rightarrow> True
   | (Inr out', s') \<Rightarrow> \<exists>cs. cs = listComments (rs_db s') (pe_runId env) \<and> sound_db ports (rs_db s') \<and> out' = out cs"
    using s'(1) by (simp add: prog_simps lookup_def)
qed

abbreviation polls :: "pr_ports \<Rightarrow> process_env \<Rightarrow> process_output option rv \<Rightarrow> bool" where
  "polls ports env m \<equiv> triple (\<lambda>s. sound_db ports (rs_db s)) m
     (\<lambda>r s. \<forall>out. r = Some out \<longrightarrow> truthful env out s) (\<lambda>_ _. True)"

lemma polls_bnd:
  assumes "holds ports m V" and "\<And>x. V x \<Longrightarrow> polls ports env (k x)"
  shows "polls ports env (bnd m k)"
  by (rule triple_bnd [OF triple_of_yields [OF assms(1)]]) (rule triple_conj_pre, rule assms(2))

lemma polls_Some:
  assumes "triple (\<lambda>s. sound_db ports (rs_db s)) m (truthful env) (\<lambda>_ _. True)"
  shows "polls ports env (bnd m (\<lambda>out. ret (Some out)))"
  by (rule triple_bnd [OF assms]) (simp add: triple_ret)

lemma truthful_quiet: "triple (\<lambda>s. sound_db ports (rs_db s)) (quiet_poll ports env started n) (truthful env) (\<lambda>_ _. True)"
  unfolding quiet_poll_def
  by (rule triple_sq [where R = "\<lambda>s. sound_db ports (rs_db s)"],
      rule triple_weaken [OF triple_of_yields [OF holds_verifyOrphaned]])
    (auto intro!: triple_weaken [OF poll_tail] simp: truthful_def dest: resolved_processed)

lemma truthful_close:
  "triple (\<lambda>s. sound_db ports (rs_db s)) (close_poll ports env started n original results) (truthful env) (\<lambda>_ _. True)"
  unfolding close_poll_def Let_def
  by (rule triple_bnd [OF triple_of_yields [OF holds_verifyOrphaned]])
    (auto intro!: triple_weaken [OF poll_tail] simp: truthful_def poll_result_def Let_def dest: resolved_processed
      split: if_splits)

lemma polls_active:
  assumes "pr_branch ports (gp_headRef pr)"
  shows "polls ports env (active_poll fuel ports env started cs pr)"
proof -
  have last: "polls ports env (case r of None \<Rightarrow> ret None
     | Some st \<Rightarrow> sq (base_heads ports env (truthy x) (truthy y))
         (bnd (close_poll ports env started n original (qs_results st)) (\<lambda>out. ret (Some out))))" for r x y n original
    by (cases r) (auto intro!: triple_ret polls_bnd [OF holds_base_heads] polls_Some [OF truthful_close] simp: sq_def)
  show ?thesis
    unfolding active_poll_def
    by (rule polls_bnd [OF holds_head_any], rule polls_bnd [OF holds_base_heads], simp only: split_beta,
        rule polls_bnd [OF holds_head_any], rule polls_bnd [OF holds_head_any],
        rule polls_bnd [OF holds_gather], rule holds_first_items, rule polls_bnd [OF holds_queue [OF assms]], rule last)
qed

lemma polls_executePoll: "polls ports env (executePoll fuel ports env)"
  unfolding executePoll_def Let_def read_now_def
  by (rule polls_bnd [OF holds_head_any], rule polls_bnd [OF holds_head_any], rule polls_bnd [OF holds_head_any],
      unfold sq_def, rule polls_bnd [OF yields_each], rule holds_store_new, rule polls_bnd [OF holds_listed],
      rule triple_if, rule polls_Some [OF truthful_quiet], rule polls_bnd [OF known_branch], rule triple_if,
      rule polls_bnd [OF holds_recordPoll], rule triple_ret, simp add: truthful_def, rule polls_active)

text \<open>
  C8. A poll that reports \<open>allResolved\<close>, as every one with the outcome \<open>ALL_RESOLVED\<close> does, leaves every
  stored comment of the run processed: none pending, none replied but unverified, none blocked.
\<close>

theorem resolved_means_processed:
  assumes "sound_db ports (rs_db s)"
  shows "case executePoll fuel ports env s of
      (Inr (Some out), s') \<Rightarrow> (po_allResolved out \<longrightarrow> all_processed env (rs_db s')) \<and>
        (po_outcome out = ALL_RESOLVED \<longrightarrow> po_allResolved out)
    | _ \<Rightarrow> True"
  using triple_Inr [OF polls_executePoll assms] by (auto simp: truthful_def split: prod.split sum.split option.split)

section \<open>The queue empties\<close>

text \<open>The attempts that the items can still cause; an item costs at least one.\<close>

definition queue_weight :: "work_item list \<Rightarrow> nat" where
  "queue_weight items = sum_list (map (\<lambda>w. length (wi_ids w) * (4 - wi_attempt w)) items)"

definition proper_item :: "work_item \<Rightarrow> bool" where
  "proper_item w \<longleftrightarrow> wi_ids w \<noteq> [] \<and> wi_attempt w \<le> ESCALATION_BUDGET"

text \<open>\<open>adds n st st'\<close>: the queue of \<open>st'\<close> is that of \<open>st\<close> after new items of weight \<open>n\<close> at most.\<close>

definition adds :: "nat \<Rightarrow> queue_state \<Rightarrow> queue_state \<Rightarrow> bool" where
  "adds n st st' \<longleftrightarrow> (\<exists>new. qs_items st' = new @ qs_items st \<and> list_all proper_item new \<and> queue_weight new \<le> n)"

abbreviation answers :: "'a rv \<Rightarrow> ('a \<Rightarrow> bool) \<Rightarrow> bool" where
  "answers m V \<equiv> yields (\<lambda>_. True) V (\<lambda>_. True) m"

lemma answers_any: "answers m (\<lambda>_. True)"
  by (rule yieldsI) (simp split: prod.split sum.split)

lemma adds_same: "qs_items st' = qs_items st \<Longrightarrow> adds n st st'"
  by (simp add: adds_def queue_weight_def)

lemma adds_head: "adds n st (st'\<lparr>qs_running := h\<rparr>) = adds n st st'"
  by (simp add: adds_def)

lemma retry_weight: "queue_weight (map (retry_item a start) cs) = length cs * (3 - a)"
  by (induction cs) (simp_all add: queue_weight_def retry_item_def)

lemma retry_proper: "a < ESCALATION_BUDGET \<Longrightarrow> list_all proper_item (map (retry_item a start) cs)"
  by (auto simp: list_all_iff proper_item_def retry_item_def)

lemma adds_retry:
  assumes "a < ESCALATION_BUDGET" and "length cs * (3 - a) \<le> n" and "qs_items st' = map (retry_item a start) (filter P cs) @ qs_items st"
  shows "adds n st st'"
proof -
  have "length (filter P cs) * (3 - a) \<le> n" using assms(2) length_filter_le [of P cs] by (meson mult_le_mono1 order_trans)
  then show ?thesis using assms(1,3) retry_proper by (auto simp: adds_def retry_weight)
qed

lemma adds_one: "a < ESCALATION_BUDGET \<Longrightarrow> qs_items st' = retry_item a start c # qs_items st \<Longrightarrow> adds (3 - a) st st'"
  using adds_retry [of a "[c]" "3 - a" st' start "\<lambda>_. True" st] by simp

lemma answers_at_head: "adds n st st' \<Longrightarrow> answers (now_at_head ports st') (adds n st)"
  unfolding now_at_head_def by (rule yields_bnd [OF answers_any]) (simp add: yields_ret adds_head)

lemma answers_after_batch: "answers (after_batch ports a start cs b st) (adds (length cs * (3 - a)) st)"
  unfolding after_batch_def Let_def
  by (intro yields_if yields_sq answers_at_head answers_any yields_bnd [OF answers_any] yields_ret)
    ((rule adds_same, simp; fail) | (elim conjE, rule adds_retry [where cs = cs], assumption, simp, simp))+

lemma answers_process_batch: "answers (process_batch ports i start cs st) (adds (length cs * (3 - ti_retry i)) st)"
  unfolding process_batch_def
  by (rule yields_sq [OF answers_any], rule yields_bnd [OF answers_any], rule answers_after_batch)

lemma adds_trans: "adds n st st' \<Longrightarrow> adds m st' st'' \<Longrightarrow> adds (m + n) st st''"
  by (fastforce simp: adds_def queue_weight_def)

lemma answers_after_single: "answers (after_single ports a target c out st) (adds (3 - a) st)"
  unfolding after_single_def
  by (intro yields_if yields_bnd [OF answers_any] yields_sq answers_any yields_ret)
    ((rule adds_same, simp; fail) | (cases "a < ESCALATION_BUDGET", rule adds_one, assumption, simp, rule adds_same, simp))+

lemma answers_process_single: "answers (process_single ports i start c st) (adds (3 - ti_retry i) st)"
  unfolding process_single_def Let_def
  by (intro yields_sq answers_any yields_bnd [OF answers_any] yields_prod yields_if yields_ret answers_after_single)
    (simp add: adds_same)

lemma answers_thread:
  assumes "\<And>x st. answers (f x st) (adds n st)"
  shows "answers (thread f xs st) (adds (length xs * n) st)"
proof (induction xs arbitrary: st)
  case Nil
  show ?case by (simp add: yields_ret adds_same)
next
  case (Cons x xs)
  show ?case
    by (simp, rule yields_bnd [OF assms], rule yields_weaken [OF Cons]) (auto dest: adds_trans simp: add.commute)
qed

lemma pending_length: "answers (pending_of env ids) (\<lambda>cs. length cs \<le> length ids)"
  unfolding pending_of_def lookup_def map_filter_def
  by (rule yields_ask, rule order_trans [OF length_filter_le]) simp

text \<open>An item leaves items that weigh less.\<close>

lemma answers_item:
  assumes "proper_item item"
  shows "answers (process_item ports env branch original item st)
     (adds (length (wi_ids item) * (3 - wi_attempt item)) st)"
proof -
  let ?n = "length (wi_ids item) * (3 - wi_attempt item)"
  have less: "adds ?n st st'" if new: "adds (length cs * (3 - wi_attempt item)) (st\<lparr>qs_running := l, qs_diff := d\<rparr>) st'"
    and few: "length cs \<le> length (wi_ids item)" for st' cs l d
  proof -
    have "length cs * (3 - wi_attempt item) \<le> ?n" using few by (rule mult_le_mono1)
    moreover obtain new where "qs_items st' = new @ qs_items st" "list_all proper_item new"
      "queue_weight new \<le> length cs * (3 - wi_attempt item)" using new by (auto simp: adds_def)
    ultimately show ?thesis unfolding adds_def by (meson order_trans)
  qed
  have retry: "ti_retry (task_input_of env branch live original a) = a" for live a
    by (simp add: task_input_of_def)
  show ?thesis
    unfolding process_item_def Let_def
  proof (rule yields_bnd [OF answers_any], rule yields_bnd [OF pending_length], rule yields_if, rule yields_ret,
      rule adds_same, simp, rule yields_bnd [OF answers_any], rule yields_sum, rule yields_sq [OF answers_any],
      rule yields_ret, rule adds_same, simp, rule yields_prod, rule yields_if)
    fix live start :: string and cs :: "pr_comment list" and rest :: "string option"
    assume cs: "length cs \<le> length (wi_ids item)"
    let ?i = "task_input_of env branch live original (wi_attempt item)"
    show "answers (process_batch ports ?i start cs (st\<lparr>qs_running := live, qs_diff := rest\<rparr>)) (adds ?n st)"
      using answers_process_batch [where i = ?i, unfolded retry]
      by (rule yields_weaken) (auto intro: less cs)
    have "answers (thread (process_single ports ?i start) cs (st\<lparr>qs_running := live, qs_diff := rest\<rparr>))
        (adds (length cs * (3 - wi_attempt item)) (st\<lparr>qs_running := live, qs_diff := rest\<rparr>))"
      by (rule answers_thread) (rule answers_process_single [where i = ?i, unfolded retry])
    then show "answers (bnd (thread (process_single ports ?i start) cs (st\<lparr>qs_running := live, qs_diff := rest\<rparr>))
        (now_at_head ports)) (adds ?n st)"
      by (rule yields_bnd) (auto intro: answers_at_head less cs)
  qed
qed

lemma weight_append: "queue_weight (xs @ ys) = queue_weight xs + queue_weight ys"
  by (simp add: queue_weight_def)

lemma weight_Cons: "queue_weight (x # xs) = length (wi_ids x) * (4 - wi_attempt x) + queue_weight xs"
  by (simp add: queue_weight_def)

lemma item_weight:
  assumes "proper_item item" and "list_all proper_item items"
    and "adds (length (wi_ids item) * (3 - wi_attempt item)) (st\<lparr>qs_items := items\<rparr>) st'"
  shows "list_all proper_item (qs_items st') \<and> queue_weight (qs_items st') < queue_weight (item # items)"
proof -
  obtain new where new: "qs_items st' = new @ items" "list_all proper_item new"
    "queue_weight new \<le> length (wi_ids item) * (3 - wi_attempt item)" using assms(3) by (auto simp: adds_def)
  have "3 - wi_attempt item < 4 - wi_attempt item" "0 < length (wi_ids item)"
    using assms(1) by (auto simp: proper_item_def ESCALATION_BUDGET_def)
  then have "length (wi_ids item) * (3 - wi_attempt item) < length (wi_ids item) * (4 - wi_attempt item)"
    by (rule mult_less_mono2)
  then have "queue_weight new < length (wi_ids item) * (4 - wi_attempt item)" using new(3) by linarith
  then show ?thesis using new(1,2) assms(2) by (simp add: weight_append weight_Cons)
qed

text \<open>\<open>settles\<close>: from some fuel on, more makes no difference and the fuel does not run out.\<close>

definition settles :: "(nat \<Rightarrow> 'a option rv) \<Rightarrow> bool" where
  "settles m \<longleftrightarrow> (\<forall>s. \<exists>n. \<forall>fuel \<ge> n. m fuel s = m n s \<and> fst (m n s) \<noteq> Inr None)"

lemma settlesD: "settles m \<Longrightarrow> \<exists>n. \<forall>fuel \<ge> n. m fuel s = m n s \<and> fst (m n s) \<noteq> Inr None"
  by (simp add: settles_def)

lemma settles_bnd:
  assumes "yields (\<lambda>_. True) V (\<lambda>_. True) m" and "\<And>x. V x \<Longrightarrow> settles (\<lambda>fuel. k fuel x)"
  shows "settles (\<lambda>fuel. bnd m (k fuel))"
  unfolding settles_def
proof
  fix s :: review_state
  show "\<exists>n. \<forall>fuel \<ge> n. bnd m (k fuel) s = bnd m (k n) s \<and> fst (bnd m (k n) s) \<noteq> Inr None"
  proof (cases "m s")
    case (Pair r s')
    show ?thesis
    proof (cases r)
      case (Inl e)
      have "bnd m (k fuel) s = (Inl e, s')" for fuel using Pair Inl by (simp add: bnd_run)
      then show ?thesis by simp
    next
      case (Inr x)
      then have "V x" using yields_Inr [OF assms(1)] Pair by blast
      moreover have "bnd m (k fuel) s = k fuel x s'" for fuel using Pair Inr by (simp add: bnd_run)
      ultimately show ?thesis using settlesD [OF assms(2), of x s'] by (simp only:)
    qed
  qed
qed

lemma settles_any: "(\<And>x. settles (\<lambda>fuel. k fuel x)) \<Longrightarrow> settles (\<lambda>fuel. bnd m (k fuel))"
  by (rule settles_bnd [OF answers_any])

lemma settles_if: "(c \<Longrightarrow> settles m) \<Longrightarrow> (\<not> c \<Longrightarrow> settles m') \<Longrightarrow> settles (\<lambda>fuel. if c then m fuel else m' fuel)"
  by (cases c) simp_all

lemma settles_Some: "settles (\<lambda>fuel. bnd m (\<lambda>x. ret (Some (f x))))"
  by (rule settles_any) (simp add: settles_def ret_def)

lemma settles_then:
  assumes "settles m" and "\<And>x. settles (\<lambda>fuel. k x)"
  shows "settles (\<lambda>fuel. bnd (m fuel) (\<lambda>r. case r of None \<Rightarrow> ret None | Some x \<Rightarrow> k x))"
  unfolding settles_def
proof
  fix s :: review_state
  let ?k = "\<lambda>r. case r of None \<Rightarrow> ret None | Some x \<Rightarrow> k x"
  obtain n where n: "\<forall>fuel \<ge> n. m fuel s = m n s \<and> fst (m n s) \<noteq> Inr None" using settlesD [OF assms(1)] by blast
  have kx: "fst (k x s') \<noteq> Inr None" for x s' using settlesD [OF assms(2)] by blast
  have "bnd (m fuel) ?k s = bnd (m n) ?k s" if "n \<le> fuel" for fuel
  proof -
    have "m fuel s = m n s" using n that by blast
    then show ?thesis by (simp only: bnd_run)
  qed
  moreover have "fst (m n s) \<noteq> Inr None" using n by blast
  then have "fst (bnd (m n) ?k s) \<noteq> Inr None"
    using kx by (auto simp: bnd_run split: prod.split sum.split option.split)
  ultimately show "\<exists>n. \<forall>fuel \<ge> n. bnd (m fuel) ?k s = bnd (m n) ?k s \<and> fst (bnd (m n) ?k s) \<noteq> Inr None" by blast
qed

text \<open>The weight of the queue is enough fuel.\<close>

lemma queue_fuel:
  assumes "list_all proper_item (qs_items st)" and "queue_weight (qs_items st) \<le> fuel"
  shows "process_queue fuel ports env branch original st s =
      process_queue (queue_weight (qs_items st)) ports env branch original st s \<and>
    fst (process_queue fuel ports env branch original st s) \<noteq> Inr None"
  using assms
proof (induction "queue_weight (qs_items st)" arbitrary: st fuel s rule: less_induct)
  case less
  show ?case
  proof (cases "qs_items st")
    case Nil
    then show ?thesis by (simp add: process_queue.simps ret_def)
  next
    case (Cons item items)
    let ?m = "process_item ports env branch original item (st\<lparr>qs_items := items\<rparr>)"
    have proper: "proper_item item" "list_all proper_item items" using less.prems(1) Cons by simp_all
    have pos: "0 < queue_weight (qs_items st)"
      using proper(1) Cons by (simp add: queue_weight_def proper_item_def ESCALATION_BUDGET_def)
    then obtain w where w: "queue_weight (qs_items st) = Suc w" using gr0_implies_Suc by blast
    then obtain k where k: "fuel = Suc k" "w \<le> k" using less.prems(2) by (metis Suc_le_D Suc_le_mono)
    have run: "process_queue (Suc j) ports env branch original st s = bnd ?m (process_queue j ports env branch original) s" for j
      using Cons by (subst process_queue.simps) simp
    show ?thesis
    proof (cases "?m s")
      case (Pair r s')
      show ?thesis
      proof (cases r)
        case (Inl e)
        have "bnd ?m (process_queue j ports env branch original) s = (Inl e, s')" for j
          using Pair Inl by (simp add: bnd_run)
        then show ?thesis unfolding w k(1) run by simp
      next
        case (Inr st')
        then have "adds (length (wi_ids item) * (3 - wi_attempt item)) (st\<lparr>qs_items := items\<rparr>) st'"
          using yields_Inr [OF answers_item [OF proper(1)]] Pair by blast
        from item_weight [OF proper this] have st': "list_all proper_item (qs_items st')"
          "queue_weight (qs_items st') < queue_weight (qs_items st)" using Cons by simp_all
        then have "queue_weight (qs_items st') \<le> w" "queue_weight (qs_items st') \<le> k" using w k(2) by simp_all
        moreover have "bnd ?m (process_queue j ports env branch original) s = process_queue j ports env branch original st' s'" for j
          using Pair Inr by (simp add: bnd_run)
        ultimately show ?thesis
          unfolding w k(1) run using less.hyps [OF st'(2) st'(1)] by metis
      qed
    qed
  qed
qed

lemma settles_queue:
  "list_all proper_item (qs_items st) \<Longrightarrow> settles (\<lambda>fuel. process_queue fuel ports env branch original st)"
  unfolding settles_def using queue_fuel [of st] by (metis order_refl)

lemma answers_gather:
  "(\<And>x. answers (f x) V) \<Longrightarrow> answers (gather f xs) (list_all V)"
proof (induction xs)
  case (Cons x xs)
  show ?case by (simp, rule yields_bnd [OF Cons(2)], rule yields_bnd [OF Cons(1) [OF Cons(2)]]) (simp add: yields_ret)
qed (simp add: yields_ret)

lemma first_items_proper: "answers (first_items env running b) (list_all proper_item)"
  unfolding first_items_def
  by (rule yields_bnd [OF answers_any], rule yields_ret) (simp add: proper_item_def ESCALATION_BUDGET_def)

lemma settles_active: "settles (\<lambda>fuel. active_poll fuel ports env started cs pr)"
  unfolding active_poll_def
  by (rule settles_any, rule settles_any, simp only: split_beta, rule settles_any, rule settles_any,
      rule settles_bnd [OF answers_gather [OF first_items_proper]], rule settles_then, rule settles_queue)
    (auto simp: list_all_iff sq_def intro!: settles_any settles_Some)

lemma settles_ret: "settles (\<lambda>fuel. ret (Some x))"
  by (simp add: settles_def ret_def)

text \<open>
  C9. A poll ends: with enough fuel it returns a result or stops with an exception, and more fuel changes
  nothing, whatever the agent, git and GitHub answer; each comment costs three attempts at most.
\<close>

theorem poll_ends:
  "\<exists>n. \<forall>extra. executePoll (n + extra) ports env s = executePoll n ports env s \<and>
     fst (executePoll n ports env s) \<noteq> Inr None"
proof -
  have "settles (\<lambda>fuel. executePoll fuel ports env)"
    unfolding executePoll_def Let_def sq_def
    by (intro settles_any settles_if settles_Some settles_ret settles_active)
  then obtain n where "\<forall>fuel \<ge> n. executePoll fuel ports env s = executePoll n ports env s \<and>
     fst (executePoll n ports env s) \<noteq> Inr None" using settlesD by blast
  then show ?thesis by (metis le_add1)
qed

section \<open>Readiness to merge\<close>

text \<open>
  A pull request is ready to merge exactly if every comment of the run is processed, or is an open one of
  neither critical nor high severity; a blocked comment always holds it back.
\<close>

theorem ready_comments:
  "rd_ready (checkMergeReadiness db run) \<longleftrightarrow>
     (\<forall>c \<in> set (vb_comments db). c_runId c = run \<longrightarrow>
        c_state c = Processed \<or> c_state c \<noteq> Blocked \<and> comment_severity_of c \<notin> {Some Critical, Some High})"
  by (auto simp: checkMergeReadiness_def Let_def filter_empty listComments_set)

end
