(* ===== verification/Review_Examples.thy ===== *)
theory Review_Examples
  imports Review_Process_Props
begin

text \<open>
  Polls of one pull request with concrete ports, evaluated: one that fixes its comment, and two in
  which GitHub fails after the push, where a comment stored as processed is blocked or loses its fix.
\<close>

section \<open>Evaluation\<close>

text \<open>The combinators from the outside in: a continuation is looked at only when its turn comes.\<close>

lemma bnd_go: "m s = (Inr x, s') \<Longrightarrow> bnd m k s = k x s'"
  by (simp add: bnd_def)

lemma bnd_stops: "m s = (Inl e, s') \<Longrightarrow> bnd m k s = (Inl e, s')"
  by (simp add: bnd_def)

lemma sq_go: "m s = (Inr x, s') \<Longrightarrow> sq m k s = k s'"
  by (simp add: sq_def bnd_def)

lemma sq_stops: "m s = (Inl e, s') \<Longrightarrow> sq m k s = (Inl e, s')"
  by (simp add: sq_def bnd_def)

lemma recover_go: "m s = (Inr x, s') \<Longrightarrow> recover m h s = (Inr x, s')"
  by (simp add: recover_def)

lemma recover_caught: "m s = (Inl e, s') \<Longrightarrow> recover m h s = h e s'"
  by (simp add: recover_def)

lemma act_go: "f (rs_clock s) = Inr x \<Longrightarrow>
    act f what s = (Inr x, s\<lparr>rs_clock := rs_clock s + 1, rs_acts := rs_acts s @ what\<rparr>)"
  by (simp add: act_def)

lemma act_stops: "f (rs_clock s) = Inl x \<Longrightarrow> act f what s = (Inl (Review_threw x), s\<lparr>rs_clock := rs_clock s + 1\<rparr>)"
  by (simp add: act_def)

lemma bnd_lazy: "bnd m k s = bnd m k s" ..
lemma sq_lazy: "sq m k s = sq m k s" ..
lemma recover_lazy: "recover m h s = recover m h s" ..
lemma act_lazy: "act f what s = act f what s" ..

lemmas review_lazy = bnd_lazy sq_lazy recover_lazy act_lazy

lemmas review_steps = bnd_go bnd_stops sq_go sq_stops recover_go recover_caught act_go act_stops
  ret_run stop_run ask_run tell_run only_if_def new_id_def read_now_def ask_port_def store_def lookup_def
  begin_attempts_def change_attempts_def save_attempts_def any_attempt_def close_attempts_def set_action_def
  appendCommentAttempt_def updateCommentAttempt_def insertReply_def upsertComment_def same_key_def
  transition_def markReplied_def markProcessed_def blockComment_def stripOptionalFields_def

lemmas runner_steps = executeBatch_def new_attempt_def task_input_of_def batch_before_def resetToStart_def
  keep_result_def validatePollTaskBatchResult_def entry_valid_def missing_ids_def duplicate_ids_def
  unknown_ids_def checked_results_def check_all_def check_code_def Let_def unchanged_sha_def
  verifyRemoteFixCommit_def truthy_def remote_reason_def batch_after_def remote_verification_def
  batch_entry_def postReply_def find_reply_def finalizeBatchReply_def record_reply_def accept_def
  open_output_def batch_catch_def

lemmas process_steps = process_batch_def select_context_def after_batch_def open_task_def thrown_output_def
  give_up_def fallback_reason_def rollback_fix_def now_at_head_def still_open_def retry_item_def ESCALATION_BUDGET_def

section \<open>A pull request\<close>

definition demo_comment :: "int \<Rightarrow> pr_comment" where
  "demo_comment i = createPrReviewComment \<lparr>ci_runId = ''r'', ci_prNumber = 3, ci_commentId = i,
     ci_path = ''a'', ci_line = 5, ci_reviewer = ''b'', ci_body = [], ci_now = 0\<rparr>"

definition demo_result :: "int \<Rightarrow> task_result" where
  "demo_result i = \<lparr>tr_id = i, tr_action = Task_fixed, tr_reply = ''k'', tr_blockedReason = None\<rparr>"

text \<open>The agent fixes all of \<open>ids\<close> in one commit; \<open>failing\<close> is the comment whose thread cannot be resolved.\<close>

definition demo_ports :: "int list \<Rightarrow> int \<Rightarrow> pr_ports" where
  "demo_ports ids failing =
     \<lparr>pp_now = (\<lambda>n. 0), pp_id = (\<lambda>n. replicate n CHR ''i''), pp_listComments = (\<lambda>n. Inr []),
      pp_listReviews = (\<lambda>n. Inr []), pp_getPr = (\<lambda>n. Inr \<lparr>gp_open = True, gp_headRef = ''f''\<rparr>),
      pp_reply = (\<lambda>n i b. Inr (i + 100)),
      pp_resolveThread = (\<lambda>n i. if i = failing then Inl ''502'' else Inr ()), pp_head = (\<lambda>n. Inr ''s1''),
      pp_headOf = (\<lambda>n r. Inr ''m''), pp_diff = (\<lambda>n h. Inr []), pp_remoteRef = (\<lambda>n b. Inr (Some ''s1'')),
      pp_isAncestor = (\<lambda>n a b. Inr (a = b)), pp_logBetween = (\<lambda>n a b. Inr [b]),
      pp_resetHard = (\<lambda>n s. Inr ()), pp_clean = (\<lambda>n. Inr ()), pp_push = (\<lambda>n. Inr ()),
      pp_commitPushed = (\<lambda>n a b. Inr True), pp_build = (\<lambda>n. Inr (True, None)), pp_verifyCode = None,
      pp_inspect = None, pp_render = (\<lambda>n i. Inr ''p''), pp_renderBatch = Some (\<lambda>n ids. Inr ''p''),
      pp_profile = (\<lambda>n. Inr ()), pp_agent = (\<lambda>n ids. Inr (True, None)), pp_readArtifact = (\<lambda>n p. Inr []),
      pp_writeArtifact = (\<lambda>n c. Inr []), pp_extract = (\<lambda>n. Inr None),
      pp_extractBatch = Some (\<lambda>n. Inr (Some (map demo_result ids))),
      pp_rollback = Some (\<lambda>n s. Inr True), pp_context = None\<rparr>"

definition demo_state :: "int list \<Rightarrow> review_state" where
  "demo_state ids = \<lparr>rs_db = \<lparr>vb_comments = map demo_comment ids, vb_replies = [], vb_polls = [], vb_attempts = []\<rparr>,
     rs_clock = 0, rs_acts = [], rs_live = []\<rparr>"

definition demo_env :: process_env where
  "demo_env = \<lparr>pe_runId = ''r'', pe_prNumber = 3, pe_pollNumber = 1, pe_baseBranch = None, pe_repoRoot = None\<rparr>"

definition demo_queue :: queue_state where
  "demo_queue = \<lparr>qs_items = [], qs_running = ''s0'', qs_diff = None, qs_results = []\<rparr>"

definition demo_input :: "nat \<Rightarrow> task_input" where
  "demo_input attempt = task_input_of demo_env ''f'' ''s0'' ''s0'' attempt"

definition seen :: "review_state \<Rightarrow> (int \<times> comment_state) list \<times> review_act list" where
  "seen s = (map (\<lambda>c. (c_commentId c, c_state c)) (vb_comments (rs_db s)), rs_acts s)"

lemma demo_fields:
  "pp_now (demo_ports ids j) = (\<lambda>n. 0)" "pp_id (demo_ports ids j) = (\<lambda>n. replicate n CHR ''i'')"
  "pp_listComments (demo_ports ids j) = (\<lambda>n. Inr [])" "pp_reply (demo_ports ids j) = (\<lambda>n i b. Inr (i + 100))"
  "pp_resolveThread (demo_ports ids j) = (\<lambda>n i. if i = j then Inl ''502'' else Inr ())"
  "pp_head (demo_ports ids j) = (\<lambda>n. Inr ''s1'')" "pp_remoteRef (demo_ports ids j) = (\<lambda>n b. Inr (Some ''s1''))"
  "pp_isAncestor (demo_ports ids j) = (\<lambda>n a b. Inr (a = b))" "pp_logBetween (demo_ports ids j) = (\<lambda>n a b. Inr [b])"
  "pp_resetHard (demo_ports ids j) = (\<lambda>n s. Inr ())" "pp_clean (demo_ports ids j) = (\<lambda>n. Inr ())"
  "pp_push (demo_ports ids j) = (\<lambda>n. Inr ())" "pp_commitPushed (demo_ports ids j) = (\<lambda>n a b. Inr True)"
  "pp_build (demo_ports ids j) = (\<lambda>n. Inr (True, None))" "pp_verifyCode (demo_ports ids j) = None"
  "pp_renderBatch (demo_ports ids j) = Some (\<lambda>n ids. Inr ''p'')" "pp_profile (demo_ports ids j) = (\<lambda>n. Inr ())"
  "pp_agent (demo_ports ids j) = (\<lambda>n ids. Inr (True, None))"
  "pp_extractBatch (demo_ports ids j) = Some (\<lambda>n. Inr (Some (map demo_result ids)))"
  "pp_rollback (demo_ports ids j) = Some (\<lambda>n s. Inr True)" "pp_context (demo_ports ids j) = None"
  by (simp_all add: demo_ports_def)

lemmas demo_defs = demo_fields demo_env_def demo_state_def demo_comment_def demo_result_def demo_input_def
  demo_queue_def createPrReviewComment_def seen_def

lemma demo_sound: "sound_db ports (rs_db (demo_state ids))"
proof -
  have "sound_comment ports (demo_comment i)" for i
    unfolding demo_comment_def
    by (rule sound_inv, rule comment_reachable_inv, rule comment_reachable.create) (simp add: createPrReviewComment_def)
  then show ?thesis by (auto simp: sound_db_def demo_state_def)
qed

theorem processed_fix_is_on_the_branch_witness:
  "sound_db (demo_ports [11] 0) (rs_db (snd (executePoll 3 (demo_ports [11] 0) demo_env (demo_state [11]))))"
  by (rule processed_fix_is_on_the_branch) (rule demo_sound)

theorem resolved_means_processed_witness:
  "case executePoll 3 (demo_ports [11] 0) demo_env (demo_state [11]) of
      (Inr (Some out), s') \<Rightarrow> (po_allResolved out \<longrightarrow> all_processed demo_env (rs_db s')) \<and>
        (po_outcome out = ALL_RESOLVED \<longrightarrow> po_allResolved out)
    | _ \<Rightarrow> True"
  by (rule resolved_means_processed) (rule demo_sound)

section \<open>What goes wrong\<close>

text \<open>
  At the third attempt the fix of comment 11 is pushed, replied to and stored as processed; then GitHub
  fails to resolve the thread. The runner stops, and the poll blocks the comment, from the copy it read
  before, and rolls the branch back.
\<close>

lemma verified_fix_blocked:
  "seen (snd (process_batch (demo_ports [11] 11) (demo_input 3) ''s0'' [demo_comment 11] demo_queue (demo_state [11]))) =
     ([(11, Blocked)], [Reset_hard ''s0'', Agent_ran [11], Pushed, Reply_posted 11, Rolled_back_to ''s0''])"
  by (simp add: review_steps runner_steps process_steps demo_defs cong: review_lazy)

text \<open>
  Two comments are fixed in one push; the thread of the first is resolved, that of the second fails.
  Both are stored as processed, and yet the batch is split and the branch rolled back to before the push.
\<close>

lemma processed_fixes_rolled_back:
  "seen (snd (process_batch (demo_ports [11, 12] 12) (demo_input 1) ''s0'' [demo_comment 11, demo_comment 12]
      demo_queue (demo_state [11, 12]))) =
    ([(11, Processed), (12, Processed)], [Reset_hard ''s0'', Agent_ran [11, 12], Pushed, Reply_posted 11,
       Thread_resolved 11, Reply_posted 12, Rolled_back_to ''s0''])"
  by (simp add: review_steps runner_steps process_steps demo_defs cong: review_lazy)

end
