(* ===== verification/Review_Poller.thy ===== *)
theory Review_Poller
  imports Effects Review_Store
begin

text \<open>
  The loop of polls over a pull request, \<^verbatim>\<open>application/src/pr-review/pr-review-poller.ts\<close>. The clock,
  the passes, the sleeps and the callbacks answer through \<open>poller_env\<close> by the number of the call; a
  pass or a sleep may change the tables in any way. The loop has fuel; if the clock ever passes the
  deadline for good, it ends. Events are left out.
\<close>

section \<open>State and environment\<close>

record pass_result =
  ps_processed :: nat
  ps_blocked :: nat
  ps_allResolved :: bool
  ps_rateLimited :: bool

datatype ready_action = Ready_reactivate | Ready_stay | Ready_timeout

text \<open>\<open>Recorded\<close>: \<open>None\<close> for the state \<open>running\<close>.\<close>

datatype poller_act =
    Passed nat | Slept int | Recorded "ident option" "poll_terminal option" "time option" | Reverted

record poller_state =
  pz_db :: review_db
  pz_clock :: nat
  pz_acts :: "poller_act list"

type_synonym 'a pw = "(poller_state, string, 'a) prog"

record poller_env =
  pl_runId :: ident
  pl_now :: "nat \<Rightarrow> time"
  pl_pass :: "nat \<Rightarrow> nat \<Rightarrow> review_db \<Rightarrow> (string + pass_result \<times> poll_attempt option) \<times> review_db"
  pl_sleep :: "nat \<Rightarrow> int \<Rightarrow> review_db \<Rightarrow> (string + unit) \<times> review_db"
  pl_record :: "nat \<Rightarrow> poll_attempt option \<Rightarrow> poll_terminal option \<Rightarrow> time option \<Rightarrow> review_db \<Rightarrow> (string + unit) \<times> review_db"
  pl_check :: "(nat \<Rightarrow> review_db \<Rightarrow> (string + ready_action) \<times> review_db) option"
  pl_revert :: "(nat \<Rightarrow> review_db \<Rightarrow> (string + unit) \<times> review_db) option"
  pl_maxPolls :: nat
  pl_interval :: int
  pl_readyMaxDays :: int
  pl_startedAt :: time
  pl_quiet :: "int option"
  pl_grace :: "int option"
  pl_maxReactivations :: "nat option"

definition RATE_LIMIT_BACKOFF_MS :: int where
  "RATE_LIMIT_BACKOFF_MS = 60000"

definition MAX_EXCEPTION_RETRIES :: nat where
  "MAX_EXCEPTION_RETRIES = 3"

definition DEFAULT_FIRST_REVIEW_GRACE_WINDOW_SECONDS :: int where
  "DEFAULT_FIRST_REVIEW_GRACE_WINDOW_SECONDS = 1800"

text \<open>A call of the environment, recorded as \<open>what\<close> if it returns.\<close>

definition call_env :: "(nat \<Rightarrow> review_db \<Rightarrow> (string + 'a) \<times> review_db) \<Rightarrow> poller_act list \<Rightarrow> 'a pw" where
  "call_env f what s = (case f (pz_clock s) (pz_db s) of
       (Inl e, db) \<Rightarrow> (Inl e, s\<lparr>pz_db := db, pz_clock := pz_clock s + 1\<rparr>)
     | (Inr x, db) \<Rightarrow> (Inr x, s\<lparr>pz_db := db, pz_clock := pz_clock s + 1, pz_acts := pz_acts s @ what\<rparr>))"

definition read_clock :: "poller_env \<Rightarrow> time pw" where
  "read_clock env = call_env (\<lambda>n db. (Inr (pl_now env n), db)) []"

section \<open>Steps\<close>

record poll_loop_state =
  lp_number :: nat
  lp_run :: nat
  lp_last :: "poll_attempt option"
  lp_failures :: nat
  lp_quiet :: nat

definition deadline :: "poller_env \<Rightarrow> time" where
  "deadline env = pl_startedAt env + pl_readyMaxDays env * (24 * 60 * 60 * 1000)"

definition first_review_deadline :: "poller_env \<Rightarrow> time" where
  "first_review_deadline env = pl_startedAt env +
     (case pl_grace env of None \<Rightarrow> DEFAULT_FIRST_REVIEW_GRACE_WINDOW_SECONDS * 1000 | Some g \<Rightarrow> g)"

definition cappedSleep :: "poller_env \<Rightarrow> int \<Rightarrow> unit pw" where
  "cappedSleep env requested = bnd (read_clock env) (\<lambda>now.
     let ms = max 0 (min requested (deadline env - now))
     in only_if (0 < ms) (call_env (\<lambda>n. pl_sleep env n ms) [Slept ms]))"

definition record_state ::
  "poller_env \<Rightarrow> poll_attempt option \<Rightarrow> poll_terminal option \<Rightarrow> time option \<Rightarrow> unit pw" where
  "record_state env a t at = call_env (\<lambda>n. pl_record env n a t at) [Recorded (map_option pa_id a) t at]"

text \<open>The terminal state is recorded, then returned with the number of polls.\<close>

definition finish_poller ::
  "poller_env \<Rightarrow> poll_loop_state \<Rightarrow> poll_terminal \<Rightarrow> (poll_terminal \<times> nat) pw" where
  "finish_poller env st t = sq (record_state env (lp_last st) (Some t) None) (ret (t, lp_run st))"

definition revert_run :: "poller_env \<Rightarrow> unit pw" where
  "revert_run env = (case pl_revert env of None \<Rightarrow> ret () | Some f \<Rightarrow> call_env f [Reverted])"

definition take_attempt :: "poll_attempt option \<Rightarrow> poll_loop_state \<Rightarrow> poll_loop_state" where
  "take_attempt a st = (case a of None \<Rightarrow> st | Some x \<Rightarrow> st\<lparr>lp_last := Some x\<rparr>)"

definition run_pass :: "poller_env \<Rightarrow> nat \<Rightarrow> (string + pass_result \<times> poll_attempt option) pw" where
  "run_pass env number = catch (call_env (\<lambda>n. pl_pass env n number) [Passed number]) (\<lambda>e. Some (Inl e)) Inr"

text \<open>The body of the loop returns or breaks in its first turn, so it is no recursion.\<close>

definition enterReadyLoop :: "poller_env \<Rightarrow> poll_loop_state \<Rightarrow> (poll_terminal \<times> nat) pw" where
  "enterReadyLoop env st = (case pl_check env of
       None \<Rightarrow> finish_poller env st All_resolved
     | Some check \<Rightarrow>
         if (case pl_maxReactivations env of None \<Rightarrow> 0 | Some n \<Rightarrow> n) < 1 then finish_poller env st All_resolved
         else bnd (call_env check []) (\<lambda>action. case action of
             Ready_timeout \<Rightarrow> finish_poller env st Poll_cancelled
           | Ready_stay \<Rightarrow> finish_poller env st All_resolved
           | Ready_reactivate \<Rightarrow> bnd (run_pass env (pl_maxPolls env + 1)) (\<lambda>r. case r of
                 Inl _ \<Rightarrow> sq (revert_run env) (finish_poller env st All_resolved)
               | Inr (pass, a) \<Rightarrow>
                   sq (revert_run env) (finish_poller env ((take_attempt a st)\<lparr>lp_run := lp_run st + 1\<rparr>)
                     (if ps_allResolved pass then All_resolved else Max_polls_reached)))))"

definition end_or_timeout :: "poller_env \<Rightarrow> poll_loop_state \<Rightarrow> (poll_terminal \<times> nat) pw \<Rightarrow> (poll_terminal \<times> nat) pw" where
  "end_or_timeout env st otherwise = bnd (read_clock env) (\<lambda>now.
     if deadline env \<le> now then finish_poller env st Poll_timed_out else otherwise)"

definition comments_now :: "poller_env \<Rightarrow> pr_comment list pw" where
  "comments_now env = ask (\<lambda>s. listComments (pz_db s) (pl_runId env))"

text \<open>The counter of quiet polls after a pass.\<close>

definition count_quiet :: "poller_env \<Rightarrow> pass_result \<Rightarrow> nat \<Rightarrow> nat pw" where
  "count_quiet env pass quiet =
     bnd (if ps_allResolved pass
          then bnd (comments_now env) (\<lambda>cs. bnd (read_clock env) (\<lambda>now.
            ret (if cs = [] \<and> \<not> first_review_deadline env \<le> now then quiet else quiet + 1)))
          else ret 0) (\<lambda>q. ret (if 0 < ps_processed pass then 0 else q))"

definition quiet_threshold :: "poller_env \<Rightarrow> int" where
  "quiet_threshold env = max 1 (case pl_quiet env of None \<Rightarrow> 3 | Some n \<Rightarrow> n)"

definition only_blocked_left :: "poller_env \<Rightarrow> pass_result \<Rightarrow> bool pw" where
  "only_blocked_left env pass =
     (if \<not> ps_allResolved pass \<and> 0 < ps_blocked pass \<and> ps_processed pass = 0
      then bnd (comments_now env) (\<lambda>cs. ret (\<not> list_ex (\<lambda>c. c_state c = Replied \<or> c_state c = Pending) cs))
      else ret False)"

definition wait_for_next :: "poller_env \<Rightarrow> nat \<Rightarrow> poll_loop_state \<Rightarrow> unit pw" where
  "wait_for_next env limit st = only_if (lp_number st < limit)
     (bnd (read_clock env) (\<lambda>t1. bnd (read_clock env) (\<lambda>t2.
      sq (record_state env (lp_last st) None (Some (t2 + max 0 (min (pl_interval env) (deadline env - t1)))))
      (cappedSleep env (pl_interval env)))))"

definition after_polls :: "poller_env \<Rightarrow> poll_loop_state \<Rightarrow> (poll_terminal \<times> nat) pw" where
  "after_polls env st = end_or_timeout env st (bnd (comments_now env) (\<lambda>cs.
     if list_ex (\<lambda>c. c_state c = Blocked) cs then enterReadyLoop env st
     else finish_poller env st Max_polls_reached))"

text \<open>One turn: the end of the loop, or the state of the next turn.\<close>

definition after_pass ::
  "poller_env \<Rightarrow> nat \<Rightarrow> poll_loop_state \<Rightarrow> pass_result \<Rightarrow> ((poll_terminal \<times> nat) + poll_loop_state) pw" where
  "after_pass env limit st pass =
     (if ps_rateLimited pass then sq (cappedSleep env RATE_LIMIT_BACKOFF_MS) (ret (Inr st))
      else bnd (count_quiet env pass (lp_quiet st)) (\<lambda>quiet.
        let st' = st\<lparr>lp_run := lp_run st + 1, lp_quiet := quiet\<rparr> in
        if quiet_threshold env \<le> int quiet then bnd (enterReadyLoop env st') (\<lambda>r. ret (Inl r))
        else bnd (only_blocked_left env pass) (\<lambda>stuck.
          if stuck then bnd (enterReadyLoop env st') (\<lambda>r. ret (Inl r))
          else sq (wait_for_next env limit st') (ret (Inr (st'\<lparr>lp_number := lp_number st + 1\<rparr>))))))"

definition turn_rest :: "poller_env \<Rightarrow> nat \<Rightarrow> poll_loop_state \<Rightarrow> ((poll_terminal \<times> nat) + poll_loop_state) pw" where
  "turn_rest env limit st = bnd (run_pass env (lp_number st)) (\<lambda>r. case r of
         Inl _ \<Rightarrow> (let st' = st\<lparr>lp_failures := lp_failures st + 1\<rparr> in
           if MAX_EXCEPTION_RETRIES \<le> lp_failures st'
           then bnd (end_or_timeout env st' (finish_poller env st' Max_polls_reached)) (\<lambda>r. ret (Inl r))
           else sq (cappedSleep env RATE_LIMIT_BACKOFF_MS) (ret (Inr st')))
       | Inr (pass, a) \<Rightarrow> after_pass env limit ((take_attempt a st)\<lparr>lp_failures := 0\<rparr>) pass)"

definition poll_turn :: "poller_env \<Rightarrow> nat \<Rightarrow> poll_loop_state \<Rightarrow> ((poll_terminal \<times> nat) + poll_loop_state) pw" where
  "poll_turn env limit st = bnd (read_clock env) (\<lambda>now.
     if deadline env \<le> now then bnd (finish_poller env st Poll_timed_out) (\<lambda>r. ret (Inl r))
     else turn_rest env limit st)"

fun poll_loop :: "nat \<Rightarrow> poller_env \<Rightarrow> nat \<Rightarrow> poll_loop_state \<Rightarrow> (poll_terminal \<times> nat) option pw" where
  "poll_loop fuel env limit st =
     (if limit < lp_number st then bnd (after_polls env st) (\<lambda>r. ret (Some r))
      else case fuel of 0 \<Rightarrow> ret None
        | Suc k \<Rightarrow> bnd (poll_turn env limit st) (\<lambda>r. case r of
              Inl out \<Rightarrow> ret (Some out) | Inr st' \<Rightarrow> poll_loop k env limit st'))"

declare poll_loop.simps [simp del]

definition runPoller :: "nat \<Rightarrow> poller_env \<Rightarrow> (poll_terminal \<times> nat) option pw" where
  "runPoller fuel env = bnd (ask (\<lambda>s. listPollAttempts (pz_db s) (pl_runId env))) (\<lambda>existing.
     let old = filter (\<lambda>a. pa_status a \<noteq> Poll_rate_limited) existing; n = length old in
     poll_loop fuel env (max (pl_maxPolls env) (n + 1))
       \<lparr>lp_number = n + 1, lp_run = n, lp_last = (if old = [] then None else Some (last old)),
        lp_failures = 0, lp_quiet = 0\<rparr>)"

section \<open>What is recorded, and how many polls count\<close>

definition recorded :: "nat \<Rightarrow> poll_terminal \<times> nat \<Rightarrow> poller_state \<Rightarrow> bool" where
  "recorded most out s \<longleftrightarrow> snd out \<le> most \<and> (\<exists>acts a. pz_acts s = acts @ [Recorded a (Some (fst out)) None])"

abbreviation reports :: "'a pw \<Rightarrow> ('a \<Rightarrow> poller_state \<Rightarrow> bool) \<Rightarrow> bool" where
  "reports m Q \<equiv> triple (\<lambda>_. True) m Q (\<lambda>_ _. True)"

lemma reports_any: "reports m (\<lambda>_ _. True)"
  by (rule tripleI) (simp split: prod.split sum.split)

lemma reports_after: "(\<And>x. reports (k x) Q) \<Longrightarrow> reports (bnd m k) Q"
  by (rule triple_bnd [OF reports_any])

lemma reports_then: "reports k Q \<Longrightarrow> reports (sq m k) Q"
  unfolding sq_def by (rule reports_after)

lemma reports_map: "reports m (\<lambda>x. Q (f x)) \<Longrightarrow> reports (bnd m (\<lambda>x. ret (f x))) Q"
  by (erule triple_bnd) (simp add: triple_ret)

lemma reports_finish: "lp_run st \<le> n \<Longrightarrow> reports (finish_poller env st t) (recorded n)"
  unfolding finish_poller_def record_state_def
  by (rule tripleI) (auto simp: sq_def bnd_def ret_def call_env_def recorded_def split: prod.splits sum.splits)

lemma reports_ready: "lp_run st < n \<Longrightarrow> reports (enterReadyLoop env st) (recorded n)"
  unfolding enterReadyLoop_def
  by (auto intro!: reports_finish reports_after reports_then triple_if split: option.split ready_action.split sum.split
      simp: take_attempt_def)

lemma reports_timeout:
  "lp_run st \<le> n \<Longrightarrow> reports m (recorded n) \<Longrightarrow> reports (end_or_timeout env st m) (recorded n)"
  unfolding end_or_timeout_def by (intro reports_after triple_if reports_finish)

lemma reports_after_polls: "lp_run st < n \<Longrightarrow> reports (after_polls env st) (recorded n)"
  unfolding after_polls_def
  by (intro reports_timeout reports_after triple_if reports_ready reports_finish) simp_all

text \<open>A turn keeps \<open>lp_number\<close> one ahead of \<open>lp_run\<close>.\<close>

definition turn_good :: "nat \<Rightarrow> (poll_terminal \<times> nat) + poll_loop_state \<Rightarrow> poller_state \<Rightarrow> bool" where
  "turn_good n r s \<longleftrightarrow> (case r of Inl out \<Rightarrow> recorded n out s | Inr st \<Rightarrow> lp_number st = lp_run st + 1 \<and> lp_number st \<le> n)"

lemma turn_ret: "reports (ret (Inr st)) (turn_good n) \<longleftrightarrow> lp_number st = lp_run st + 1 \<and> lp_number st \<le> n"
  by (simp add: triple_def ret_def turn_good_def)

lemma turn_Inl: "turn_good n (Inl out) = recorded n out"
  by (simp add: fun_eq_iff turn_good_def)

lemma turn_end: "reports m (recorded n) \<Longrightarrow> reports (bnd m (\<lambda>r. ret (Inl r))) (turn_good n)"
  by (rule reports_map) (simp add: turn_Inl)

lemma reports_after_pass:
  assumes "lp_number st = lp_run st + 1" and "lp_number st \<le> limit"
  shows "reports (after_pass env limit st pass) (turn_good (Suc limit))"
  unfolding after_pass_def Let_def
  by (intro triple_if reports_then reports_after turn_end reports_ready) (use assms in \<open>simp_all add: turn_ret\<close>)

lemma reports_turn:
  assumes "lp_number st = lp_run st + 1" and "lp_number st \<le> limit"
  shows "reports (poll_turn env limit st) (turn_good (Suc limit))"
  unfolding poll_turn_def turn_rest_def Let_def
  by (rule reports_after, rule triple_if, rule turn_end, rule reports_finish)
    (use assms in \<open>auto intro!: reports_after triple_if turn_end reports_timeout reports_finish reports_then
      reports_after_pass split: sum.split simp: turn_ret take_attempt_def split: option.split\<close>)

definition loop_good :: "nat \<Rightarrow> (poll_terminal \<times> nat) option \<Rightarrow> poller_state \<Rightarrow> bool" where
  "loop_good n r s \<longleftrightarrow> (case r of None \<Rightarrow> True | Some out \<Rightarrow> recorded n out s)"

lemma loop_Some: "loop_good n (Some out) = recorded n out"
  by (simp add: fun_eq_iff loop_good_def)

lemma loop_None: "reports (ret None) (loop_good n)"
  by (simp add: triple_ret loop_good_def)

lemma reports_Some:
  "reports m (recorded n) \<Longrightarrow> reports (bnd m (\<lambda>r. ret (Some r))) (loop_good n)"
  by (erule triple_bnd) (simp add: triple_ret loop_Some)

lemma reports_loop:
  "lp_number st = lp_run st + 1 \<Longrightarrow> lp_number st \<le> Suc limit \<Longrightarrow>
   reports (poll_loop fuel env limit st) (loop_good (Suc limit))"
proof (induction fuel arbitrary: st)
  case 0
  then have "reports (after_polls env st) (recorded (Suc limit))" by (intro reports_after_polls) simp
  then show ?case
    by (subst poll_loop.simps, intro triple_if) (simp_all add: reports_Some loop_None)
next
  case (Suc k)
  have polls: "reports (after_polls env st) (recorded (Suc limit))" using Suc.prems by (intro reports_after_polls) simp
  show ?case
  proof (cases "limit < lp_number st")
    case True
    then show ?thesis using polls
      by (subst poll_loop.simps, intro triple_if) (simp_all add: reports_Some)
  next
    case False
    then have turn: "reports (poll_turn env limit st) (turn_good (Suc limit))"
      using Suc.prems by (intro reports_turn) simp_all
    show ?thesis
    proof (subst poll_loop.simps, simp add: False, rule triple_bnd [OF turn])
      fix r
      show "triple (turn_good (Suc limit) r) (case r of Inl out \<Rightarrow> ret (Some out) | Inr st' \<Rightarrow> poll_loop k env limit st')
          (loop_good (Suc limit)) (\<lambda>_ _. True)"
      proof (cases r)
        case (Inl out)
        then show ?thesis by (simp add: turn_Inl triple_ret loop_Some)
      next
        case (Inr st')
        show ?thesis
        proof (cases "lp_number st' = lp_run st' + 1 \<and> lp_number st' \<le> Suc limit")
          case True
          then have "reports (poll_loop k env limit st') (loop_good (Suc limit))"
            by (intro Suc.IH) simp_all
          then show ?thesis unfolding Inr sum.case by (rule triple_pre) simp
        next
          case False
          then have "\<not> turn_good (Suc limit) (Inr st') s" for s by (simp add: turn_good_def)
          then show ?thesis unfolding Inr triple_def by blast
        qed
      qed
    qed
  qed
qed

definition poll_limit :: "poller_env \<Rightarrow> review_db \<Rightarrow> nat" where
  "poll_limit env db = max (pl_maxPolls env)
     (length (filter (\<lambda>a. pa_status a \<noteq> Poll_rate_limited) (listPollAttempts db (pl_runId env))) + 1)"

text \<open>
  C11. The state a poller returns is the one it recorded, as its last act, on the last attempt; and it counts at
  most one poll more than \<open>maxPolls\<close>, or than one new poll after those of earlier pollers.
\<close>

theorem poller_records_its_end:
  "case runPoller fuel env s of
     (Inr (Some (t, n)), s') \<Rightarrow> n \<le> Suc (poll_limit env (pz_db s)) \<and>
       (\<exists>acts a. pz_acts s' = acts @ [Recorded a (Some t) None])
   | _ \<Rightarrow> True"
proof -
  let ?old = "filter (\<lambda>a. pa_status a \<noteq> Poll_rate_limited) (listPollAttempts (pz_db s) (pl_runId env))"
  let ?st = "\<lparr>lp_number = length ?old + 1, lp_run = length ?old, lp_last = (if ?old = [] then None else Some (last ?old)),
    lp_failures = 0, lp_quiet = 0\<rparr>"
  have run: "runPoller fuel env s = poll_loop fuel env (poll_limit env (pz_db s)) ?st s"
    by (simp add: runPoller_def poll_limit_def prog_simps Let_def)
  have loop: "reports (poll_loop fuel env (poll_limit env (pz_db s)) ?st) (loop_good (Suc (poll_limit env (pz_db s))))"
    by (rule reports_loop) (simp_all add: poll_limit_def)
  have "recorded (Suc (poll_limit env (pz_db s))) (t, n) s'"
    if ends: "runPoller fuel env s = (Inr (Some (t, n)), s')" for t n s'
    using triple_Inr [OF loop TrueI ends [unfolded run]] by (simp only: loop_Some)
  then show ?thesis by (auto simp: recorded_def split: prod.split sum.split option.split)
qed

section \<open>The poller ends\<close>

abbreviation later :: "nat \<Rightarrow> 'a pw \<Rightarrow> bool" where
  "later c m \<equiv> yields (\<lambda>s. c \<le> pz_clock s) (\<lambda>_. True) (\<lambda>_. True) m"

lemma later_call: "later c (call_env f what)"
  by (rule yieldsI) (auto simp: call_env_def split: prod.split sum.split)

lemma later_clock: "later c (read_clock env)"
  unfolding read_clock_def by (rule later_call)

lemma later_sleep: "later c (cappedSleep env ms)"
  unfolding cappedSleep_def Let_def
  by (intro yields_bnd [OF later_clock] yields_only_if later_call)

lemma later_finish: "later c (finish_poller env st t)"
  unfolding finish_poller_def record_state_def by (intro yields_sq later_call yields_ret) simp

lemma later_pass: "later c (run_pass env n)"
  unfolding run_pass_def by (rule yields_catch [OF later_call]) simp_all

lemma later_revert: "later c (revert_run env)"
  unfolding revert_run_def by (intro yields_option yields_ret later_call) simp

lemma later_ready: "later c (enterReadyLoop env st)"
  unfolding enterReadyLoop_def
  by (auto intro!: later_finish yields_bnd [OF later_call] yields_bnd [OF later_pass] yields_sq later_revert
      split: option.split ready_action.split sum.split)

lemma later_after_pass: "later c (after_pass env limit st pass)"
proof -
  have quiet: "later c (count_quiet env pass q)" for q
    unfolding count_quiet_def comments_now_def
    by (rule yields_bnd [where V = "\<lambda>_. True"], intro yields_if yields_bnd [OF yields_ask [where V = "\<lambda>_. True"]]
        yields_bnd [OF later_clock] yields_ret) (simp_all add: yields_ret)
  have stuck: "later c (only_blocked_left env pass)"
    unfolding only_blocked_left_def comments_now_def
    by (intro yields_if yields_bnd [OF yields_ask [where V = "\<lambda>_. True"]] yields_ret) simp_all
  have wait: "later c (wait_for_next env limit st')" for st'
    unfolding wait_for_next_def record_state_def
    by (intro yields_only_if yields_bnd [OF later_clock] yields_sq later_call later_sleep)
  show ?thesis
    unfolding after_pass_def Let_def
    by (intro yields_if yields_sq later_sleep yields_bnd [OF quiet] yields_bnd [OF later_ready] yields_bnd [OF stuck]
        wait yields_ret) simp_all
qed

lemma later_timeout: "later c m \<Longrightarrow> later c (end_or_timeout env st m)"
  unfolding end_or_timeout_def by (intro yields_bnd [OF later_clock] yields_if later_finish)

lemma later_rest: "later c (turn_rest env limit st)"
  unfolding turn_rest_def Let_def
  by (rule yields_bnd [OF later_pass], rule yields_sum, rule yields_if, rule yields_bnd [OF later_timeout],
      rule later_finish, simp add: yields_ret, rule yields_sq [OF later_sleep], simp add: yields_ret,
      rule yields_prod, rule later_after_pass)

text \<open>A turn reads the clock first; past the deadline it ends the loop.\<close>

lemma turn_clock:
  assumes "poll_turn env limit st s = (Inr (Inr st'), s')"
  shows "pz_clock s < pz_clock s' \<and> pl_now env (pz_clock s) < deadline env"
proof -
  let ?now = "pl_now env (pz_clock s)" and ?s = "s\<lparr>pz_clock := pz_clock s + 1\<rparr>"
  have clock: "read_clock env s = (Inr ?now, ?s)" by (simp add: read_clock_def call_env_def)
  have before: "?now < deadline env"
    using assms unfolding poll_turn_def bnd_run [of "read_clock env"] clock
    by (auto simp: prog_simps split: if_splits prod.splits sum.splits)
  have "pz_clock ?s \<le> pz_clock s'"
    using yields_Inr [OF later_rest [of "pz_clock ?s"] order_refl] assms before
    unfolding poll_turn_def bnd_run [of "read_clock env"] clock by simp
  then show ?thesis using before by simp
qed

lemma loop_ends:
  assumes "\<forall>n \<ge> N. deadline env \<le> pl_now env n" and "N < fuel + pz_clock s" and "0 < fuel"
  shows "fst (poll_loop fuel env limit st s) \<noteq> Inr None"
  using assms(2,3)
proof (induction fuel arbitrary: st s)
  case (Suc k)
  have some: "fst (bnd m (\<lambda>r. ret (Some r)) s) \<noteq> Inr None" for m :: "(poll_terminal \<times> nat) pw"
    by (simp add: prog_simps split: prod.split sum.split)
  show ?case
  proof (cases "limit < lp_number st")
    case True
    then have "poll_loop (Suc k) env limit st s = bnd (after_polls env st) (\<lambda>r. ret (Some r)) s"
      by (subst poll_loop.simps) simp
    then show ?thesis using some by metis
  next
    case False
    then have loop: "poll_loop (Suc k) env limit st s = bnd (poll_turn env limit st)
        (\<lambda>r. case r of Inl out \<Rightarrow> ret (Some out) | Inr st' \<Rightarrow> poll_loop k env limit st') s"
      by (subst poll_loop.simps) simp
    show ?thesis
    proof (cases "\<exists>st' s'. poll_turn env limit st s = (Inr (Inr st'), s')")
      case True
      then obtain st' s' where turn: "poll_turn env limit st s = (Inr (Inr st'), s')" by blast
      from turn_clock [OF this] assms(1) have "pz_clock s < pz_clock s'" "pz_clock s < N"
        by (blast, meson not_le)
      then have "N < k + pz_clock s'" "0 < k" using Suc.prems by linarith+
      from Suc.IH [OF this] show ?thesis unfolding loop by (simp add: bnd_run turn)
    next
      case False
      then show ?thesis unfolding loop by (auto simp: prog_simps split: prod.splits sum.splits)
    qed
  qed
qed simp

text \<open>
  C10. If from some reading on the clock is past the deadline, the poller ends, with that much fuel, however
  often GitHub limits the rate and whatever the passes do.
\<close>

theorem poller_ends:
  assumes "\<forall>n \<ge> N. deadline env \<le> pl_now env n" and "N < fuel"
  shows "fst (runPoller fuel env s) \<noteq> Inr None"
  unfolding runPoller_def Let_def bnd_run ask_run
  using loop_ends [OF assms(1)] assms(2) by simp

text \<open>A poller whose clock advances by a day with every reading.\<close>

definition daily_poller :: poller_env where
  "daily_poller = \<lparr>pl_runId = ''r'', pl_now = (\<lambda>n. int n * 86400000),
     pl_pass = (\<lambda>n k db. (Inl ''rate limit'', db)), pl_sleep = (\<lambda>n ms db. (Inr (), db)),
     pl_record = (\<lambda>n a t at db. (Inr (), db)), pl_check = None, pl_revert = None, pl_maxPolls = 10,
     pl_interval = 60000, pl_readyMaxDays = 7, pl_startedAt = 0, pl_quiet = None, pl_grace = None,
     pl_maxReactivations = None\<rparr>"

theorem poller_ends_witness:
  "fst (runPoller 8 daily_poller \<lparr>pz_db = \<lparr>vb_comments = [], vb_replies = [], vb_polls = [], vb_attempts = []\<rparr>,
     pz_clock = 0, pz_acts = []\<rparr>) \<noteq> Inr None"
  by (rule poller_ends [where N = 7]) (simp_all add: daily_poller_def deadline_def)

end
