(* ===== verification/Review_Verdicts.thy ===== *)
theory Review_Verdicts
  imports Text Effects Domain_Review
begin

text \<open>
  The verdicts of the reviews of a run, \<^verbatim>\<open>application/src/review-fix/read-verdicts.ts\<close>: what the agent
  wrote, after the guards against reviews that pass without evidence. The extraction of the agent's
  result is an argument. Letters are those of ASCII: the schemas admit no others in the words compared. Messages
  are shortened where the source has a dash that is not ASCII.
  Lemmas: exactly when a review approves.
\<close>

section \<open>Severities\<close>

definition upper_char :: "char \<Rightarrow> char" where
  "upper_char c = (let n = of_char c :: nat in if 97 \<le> n \<and> n \<le> 122 then char_of (n - 32) else c)"

definition to_lower :: "string \<Rightarrow> string" where
  "to_lower = map lower_char"

definition to_upper :: "string \<Rightarrow> string" where
  "to_upper = map upper_char"

definition SEVERITY_RANK :: "(string \<times> nat) list" where
  "SEVERITY_RANK = [(''critical'', 0), (''high'', 1), (''medium'', 2), (''low'', 3),
     (''p0'', 0), (''p1'', 1), (''p2'', 2), (''p3'', 3)]"

definition severityRank :: "string \<Rightarrow> nat option" where
  "severityRank severity = map_of SEVERITY_RANK (to_lower (js_trim severity))"

record review_finding =
  rv_severity :: string
  rv_summary :: string
  rv_files :: "string list"

definition threshold_rank :: "string \<Rightarrow> nat" where
  "threshold_rank threshold = (case severityRank threshold of None \<Rightarrow> 2 | Some n \<Rightarrow> n)"

text \<open>An unknown severity ranks at infinity: it never blocks.\<close>

definition severityGate :: "review_finding list \<Rightarrow> string \<Rightarrow> bool \<times> review_finding list" where
  "severityGate findings threshold =
     (let offending = filter (\<lambda>f. case severityRank (rv_severity f) of None \<Rightarrow> False
        | Some n \<Rightarrow> n \<le> threshold_rank threshold) findings
      in (offending \<noteq> [], offending))"

definition allKnownSeveritiesBelowThreshold :: "review_finding list \<Rightarrow> string \<Rightarrow> bool" where
  "allKnownSeveritiesBelowThreshold findings threshold \<longleftrightarrow> findings \<noteq> [] \<and>
     list_all (\<lambda>f. case severityRank (rv_severity f) of None \<Rightarrow> False
       | Some n \<Rightarrow> threshold_rank threshold < n) findings"

section \<open>Reviews of a step\<close>

datatype review_word = Word_pass | Word_fail | Word_fabricated

record raw_finding =
  rw_severity :: string
  rw_summary :: string
  rw_file :: "string option"
  rw_files :: "string list option"

record raw_review =
  rv_result :: "review_word option"
  rv_findings :: "raw_finding list option"

record review_opts =
  vo_blockOn :: "string option"
  vo_issueBody :: bool
  vo_allowFabricated :: bool

text \<open>\<open>extractResult\<close> failed with a detail, a classification and a code of the violation.\<close>

record extract_failure =
  xf_detail :: string
  xf_classification :: string
  xf_violation :: string

record review_verdict =
  ve_verdict :: review_word
  ve_overridden :: bool
  ve_offending :: "raw_finding list"

definition made_finding :: "string \<Rightarrow> raw_finding" where
  "made_finding summary = \<lparr>rw_severity = ''critical'', rw_summary = summary, rw_file = None, rw_files = None\<rparr>"

definition normal_finding :: "raw_finding \<Rightarrow> review_finding" where
  "normal_finding f = \<lparr>rv_severity = rw_severity f, rv_summary = rw_summary f,
     rv_files = (case rw_files f of Some fs \<Rightarrow> fs
       | None \<Rightarrow> (if truthy (rw_file f) then [the (rw_file f)] else []))\<rparr>"

definition raw_of :: "review_finding \<Rightarrow> raw_finding" where
  "raw_of f = \<lparr>rw_severity = rv_severity f, rw_summary = rv_summary f, rw_file = None, rw_files = Some (rv_files f)\<rparr>"

definition plain_verdict :: "review_word \<Rightarrow> raw_finding list \<Rightarrow> review_verdict" where
  "plain_verdict w fs = \<lparr>ve_verdict = w, ve_overridden = False, ve_offending = fs\<rparr>"

text \<open>What the severity gate decides, if anything.\<close>

definition gate_verdict :: "string option \<Rightarrow> review_word option \<Rightarrow> raw_finding list \<Rightarrow> review_verdict option" where
  "gate_verdict blockOn result fs =
     (if \<not> (truthy blockOn \<and> fs \<noteq> []) then None
      else let normal = map normal_finding fs; (blocked, offending) = severityGate normal (the blockOn)
        in if blocked then Some \<lparr>ve_verdict = Word_fail, ve_overridden = (result = Some Word_pass),
             ve_offending = map raw_of offending\<rparr>
        else if allKnownSeveritiesBelowThreshold normal (the blockOn) \<and> result = Some Word_fail
        then Some \<lparr>ve_verdict = Word_pass, ve_overridden = True, ve_offending = []\<rparr>
        else None)"

definition review_verdict_of :: "review_opts \<Rightarrow> raw_review \<Rightarrow> review_verdict" where
  "review_verdict_of opts raw =
     (let fs = (case rv_findings raw of None \<Rightarrow> [] | Some x \<Rightarrow> x) in
      if rv_result raw = Some Word_fabricated
      then (if vo_allowFabricated opts then plain_verdict Word_fabricated fs
            else plain_verdict Word_fail (if fs \<noteq> [] then fs else [made_finding ''Fabricated evidence detected'']))
      else if vo_issueBody opts \<and> rv_result raw = Some Word_pass \<and> fs = []
      then plain_verdict Word_fail [made_finding ''Empty-pass verdict when issue.md is present'']
      else case gate_verdict (vo_blockOn opts) (rv_result raw) fs of
          Some v \<Rightarrow> v
        | None \<Rightarrow> if rv_result raw = Some Word_fail \<and> fs \<noteq> [] then plain_verdict Word_fail fs
            else plain_verdict (case rv_result raw of None \<Rightarrow> Word_pass | Some w \<Rightarrow> w) [])"

definition readReviewVerdict ::
  "review_opts \<Rightarrow> extract_failure + raw_review \<Rightarrow> extract_failure + review_verdict" where
  "readReviewVerdict opts extracted = map_sum id (review_verdict_of opts) extracted"

section \<open>Fixes of a review\<close>

datatype fix_word = Done_with_fixes | Cannot_fix | Done_no_fixes_needed

record fix_result =
  fr_result :: fix_word
  fr_rebuttal :: string
  fr_outOfScope :: "(string \<times> string) list"

record fix_verdict =
  fx_verdict :: fix_word
  fx_outOfScope :: "(string \<times> string) list option"
  fx_rebuttal :: "string option"

definition readFixVerdict :: "extract_failure + fix_result \<Rightarrow> extract_failure + fix_verdict" where
  "readFixVerdict extracted = map_sum id (\<lambda>r. \<lparr>fx_verdict = fr_result r,
     fx_outOfScope = (if fr_outOfScope r \<noteq> [] then Some (fr_outOfScope r) else None),
     fx_rebuttal = (if fr_result r = Done_no_fixes_needed then Some (fr_rebuttal r) else None)\<rparr>) extracted"

section \<open>The review of the whole change\<close>

record criterion_check =
  cc_criterion :: string
  cc_result :: string
  cc_evidence :: "string option"

record whole_finding =
  wf_severity :: string
  wf_files :: "string list"
  wf_evidence :: string
  wf_rationale :: string
  wf_correction :: string
  wf_blocking :: "bool option"

record whole_review =
  wr_verdict :: string
  wr_criteria :: "criterion_check list"
  wr_findings :: "whole_finding list"
  wr_summary :: "string option"

datatype whole_word = APPROVE | REQUEST_CHANGES

record whole_verdict =
  wv_verdict :: whole_word
  wv_criteria :: "criterion_check list"
  wv_findings :: "whole_finding list"
  wv_summary :: "string option"
  wv_override :: "string option"

definition approving :: "string \<Rightarrow> bool" where
  "approving verdict \<longleftrightarrow> to_upper verdict = ''APPROVE'' \<or> to_upper verdict = ''PASS''"

definition unevaluated :: whole_finding where
  "unevaluated = \<lparr>wf_severity = ''critical'', wf_files = [],
     wf_evidence = ''No acceptance criteria evaluated in result.json'',
     wf_rationale = ''Reviewer failed to evaluate acceptance criteria from issue.md'',
     wf_correction = ''Enumerate each acceptance criterion from issue.md and evaluate PASS/FAIL'',
     wf_blocking = Some True\<rparr>"

definition blocking_finding :: "whole_finding \<Rightarrow> bool" where
  "blocking_finding f \<longleftrightarrow> wf_blocking f = Some True \<or>
     to_lower (wf_severity f) \<in> {''critical'', ''high''} \<or> to_upper (wf_severity f) \<in> {''P0'', ''P1''}"

definition failed_criterion :: "criterion_check \<Rightarrow> bool" where
  "failed_criterion c \<longleftrightarrow> to_upper (cc_result c) = ''FAIL''"

text \<open>\<open>join\<close> with a separator of several letters.\<close>

fun join_text :: "string \<Rightarrow> string list \<Rightarrow> string" where
  "join_text sep [] = []"
| "join_text sep [x] = x"
| "join_text sep (x # y # ys) = x @ sep @ join_text sep (y # ys)"

definition evaluateWholeChangeReviewVerdict :: "whole_review \<Rightarrow> bool \<Rightarrow> whole_verdict" where
  "evaluateWholeChangeReviewVerdict raw issueBody =
     (let verdict = (if approving (wr_verdict raw) then APPROVE else REQUEST_CHANGES);
          failing = filter failed_criterion (wr_criteria raw);
          blocking = filter blocking_finding (wr_findings raw);
          answer = \<lparr>wv_verdict = REQUEST_CHANGES, wv_criteria = wr_criteria raw, wv_findings = wr_findings raw,
            wv_summary = wr_summary raw, wv_override = None\<rparr>
      in if issueBody \<and> wr_criteria raw = []
         then answer\<lparr>wv_findings := unevaluated # wr_findings raw,
           wv_override := Some ''Empty acceptance criteria verification''\<rparr>
         else if failing \<noteq> [] \<and> verdict = APPROVE
         then answer\<lparr>wv_override := Some (''Acceptance criteria failed: '' @ join_text '', '' (map cc_criterion failing))\<rparr>
         else if blocking \<noteq> [] \<and> verdict = APPROVE
         then answer\<lparr>wv_override := Some (''Blocking findings present ('' @ show_nat (length blocking) @ '' critical/high findings)'')\<rparr>
         else if failing \<noteq> [] \<or> blocking \<noteq> [] then answer
         else answer\<lparr>wv_verdict := verdict\<rparr>)"

definition readWholeChangeReviewVerdict ::
  "bool \<Rightarrow> extract_failure + whole_review \<Rightarrow> extract_failure + whole_verdict" where
  "readWholeChangeReviewVerdict issueBody extracted =
     map_sum id (\<lambda>raw. evaluateWholeChangeReviewVerdict raw issueBody) extracted"

section \<open>The narrow verification\<close>

record finding_evaluation =
  ev_finding :: string
  ev_resolved :: bool
  ev_evidence :: string

record narrow_review =
  nr_verdict :: string
  nr_evaluations :: "finding_evaluation list"
  nr_regressions :: "string list"
  nr_summary :: "string option"

record narrow_verdict =
  nv_pass :: bool
  nv_evaluations :: "finding_evaluation list"
  nv_regressions :: "string list"
  nv_summary :: "string option"
  nv_override :: "string option"

definition evaluateNarrowVerificationVerdict :: "narrow_review \<Rightarrow> nat \<Rightarrow> narrow_verdict" where
  "evaluateNarrowVerificationVerdict raw original =
     (let pass = approving (nr_verdict raw); evaluations = nr_evaluations raw; regressions = nr_regressions raw;
          unresolved = filter (\<lambda>e. \<not> ev_resolved e) evaluations;
          answer = \<lparr>nv_pass = False, nv_evaluations = evaluations, nv_regressions = regressions,
            nv_summary = nr_summary raw, nv_override = None\<rparr>
      in if 0 < original \<and> evaluations = []
         then answer\<lparr>nv_override := Some ''Empty findings evaluations''\<rparr>
         else if unresolved \<noteq> [] \<and> pass
         then answer\<lparr>nv_override := Some (''Unresolved blocking findings: '' @ join_text '', '' (map ev_finding unresolved))\<rparr>
         else if regressions \<noteq> [] \<and> pass
         then answer\<lparr>nv_override := Some (''Obvious regressions detected: '' @ join_text ''; '' regressions)\<rparr>
         else if unresolved \<noteq> [] \<or> regressions \<noteq> [] then answer
         else answer\<lparr>nv_pass := pass\<rparr>)"

definition readNarrowVerificationVerdict ::
  "nat \<Rightarrow> extract_failure + narrow_review \<Rightarrow> extract_failure + narrow_verdict" where
  "readNarrowVerificationVerdict original extracted =
     map_sum id (\<lambda>raw. evaluateNarrowVerificationVerdict raw original) extracted"

section \<open>When a review passes\<close>

lemma filter_none: "filter P xs = [] \<longleftrightarrow> list_all (\<lambda>x. \<not> P x) xs"
  by (induction xs) auto

lemma whole_approves: "wv_verdict (evaluateWholeChangeReviewVerdict raw issueBody) = APPROVE \<longleftrightarrow>
    approving (wr_verdict raw) \<and> (issueBody \<longrightarrow> wr_criteria raw \<noteq> []) \<and>
    list_all (\<lambda>c. \<not> failed_criterion c) (wr_criteria raw) \<and> list_all (\<lambda>f. \<not> blocking_finding f) (wr_findings raw)"
  by (simp add: evaluateWholeChangeReviewVerdict_def Let_def filter_none)

lemma narrow_passes: "nv_pass (evaluateNarrowVerificationVerdict raw original) \<longleftrightarrow>
    approving (nr_verdict raw) \<and> (0 < original \<longrightarrow> nr_evaluations raw \<noteq> []) \<and>
    list_all ev_resolved (nr_evaluations raw) \<and> nr_regressions raw = []"
  by (simp add: evaluateNarrowVerificationVerdict_def Let_def filter_none)

text \<open>A finding of the step that the severity gate holds against a passing review.\<close>

definition offends :: "review_opts \<Rightarrow> raw_review \<Rightarrow> bool" where
  "offends opts raw \<longleftrightarrow> truthy (vo_blockOn opts) \<and> (case rv_findings raw of None \<Rightarrow> False
     | Some fs \<Rightarrow> fst (severityGate (map normal_finding fs) (the (vo_blockOn opts))))"

definition only_minor :: "review_opts \<Rightarrow> raw_review \<Rightarrow> bool" where
  "only_minor opts raw \<longleftrightarrow> truthy (vo_blockOn opts) \<and> (case rv_findings raw of None \<Rightarrow> False
     | Some fs \<Rightarrow> allKnownSeveritiesBelowThreshold (map normal_finding fs) (the (vo_blockOn opts)))"

definition has_findings :: "raw_review \<Rightarrow> bool" where
  "has_findings raw \<longleftrightarrow> (case rv_findings raw of None \<Rightarrow> False | Some fs \<Rightarrow> fs \<noteq> [])"

lemma gate_empty: "\<not> fst (severityGate [] t)" "\<not> allKnownSeveritiesBelowThreshold [] t"
  by (simp_all add: severityGate_def allKnownSeveritiesBelowThreshold_def)

lemma minor_not_offending: "only_minor opts raw \<Longrightarrow> \<not> offends opts raw"
  by (auto simp: only_minor_def offends_def severityGate_def allKnownSeveritiesBelowThreshold_def Let_def filter_none
      list_all_iff split: option.splits)

lemma step_passes: "ve_verdict (review_verdict_of opts raw) = Word_pass \<longleftrightarrow>
    rv_result raw \<noteq> Some Word_fabricated \<and> \<not> offends opts raw \<and>
    (if rv_result raw = Some Word_fail then only_minor opts raw
     else rv_result raw = Some Word_pass \<longrightarrow> vo_issueBody opts \<longrightarrow> has_findings raw)"
proof (cases "rv_findings raw = None \<or> rv_findings raw = Some []")
  case True
  then have "gate_verdict (vo_blockOn opts) (rv_result raw) (case rv_findings raw of None \<Rightarrow> [] | Some x \<Rightarrow> x) = None"
    by (auto simp: gate_verdict_def)
  then show ?thesis
    using True by (cases "rv_result raw"; cases "the (rv_result raw)"; auto simp: review_verdict_of_def plain_verdict_def offends_def only_minor_def
        has_findings_def gate_empty Let_def)
next
  case False
  then obtain fs where fs: "rv_findings raw = Some fs" "fs \<noteq> []" by auto
  show ?thesis
  proof (cases "truthy (vo_blockOn opts)")
    case True
    have minor: "allKnownSeveritiesBelowThreshold (map normal_finding fs) (the (vo_blockOn opts)) \<Longrightarrow>
        \<not> fst (severityGate (map normal_finding fs) (the (vo_blockOn opts)))"
      using minor_not_offending [of opts raw] True fs by (simp add: only_minor_def offends_def)
    show ?thesis
      using fs True minor by (cases "rv_result raw"; cases "the (rv_result raw)")
        (auto simp: review_verdict_of_def plain_verdict_def gate_verdict_def offends_def only_minor_def has_findings_def
          Let_def split: prod.splits if_splits)
  next
    case False
    then show ?thesis
      using fs by (cases "rv_result raw"; cases "the (rv_result raw)")
        (auto simp: review_verdict_of_def plain_verdict_def gate_verdict_def offends_def only_minor_def has_findings_def Let_def)
  qed
qed


end
